(* ===== verification/Prelude.thy ===== *)
theory Prelude
  imports Main "HOL-Library.Char_ord" "HOL-Library.List_Lexorder"
    "HOL-Library.Product_Lexorder" "HOL-Library.Sublist"
begin

text \<open>
  The shared vocabulary of the development: the types the Go sources use (strings as byte
  lists, instants and durations as integers of nanoseconds, errors as the left summand of a
  result), the parts of the Go standard library the control plane relies on (\<open>strings\<close>,
  \<open>encoding/hex\<close>, \<open>len([]rune(s))\<close>), the sequencing combinator for code that returns early
  on an error, the transaction wrapper, and the generic list lemmas the components share.
  The collection \<open>result_simps\<close> holds the facts that open a successful chain of fallible
  steps into the facts about each step.
\<close>

named_theorems result_simps \<open>inversion of successful and failed results\<close>
named_theorems sql_simps \<open>membership and counting facts of the relational operators\<close>

section \<open>Instants and durations\<close>

text \<open>
  \<open>time.Time\<close> and \<open>time.Duration\<close> as integers of nanoseconds: an instant counts from the
  Unix epoch, and the zero \<open>time.Time\<close> is the first of January of year one.
\<close>

type_synonym time = int
type_synonym duration = int

definition nanosecond :: duration where "nanosecond = 1"
definition second :: duration where "second = 1000000000"
definition minute :: duration where "minute = 60 * second"
definition hour :: duration where "hour = 60 * minute"

definition zero_time :: time where "zero_time = - 62135596800 * second"

lemmas duration_defs = nanosecond_def second_def minute_def hour_def

section \<open>Results: errors as values\<close>

type_synonym ('e, 'a) result = "'e + 'a"

definition bindR :: "'e + 'a \<Rightarrow> ('a \<Rightarrow> 'e + 'b) \<Rightarrow> 'e + 'b" where
  "bindR m f = (case m of Inl e \<Rightarrow> Inl e | Inr x \<Rightarrow> f x)"

text \<open>\<open>guardR b e k\<close> is the early return \<open>if b { return e }\<close> followed by \<open>k\<close>.\<close>

definition guardR :: "bool \<Rightarrow> 'e \<Rightarrow> 'e + 'b \<Rightarrow> 'e + 'b" where
  "guardR b e k = (if b then Inl e else k)"

definition is_ok :: "'e + 'a \<Rightarrow> bool" where
  "is_ok r = (case r of Inl _ \<Rightarrow> False | Inr _ \<Rightarrow> True)"

lemma bindR_simps [simp]: "bindR (Inl e) f = Inl e" "bindR (Inr x) f = f x"
  by (simp_all add: bindR_def)

lemma bindR_eq_Inr [result_simps]:
  "(bindR m f = Inr y) = (\<exists>x. m = Inr x \<and> f x = Inr y)"
  by (cases m) simp_all

lemma bindR_eq_Inl [result_simps]:
  "(bindR m f = Inl e) = (m = Inl e \<or> (\<exists>x. m = Inr x \<and> f x = Inl e))"
  by (cases m) simp_all

lemma guardR_eq_Inr [result_simps]: "(guardR b e k = Inr y) = (\<not> b \<and> k = Inr y)"
  by (simp add: guardR_def)

lemma guardR_eq_Inl [result_simps]:
  "(guardR b e k = Inl e') = (b \<and> e' = e \<or> \<not> b \<and> k = Inl e')"
  by (auto simp: guardR_def)

lemma guardR_simps [simp]: "guardR True e k = Inl e" "guardR False e k = k"
  by (simp_all add: guardR_def)

lemma is_ok_simps [simp]: "is_ok (Inr x)" "\<not> is_ok (Inl e)"
  by (simp_all add: is_ok_def)

lemma ok_result: "is_ok (fst x) \<Longrightarrow> x = (Inr (projr (fst x)), snd x)"
  by (cases x; cases "fst x") auto

lemma is_ok_iff: "is_ok r = (\<exists>x. r = Inr x)"
  by (cases r) simp_all

text \<open>
  A loop that stops at the first error, as \<open>for _, x := range xs { if err := f(x); err != nil
  { return err } }\<close> does, threading a state.
\<close>

fun foldR :: "('a \<Rightarrow> 's \<Rightarrow> 'e + 's) \<Rightarrow> 'a list \<Rightarrow> 's \<Rightarrow> 'e + 's" where
  "foldR f [] s = Inr s"
| "foldR f (x # xs) s = bindR (f x s) (foldR f xs)"

lemma foldR_invariant:
  assumes "foldR f xs s = Inr s'" and "P s"
    and "\<And>x s s'. x \<in> set xs \<Longrightarrow> P s \<Longrightarrow> f x s = Inr s' \<Longrightarrow> P s'"
  shows "P s'"
  using assms
proof (induction xs arbitrary: s)
  case Nil
  then show ?case by simp
next
  case (Cons x xs)
  from Cons.prems(1) obtain t where t: "f x s = Inr t" "foldR f xs t = Inr s'"
    by (auto simp: result_simps)
  have "P t" using Cons.prems(2) Cons.prems(3)[of x s t] t(1) by simp
  with t(2) show ?case
    by (rule Cons.IH) (use Cons.prems(3) in auto)
qed

lemma foldR_append: "foldR f (xs @ ys) s = bindR (foldR f xs s) (foldR f ys)"
proof (induction xs arbitrary: s)
  case (Cons x xs)
  then show ?case by (cases "f x s") simp_all
qed simp

text \<open>Loops that map each element, stopping at the first error.\<close>

fun mapR :: "('a \<Rightarrow> 'e + 'b) \<Rightarrow> 'a list \<Rightarrow> 'e + 'b list" where
  "mapR f [] = Inr []"
| "mapR f (x # xs) = bindR (f x) (\<lambda>y. bindR (mapR f xs) (\<lambda>ys. Inr (y # ys)))"

lemma mapR_eq_Inr: "mapR f xs = Inr ys \<Longrightarrow> list_all2 (\<lambda>x y. f x = Inr y) xs ys"
  by (induction xs arbitrary: ys) (auto simp: result_simps)

lemma mapR_out: "mapR f xs = Inr ys \<Longrightarrow> x \<in> set xs \<Longrightarrow> \<exists>y \<in> set ys. f x = Inr y"
  by (induction xs arbitrary: ys) (auto simp: result_simps)

lemma mapR_in: "mapR f xs = Inr ys \<Longrightarrow> y \<in> set ys \<Longrightarrow> \<exists>x \<in> set xs. f x = Inr y"
  by (induction xs arbitrary: ys) (auto simp: result_simps)

lemma mapR_total: "(\<And>x. x \<in> set xs \<Longrightarrow> \<exists>y. f x = Inr y) \<Longrightarrow> \<exists>ys. mapR f xs = Inr ys"
proof (induction xs)
  case (Cons x xs)
  then obtain y ys where "f x = Inr y" "mapR f xs = Inr ys" by fastforce
  then show ?case by simp
qed simp

text \<open>
  A sequence of checks \<open>if b { return e }\<close>: the error of the first one that holds, if any.
\<close>

definition first_failure :: "(bool \<times> 'e) list \<Rightarrow> 'e option" where
  "first_failure cs = map_option snd (find fst cs)"

lemma first_failure_None: "first_failure cs = None \<longleftrightarrow> (\<forall>c \<in> set cs. \<not> fst c)"
  by (auto simp: first_failure_def find_None_iff)

lemma first_failure_simps [simp]:
  "first_failure [] = None"
  "first_failure ((b, e) # cs) = (if b then Some e else first_failure cs)"
  by (simp_all add: first_failure_def)

lemma first_failure_mono:
  "first_failure (cs @ ds) = (case first_failure cs of None \<Rightarrow> first_failure ds | Some e \<Rightarrow> Some e)"
  by (induction cs) auto

text \<open>In a table with distinct keys a key names one row.\<close>

lemma key_unique: "distinct (map f xs) \<Longrightarrow> x \<in> set xs \<Longrightarrow> y \<in> set xs \<Longrightarrow> f x = f y \<Longrightarrow> x = y"
  by (auto simp: distinct_map inj_on_def)

section \<open>Transactions\<close>

text \<open>
  \<open>transact body s\<close> is \<open>tx := Begin(); defer tx.Rollback(); ...; tx.Commit()\<close>: an error
  leaves the state as it was, success commits what the body built.
\<close>

definition transact :: "('s \<Rightarrow> 'e + 'a \<times> 's) \<Rightarrow> 's \<Rightarrow> ('e + 'a) \<times> 's" where
  "transact body s = (case body s of Inl e \<Rightarrow> (Inl e, s) | Inr (a, s') \<Rightarrow> (Inr a, s'))"

lemma transact_eq_Inl [result_simps]:
  "(transact body s = (Inl e, s')) = (body s = Inl e \<and> s' = s)"
  by (auto simp: transact_def split: sum.splits prod.splits)

lemma transact_eq_Inr [result_simps]:
  "(transact body s = (Inr a, s')) = (body s = Inr (a, s'))"
  by (auto simp: transact_def split: sum.splits prod.splits)

lemma transact_error_unchanged: "fst (transact body s) = Inl e \<Longrightarrow> snd (transact body s) = s"
  by (auto simp: transact_def split: sum.splits prod.splits)

lemma transact_invariant:
  assumes "P s" and "\<And>a s'. body s = Inr (a, s') \<Longrightarrow> P s'"
  shows "P (snd (transact body s))"
  using assms by (auto simp: transact_def split: sum.splits prod.splits)

end
