(* ===== verification/GoStrings.thy ===== *)
theory GoStrings
  imports Prelude
begin

text \<open>
  The parts of Go's \<open>strings\<close>, \<open>unicode/utf8\<close> and \<open>encoding/hex\<close> packages the sources
  use. A Go string is its bytes, so a \<open>char\<close> here is a byte; \<open>len(s)\<close> is \<open>length\<close> and
  \<open>len([]rune(s))\<close> counts the bytes that start a rune (on the valid UTF-8 that
  \<open>encoding/json\<close> and \<open>yaml\<close> produce). The round trip of the hexadecimal encoding and the
  behaviour of \<open>TrimSpace\<close> are proved at the end.
\<close>

section \<open>Bytes and character classes\<close>

definition code :: "char \<Rightarrow> nat" where
  "code c = of_char c"

lemma code_less [simp]: "code c < 256"
  unfolding code_def by (metis nat_of_char_less_256)

lemma char_of_code [simp]: "char_of (code c) = c"
  by (simp add: code_def)

definition is_lower :: "char \<Rightarrow> bool" where "is_lower c = (97 \<le> code c \<and> code c \<le> 122)"
definition is_upper :: "char \<Rightarrow> bool" where "is_upper c = (65 \<le> code c \<and> code c \<le> 90)"
definition is_digit :: "char \<Rightarrow> bool" where "is_digit c = (48 \<le> code c \<and> code c \<le> 57)"
definition is_alpha :: "char \<Rightarrow> bool" where "is_alpha c = (is_lower c \<or> is_upper c)"
definition is_alnum :: "char \<Rightarrow> bool" where "is_alnum c = (is_alpha c \<or> is_digit c)"

lemmas class_defs = is_lower_def is_upper_def is_digit_def is_alpha_def is_alnum_def code_def

section \<open>Package strings\<close>

definition HasPrefix :: "string \<Rightarrow> string \<Rightarrow> bool" where
  "HasPrefix s p = (take (length p) s = p)"

definition HasSuffix :: "string \<Rightarrow> string \<Rightarrow> bool" where
  "HasSuffix s p = (length p \<le> length s \<and> drop (length s - length p) s = p)"

definition TrimPrefix :: "string \<Rightarrow> string \<Rightarrow> string" where
  "TrimPrefix s p = (if HasPrefix s p then drop (length p) s else s)"

definition TrimSuffix :: "string \<Rightarrow> string \<Rightarrow> string" where
  "TrimSuffix s p = (if HasSuffix s p then take (length s - length p) s else s)"

fun Contains :: "string \<Rightarrow> string \<Rightarrow> bool" where
  "Contains [] p = (p = [])"
| "Contains (c # s) p = (HasPrefix (c # s) p \<or> Contains s p)"

definition ContainsAny :: "string \<Rightarrow> string \<Rightarrow> bool" where
  "ContainsAny s chars = list_ex (\<lambda>c. c \<in> set chars) s"

text \<open>\<open>strings.ToLower\<close> on the ASCII range; bytes of other runes are kept.\<close>

definition ToLower :: "string \<Rightarrow> string" where
  "ToLower s = map (\<lambda>c. if is_upper c then char_of (code c + 32) else c) s"

definition EqualFold :: "string \<Rightarrow> string \<Rightarrow> bool" where
  "EqualFold s t = (ToLower s = ToLower t)"

text \<open>\<open>strings.Cut\<close> and \<open>strings.Split\<close> around a one-byte separator.\<close>

definition Cut :: "string \<Rightarrow> char \<Rightarrow> string \<times> string \<times> bool" where
  "Cut s sep = (let before = takeWhile (\<lambda>c. c \<noteq> sep) s in
     if length before < length s then (before, drop (length before + 1) s, True)
     else (s, [], False))"

fun Split :: "string \<Rightarrow> char \<Rightarrow> string list" where
  "Split [] sep = [[]]"
| "Split (c # s) sep =
     (if c = sep then [] # Split s sep
      else (case Split s sep of [] \<Rightarrow> [[c]] | w # ws \<Rightarrow> (c # w) # ws))"

fun Join :: "string list \<Rightarrow> string \<Rightarrow> string" where
  "Join [] sep = []"
| "Join [w] sep = w"
| "Join (w # v # ws) sep = w @ sep @ Join (v # ws) sep"

text \<open>
  \<open>strings.TrimSpace\<close> removes the UTF-8 encodings of the code points with the White\_Space
  property (\<open>unicode.IsSpace\<close>) from both ends.
\<close>

definition space_encodings :: "string list" where
  "space_encodings =
     [[CHR 0x09], [CHR 0x0A], [CHR 0x0B],
      [CHR 0x0C], [CHR 0x0D], [CHR 0x20],
      [CHR 0xC2, CHR 0x85], [CHR 0xC2, CHR 0xA0], [CHR 0xE1, CHR 0x9A, CHR 0x80],
      [CHR 0xE2, CHR 0x80, CHR 0xA8], [CHR 0xE2, CHR 0x80, CHR 0xA9], [CHR 0xE2, CHR 0x80, CHR 0xAF],
      [CHR 0xE2, CHR 0x81, CHR 0x9F], [CHR 0xE3, CHR 0x80, CHR 0x80], [CHR 0xE2, CHR 0x80, CHR 0x80],
      [CHR 0xE2, CHR 0x80, CHR 0x81], [CHR 0xE2, CHR 0x80, CHR 0x82], [CHR 0xE2, CHR 0x80, CHR 0x83],
      [CHR 0xE2, CHR 0x80, CHR 0x84], [CHR 0xE2, CHR 0x80, CHR 0x85], [CHR 0xE2, CHR 0x80, CHR 0x86],
      [CHR 0xE2, CHR 0x80, CHR 0x87], [CHR 0xE2, CHR 0x80, CHR 0x88], [CHR 0xE2, CHR 0x80, CHR 0x89],
      [CHR 0xE2, CHR 0x80, CHR 0x8A]]"

lemma space_encodings_nonempty: "p \<in> set space_encodings \<Longrightarrow> 0 < length p"
  unfolding space_encodings_def by auto

lemma find_space_encoding: "find P space_encodings = Some p \<Longrightarrow> 0 < length p"
  by (metis find_Some_iff nth_mem space_encodings_nonempty)

function TrimLeftSpace :: "string \<Rightarrow> string" where
  "TrimLeftSpace s = (case find (\<lambda>p. HasPrefix s p) space_encodings of
      None \<Rightarrow> s
    | Some p \<Rightarrow> if s = [] then s else TrimLeftSpace (drop (length p) s))"
  by pat_completeness auto
termination
  by (relation "measure length") (auto dest: find_space_encoding)

declare TrimLeftSpace.simps [simp del]

function TrimRightSpace :: "string \<Rightarrow> string" where
  "TrimRightSpace s = (case find (\<lambda>p. HasSuffix s p) space_encodings of
      None \<Rightarrow> s
    | Some p \<Rightarrow> if s = [] then s else TrimRightSpace (take (length s - length p) s))"
  by pat_completeness auto
termination
  by (relation "measure length") (auto dest: find_space_encoding)

declare TrimRightSpace.simps [simp del]

definition TrimSpace :: "string \<Rightarrow> string" where
  "TrimSpace s = TrimRightSpace (TrimLeftSpace s)"

text \<open>\<open>len([]rune(s))\<close>: every byte but the UTF-8 continuation bytes starts a rune.\<close>

definition rune_count :: "string \<Rightarrow> nat" where
  "rune_count s = length (filter (\<lambda>c. \<not> (128 \<le> code c \<and> code c < 192)) s)"

section \<open>Package encoding/hex\<close>

definition hex_digit :: "nat \<Rightarrow> char" where
  "hex_digit n = ''0123456789abcdef'' ! n"

definition hex_value :: "char \<Rightarrow> nat option" where
  "hex_value c =
     (if is_digit c then Some (code c - 48)
      else if 97 \<le> code c \<and> code c \<le> 102 then Some (code c - 87)
      else if 65 \<le> code c \<and> code c \<le> 70 then Some (code c - 55)
      else None)"

fun hex_encode :: "string \<Rightarrow> string" where
  "hex_encode [] = []"
| "hex_encode (c # s) = hex_digit (code c div 16) # hex_digit (code c mod 16) # hex_encode s"

fun hex_decode :: "string \<Rightarrow> string option" where
  "hex_decode [] = Some []"
| "hex_decode [c] = None"
| "hex_decode (c # d # s) =
     (case hex_value c of None \<Rightarrow> None
      | Some hi \<Rightarrow> (case hex_value d of None \<Rightarrow> None
         | Some lo \<Rightarrow> map_option (\<lambda>bs. char_of (16 * hi + lo) # bs) (hex_decode s)))"

lemma less_16_cases:
  assumes "(n::nat) < 16"
  shows "n \<in> {0, 1, 2, 3, 4, 5, 6, 7, 8, 9, 10, 11, 12, 13, 14, 15}"
  using assms by (simp only: insert_iff empty_iff) arith

lemma hex_value_digit [simp]:
  assumes "n < 16" shows "hex_value (hex_digit n) = Some n"
  using less_16_cases[OF assms]
  by (elim insertE emptyE) (simp_all add: hex_value_def hex_digit_def is_digit_def code_def)

lemma hex_decode_encode [simp]: "hex_decode (hex_encode s) = Some s"
proof (induction s)
  case (Cons c s)
  have "code c div 16 < 16" using code_less[of c] by linarith
  moreover have "16 * (code c div 16) + code c mod 16 = code c" by simp
  ultimately show ?case using Cons by simp
qed simp

lemma length_hex_encode [simp]: "length (hex_encode s) = 2 * length s"
  by (induction s) simp_all

lemma hex_encode_inject [simp]: "hex_encode s = hex_encode t \<longleftrightarrow> s = t"
  by (metis hex_decode_encode option.inject)

section \<open>Lower-case hexadecimal\<close>

lemma hex_decode_defined:
  "hex_decode s \<noteq> None \<longleftrightarrow> even (length s) \<and> list_all (\<lambda>c. hex_value c \<noteq> None) s"
  by (induction s rule: hex_decode.induct) (auto split: option.splits)

lemma ToLower_fixed: "ToLower s = s \<longleftrightarrow> list_all (\<lambda>c. \<not> is_upper c) s"
proof -
  have "char_of (code c + 32) \<noteq> c" if "is_upper c" for c
  proof
    assume "char_of (code c + 32) = c"
    then have "code (char_of (code c + 32)) = code c" by simp
    with that show False by (simp add: code_def is_upper_def)
  qed
  then show ?thesis by (induction s) (auto simp: ToLower_def)
qed

lemma lower_hex_char:
  "hex_value c \<noteq> None \<and> \<not> is_upper c \<longleftrightarrow> c \<in> set ''0123456789abcdef''"
proof
  assume "hex_value c \<noteq> None \<and> \<not> is_upper c"
  then have "48 \<le> code c \<and> code c \<le> 57 \<or> 97 \<le> code c \<and> code c \<le> 102"
    by (auto simp: hex_value_def is_digit_def is_upper_def split: if_splits)
  then have "code c = 48 \<or> code c = 49 \<or> code c = 50 \<or> code c = 51 \<or> code c = 52 \<or> code c = 53
    \<or> code c = 54 \<or> code c = 55 \<or> code c = 56 \<or> code c = 57 \<or> code c = 97 \<or> code c = 98
    \<or> code c = 99 \<or> code c = 100 \<or> code c = 101 \<or> code c = 102" by arith
  then have "char_of (code c) \<in> set ''0123456789abcdef''"
    by (elim disjE; simp only:; simp add: char_of_def bit_iff_odd)
  then show "c \<in> set ''0123456789abcdef''" by simp
next
  assume "c \<in> set ''0123456789abcdef''"
  then show "hex_value c \<noteq> None \<and> \<not> is_upper c"
    by (auto simp: hex_value_def is_digit_def is_upper_def code_def)
qed

lemma lower_hex_string:
  "ToLower s = s \<and> hex_decode s \<noteq> None \<longleftrightarrow>
    even (length s) \<and> list_all (\<lambda>c. c \<in> set ''0123456789abcdef'') s"
  unfolding ToLower_fixed hex_decode_defined list_all_iff by (metis lower_hex_char)

section \<open>Facts about trimming\<close>

lemma TrimLeftSpace_length: "length (TrimLeftSpace s) \<le> length s"
proof (induction s rule: TrimLeftSpace.induct)
  case (1 s)
  show ?case
    by (subst TrimLeftSpace.simps) (auto split: option.splits dest: 1)
qed

lemma TrimRightSpace_length: "length (TrimRightSpace s) \<le> length s"
proof (induction s rule: TrimRightSpace.induct)
  case (1 s)
  show ?case
    by (subst TrimRightSpace.simps) (auto split: option.splits dest: 1)
qed

lemma TrimSpace_length: "length (TrimSpace s) \<le> length s"
  unfolding TrimSpace_def
  using TrimRightSpace_length[of "TrimLeftSpace s"] TrimLeftSpace_length[of s] by linarith

lemma TrimSpace_empty [simp]: "TrimSpace [] = []"
  by (simp add: TrimSpace_def TrimLeftSpace.simps TrimRightSpace.simps split: option.splits)

end
