(* ===== verification/Paths.thy ===== *)
theory Paths
  imports GoStrings
begin

text \<open>
  Lexical path handling: the parts of \<open>path\<close> and \<open>path/filepath\<close> the control plane uses on
  Unix (\<open>Clean\<close>, \<open>Join\<close>, \<open>Abs\<close>, \<open>Rel\<close> between absolute paths, \<open>IsLocal\<close>), the store's
  translation of storage locations (\<open>internal/database/paths.go\<close>) and the archive entry check
  \<open>safeArchivePath\<close> (\<open>internal/packageio/archive.go\<close>). A path is analysed through the list of
  its cleaned components; the lemmas show that cleaning is a projection on those lists.
\<close>

section \<open>Components and cleaning\<close>

abbreviation slash :: char where "slash \<equiv> CHR ''/''"

definition IsAbs :: "string \<Rightarrow> bool" where
  "IsAbs s = HasPrefix s ''/''"

fun clean_push :: "bool \<Rightarrow> string list \<Rightarrow> string \<Rightarrow> string list" where
  "clean_push rooted acc c =
     (if c = [] \<or> c = ''.'' then acc
      else if c = ''..'' then
        (case acc of [] \<Rightarrow> (if rooted then [] else [c])
         | x # xs \<Rightarrow> if x = ''..'' then c # acc else xs)
      else c # acc)"

definition components :: "string \<Rightarrow> string list" where
  "components s = rev (foldl (clean_push (IsAbs s)) [] (Split s slash))"

definition Clean :: "string \<Rightarrow> string" where
  "Clean s = (let cs = components s in
     if IsAbs s then slash # Join cs ''/'' else if cs = [] then ''.'' else Join cs ''/'')"

definition JoinPath :: "string \<Rightarrow> string \<Rightarrow> string" where
  "JoinPath a b =
     (if a = [] then (if b = [] then [] else Clean b) else Clean (a @ ''/'' @ b))"

definition Abs :: "string \<Rightarrow> string \<Rightarrow> string" where
  "Abs cwd p = (if IsAbs p then Clean p else JoinPath cwd p)"

fun strip_common :: "string list \<Rightarrow> string list \<Rightarrow> string list \<times> string list" where
  "strip_common (b # bs) (t # ts) = (if b = t then strip_common bs ts else (b # bs, t # ts))"
| "strip_common bs ts = (bs, ts)"

text \<open>\<open>filepath.Rel\<close> of two absolute paths; the store never calls it on others.\<close>

definition Rel :: "string \<Rightarrow> string \<Rightarrow> string option" where
  "Rel base targ =
     (if \<not> IsAbs base \<or> \<not> IsAbs targ then None
      else if components base = components targ then Some ''.''
      else (case strip_common (components base) (components targ) of (bs, ts) \<Rightarrow>
        Some (Join (replicate (length bs) ''..'' @ ts) ''/'')))"

section \<open>Storage locations\<close>

datatype path_error = PathOutside string | PathAbsolute string | PathEscapes string

definition isContainedRelativePath :: "string \<Rightarrow> bool" where
  "isContainedRelativePath relative =
     (\<not> (relative = [] \<or> relative = ''.'' \<or> relative = ''..'' \<or> IsAbs relative)
      \<and> \<not> HasPrefix relative ''../'')"

definition relativeStorageLocation :: "string \<Rightarrow> string \<Rightarrow> string \<Rightarrow> path_error + string" where
  "relativeStorageLocation dataDir cwd p =
     (if p = [] then Inr []
      else case Rel dataDir (Abs cwd p) of
        None \<Rightarrow> Inl (PathOutside p)
      | Some relative \<Rightarrow>
          if isContainedRelativePath relative then Inr relative else Inl (PathOutside p))"

definition resolveStorageLocation :: "string \<Rightarrow> string \<Rightarrow> path_error + string" where
  "resolveStorageLocation dataDir recorded =
     (if recorded = [] then Inr []
      else if IsAbs recorded then Inl (PathAbsolute recorded)
      else let resolved = JoinPath dataDir recorded in
        (case Rel dataDir resolved of
           None \<Rightarrow> Inl (PathEscapes recorded)
         | Some relative \<Rightarrow>
             if isContainedRelativePath relative then Inr resolved else Inl (PathEscapes recorded)))"

section \<open>Archive entry names\<close>

definition IsLocal :: "string \<Rightarrow> bool" where
  "IsLocal p = (\<not> IsAbs p \<and> p \<noteq> [] \<and>
     (let q = Clean p in q \<noteq> ''..'' \<and> \<not> HasPrefix q ''../''))"

definition safeArchivePath :: "string \<Rightarrow> string option" where
  "safeArchivePath name =
     (if name = [] \<or> length name > 4096 \<or> CHR 0x00 \<in> set name \<or> Contains name [CHR 0x5C]
      then None
      else let clean = Clean name in
        if IsAbs clean \<or> \<not> IsLocal clean then None else Some clean)"

section \<open>Splitting and joining\<close>

lemma Split_nonempty [simp]: "Split s c \<noteq> []"
  by (induction s) (auto split: list.splits)

lemma Split_no_sep: "w \<in> set (Split s c) \<Longrightarrow> c \<notin> set w"
proof (induction s arbitrary: w)
  case (Cons x s)
  then show ?case
    by (cases "Split s c") (auto split: if_splits)
qed simp

lemma Split_append_sep: "Split (a @ c # b) c = Split a c @ Split b c"
proof (induction a)
  case (Cons x a)
  then show ?case by (cases "Split a c") auto
qed simp

lemma Split_plain: "c \<notin> set w \<Longrightarrow> Split w c = [w]"
  by (induction w) auto

lemma Split_Join:
  "ws \<noteq> [] \<Longrightarrow> \<forall>w \<in> set ws. c \<notin> set w \<Longrightarrow> Split (Join ws [c]) c = ws"
proof (induction ws "[c]" rule: Join.induct)
  case (2 w)
  then show ?case by (simp add: Split_plain)
next
  case (3 w v ws)
  then show ?case by (simp add: Split_append_sep Split_plain)
qed simp

section \<open>Cleaned component lists\<close>

definition plain :: "string \<Rightarrow> bool" where
  "plain c = (c \<noteq> [] \<and> c \<noteq> ''.'' \<and> c \<noteq> ''..'' \<and> slash \<notin> set c)"

lemma plain_no_slash: "list_all plain cs \<Longrightarrow> \<forall>w \<in> set cs. slash \<notin> set w"
  by (induction cs) (simp_all add: plain_def)

lemma clean_push_plain [simp]: "plain c \<Longrightarrow> clean_push rooted acc c = c # acc"
  by (simp add: plain_def)

lemma foldl_clean_push_plain:
  "list_all plain cs \<Longrightarrow> foldl (clean_push rooted) acc cs = rev cs @ acc"
  by (induction cs arbitrary: acc) (simp_all del: clean_push.simps)

lemma clean_push_rooted:
  "list_all plain acc \<Longrightarrow> slash \<notin> set c \<Longrightarrow> list_all plain (clean_push True acc c)"
  by (auto simp: plain_def split: list.splits)

lemma foldl_clean_push_rooted:
  "list_all plain acc \<Longrightarrow> \<forall>c \<in> set cs. slash \<notin> set c \<Longrightarrow>
    list_all plain (foldl (clean_push True) acc cs)"
  by (induction cs arbitrary: acc) (simp_all del: clean_push.simps add: clean_push_rooted)

lemma components_rooted_plain: "IsAbs s \<Longrightarrow> list_all plain (components s)"
  unfolding components_def
  by (simp add: foldl_clean_push_rooted Split_no_sep list_all_rev)

lemma IsAbs_Cons [simp]: "IsAbs (c # s) \<longleftrightarrow> c = slash" "\<not> IsAbs []"
  by (simp_all add: IsAbs_def HasPrefix_def)

lemma components_abs_Join:
  assumes "list_all plain cs"
  shows "components (slash # Join cs ''/'') = cs"
proof (cases "cs = []")
  case True
  then show ?thesis by (simp add: components_def)
next
  case False
  have "\<forall>w \<in> set cs. slash \<notin> set w" using assms by (simp add: list_all_iff plain_def)
  then have "Split (Join cs ''/'') slash = cs" using False by (simp add: Split_Join)
  then show ?thesis
    using assms by (simp add: components_def foldl_clean_push_plain)
qed

lemma Clean_abs:
  assumes "IsAbs s"
  shows "IsAbs (Clean s)" "components (Clean s) = components s"
  using assms components_abs_Join[OF components_rooted_plain[OF assms]]
  by (simp_all add: Clean_def Let_def)

lemma Clean_abs_eq: "IsAbs s \<Longrightarrow> Clean s = slash # Join (components s) ''/''"
  by (simp add: Clean_def Let_def)

lemma Clean_idem_abs: "IsAbs s \<Longrightarrow> Clean (Clean s) = Clean s"
  using Clean_abs[of s] by (simp add: Clean_abs_eq)

lemma components_append:
  assumes "IsAbs a"
  shows "components (a @ slash # b) =
    rev (foldl (clean_push True) (rev (components a)) (Split b slash))"
proof -
  from assms have "IsAbs (a @ slash # b)" by (cases a) simp_all
  with assms show ?thesis by (simp add: components_def Split_append_sep)
qed

lemma strip_common_spec:
  "strip_common bs ts = (bs', ts') \<Longrightarrow> \<exists>pre. bs = pre @ bs' \<and> ts = pre @ ts'"
proof (induction bs ts rule: strip_common.induct)
  case (1 b bs t ts)
  show ?case
  proof (cases "b = t")
    case True
    with 1 obtain pre where "bs = pre @ bs'" "ts = pre @ ts'" by auto
    with True have "b # bs = (b # pre) @ bs'" "t # ts = (b # pre) @ ts'" by simp_all
    then show ?thesis by blast
  next
    case False
    with 1 show ?thesis by simp
  qed
qed simp_all

lemma strip_common_prefix: "strip_common bs (bs @ ts) = ([], ts)"
  by (induction bs) (cases ts; simp)+

lemma Join_up: "HasPrefix (Join (''..'' # ws) ''/'') ''../'' \<or> Join (''..'' # ws) ''/'' = ''..''"
  by (cases ws) (simp_all add: HasPrefix_def)

text \<open>A relative path the store accepts names a descendant of the base.\<close>

lemma Rel_contained:
  assumes "Rel base targ = Some r" and "isContainedRelativePath r"
  shows "\<exists>ts. ts \<noteq> [] \<and> components targ = components base @ ts \<and> r = Join ts ''/''"
proof -
  obtain bs ts where st: "strip_common (components base) (components targ) = (bs, ts)"
    by (cases "strip_common (components base) (components targ)")
  from assms have ne: "components base \<noteq> components targ"
    by (auto simp: Rel_def isContainedRelativePath_def split: if_splits)
  with assms(1) st have r: "r = Join (replicate (length bs) ''..'' @ ts) ''/''"
    by (simp add: Rel_def split: if_splits)
  have "bs = []"
  proof (rule ccontr)
    assume "bs \<noteq> []"
    then obtain n where "length bs = Suc n" by (cases bs) simp_all
    with r have "r = Join (''..'' # replicate n ''..'' @ ts) ''/''" by simp
    with assms(2) Join_up[of "replicate n ''..'' @ ts"] show False
      by (simp add: isContainedRelativePath_def)
  qed
  with st strip_common_spec[OF st] r ne show ?thesis by auto
qed

lemma Rel_descendant:
  assumes "IsAbs base" "IsAbs targ" "components targ = components base @ ts" "ts \<noteq> []"
  shows "Rel base targ = Some (Join ts ''/'')"
  using assms by (simp add: Rel_def strip_common_prefix)

lemma up_prefix:
  assumes "slash \<notin> set w" "HasPrefix (w @ slash # x) ''../''"
  shows "w = ''..''"
proof -
  from assms(2) have "w = [] \<or> (\<exists>a. w = [a]) \<or> (\<exists>a b. w = [a, b]) \<or> (\<exists>a b c v. w = a # b # c # v)"
    by (cases w rule: list.exhaust; cases "tl w"; cases "tl (tl w)"; simp)
  with assms show ?thesis by (auto simp: HasPrefix_def)
qed

lemma plain_dots:
  assumes "plain w"
  shows "\<not> HasPrefix w ''../''" "\<not> IsAbs w"
proof -
  show "\<not> HasPrefix w ''../''"
  proof
    assume "HasPrefix w ''../''"
    then have "slash \<in> set (take 3 w)" by (simp add: HasPrefix_def numeral_3_eq_3)
    with assms in_set_takeD[of slash 3 w] show False by (simp add: plain_def)
  qed
  show "\<not> IsAbs w" using assms by (cases w) (auto simp: plain_def)
qed

lemma Join_contained:
  assumes "list_all plain ts" "ts \<noteq> []"
  shows "isContainedRelativePath (Join ts ''/'')" "\<not> IsAbs (Join ts ''/'')" "Join ts ''/'' \<noteq> []"
proof -
  from assms obtain w ws where ts: "ts = w # ws" "plain w" by (cases ts) auto
  then have ne: "w \<noteq> []" "hd w \<noteq> slash" by (cases w; auto simp: plain_def)+
  show "Join ts ''/'' \<noteq> []" "\<not> IsAbs (Join ts ''/'')"
    using ts ne by (cases ws; cases w; simp)+
  show "isContainedRelativePath (Join ts ''/'')"
  proof (cases ws)
    case Nil
    with ts ne plain_dots[of w] show ?thesis
      by (simp add: isContainedRelativePath_def plain_def)
  next
    case (Cons v vs)
    have *: "\<not> HasPrefix (w @ slash # x) ''../''" "w @ slash # x \<noteq> ''..''" "w @ slash # x \<noteq> ''.''" for x
      using ts(2) up_prefix[of w x] by (auto simp: plain_def append_eq_Cons_conv)
    with Cons ts ne show ?thesis by (cases w) (simp_all add: isContainedRelativePath_def)
  qed
qed

section \<open>What the translation guarantees\<close>

lemma relative_spec:
  assumes "relativeStorageLocation dd cwd p = Inr r" "p \<noteq> []"
  shows "\<exists>ts. ts \<noteq> [] \<and> components (Abs cwd p) = components dd @ ts \<and> r = Join ts ''/''
    \<and> IsAbs dd \<and> IsAbs (Abs cwd p)"
proof -
  from assms obtain rel where rel: "Rel dd (Abs cwd p) = Some rel" "isContainedRelativePath rel" "r = rel"
    by (auto simp: relativeStorageLocation_def split: option.splits if_splits)
  then have "IsAbs dd" "IsAbs (Abs cwd p)" by (auto simp: Rel_def split: if_splits)
  with Rel_contained[OF rel(1,2)] rel(3) show ?thesis by auto
qed

lemma resolve_spec:
  assumes "resolveStorageLocation dd recorded = Inr p" "recorded \<noteq> []"
  shows "\<exists>ts. ts \<noteq> [] \<and> components p = components dd @ ts \<and> IsAbs dd \<and> IsAbs p"
proof -
  from assms obtain rel where rel: "Rel dd (JoinPath dd recorded) = Some rel"
      "isContainedRelativePath rel" "p = JoinPath dd recorded"
    by (auto simp: resolveStorageLocation_def Let_def split: option.splits if_splits)
  then have "IsAbs dd" "IsAbs p" by (auto simp: Rel_def split: if_splits)
  with Rel_contained[OF rel(1,2)] rel(3) show ?thesis by auto
qed

lemma resolve_relative_components:
  assumes "IsAbs dd" "list_all plain ts" "ts \<noteq> []"
  shows "resolveStorageLocation dd (Join ts ''/'') = Inr (slash # Join (components dd @ ts) ''/'')"
proof -
  let ?q = "Join ts ''/''"
  have q: "?q \<noteq> []" "\<not> IsAbs ?q" "isContainedRelativePath ?q"
    using Join_contained[OF assms(2,3)] by simp_all
  have dd: "dd \<noteq> []" "IsAbs (dd @ slash # ?q)" using assms(1) by (cases dd; simp)+
  have "Split ?q slash = ts"
    using assms(2,3) by (intro Split_Join plain_no_slash)
  then have cs: "components (dd @ slash # ?q) = components dd @ ts"
    using assms(1,2) by (simp add: components_append foldl_clean_push_plain)
  have j: "JoinPath dd ?q = slash # Join (components dd @ ts) ''/''"
    using dd cs by (simp add: JoinPath_def Clean_abs_eq)
  have "components (JoinPath dd ?q) = components dd @ ts"
    using dd cs by (simp add: JoinPath_def Clean_abs)
  then have "Rel dd (JoinPath dd ?q) = Some ?q"
    using assms(1,3) j by (intro Rel_descendant) simp_all
  then show ?thesis using q j by (simp add: resolveStorageLocation_def Let_def)
qed

lemma relative_components_plain:
  "IsAbs p \<Longrightarrow> components p = bs @ ts \<Longrightarrow> list_all plain ts"
  using components_rooted_plain[of p] by simp

lemma clean_push_up:
  assumes "acc = ps @ replicate n ''..''" "list_all plain ps"
  shows "\<exists>m qs. clean_push False acc ''..'' = qs @ replicate m ''..'' \<and> list_all plain qs"
proof (cases ps)
  case Nil
  then have "clean_push False acc ''..'' = [] @ replicate (Suc n) ''..''"
    using assms(1) by (cases n) simp_all
  then show ?thesis by (metis list.pred_inject(1))
next
  case (Cons q qs)
  then have "clean_push False acc ''..'' = qs @ replicate n ''..''"
    using assms by (simp add: plain_def)
  then show ?thesis using Cons assms(2) by auto
qed

lemma clean_push_relative:
  assumes "acc = ps @ replicate n ''..''" "list_all plain ps" "slash \<notin> set c"
  shows "\<exists>m qs. clean_push False acc c = qs @ replicate m ''..'' \<and> list_all plain qs"
proof -
  consider "plain c" | "c = [] \<or> c = ''.''" | (up) "c = ''..''"
    using assms(3) by (auto simp: plain_def)
  then show ?thesis
  proof cases
    case 1
    then have "clean_push False acc c = (c # ps) @ replicate n ''..''" "list_all plain (c # ps)"
      using assms(1,2) by (simp_all del: clean_push.simps)
    then show ?thesis by blast
  next
    case 2
    then have "clean_push False acc c = ps @ replicate n ''..''" using assms(1) by auto
    with assms(2) show ?thesis by blast
  next
    case up
    show ?thesis using clean_push_up[OF assms(1,2)] up by simp
  qed
qed

lemma foldl_clean_push_relative:
  "list_all plain ps \<Longrightarrow> \<forall>c \<in> set cs. slash \<notin> set c \<Longrightarrow>
    \<exists>m qs. foldl (clean_push False) (ps @ replicate n ''..'') cs = qs @ replicate m ''..'' \<and> list_all plain qs"
proof (induction cs arbitrary: ps n)
  case (Cons c cs)
  then obtain m qs where "clean_push False (ps @ replicate n ''..'') c = qs @ replicate m ''..''"
      "list_all plain qs"
    using clean_push_relative[OF refl, of ps c n] by auto
  with Cons.IH[of qs m] Cons.prems(2) show ?case by simp
qed auto

lemma components_relative:
  assumes "\<not> IsAbs s"
  shows "\<exists>m qs. components s = replicate m ''..'' @ qs \<and> list_all plain qs"
proof -
  have "\<forall>c \<in> set (Split s slash). slash \<notin> set c" by (simp add: Split_no_sep)
  from foldl_clean_push_relative[OF _ this, of "[]" 0] obtain m qs where
    "foldl (clean_push False) [] (Split s slash) = qs @ replicate m ''..''" "list_all plain qs"
    by auto
  then have "components s = replicate m ''..'' @ rev qs \<and> list_all plain (rev qs)"
    using assms by (simp add: components_def list_all_rev)
  then show ?thesis by blast
qed

lemma foldl_clean_push_up:
  "foldl (clean_push False) (replicate i ''..'') (replicate j ''..'') = replicate (i + j) ''..''"
proof (induction j arbitrary: i)
  case (Suc j)
  have "clean_push False (replicate i ''..'') ''..'' = replicate (Suc i) ''..''"
    by (cases i) simp_all
  with Suc[of "Suc i"] show ?case by simp
qed simp

lemma safeArchivePath_plain:
  assumes "safeArchivePath name = Some c"
  shows "c = ''.'' \<or> (\<exists>ts. ts \<noteq> [] \<and> list_all plain ts \<and> c = Join ts ''/'')"
proof -
  from assms have c: "c = Clean name" "\<not> IsAbs c" "IsLocal c"
    by (auto simp: safeArchivePath_def Let_def split: if_splits)
  then have na: "\<not> IsAbs name" using Clean_abs(1) by blast
  then obtain m qs where cs: "components name = replicate m ''..'' @ qs" "list_all plain qs"
    using components_relative by blast
  show ?thesis
  proof (cases m)
    case 0
    with cs c(1) na show ?thesis by (auto simp: Clean_def Let_def)
  next
    case (Suc k)
    let ?cs = "''..'' # replicate k ''..'' @ qs"
    have cj: "c = Join ?cs ''/''" using cs Suc c(1) na by (simp add: Clean_def Let_def)
    have "\<forall>w \<in> set ?cs. slash \<notin> set w"
      using plain_no_slash[OF cs(2)] by (simp add: set_replicate_conv_if)
    then have sp: "Split c slash = replicate (Suc k) ''..'' @ qs"
      unfolding cj by (subst Split_Join) simp_all
    have "components c = rev (foldl (clean_push False)
        (foldl (clean_push False) (replicate 0 ''..'') (replicate (Suc k) ''..'')) qs)"
      unfolding components_def sp foldl_append using c(2) by (simp only: replicate_0)
    then have "components c = ?cs"
      unfolding foldl_clean_push_up foldl_clean_push_plain[OF cs(2)]
      by (simp add: replicate_append_same)
    then have "Clean c = c" using c(2) cj by (simp add: Clean_def Let_def)
    with c(3) cj Join_up[of "replicate k ''..'' @ qs"] show ?thesis
      by (simp add: IsLocal_def Let_def)
  qed
qed

section \<open>Properties\<close>

text \<open>
  C40: A location the store resolves lies strictly inside the data directory: its cleaned
  components extend those of the data directory, with no parent reference among them, so no
  recorded row can make the control plane read or delete outside its own tree.
\<close>

theorem resolved_location_contained:
  assumes "resolveStorageLocation dataDir recorded = Inr p" and "recorded \<noteq> []"
  shows "\<exists>ts. ts \<noteq> [] \<and> list_all plain ts \<and> components p = components dataDir @ ts"
  using resolve_spec[OF assms] relative_components_plain by blast

theorem resolved_location_contained_witness:
  "\<exists>ts. ts \<noteq> [] \<and> list_all plain ts
    \<and> components ''/srv/werkt/artifacts/rev_1'' = components ''/srv/werkt'' @ ts"
  by (rule resolved_location_contained[of "''/srv/werkt''" "''artifacts/../artifacts/rev_1''"]) code_simp+

text \<open>
  Recording a path and resolving it again gives back the same file: an absolute path the
  store accepts as a storage location resolves to its cleaned form, whatever data directory the
  store was opened with.
\<close>

lemma storage_location_roundtrip:
  assumes "relativeStorageLocation dataDir cwd p = Inr r" and "p \<noteq> []"
  shows "resolveStorageLocation dataDir r = Inr (Clean (Abs cwd p))"
proof -
  from relative_spec[OF assms] obtain ts where ts: "ts \<noteq> []"
      "components (Abs cwd p) = components dataDir @ ts" "r = Join ts ''/''"
      "IsAbs dataDir" "IsAbs (Abs cwd p)" by blast
  then show ?thesis
    using resolve_relative_components[OF ts(4) relative_components_plain[OF ts(5,2)] ts(1)]
    by (simp add: Clean_abs_eq)
qed

text \<open>
  An archive entry name that passes \<open>safeArchivePath\<close> can only be written inside the
  extraction directory: joined to any absolute root, its cleaned components extend the root's.
\<close>

lemma archive_path_contained:
  assumes "safeArchivePath name = Some c" and "IsAbs root"
  shows "\<exists>ts. list_all plain ts \<and> components (root @ ''/'' @ c) = components root @ ts"
  using safeArchivePath_plain[OF assms(1)]
proof
  assume "c = ''.''"
  then have "components (root @ ''/'' @ c) = components root @ []"
    using assms(2) by (simp add: components_append)
  then show ?thesis by (metis list.pred_inject(1))
next
  assume "\<exists>ts. ts \<noteq> [] \<and> list_all plain ts \<and> c = Join ts ''/''"
  then obtain ts where ts: "ts \<noteq> []" "list_all plain ts" "c = Join ts ''/''" by blast
  have "Split c slash = ts" unfolding ts(3)
    using ts(1,2) by (intro Split_Join plain_no_slash)
  then have "components (root @ ''/'' @ c) = components root @ ts"
    using assms(2) ts(2) by (simp add: components_append foldl_clean_push_plain)
  with ts(2) show ?thesis by blast
qed

end
