(* ===== verification/GoTime.thy ===== *)
theory GoTime
  imports GoStrings
begin

text \<open>
  The parts of Go's \<open>time\<close> and \<open>strconv\<close> packages the sources use: decimal printing,
  \<open>time.ParseDuration\<close> and the \<open>time.RFC3339Nano\<close> layout in UTC. The fraction of a duration
  is computed exactly (Go multiplies in \<open>float64\<close>, which agrees up to rounding of the last
  nanosecond). The decimal printer is shown injective, so keys built from numbers stay apart.
\<close>

section \<open>Decimal numbers\<close>

definition digit_char :: "nat \<Rightarrow> char" where
  "digit_char d = char_of (48 + d)"

fun decimal :: "nat \<Rightarrow> string" where
  "decimal n = (if n < 10 then [digit_char n] else decimal (n div 10) @ [digit_char (n mod 10)])"

declare decimal.simps [simp del]

definition decimal_int :: "int \<Rightarrow> string" where
  "decimal_int i = (if i < 0 then ''-'' @ decimal (nat (- i)) else decimal (nat i))"

definition zero_pad :: "nat \<Rightarrow> string \<Rightarrow> string" where
  "zero_pad w s = replicate (w - length s) (CHR ''0'') @ s"

definition digit_value :: "char \<Rightarrow> nat" where
  "digit_value c = code c - 48"

definition parse_decimal :: "string \<Rightarrow> nat" where
  "parse_decimal s = foldl (\<lambda>n c. 10 * n + digit_value c) 0 s"

lemma digit_value_char [simp]: "d < 10 \<Longrightarrow> digit_value (digit_char d) = d"
  by (simp add: digit_value_def digit_char_def code_def)

lemma parse_decimal_snoc: "parse_decimal (s @ [c]) = 10 * parse_decimal s + digit_value c"
  by (simp add: parse_decimal_def)

lemma parse_decimal_decimal [simp]: "parse_decimal (decimal n) = n"
proof (induction n rule: decimal.induct)
  case (1 n)
  show ?case
  proof (cases "n < 10")
    case True
    then show ?thesis by (simp add: decimal.simps parse_decimal_def)
  next
    case False
    with "1" show ?thesis
      by (subst decimal.simps) (simp add: parse_decimal_snoc)
  qed
qed

lemma decimal_inject [simp]: "decimal m = decimal n \<longleftrightarrow> m = n"
  by (metis parse_decimal_decimal)

section \<open>time.ParseDuration\<close>

fun leadingInt :: "nat \<Rightarrow> string \<Rightarrow> (nat \<times> string) option" where
  "leadingInt x [] = Some (x, [])"
| "leadingInt x (c # s) =
     (if \<not> is_digit c then Some (x, c # s)
      else if x > 2 ^ 63 div 10 then None
      else if 10 * x + digit_value c > 2 ^ 63 then None
      else leadingInt (10 * x + digit_value c) s)"

fun leadingFraction :: "nat \<Rightarrow> nat \<Rightarrow> bool \<Rightarrow> string \<Rightarrow> nat \<times> nat \<times> string" where
  "leadingFraction x scale overflow [] = (x, scale, [])"
| "leadingFraction x scale overflow (c # s) =
     (if \<not> is_digit c then (x, scale, c # s)
      else if overflow \<or> x > (2 ^ 63 - 1) div 10 \<or> 10 * x + digit_value c > 2 ^ 63
           then leadingFraction x scale True s
      else leadingFraction (10 * x + digit_value c) (10 * scale) overflow s)"

definition duration_unit :: "string \<Rightarrow> nat option" where
  "duration_unit u =
     (if u = ''ns'' then Some 1
      else if u = ''us'' \<or> u = [CHR 0xC2, CHR 0xB5, CHR ''s''] \<or> u = [CHR 0xCE, CHR 0xBC, CHR ''s'']
           then Some 1000
      else if u = ''ms'' then Some 1000000
      else if u = ''s'' then Some 1000000000
      else if u = ''m'' then Some 60000000000
      else if u = ''h'' then Some 3600000000000
      else None)"

definition not_number_char :: "char \<Rightarrow> bool" where
  "not_number_char c = (c \<noteq> CHR ''.'' \<and> \<not> is_digit c)"

text \<open>One quantity and its unit: \<open>None\<close> is any of \<open>ParseDuration\<close>'s errors.\<close>

definition duration_item :: "string \<Rightarrow> (nat \<times> string) option" where
  "duration_item s =
     (if s = [] \<or> not_number_char (hd s) then None
      else case leadingInt 0 s of None \<Rightarrow> None
      | Some (v, s1) \<Rightarrow>
        let pre = length s \<noteq> length s1;
            dot = (s1 \<noteq> [] \<and> hd s1 = CHR ''.'');
            (f, scale, s2) = (if dot then leadingFraction 0 1 False (tl s1) else (0, 1, s1));
            post = (dot \<and> length (tl s1) \<noteq> length s2);
            u = takeWhile not_number_char s2;
            s3 = drop (length u) s2
        in if \<not> pre \<and> \<not> post then None
           else if u = [] then None
           else case duration_unit u of None \<Rightarrow> None
           | Some unit \<Rightarrow>
             if v > 2 ^ 63 div unit then None
             else let w = v * unit + f * unit div scale in
               if w > 2 ^ 63 then None else Some (w, s3))"

lemma leadingInt_length: "leadingInt x s = Some (v, s') \<Longrightarrow> length s' \<le> length s"
  by (induction x s rule: leadingInt.induct) (auto split: if_splits)

lemma leadingFraction_length:
  "leadingFraction x sc ov s = (f, sc', s') \<Longrightarrow> length s' \<le> length s"
  by (induction x sc ov s rule: leadingFraction.induct) (auto split: if_splits)

lemma duration_item_shrinks:
  assumes "duration_item s = Some (w, s')"
  shows "length s' < length s"
proof -
  from assms obtain v s1 where l: "leadingInt 0 s = Some (v, s1)"
    by (auto simp: duration_item_def split: if_splits option.splits)
  define dot where "dot = (s1 \<noteq> [] \<and> hd s1 = CHR ''.'')"
  obtain f scale s2 where fs: "(f, scale, s2) =
      (if dot then leadingFraction 0 1 False (tl s1) else (0, 1, s1))"
    by (metis prod_cases3)
  have "s' = drop (length (takeWhile not_number_char s2)) s2" "takeWhile not_number_char s2 \<noteq> []"
    using assms l by (auto simp: duration_item_def Let_def fs[unfolded dot_def, symmetric]
      split: if_splits option.splits)
  then have "length s' < length s2"
    by (cases s2) (auto split: if_splits)
  moreover have "length s2 \<le> length s1"
    using fs leadingFraction_length[of 0 1 False "tl s1" f scale s2]
    by (auto split: if_splits)
  ultimately show ?thesis using leadingInt_length[OF l] by linarith
qed

function duration_items :: "nat \<Rightarrow> string \<Rightarrow> nat option" where
  "duration_items d s =
     (if s = [] then Some d
      else case duration_item s of None \<Rightarrow> None
      | Some (w, s') \<Rightarrow> if d + w > 2 ^ 63 then None else duration_items (d + w) s')"
  by pat_completeness auto
termination
  by (relation "measure (\<lambda>(d, s). length s)") (auto dest: duration_item_shrinks)

declare duration_items.simps [simp del]

definition ParseDuration :: "string \<Rightarrow> duration option" where
  "ParseDuration s =
     (let neg = (s \<noteq> [] \<and> hd s = CHR ''-'');
          body = (if s \<noteq> [] \<and> (hd s = CHR ''-'' \<or> hd s = CHR ''+'') then tl s else s)
      in if body = ''0'' then Some 0
         else if body = [] then None
         else case duration_items 0 body of None \<Rightarrow> None
         | Some d \<Rightarrow> if neg then Some (- int d)
                     else if d > 2 ^ 63 - 1 then None else Some (int d))"

text \<open>A parsed duration always fits the \<open>int64\<close> it is returned in.\<close>

lemma duration_items_bound: "duration_items d s = Some r \<Longrightarrow> d \<le> 2 ^ 63 \<Longrightarrow> r \<le> 2 ^ 63"
proof (induction d s rule: duration_items.induct)
  case (1 d s)
  show ?case
  proof (cases "s = []")
    case True
    with "1.prems" show ?thesis by (simp add: duration_items.simps)
  next
    case False
    with "1.prems"(1) obtain w s' where
      *: "duration_item s = Some (w, s')" "d + w \<le> 2 ^ 63" "duration_items (d + w) s' = Some r"
      by (auto simp: duration_items.simps[of d s] split: option.splits if_splits prod.splits)
    show ?thesis by (rule "1.IH"[OF False *(1) refl _ *(3,2)]) (use *(2) in simp)
  qed
qed

lemma ParseDuration_int64: "ParseDuration s = Some d \<Longrightarrow> - (2 ^ 63) \<le> d \<and> d < 2 ^ 63"
  unfolding ParseDuration_def Let_def
  by (auto split: if_splits option.splits dest!: duration_items_bound)

section \<open>time.RFC3339Nano in UTC\<close>

definition civil_from_days :: "int \<Rightarrow> int \<times> int \<times> int" where
  "civil_from_days days =
     (let z = days + 719468; era = z div 146097; doe = z mod 146097;
          yoe = (doe - doe div 1460 + doe div 36524 - doe div 146096) div 365;
          doy = doe - (365 * yoe + yoe div 4 - yoe div 100);
          mp = (5 * doy + 2) div 153;
          d = doy - (153 * mp + 2) div 5 + 1;
          m = (if mp < 10 then mp + 3 else mp - 9);
          y = yoe + era * 400 + (if m \<le> 2 then 1 else 0)
      in (y, m, d))"

definition two_digits :: "int \<Rightarrow> string" where
  "two_digits i = zero_pad 2 (decimal (nat i))"

fun trim_trailing_zeros :: "string \<Rightarrow> string" where
  "trim_trailing_zeros s = rev (dropWhile (\<lambda>c. c = CHR ''0'') (rev s))"

definition format_rfc3339nano :: "time \<Rightarrow> string" where
  "format_rfc3339nano t =
     (let days = t div (24 * hour); rest = t mod (24 * hour);
          (y, m, d) = civil_from_days days;
          h = rest div hour; mi = rest mod hour div minute; sec = rest mod minute div second;
          frac = trim_trailing_zeros (zero_pad 9 (decimal (nat (rest mod second))))
      in zero_pad 4 (decimal (nat y)) @ ''-'' @ two_digits m @ ''-'' @ two_digits d @ ''T'' @
         two_digits h @ '':'' @ two_digits mi @ '':'' @ two_digits sec @
         (if frac = [] then [] else ''.'' @ frac) @ ''Z'')"

section \<open>time.Duration.String\<close>

text \<open>
  The digits of \<open>v\<close> below \<open>10 ^ prec\<close> after a point, without trailing zeros, as \<open>fmtFrac\<close> writes
  them; the micro sign is two bytes of UTF-8.
\<close>

definition fraction_text :: "nat \<Rightarrow> nat \<Rightarrow> string" where
  "fraction_text prec v =
     (let t = trim_trailing_zeros (zero_pad prec (decimal (v mod 10 ^ prec)))
      in if t = [] then [] else ''.'' @ t)"

definition duration_string :: "duration \<Rightarrow> string" where
  "duration_string d =
     (let u = nat \<bar>d\<bar>; sign = (if d < 0 then ''-'' else []) in
      if u = 0 then ''0s''
      else if u < 1000 then sign @ decimal u @ ''ns''
      else if u < 1000000 then sign @ decimal (u div 1000) @ fraction_text 3 u @ [CHR 0xC2, CHR 0xB5] @ ''s''
      else if u < 1000000000 then sign @ decimal (u div 1000000) @ fraction_text 6 u @ ''ms''
      else
        (let sec = u div 1000000000; mins = sec div 60; hours = mins div 60 in
         sign @ (if hours > 0 then decimal hours @ ''h'' else [])
           @ (if mins > 0 then decimal (mins mod 60) @ ''m'' else [])
           @ decimal (sec mod 60) @ fraction_text 9 u @ ''s''))"

end
