(* ===== verification/Investigation.thy ===== *)
theory Investigation
  imports GoTime
begin

text \<open>
  \<open>internal/domain/investigation.go\<close>: the immutable specification of an investigation, its
  versioned state, the validators and the transition check \<open>ValidateTransition\<close>. Regular
  expressions are matchers over the same character classes; \<open>net/url\<close>'s parser is a
  parameter of the transition check. The lemmas give the shape of every accepted transition
  (the successor table, the immutable task identity, evidence that only grows), which the
  store's theory lifts to the recorded history.
\<close>

section \<open>Data\<close>

record investigation_spec =
  is_request_id :: string
  is_repository_id :: string
  is_repository :: string
  is_issue_number :: int
  is_issue_fingerprint :: string
  is_environment_id :: string
  is_branch :: string
  is_expected_base_sha :: string

record investigation_state =
  iv_status :: string
  iv_task_id :: string
  iv_task_url :: string
  iv_attempt :: int
  iv_actual_base_sha :: string
  iv_cloud_status :: string
  iv_cloud_updated_at :: "time option"
  iv_observed_at :: "time option"
  iv_handoff :: string
  iv_patch_ref :: string
  iv_patch_sha256 :: string
  iv_delivery_evidence :: string
  iv_reason :: string

text \<open>What \<open>url.Parse\<close> reports of a URL: its scheme, host and whether it carries user info.\<close>

record url_parts =
  u_scheme :: string
  u_host :: string
  u_has_user :: bool

datatype investigation_error = ErrInvalidInvestigation string

section \<open>Validation\<close>

definition word_char :: "char \<Rightarrow> bool" where
  "word_char c = (is_alnum c \<or> c \<in> set ''._:-'')"

definition investigationID :: "string \<Rightarrow> bool" where
  "investigationID s = (case s of [] \<Rightarrow> False
     | c # cs \<Rightarrow> is_alnum c \<and> length cs \<le> 127 \<and> list_all word_char cs)"

definition repositoryID :: "string \<Rightarrow> bool" where
  "repositoryID s = (case s of [] \<Rightarrow> False
     | c # cs \<Rightarrow> is_digit c \<and> c \<noteq> CHR ''0'' \<and> length cs \<le> 19 \<and> list_all is_digit cs)"

definition repository_char :: "char \<Rightarrow> bool" where
  "repository_char c = (is_alnum c \<or> c \<in> set ''_.-'')"

definition repositoryName :: "string \<Rightarrow> bool" where
  "repositoryName s = (case Cut s (CHR ''/'') of (owner, name, found) \<Rightarrow>
     found \<and> owner \<noteq> [] \<and> name \<noteq> [] \<and> list_all repository_char owner \<and> list_all repository_char name)"

definition lower_hex :: "char \<Rightarrow> bool" where
  "lower_hex c = (is_digit c \<or> (97 \<le> code c \<and> code c \<le> 102))"

definition sha256Value :: "string \<Rightarrow> bool" where
  "sha256Value s = (length s = 64 \<and> list_all lower_hex s)"

definition commitSHA :: "string \<Rightarrow> bool" where
  "commitSHA s = ((length s = 40 \<or> length s = 64) \<and> list_all lower_hex s)"

definition ValidateInvestigationSubject :: "string \<Rightarrow> int \<Rightarrow> investigation_error option" where
  "ValidateInvestigationSubject repository issue =
     (if \<not> repositoryID repository \<or> issue \<le> 0
      then Some (ErrInvalidInvestigation ''positive repository ID and issue number are required'')
      else None)"

definition shortText :: "string \<Rightarrow> nat \<Rightarrow> bool" where
  "shortText s mx = (TrimSpace s \<noteq> [] \<and> length s \<le> mx
     \<and> \<not> ContainsAny s [CHR 0x00, CHR 0x0D, CHR 0x0A])"

definition ValidateSpec :: "investigation_spec \<Rightarrow> investigation_error option" where
  "ValidateSpec s =
     (case ValidateInvestigationSubject (is_repository_id s) (is_issue_number s) of
        Some e \<Rightarrow> Some e
      | None \<Rightarrow>
        if \<not> investigationID (is_request_id s) \<or> \<not> repositoryName (is_repository s)
          \<or> length (is_repository s) > 256 \<or> \<not> sha256Value (is_issue_fingerprint s)
          \<or> \<not> commitSHA (is_expected_base_sha s)
          \<or> \<not> shortText (is_environment_id s) 256 \<or> \<not> shortText (is_branch s) 256
        then Some (ErrInvalidInvestigation
          ''request ID, repository, fingerprint, environment, branch and full base SHA are required'')
        else None)"

definition Terminal :: "investigation_state \<Rightarrow> bool" where
  "Terminal s = (iv_status s = ''completed'' \<or> iv_status s = ''abandoned'')"

definition transitions :: "(string \<times> string list) list" where
  "transitions =
     [(''reserved'', [''submission_unknown'', ''abandoned'']),
      (''submission_unknown'', [''running'', ''needs_input'', ''review'', ''failed'', ''abandoned'']),
      (''running'', [''needs_input'', ''review'', ''failed'']),
      (''needs_input'', [''running'', ''review'', ''failed'', ''abandoned'']),
      (''failed'', [''running'', ''review'', ''abandoned'']),
      (''review'', [''running'', ''local'', ''completed'', ''abandoned'']),
      (''local'', [''review'', ''completed'', ''abandoned''])]"

definition allowed_transition :: "string \<Rightarrow> string \<Rightarrow> bool" where
  "allowed_transition previous new =
     (case map_of transitions previous of None \<Rightarrow> False
      | Some options \<Rightarrow> new = previous \<or> new \<in> set options)"

definition no_task_evidence :: "investigation_state \<Rightarrow> bool" where
  "no_task_evidence s = (iv_task_url s = [] \<and> iv_attempt s = 0 \<and> iv_cloud_status s = []
     \<and> iv_cloud_updated_at s = None \<and> iv_observed_at s = None \<and> iv_actual_base_sha s = [])"

definition valid_task :: "(string \<Rightarrow> url_parts option) \<Rightarrow> investigation_state \<Rightarrow> bool" where
  "valid_task url_parse s =
     (investigationID (iv_task_id s) \<and> 1 \<le> iv_attempt s \<and> iv_attempt s \<le> 100 \<and>
      (case url_parse (iv_task_url s) of None \<Rightarrow> False
       | Some u \<Rightarrow> u_scheme u = ''https'' \<and> u_host u \<noteq> [] \<and> \<not> u_has_user u))"

definition within_limits :: "investigation_state \<Rightarrow> bool" where
  "within_limits s =
     (length (iv_handoff s) \<le> 65536 \<and> length (iv_reason s) \<le> 4096
      \<and> length (iv_delivery_evidence s) \<le> 8192 \<and> length (iv_patch_ref s) \<le> 2048
      \<and> length (iv_task_url s) \<le> 2048 \<and> length (iv_cloud_status s) \<le> 128
      \<and> CHR 0x00 \<notin> set (iv_handoff s @ iv_reason s @ iv_delivery_evidence s @ iv_patch_ref s))"

definition opt_less :: "time option \<Rightarrow> time option \<Rightarrow> bool" where
  "opt_less a b = (case (a, b) of (Some x, Some y) \<Rightarrow> x < y | _ \<Rightarrow> False)"

text \<open>The checks of \<open>ValidateTransition\<close> in their order; \<open>now\<close> is \<open>time.Now()\<close>.\<close>

definition transition_checks :: "(string \<Rightarrow> url_parts option) \<Rightarrow> time \<Rightarrow> investigation_state
    \<Rightarrow> investigation_state \<Rightarrow> (bool \<times> string) list" where
  "transition_checks url_parse now s previous =
    [(\<not> allowed_transition (iv_status previous) (iv_status s),
        ''invalid or terminal workflow transition''),
     (\<not> within_limits s,
        ''field exceeds its documented limit or contains NUL''),
     (iv_task_id s \<noteq> [] \<and> \<not> valid_task url_parse s,
        ''task requires a valid ID, HTTPS URL and selected attempt''),
     (iv_task_id s = [] \<and> \<not> no_task_evidence s,
        ''cloud evidence requires an attached task''),
     (iv_task_id previous \<noteq> [] \<and>
       (iv_task_id s \<noteq> iv_task_id previous \<or> iv_task_url s \<noteq> iv_task_url previous),
        ''attached cloud task identity is immutable''),
     ((iv_status s = ''reserved'' \<or> iv_status s = ''submission_unknown'') \<and> iv_task_id s \<noteq> [],
        ''reconcile attached task into a non-reservation state''),
     (iv_status s \<noteq> ''reserved'' \<and> iv_status s \<noteq> ''submission_unknown''
       \<and> iv_status s \<noteq> ''abandoned'' \<and> iv_task_id s = [],
        ''this state requires a task''),
     (iv_actual_base_sha s \<noteq> [] \<and> \<not> commitSHA (iv_actual_base_sha s),
        ''actual base must be a full SHA''),
     (iv_actual_base_sha previous \<noteq> [] \<and> iv_actual_base_sha s \<noteq> iv_actual_base_sha previous,
        ''actual base is immutable''),
     ((iv_patch_ref s = []) \<noteq> (iv_patch_sha256 s = [])
       \<or> (iv_patch_sha256 s \<noteq> [] \<and> \<not> sha256Value (iv_patch_sha256 s)),
        ''patch reference and SHA-256 must be supplied together''),
     (iv_cloud_updated_at s \<noteq> None \<and> iv_observed_at s = None,
        ''cloud timestamp requires observation time''),
     (opt_less (Some (now + minute)) (iv_observed_at s)
       \<or> opt_less (iv_observed_at s) (iv_observed_at previous),
        ''observation is in the future or older than recorded evidence''),
     (opt_less (map_option (\<lambda>ob. ob + minute) (iv_observed_at s)) (iv_cloud_updated_at s)
       \<or> opt_less (iv_cloud_updated_at s) (iv_cloud_updated_at previous),
        ''cloud timestamp regressed or is in the future''),
     (iv_observed_at previous \<noteq> None \<and> iv_observed_at s = None
       \<or> iv_cloud_updated_at previous \<noteq> None \<and> iv_cloud_updated_at s = None,
        ''recorded observation cannot be erased''),
     (iv_status s = ''local'' \<and>
       (iv_cloud_status s \<noteq> ''ready'' \<or> iv_cloud_updated_at s = None \<or> iv_observed_at s = None
       \<or> opt_less (iv_observed_at s) (Some (now - 5 * minute))
       \<or> iv_actual_base_sha s = [] \<or> iv_patch_sha256 s = [] \<or> TrimSpace (iv_handoff s) = []),
        ''local handoff requires a recently observed idle task, base, saved patch digest and written findings''),
     (iv_status s = ''local'' \<and> iv_status previous = ''local'' \<and>
       (iv_cloud_updated_at s \<noteq> iv_cloud_updated_at previous
       \<or> iv_patch_sha256 s \<noteq> iv_patch_sha256 previous \<or> iv_attempt s \<noteq> iv_attempt previous),
        ''cloud or snapshot changed: return to review before continuing locally''),
     (iv_status s = ''completed'' \<and>
       (TrimSpace (iv_delivery_evidence s) = [] \<or> TrimSpace (iv_handoff s) = []),
        ''completion requires findings and explicit delivery or resolution evidence''),
     (iv_status s = ''abandoned'' \<and> TrimSpace (iv_reason s) = [],
        ''abandonment requires a reconciliation reason; it does not cancel remote work'')]"

definition ValidateTransition :: "(string \<Rightarrow> url_parts option) \<Rightarrow> time \<Rightarrow> investigation_state
    \<Rightarrow> investigation_state \<Rightarrow> investigation_error option" where
  "ValidateTransition url_parse now s previous =
     map_option ErrInvalidInvestigation (first_failure (transition_checks url_parse now s previous))"

section \<open>Accepted transitions\<close>

abbreviation accepts :: "(string \<Rightarrow> url_parts option) \<Rightarrow> time \<Rightarrow> investigation_state
    \<Rightarrow> investigation_state \<Rightarrow> bool" where
  "accepts url_parse now previous s \<equiv> ValidateTransition url_parse now s previous = None"

lemma accepts_iff:
  "accepts u now p s \<longleftrightarrow> (\<forall>c \<in> set (transition_checks u now s p). \<not> fst c)"
  by (simp add: ValidateTransition_def first_failure_None)

lemmas accepts_facts = accepts_iff transition_checks_def list.set ball_simps fst_conv

lemma accepts_allowed: "accepts u now p s \<Longrightarrow> allowed_transition (iv_status p) (iv_status s)"
  by (simp add: accepts_facts)

lemma terminal_no_successor: "Terminal p \<Longrightarrow> \<not> allowed_transition (iv_status p) n"
  by (auto simp: Terminal_def allowed_transition_def transitions_def)

lemma accepts_task_identity:
  "accepts u now p s \<Longrightarrow> iv_task_id p \<noteq> [] \<Longrightarrow>
    iv_task_id s = iv_task_id p \<and> iv_task_url s = iv_task_url p"
  by (simp add: accepts_facts)

lemma accepts_base_sha:
  "accepts u now p s \<Longrightarrow> iv_actual_base_sha p \<noteq> [] \<Longrightarrow>
    iv_actual_base_sha s = iv_actual_base_sha p"
  by (simp add: accepts_facts)

lemma accepts_observed:
  assumes "accepts u now p s" and "iv_observed_at p = Some t"
  shows "\<exists>t'. iv_observed_at s = Some t' \<and> t \<le> t' \<and> t' \<le> now + minute"
  using assms by (cases "iv_observed_at s") (simp_all add: accepts_facts opt_less_def)

lemma accepts_cloud_updated:
  assumes "accepts u now p s" and "iv_cloud_updated_at p = Some t"
  shows "\<exists>t'. iv_cloud_updated_at s = Some t' \<and> t \<le> t'"
  using assms by (cases "iv_cloud_updated_at s") (simp_all add: accepts_facts opt_less_def)

lemma accepts_completed:
  assumes "accepts u now p s" and "iv_status s = ''completed''"
  shows "TrimSpace (iv_delivery_evidence s) \<noteq> []" "TrimSpace (iv_handoff s) \<noteq> []"
    "iv_task_id s \<noteq> [] \<and> valid_task u s"
  using assms by (simp_all add: accepts_facts) blast

end
