(* ===== verification/Domain.thy ===== *)
theory Domain
  imports Complex_Main GoTime "HOL-Library.Word"
begin

text \<open>
  The data model of \<open>internal/domain\<close>: the manifest of an automation and its parts, the event
  envelope, runs, run controls, approvals, provenance and deployments, as records with the
  fields of the Go structs, the string constants of the life cycles as datatypes with their
  database spelling, and the small methods of those types (\<open>IsEnabled\<close>,
  \<open>EffectiveProtocol\<close>, \<open>TimeoutDuration\<close>, \<open>SecretReferences\<close>). A Go map is an association
  list with the map's iteration order; a nil pointer is \<open>None\<close>. A decoded JSON number is the
  rational its \<open>float64\<close> denotes.
\<close>

datatype json = JNull | JBool bool | JNumber rat | JString string
  | JArray "json list" | JObject "(string \<times> json) list"

type_synonym json_map = "(string \<times> json) list"

text \<open>\<open>name, _ := m[key].(string)\<close>: the zero string unless the key holds a string.\<close>

definition string_at :: "json_map \<Rightarrow> string \<Rightarrow> string" where
  "string_at m k = (case map_of m k of Some (JString s) \<Rightarrow> s | _ \<Rightarrow> [])"

section \<open>Life cycles\<close>

datatype run_status = RunQueued | RunRunning | RunSucceeded | RunFailed

fun run_status_text :: "run_status \<Rightarrow> string" where
  "run_status_text RunQueued = ''queued''"
| "run_status_text RunRunning = ''running''"
| "run_status_text RunSucceeded = ''succeeded''"
| "run_status_text RunFailed = ''failed''"

datatype deployment_status = DeploymentQueued | DeploymentValidating | DeploymentBuilding
  | DeploymentChecking | DeploymentActivating | DeploymentSucceeded | DeploymentFailed
  | DeploymentCancelled

fun deployment_status_text :: "deployment_status \<Rightarrow> string" where
  "deployment_status_text DeploymentQueued = ''queued''"
| "deployment_status_text DeploymentValidating = ''validating''"
| "deployment_status_text DeploymentBuilding = ''building''"
| "deployment_status_text DeploymentChecking = ''checking''"
| "deployment_status_text DeploymentActivating = ''activating''"
| "deployment_status_text DeploymentSucceeded = ''succeeded''"
| "deployment_status_text DeploymentFailed = ''failed''"
| "deployment_status_text DeploymentCancelled = ''cancelled''"

datatype step_status = DeploymentStepRunning | DeploymentStepSucceeded | DeploymentStepFailed

fun step_status_text :: "step_status \<Rightarrow> string" where
  "step_status_text DeploymentStepRunning = ''running''"
| "step_status_text DeploymentStepSucceeded = ''succeeded''"
| "step_status_text DeploymentStepFailed = ''failed''"

section \<open>The manifest\<close>

record metadata =
  md_name :: string
  md_project :: string
  md_folder :: string
  md_description :: string
  md_labels :: "string list"

record trigger =
  tg_id :: string
  tg_type :: string
  tg_enabled :: "bool option"
  tg_config :: json_map

definition IsEnabled :: "trigger \<Rightarrow> bool" where
  "IsEnabled t = (tg_enabled t = None \<or> tg_enabled t = Some True)"

record egress_rule =
  er_host :: string
  er_port :: "16 word"
  er_protocol :: string

definition EffectiveProtocol :: "egress_rule \<Rightarrow> string" where
  "EffectiveProtocol r = (if er_protocol r = [] then ''tcp'' else er_protocol r)"

record tool_installer =
  ti_name :: string
  ti_version :: string
  ti_digest :: string

record tool_executable =
  tx_name :: string
  tx_relative_path :: string

record tool_artifact =
  ta_url :: string
  ta_digest :: string
  ta_size_bytes :: int
  ta_format :: string
  ta_strip_components :: int

record resolved_tool =
  rt_name :: string
  rt_version :: string
  rt_backend :: string
  rt_executables :: "tool_executable list"
  rt_capabilities :: "string list"
  rt_artifact :: "tool_artifact option"

record resolved_tool_environment =
  te_version :: int
  te_identity_digest :: string
  te_image :: string
  te_image_digest :: string
  te_catalog_revision :: string
  te_preparer_revision :: string
  te_platform :: string
  te_base_image :: string
  te_base_image_digest :: string
  te_installer :: tool_installer
  te_tools :: "resolved_tool list"
  te_capabilities :: "string list"
  te_preparation_egress :: "egress_rule list"

record runtime =
  rn_language :: string
  rn_image :: string
  rn_build_image :: string
  rn_tools :: "(string \<times> string) list"
  rn_build :: "string list"
  rn_command :: "string list"
  rn_environment :: "(string \<times> string) list"
  rn_secrets :: "(string \<times> string) list"
  rn_egress :: "egress_rule list"
  rn_resolved_tools :: "resolved_tool_environment option"

record deployment_check =
  dc_id :: string
  dc_command :: "string list"
  dc_timeout :: string

definition check_TimeoutDuration :: "deployment_check \<Rightarrow> duration" where
  "check_TimeoutDuration c =
     (if dc_timeout c = [] then 10 * minute
      else case ParseDuration (dc_timeout c) of None \<Rightarrow> 10 * minute | Some d \<Rightarrow> d)"

record execution =
  ex_timeout :: string
  ex_retries :: int
  ex_concurrency :: string
  ex_state_enabled :: bool

definition TimeoutDuration :: "execution \<Rightarrow> duration" where
  "TimeoutDuration e =
     (if ex_timeout e = [] then 5 * minute
      else case ParseDuration (ex_timeout e) of None \<Rightarrow> 5 * minute | Some d \<Rightarrow> d)"

record manifest =
  mf_api_version :: string
  mf_kind :: string
  mf_metadata :: metadata
  mf_triggers :: "trigger list"
  mf_runtime :: runtime
  mf_checks :: "deployment_check list"
  mf_execution :: execution

section \<open>Secret references\<close>

record secret_reference =
  sr_name :: string
  sr_purpose :: string

definition trigger_secret_name :: "trigger \<Rightarrow> string" where
  "trigger_secret_name t =
     (if tg_type t = ''webhook'' then string_at (tg_config t) ''secret''
      else if tg_type t = ''email'' \<or> tg_type t = ''ntfy'' then string_at (tg_config t) ''tokenSecret''
      else [])"

definition SecretReferences :: "manifest \<Rightarrow> secret_reference list" where
  "SecretReferences m =
     map (\<lambda>(target, name). \<lparr>sr_name = name, sr_purpose = ''runtime:'' @ target\<rparr>)
       (rn_secrets (mf_runtime m)) @
     concat (map (\<lambda>t. if trigger_secret_name t \<noteq> []
                      then [\<lparr>sr_name = trigger_secret_name t, sr_purpose = ''trigger:'' @ tg_id t\<rparr>]
                      else []) (mf_triggers m))"

section \<open>Events, run controls and approvals\<close>

record event_trigger =
  et_automation :: string
  et_id :: string
  et_type :: string

record event_envelope =
  ev_id :: string
  ev_occurred_at :: time
  ev_received_at :: time
  ev_trigger :: event_trigger
  ev_data :: json
  ev_metadata :: json_map

record notification_request =
  nr_key :: string
  nr_title :: string
  nr_body :: string
  nr_priority :: string

record deferred_run_request =
  dr_key :: string
  dr_until :: time
  dr_data :: "json option"

record approval_field =
  af_id :: string
  af_label :: string
  af_type :: string
  af_required :: bool
  af_value :: json
  af_description :: string
  af_options :: "string list"

record approval_action =
  aa_id :: string
  aa_label :: string
  aa_style :: string
  aa_requires_fields :: bool

record approval_request =
  ar_key :: string
  ar_title :: string
  ar_description :: string
  ar_expires_at :: time
  ar_fields :: "approval_field list"
  ar_actions :: "approval_action list"

record run_control =
  rc_defer :: "deferred_run_request option"
  rc_approval :: "approval_request option"
  rc_notifications :: "notification_request list"

section \<open>Provenance\<close>

record artifact_provenance =
  ap_version :: int
  ap_artifact_digest :: string
  ap_content_hash :: string
  ap_automation_id :: string
  ap_runtime_image :: string
  ap_build_image :: string
  ap_tool_environment :: "resolved_tool_environment option"
  ap_algorithm :: string
  ap_signing_key_id :: string
  ap_public_key :: string
  ap_signature :: string

record deployment_step_update =
  su_id :: string
  su_kind :: string
  su_status :: string
  su_logs :: string
  su_error :: string

section \<open>Facts about the small methods\<close>

lemma SecretReferences_named:
  "\<forall>(t, n) \<in> set (rn_secrets (mf_runtime m)). n \<noteq> [] \<Longrightarrow>
    r \<in> set (SecretReferences m) \<Longrightarrow> sr_name r \<noteq> []"
  by (auto simp: SecretReferences_def split: if_splits)

end
