(* ===== verification/Sql.thy ===== *)
theory Sql
  imports Prelude
begin

text \<open>
  The relational operators the store's SQL statements are written with. A table is the list
  of its rows; \<open>UPDATE ... WHERE\<close>, \<open>DELETE ... WHERE\<close>, \<open>RowsAffected()\<close> and \<open>SELECT ... ORDER
  BY ... LIMIT n\<close> become list functions. The locale \<open>keyed_table\<close> is the interface of a
  table with a primary key inside a database record; the theories of the components interpret
  it on the columns of their own tables and take the lookup and counting laws from it.
\<close>

section \<open>Statements\<close>

definition update_where :: "('r \<Rightarrow> bool) \<Rightarrow> ('r \<Rightarrow> 'r) \<Rightarrow> 'r list \<Rightarrow> 'r list" where
  "update_where P f t = map (\<lambda>r. if P r then f r else r) t"

definition delete_where :: "('r \<Rightarrow> bool) \<Rightarrow> 'r list \<Rightarrow> 'r list" where
  "delete_where P t = filter (\<lambda>r. \<not> P r) t"

definition rows_affected :: "('r \<Rightarrow> bool) \<Rightarrow> 'r list \<Rightarrow> nat" where
  "rows_affected P t = length (filter P t)"

definition select_limit :: "('r \<Rightarrow> 'k::linorder) \<Rightarrow> ('r \<Rightarrow> bool) \<Rightarrow> nat \<Rightarrow> 'r list \<Rightarrow> 'r list" where
  "select_limit key P n t = take n (sort_key key (filter P t))"

definition select_first :: "('r \<Rightarrow> 'k::linorder) \<Rightarrow> ('r \<Rightarrow> bool) \<Rightarrow> 'r list \<Rightarrow> 'r option" where
  "select_first key P t = (case sort_key key (filter P t) of [] \<Rightarrow> None | r # _ \<Rightarrow> Some r)"

text \<open>\<open>ORDER BY ... DESC\<close>: descending in the key.\<close>

definition select_desc :: "('r \<Rightarrow> 'k::linorder) \<Rightarrow> ('r \<Rightarrow> bool) \<Rightarrow> 'r list \<Rightarrow> 'r list" where
  "select_desc key P t = rev (sort_key key (filter P t))"

section \<open>Laws of the statements\<close>

lemma set_update_where [sql_simps]:
  "r \<in> set (update_where P f t) \<longleftrightarrow> (\<exists>x \<in> set t. r = (if P x then f x else x))"
  by (auto simp: update_where_def)

lemma update_whereE:
  assumes "r \<in> set (update_where P f t)"
  obtains (updated) x where "x \<in> set t" "P x" "r = f x" | (kept) "r \<in> set t" "\<not> P r"
  using assms by (auto simp: update_where_def split: if_splits)

lemma update_where_hit: "x \<in> set t \<Longrightarrow> P x \<Longrightarrow> f x \<in> set (update_where P f t)"
  by (auto simp: update_where_def)

lemma update_where_miss: "x \<in> set t \<Longrightarrow> \<not> P x \<Longrightarrow> x \<in> set (update_where P f t)"
  by (auto simp: update_where_def)

lemma length_update_where [simp]: "length (update_where P f t) = length t"
  by (simp add: update_where_def)

lemma map_update_where:
  "(\<And>r. r \<in> set t \<Longrightarrow> P r \<Longrightarrow> g (f r) = g r) \<Longrightarrow> map g (update_where P f t) = map g t"
  by (auto simp: update_where_def)

lemma update_where_none: "(\<And>r. r \<in> set t \<Longrightarrow> \<not> P r) \<Longrightarrow> update_where P f t = t"
  by (induction t) (auto simp: update_where_def)

lemma update_where_cleared: "(\<And>x. \<not> P (f x)) \<Longrightarrow> x \<in> set (update_where P f t) \<Longrightarrow> \<not> P x"
  by (auto elim!: update_whereE)

lemma ex_update_where:
  assumes "\<And>x. Q (f x) = Q x"
  shows "(\<exists>x \<in> set (update_where P f t). Q x) \<longleftrightarrow> (\<exists>x \<in> set t. Q x)"
  using assms by (auto simp: update_where_def)

lemma set_delete_where [sql_simps]: "r \<in> set (delete_where P t) \<longleftrightarrow> r \<in> set t \<and> \<not> P r"
  by (auto simp: delete_where_def)

lemma rows_affected_0 [sql_simps]: "rows_affected P t = 0 \<longleftrightarrow> (\<forall>r \<in> set t. \<not> P r)"
  by (auto simp: rows_affected_def filter_empty_conv)

lemma rows_affected_pos: "rows_affected P t \<noteq> 0 \<longleftrightarrow> (\<exists>r \<in> set t. P r)"
  by (auto simp: rows_affected_0)

lemma find_update_where:
  assumes "\<And>r. P r \<Longrightarrow> key (f r) = key r"
  shows "find (\<lambda>r. key r = k) (update_where P f t) =
    map_option (\<lambda>r. if P r then f r else r) (find (\<lambda>r. key r = k) t)"
  using assms by (induction t) (auto simp: update_where_def)

lemma find_append:
  "find P (xs @ ys) = (case find P xs of None \<Rightarrow> find P ys | Some x \<Rightarrow> Some x)"
  by (induction xs) auto

lemma find_eq_None: "find P t = None \<longleftrightarrow> (\<forall>r \<in> set t. \<not> P r)"
  by (auto simp: find_None_iff)

lemma find_eq_SomeD: "find P t = Some r \<Longrightarrow> r \<in> set t \<and> P r"
  by (induction t) (auto split: if_splits)

lemma find_key_iff:
  assumes "distinct (map key t)"
  shows "find (\<lambda>r. key r = k) t = Some r \<longleftrightarrow> r \<in> set t \<and> key r = k"
proof
  assume "r \<in> set t \<and> key r = k"
  with assms show "find (\<lambda>r. key r = k) t = Some r"
    by (induction t) (auto simp: image_iff)
qed (auto dest: find_eq_SomeD)

lemma rows_affected_key:
  assumes "distinct (map key t)"
  shows "rows_affected (\<lambda>r. key r = k \<and> Q r) t =
    (case find (\<lambda>r. key r = k) t of None \<Rightarrow> 0 | Some r \<Rightarrow> if Q r then 1 else 0)"
  using assms
proof (induction t)
  case (Cons x t)
  show ?case
  proof (cases "key x = k")
    case True
    with Cons.prems have "rows_affected (\<lambda>r. key r = k \<and> Q r) t = 0"
      by (auto simp: rows_affected_0 image_iff)
    with True show ?thesis by (simp add: rows_affected_def)
  next
    case False
    with Cons show ?thesis by (simp add: rows_affected_def)
  qed
qed (simp add: rows_affected_def)

lemma rows_affected_key_1:
  assumes "distinct (map key t)"
  shows "rows_affected (\<lambda>r. key r = k \<and> Q r) t = 1 \<longleftrightarrow>
    (\<exists>r. r \<in> set t \<and> key r = k \<and> Q r)"
proof -
  have "(\<exists>r. find (\<lambda>r. key r = k) t = Some r \<and> Q r) \<longleftrightarrow> (\<exists>r. r \<in> set t \<and> key r = k \<and> Q r)"
    using find_key_iff[OF assms, of k] by auto
  then show ?thesis
    unfolding rows_affected_key[OF assms] by (auto split: option.splits)
qed

lemma select_first_Some:
  assumes "select_first key P t = Some r"
  shows "r \<in> set t" "P r" "\<And>x. x \<in> set t \<Longrightarrow> P x \<Longrightarrow> key r \<le> key x"
proof -
  from assms obtain rs where rs: "sort_key key (filter P t) = r # rs"
    by (auto simp: select_first_def split: list.splits)
  then have "r \<in> set (sort_key key (filter P t))" by simp
  then show "r \<in> set t" "P r" by auto
  fix x assume "x \<in> set t" "P x"
  then have "x \<in> set (sort_key key (filter P t))" by simp
  moreover have "sorted (map key (r # rs))" using rs sorted_sort_key[of key "filter P t"] by simp
  ultimately show "key r \<le> key x" using rs by auto
qed

lemma select_first_None: "select_first key P t = None \<longleftrightarrow> (\<forall>r \<in> set t. \<not> P r)"
proof -
  have "sort_key key (filter P t) = [] \<longleftrightarrow> filter P t = []"
    by (metis length_0_conv length_sort)
  then show ?thesis by (auto simp: select_first_def filter_empty_conv split: list.splits)
qed

lemma set_select_limit: "r \<in> set (select_limit key P n t) \<Longrightarrow> r \<in> set t \<and> P r"
  by (auto simp: select_limit_def dest: in_set_takeD)

lemma set_select_desc: "set (select_desc key P t) = {r \<in> set t. P r}"
  by (auto simp: select_desc_def)

section \<open>Tables with a primary key\<close>

text \<open>
  A table of a database record: its primary key, how to read and write its rows, and the read
  by key. The laws are those of a field (writing then reading gives what was written, the last
  write wins) and that the read by key is the first row with the key.
\<close>

locale keyed_table =
  fixes key :: "'row \<Rightarrow> 'key"
    and rows :: "'db \<Rightarrow> 'row list"
    and set_rows :: "'row list \<Rightarrow> 'db \<Rightarrow> 'db"
    and lookup :: "'db \<Rightarrow> 'key \<Rightarrow> 'row option"
  assumes rows_set_rows: "rows (set_rows t d) = t"
    and set_rows_rows: "set_rows (rows d) d = d"
    and set_rows_twice: "set_rows t (set_rows u d) = set_rows t d"
    and lookup_find: "lookup d k = find (\<lambda>r. key r = k) (rows d)"
begin

lemma lookup_iff:
  "distinct (map key (rows d)) \<Longrightarrow> lookup d k = Some r \<longleftrightarrow> r \<in> set (rows d) \<and> key r = k"
  unfolding lookup_find by (rule find_key_iff)

lemma lookup_SomeD: "lookup d k = Some r \<Longrightarrow> r \<in> set (rows d) \<and> key r = k"
  unfolding lookup_find by (rule find_eq_SomeD)

lemma lookup_None: "lookup d k = None \<longleftrightarrow> (\<forall>r \<in> set (rows d). key r \<noteq> k)"
  by (simp add: lookup_find find_eq_None)

lemma lookup_update:
  assumes "\<And>r. P r \<Longrightarrow> key (f r) = key r"
  shows "lookup (set_rows (update_where P f (rows d)) d) k =
    map_option (\<lambda>r. if P r then f r else r) (lookup d k)"
  unfolding lookup_find rows_set_rows by (rule find_update_where) (rule assms)

lemma lookup_insert:
  "lookup d (key r) = None \<Longrightarrow>
    lookup (set_rows (rows d @ [r]) d) k = (if k = key r then Some r else lookup d k)"
  by (auto simp: lookup_find rows_set_rows find_append split: option.splits)

lemma unique_update:
  "distinct (map key (rows d)) \<Longrightarrow> (\<And>r. P r \<Longrightarrow> key (f r) = key r) \<Longrightarrow>
    distinct (map key (rows (set_rows (update_where P f (rows d)) d)))"
  unfolding rows_set_rows by (subst map_update_where) auto

lemma unique_insert:
  "distinct (map key (rows d)) \<Longrightarrow> lookup d (key r) = None \<Longrightarrow>
    distinct (map key (rows (set_rows (rows d @ [r]) d)))"
  unfolding rows_set_rows by (auto simp: lookup_None)

lemma affected_one:
  "distinct (map key (rows d)) \<Longrightarrow> rows_affected (\<lambda>r. key r = k \<and> Q r) (rows d) = 1 \<longleftrightarrow>
    (\<exists>r. lookup d k = Some r \<and> Q r)"
  by (simp add: lookup_find rows_affected_key split: option.splits)

lemma update_none:
  "rows_affected (\<lambda>r. key r = k \<and> Q r) (rows d) = 0 \<Longrightarrow>
    set_rows (update_where (\<lambda>r. key r = k \<and> Q r) f (rows d)) d = d"
  by (subst update_where_none) (auto simp: rows_affected_0 set_rows_rows)

end

end
