(* ===== verification/Schema.thy ===== *)
theory Schema
  imports Domain Investigation Sql Paths
begin

text \<open>
  The durable state of the control plane: one record per row of the tables created by
  \<open>internal/database/migrations\<close>, the database as a record of tables, the store's error values
  (\<open>internal/database/database.go\<close>), the ambient inputs of a store operation and the statements
  several operations share: \<open>newID\<close>, \<open>insertAuditEvent\<close>, \<open>enqueueNotificationEvent\<close> and the
  inserts with the constraints their tables declare. A violated primary key, unique, foreign
  key or integer-range constraint is the value \<open>ErrDatabase\<close>. A JSONB column holds the value it
  encodes, a nullable column an option.
\<close>

section \<open>Ambient inputs\<close>

text \<open>
  What an operation reads from outside the database: the store's data directory and the
  process's working directory, the transaction's \<open>now()\<close>, the process
  clock \<open>time.Now()\<close>, the random bytes of its \<open>k\<close>-th identifier, the sort key of the database
  collation, the rows another transaction has locked (skipped by \<open>SKIP LOCKED\<close>), the time zone
  database and the cron parser \<open>cron.ParseStandard\<close>.
\<close>

record ambient =
  data_dir :: string
  working_dir :: string
  pg_now :: time
  go_now :: time
  entropy :: "nat \<Rightarrow> string"
  collation :: "string \<Rightarrow> string"
  locked :: "string list \<Rightarrow> bool"
  load_location :: "string \<Rightarrow> string option"
  cron_parse :: "string \<Rightarrow> (string \<Rightarrow> time \<Rightarrow> time) option"

definition newID :: "ambient \<Rightarrow> nat \<Rightarrow> string \<Rightarrow> string" where
  "newID amb k p = p @ ''_'' @ hex_encode (entropy amb k)"

lemma newID_inject [simp]: "newID amb k p = newID amb j p \<longleftrightarrow> entropy amb k = entropy amb j"
  by (simp add: newID_def)

section \<open>Errors\<close>

record pending_approval =
  pa_id :: string
  pa_title :: string
  pa_expires_at :: time

datatype store_error =
    ErrRunLeaseLost | ErrDeploymentLeaseLost | ErrDeploymentIdempotencyConflict
  | ErrDeploymentContentUnverifiable | ErrDeploymentNotRetryable | ErrDeploymentSourceUnavailable
  | ErrDeploymentNotCancellable | ErrDeploymentCancelled | ErrAutomationNotFound
  | ErrAutomationRevisionChanged | ErrRevisionNotFound | ErrRevisionArtifactUnavailable
  | ErrRunNotFound | ErrDeploymentNotFound | ErrTriggerNotFound | ErrRetentionPlanNotFound
  | ErrRetentionPlanExpired | ErrRetentionPlanBusy | ErrSecretNotFound "string list"
  | ErrSecretInUse string nat | ErrAutomationStateConflict | ErrArtifactProvenanceRequired
  | ErrApprovalNotFound | ErrApprovalResolved | ErrApprovalExpired
  | ErrApprovalInvalidResponse string | ErrNotificationLeaseLost
  | ErrPendingApprovals string string string "pending_approval list"
  | ErrInvestigationNotFound | ErrInvestigationConflict | ErrInvestigation investigation_error
  | ErrStorage path_error
  | ErrNoRows | ErrDatabase | ErrText string | Panic

section \<open>Rows\<close>

record retention_policy =
  rp_source_max_age :: string
  rp_artifact_max_age :: string
  rp_keep_retryable_sources :: int
  rp_keep_inactive_revisions :: int

text \<open>The values the code puts into audit details and notification payloads.\<close>

datatype details = DNull | DString string | DInt int | DBool bool | DTime time
  | DStrings "string list" | DTools "resolved_tool_environment option"
  | DPolicy retention_policy | DObject "(string \<times> details) list"

record automation_row =
  au_id :: string
  au_project :: string
  au_folder :: string
  au_description :: string
  au_labels :: "string list"
  au_active_revision_id :: "string option"
  au_enabled :: bool
  au_created_at :: time
  au_updated_at :: time

record revision_row =
  rv_id :: string
  rv_automation_id :: string
  rv_content_hash :: string
  rv_manifest :: manifest
  rv_artifact_path :: string
  rv_provenance :: "artifact_provenance option"
  rv_created_at :: time

record trigger_row =
  tr_automation_id :: string
  tr_id :: string
  tr_revision_id :: string
  tr_type :: string
  tr_config :: json_map
  tr_enabled :: bool
  tr_next_fire_at :: "time option"
  tr_updated_at :: time

record event_row =
  e_id :: string
  e_trigger_key :: string
  e_external_id :: string
  e_envelope :: event_envelope
  e_occurred_at :: time
  e_received_at :: time

record run_row =
  r_id :: string
  r_automation_id :: string
  r_revision_id :: string
  r_event_id :: string
  r_status :: run_status
  r_attempt :: int
  r_max_attempts :: int
  r_concurrency_policy :: string
  r_available_at :: time
  r_lease_owner :: "string option"
  r_lease_expires_at :: "time option"
  r_logs :: string
  r_result :: "json option"
  r_error :: string
  r_created_at :: time
  r_started_at :: "time option"
  r_finished_at :: "time option"

record state_row =
  st_automation_id :: string
  st_version :: int
  st_value :: json_map
  st_updated_by_run_id :: string
  st_updated_at :: time

record approval_response =
  rs_approval_id :: string
  rs_key :: string
  rs_action :: string
  rs_fields :: json_map

record approval_row =
  p_id :: string
  p_automation_id :: string
  p_revision_id :: string
  p_requested_by_run_id :: string
  p_approval_key :: string
  p_status :: string
  p_title :: string
  p_description :: string
  p_fields :: "approval_field list"
  p_actions :: "approval_action list"
  p_expires_at :: time
  p_created_at :: time
  p_resolved_at :: "time option"
  p_resolved_by :: string
  p_response :: "approval_response option"
  p_action_run_id :: "string option"
  p_expiring_notified_at :: "time option"

record notification_event_row =
  n_id :: string
  n_event_type :: string
  n_automation_id :: string
  n_subject_id :: string
  n_payload :: "(string \<times> details) list"
  n_status :: string
  n_created_at :: time
  n_expanded_at :: "time option"

record delivery_row =
  nd_id :: string
  nd_event_id :: string
  nd_destination_id :: string
  nd_provider :: string
  nd_provider_config :: json
  nd_status :: run_status
  nd_attempt :: int
  nd_max_attempts :: int
  nd_available_at :: time
  nd_lease_owner :: "string option"
  nd_lease_expires_at :: "time option"
  nd_last_error :: string
  nd_response_code :: "int option"
  nd_created_at :: time
  nd_delivered_at :: "time option"

record audit_row =
  ae_id :: string
  ae_action :: string
  ae_automation_id :: string
  ae_actor :: string
  ae_details :: "(string \<times> details) list"
  ae_created_at :: time

record deployment_row =
  dp_id :: string
  dp_idempotency_key :: string
  dp_package_digest :: string
  dp_content_digest :: string
  dp_source_path :: string
  dp_status :: deployment_status
  dp_automation_id :: string
  dp_content_hash :: string
  dp_revision_id :: "string option"
  dp_retry_of :: "string option"
  dp_actor :: string
  dp_error :: string
  dp_provenance :: "artifact_provenance option"
  dp_strand_approvals :: bool
  dp_cancel_requested_at :: "time option"
  dp_lease_owner :: "string option"
  dp_lease_expires_at :: "time option"
  dp_created_at :: time
  dp_updated_at :: time
  dp_started_at :: "time option"
  dp_finished_at :: "time option"

record deployment_step_row =
  ds_deployment_id :: string
  ds_position :: nat
  ds_id :: string
  ds_kind :: string
  ds_status :: step_status
  ds_logs :: string
  ds_error :: string
  ds_started_at :: time
  ds_finished_at :: "time option"

record secret_row =
  s_name :: string
  s_description :: string
  s_ciphertext :: string
  s_key_id :: string
  s_version :: int
  s_created_at :: time
  s_updated_at :: time

record secret_reference_row =
  sx_revision_id :: string
  sx_secret_name :: string
  sx_purpose :: string

record retention_plan_row =
  pl_id :: string
  pl_status :: string
  pl_policy :: retention_policy
  pl_actor :: string
  pl_created_at :: time
  pl_updated_at :: time
  pl_expires_at :: time
  pl_lease_expires_at :: "time option"
  pl_applied_at :: "time option"

record retention_item_row =
  ri_plan_id :: string
  ri_position :: int
  ri_kind :: string
  ri_storage_key :: string
  ri_storage_path :: string
  ri_resource_ids :: "string list"
  ri_automation_ids :: "string list"
  ri_reason :: string
  ri_estimated_bytes :: int
  ri_status :: string
  ri_error :: string
  ri_created_at :: time
  ri_deleted_at :: "time option"

record investigation_row =
  in_request_id :: string
  in_repository_id :: string
  in_issue_number :: int
  in_spec :: investigation_spec
  in_state :: investigation_state
  in_version :: int
  in_created_at :: time
  in_updated_at :: time

record investigation_version_row =
  iw_request_id :: string
  iw_version :: int
  iw_state :: investigation_state
  iw_actor :: string
  iw_created_at :: time

section \<open>The database\<close>

record db =
  automations :: "automation_row list"
  revisions :: "revision_row list"
  triggers :: "trigger_row list"
  events :: "event_row list"
  runs :: "run_row list"
  automation_state :: "state_row list"
  approvals :: "approval_row list"
  notification_events :: "notification_event_row list"
  notification_deliveries :: "delivery_row list"
  audit_events :: "audit_row list"
  deployments :: "deployment_row list"
  deployment_steps :: "deployment_step_row list"
  secrets :: "secret_row list"
  secret_references :: "secret_reference_row list"
  retention_plans :: "retention_plan_row list"
  retention_items :: "retention_item_row list"
  investigations :: "investigation_row list"
  investigation_versions :: "investigation_version_row list"

definition empty_db :: db where
  "empty_db = \<lparr>automations = [], revisions = [], triggers = [], events = [], runs = [],
     automation_state = [], approvals = [], notification_events = [], notification_deliveries = [],
     audit_events = [], deployments = [], deployment_steps = [], secrets = [],
     secret_references = [], retention_plans = [], retention_items = [], investigations = [],
     investigation_versions = []\<rparr>"

type_synonym 'a store_result = "(store_error + 'a) \<times> db"

section \<open>Inserts shared by the operations\<close>

definition conflicts :: "('r \<Rightarrow> 'k) \<Rightarrow> 'r \<Rightarrow> 'r list \<Rightarrow> bool" where
  "conflicts key r t = (\<exists>x \<in> set t. key x = key r)"

definition int4 :: "int \<Rightarrow> bool" where
  "int4 n = (- (2 ^ 31) \<le> n \<and> n < 2 ^ 31)"

definition insertAuditEvent :: "ambient \<Rightarrow> nat \<Rightarrow> string \<Rightarrow> string \<Rightarrow> string
    \<Rightarrow> (string \<times> details) list \<Rightarrow> db \<Rightarrow> store_error + db" where
  "insertAuditEvent amb k action automationID actor ds d =
     (let row = \<lparr>ae_id = newID amb k ''audit'', ae_action = action, ae_automation_id = automationID,
                ae_actor = (if actor = [] then ''unknown'' else actor), ae_details = ds,
                ae_created_at = pg_now amb\<rparr>
      in guardR (conflicts ae_id row (audit_events d)) ErrDatabase
           (Inr (d\<lparr>audit_events := audit_events d @ [row]\<rparr>)))"

text \<open>\<open>ON CONFLICT (event_type, subject_id) DO NOTHING\<close>: a repeated event is not an error.\<close>

definition enqueueNotificationEvent :: "ambient \<Rightarrow> nat \<Rightarrow> string \<Rightarrow> string \<Rightarrow> string
    \<Rightarrow> (string \<times> details) list \<Rightarrow> db \<Rightarrow> store_error + db" where
  "enqueueNotificationEvent amb k eventType automationID subjectID payload d =
     (let row = \<lparr>n_id = newID amb k ''notification'', n_event_type = eventType,
                n_automation_id = automationID, n_subject_id = subjectID, n_payload = payload,
                n_status = ''pending'', n_created_at = pg_now amb, n_expanded_at = None\<rparr>
      in if conflicts (\<lambda>n. (n_event_type n, n_subject_id n)) row (notification_events d) then Inr d
         else guardR (conflicts n_id row (notification_events d)) ErrDatabase
           (Inr (d\<lparr>notification_events := notification_events d @ [row]\<rparr>)))"

text \<open>An event row with the envelope the callers build: the envelope repeats the identifier and
  the times of the row.\<close>

definition event_row_of :: "string \<Rightarrow> string \<Rightarrow> string \<Rightarrow> event_trigger \<Rightarrow> time \<Rightarrow> time \<Rightarrow> json
    \<Rightarrow> json_map \<Rightarrow> event_row" where
  "event_row_of eventID key ext trg occurredAt receivedAt data meta =
     \<lparr>e_id = eventID, e_trigger_key = key, e_external_id = ext,
      e_envelope = \<lparr>ev_id = eventID, ev_occurred_at = occurredAt, ev_received_at = receivedAt,
        ev_trigger = trg, ev_data = data, ev_metadata = meta\<rparr>,
      e_occurred_at = occurredAt, e_received_at = receivedAt\<rparr>"

lemma event_row_of_fields [simp]:
  "e_id (event_row_of i k x t oc rc dt m) = i" "e_trigger_key (event_row_of i k x t oc rc dt m) = k"
  "e_external_id (event_row_of i k x t oc rc dt m) = x"
  by (simp_all add: event_row_of_def)

definition insert_event :: "event_row \<Rightarrow> db \<Rightarrow> store_error + db" where
  "insert_event e d =
     guardR (conflicts e_id e (events d) \<or>
             conflicts (\<lambda>x. (e_trigger_key x, e_external_id x)) e (events d)) ErrDatabase
       (Inr (d\<lparr>events := events d @ [e]\<rparr>))"

text \<open>A queued run as the inserts write it, the other columns at their defaults.\<close>

definition queued_run :: "ambient \<Rightarrow> string \<Rightarrow> string \<Rightarrow> string \<Rightarrow> string \<Rightarrow> int \<Rightarrow> string \<Rightarrow> time
    \<Rightarrow> run_row" where
  "queued_run amb runID automationID revisionID eventID maxAttempts policy availableAt =
     \<lparr>r_id = runID, r_automation_id = automationID, r_revision_id = revisionID,
      r_event_id = eventID, r_status = RunQueued, r_attempt = 0, r_max_attempts = maxAttempts,
      r_concurrency_policy = policy, r_available_at = availableAt, r_lease_owner = None,
      r_lease_expires_at = None, r_logs = [], r_result = None, r_error = [],
      r_created_at = pg_now amb, r_started_at = None, r_finished_at = None\<rparr>"

definition insert_run :: "run_row \<Rightarrow> db \<Rightarrow> store_error + db" where
  "insert_run r d =
     guardR (conflicts r_id r (runs d) \<or> conflicts r_event_id r (runs d)
        \<or> \<not> int4 (r_max_attempts r)
        \<or> list_all (\<lambda>a. au_id a \<noteq> r_automation_id r) (automations d)
        \<or> list_all (\<lambda>v. rv_id v \<noteq> r_revision_id r) (revisions d)
        \<or> list_all (\<lambda>e. e_id e \<noteq> r_event_id r) (events d)) ErrDatabase
       (Inr (d\<lparr>runs := runs d @ [r]\<rparr>))"

section \<open>Reads shared by the operations\<close>

definition automation_by_id :: "db \<Rightarrow> string \<Rightarrow> automation_row option" where
  "automation_by_id d k = find (\<lambda>a. au_id a = k) (automations d)"

definition revision_by_id :: "db \<Rightarrow> string \<Rightarrow> revision_row option" where
  "revision_by_id d k = find (\<lambda>v. rv_id v = k) (revisions d)"

definition run_by_id :: "db \<Rightarrow> string \<Rightarrow> run_row option" where
  "run_by_id d k = find (\<lambda>r. r_id r = k) (runs d)"

definition event_by_id :: "db \<Rightarrow> string \<Rightarrow> event_row option" where
  "event_by_id d k = find (\<lambda>e. e_id e = k) (events d)"

definition deployment_by_id :: "db \<Rightarrow> string \<Rightarrow> deployment_row option" where
  "deployment_by_id d k = find (\<lambda>x. dp_id x = k) (deployments d)"

definition approval_by_id :: "db \<Rightarrow> string \<Rightarrow> approval_row option" where
  "approval_by_id d k = find (\<lambda>p. p_id p = k) (approvals d)"

text \<open>\<open>SELECT r.id FROM runs r JOIN events e ON e.id = r.event_id WHERE e.trigger_key = .. AND
  e.external_id = ..\<close>\<close>

definition run_of_event :: "db \<Rightarrow> string \<Rightarrow> string \<Rightarrow> run_row option" where
  "run_of_event d key ext =
     find (\<lambda>r. list_ex (\<lambda>e. e_id e = r_event_id r \<and> e_trigger_key e = key \<and> e_external_id e = ext)
                 (events d)) (runs d)"

definition recorded_location :: "ambient \<Rightarrow> string \<Rightarrow> store_error + string" where
  "recorded_location amb p =
     (case relativeStorageLocation (data_dir amb) (working_dir amb) p of
        Inl e \<Rightarrow> Inl (ErrStorage e) | Inr r \<Rightarrow> Inr r)"

definition resolved_location :: "ambient \<Rightarrow> string \<Rightarrow> store_error + string" where
  "resolved_location amb r =
     (case resolveStorageLocation (data_dir amb) r of
        Inl e \<Rightarrow> Inl (ErrStorage e) | Inr p \<Rightarrow> Inr p)"

definition effective_policy :: "manifest \<Rightarrow> string" where
  "effective_policy m =
     (if ex_concurrency (mf_execution m) = [] then ''allow'' else ex_concurrency (mf_execution m))"

section \<open>Tables as instances of the keyed table\<close>

interpretation run_table: keyed_table r_id runs "\<lambda>t d. d\<lparr>runs := t\<rparr>" run_by_id
  by unfold_locales (simp_all add: run_by_id_def)

interpretation deployment_table: keyed_table dp_id deployments "\<lambda>t d. d\<lparr>deployments := t\<rparr>" deployment_by_id
  by unfold_locales (simp_all add: deployment_by_id_def)

interpretation approval_table: keyed_table p_id approvals "\<lambda>t d. d\<lparr>approvals := t\<rparr>" approval_by_id
  by unfold_locales (simp_all add: approval_by_id_def)

interpretation event_table: keyed_table e_id events "\<lambda>t d. d\<lparr>events := t\<rparr>" event_by_id
  by unfold_locales (simp_all add: event_by_id_def)

interpretation automation_table: keyed_table au_id automations "\<lambda>t d. d\<lparr>automations := t\<rparr>" automation_by_id
  by unfold_locales (simp_all add: automation_by_id_def)

interpretation revision_table: keyed_table rv_id revisions "\<lambda>t d. d\<lparr>revisions := t\<rparr>" revision_by_id
  by unfold_locales (simp_all add: revision_by_id_def)

section \<open>What the shared inserts do\<close>

lemma insertAuditEvent_Inr [result_simps]:
  "insertAuditEvent amb k action a actor ds d = Inr d' \<longleftrightarrow>
    (\<exists>row. \<not> conflicts ae_id row (audit_events d) \<and> d' = d\<lparr>audit_events := audit_events d @ [row]\<rparr>
      \<and> row = \<lparr>ae_id = newID amb k ''audit'', ae_action = action, ae_automation_id = a,
               ae_actor = (if actor = [] then ''unknown'' else actor), ae_details = ds,
               ae_created_at = pg_now amb\<rparr>)"
  by (auto simp: insertAuditEvent_def Let_def guardR_eq_Inr)

lemma insert_event_Inr [result_simps]:
  "insert_event e d = Inr d' \<longleftrightarrow>
    \<not> conflicts e_id e (events d) \<and> \<not> conflicts (\<lambda>x. (e_trigger_key x, e_external_id x)) e (events d)
      \<and> d' = d\<lparr>events := events d @ [e]\<rparr>"
  by (auto simp: insert_event_def guardR_eq_Inr)

lemma insert_run_Inr [result_simps]:
  "insert_run r d = Inr d' \<longleftrightarrow>
    \<not> conflicts r_id r (runs d) \<and> \<not> conflicts r_event_id r (runs d) \<and> int4 (r_max_attempts r)
      \<and> (\<exists>a \<in> set (automations d). au_id a = r_automation_id r)
      \<and> (\<exists>v \<in> set (revisions d). rv_id v = r_revision_id r)
      \<and> (\<exists>e \<in> set (events d). e_id e = r_event_id r)
      \<and> d' = d\<lparr>runs := runs d @ [r]\<rparr>"
  by (auto simp: insert_run_def guardR_eq_Inr list_all_iff)

end
