(* ===== verification/RunQueue.thy ===== *)
theory RunQueue
  imports Schema
begin

text \<open>
  Events and runs (\<open>internal/database/database.go\<close>): event ingestion with its deduplication by
  \<open>(trigger_key, external_id)\<close>, manual runs, the scheduler's due triggers, and the leased run
  queue (\<open>AcquireRun\<close>, \<open>RenewRunLease\<close>, \<open>CompleteRun\<close>, \<open>FailRun\<close>, \<open>ReleaseRun\<close>) with the
  optimistic automation state, deferred continuations, approval requests and notification
  requests a completed run commits with its result.

  The \<open>k\<close>-th identifier an operation draws is \<open>newID amb k\<close>.
\<close>

section \<open>Schedules and delays\<close>

definition nextSchedule :: "ambient \<Rightarrow> json_map \<Rightarrow> time \<Rightarrow> store_error + time" where
  "nextSchedule amb config after =
     (let expression = string_at config ''cron''; timezone = string_at config ''timezone'' in
      case (if timezone = [] then Some ''UTC'' else load_location amb timezone) of
        None \<Rightarrow> Inl (ErrText ''unknown time zone'')
      | Some location \<Rightarrow>
          (case cron_parse amb expression of
             None \<Rightarrow> Inl (ErrText ''invalid cron expression'')
           | Some next_fire \<Rightarrow> Inr (next_fire location after)))"

text \<open>\<open>None\<close> is the run-time panic of a negative shift count.\<close>

definition retryDelay :: "int \<Rightarrow> duration option" where
  "retryDelay attempt =
     (if attempt - 1 < 0 then None
      else Some (min (second * 2 ^ nat (min (attempt - 1) 8)) (5 * minute)))"

definition validStateObject :: "json option \<Rightarrow> json_map option" where
  "validStateObject v = (case v of Some (JObject m) \<Rightarrow> Some m | _ \<Rightarrow> None)"

text \<open>
  \<open>json.Unmarshal\<close> of an object into a string field: each key that matches the field name
  without regard to case is decoded in turn, \<open>null\<close> leaves the field alone and any other kind
  of value is an error.
\<close>

definition unmarshal_string_field :: "string \<Rightarrow> json_map \<Rightarrow> store_error + string" where
  "unmarshal_string_field name m =
     foldR (\<lambda>(k, v) acc. if \<not> EqualFold k name then Inr acc
        else (case v of JString s \<Rightarrow> Inr s | JNull \<Rightarrow> Inr acc
              | _ \<Rightarrow> Inl (ErrText ''json: cannot unmarshal''))) m []"

section \<open>Event ingestion\<close>

text \<open>The trigger row joined with its enabled automation and active revision.\<close>

definition enabled_trigger :: "db \<Rightarrow> string \<Rightarrow> string \<Rightarrow> string \<Rightarrow> (trigger_row \<times> revision_row) option" where
  "enabled_trigger d automationID triggerID expectedType =
     (case find (\<lambda>t. tr_automation_id t = automationID \<and> tr_id t = triggerID
            \<and> tr_type t = expectedType \<and> tr_enabled t
            \<and> list_ex (\<lambda>a. au_id a = tr_automation_id t
                 \<and> au_active_revision_id a = Some (tr_revision_id t) \<and> au_enabled a) (automations d))
          (triggers d) of
        None \<Rightarrow> None
      | Some t \<Rightarrow> map_option (\<lambda>v. (t, v)) (revision_by_id d (tr_revision_id t)))"

definition GetTriggerIngressPolicy :: "string \<Rightarrow> string \<Rightarrow> string \<Rightarrow> db \<Rightarrow> store_error + json_map" where
  "GetTriggerIngressPolicy automationID triggerID expectedType d =
     (case find (\<lambda>t. tr_automation_id t = automationID \<and> tr_id t = triggerID
            \<and> tr_type t = expectedType \<and> tr_enabled t
            \<and> list_ex (\<lambda>a. au_id a = tr_automation_id t
                 \<and> au_active_revision_id a = Some (tr_revision_id t) \<and> au_enabled a) (automations d))
          (triggers d) of
        None \<Rightarrow> Inl ErrTriggerNotFound
      | Some t \<Rightarrow> Inr (tr_config t))"

definition event_availability :: "ambient \<Rightarrow> string \<Rightarrow> json_map \<Rightarrow> store_error + time" where
  "event_availability amb triggerType config =
     (if triggerType = ''webhook'' then
        bindR (unmarshal_string_field ''deliveryDelay'' config) (\<lambda>delay.
          if delay = [] then Inr (go_now amb)
          else (case ParseDuration delay of
             None \<Rightarrow> Inl (ErrText ''webhook trigger has invalid delivery delay'')
           | Some dl \<Rightarrow>
               guardR (dl \<le> 0 \<or> dl > 24 * hour) (ErrText ''webhook trigger has invalid delivery delay'')
                 (Inr (go_now amb + dl))))
      else Inr (go_now amb))"

definition enqueueEvent :: "ambient \<Rightarrow> nat \<Rightarrow> string \<Rightarrow> string \<Rightarrow> string \<Rightarrow> string \<Rightarrow> time \<Rightarrow> json
    \<Rightarrow> json_map \<Rightarrow> db \<Rightarrow> store_error + (string \<times> bool) \<times> db" where
  "enqueueEvent amb k automationID triggerID expectedType externalID occurredAt data meta d =
     (case enabled_trigger d automationID triggerID expectedType of
        None \<Rightarrow> Inl (ErrText (''enabled '' @ expectedType @ '' trigger '' @ automationID @ ''/''
                   @ triggerID @ '' not found''))
      | Some (t, v) \<Rightarrow>
          (let externalID = (if externalID = [] then newID amb k ''external'' else externalID);
               occurredAt = (if occurredAt = zero_time then go_now amb else occurredAt);
               eventID = newID amb (k + 1) ''evt'';
               runID = newID amb (k + 2) ''run'';
               key = automationID @ '':'' @ triggerID;
               row = event_row_of eventID key externalID
                  \<lparr>et_automation = automationID, et_id = triggerID, et_type = tr_type t\<rparr>
                  occurredAt (go_now amb) data meta
           in if conflicts (\<lambda>x. (e_trigger_key x, e_external_id x)) row (events d)
              then (case run_of_event d key externalID of
                      None \<Rightarrow> Inl ErrNoRows | Some r \<Rightarrow> Inr ((r_id r, False), d))
              else bindR (insert_event row d) (\<lambda>d1.
                bindR (event_availability amb (tr_type t) (tr_config t)) (\<lambda>availableAt.
                bindR (insert_run (queued_run amb runID automationID (tr_revision_id t) eventID
                    (ex_retries (mf_execution (rv_manifest v)) + 1)
                    (effective_policy (rv_manifest v)) availableAt) d1) (\<lambda>d2.
                Inr ((runID, True), d2))))))"

definition IngestEvent :: "ambient \<Rightarrow> string \<Rightarrow> string \<Rightarrow> string \<Rightarrow> string \<Rightarrow> time \<Rightarrow> json \<Rightarrow> json_map
    \<Rightarrow> db \<Rightarrow> (string \<times> bool) store_result" where
  "IngestEvent amb automationID triggerID expectedType externalID occurredAt data meta =
     transact (enqueueEvent amb 0 automationID triggerID expectedType externalID occurredAt data meta)"

definition EnqueueManualRun :: "ambient \<Rightarrow> string \<Rightarrow> string \<Rightarrow> string \<Rightarrow> json \<Rightarrow> string \<Rightarrow> db
    \<Rightarrow> (string \<times> bool) store_result" where
  "EnqueueManualRun amb automationID externalID expectedRevisionID data actor = transact (\<lambda>d.
     let key = automationID @ '':manual'';
         existing = (if externalID \<noteq> [] then run_of_event d key externalID else None) in
     case existing of Some r \<Rightarrow> Inr ((r_id r, False), d)
     | None \<Rightarrow>
       (case automation_by_id d automationID of
          None \<Rightarrow> Inl ErrAutomationNotFound
        | Some a \<Rightarrow>
          (case au_active_revision_id a of
             None \<Rightarrow> Inl ErrDatabase
           | Some revisionID \<Rightarrow>
             (case revision_by_id d revisionID of
                None \<Rightarrow> Inl ErrRevisionNotFound
              | Some v \<Rightarrow>
                guardR (expectedRevisionID \<noteq> [] \<and> revisionID \<noteq> expectedRevisionID)
                  ErrAutomationRevisionChanged
                (let externalID = (if externalID = [] then newID amb 0 ''external'' else externalID);
                     eventID = newID amb 1 ''evt''; runID = newID amb 2 ''run''; now = go_now amb;
                     row = event_row_of eventID key externalID
                        \<lparr>et_automation = automationID, et_id = ''manual'', et_type = ''manual''\<rparr> now now data
                        [(''source'', JString ''manual''), (''actor'', JString actor)]
                 in if conflicts (\<lambda>x. (e_trigger_key x, e_external_id x)) row (events d)
                    then (case run_of_event d key externalID of
                            None \<Rightarrow> Inl ErrNoRows | Some r \<Rightarrow> Inr ((r_id r, False), d))
                    else bindR (insert_event row d) (\<lambda>d1.
                      bindR (insert_run (queued_run amb runID automationID revisionID eventID
                          (ex_retries (mf_execution (rv_manifest v)) + 1)
                          (effective_policy (rv_manifest v)) (pg_now amb)) d1) (\<lambda>d2.
                      bindR (insertAuditEvent amb 3 ''run.queued_manually'' automationID actor
                          [(''runId'', DString runID), (''externalId'', DString externalID)] d2) (\<lambda>d3.
                      Inr ((runID, True), d3)))))))))"

section \<open>The scheduler\<close>

definition due_triggers :: "ambient \<Rightarrow> time \<Rightarrow> nat \<Rightarrow> db \<Rightarrow> trigger_row list" where
  "due_triggers amb now limit d =
     select_limit (\<lambda>t. the (tr_next_fire_at t))
       (\<lambda>t. tr_type t = ''schedule'' \<and> tr_enabled t
          \<and> list_ex (\<lambda>a. au_id a = tr_automation_id t \<and> au_enabled a) (automations d)
          \<and> (case tr_next_fire_at t of None \<Rightarrow> False | Some fa \<Rightarrow> fa \<le> now)
          \<and> \<not> locked amb [''triggers'', tr_automation_id t, tr_id t]
          \<and> \<not> locked amb [''automations'', tr_automation_id t])
       limit (triggers d)"

definition set_next_fire :: "ambient \<Rightarrow> string \<Rightarrow> string \<Rightarrow> time \<Rightarrow> db \<Rightarrow> db" where
  "set_next_fire amb automationID triggerID fa d =
     d\<lparr>triggers := update_where (\<lambda>t. tr_automation_id t = automationID \<and> tr_id t = triggerID)
        (\<lambda>t. t\<lparr>tr_next_fire_at := Some fa, tr_updated_at := pg_now amb\<rparr>) (triggers d)\<rparr>"

definition fire_schedule :: "ambient \<Rightarrow> nat \<times> trigger_row \<Rightarrow> nat \<times> db \<Rightarrow> store_error + nat \<times> db" where
  "fire_schedule amb item st =
     (case (item, st) of ((i, t), (created, d)) \<Rightarrow>
        let fireAt = the (tr_next_fire_at t) in
        bindR (nextSchedule amb (tr_config t) fireAt) (\<lambda>following.
        bindR (enqueueEvent amb (3 * i) (tr_automation_id t) (tr_id t) ''schedule''
            (format_rfc3339nano fireAt) fireAt
            (JObject [(''scheduledAt'', JString (format_rfc3339nano fireAt))])
            [(''source'', JString ''scheduler'')]
            (set_next_fire amb (tr_automation_id t) (tr_id t) following d)) (\<lambda>((_, wasCreated), d').
        Inr (if wasCreated then created + 1 else created, d'))))"

definition EnqueueDueSchedules :: "ambient \<Rightarrow> time \<Rightarrow> nat \<Rightarrow> db \<Rightarrow> nat store_result" where
  "EnqueueDueSchedules amb now limit = transact (\<lambda>d.
     let due = due_triggers amb now limit d in
     foldR (fire_schedule amb) (zip [0..<length due] due) (0, d))"

section \<open>The leased run queue\<close>

definition opt_holds :: "('a \<Rightarrow> bool) \<Rightarrow> 'a option \<Rightarrow> bool" where
  "opt_holds P v = (case v of None \<Rightarrow> False | Some x \<Rightarrow> P x)"

lemma opt_holds_simps [simp]: "opt_holds P None = False" "opt_holds P (Some x) = P x"
  by (simp_all add: opt_holds_def)

text \<open>The \<open>WHERE\<close> clause of the candidate query over the snapshot \<open>d\<close>.\<close>

definition live_running :: "ambient \<Rightarrow> run_row \<Rightarrow> bool" where
  "live_running amb r = (r_status r = RunRunning \<and> opt_holds (\<lambda>t. t \<ge> pg_now amb) (r_lease_expires_at r))"

definition run_candidate :: "ambient \<Rightarrow> db \<Rightarrow> run_row \<Rightarrow> bool" where
  "run_candidate amb d r =
     (((r_status r = RunQueued \<and> r_available_at r \<le> pg_now amb)
       \<or> (r_status r = RunRunning \<and> opt_holds (\<lambda>t. t < pg_now amb) (r_lease_expires_at r)))
      \<and> \<not> (r_concurrency_policy r = ''forbid''
           \<and> list_ex (\<lambda>active. r_automation_id active = r_automation_id r
                \<and> r_id active \<noteq> r_id r \<and> live_running amb active) (runs d))
      \<and> \<not> locked amb [''runs'', r_id r])"

definition claim_run :: "ambient \<Rightarrow> string \<Rightarrow> duration \<Rightarrow> run_row \<Rightarrow> run_row" where
  "claim_run amb workerID lease r =
     r\<lparr>r_status := RunRunning, r_attempt := r_attempt r + 1, r_lease_owner := Some workerID,
       r_lease_expires_at := Some (pg_now amb + lease),
       r_started_at := (case r_started_at r of None \<Rightarrow> Some (pg_now amb) | Some t \<Rightarrow> Some t),
       r_error := []\<rparr>"

record runnable_run =
  rr_run :: run_row
  rr_artifact_path :: string
  rr_provenance :: "artifact_provenance option"
  rr_manifest :: manifest
  rr_event :: event_envelope
  rr_state :: json_map
  rr_state_version :: int

text \<open>
  The claim of a candidate chosen on the snapshot \<open>snap\<close>, applied to the current database. The
  data-modifying query commits on its own, so a location that fails to resolve is reported after
  the claim.
\<close>

definition AcquireRun_from :: "ambient \<Rightarrow> string \<Rightarrow> duration \<Rightarrow> db \<Rightarrow> db \<Rightarrow> runnable_run option store_result" where
  "AcquireRun_from amb workerID lease snap d =
     (case select_first (\<lambda>r. (r_available_at r, r_created_at r)) (run_candidate amb snap) (runs snap) of
        None \<Rightarrow> (Inr None, d)
      | Some c \<Rightarrow>
          (let d' = d\<lparr>runs := update_where (\<lambda>r. r_id r = r_id c) (claim_run amb workerID lease) (runs d)\<rparr> in
           case run_by_id d' (r_id c) of None \<Rightarrow> (Inr None, d')
           | Some r \<Rightarrow>
             (case (revision_by_id d' (r_revision_id r), event_by_id d' (r_event_id r)) of
                (Some v, Some e) \<Rightarrow>
                  (case resolved_location amb (rv_artifact_path v) of
                     Inl err \<Rightarrow> (Inl err, d')
                   | Inr p \<Rightarrow>
                     (let st = find (\<lambda>s. st_automation_id s = r_automation_id r) (automation_state d') in
                      (Inr (Some \<lparr>rr_run = r, rr_artifact_path = p, rr_provenance = rv_provenance v,
                        rr_manifest = rv_manifest v, rr_event = e_envelope e,
                        rr_state = (case st of None \<Rightarrow> [] | Some s \<Rightarrow> st_value s),
                        rr_state_version = (case st of None \<Rightarrow> 0 | Some s \<Rightarrow> st_version s)\<rparr>), d')))
              | _ \<Rightarrow> (Inr None, d'))))"

definition AcquireRun :: "ambient \<Rightarrow> string \<Rightarrow> duration \<Rightarrow> db \<Rightarrow> runnable_run option store_result" where
  "AcquireRun amb workerID lease d = AcquireRun_from amb workerID lease d d"

text \<open>The guard of every write a worker makes to a run: it still holds the claim.\<close>

definition owns_run :: "string \<Rightarrow> string \<Rightarrow> run_row \<Rightarrow> bool" where
  "owns_run runID workerID r =
     (r_id r = runID \<and> r_status r = RunRunning \<and> r_lease_owner r = Some workerID)"

definition RenewRunLease :: "ambient \<Rightarrow> string \<Rightarrow> string \<Rightarrow> duration \<Rightarrow> db \<Rightarrow> bool store_result" where
  "RenewRunLease amb runID workerID lease d =
     (Inr (rows_affected (owns_run runID workerID) (runs d) = 1),
      d\<lparr>runs := update_where (owns_run runID workerID)
         (\<lambda>r. r\<lparr>r_lease_expires_at := Some (pg_now amb + lease)\<rparr>) (runs d)\<rparr>)"

definition finish_run :: "ambient \<Rightarrow> run_status \<Rightarrow> string \<Rightarrow> json option \<Rightarrow> string \<Rightarrow> run_row \<Rightarrow> run_row" where
  "finish_run amb st logs res err r =
     r\<lparr>r_status := st, r_logs := logs, r_result := res, r_error := err,
       r_finished_at := Some (pg_now amb), r_lease_owner := None, r_lease_expires_at := None\<rparr>"

definition save_state :: "ambient \<Rightarrow> runnable_run \<Rightarrow> json option \<Rightarrow> db \<Rightarrow> store_error + db" where
  "save_state amb run state d =
     (if \<not> ex_state_enabled (mf_execution (rr_manifest run)) then Inr d
      else case validStateObject state of
        None \<Rightarrow> Inl (ErrText ''automation state is not a JSON object'')
      | Some m \<Rightarrow>
          (let aid = r_automation_id (rr_run run); rid = r_id (rr_run run) in
           if rr_state_version run = 0 then
             (let row = \<lparr>st_automation_id = aid, st_version = 1, st_value = m,
                        st_updated_by_run_id = rid, st_updated_at = pg_now amb\<rparr>
              in guardR (conflicts st_automation_id row (automation_state d)) ErrAutomationStateConflict
                   (guardR (list_all (\<lambda>a. au_id a \<noteq> aid) (automations d)) ErrDatabase
                     (Inr (d\<lparr>automation_state := automation_state d @ [row]\<rparr>))))
           else
             (let hit = (\<lambda>s. st_automation_id s = aid \<and> st_version s = rr_state_version run) in
              guardR (rows_affected hit (automation_state d) \<noteq> 1) ErrAutomationStateConflict
                (Inr (d\<lparr>automation_state := update_where hit
                   (\<lambda>s. s\<lparr>st_version := st_version s + 1, st_value := m,
                      st_updated_by_run_id := rid, st_updated_at := pg_now amb\<rparr>)
                   (automation_state d)\<rparr>)))))"

definition deferred_event :: "ambient \<Rightarrow> string \<Rightarrow> runnable_run \<Rightarrow> deferred_run_request \<Rightarrow> event_row" where
  "deferred_event amb eventID parent request =
     (let aid = r_automation_id (rr_run parent); pid = r_id (rr_run parent) in
      event_row_of eventID (aid @ '':deferred'') (pid @ '':'' @ dr_key request)
        \<lparr>et_automation = aid, et_id = ''deferred'', et_type = ''deferred''\<rparr>
        (dr_until request) (go_now amb)
        (case dr_data request of None \<Rightarrow> JNull | Some j \<Rightarrow> j)
        [(''source'', JString ''deferred''), (''parentRunId'', JString pid),
         (''continuationKey'', JString (dr_key request))])"

definition deferred_run :: "ambient \<Rightarrow> string \<Rightarrow> string \<Rightarrow> runnable_run \<Rightarrow> deferred_run_request \<Rightarrow> run_row" where
  "deferred_run amb runID eventID parent request =
     queued_run amb runID (r_automation_id (rr_run parent)) (r_revision_id (rr_run parent)) eventID
       (ex_retries (mf_execution (rr_manifest parent)) + 1) (effective_policy (rr_manifest parent))
       (dr_until request)"

definition enqueueDeferredRun :: "ambient \<Rightarrow> nat \<Rightarrow> runnable_run \<Rightarrow> deferred_run_request \<Rightarrow> db
    \<Rightarrow> store_error + db" where
  "enqueueDeferredRun amb k parent request d =
     (let eventID = newID amb k ''evt''; runID = newID amb (k + 1) ''run'' in
      bindR (insert_event (deferred_event amb eventID parent request) d)
        (insert_run (deferred_run amb runID eventID parent request)))"

text \<open>The approval a completed run opens, as the insert writes it.\<close>

definition requested_approval :: "ambient \<Rightarrow> string \<Rightarrow> runnable_run \<Rightarrow> approval_request \<Rightarrow> approval_row" where
  "requested_approval amb approvalID run request =
     \<lparr>p_id = approvalID, p_automation_id = r_automation_id (rr_run run),
      p_revision_id = r_revision_id (rr_run run), p_requested_by_run_id = r_id (rr_run run),
      p_approval_key = ar_key request, p_status = ''pending'',
      p_title = TrimSpace (ar_title request), p_description = TrimSpace (ar_description request),
      p_fields = ar_fields request, p_actions = ar_actions request,
      p_expires_at = ar_expires_at request, p_created_at = pg_now amb, p_resolved_at = None,
      p_resolved_by = [], p_response = None, p_action_run_id = None, p_expiring_notified_at = None\<rparr>"

definition request_approval :: "ambient \<Rightarrow> nat \<Rightarrow> runnable_run \<Rightarrow> approval_request \<Rightarrow> db
    \<Rightarrow> store_error + db" where
  "request_approval amb k run request d =
     (let aid = r_automation_id (rr_run run); rid = r_id (rr_run run);
          approvalID = newID amb k ''approval'';
          row = requested_approval amb approvalID run request
      in guardR (conflicts (\<lambda>p. (p_automation_id p, p_approval_key p)) row (approvals d))
           (ErrText ''approval key was already used by this automation'')
         (guardR (conflicts p_id row (approvals d) \<or> conflicts p_requested_by_run_id row (approvals d)
             \<or> list_all (\<lambda>a. au_id a \<noteq> aid) (automations d)
             \<or> list_all (\<lambda>v. rv_id v \<noteq> r_revision_id (rr_run run)) (revisions d)
             \<or> list_all (\<lambda>r. r_id r \<noteq> rid) (runs d)) ErrDatabase
         (bindR (insertAuditEvent amb (k + 1) ''approval.requested'' aid (''run:'' @ rid)
             [(''approvalId'', DString approvalID), (''revisionId'', DString (r_revision_id (rr_run run))),
              (''key'', DString (ar_key request))] (d\<lparr>approvals := approvals d @ [row]\<rparr>))
           (enqueueNotificationEvent amb (k + 2) ''approval.requested'' aid approvalID
             [(''approvalId'', DString approvalID), (''title'', DString (TrimSpace (ar_title request))),
              (''description'', DString (TrimSpace (ar_description request))),
              (''expiresAt'', DTime (ar_expires_at request))]))))"

definition request_notification :: "ambient \<Rightarrow> runnable_run \<Rightarrow> nat \<times> notification_request \<Rightarrow> db
    \<Rightarrow> store_error + db" where
  "request_notification amb run item d =
     (case item of (k, n) \<Rightarrow>
       let aid = r_automation_id (rr_run run); rid = r_id (rr_run run) in
       bindR (enqueueNotificationEvent amb k ''automation.notification'' aid (rid @ '':'' @ nr_key n)
           [(''runId'', DString rid), (''key'', DString (nr_key n)), (''title'', DString (nr_title n)),
            (''body'', DString (nr_body n)), (''priority'', DString (nr_priority n))] d)
         (insertAuditEvent amb (k + 1) ''notification.requested'' aid (''run:'' @ rid)
           [(''runId'', DString rid), (''key'', DString (nr_key n))]))"

definition optionally :: "('a \<Rightarrow> 's \<Rightarrow> 'e + 's) \<Rightarrow> 'a option \<Rightarrow> 's \<Rightarrow> 'e + 's" where
  "optionally f v s = (case v of None \<Rightarrow> Inr s | Some x \<Rightarrow> f x s)"

definition CompleteRun :: "ambient \<Rightarrow> runnable_run \<Rightarrow> string \<Rightarrow> string \<Rightarrow> json option \<Rightarrow> json option
    \<Rightarrow> run_control \<Rightarrow> db \<Rightarrow> unit store_result" where
  "CompleteRun amb run workerID logs res state control = transact (\<lambda>d.
     let own = owns_run (r_id (rr_run run)) workerID in
     guardR (rows_affected own (runs d) \<noteq> 1) ErrRunLeaseLost
     (bindR (save_state amb run state
         (d\<lparr>runs := update_where own (finish_run amb RunSucceeded logs res []) (runs d)\<rparr>)) (\<lambda>d1.
      bindR (optionally (enqueueDeferredRun amb 0 run) (rc_defer control) d1) (\<lambda>d2.
      bindR (optionally (request_approval amb 2 run) (rc_approval control) d2) (\<lambda>d3.
      bindR (foldR (request_notification amb run)
          (zip (map (\<lambda>i. 5 + 2 * i) [0..<length (rc_notifications control)]) (rc_notifications control)) d3) (\<lambda>d4.
      Inr ((), d4)))))))"

definition failed_run :: "ambient \<Rightarrow> bool \<Rightarrow> duration \<Rightarrow> string \<Rightarrow> string \<Rightarrow> run_row \<Rightarrow> run_row" where
  "failed_run amb retry dl lg msg r =
     r\<lparr>r_status := (if retry then RunQueued else RunFailed), r_logs := lg, r_error := msg,
       r_available_at := go_now amb + dl, r_finished_at := (if retry then None else Some (go_now amb)),
       r_lease_owner := None, r_lease_expires_at := None\<rparr>"

text \<open>\<open>FailRun\<close> decides from the attempt numbers of the claim it was given.\<close>

definition FailRun :: "ambient \<Rightarrow> run_row \<Rightarrow> string \<Rightarrow> string \<Rightarrow> string \<Rightarrow> db \<Rightarrow> unit store_result" where
  "FailRun amb run workerID logs message = transact (\<lambda>d.
     let retry = (r_attempt run < r_max_attempts run); own = owns_run (r_id run) workerID;
         delay = (if retry then retryDelay (r_attempt run) else Some 0) in
     case delay of None \<Rightarrow> Inl Panic
     | Some dl \<Rightarrow>
       guardR (rows_affected own (runs d) \<noteq> 1) ErrRunLeaseLost
       (let d1 = d\<lparr>runs := update_where own (failed_run amb retry dl logs message) (runs d)\<rparr> in
        if retry then Inr ((), d1)
        else bindR (enqueueNotificationEvent amb 0 ''run.failed'' (r_automation_id run) (r_id run)
               [(''runId'', DString (r_id run)), (''attempts'', DInt (r_attempt run))] d1) (\<lambda>d2.
             bindR (insertAuditEvent amb 1 ''run.failed'' (r_automation_id run) (''run:'' @ r_id run)
               [(''runId'', DString (r_id run)), (''attempts'', DInt (r_attempt run))] d2) (\<lambda>d3.
             Inr ((), d3)))))"

definition released_run :: "ambient \<Rightarrow> string \<Rightarrow> string \<Rightarrow> run_row \<Rightarrow> run_row" where
  "released_run amb lg reason r =
     r\<lparr>r_status := RunQueued, r_logs := lg, r_error := reason, r_available_at := pg_now amb,
       r_lease_owner := None, r_lease_expires_at := None\<rparr>"

definition ReleaseRun :: "ambient \<Rightarrow> run_row \<Rightarrow> string \<Rightarrow> string \<Rightarrow> string \<Rightarrow> db \<Rightarrow> unit store_result" where
  "ReleaseRun amb run workerID logs reason = transact (\<lambda>d.
     let own = owns_run (r_id run) workerID in
     guardR (rows_affected own (runs d) \<noteq> 1) ErrRunLeaseLost
       (Inr ((), d\<lparr>runs := update_where own (released_run amb logs reason) (runs d)\<rparr>)))"

end
