(* ===== verification/Leases.thy ===== *)
theory Leases
  imports Prelude
begin

text \<open>
  The contract of a leased work queue, shared by the run queue, the deployment queue and the
  notification outbox: a worker claims an item for a while, and every later write names the item
  and the worker. The provider promises that a write by a worker that does not hold the item
  reports a failure and changes nothing, and that at most one worker holds an item. The client
  lemmas follow once and for all: no sequence of writes by workers that lost their claim can
  disturb the holder, and the holder's own writes act on the state it left.
\<close>

fun perform :: "('op \<Rightarrow> 'worker \<Rightarrow> 'key \<Rightarrow> 's \<Rightarrow> bool \<times> 's) \<Rightarrow> 'key \<Rightarrow> ('op \<times> 'worker) list \<Rightarrow> 's
    \<Rightarrow> bool list \<times> 's" where
  "perform f k [] s = ([], s)"
| "perform f k ((p, w) # ps) s =
     (case f p w k s of (ok, s1) \<Rightarrow> case perform f k ps s1 of (oks, s2) \<Rightarrow> (ok # oks, s2))"

locale lease_queue =
  fixes wf :: "'s \<Rightarrow> bool"
    and names_item :: "'key \<Rightarrow> bool"
    and held :: "'s \<Rightarrow> 'key \<Rightarrow> 'worker \<Rightarrow> bool"
    and attempt_write :: "'op \<Rightarrow> 'worker \<Rightarrow> 'key \<Rightarrow> 's \<Rightarrow> bool \<times> 's"
  assumes fence: "names_item k \<Longrightarrow> \<not> held s k w \<Longrightarrow> attempt_write p w k s = (False, s)"
    and exclusive: "wf s \<Longrightarrow> held s k w \<Longrightarrow> held s k w' \<Longrightarrow> w = w'"
begin

lemma perform_unheld:
  "names_item k \<Longrightarrow> \<forall>(p, w) \<in> set ps. \<not> held s k w \<Longrightarrow>
    perform attempt_write k ps s = (replicate (length ps) False, s)"
  by (induction ps) (auto simp: fence)

lemma stale_writers_powerless:
  assumes "wf s" "names_item k" "held s k w" "\<forall>(p, w') \<in> set ps. w' \<noteq> w"
  shows "perform attempt_write k ps s = (replicate (length ps) False, s)"
  using assms exclusive by (intro perform_unheld) blast+

lemma stale_prefix_invisible:
  assumes "wf s" "names_item k" "held s k w" "\<forall>(p, w') \<in> set ps. w' \<noteq> w"
  shows "snd (perform attempt_write k (ps @ [(q, w)]) s) = snd (attempt_write q w k s)"
  using assms(4)
proof (induction ps)
  case (Cons x ps)
  obtain p v where x: "x = (p, v)" by (cases x)
  with Cons.prems exclusive[OF assms(1,3)] have "\<not> held s k v" by auto
  with x have "attempt_write p v k s = (False, s)" by (simp add: fence assms(2))
  with Cons x show ?case by (auto split: prod.splits)
qed (simp split: prod.splits)

end

end
