(* ===== verification/RunQueueProofs.thy ===== *)
theory RunQueueProofs
  imports RunQueue Leases
begin

text \<open>
  The invariant of the event and run tables and that every operation of the run queue keeps it;
  the effect of each operation; the lease contract of \<open>Leases\<close> interpreted on the run queue.
\<close>

section \<open>The invariant\<close>

definition run_ok :: "run_row \<Rightarrow> bool" where
  "run_ok r =
     ((r_status r = RunRunning \<longleftrightarrow> r_lease_owner r \<noteq> None)
      \<and> (r_lease_owner r = None \<longleftrightarrow> r_lease_expires_at r = None)
      \<and> (r_status r = RunRunning \<longrightarrow> r_started_at r \<noteq> None \<and> 0 < r_attempt r)
      \<and> (r_status r = RunSucceeded \<or> r_status r = RunFailed \<longrightarrow> r_finished_at r \<noteq> None)
      \<and> 0 \<le> r_attempt r \<and> int4 (r_max_attempts r))"

definition queue_tables_ok :: "event_row list \<Rightarrow> run_row list \<Rightarrow> bool" where
  "queue_tables_ok es rs =
     (distinct (map e_id es) \<and> distinct (map (\<lambda>e. (e_trigger_key e, e_external_id e)) es)
      \<and> distinct (map r_id rs) \<and> distinct (map r_event_id rs)
      \<and> r_event_id ` set rs = e_id ` set es
      \<and> (\<forall>r \<in> set rs. run_ok r))"

abbreviation queue_ok :: "db \<Rightarrow> bool" where
  "queue_ok d \<equiv> queue_tables_ok (events d) (runs d)"

lemma queue_insert:
  assumes "queue_tables_ok es rs" "\<not> conflicts e_id e es"
    "\<not> conflicts (\<lambda>e. (e_trigger_key e, e_external_id e)) e es"
    "\<not> conflicts r_id r rs" "\<not> conflicts r_event_id r rs" "r_event_id r = e_id e" "run_ok r"
  shows "queue_tables_ok (es @ [e]) (rs @ [r])"
  using assms by (auto simp: queue_tables_ok_def conflicts_def image_iff)

lemma queue_update:
  assumes "queue_tables_ok es rs"
    and "\<And>r. r \<in> set rs \<Longrightarrow> P r \<Longrightarrow> run_ok r \<Longrightarrow>
      r_id (f r) = r_id r \<and> r_event_id (f r) = r_event_id r \<and> run_ok (f r)"
  shows "queue_tables_ok es (update_where P f rs)"
proof -
  have ok: "\<forall>r \<in> set rs. run_ok r" using assms(1) by (simp add: queue_tables_ok_def)
  have "map r_id (update_where P f rs) = map r_id rs"
    "map r_event_id (update_where P f rs) = map r_event_id rs"
    using assms(2) ok by (auto intro!: map_update_where)
  moreover from this(2) have "r_event_id ` set (update_where P f rs) = r_event_id ` set rs"
    by (metis set_map)
  moreover have "\<forall>r \<in> set (update_where P f rs). run_ok r"
    using assms(2) ok by (auto simp: set_update_where)
  ultimately show ?thesis using assms(1) by (simp add: queue_tables_ok_def)
qed

lemma run_ok_queued [simp]: "run_ok (queued_run amb i a v e m p t) \<longleftrightarrow> int4 m"
  by (simp add: run_ok_def queued_run_def)

lemma queued_run_fields [simp]:
  "r_id (queued_run amb i a v e m p t) = i" "r_event_id (queued_run amb i a v e m p t) = e"
  "r_automation_id (queued_run amb i a v e m p t) = a" "r_status (queued_run amb i a v e m p t) = RunQueued"
  "r_revision_id (queued_run amb i a v e m p t) = v" "r_max_attempts (queued_run amb i a v e m p t) = m"
  "r_attempt (queued_run amb i a v e m p t) = 0" "r_available_at (queued_run amb i a v e m p t) = t"
  "r_concurrency_policy (queued_run amb i a v e m p t) = p"
  "r_lease_owner (queued_run amb i a v e m p t) = None"
  by (simp_all add: queued_run_def)

text \<open>An event and its run, inserted one after the other.\<close>

lemma queue_insert_pair:
  assumes "queue_ok d" "insert_event e d = Inr d1" "insert_run r d1 = Inr d2"
    "r_event_id r = e_id e" "int4 (r_max_attempts r) \<Longrightarrow> run_ok r"
  shows "queue_ok d2" "events d2 = events d @ [e]" "runs d2 = runs d @ [r]"
  using assms by (auto simp: result_simps intro!: queue_insert)

section \<open>The writes of a worker\<close>

lemma owns_run_unique:
  assumes "queue_ok d"
  shows "rows_affected (owns_run k w) (runs d) = 1 \<longleftrightarrow> (\<exists>r \<in> set (runs d). owns_run k w r)"
proof -
  have "distinct (map r_id (runs d))" using assms by (simp add: queue_tables_ok_def)
  from rows_affected_key_1[OF this, of k "\<lambda>r. r_status r = RunRunning \<and> r_lease_owner r = Some w"]
  show ?thesis unfolding owns_run_def by auto
qed

lemma owns_none:
  assumes "\<not> (\<exists>r \<in> set (runs d). owns_run k w r)"
  shows "rows_affected (owns_run k w) (runs d) = 0" "update_where (owns_run k w) f (runs d) = runs d"
  using assms by (auto simp: rows_affected_0 intro: update_where_none)

section \<open>What each step touches\<close>

lemma insertAuditEvent_frame:
  "insertAuditEvent amb k action a actor ds d = Inr d' \<Longrightarrow>
    \<exists>as. d' = d\<lparr>audit_events := audit_events d @ as\<rparr>"
  by (auto simp: result_simps)

lemma enqueueNotificationEvent_frame:
  "enqueueNotificationEvent amb k ty a sid pl d = Inr d' \<Longrightarrow>
    \<exists>ns. d' = d\<lparr>notification_events := notification_events d @ ns\<rparr>"
  by (auto simp: enqueueNotificationEvent_def Let_def guardR_eq_Inr intro: exI[of _ "[]"]
      split: if_splits)

lemma request_notification_frame:
  assumes "request_notification amb run item d = Inr d'"
  shows "\<exists>ns as. d' = d\<lparr>notification_events := notification_events d @ ns,
    audit_events := audit_events d @ as\<rparr>"
proof -
  obtain k n where item: "item = (k, n)" by (cases item)
  from assms[unfolded request_notification_def item Let_def prod.case bindR_eq_Inr]
  obtain d1 ns as where "d1 = d\<lparr>notification_events := notification_events d @ ns\<rparr>"
    "d' = d1\<lparr>audit_events := audit_events d1 @ as\<rparr>"
    by (elim exE conjE) (blast dest: enqueueNotificationEvent_frame insertAuditEvent_frame)
  then show ?thesis by (intro exI[of _ ns] exI[of _ as]) simp
qed

lemma request_notifications_frame:
  assumes "foldR (request_notification amb run) items d = Inr d'"
  shows "\<exists>ns as. d' = d\<lparr>notification_events := notification_events d @ ns,
    audit_events := audit_events d @ as\<rparr>"
proof (rule foldR_invariant[where P = "\<lambda>x. \<exists>ns as. x = d\<lparr>notification_events :=
    notification_events d @ ns, audit_events := audit_events d @ as\<rparr>", OF assms])
  show "\<exists>ns as. d = d\<lparr>notification_events := notification_events d @ ns, audit_events := audit_events d @ as\<rparr>"
    by (intro exI[of _ "[]"]) simp
next
  fix x s s'
  assume "\<exists>ns as. s = d\<lparr>notification_events := notification_events d @ ns, audit_events := audit_events d @ as\<rparr>"
    and "request_notification amb run x s = Inr s'"
  then show "\<exists>ns as. s' = d\<lparr>notification_events := notification_events d @ ns, audit_events := audit_events d @ as\<rparr>"
    by (fastforce dest!: request_notification_frame)
qed

lemma request_approval_frame:
  assumes "request_approval amb k run rq d = Inr d'"
  defines "row \<equiv> requested_approval amb (newID amb k ''approval'') run rq"
  shows "\<exists>ns as. d' = d\<lparr>approvals := approvals d @ [row], audit_events := audit_events d @ as,
      notification_events := notification_events d @ ns\<rparr>"
    and "\<not> conflicts p_id row (approvals d)" "\<not> conflicts p_requested_by_run_id row (approvals d)"
    and "\<not> conflicts (\<lambda>p. (p_automation_id p, p_approval_key p)) row (approvals d)"
    and "\<exists>r \<in> set (runs d). r_id r = r_id (rr_run run)"
proof -
  note chain = assms(1)[unfolded request_approval_def Let_def guardR_eq_Inr bindR_eq_Inr, folded row_def]
  show "\<not> conflicts p_id row (approvals d)" "\<not> conflicts p_requested_by_run_id row (approvals d)"
    "\<not> conflicts (\<lambda>p. (p_automation_id p, p_approval_key p)) row (approvals d)"
    "\<exists>r \<in> set (runs d). r_id r = r_id (rr_run run)"
    using chain by (simp_all add: list_all_iff)
  from chain obtain d1 ns as where
    "d1 = d\<lparr>approvals := approvals d @ [row]\<rparr>\<lparr>audit_events := audit_events (d\<lparr>approvals := approvals d @ [row]\<rparr>) @ as\<rparr>"
    "d' = d1\<lparr>notification_events := notification_events d1 @ ns\<rparr>"
    by (elim exE conjE) (blast dest: enqueueNotificationEvent_frame insertAuditEvent_frame)
  then show "\<exists>ns as. d' = d\<lparr>approvals := approvals d @ [row], audit_events := audit_events d @ as,
      notification_events := notification_events d @ ns\<rparr>"
    by (intro exI[of _ ns] exI[of _ as]) simp
qed

lemma save_state_frame:
  assumes "save_state amb run st d = Inr d'"
  shows "\<exists>ss. d' = d\<lparr>automation_state := ss\<rparr>"
  using assms unfolding save_state_def Let_def
  by (auto simp: guardR_eq_Inr split: if_splits option.splits intro: exI[of _ "automation_state d"])

lemma deferred_fields [simp]:
  "e_id (deferred_event amb i run rq) = i" "r_event_id (deferred_run amb j i run rq) = i"
  "r_id (deferred_run amb j i run rq) = j"
  by (simp_all add: deferred_event_def deferred_run_def Let_def)

lemma deferred_run_ok: "int4 (r_max_attempts (deferred_run amb j i run rq)) \<Longrightarrow> run_ok (deferred_run amb j i run rq)"
  by (simp add: deferred_run_def)

lemma enqueueDeferredRun_frame:
  assumes "enqueueDeferredRun amb k run rq d = Inr d'"
  defines "e \<equiv> deferred_event amb (newID amb k ''evt'') run rq"
    and "r \<equiv> deferred_run amb (newID amb (k + 1) ''run'') (newID amb k ''evt'') run rq"
  shows "d' = d\<lparr>events := events d @ [e], runs := runs d @ [r]\<rparr>"
    and "queue_ok d \<Longrightarrow> queue_ok d'"
proof -
  from assms(1) obtain d1 where d1: "insert_event e d = Inr d1" "insert_run r d1 = Inr d'"
    by (auto simp: enqueueDeferredRun_def Let_def bindR_eq_Inr e_def r_def)
  then show "d' = d\<lparr>events := events d @ [e], runs := runs d @ [r]\<rparr>"
    by (simp add: result_simps)
  show "queue_ok d'" if "queue_ok d"
    by (rule queue_insert_pair[OF that d1]) (simp_all add: e_def r_def deferred_run_ok)
qed

section \<open>Operations keep the invariant\<close>

lemma enqueueEvent_cases:
  assumes "enqueueEvent amb k a t ty ext oc dt m d = Inr ((rid, created), d')"
  obtains (replay) r where "\<not> created" "d' = d" "rid = r_id r"
      "run_of_event d (a @ '':'' @ t) (if ext = [] then newID amb k ''external'' else ext) = Some r"
  | (fresh) tr v e avail where "created" "rid = newID amb (k + 2) ''run''"
      "enabled_trigger d a t ty = Some (tr, v)"
      "e = event_row_of (newID amb (k + 1) ''evt'') (a @ '':'' @ t)
         (if ext = [] then newID amb k ''external'' else ext)
         \<lparr>et_automation = a, et_id = t, et_type = tr_type tr\<rparr>
         (if oc = zero_time then go_now amb else oc) (go_now amb) dt m"
      "\<not> conflicts (\<lambda>x. (e_trigger_key x, e_external_id x)) e (events d)"
      "event_availability amb (tr_type tr) (tr_config tr) = Inr avail"
      "insert_event e d = Inr (d\<lparr>events := events d @ [e]\<rparr>)"
      "insert_run (queued_run amb rid a (tr_revision_id tr) (e_id e)
         (ex_retries (mf_execution (rv_manifest v)) + 1) (effective_policy (rv_manifest v)) avail)
         (d\<lparr>events := events d @ [e]\<rparr>) = Inr d'"
proof (cases "enabled_trigger d a t ty")
  case None
  with assms show ?thesis by (simp add: enqueueEvent_def)
next
  case (Some tv)
  obtain tr v where tv: "tv = (tr, v)" by (cases tv)
  define x where "x = (if ext = [] then newID amb k ''external'' else ext)"
  define e where "e = event_row_of (newID amb (k + 1) ''evt'') (a @ '':'' @ t) x
    \<lparr>et_automation = a, et_id = t, et_type = tr_type tr\<rparr>
    (if oc = zero_time then go_now amb else oc) (go_now amb) dt m"
  note run = assms[unfolded enqueueEvent_def Some tv option.case prod.case Let_def, folded x_def, folded e_def]
  show ?thesis
  proof (cases "conflicts (\<lambda>x. (e_trigger_key x, e_external_id x)) e (events d)")
    case True
    with run replay show ?thesis by (auto simp: x_def split: option.splits)
  next
    case False
    from run False obtain avail where at: "insert_event e d = Inr (d\<lparr>events := events d @ [e]\<rparr>)"
        "event_availability amb (tr_type tr) (tr_config tr) = Inr avail"
        "insert_run (queued_run amb (newID amb (k + 2) ''run'') a (tr_revision_id tr) (e_id e)
         (ex_retries (mf_execution (rv_manifest v)) + 1) (effective_policy (rv_manifest v)) avail)
         (d\<lparr>events := events d @ [e]\<rparr>) = Inr d'" "rid = newID amb (k + 2) ''run''" "created"
      by (auto simp: bindR_eq_Inr insert_event_Inr e_def)
    show ?thesis
      by (rule fresh[OF at(5,4) _ _ False at(2,1)]) (use Some tv at e_def x_def in auto)
  qed
qed

text \<open>
  What no operation of the control plane takes back: an event stays as it was recorded, and a
  run keeps its identity, its event, its revision and its retry budget.
\<close>

definition run_identity :: "run_row \<Rightarrow> string \<times> string \<times> string \<times> string \<times> int \<times> string \<times> time" where
  "run_identity r = (r_id r, r_automation_id r, r_revision_id r, r_event_id r, r_max_attempts r,
     r_concurrency_policy r, r_created_at r)"

definition history_extends :: "db \<Rightarrow> db \<Rightarrow> bool" where
  "history_extends d d' =
     (prefix (events d) (events d') \<and> prefix (map run_identity (runs d)) (map run_identity (runs d')))"

lemma history_refl [simp]: "history_extends d d"
  by (simp add: history_extends_def)

lemma history_trans: "history_extends d d1 \<Longrightarrow> history_extends d1 d2 \<Longrightarrow> history_extends d d2"
  unfolding history_extends_def by (elim conjE, intro conjI; rule prefix_order.trans; assumption)

lemma history_same [intro]: "events d' = events d \<Longrightarrow> runs d' = runs d \<Longrightarrow> history_extends d d'"
  by (simp add: history_extends_def)

lemma history_insert: "events d' = events d @ es \<Longrightarrow> runs d' = runs d @ rs \<Longrightarrow> history_extends d d'"
  by (simp add: history_extends_def)

lemma history_update:
  assumes "events d' = events d" "runs d' = update_where P f (runs d)"
    and "\<And>r. r \<in> set (runs d) \<Longrightarrow> P r \<Longrightarrow> run_identity (f r) = run_identity r"
  shows "history_extends d d'"
  using assms map_update_where[of "runs d" P run_identity f] by (simp add: history_extends_def)

lemma run_of_event_iff:
  assumes "queue_ok d"
  shows "run_of_event d key ext = Some r \<longleftrightarrow> r \<in> set (runs d) \<and>
    (\<exists>e \<in> set (events d). e_id e = r_event_id r \<and> e_trigger_key e = key \<and> e_external_id e = ext)"
    (is "?l \<longleftrightarrow> ?r")
proof
  assume ?l
  then show ?r by (auto simp: run_of_event_def list_ex_iff dest!: find_eq_SomeD)
next
  assume ?r
  then have "run_of_event d key ext \<noteq> None"
    by (auto simp: run_of_event_def find_eq_None list_ex_iff)
  then obtain r' where r': "run_of_event d key ext = Some r'" by auto
  then have "r' \<in> set (runs d)" "\<exists>e \<in> set (events d). e_id e = r_event_id r' \<and> e_trigger_key e = key \<and> e_external_id e = ext"
    by (auto simp: run_of_event_def list_ex_iff dest!: find_eq_SomeD)
  with \<open>?r\<close> have "r' = r"
    using assms unfolding queue_tables_ok_def distinct_map inj_on_def by (metis (no_types, lifting))
  with r' show ?l by simp
qed

lemma run_of_event_persists:
  assumes "queue_ok d" "queue_ok d'" "history_extends d d'" "run_of_event d key ext = Some r"
  shows "\<exists>r'. run_of_event d' key ext = Some r' \<and> run_identity r' = run_identity r"
proof -
  from assms(4) obtain e where e: "r \<in> set (runs d)" "e \<in> set (events d)" "e_id e = r_event_id r"
      "e_trigger_key e = key" "e_external_id e = ext"
    by (auto simp: run_of_event_iff[OF assms(1)])
  have "run_identity r \<in> set (map run_identity (runs d'))"
    using e(1) assms(3) unfolding history_extends_def by (metis image_eqI set_map set_mono_prefix subset_iff)
  then obtain r' where r': "r' \<in> set (runs d')" "run_identity r' = run_identity r" by auto
  moreover have "e \<in> set (events d')"
    using e(2) assms(3) set_mono_prefix by (auto simp: history_extends_def)
  ultimately have "run_of_event d' key ext = Some r'"
    using e by (subst run_of_event_iff[OF assms(2)]) (auto simp: run_identity_def)
  with r' show ?thesis by blast
qed

lemma enqueueEvent_ok:
  assumes "enqueueEvent amb k a t ty ext oc dt m d = Inr (res, d')"
  shows "queue_ok d \<Longrightarrow> queue_ok d'" "history_extends d d'"
    "\<exists>es rs. d' = d\<lparr>events := events d @ es, runs := runs d @ rs\<rparr>"
proof -
  obtain rid created where res: "res = (rid, created)" by (cases res)
  from assms[unfolded res] have
    "(queue_ok d \<longrightarrow> queue_ok d') \<and> (\<exists>es rs. d' = d\<lparr>events := events d @ es, runs := runs d @ rs\<rparr>)"
  proof (cases rule: enqueueEvent_cases)
    case replay
    then have "d' = d\<lparr>events := events d @ [], runs := runs d @ []\<rparr>" by simp
    with replay show ?thesis by metis
  next
    case (fresh tr v e avail)
    have "queue_ok d \<Longrightarrow> queue_ok d'"
      by (rule queue_insert_pair(1)[OF _ fresh(7,8)]) simp_all
    moreover from fresh(8) have "\<exists>es rs. d' = d\<lparr>events := events d @ es, runs := runs d @ rs\<rparr>"
      by (auto simp: insert_run_Inr)
    ultimately show ?thesis by blast
  qed
  then show "queue_ok d \<Longrightarrow> queue_ok d'" "history_extends d d'"
    "\<exists>es rs. d' = d\<lparr>events := events d @ es, runs := runs d @ rs\<rparr>"
    by (auto simp: history_extends_def)
qed

lemma IngestEvent_ok:
  "queue_ok d \<Longrightarrow> queue_ok (snd (IngestEvent amb a t ty ext oc dt m d))"
  "history_extends d (snd (IngestEvent amb a t ty ext oc dt m d))"
  unfolding IngestEvent_def
  by (rule transact_invariant, assumption, erule (1) enqueueEvent_ok(1))
    (rule transact_invariant, rule history_refl, erule enqueueEvent_ok(2))

lemma EnqueueManualRun_cases:
  assumes "EnqueueManualRun amb a ext want dt actor d = (Inr (rid, created), d')"
  obtains (replay) r where "\<not> created" "d' = d" "rid = r_id r"
      "run_of_event d (a @ '':manual'') (if ext = [] then newID amb 0 ''external'' else ext) = Some r"
  | (fresh) au v e r as where "created" "rid = newID amb 2 ''run''" "automation_by_id d a = Some au"
      "revision_by_id d (rv_id v) = Some v"
      "au_active_revision_id au = Some (rv_id v)" "want = [] \<or> want = rv_id v"
      "e_trigger_key e = a @ '':manual''" "e_id e = newID amb 1 ''evt''"
      "e_external_id e = (if ext = [] then newID amb 0 ''external'' else ext)"
      "r = queued_run amb rid a (rv_id v) (e_id e) (ex_retries (mf_execution (rv_manifest v)) + 1)
         (effective_policy (rv_manifest v)) (pg_now amb)"
      "insert_event e d = Inr (d\<lparr>events := events d @ [e]\<rparr>)"
      "insert_run r (d\<lparr>events := events d @ [e]\<rparr>) = Inr (d\<lparr>events := events d @ [e], runs := runs d @ [r]\<rparr>)"
      "d' = d\<lparr>events := events d @ [e], runs := runs d @ [r], audit_events := audit_events d @ as\<rparr>"
proof -
  define x where "x = (if ext = [] then newID amb 0 ''external'' else ext)"
  note body = assms[unfolded EnqueueManualRun_def transact_eq_Inr Let_def]
  show ?thesis
  proof (cases "if ext \<noteq> [] then run_of_event d (a @ '':manual'') ext else None")
    case (Some r)
    then have "run_of_event d (a @ '':manual'') (if ext = [] then newID amb 0 ''external'' else ext) = Some r"
      by (simp split: if_splits)
    with body Some show ?thesis by (intro replay[of r]) auto
  next
    case None
    with body obtain au where au: "automation_by_id d a = Some au" by (auto split: option.splits)
    with body None obtain vid where vid: "au_active_revision_id au = Some vid"
      by (auto split: option.splits)
    with body None au obtain v where v: "revision_by_id d vid = Some v" by (auto split: option.splits)
    then have vi: "vid = rv_id v" by (auto simp: revision_by_id_def dest: find_eq_SomeD)
    define e where "e = event_row_of (newID amb 1 ''evt'') (a @ '':manual'') x
      \<lparr>et_automation = a, et_id = ''manual'', et_type = ''manual''\<rparr> (go_now amb) (go_now amb) dt
      [(''source'', JString ''manual''), (''actor'', JString actor)]"
    note chain = body[unfolded None au vid v option.case, folded x_def, folded e_def, unfolded guardR_eq_Inr]
    show ?thesis
    proof (cases "conflicts (\<lambda>x. (e_trigger_key x, e_external_id x)) e (events d)")
      case True
      with chain replay show ?thesis by (auto simp: x_def split: option.splits)
    next
      case False
      define r where "r = queued_run amb (newID amb 2 ''run'') a vid (newID amb 1 ''evt'')
        (ex_retries (mf_execution (rv_manifest v)) + 1) (effective_policy (rv_manifest v)) (pg_now amb)"
      from False chain obtain d1 d2 d3 where *: "insert_event e d = Inr d1" "insert_run r d1 = Inr d2"
          "insertAuditEvent amb 3 ''run.queued_manually'' a actor
            [(''runId'', DString (newID amb 2 ''run'')), (''externalId'', DString x)] d2 = Inr d3"
          "d' = d3" "rid = newID amb 2 ''run''" "created" "want = [] \<or> want = vid"
        by (auto simp: bindR_eq_Inr r_def)
      from insertAuditEvent_frame[OF *(3)] obtain as where as: "d3 = d2\<lparr>audit_events := audit_events d2 @ as\<rparr>" ..
      have d1: "d1 = d\<lparr>events := events d @ [e]\<rparr>" using *(1) by (simp add: insert_event_Inr)
      have d2: "d2 = d1\<lparr>runs := runs d1 @ [r]\<rparr>" using *(2) by (simp add: insert_run_Inr)
      show ?thesis
      proof (rule fresh)
        show "insert_run r (d\<lparr>events := events d @ [e]\<rparr>) = Inr (d\<lparr>events := events d @ [e], runs := runs d @ [r]\<rparr>)"
          using *(2) d1 d2 by simp
        show "d' = d\<lparr>events := events d @ [e], runs := runs d @ [r], audit_events := audit_events d @ as\<rparr>"
          using *(4) as d1 d2 by simp
      qed (use au vid v vi * d1 in \<open>simp_all add: e_def r_def x_def\<close>)
    qed
  qed
qed

lemma EnqueueManualRun_ok:
  assumes "EnqueueManualRun amb a ext want dt actor d = (res, d')"
  shows "queue_ok d \<Longrightarrow> queue_ok d'" "history_extends d d'"
    "\<exists>es rs as. d' = d\<lparr>events := events d @ es, runs := runs d @ rs, audit_events := audit_events d @ as\<rparr>"
proof -
  have "(queue_ok d \<longrightarrow> queue_ok d') \<and> history_extends d d' \<and>
    (\<exists>es rs as. d' = d\<lparr>events := events d @ es, runs := runs d @ rs, audit_events := audit_events d @ as\<rparr>)"
  proof (cases res)
    case (Inl err)
    then have "d' = d\<lparr>events := events d @ [], runs := runs d @ [], audit_events := audit_events d @ []\<rparr>"
      using assms by (simp add: EnqueueManualRun_def transact_eq_Inl)
    then show ?thesis by (metis append_Nil2 db.surjective db.update_convs(10,4,5) history_refl)
  next
    case (Inr rc)
    obtain rid created where rc: "rc = (rid, created)" by (cases rc)
    from assms[unfolded Inr rc] show ?thesis
    proof (cases rule: EnqueueManualRun_cases)
      case (replay r)
      then have "d' = d\<lparr>events := events d @ [], runs := runs d @ [], audit_events := audit_events d @ []\<rparr>" by simp
      with replay(2) show ?thesis by blast
    next
      case (fresh au v e r as)
      have "queue_ok d'" if "queue_ok d"
        using queue_insert_pair(1)[OF that fresh(11,12)] fresh(10,13) by simp
      moreover have "history_extends d d'"
        by (rule history_insert) (use fresh(13) in simp_all)
      ultimately show ?thesis using fresh(13) by blast
    qed
  qed
  then show "queue_ok d \<Longrightarrow> queue_ok d'" "history_extends d d'"
    "\<exists>es rs as. d' = d\<lparr>events := events d @ es, runs := runs d @ rs, audit_events := audit_events d @ as\<rparr>"
    by blast+
qed

lemma set_next_fire_frame [simp]:
  "events (set_next_fire amb a t fa d) = events d" "runs (set_next_fire amb a t fa d) = runs d"
  by (simp_all add: set_next_fire_def)

lemma fire_schedule_ok:
  assumes "fire_schedule amb item (n, d) = Inr (n', d')"
  shows "queue_ok d \<Longrightarrow> queue_ok d'" "history_extends d d'" "n' \<le> n + 1"
proof -
  obtain i t where item: "item = (i, t)" by (cases item)
  let ?fire = "the (tr_next_fire_at t)"
  from assms obtain following rid w where
    q: "enqueueEvent amb (3 * i) (tr_automation_id t) (tr_id t) ''schedule'' (format_rfc3339nano ?fire) ?fire
        (JObject [(''scheduledAt'', JString (format_rfc3339nano ?fire))]) [(''source'', JString ''scheduler'')]
        (set_next_fire amb (tr_automation_id t) (tr_id t) following d) = Inr ((rid, w), d')"
      "n' = (if w then n + 1 else n)"
    by (auto simp: fire_schedule_def item Let_def bindR_eq_Inr split: if_splits)
  from enqueueEvent_ok[OF q(1)] show "queue_ok d \<Longrightarrow> queue_ok d'" "history_extends d d'"
    by (simp_all add: history_extends_def)
  show "n' \<le> n + 1" using q(2) by simp
qed

lemma fire_schedules_ok:
  assumes "foldR (fire_schedule amb) items (n, d) = Inr (n', d')"
  shows "(queue_ok d \<longrightarrow> queue_ok d') \<and> history_extends d d' \<and> n' \<le> n + length items"
  using assms
proof (induction items arbitrary: n d)
  case (Cons x items)
  then obtain m dm where m: "fire_schedule amb x (n, d) = Inr (m, dm)"
      "foldR (fire_schedule amb) items (m, dm) = Inr (n', d')"
    by (auto simp: bindR_eq_Inr)
  from fire_schedule_ok[OF m(1)] Cons.IH[OF m(2)] show ?case
    using history_trans by fastforce
qed simp

lemma EnqueueDueSchedules_ok:
  assumes "EnqueueDueSchedules amb now limit d = (res, d')"
  shows "(queue_ok d \<longrightarrow> queue_ok d') \<and> history_extends d d'"
proof (cases res)
  case (Inl e)
  with assms show ?thesis by (simp add: EnqueueDueSchedules_def transact_eq_Inl)
next
  case (Inr n)
  with assms show ?thesis
    using fire_schedules_ok by (auto simp: EnqueueDueSchedules_def transact_eq_Inr Let_def)
qed

section \<open>Claims and the writes of a worker\<close>

lemma claim_run_ok:
  "run_ok r \<Longrightarrow> run_ok (claim_run amb w l r)"
  "run_identity (claim_run amb w l r) = run_identity r"
  "r_id (claim_run amb w l r) = r_id r" "r_event_id (claim_run amb w l r) = r_event_id r"
  by (auto simp: run_ok_def claim_run_def run_identity_def split: option.splits)

lemma AcquireRun_from_state:
  "AcquireRun_from amb w l snap d = (res, d') \<Longrightarrow>
    d' = d \<or> (\<exists>c. select_first (\<lambda>r. (r_available_at r, r_created_at r)) (run_candidate amb snap) (runs snap) = Some c
      \<and> d' = d\<lparr>runs := update_where (\<lambda>r. r_id r = r_id c) (claim_run amb w l) (runs d)\<rparr>)"
  by (auto simp: AcquireRun_from_def Let_def split: option.splits sum.splits)

lemma AcquireRun_from_ok:
  assumes "AcquireRun_from amb w l snap d = (res, d')"
  shows "queue_ok d \<Longrightarrow> queue_ok d'" "history_extends d d'"
proof -
  have claim: "queue_ok d \<Longrightarrow> queue_ok (d\<lparr>runs := update_where P (claim_run amb w l) (runs d)\<rparr>)"
    "history_extends d (d\<lparr>runs := update_where P (claim_run amb w l) (runs d)\<rparr>)" for P
    using history_update[where f = "claim_run amb w l" and P = P]
    by (auto intro: queue_update simp: claim_run_ok)
  with AcquireRun_from_state[OF assms] show "queue_ok d \<Longrightarrow> queue_ok d'" "history_extends d d'"
    by auto
qed

lemma RenewRunLease_ok:
  assumes "RenewRunLease amb k w l d = (res, d')"
  shows "queue_ok d \<Longrightarrow> queue_ok d'" "history_extends d d'"
proof -
  let ?f = "\<lambda>r. r\<lparr>r_lease_expires_at := Some (pg_now amb + l)\<rparr>"
  have d': "d' = d\<lparr>runs := update_where (owns_run k w) ?f (runs d)\<rparr>"
    using assms by (simp add: RenewRunLease_def)
  have *: "run_ok r \<Longrightarrow> owns_run k w r \<Longrightarrow> run_ok (?f r)" "run_identity (?f r) = run_identity r" for r
    by (auto simp: run_ok_def owns_run_def run_identity_def)
  show "queue_ok d'" if "queue_ok d"
    unfolding d' using that by (simp, intro queue_update) (simp_all add: *)
  show "history_extends d d'" by (rule history_update[where P = "owns_run k w" and f = ?f]) (simp_all add: d' *)
qed

lemma finish_run_ok:
  "st \<noteq> RunRunning \<Longrightarrow> run_ok r \<Longrightarrow> run_ok (finish_run amb st lg rs er r)"
  "run_identity (finish_run amb st lg rs er r) = run_identity r"
  "r_id (finish_run amb st lg rs er r) = r_id r" "r_event_id (finish_run amb st lg rs er r) = r_event_id r"
  by (auto simp: run_ok_def finish_run_def run_identity_def)

text \<open>The success of \<open>CompleteRun\<close> in one statement: what it did to each table.\<close>

lemma CompleteRun_Inr:
  assumes "CompleteRun amb run w lg rs st ctl d = (Inr (), d')"
  defines "own \<equiv> owns_run (r_id (rr_run run)) w"
  obtains d1 es rn ss ps ns as where
    "rows_affected own (runs d) = 1"
    "d1 = d\<lparr>runs := update_where own (finish_run amb RunSucceeded lg rs []) (runs d)\<rparr>"
    "save_state amb run st d1 = Inr (d1\<lparr>automation_state := ss\<rparr>)"
    "d' = d1\<lparr>automation_state := ss, events := events d @ es,
       runs := update_where own (finish_run amb RunSucceeded lg rs []) (runs d) @ rn,
       approvals := approvals d @ ps, audit_events := audit_events d @ as,
       notification_events := notification_events d @ ns\<rparr>"
    "rc_defer ctl = None \<Longrightarrow> es = [] \<and> rn = []"
    "\<And>rq. rc_defer ctl = Some rq \<Longrightarrow> es = [deferred_event amb (newID amb 0 ''evt'') run rq]
       \<and> rn = [deferred_run amb (newID amb 1 ''run'') (newID amb 0 ''evt'') run rq]"
    "rc_approval ctl = None \<Longrightarrow> ps = []"
    "\<And>rq. rc_approval ctl = Some rq \<Longrightarrow> ps = [requested_approval amb (newID amb 2 ''approval'') run rq]
       \<and> \<not> conflicts p_id (hd ps) (approvals d) \<and> \<not> conflicts p_requested_by_run_id (hd ps) (approvals d)
       \<and> \<not> conflicts (\<lambda>p. (p_automation_id p, p_approval_key p)) (hd ps) (approvals d)"
    "queue_ok d1 \<Longrightarrow> queue_ok d'"
proof -
  define d1 where "d1 = d\<lparr>runs := update_where own (finish_run amb RunSucceeded lg rs []) (runs d)\<rparr>"
  from assms(1)[unfolded CompleteRun_def transact_eq_Inr Let_def guardR_eq_Inr bindR_eq_Inr,
      folded own_def, folded d1_def]
  obtain x1 x2 x3 where own: "rows_affected own (runs d) = 1"
    and x1: "save_state amb run st d1 = Inr x1"
    and x2: "optionally (enqueueDeferredRun amb 0 run) (rc_defer ctl) x1 = Inr x2"
    and x3: "optionally (request_approval amb 2 run) (rc_approval ctl) x2 = Inr x3"
    and x4: "foldR (request_notification amb run) (zip (map (\<lambda>i. 5 + 2 * i) [0..<length (rc_notifications ctl)])
        (rc_notifications ctl)) x3 = Inr d'"
    by auto
  from save_state_frame[OF x1] obtain ss where ss: "x1 = d1\<lparr>automation_state := ss\<rparr>" ..
  define es where "es = (case rc_defer ctl of None \<Rightarrow> [] | Some rq \<Rightarrow> [deferred_event amb (newID amb 0 ''evt'') run rq])"
  define rn where "rn = (case rc_defer ctl of None \<Rightarrow> []
    | Some rq \<Rightarrow> [deferred_run amb (newID amb 1 ''run'') (newID amb 0 ''evt'') run rq])"
  have x2': "x2 = x1\<lparr>events := events x1 @ es, runs := runs x1 @ rn\<rparr>" "queue_ok x1 \<Longrightarrow> queue_ok x2"
    using x2 by (auto simp: optionally_def es_def rn_def split: option.splits
        dest: enqueueDeferredRun_frame)
  define ps where "ps = (case rc_approval ctl of None \<Rightarrow> []
    | Some rq \<Rightarrow> [requested_approval amb (newID amb 2 ''approval'') run rq])"
  have "\<exists>ns as. x3 = x2\<lparr>approvals := approvals x2 @ ps, audit_events := audit_events x2 @ as,
      notification_events := notification_events x2 @ ns\<rparr>"
  proof (cases "rc_approval ctl")
    case None
    with x3 show ?thesis by (intro exI[of _ "[]"]) (simp add: optionally_def ps_def)
  next
    case (Some rq)
    with x3 request_approval_frame(1)[of amb 2 run rq x2 x3] show ?thesis by (simp add: optionally_def ps_def)
  qed
  then obtain ns as where x3': "x3 = x2\<lparr>approvals := approvals x2 @ ps, audit_events := audit_events x2 @ as,
      notification_events := notification_events x2 @ ns\<rparr>" by blast
  from request_notifications_frame[OF x4] obtain ns' as' where
    x4': "d' = x3\<lparr>notification_events := notification_events x3 @ ns', audit_events := audit_events x3 @ as'\<rparr>"
    by blast
  show thesis
  proof (rule that[where ss = ss and es = es and rn = rn and ps = ps and as = "as @ as'" and ns = "ns @ ns'",
        OF own d1_def])
    show "save_state amb run st d1 = Inr (d1\<lparr>automation_state := ss\<rparr>)" using x1 ss by simp
    show "queue_ok d1 \<Longrightarrow> queue_ok d'" using x2'(2) by (simp add: x4' x3' ss)
    show "d' = d1\<lparr>automation_state := ss, events := events d @ es,
       runs := update_where own (finish_run amb RunSucceeded lg rs []) (runs d) @ rn,
       approvals := approvals d @ ps, audit_events := audit_events d @ (as @ as'),
       notification_events := notification_events d @ (ns @ ns')\<rparr>"
      by (simp add: x4' x3' x2' ss d1_def)
    fix rq assume "rc_approval ctl = Some rq"
    with x3 request_approval_frame(2-4)[of amb 2 run rq x2 x3]
    show "ps = [requested_approval amb (newID amb 2 ''approval'') run rq]
       \<and> \<not> conflicts p_id (hd ps) (approvals d) \<and> \<not> conflicts p_requested_by_run_id (hd ps) (approvals d)
       \<and> \<not> conflicts (\<lambda>p. (p_automation_id p, p_approval_key p)) (hd ps) (approvals d)"
      by (simp add: optionally_def ps_def x2' ss d1_def)
  qed (simp_all add: es_def rn_def ps_def)
qed

lemma CompleteRun_ok:
  assumes "CompleteRun amb run w lg rs st ctl d = (res, d')"
  shows "queue_ok d \<Longrightarrow> queue_ok d'" "history_extends d d'"
proof -
  have "(queue_ok d \<longrightarrow> queue_ok d') \<and> history_extends d d'"
  proof (cases res)
    case (Inl e)
    with assms show ?thesis by (simp add: CompleteRun_def transact_eq_Inl)
  next
    case (Inr u)
    let ?own = "owns_run (r_id (rr_run run)) w" and ?fin = "finish_run amb RunSucceeded lg rs []"
    from assms[unfolded Inr] have "CompleteRun amb run w lg rs st ctl d = (Inr (), d')" by simp
    then show ?thesis
    proof (cases rule: CompleteRun_Inr)
      case (1 d1 es rn ss ps ns as)
      have "queue_ok d1" if "queue_ok d"
        using that unfolding 1(2) by (simp, intro queue_update) (simp_all add: finish_run_ok)
      moreover have "history_extends d d1"
        by (rule history_update[where P = ?own and f = ?fin]) (simp_all add: 1(2) finish_run_ok)
      moreover have "history_extends d1 d'" by (rule history_insert[where es = es and rs = rn]) (simp_all add: 1(2,4))
      ultimately show ?thesis using 1(9) history_trans by blast
    qed
  qed
  then show "queue_ok d \<Longrightarrow> queue_ok d'" "history_extends d d'" by blast+
qed

text \<open>The success of \<open>FailRun\<close> in one statement.\<close>

lemma FailRun_Inr:
  assumes "FailRun amb run w lg msg d = (Inr (), d')"
  obtains dl ns as where
    "rows_affected (owns_run (r_id run) w) (runs d) = 1"
    "r_attempt run < r_max_attempts run \<Longrightarrow> retryDelay (r_attempt run) = Some dl"
    "\<not> r_attempt run < r_max_attempts run \<Longrightarrow> dl = 0"
    "d' = d\<lparr>runs := update_where (owns_run (r_id run) w)
       (failed_run amb (r_attempt run < r_max_attempts run) dl lg msg) (runs d),
       notification_events := notification_events d @ ns, audit_events := audit_events d @ as\<rparr>"
    "r_attempt run < r_max_attempts run \<Longrightarrow> ns = [] \<and> as = []"
proof -
  let ?retry = "r_attempt run < r_max_attempts run"
  from assms[unfolded FailRun_def transact_eq_Inr Let_def] obtain dl where
    dl: "(if ?retry then retryDelay (r_attempt run) else Some 0) = Some dl"
    by (auto split: option.splits)
  define d1 where "d1 = d\<lparr>runs := update_where (owns_run (r_id run) w) (failed_run amb ?retry dl lg msg) (runs d)\<rparr>"
  from assms[unfolded FailRun_def transact_eq_Inr Let_def dl option.case guardR_eq_Inr, folded d1_def]
  have own: "rows_affected (owns_run (r_id run) w) (runs d) = 1"
    and rest: "(if ?retry then Inr ((), d1)
       else bindR (enqueueNotificationEvent amb 0 ''run.failed'' (r_automation_id run) (r_id run)
               [(''runId'', DString (r_id run)), (''attempts'', DInt (r_attempt run))] d1) (\<lambda>d2.
             bindR (insertAuditEvent amb 1 ''run.failed'' (r_automation_id run) (''run:'' @ r_id run)
               [(''runId'', DString (r_id run)), (''attempts'', DInt (r_attempt run))] d2) (\<lambda>d3.
             Inr ((), d3)))) = Inr ((), d')" by auto
  show thesis
  proof (cases ?retry)
    case True
    show ?thesis
      by (rule that[where dl = dl and ns = "[]" and as = "[]", OF own]) (use True dl rest in \<open>auto simp: d1_def\<close>)
  next
    case False
    with rest obtain d2 where
      d2: "\<exists>ns. d2 = d1\<lparr>notification_events := notification_events d1 @ ns\<rparr>"
        "\<exists>as. d' = d2\<lparr>audit_events := audit_events d2 @ as\<rparr>"
      unfolding if_not_P[OF False] bindR_eq_Inr
      by (elim exE conjE) (blast dest: enqueueNotificationEvent_frame insertAuditEvent_frame)
    then obtain ns as where "d' = d1\<lparr>notification_events := notification_events d1 @ ns, audit_events := audit_events d1 @ as\<rparr>"
      by auto
    then show ?thesis
      by (intro that[where dl = dl and ns = ns and as = as, OF own]) (use False dl in \<open>simp_all add: d1_def\<close>)
  qed
qed

lemma failed_run_ok:
  "run_ok r \<Longrightarrow> run_ok (failed_run amb retry dl lg msg r)"
  "run_identity (failed_run amb retry dl lg msg r) = run_identity r"
  "r_id (failed_run amb retry dl lg msg r) = r_id r" "r_event_id (failed_run amb retry dl lg msg r) = r_event_id r"
  by (auto simp: run_ok_def failed_run_def run_identity_def)

lemma FailRun_ok:
  assumes "FailRun amb run w lg msg d = (res, d')"
  shows "(queue_ok d \<longrightarrow> queue_ok d') \<and> history_extends d d'"
proof (cases res)
  case (Inl e)
  with assms show ?thesis by (simp add: FailRun_def transact_eq_Inl)
next
  case (Inr u)
  from assms[unfolded Inr] have "FailRun amb run w lg msg d = (Inr (), d')" by simp
  then show ?thesis
  proof (cases rule: FailRun_Inr)
    case (1 dl ns as)
    let ?f = "failed_run amb (r_attempt run < r_max_attempts run) dl lg msg"
    have "queue_ok d'" if "queue_ok d"
      using that unfolding 1(4) by (simp, intro queue_update) (simp_all add: failed_run_ok)
    moreover have "history_extends d d'"
      by (rule history_update[where P = "owns_run (r_id run) w" and f = ?f]) (simp_all add: 1(4) failed_run_ok)
    ultimately show ?thesis by blast
  qed
qed

lemma ReleaseRun_Inr:
  "ReleaseRun amb run w lg reason d = (Inr (), d') \<longleftrightarrow>
    rows_affected (owns_run (r_id run) w) (runs d) = 1 \<and>
    d' = d\<lparr>runs := update_where (owns_run (r_id run) w) (released_run amb lg reason) (runs d)\<rparr>"
  by (auto simp: ReleaseRun_def transact_eq_Inr Let_def guardR_eq_Inr)

lemma ReleaseRun_ok:
  assumes "ReleaseRun amb run w lg reason d = (res, d')"
  shows "(queue_ok d \<longrightarrow> queue_ok d') \<and> history_extends d d'"
proof (cases res)
  case (Inl e)
  with assms show ?thesis by (simp add: ReleaseRun_def transact_eq_Inl)
next
  case (Inr u)
  let ?f = "released_run amb lg reason"
  from assms Inr have d': "d' = d\<lparr>runs := update_where (owns_run (r_id run) w) ?f (runs d)\<rparr>"
    by (simp add: ReleaseRun_Inr)
  have *: "run_ok r \<Longrightarrow> run_ok (?f r)" "run_identity (?f r) = run_identity r"
    "r_id (?f r) = r_id r" "r_event_id (?f r) = r_event_id r" for r
    by (auto simp: run_ok_def released_run_def run_identity_def)
  have "queue_ok d'" if "queue_ok d"
    using that unfolding d' by (simp, intro queue_update) (simp_all add: *)
  moreover have "history_extends d d'"
    by (rule history_update[where P = "owns_run (r_id run) w" and f = ?f]) (simp_all add: d' *)
  ultimately show ?thesis by blast
qed

section \<open>The lease contract on the run queue\<close>

datatype run_write = RenewWrite ambient duration
  | CompleteWrite ambient runnable_run string "json option" "json option" run_control
  | FailWrite ambient run_row string string
  | ReleaseWrite ambient run_row string string

fun write_run :: "run_write \<Rightarrow> string \<Rightarrow> string \<Rightarrow> db \<Rightarrow> bool \<times> db" where
  "write_run (RenewWrite amb l) w k d =
     (case RenewRunLease amb k w l d of (res, d') \<Rightarrow> (res = Inr True, d'))"
| "write_run (CompleteWrite amb run lg rs st ctl) w k d =
     (case CompleteRun amb (run\<lparr>rr_run := rr_run run\<lparr>r_id := k\<rparr>\<rparr>) w lg rs st ctl d of (res, d') \<Rightarrow> (is_ok res, d'))"
| "write_run (FailWrite amb run lg msg) w k d =
     (case FailRun amb (run\<lparr>r_id := k\<rparr>) w lg msg d of (res, d') \<Rightarrow> (is_ok res, d'))"
| "write_run (ReleaseWrite amb run lg reason) w k d =
     (case ReleaseRun amb (run\<lparr>r_id := k\<rparr>) w lg reason d of (res, d') \<Rightarrow> (is_ok res, d'))"

definition run_held :: "db \<Rightarrow> string \<Rightarrow> string \<Rightarrow> bool" where
  "run_held d k w = (\<exists>r \<in> set (runs d). owns_run k w r)"

interpretation run_lease: lease_queue queue_ok "\<lambda>_. True" run_held write_run
proof
  fix d k w p
  assume "\<not> run_held d k w"
  then have none: "rows_affected (owns_run k w) (runs d) = 0"
    "\<And>f. update_where (owns_run k w) f (runs d) = runs d"
    using owns_none unfolding run_held_def by blast+
  show "write_run p w k d = (False, d)"
    by (cases p) (auto simp: none RenewRunLease_def CompleteRun_def FailRun_def ReleaseRun_def
        transact_def Let_def split: option.splits)
next
  fix d k w w'
  assume "queue_ok d" "run_held d k w" "run_held d k w'"
  then show "w = w'"
    unfolding run_held_def owns_run_def queue_tables_ok_def distinct_map inj_on_def by force
qed

end
