(* ===== verification/Samples.thy ===== *)
theory Samples
  imports Schema
begin

text \<open>
  A small concrete system for the witnesses: an ambient environment with a counting entropy
  source and an hourly cron parser, one automation with a webhook and a schedule trigger, its
  active revision, and a database holding them.
\<close>

definition sample_ambient :: "nat \<Rightarrow> time \<Rightarrow> ambient" where
  "sample_ambient seed now =
     \<lparr>data_dir = ''/srv/werkt'', working_dir = ''/'', pg_now = now, go_now = now,
      entropy = (\<lambda>k. replicate (10 * seed + k) (CHR ''x'')), collation = (\<lambda>s. s),
      locked = (\<lambda>_. False), load_location = (\<lambda>z. if z = ''Europe/Amsterdam'' then Some z else None),
      cron_parse = (\<lambda>e. if e = ''0 * * * *'' then Some (\<lambda>_ t. (t div hour + 1) * hour) else None)\<rparr>"

definition sample_runtime :: runtime where
  "sample_runtime = \<lparr>rn_language = ''python'', rn_image = ''python:3.13'', rn_build_image = [],
     rn_tools = [], rn_build = [], rn_command = [''python'', ''main.py''], rn_environment = [],
     rn_secrets = [(''TOKEN'', ''api-token'')], rn_egress = [], rn_resolved_tools = None\<rparr>"

definition sample_manifest :: manifest where
  "sample_manifest = \<lparr>mf_api_version = ''werkt.dev/v1'', mf_kind = ''Automation'',
     mf_metadata = \<lparr>md_name = ''orders'', md_project = ''shop'', md_folder = [], md_description = [],
       md_labels = [''prod'']\<rparr>,
     mf_triggers = [\<lparr>tg_id = ''hook'', tg_type = ''webhook'', tg_enabled = None, tg_config = []\<rparr>,
       \<lparr>tg_id = ''hourly'', tg_type = ''schedule'', tg_enabled = Some True,
        tg_config = [(''cron'', JString ''0 * * * *'')]\<rparr>],
     mf_runtime = sample_runtime, mf_checks = [],
     mf_execution = \<lparr>ex_timeout = ''5m'', ex_retries = 2, ex_concurrency = ''forbid'', ex_state_enabled = True\<rparr>\<rparr>"

definition sample_automation :: automation_row where
  "sample_automation = \<lparr>au_id = ''orders'', au_project = ''shop'', au_folder = [], au_description = [],
     au_labels = [''prod''], au_active_revision_id = Some ''rev_a'', au_enabled = True,
     au_created_at = 0, au_updated_at = 0\<rparr>"

definition sample_revision :: revision_row where
  "sample_revision = \<lparr>rv_id = ''rev_a'', rv_automation_id = ''orders'', rv_content_hash = ''a'',
     rv_manifest = sample_manifest, rv_artifact_path = ''artifacts/a'', rv_provenance = None,
     rv_created_at = 0\<rparr>"

definition sample_trigger :: "string \<Rightarrow> string \<Rightarrow> json_map \<Rightarrow> time option \<Rightarrow> trigger_row" where
  "sample_trigger i ty cfg fa = \<lparr>tr_automation_id = ''orders'', tr_id = i, tr_revision_id = ''rev_a'',
     tr_type = ty, tr_config = cfg, tr_enabled = True, tr_next_fire_at = fa, tr_updated_at = 0\<rparr>"

definition sample_db :: db where
  "sample_db = empty_db\<lparr>automations := [sample_automation], revisions := [sample_revision],
     triggers := [sample_trigger ''hook'' ''webhook'' [] None,
       sample_trigger ''hourly'' ''schedule'' [(''cron'', JString ''0 * * * *'')] (Some hour)],
     secrets := [\<lparr>s_name = ''api-token'', s_description = [], s_ciphertext = ''c'', s_key_id = ''k'',
       s_version = 1, s_created_at = 0, s_updated_at = 0\<rparr>]\<rparr>"

lemmas sample_defs = sample_ambient_def sample_runtime_def sample_manifest_def sample_automation_def
  sample_revision_def sample_trigger_def sample_db_def empty_db_def

end
