(* ===== verification/RunProperties.thy ===== *)
theory RunProperties
  imports RunQueueProofs Samples
begin

text \<open>
  The properties of the run queue, each with a witness on the sample system: what a claim, a
  completion, a failure and a release do, the fencing of workers that lost their lease, the
  optimistic concurrency of the automation state, and the retry delays.
\<close>

section \<open>Sample histories\<close>

definition sample_ingested :: db where
  "sample_ingested = snd (IngestEvent (sample_ambient 1 (2 * hour)) ''orders'' ''hook'' ''webhook'' ''ext-1''
     zero_time (JObject []) [] sample_db)"

definition sample_claimed :: "(store_error + runnable_run option) \<times> db" where
  "sample_claimed = AcquireRun (sample_ambient 2 (2 * hour)) ''w1'' minute sample_ingested"

definition sample_run :: runnable_run where
  "sample_run = (case sample_claimed of (Inr (Some r), _) \<Rightarrow> r)"

abbreviation sample_run_id :: string where
  "sample_run_id \<equiv> ''run_787878787878787878787878''"

definition no_control :: run_control where
  "no_control = \<lparr>rc_defer = None, rc_approval = None, rc_notifications = []\<rparr>"

section \<open>Shared facts\<close>

lemma run_of_update:
  assumes "\<And>r. r_id (f r) = r_id r"
  shows "run_by_id (d\<lparr>runs := update_where P f (runs d)\<rparr>) k =
    map_option (\<lambda>r. if P r then f r else r) (run_by_id d k)"
  using run_table.lookup_update[of P f d k] assms by simp

lemma owned_row:
  assumes "queue_ok d" "rows_affected (owns_run k w) (runs d) = 1"
  shows "\<exists>r. run_by_id d k = Some r \<and> owns_run k w r"
proof -
  from assms(2) obtain r where "r \<in> set (runs d)" "owns_run k w r"
    unfolding owns_run_unique[OF assms(1)] by blast
  moreover have "distinct (map r_id (runs d))" using assms(1) by (simp add: queue_tables_ok_def)
  ultimately show ?thesis using run_table.lookup_iff by (auto simp: owns_run_def)
qed

lemma run_by_id_append:
  "run_by_id d k = Some r \<Longrightarrow> runs d' = runs d @ rs \<Longrightarrow> run_by_id d' k = Some r"
  by (simp add: run_by_id_def find_append)

section \<open>Properties\<close>

text \<open>
  C15: A worker that lost its claim is powerless. While a worker holds a run, no sequence of
  renew, complete, fail or release calls made by other workers, whatever arguments they pass,
  reports success or changes anything in the database.
\<close>

theorem stale_run_workers_powerless:
  assumes "queue_ok d" and "run_held d k w" and "\<forall>(p, w') \<in> set ps. w' \<noteq> w"
  shows "perform write_run k ps d = (replicate (length ps) False, d)"
  by (rule run_lease.stale_writers_powerless[OF assms(1) TrueI assms(2,3)])

theorem stale_run_workers_powerless_witness:
  "perform write_run sample_run_id
     [(RenewWrite (sample_ambient 3 0) hour, ''w0''), (FailWrite (sample_ambient 4 0) (rr_run sample_run) [] ''boom'', ''w2'')]
     (snd sample_claimed) = (replicate 2 False, snd sample_claimed)"
proof -
  have "queue_ok (snd sample_claimed)" by code_simp
  moreover have "run_held (snd sample_claimed) sample_run_id ''w1''" by code_simp
  ultimately show ?thesis
    using stale_run_workers_powerless[of "snd sample_claimed" sample_run_id "''w1''"
      "[(RenewWrite (sample_ambient 3 0) hour, ''w0''), (FailWrite (sample_ambient 4 0) (rr_run sample_run) [] ''boom'', ''w2'')]"]
    by (simp add: numeral_2_eq_2)
qed

text \<open>
  C21: A successful \<open>AcquireRun\<close> hands out one run that was due: it was queued and available, or
  running under an expired lease; no due unlocked run was available earlier; under the
  \<open>forbid\<close> policy no other run of its automation held a live lease. The claim numbers a new
  attempt, names the worker and starts a lease of the requested length, and every other run row
  stays as it was.
\<close>

theorem AcquireRun_claims_due_run:
  assumes "queue_ok d" and "AcquireRun amb w lease d = (Inr (Some rr), d')"
  shows "\<exists>c \<in> set (runs d). run_candidate amb d c
    \<and> (\<forall>x \<in> set (runs d). run_candidate amb d x \<longrightarrow>
        (r_available_at c, r_created_at c) \<le> (r_available_at x, r_created_at x))
    \<and> rr_run rr = claim_run amb w lease c
    \<and> r_attempt (rr_run rr) = r_attempt c + 1 \<and> r_lease_owner (rr_run rr) = Some w
    \<and> r_lease_expires_at (rr_run rr) = Some (pg_now amb + lease)
    \<and> (r_concurrency_policy c = ''forbid'' \<longrightarrow>
        (\<forall>x \<in> set (runs d). r_automation_id x = r_automation_id c \<and> r_id x \<noteq> r_id c \<longrightarrow> \<not> live_running amb x))
    \<and> runs d' = map (\<lambda>r. if r_id r = r_id c then claim_run amb w lease r else r) (runs d)"
proof -
  from assms(2) obtain c where
    c: "select_first (\<lambda>r. (r_available_at r, r_created_at r)) (run_candidate amb d) (runs d) = Some c"
    and d': "d' = d\<lparr>runs := update_where (\<lambda>r. r_id r = r_id c) (claim_run amb w lease) (runs d)\<rparr>"
    and rr: "run_by_id d' (r_id c) = Some (rr_run rr)"
    by (auto simp: AcquireRun_def AcquireRun_from_def Let_def split: option.splits sum.splits)
  note sel = select_first_Some[OF c]
  have "run_by_id d (r_id c) = Some c"
    using sel(1) assms(1) run_table.lookup_iff[of d "r_id c" c] by (simp add: queue_tables_ok_def)
  then have "rr_run rr = claim_run amb w lease c"
    using rr unfolding d' by (subst (asm) run_of_update) (simp_all add: claim_run_ok)
  moreover have "r_concurrency_policy c = ''forbid'' \<longrightarrow>
      (\<forall>x \<in> set (runs d). r_automation_id x = r_automation_id c \<and> r_id x \<noteq> r_id c \<longrightarrow> \<not> live_running amb x)"
    using sel(2) by (auto simp: run_candidate_def list_ex_iff)
  ultimately show ?thesis
    using sel by (intro bexI[of _ c]) (auto simp: d' update_where_def claim_run_def)
qed

theorem AcquireRun_claims_due_run_witness:
  "\<exists>c \<in> set (runs sample_ingested). rr_run sample_run = claim_run (sample_ambient 2 (2 * hour)) ''w1'' minute c"
proof -
  have "queue_ok sample_ingested" by code_simp
  moreover have "sample_claimed = (Inr (Some sample_run), snd sample_claimed)" by code_simp
  ultimately show ?thesis
    using AcquireRun_claims_due_run[of sample_ingested "sample_ambient 2 (2 * hour)" "''w1''" minute
      sample_run "snd sample_claimed"] by (auto simp: sample_claimed_def)
qed

text \<open>
  C16: Completing a run is one atomic step guarded by the lease. On success the run is
  \<open>succeeded\<close> with its logs and result and without a lease, a requested deferral has become
  exactly one queued run on the same revision that is available at the requested time, and a
  requested approval is pending; on any error nothing at all has changed.
\<close>

theorem CompleteRun_atomic:
  assumes "queue_ok d" and "CompleteRun amb run w lg rs st ctl d = (res, d')"
  shows "(case res of Inl _ \<Rightarrow> d' = d
    | Inr _ \<Rightarrow> run_held d (r_id (rr_run run)) w
       \<and> (\<exists>r. run_by_id d' (r_id (rr_run run)) = Some r \<and> r_status r = RunSucceeded \<and> r_logs r = lg
            \<and> r_result r = rs \<and> r_lease_owner r = None \<and> r_finished_at r = Some (pg_now amb))
       \<and> length (runs d') = length (runs d) + (if rc_defer ctl = None then 0 else 1)
       \<and> (\<forall>rq. rc_defer ctl = Some rq \<longrightarrow>
            (\<exists>x. x \<in> set (runs d') \<and> r_status x = RunQueued \<and> r_available_at x = dr_until rq
               \<and> r_revision_id x = r_revision_id (rr_run run)))
       \<and> (\<forall>rq. rc_approval ctl = Some rq \<longrightarrow>
            (\<exists>p \<in> set (approvals d'). p_status p = ''pending'' \<and> p_requested_by_run_id p = r_id (rr_run run)
               \<and> p_revision_id p = r_revision_id (rr_run run) \<and> p_expires_at p = ar_expires_at rq)))"
proof (cases res)
  case (Inl e)
  with assms(2) show ?thesis by (simp add: CompleteRun_def transact_eq_Inl)
next
  case (Inr u)
  let ?k = "r_id (rr_run run)"
  from assms(2)[unfolded Inr] have "CompleteRun amb run w lg rs st ctl d = (Inr (), d')" by simp
  then show ?thesis
  proof (cases rule: CompleteRun_Inr)
    case (1 d1 es rn ss ps ns as)
    from owned_row[OF assms(1) 1(1)] obtain r0 where
      r0: "run_by_id d ?k = Some r0" "owns_run ?k w r0" by blast
    then have held: "run_held d ?k w"
      by (auto simp: run_held_def dest: run_table.lookup_SomeD)
    have "run_by_id d1 ?k = Some (finish_run amb RunSucceeded lg rs [] r0)"
      unfolding 1(2) by (subst run_of_update) (simp_all add: r0 finish_run_ok)
    then have "run_by_id d' ?k = Some (finish_run amb RunSucceeded lg rs [] r0)"
      by (rule run_by_id_append[where rs = rn]) (simp add: 1(2,4))
    then have fin: "\<exists>r. run_by_id d' ?k = Some r \<and> r_status r = RunSucceeded \<and> r_logs r = lg
        \<and> r_result r = rs \<and> r_lease_owner r = None \<and> r_finished_at r = Some (pg_now amb)"
      by (simp add: finish_run_def)
    have len: "length (runs d') = length (runs d) + (if rc_defer ctl = None then 0 else 1)"
      using 1(5,6) by (cases "rc_defer ctl") (simp_all add: 1(4))
    have dfr: "\<exists>x. x \<in> set (runs d') \<and> r_status x = RunQueued \<and> r_available_at x = dr_until rq
        \<and> r_revision_id x = r_revision_id (rr_run run)" if "rc_defer ctl = Some rq" for rq
      using 1(6)[OF that] by (intro exI[of _ "hd rn"]) (simp add: 1(4) deferred_run_def)
    have appr: "\<exists>p \<in> set (approvals d'). p_status p = ''pending'' \<and> p_requested_by_run_id p = ?k
        \<and> p_revision_id p = r_revision_id (rr_run run) \<and> p_expires_at p = ar_expires_at rq"
      if "rc_approval ctl = Some rq" for rq
      using 1(8)[OF that] by (intro bexI[of _ "hd ps"]) (simp_all add: 1(4) requested_approval_def)
    show ?thesis unfolding Inr using held fin len dfr appr by simp
  qed
qed

definition sample_control :: run_control where
  "sample_control = \<lparr>rc_defer = Some \<lparr>dr_key = ''again'', dr_until = 3 * hour, dr_data = None\<rparr>,
     rc_approval = Some \<lparr>ar_key = ''ship'', ar_title = ''Ship?'', ar_description = [], ar_expires_at = 9 * hour,
       ar_fields = [], ar_actions = [\<lparr>aa_id = ''approve'', aa_label = ''Yes'', aa_style = [], aa_requires_fields = True\<rparr>]\<rparr>,
     rc_notifications = [\<lparr>nr_key = ''n'', nr_title = ''t'', nr_body = ''b'', nr_priority = ''high''\<rparr>]\<rparr>"

definition sample_completed :: "unit store_result" where
  "sample_completed = CompleteRun (sample_ambient 3 (2 * hour + second)) sample_run ''w1'' ''log'' (Some (JBool True))
     (Some (JObject [(''n'', JNumber 1)])) sample_control (snd sample_claimed)"

theorem CompleteRun_atomic_witness:
  "length (runs (snd sample_completed)) = 2
    \<and> (\<exists>r. run_by_id (snd sample_completed) sample_run_id = Some r \<and> r_status r = RunSucceeded)"
proof -
  have "queue_ok (snd sample_claimed)" by code_simp
  moreover have "sample_completed = (Inr (), snd sample_completed)" by code_simp
  moreover have "length (runs (snd sample_claimed)) = 1" "r_id (rr_run sample_run) = sample_run_id"
    "rc_defer sample_control \<noteq> None" by code_simp+
  ultimately show ?thesis
    using CompleteRun_atomic[of "snd sample_claimed" "sample_ambient 3 (2 * hour + second)" sample_run
      "''w1''" "''log''" "Some (JBool True)" "Some (JObject [(''n'', JNumber 1)])" sample_control
      "Inr ()" "snd sample_completed"]
    by (auto simp: sample_completed_def)
qed

lemma save_state_version:
  assumes "save_state amb run st d = Inr d'" "ex_state_enabled (mf_execution (rr_manifest run))"
    and "distinct (map st_automation_id (automation_state d))" "0 \<le> rr_state_version run"
  shows "\<exists>s \<in> set (automation_state d'). st_automation_id s = r_automation_id (rr_run run)
      \<and> st_version s = rr_state_version run + 1
      \<and> validStateObject st = Some (st_value s)"
    and "map st_automation_id (automation_state d') = map st_automation_id (automation_state d)
      \<or> r_automation_id (rr_run run) \<notin> st_automation_id ` set (automation_state d)
         \<and> map st_automation_id (automation_state d') = map st_automation_id (automation_state d) @ [r_automation_id (rr_run run)]"
proof -
  let ?a = "r_automation_id (rr_run run)"
  from assms obtain m where m: "validStateObject st = Some m"
    by (auto simp: save_state_def split: option.splits)
  note body = assms(1)[unfolded save_state_def m option.case Let_def]
  have "(\<exists>s \<in> set (automation_state d'). st_automation_id s = ?a \<and> st_version s = rr_state_version run + 1
      \<and> m = st_value s) \<and> (map st_automation_id (automation_state d') = map st_automation_id (automation_state d)
      \<or> ?a \<notin> st_automation_id ` set (automation_state d)
        \<and> map st_automation_id (automation_state d') = map st_automation_id (automation_state d) @ [?a])"
  proof (cases "rr_state_version run = 0")
    case True
    with body assms(2) show ?thesis by (auto simp: guardR_eq_Inr conflicts_def)
  next
    case False
    let ?hit = "\<lambda>s. st_automation_id s = ?a \<and> st_version s = rr_state_version run"
    let ?f = "\<lambda>s. s\<lparr>st_version := st_version s + 1, st_value := m, st_updated_by_run_id := r_id (rr_run run),
      st_updated_at := pg_now amb\<rparr>"
    from False body assms(2) have aff: "rows_affected ?hit (automation_state d) = 1"
      and d': "automation_state d' = update_where ?hit ?f (automation_state d)"
      by (auto simp: guardR_eq_Inr)
    then obtain s where s: "s \<in> set (automation_state d)" "?hit s"
      using rows_affected_pos[of ?hit "automation_state d"] by auto
    have "?f s \<in> set (automation_state d')"
      unfolding d' set_update_where by (rule bexI[OF _ s(1)]) (use s(2) in simp)
    with s(2) have "\<exists>s \<in> set (automation_state d'). st_automation_id s = ?a
        \<and> st_version s = rr_state_version run + 1 \<and> m = st_value s"
      by (intro bexI[of _ "?f s"]) simp_all
    then show ?thesis using map_update_where[of "automation_state d" ?hit st_automation_id ?f] by (simp add: d')
  qed
  then show "\<exists>s \<in> set (automation_state d'). st_automation_id s = ?a
      \<and> st_version s = rr_state_version run + 1 \<and> validStateObject st = Some (st_value s)"
    and "map st_automation_id (automation_state d') = map st_automation_id (automation_state d)
      \<or> ?a \<notin> st_automation_id ` set (automation_state d)
         \<and> map st_automation_id (automation_state d') = map st_automation_id (automation_state d) @ [?a]"
    using m by auto
qed

lemma save_state_stale:
  assumes "ex_state_enabled (mf_execution (rr_manifest run))" "distinct (map st_automation_id (automation_state d))"
    and "s \<in> set (automation_state d)" "st_automation_id s = r_automation_id (rr_run run)"
    and "rr_state_version run < st_version s"
  shows "\<exists>e. save_state amb run st d = Inl e"
proof (cases "validStateObject st")
  case None
  with assms(1) show ?thesis by (simp add: save_state_def)
next
  case (Some m)
  let ?hit = "\<lambda>x. st_automation_id x = r_automation_id (rr_run run) \<and> st_version x = rr_state_version run"
  have "rows_affected ?hit (automation_state d) = 0"
    unfolding rows_affected_0 using assms(2-5) by (auto simp: distinct_map inj_on_def)
  with Some assms show ?thesis
    by (auto simp: save_state_def Let_def conflicts_def guardR_def)
qed

text \<open>
  The automation states only move forward: no operation removes a row or lowers its version. A
  completion based on an older version than the stored one is refused.
\<close>

definition states_follow :: "db \<Rightarrow> db \<Rightarrow> bool" where
  "states_follow d d' = (\<forall>s \<in> set (automation_state d). \<exists>s' \<in> set (automation_state d').
     st_automation_id s' = st_automation_id s \<and> st_version s \<le> st_version s')"

definition states_ok :: "db \<Rightarrow> bool" where
  "states_ok d = distinct (map st_automation_id (automation_state d))"

lemma states_follow_same: "automation_state d' = automation_state d \<Longrightarrow> states_follow d d'"
  by (auto simp: states_follow_def)

lemma states_follow_trans: "states_follow d d1 \<Longrightarrow> states_follow d1 d2 \<Longrightarrow> states_follow d d2"
  unfolding states_follow_def by (metis order.trans)

lemma save_state_follow:
  assumes "save_state amb run st d = Inr d'"
  shows "states_follow d d'" "states_ok d \<Longrightarrow> states_ok d'"
proof -
  let ?a = "r_automation_id (rr_run run)"
  let ?hit = "\<lambda>s. st_automation_id s = ?a \<and> st_version s = rr_state_version run"
  let ?f = "\<lambda>m s. s\<lparr>st_version := st_version s + 1, st_value := m, st_updated_by_run_id := r_id (rr_run run),
      st_updated_at := pg_now amb\<rparr>"
  have cases: "automation_state d' = automation_state d
    \<or> (\<exists>row. \<not> conflicts st_automation_id row (automation_state d) \<and> automation_state d' = automation_state d @ [row])
    \<or> (\<exists>m. automation_state d' = update_where ?hit (?f m) (automation_state d))"
  proof (cases "ex_state_enabled (mf_execution (rr_manifest run))")
    case True
    with assms obtain m where m: "validStateObject st = Some m" by (auto simp: save_state_def split: option.splits)
    note body = assms[unfolded save_state_def m option.case Let_def]
    show ?thesis
    proof (cases "rr_state_version run = 0")
      case True
      with body \<open>ex_state_enabled (mf_execution (rr_manifest run))\<close> show ?thesis by (auto simp: guardR_eq_Inr)
    next
      case False
      with body \<open>ex_state_enabled (mf_execution (rr_manifest run))\<close> show ?thesis by (auto simp: guardR_eq_Inr)
    qed
  qed (use assms in \<open>simp add: save_state_def\<close>)
  then consider "automation_state d' = automation_state d"
    | row where "\<not> conflicts st_automation_id row (automation_state d)" "automation_state d' = automation_state d @ [row]"
    | m where "automation_state d' = update_where ?hit (?f m) (automation_state d)" by blast
  then have "states_follow d d' \<and> (states_ok d \<longrightarrow> states_ok d')"
  proof cases
    case 1
    then show ?thesis by (simp add: states_follow_same states_ok_def)
  next
    case 2
    then show ?thesis by (auto simp: states_follow_def states_ok_def conflicts_def)
  next
    case (3 m)
    have "\<exists>s' \<in> set (update_where ?hit (?f m) (automation_state d)). st_automation_id s' = st_automation_id s \<and> st_version s \<le> st_version s'"
      if "s \<in> set (automation_state d)" for s
    proof (cases "?hit s")
      case True
      from update_where_hit[of s "automation_state d" ?hit "?f m", OF that True] show ?thesis by (intro bexI[of _ "?f m s"]) simp_all
    next
      case False
      from update_where_miss[of s "automation_state d" ?hit "?f m", OF that False] show ?thesis by (intro bexI[of _ s]) simp_all
    qed
    moreover have "map st_automation_id (update_where ?hit (?f m) (automation_state d)) = map st_automation_id (automation_state d)"
      by (rule map_update_where) simp
    ultimately show ?thesis unfolding states_follow_def states_ok_def 3 by simp
  qed
  then show "states_follow d d'" "states_ok d \<Longrightarrow> states_ok d'" by blast+
qed

lemma CompleteRun_saves:
  assumes "CompleteRun amb run w lg rs st ctl d = (Inr (), d')"
  shows "\<exists>d0 ss. save_state amb run st d0 = Inr (d0\<lparr>automation_state := ss\<rparr>)
    \<and> automation_state d0 = automation_state d \<and> automation_state d' = ss"
  using assms by (cases rule: CompleteRun_Inr) auto

lemma CompleteRun_follow:
  assumes "CompleteRun amb run w lg rs st ctl d = (res, d')"
  shows "states_follow d d'" "states_ok d \<Longrightarrow> states_ok d'"
proof -
  have "states_follow d d' \<and> (states_ok d \<longrightarrow> states_ok d')"
  proof (cases res)
    case Inl
    with assms have "d' = d" unfolding CompleteRun_def by (simp only: transact_eq_Inl)
    then show ?thesis by (simp add: states_follow_same)
  next
    case (Inr u)
    with assms have "CompleteRun amb run w lg rs st ctl d = (Inr (), d')" by simp
    from CompleteRun_saves[OF this] obtain d0 ss where
      "save_state amb run st d0 = Inr (d0\<lparr>automation_state := ss\<rparr>)" "automation_state d0 = automation_state d" "automation_state d' = ss"
      by blast
    with save_state_follow[of amb run st d0 "d0\<lparr>automation_state := ss\<rparr>"] show ?thesis
      by (simp add: states_follow_def states_ok_def)
  qed
  then show "states_follow d d'" "states_ok d \<Longrightarrow> states_ok d'" by blast+
qed

lemma completed_state_version:
  assumes "CompleteRun amb run w lg rs st ctl d = (Inr (), d1)" "ex_state_enabled (mf_execution (rr_manifest run))"
    "states_ok d" "0 \<le> rr_state_version run"
  shows "\<exists>s \<in> set (automation_state d1). st_automation_id s = r_automation_id (rr_run run) \<and> st_version s = rr_state_version run + 1"
proof -
  from CompleteRun_saves[OF assms(1)] obtain d0 ss where "save_state amb run st d0 = Inr (d0\<lparr>automation_state := ss\<rparr>)"
      "automation_state d0 = automation_state d" "automation_state d1 = ss" by blast
  then show ?thesis
    using save_state_version(1)[of amb run st d0 "d0\<lparr>automation_state := ss\<rparr>"] assms(2-4) by (auto simp: states_ok_def)
qed

lemma stale_completion_refused:
  assumes "ex_state_enabled (mf_execution (rr_manifest run))" "states_ok d" "s \<in> set (automation_state d)"
    "st_automation_id s = r_automation_id (rr_run run)" "rr_state_version run < st_version s"
  shows "\<exists>e. CompleteRun amb run w lg rs st ctl d = (Inl e, d)"
proof -
  let ?d1 = "d\<lparr>runs := update_where (owns_run (r_id (rr_run run)) w) (finish_run amb RunSucceeded lg rs []) (runs d)\<rparr>"
  obtain e where "save_state amb run st ?d1 = Inl e"
    using save_state_stale[of run ?d1 s amb st] assms by (auto simp: states_ok_def)
  then show ?thesis
    by (cases "rows_affected (owns_run (r_id (rr_run run)) w) (runs d) = 1")
      (simp_all add: CompleteRun_def transact_def Let_def)
qed

text \<open>
  The retry delay is defined for every attempt a worker can have claimed, starts at one
  second, doubles with each attempt and never exceeds 256 seconds, so the five minute cap of the
  code is never reached; a claim number below one would be a negative shift and panic.
\<close>

lemma retryDelay_bounds:
  assumes "1 \<le> attempt"
  shows "\<exists>dl. retryDelay attempt = Some dl \<and> second \<le> dl \<and> dl \<le> 256 * second \<and> dl < 5 * minute
    \<and> (attempt < 9 \<longrightarrow> retryDelay (attempt + 1) = Some (2 * dl))
    \<and> (9 \<le> attempt \<longrightarrow> dl = 256 * second)"
proof -
  consider "attempt \<in> {1, 2, 3, 4, 5, 6, 7, 8}" | "9 \<le> attempt" using assms by force
  then show ?thesis
  proof cases
    case 1
    then show ?thesis by (auto simp: retryDelay_def duration_defs)
  next
    case 2
    then have "min (attempt - 1) 8 = 8" by simp
    with 2 show ?thesis by (simp add: retryDelay_def duration_defs)
  qed
qed

text \<open>
  A failed attempt is retried exactly while attempts remain. If the claim's attempt is below
  its budget the run is queued again, available after the retry delay, with no failure
  notification; otherwise it is \<open>failed\<close> and finished. Either way the lease is gone, and the
  attempt counter is untouched.
\<close>

lemma FailRun_outcome:
  assumes "queue_ok d" and "FailRun amb run w lg msg d = (Inr (), d')"
  shows "\<exists>r r'. run_by_id d (r_id run) = Some r \<and> owns_run (r_id run) w r
    \<and> run_by_id d' (r_id run) = Some r' \<and> r_lease_owner r' = None \<and> r_lease_expires_at r' = None
    \<and> r_attempt r' = r_attempt r \<and> r_error r' = msg
    \<and> (if r_attempt run < r_max_attempts run
       then r_status r' = RunQueued \<and> (\<exists>dl. retryDelay (r_attempt run) = Some dl \<and> r_available_at r' = go_now amb + dl)
         \<and> notification_events d' = notification_events d
       else r_status r' = RunFailed \<and> r_finished_at r' = Some (go_now amb))"
  using assms(2)
proof (cases rule: FailRun_Inr)
  case (1 dl ns as)
  let ?retry = "r_attempt run < r_max_attempts run"
  from owned_row[OF assms(1) 1(1)] obtain r where r: "run_by_id d (r_id run) = Some r" "owns_run (r_id run) w r"
    by blast
  let ?d1 = "d\<lparr>runs := update_where (owns_run (r_id run) w) (failed_run amb ?retry dl lg msg) (runs d)\<rparr>"
  have "run_by_id ?d1 (r_id run) = Some (failed_run amb ?retry dl lg msg r)"
    by (subst run_of_update) (simp_all add: r failed_run_ok)
  then have "run_by_id d' (r_id run) = Some (failed_run amb ?retry dl lg msg r)"
    by (simp add: run_by_id_def 1(4))
  then show ?thesis using r 1(2,5) by (auto simp: failed_run_def 1(4))
qed

end
