(* ===== verification/Encodings.thy ===== *)
theory Encodings
  imports GoTime
begin

text \<open>
  The encodings of Go's standard library that more than one component uses: base64 with and
  without padding and strictness, the UTF-8 decoder, \<open>url.QueryEscape\<close>, the quoted strings of
  \<open>strconv.Quote\<close>, and what \<open>json.Marshal\<close> writes for strings, integers, slices and structs. Base64
  is shown to decode what it encodes.
\<close>

section \<open>Base64\<close>

definition b64_alphabet :: string where
  "b64_alphabet = ''ABCDEFGHIJKLMNOPQRSTUVWXYZabcdefghijklmnopqrstuvwxyz0123456789+/''"

definition b64_char :: "nat \<Rightarrow> char" where
  "b64_char n = b64_alphabet ! n"

definition b64_value :: "char \<Rightarrow> nat option" where
  "b64_value c = map_of (zip b64_alphabet [0..<64]) c"

fun b64_raw :: "string \<Rightarrow> string" where
  "b64_raw [] = []"
| "b64_raw [a] = [b64_char (code a div 4), b64_char (code a mod 4 * 16)]"
| "b64_raw [a, b] = [b64_char (code a div 4), b64_char (code a mod 4 * 16 + code b div 16), b64_char (code b mod 16 * 4)]"
| "b64_raw (a # b # c # s) =
     b64_char (code a div 4) # b64_char (code a mod 4 * 16 + code b div 16)
     # b64_char (code b mod 16 * 4 + code c div 64) # b64_char (code c mod 64) # b64_raw s"

definition b64_encode :: "string \<Rightarrow> string" where
  "b64_encode s = (let r = b64_raw s in r @ replicate ((4 - length r mod 4) mod 4) (CHR ''=''))"

text \<open>The last quantum of one or two bytes; \<open>strict\<close> wants its unused bits to be zero.\<close>

definition b64_one :: "bool \<Rightarrow> char \<Rightarrow> char \<Rightarrow> string option" where
  "b64_one strict a b = (case (b64_value a, b64_value b) of
     (Some x, Some y) \<Rightarrow> if strict \<and> y mod 16 \<noteq> 0 then None else Some [char_of (x * 4 + y div 16)]
   | _ \<Rightarrow> None)"

definition b64_two :: "bool \<Rightarrow> char \<Rightarrow> char \<Rightarrow> char \<Rightarrow> string option" where
  "b64_two strict a b c = (case (b64_value a, b64_value b, b64_value c) of
     (Some x, Some y, Some z) \<Rightarrow> if strict \<and> z mod 4 \<noteq> 0 then None
       else Some [char_of (x * 4 + y div 16), char_of (y mod 16 * 16 + z div 4)]
   | _ \<Rightarrow> None)"

definition b64_three :: "char \<Rightarrow> char \<Rightarrow> char \<Rightarrow> char \<Rightarrow> string option" where
  "b64_three a b c d = (case (b64_value a, b64_value b, b64_value c, b64_value d) of
     (Some x, Some y, Some z, Some w) \<Rightarrow>
       Some [char_of (x * 4 + y div 16), char_of (y mod 16 * 16 + z div 4), char_of (z mod 4 * 64 + w)]
   | _ \<Rightarrow> None)"

fun b64_quanta :: "bool \<Rightarrow> bool \<Rightarrow> string \<Rightarrow> string option" where
  "b64_quanta strict padded [] = Some []"
| "b64_quanta strict padded [a] = None"
| "b64_quanta strict padded [a, b] = (if padded then None else b64_one strict a b)"
| "b64_quanta strict padded [a, b, c] = (if padded then None else b64_two strict a b c)"
| "b64_quanta strict padded (a # b # c # d # s) =
     (if padded \<and> d = CHR ''='' then
        (if s \<noteq> [] then None else if c = CHR ''='' then b64_one strict a b else b64_two strict a b c)
      else case (b64_three a b c d, b64_quanta strict padded s) of
        (Some x, Some rest) \<Rightarrow> Some (x @ rest) | _ \<Rightarrow> None)"

text \<open>Line breaks are skipped wherever they stand.\<close>

definition b64_decode :: "bool \<Rightarrow> bool \<Rightarrow> string \<Rightarrow> string option" where
  "b64_decode strict padded s = b64_quanta strict padded (filter (\<lambda>c. c \<noteq> CHR 0x0A \<and> c \<noteq> CHR 0x0D) s)"

lemma b64_alphabet_facts:
  "list_all (\<lambda>n. b64_value (b64_char n) = Some n \<and> b64_char n \<notin> set (''='' @ [CHR 0x0A, CHR 0x0D])) [0..<64]"
  by code_simp

lemma b64_value_char [simp]: "n < 64 \<Longrightarrow> b64_value (b64_char n) = Some n"
  using b64_alphabet_facts by (simp add: list_all_iff)

lemma b64_char_plain [simp]:
  assumes "n < 64" shows "b64_char n \<noteq> CHR ''=''" "b64_char n \<noteq> CHR 0x0A" "b64_char n \<noteq> CHR 0x0D"
  using assms b64_alphabet_facts by (auto simp: list_all_iff)

lemma byte_splits:
  fixes a b :: nat assumes "a < 256" "b < 256"
  shows "a div 4 < 64" "a mod 4 * 16 + b div 16 < 64" "a mod 16 * 4 + b div 64 < 64" "a mod 64 < 64"
    "a mod 4 * 16 < 64" "a mod 16 * 4 < 64" "b div 16 div 16 = 0" "b div 64 div 4 = 0"
  using assms by auto

lemma byte_joins:
  fixes b :: nat assumes "b < 256"
  shows "b div 16 mod 16 * 16 + b mod 16 = b" "b div 64 mod 4 * 64 + b mod 64 = b"
proof -
  have "b div 16 < 16" "b div 64 < 4" using assms by auto
  then show "b div 16 mod 16 * 16 + b mod 16 = b" "b div 64 mod 4 * 64 + b mod 64 = b" by simp_all
qed

lemmas byte_code = byte_splits[OF code_less code_less] byte_joins[OF code_less]

lemma b64_quanta_enc:
  "b64_one strict (b64_char (code a div 4)) (b64_char (code a mod 4 * 16)) = Some [a]"
  "b64_two strict (b64_char (code a div 4)) (b64_char (code a mod 4 * 16 + code b div 16)) (b64_char (code b mod 16 * 4)) = Some [a, b]"
  "b64_three (b64_char (code a div 4)) (b64_char (code a mod 4 * 16 + code b div 16)) (b64_char (code b mod 16 * 4 + code c div 64))
     (b64_char (code c mod 64)) = Some [a, b, c]"
  by (simp_all add: b64_one_def b64_two_def b64_three_def byte_code)

lemma b64_raw_four: "length (b64_raw s) mod 4 = 0 \<longleftrightarrow> length s mod 3 = 0"
  by (induction s rule: b64_raw.induct) auto

lemma b64_quanta_raw: "b64_quanta strict False (b64_raw s) = Some s"
  by (induction s rule: b64_raw.induct) (simp_all add: b64_quanta_enc)

lemma b64_quanta_padded:
  "b64_quanta strict True (b64_raw s @ replicate ((4 - length (b64_raw s) mod 4) mod 4) (CHR ''='')) = Some s"
  by (induction s rule: b64_raw.induct) (simp_all add: b64_quanta_enc numeral_2_eq_2 byte_code)

lemma b64_no_breaks: "filter (\<lambda>c. c \<noteq> CHR 0x0A \<and> c \<noteq> CHR 0x0D) (b64_raw s) = b64_raw s"
  by (induction s rule: b64_raw.induct) (simp_all add: byte_code)

lemma b64_decode_encode [simp]: "b64_decode strict True (b64_encode s) = Some s"
  by (simp add: b64_decode_def b64_encode_def Let_def b64_no_breaks b64_quanta_padded)

lemma b64_decode_raw [simp]: "b64_decode strict False (b64_raw s) = Some s"
  by (simp add: b64_decode_def b64_no_breaks b64_quanta_raw)

section \<open>Escapes\<close>

definition upper_hex :: "nat \<Rightarrow> char" where
  "upper_hex n = (''0123456789ABCDEF'' ! n)"

definition query_char :: "char \<Rightarrow> string" where
  "query_char c =
     (if is_alnum c \<or> c \<in> set ''-_.~'' then [c]
      else if c = CHR '' '' then ''+''
      else [CHR ''%'', upper_hex (code c div 16), upper_hex (code c mod 16)])"

definition QueryEscape :: "string \<Rightarrow> string" where
  "QueryEscape s = concat (map query_char s)"

text \<open>
  \<open>utf8.DecodeRuneInString\<close>: the rune at the front and its width, nothing for an invalid encoding.
\<close>

definition continuation :: "nat \<Rightarrow> bool" where
  "continuation b = (128 \<le> b \<and> b \<le> 191)"

definition decode_rune :: "string \<Rightarrow> (nat \<times> nat) option" where
  "decode_rune s =
     (case map code s of
        [] \<Rightarrow> None
      | a # bs \<Rightarrow>
          if a < 128 then Some (a, 1)
          else (case bs of
            [] \<Rightarrow> None
          | b # cs \<Rightarrow>
              if 194 \<le> a \<and> a \<le> 223 then (if continuation b then Some ((a - 192) * 64 + (b - 128), 2) else None)
              else (case cs of
                [] \<Rightarrow> None
              | c # ds \<Rightarrow>
                  if 224 \<le> a \<and> a \<le> 239 then
                    (if continuation b \<and> (a = 224 \<longrightarrow> 160 \<le> b) \<and> (a = 237 \<longrightarrow> b \<le> 159) \<and> continuation c
                     then Some ((a - 224) * 4096 + (b - 128) * 64 + (c - 128), 3) else None)
                  else (case ds of
                    [] \<Rightarrow> None
                  | d # _ \<Rightarrow>
                      if 240 \<le> a \<and> a \<le> 244 \<and> continuation b \<and> (a = 240 \<longrightarrow> 144 \<le> b) \<and> (a = 244 \<longrightarrow> b \<le> 143)
                         \<and> continuation c \<and> continuation d
                      then Some ((a - 240) * 262144 + (b - 128) * 4096 + (c - 128) * 64 + (d - 128), 4) else None))))"

fun hex_padded :: "nat \<Rightarrow> nat \<Rightarrow> string" where
  "hex_padded 0 n = []"
| "hex_padded (Suc w) n = hex_padded w (n div 16) @ [hex_digit (n mod 16)]"

definition ascii_escape :: "char \<Rightarrow> string" where
  "ascii_escape c =
     (let n = code c in
      if n = 34 \<or> n = 92 then [CHR 0x5C, c]
      else if 32 \<le> n \<and> n < 127 then [c]
      else if n = 7 then CHR 0x5C # ''a'' else if n = 8 then CHR 0x5C # ''b'' else if n = 12 then CHR 0x5C # ''f''
      else if n = 10 then CHR 0x5C # ''n'' else if n = 13 then CHR 0x5C # ''r'' else if n = 9 then CHR 0x5C # ''t''
      else if n = 11 then CHR 0x5C # ''v''
      else CHR 0x5C # ''x'' @ hex_padded 2 n)"

text \<open>The text between the quotes of \<open>strconv.Quote\<close>; \<open>printable\<close> is Unicode's table.\<close>

function quote_inner :: "(nat \<Rightarrow> bool) \<Rightarrow> string \<Rightarrow> string" where
  "quote_inner printable [] = []"
| "quote_inner printable (c # s) =
     (if code c < 128 then ascii_escape c @ quote_inner printable s
      else case decode_rune (c # s) of
        None \<Rightarrow> CHR 0x5C # ''x'' @ hex_padded 2 (code c) @ quote_inner printable s
      | Some (r, w) \<Rightarrow>
          (if printable r then take w (c # s)
           else if r < 65536 then CHR 0x5C # ''u'' @ hex_padded 4 r else CHR 0x5C # ''U'' @ hex_padded 8 r)
          @ quote_inner printable (drop (w - 1) s))"
  by pat_completeness auto
termination
  by (relation "measure (length \<circ> snd)") auto

section \<open>JSON text\<close>

text \<open>
  What \<open>json.Marshal\<close> writes for a string: HTML characters, control characters and the line
  separators are escaped, an invalid byte becomes the replacement character.
\<close>

definition json_ascii :: "char \<Rightarrow> string" where
  "json_ascii c =
     (let n = code c in
      if n = 34 \<or> n = 92 then [CHR 0x5C, c]
      else if n = 8 then CHR 0x5C # ''b'' else if n = 12 then CHR 0x5C # ''f'' else if n = 10 then CHR 0x5C # ''n''
      else if n = 13 then CHR 0x5C # ''r'' else if n = 9 then CHR 0x5C # ''t''
      else if n < 32 \<or> c \<in> set ''<>&'' then CHR 0x5C # ''u00'' @ hex_padded 2 n
      else [c])"

function json_inner :: "string \<Rightarrow> string" where
  "json_inner [] = []"
| "json_inner (c # s) =
     (if code c < 128 then json_ascii c @ json_inner s
      else case decode_rune (c # s) of
        None \<Rightarrow> CHR 0x5C # ''ufffd'' @ json_inner s
      | Some (r, w) \<Rightarrow>
          (if r = 8232 \<or> r = 8233 then CHR 0x5C # ''u202'' @ [hex_digit (r mod 16)] else take w (c # s))
          @ json_inner (drop (w - 1) s))"
  by pat_completeness auto
termination
  by (relation "measure length") auto

definition json_string :: "string \<Rightarrow> string" where
  "json_string s = [CHR 0x22] @ json_inner s @ [CHR 0x22]"

text \<open>A slice that is not nil, and a struct from its field names and the text of its fields.\<close>

definition json_array :: "('a \<Rightarrow> string) \<Rightarrow> 'a list \<Rightarrow> string" where
  "json_array f xs = ''['' @ Join (map f xs) '','' @ '']''"

definition json_object :: "(string \<times> string) list \<Rightarrow> string" where
  "json_object fs = ''{'' @ Join (map (\<lambda>(name, v). json_string name @ '':'' @ v) fs) '','' @ ''}''"

end
