(* ===== verification/Provenance.thy ===== *)
theory Provenance
  imports Domain Paths Encodings
begin

text \<open>
  Artifact provenance (\<open>internal/provenance/provenance.go\<close>): the digest of an artifact tree, the
  signed statement about it, writing and loading the statement with the artifact, its
  verification before every attempt, and the checks of tool environments and image references.

  Ed25519, HMAC and SHA-256 are the fields of \<open>crypto\<close>; decoding the metadata file is the parameter
  \<open>decode\<close>. A directory is a value of \<open>artifact_entry\<close>, its entries in the order \<open>WalkDir\<close> visits them.
\<close>

section \<open>Digests and image references\<close>

definition isSHA256Digest :: "string \<Rightarrow> bool" where
  "isSHA256Digest value =
     (HasPrefix value ''sha256:'' \<and> length value = 71 \<and> ToLower value = value
      \<and> hex_decode (TrimPrefix value ''sha256:'') \<noteq> None)"

definition isDigestReference :: "string \<Rightarrow> bool" where
  "isDigestReference value =
     (value = TrimSpace value \<and> \<not> ContainsAny value [CHR 0x09, CHR 0x0D, CHR 0x0A, CHR '' '']
      \<and> (case Cut value (CHR ''@'') of (name, digest, found) \<Rightarrow>
          found \<and> name \<noteq> [] \<and> \<not> Contains name ''@'' \<and> HasPrefix digest ''sha256:'' \<and> length digest = 71
          \<and> hex_decode (TrimPrefix digest ''sha256:'') \<noteq> None \<and> ToLower digest = digest))"

datatype provenance_error = ErrInvalidKey | ErrArtifactDigestMismatch string string | ErrInvalidAttestation
  | ErrUnpinnedImage string | ErrDigest string | ErrMetadataMissing | ErrMetadata string

definition PinHuskerImages :: "manifest \<Rightarrow> provenance_error + manifest" where
  "PinHuskerImages m =
     guardR (\<not> isDigestReference (rn_image (mf_runtime m)))
       (ErrUnpinnedImage ''runtime.image must use name@sha256:<64 lowercase hex>'')
     (guardR (rn_build_image (mf_runtime m) \<noteq> [] \<and> \<not> isDigestReference (rn_build_image (mf_runtime m)))
       (ErrUnpinnedImage ''runtime.buildImage must use name@sha256:<64 lowercase hex>'')
     (Inr m))"

section \<open>Tool environments\<close>

definition unsafe_relative :: "string \<Rightarrow> bool" where
  "unsafe_relative p = (p = [] \<or> IsAbs p \<or> Clean p \<noteq> p \<or> p = ''.'' \<or> HasPrefix p ''../'')"

fun valid_executables :: "string list \<Rightarrow> tool_executable list \<Rightarrow> bool" where
  "valid_executables seen [] = True"
| "valid_executables seen (x # xs) =
     (tx_name x \<noteq> [] \<and> \<not> ContainsAny (tx_name x) (''/'' @ [CHR 0x5C, CHR 0x09, CHR 0x0D, CHR 0x0A, CHR '' ''])
      \<and> \<not> unsafe_relative (tx_relative_path x) \<and> tx_name x \<notin> set seen
      \<and> valid_executables (tx_name x # seen) xs)"

definition valid_tool :: "int \<Rightarrow> resolved_tool \<Rightarrow> bool" where
  "valid_tool version t =
     (rt_name t \<noteq> [] \<and> rt_version t \<noteq> [] \<and> rt_backend t \<noteq> []
      \<and> (version = 1 \<or> rt_executables t \<noteq> [] \<and> valid_executables [] (rt_executables t)))"

definition ValidToolEnvironment :: "resolved_tool_environment option \<Rightarrow> bool" where
  "ValidToolEnvironment environment = (case environment of
     None \<Rightarrow> False
   | Some e \<Rightarrow>
       (te_version e = 1 \<or> te_version e = 2) \<and> te_image e \<noteq> [] \<and> te_base_image e \<noteq> []
       \<and> isSHA256Digest (te_identity_digest e) \<and> isSHA256Digest (te_image_digest e)
       \<and> isSHA256Digest (te_base_image_digest e) \<and> isSHA256Digest (ti_digest (te_installer e)) \<and> te_tools e \<noteq> []
       \<and> list_all (valid_tool (te_version e)) (te_tools e))"

definition effectiveBuildImage :: "manifest \<Rightarrow> string" where
  "effectiveBuildImage m =
     (if rn_build (mf_runtime m) = [] \<and> mf_checks m = [] then []
      else if rn_build_image (mf_runtime m) \<noteq> [] then rn_build_image (mf_runtime m)
      else rn_image (mf_runtime m))"

section \<open>The digest of an artifact\<close>

text \<open>A file has its permission bits and its content; a file that cannot be read has none.\<close>

datatype artifact_entry = ArtifactFile nat "string option" | ArtifactDir "(string \<times> artifact_entry) list"
  | ArtifactLink | ArtifactSpecial

definition MetadataDirectory :: string where "MetadataDirectory = ''.werkt''"
definition metadataFilename :: string where "metadataFilename = ''provenance.json''"

type_synonym artifact_files = "(string \<times> nat \<times> string option) list"

fun digest_entry :: "string \<Rightarrow> artifact_entry \<Rightarrow> provenance_error + artifact_files"
  and digest_entries :: "string \<Rightarrow> (string \<times> artifact_entry) list \<Rightarrow> provenance_error + artifact_files" where
  "digest_entry relative node =
     (if relative = MetadataDirectory then
        (case node of ArtifactDir _ \<Rightarrow> Inr []
         | _ \<Rightarrow> Inl (ErrDigest (''reserved provenance metadata path '' @ [CHR 0x22] @ MetadataDirectory @ [CHR 0x22] @ '' is not a directory'')))
      else case node of
        ArtifactLink \<Rightarrow> Inl (ErrDigest (''artifact contains symbolic link: '' @ relative))
      | ArtifactDir entries \<Rightarrow> digest_entries relative entries
      | ArtifactSpecial \<Rightarrow> Inl (ErrDigest (''artifact contains unsupported entry: '' @ relative))
      | ArtifactFile mode content \<Rightarrow> Inr [(relative, mode, content)])"
| "digest_entries path [] = Inr []"
| "digest_entries path ((name, node) # entries) =
     bindR (digest_entry (if path = [] then name else path @ ''/'' @ name) node) (\<lambda>fs.
     bindR (digest_entries path entries) (\<lambda>gs. Inr (fs @ gs)))"

definition octal4 :: "nat \<Rightarrow> string" where
  "octal4 m = map digit_char [m div 512 mod 8, m div 64 mod 8, m div 8 mod 8, m mod 8]"

definition digest_chunk :: "string \<times> nat \<times> string \<Rightarrow> string" where
  "digest_chunk f = (case f of (path, mode, content) \<Rightarrow>
     ''file'' @ [CHR 0x00] @ path @ [CHR 0x00] @ octal4 mode @ [CHR 0x00] @ decimal (length content) @ [CHR 0x00]
     @ content @ [CHR 0x00])"

definition read_files :: "artifact_files \<Rightarrow> provenance_error + (string \<times> nat \<times> string) list" where
  "read_files fs = mapR (\<lambda>(path, mode, content). case content of
     None \<Rightarrow> Inl (ErrDigest (''open '' @ path)) | Some c \<Rightarrow> Inr (path, mode, c)) fs"

definition artifact_contents :: "(string \<times> artifact_entry) list \<Rightarrow> provenance_error + (string \<times> nat \<times> string) list" where
  "artifact_contents tree = bindR (digest_entries [] tree) (\<lambda>fs. read_files (sort_key fst fs))"

definition DigestDirectory :: "(string \<Rightarrow> string) \<Rightarrow> (string \<times> artifact_entry) list \<Rightarrow> provenance_error + string" where
  "DigestDirectory sha256 tree =
     bindR (artifact_contents tree) (\<lambda>fs. Inr (''sha256:'' @ hex_encode (sha256 (concat (map digest_chunk fs)))))"

section \<open>Statements\<close>

definition egress_json :: "egress_rule \<Rightarrow> string" where
  "egress_json r = json_object ([(''host'', json_string (er_host r)), (''port'', decimal (unat (er_port r)))]
     @ (if er_protocol r = [] then [] else [(''protocol'', json_string (er_protocol r))]))"

definition artifact_json :: "tool_artifact \<Rightarrow> string" where
  "artifact_json a = json_object [(''url'', json_string (ta_url a)), (''digest'', json_string (ta_digest a)),
     (''sizeBytes'', decimal_int (ta_size_bytes a)), (''format'', json_string (ta_format a)),
     (''stripComponents'', decimal_int (ta_strip_components a))]"

definition executable_json :: "tool_executable \<Rightarrow> string" where
  "executable_json x = json_object [(''name'', json_string (tx_name x)), (''relativePath'', json_string (tx_relative_path x))]"

definition tool_json :: "resolved_tool \<Rightarrow> string" where
  "tool_json t = json_object ([(''name'', json_string (rt_name t)), (''version'', json_string (rt_version t)),
     (''backend'', json_string (rt_backend t))]
     @ (if rt_executables t = [] then [] else [(''executables'', json_array executable_json (rt_executables t))])
     @ [(''capabilities'', json_array json_string (rt_capabilities t))]
     @ (case rt_artifact t of None \<Rightarrow> [] | Some a \<Rightarrow> [(''artifact'', artifact_json a)]))"

definition installer_json :: "tool_installer \<Rightarrow> string" where
  "installer_json i = json_object [(''name'', json_string (ti_name i)), (''version'', json_string (ti_version i)),
     (''digest'', json_string (ti_digest i))]"

definition environment_json :: "resolved_tool_environment \<Rightarrow> string" where
  "environment_json e = json_object [(''version'', decimal_int (te_version e)),
     (''identityDigest'', json_string (te_identity_digest e)), (''image'', json_string (te_image e)),
     (''imageDigest'', json_string (te_image_digest e)), (''catalogRevision'', json_string (te_catalog_revision e)),
     (''preparerRevision'', json_string (te_preparer_revision e)), (''platform'', json_string (te_platform e)),
     (''baseImage'', json_string (te_base_image e)), (''baseImageDigest'', json_string (te_base_image_digest e)),
     (''installer'', installer_json (te_installer e)), (''tools'', json_array tool_json (te_tools e)),
     (''capabilities'', json_array json_string (te_capabilities e)),
     (''preparationEgress'', json_array egress_json (te_preparation_egress e))]"

definition statement_fields :: "artifact_provenance \<Rightarrow> (string \<times> string) list" where
  "statement_fields v =
     [(''version'', decimal_int (ap_version v)), (''artifactDigest'', json_string (ap_artifact_digest v)),
      (''contentHash'', json_string (ap_content_hash v)), (''automationId'', json_string (ap_automation_id v))]
     @ (if ap_runtime_image v = [] then [] else [(''runtimeImage'', json_string (ap_runtime_image v))])
     @ (if ap_build_image v = [] then [] else [(''buildImage'', json_string (ap_build_image v))])
     @ (case ap_tool_environment v of None \<Rightarrow> [] | Some e \<Rightarrow> [(''toolEnvironment'', environment_json e)])"

definition statementJSON :: "artifact_provenance \<Rightarrow> string" where
  "statementJSON v = json_object (statement_fields v)"

text \<open>The whole record, as \<open>Write\<close> stores it.\<close>

definition provenanceJSON :: "artifact_provenance \<Rightarrow> string" where
  "provenanceJSON v = json_object (statement_fields v @
     [(''algorithm'', json_string (ap_algorithm v)), (''signingKeyId'', json_string (ap_signing_key_id v)),
      (''publicKey'', json_string (ap_public_key v)), (''signature'', json_string (ap_signature v))])"

section \<open>Attesting and verifying\<close>

record crypto =
  cr_hmac :: "string \<Rightarrow> string \<Rightarrow> string"
  cr_sha256 :: "string \<Rightarrow> string"
  cr_key_from_seed :: "string \<Rightarrow> string"
  cr_public :: "string \<Rightarrow> string"
  cr_sign :: "string \<Rightarrow> string \<Rightarrow> string"
  cr_verify :: "string \<Rightarrow> string \<Rightarrow> string \<Rightarrow> bool"

record attestor =
  ak_private :: string
  ak_public :: string
  ak_key_id :: string

definition AlgorithmEd25519 :: string where "AlgorithmEd25519 = ''ed25519''"

definition NewAttestor :: "crypto \<Rightarrow> string \<Rightarrow> provenance_error + attestor" where
  "NewAttestor cr encodedMasterKey = (case b64_decode False True encodedMasterKey of
     None \<Rightarrow> Inl ErrInvalidKey
   | Some masterKey \<Rightarrow> guardR (length masterKey \<noteq> 32) ErrInvalidKey
       (let seed = cr_hmac cr masterKey ''werkt.dev/artifact-attestation/ed25519/v1'';
            privateKey = cr_key_from_seed cr seed; publicKey = cr_public cr privateKey in
        Inr \<lparr>ak_private = privateKey, ak_public = publicKey,
             ak_key_id = ''sha256:'' @ hex_encode (cr_sha256 cr publicKey)\<rparr>))"

definition Attest :: "crypto \<Rightarrow> attestor \<Rightarrow> (string \<times> artifact_entry) list \<Rightarrow> manifest \<Rightarrow> string
    \<Rightarrow> provenance_error + artifact_provenance" where
  "Attest cr a tree m contentHash =
     bindR (DigestDirectory (cr_sha256 cr) tree) (\<lambda>digest.
     let v = \<lparr>ap_version = (if rn_resolved_tools (mf_runtime m) \<noteq> None then 2 else 1), ap_artifact_digest = digest,
           ap_content_hash = contentHash, ap_automation_id = md_name (mf_metadata m),
           ap_runtime_image = rn_image (mf_runtime m), ap_build_image = effectiveBuildImage m,
           ap_tool_environment = rn_resolved_tools (mf_runtime m), ap_algorithm = AlgorithmEd25519,
           ap_signing_key_id = ak_key_id a, ap_public_key = b64_encode (ak_public a), ap_signature = []\<rparr> in
     Inr (v\<lparr>ap_signature := b64_encode (cr_sign cr (ak_private a) (statementJSON v))\<rparr>))"

definition Verify :: "crypto \<Rightarrow> attestor \<Rightarrow> (string \<times> artifact_entry) list \<Rightarrow> artifact_provenance
    \<Rightarrow> provenance_error + unit" where
  "Verify cr a tree v =
     guardR (ap_version v \<noteq> 1 \<and> ap_version v \<noteq> 2 \<or> ap_algorithm v \<noteq> AlgorithmEd25519
         \<or> ap_signing_key_id v \<noteq> ak_key_id a \<or> ap_public_key v \<noteq> b64_encode (ak_public a)) ErrInvalidAttestation
     (guardR (ap_version v = 1 \<and> ap_tool_environment v \<noteq> None
         \<or> ap_version v = 2 \<and> \<not> ValidToolEnvironment (ap_tool_environment v)) ErrInvalidAttestation
     (case b64_decode False True (ap_signature v) of
        None \<Rightarrow> Inl ErrInvalidAttestation
      | Some signature \<Rightarrow>
          guardR (length signature \<noteq> 64) ErrInvalidAttestation
          (guardR (\<not> cr_verify cr (ak_public a) (statementJSON v) signature) ErrInvalidAttestation
          (bindR (DigestDirectory (cr_sha256 cr) tree) (\<lambda>digest.
           guardR (digest \<noteq> ap_artifact_digest v) (ErrArtifactDigestMismatch (ap_artifact_digest v) digest) (Inr ()))))))"

section \<open>The metadata file\<close>

definition provenance_Write :: "artifact_provenance \<Rightarrow> (string \<times> artifact_entry) list \<Rightarrow> provenance_error + (string \<times> artifact_entry) list" where
  "provenance_Write v tree =
     guardR (MetadataDirectory \<in> fst ` set tree) (ErrMetadata ''create provenance metadata'')
     (Inr (tree @ [(MetadataDirectory, ArtifactDir
        [(metadataFilename, ArtifactFile 384 (Some (provenanceJSON v @ [CHR 0x0A])))])]))"

definition provenance_Load :: "(string \<Rightarrow> artifact_provenance option) \<Rightarrow> (string \<times> artifact_entry) list
    \<Rightarrow> provenance_error + artifact_provenance" where
  "provenance_Load decode tree = (case map_of tree MetadataDirectory of
     Some (ArtifactDir entries) \<Rightarrow>
       (case map_of entries metadataFilename of
          Some (ArtifactFile _ (Some encoded)) \<Rightarrow>
            (case decode encoded of None \<Rightarrow> Inl (ErrMetadata ''decode provenance metadata'') | Some v \<Rightarrow> Inr v)
        | None \<Rightarrow> Inl ErrMetadataMissing
        | Some _ \<Rightarrow> Inl (ErrMetadata ''read provenance metadata''))
   | None \<Rightarrow> Inl ErrMetadataMissing
   | Some _ \<Rightarrow> Inl (ErrMetadata ''read provenance metadata''))"

end
