(* ===== verification/Deployments.thy ===== *)
theory Deployments
  imports RunQueue Provenance
begin

text \<open>
  Revisions and the deployment queue (\<open>internal/database/database.go\<close>,
  \<open>internal/database/secrets.go\<close>): activating a revision with its triggers and secret
  references, the guard for pending approvals, rollback, pausing and resuming, adopting
  provenance, and the leased deployment jobs with their steps, cancellation and retries.
\<close>

section \<open>Digests\<close>

definition validSHA256Hex :: "string \<Rightarrow> bool" where
  "validSHA256Hex v = (length v = 64 \<and> ToLower v = v \<and> hex_decode v \<noteq> None)"

lemma validSHA256Hex_code [code]:
  "validSHA256Hex v = (length v = 64 \<and> list_all (\<lambda>c. c \<in> set ''0123456789abcdef'') v)"
  using lower_hex_string[of v] by (auto simp: validSHA256Hex_def)

definition validSHA256Digest :: "string \<Rightarrow> bool" where
  "validSHA256Digest v = (HasPrefix v ''sha256:'' \<and> validSHA256Hex (TrimPrefix v ''sha256:''))"

definition provenanceAuditDetails :: "artifact_provenance \<Rightarrow> details" where
  "provenanceAuditDetails v =
     (if ap_artifact_digest v = [] then DNull
      else DObject [(''artifactDigest'', DString (ap_artifact_digest v)),
        (''signingKeyId'', DString (ap_signing_key_id v)), (''runtimeImage'', DString (ap_runtime_image v)),
        (''buildImage'', DString (ap_build_image v)), (''toolEnvironment'', DTools (ap_tool_environment v))])"

section \<open>Activating a revision\<close>

definition trigger_row_of :: "ambient \<Rightarrow> string \<Rightarrow> string \<Rightarrow> trigger \<Rightarrow> time option \<Rightarrow> trigger_row" where
  "trigger_row_of amb automationID revisionID t nextFire =
     \<lparr>tr_automation_id = automationID, tr_id = tg_id t, tr_revision_id = revisionID, tr_type = tg_type t,
      tr_config = tg_config t, tr_enabled = IsEnabled t, tr_next_fire_at = nextFire,
      tr_updated_at = pg_now amb\<rparr>"

definition insert_trigger :: "ambient \<Rightarrow> string \<Rightarrow> string \<Rightarrow> trigger \<Rightarrow> db \<Rightarrow> store_error + db" where
  "insert_trigger amb automationID revisionID t d =
     bindR (if tg_type t = ''schedule'' \<and> IsEnabled t
            then bindR (nextSchedule amb (tg_config t) (go_now amb)) (\<lambda>n. Inr (Some n)) else Inr None)
       (\<lambda>nextFire. let row = trigger_row_of amb automationID revisionID t nextFire in
          guardR (conflicts (\<lambda>x. (tr_automation_id x, tr_id x)) row (triggers d)
             \<or> list_all (\<lambda>a. au_id a \<noteq> automationID) (automations d)
             \<or> list_all (\<lambda>v. rv_id v \<noteq> revisionID) (revisions d)) ErrDatabase
            (Inr (d\<lparr>triggers := triggers d @ [row]\<rparr>)))"

definition replaceTriggers :: "ambient \<Rightarrow> string \<Rightarrow> string \<Rightarrow> trigger list \<Rightarrow> db \<Rightarrow> store_error + db" where
  "replaceTriggers amb automationID revisionID ts d =
     foldR (insert_trigger amb automationID revisionID) ts
       (d\<lparr>triggers := delete_where (\<lambda>t. tr_automation_id t = automationID) (triggers d)\<rparr>)"

text \<open>The distinct referenced names in byte order that name no secret.\<close>

definition missing_secrets :: "secret_reference list \<Rightarrow> db \<Rightarrow> string list" where
  "missing_secrets refs d =
     filter (\<lambda>n. list_all (\<lambda>s. s_name s \<noteq> n) (secrets d)) (sort (remdups (map sr_name refs)))"

definition ValidateSecretReferences :: "secret_reference list \<Rightarrow> db \<Rightarrow> store_error + unit" where
  "ValidateSecretReferences refs d =
     guardR (missing_secrets refs d \<noteq> []) (ErrSecretNotFound (missing_secrets refs d)) (Inr ())"

definition insert_secret_reference :: "string \<Rightarrow> secret_reference \<Rightarrow> db \<Rightarrow> store_error + db" where
  "insert_secret_reference revisionID ref d =
     (let row = \<lparr>sx_revision_id = revisionID, sx_secret_name = sr_name ref, sx_purpose = sr_purpose ref\<rparr> in
      guardR (conflicts (\<lambda>x. (sx_revision_id x, sx_secret_name x, sx_purpose x)) row (secret_references d)
         \<or> list_all (\<lambda>v. rv_id v \<noteq> revisionID) (revisions d)
         \<or> list_all (\<lambda>s. s_name s \<noteq> sr_name ref) (secrets d)) ErrDatabase
        (Inr (d\<lparr>secret_references := secret_references d @ [row]\<rparr>)))"

definition replaceSecretReferences :: "string \<Rightarrow> secret_reference list \<Rightarrow> db \<Rightarrow> store_error + db" where
  "replaceSecretReferences revisionID refs d =
     (let d1 = d\<lparr>secret_references :=
          delete_where (\<lambda>x. sx_revision_id x = revisionID) (secret_references d)\<rparr> in
      guardR (missing_secrets refs d \<noteq> []) (ErrSecretNotFound (missing_secrets refs d))
        (foldR (insert_secret_reference revisionID) refs d1))"

text \<open>
  The pending approvals on the active revision that a change to \<open>revisionID\<close> would strand; the
  identifiers are returned when the deployment records the decision to strand them.
\<close>

definition answerable_approvals :: "ambient \<Rightarrow> string \<Rightarrow> string \<Rightarrow> db \<Rightarrow> approval_row list" where
  "answerable_approvals amb automationID revisionID d =
     sort_key (\<lambda>p. (p_created_at p, collation amb (p_id p)))
       (filter (\<lambda>p. p_automation_id p = automationID \<and> p_revision_id p = revisionID
          \<and> p_status p = ''pending'' \<and> p_expires_at p > pg_now amb) (approvals d))"

definition guardPendingApprovals :: "ambient \<Rightarrow> string \<Rightarrow> string \<Rightarrow> string \<Rightarrow> db \<Rightarrow> store_error + string list" where
  "guardPendingApprovals amb automationID revisionID deploymentID d =
     (case automation_by_id d automationID of
        None \<Rightarrow> Inr []
      | Some a \<Rightarrow>
          (let active = (case au_active_revision_id a of None \<Rightarrow> [] | Some v \<Rightarrow> v) in
           if active = [] \<or> active = revisionID then Inr []
           else let pending = answerable_approvals amb automationID active d in
             if pending = [] then Inr []
             else bindR (if deploymentID = [] then Inr False
                         else (case deployment_by_id d deploymentID of
                                 None \<Rightarrow> Inl ErrNoRows | Some x \<Rightarrow> Inr (dp_strand_approvals x)))
               (\<lambda>strand. guardR (\<not> strand)
                  (ErrPendingApprovals automationID active revisionID
                    (map (\<lambda>p. \<lparr>pa_id = p_id p, pa_title = p_title p, pa_expires_at = p_expires_at p\<rparr>) pending))
                  (Inr (map p_id pending)))))"

definition upsert_automation :: "ambient \<Rightarrow> metadata \<Rightarrow> db \<Rightarrow> db" where
  "upsert_automation amb md d =
     (if list_ex (\<lambda>a. au_id a = md_name md) (automations d)
      then d\<lparr>automations := update_where (\<lambda>a. au_id a = md_name md)
          (\<lambda>a. a\<lparr>au_project := md_project md, au_folder := md_folder md,
             au_description := md_description md, au_labels := md_labels md,
             au_updated_at := pg_now amb\<rparr>) (automations d)\<rparr>
      else d\<lparr>automations := automations d @
          [\<lparr>au_id = md_name md, au_project = md_project md, au_folder = md_folder md,
            au_description = md_description md, au_labels = md_labels md, au_active_revision_id = None,
            au_enabled = True, au_created_at = pg_now amb, au_updated_at = pg_now amb\<rparr>]\<rparr>)"

definition upsert_revision :: "ambient \<Rightarrow> string \<Rightarrow> manifest \<Rightarrow> string \<Rightarrow> string \<Rightarrow> artifact_provenance
    \<Rightarrow> db \<Rightarrow> store_error + db" where
  "upsert_revision amb revisionID m contentHash location prov d =
     (let name = md_name (mf_metadata m);
          row = \<lparr>rv_id = revisionID, rv_automation_id = name, rv_content_hash = contentHash,
             rv_manifest = m, rv_artifact_path = location, rv_provenance = Some prov,
             rv_created_at = pg_now amb\<rparr> in
      if conflicts (\<lambda>v. (rv_automation_id v, rv_content_hash v)) row (revisions d)
      then Inr (d\<lparr>revisions := update_where (\<lambda>v. rv_automation_id v = name \<and> rv_content_hash v = contentHash)
             (\<lambda>v. v\<lparr>rv_artifact_path := location, rv_provenance := Some prov\<rparr>) (revisions d)\<rparr>)
      else guardR (conflicts rv_id row (revisions d)) ErrDatabase
             (Inr (d\<lparr>revisions := revisions d @ [row]\<rparr>)))"

definition set_active_revision :: "ambient \<Rightarrow> string \<Rightarrow> string \<Rightarrow> db \<Rightarrow> db" where
  "set_active_revision amb automationID revisionID d =
     d\<lparr>automations := update_where (\<lambda>a. au_id a = automationID)
        (\<lambda>a. a\<lparr>au_active_revision_id := Some revisionID, au_updated_at := pg_now amb\<rparr>) (automations d)\<rparr>"

definition in_progress :: "deployment_status \<Rightarrow> bool" where
  "in_progress s = (s \<in> {DeploymentValidating, DeploymentBuilding, DeploymentChecking, DeploymentActivating})"

definition deploymentLeaseOrCancellation :: "string \<Rightarrow> db \<Rightarrow> store_error" where
  "deploymentLeaseOrCancellation deploymentID d =
     (case deployment_by_id d deploymentID of
        Some x \<Rightarrow> if dp_cancel_requested_at x \<noteq> None then ErrDeploymentCancelled else ErrDeploymentLeaseLost
      | None \<Rightarrow> ErrDeploymentLeaseLost)"

definition may_activate :: "string \<Rightarrow> string \<Rightarrow> deployment_row \<Rightarrow> bool" where
  "may_activate deploymentID workerID x =
     (dp_id x = deploymentID \<and> dp_lease_owner x = Some workerID \<and> dp_status x = DeploymentActivating
      \<and> dp_cancel_requested_at x = None)"

definition succeeded_deployment :: "ambient \<Rightarrow> string \<Rightarrow> artifact_provenance \<Rightarrow> deployment_row \<Rightarrow> deployment_row" where
  "succeeded_deployment amb rid prov x =
     x\<lparr>dp_status := DeploymentSucceeded, dp_revision_id := Some rid, dp_provenance := Some prov,
       dp_error := [], dp_updated_at := pg_now amb, dp_finished_at := Some (pg_now amb),
       dp_lease_owner := None, dp_lease_expires_at := None\<rparr>"

definition finish_deployment_job :: "ambient \<Rightarrow> nat \<Rightarrow> string \<Rightarrow> string \<Rightarrow> string \<Rightarrow> string \<Rightarrow> string \<Rightarrow> string
    \<Rightarrow> artifact_provenance \<Rightarrow> db \<Rightarrow> store_error + db" where
  "finish_deployment_job amb k deploymentID workerID revisionID name actor contentHash prov d =
     (let d1 = d\<lparr>deployment_steps := update_where
            (\<lambda>s. ds_deployment_id s = deploymentID \<and> ds_id s = ''activate'' \<and> ds_status s = DeploymentStepRunning)
            (\<lambda>s. s\<lparr>ds_status := DeploymentStepSucceeded, ds_finished_at := Some (pg_now amb)\<rparr>)
            (deployment_steps d)\<rparr>;
          d2 = d1\<lparr>deployments := update_where (may_activate deploymentID workerID)
            (succeeded_deployment amb revisionID prov) (deployments d1)\<rparr> in
      guardR (rows_affected (may_activate deploymentID workerID) (deployments d1) \<noteq> 1)
        (deploymentLeaseOrCancellation deploymentID d2)
        (insertAuditEvent amb k ''deployment.succeeded'' name actor
           [(''deploymentId'', DString deploymentID), (''revisionId'', DString revisionID),
            (''contentHash'', DString contentHash), (''provenance'', provenanceAuditDetails prov)] d2))"

text \<open>
  \<open>deploy\<close>, the body of \<open>Deploy\<close>, \<open>DeployAs\<close> and \<open>ActivateDeployment\<close>. A version two
  tool environment must pass the structural check of the provenance package.
\<close>

definition valid_deploy_provenance :: "manifest \<Rightarrow> string
    \<Rightarrow> artifact_provenance \<Rightarrow> bool" where
  "valid_deploy_provenance m contentHash prov =
     (validSHA256Hex contentHash
      \<and> (ap_version prov = 1 \<and> ap_tool_environment prov = None
         \<or> ap_version prov = 2 \<and> ValidToolEnvironment (ap_tool_environment prov))
      \<and> ap_algorithm prov = ''ed25519'' \<and> validSHA256Digest (ap_artifact_digest prov)
      \<and> validSHA256Digest (ap_signing_key_id prov) \<and> ap_public_key prov \<noteq> [] \<and> ap_signature prov \<noteq> []
      \<and> ap_content_hash prov = contentHash \<and> ap_automation_id prov = md_name (mf_metadata m)
      \<and> ap_tool_environment prov = rn_resolved_tools (mf_runtime m))"

definition publish_revision :: "ambient \<Rightarrow> manifest \<Rightarrow> string \<Rightarrow> string \<Rightarrow> artifact_provenance \<Rightarrow> string
    \<Rightarrow> string \<Rightarrow> string list \<Rightarrow> db \<Rightarrow> store_error + db" where
  "publish_revision amb m contentHash location prov actor deploymentID stranded d =
     (let name = md_name (mf_metadata m); revisionID = ''rev_'' @ take 24 contentHash in
      bindR (upsert_revision amb revisionID m contentHash location prov
          (upsert_automation amb (mf_metadata m) d)) (\<lambda>d1.
      bindR (replaceTriggers amb name revisionID (mf_triggers m) d1) (\<lambda>d2.
      bindR (replaceSecretReferences revisionID (SecretReferences m) d2) (\<lambda>d3.
      insertAuditEvent amb 0 ''automation.deployed'' name actor
          ([(''revisionId'', DString revisionID), (''contentHash'', DString contentHash),
            (''deploymentId'', DString deploymentID), (''provenance'', provenanceAuditDetails prov)]
           @ (if stranded = [] then [] else [(''strandedApprovals'', DStrings stranded)]))
          (set_active_revision amb name revisionID d3)))))"

definition deploy :: "ambient \<Rightarrow> manifest \<Rightarrow> string \<Rightarrow> string
    \<Rightarrow> artifact_provenance \<Rightarrow> string \<Rightarrow> string \<Rightarrow> string \<Rightarrow> db \<Rightarrow> string store_result" where
  "deploy amb m contentHash artifactPath prov actor deploymentID workerID = transact (\<lambda>d.
     let name = md_name (mf_metadata m); revisionID = ''rev_'' @ take 24 contentHash in
     guardR (\<not> valid_deploy_provenance m contentHash prov) ErrArtifactProvenanceRequired
     (bindR (recorded_location amb artifactPath) (\<lambda>location.
      bindR (guardPendingApprovals amb name revisionID deploymentID d) (\<lambda>stranded.
      bindR (publish_revision amb m contentHash location prov actor deploymentID stranded d) (\<lambda>d4.
      bindR (if deploymentID = [] then Inr d4
             else finish_deployment_job amb 1 deploymentID workerID revisionID name actor contentHash prov d4) (\<lambda>d5.
      Inr (revisionID, d5)))))))"

definition Deploy where
  "Deploy amb m contentHash artifactPath prov =
     deploy amb m contentHash artifactPath prov ''cli'' [] []"

definition DeployAs where
  "DeployAs amb m contentHash artifactPath prov actor =
     deploy amb m contentHash artifactPath prov actor [] []"

definition ActivateDeployment where
  "ActivateDeployment amb deploymentID workerID m contentHash artifactPath prov actor =
     deploy amb m contentHash artifactPath prov actor deploymentID workerID"

section \<open>Rollback, pause and resume, adoption\<close>

definition RollbackAutomation :: "ambient \<Rightarrow> string \<Rightarrow> string \<Rightarrow> string \<Rightarrow> db \<Rightarrow> bool store_result" where
  "RollbackAutomation amb automationID revisionID actor = transact (\<lambda>d.
     case automation_by_id d automationID of
       None \<Rightarrow> Inl ErrAutomationNotFound
     | Some a \<Rightarrow>
       (let current = (case au_active_revision_id a of None \<Rightarrow> [] | Some v \<Rightarrow> v) in
        case find (\<lambda>v. rv_id v = revisionID \<and> rv_automation_id v = automationID) (revisions d) of
          None \<Rightarrow> Inl ErrRevisionNotFound
        | Some v \<Rightarrow>
          guardR (rv_artifact_path v = []) ErrRevisionArtifactUnavailable
          (if current = revisionID then Inr (False, d)
           else bindR (replaceTriggers amb automationID revisionID (mf_triggers (rv_manifest v)) d) (\<lambda>d1.
             bindR (insertAuditEvent amb 0 ''automation.rolled_back'' automationID actor
                [(''fromRevisionId'', DString current), (''toRevisionId'', DString revisionID)]
                (set_active_revision amb automationID revisionID d1)) (\<lambda>d2.
             Inr (True, d2))))))"

definition reschedule :: "ambient \<Rightarrow> string \<Rightarrow> trigger_row \<Rightarrow> db \<Rightarrow> store_error + db" where
  "reschedule amb automationID t d =
     bindR (nextSchedule amb (tr_config t) (go_now amb)) (\<lambda>n.
       Inr (set_next_fire amb automationID (tr_id t) n d))"

definition SetAutomationEnabled :: "ambient \<Rightarrow> string \<Rightarrow> bool \<Rightarrow> string \<Rightarrow> db \<Rightarrow> bool store_result" where
  "SetAutomationEnabled amb automationID enabled actor = transact (\<lambda>d.
     case automation_by_id d automationID of
       None \<Rightarrow> Inl ErrAutomationNotFound
     | Some a \<Rightarrow>
       if au_enabled a = enabled then Inr (False, d)
       else
        (let d1 = d\<lparr>automations := update_where (\<lambda>x. au_id x = automationID)
               (\<lambda>x. x\<lparr>au_enabled := enabled, au_updated_at := pg_now amb\<rparr>) (automations d)\<rparr>;
             schedules = filter (\<lambda>t. tr_automation_id t = automationID \<and> tr_type t = ''schedule'' \<and> tr_enabled t)
               (triggers d1) in
         bindR (if enabled then foldR (reschedule amb automationID) schedules d1 else Inr d1) (\<lambda>d2.
         bindR (insertAuditEvent amb 0 (if enabled then ''automation.resumed'' else ''automation.paused'')
            automationID actor [(''enabled'', DBool enabled)] d2) (\<lambda>d3.
         Inr (True, d3)))))"

definition AdoptRevisionProvenance :: "ambient \<Rightarrow> string \<Rightarrow> string \<Rightarrow> artifact_provenance \<Rightarrow> db \<Rightarrow> bool store_result" where
  "AdoptRevisionProvenance amb automationID revisionID prov = transact (\<lambda>d.
     let hit = (\<lambda>v. rv_automation_id v = automationID \<and> rv_id v = revisionID \<and> rv_provenance v = None) in
     if rows_affected hit (revisions d) = 0 then Inr (False, d)
     else bindR (insertAuditEvent amb 0 ''artifact.adopted'' automationID ''system:upgrade''
           [(''revisionId'', DString revisionID), (''provenance'', provenanceAuditDetails prov)]
           (d\<lparr>revisions := update_where hit (\<lambda>v. v\<lparr>rv_provenance := Some prov\<rparr>) (revisions d),
              deployments := update_where (\<lambda>x. dp_revision_id x = Some revisionID)
                (\<lambda>x. x\<lparr>dp_provenance := Some prov\<rparr>) (deployments d)\<rparr>)) (\<lambda>d1.
        Inr (True, d1)))"

definition GetRevisionArtifact :: "ambient \<Rightarrow> string \<Rightarrow> string \<Rightarrow> db \<Rightarrow> store_error + revision_row \<times> string" where
  "GetRevisionArtifact amb automationID revisionID d =
     (case find (\<lambda>v. rv_automation_id v = automationID \<and> rv_id v = revisionID) (revisions d) of
        None \<Rightarrow> Inl ErrRevisionNotFound
      | Some v \<Rightarrow> guardR (rv_artifact_path v = []) ErrRevisionArtifactUnavailable
          (bindR (resolved_location amb (rv_artifact_path v)) (\<lambda>p. Inr (v, p))))"

definition ListRevisionArtifacts :: "ambient \<Rightarrow> db \<Rightarrow> store_error + (revision_row \<times> string) list" where
  "ListRevisionArtifacts amb d =
     mapR (\<lambda>v. bindR (resolved_location amb (rv_artifact_path v)) (\<lambda>p. Inr (v, p)))
       (sort_key (\<lambda>v. (collation amb (rv_automation_id v), collation amb (rv_id v)))
         (filter (\<lambda>v. rv_artifact_path v \<noteq> []) (revisions d)))"

end
