(* ===== verification/DeploymentQueue.thy ===== *)
theory DeploymentQueue
  imports Deployments
begin

text \<open>
  The durable deployment jobs (\<open>internal/database/database.go\<close>): creation under an idempotency
  key with the content digest comparison, the recursive search for a live retry, the leased
  claim, stages and steps, cancellation, retry and failure. Operations that are several
  statements without a transaction thread the database explicitly, so an error after a write
  keeps the write. \<open>digestDirectory\<close> (\<open>provenance.DigestDirectory\<close> on a path) and \<open>isDir\<close>
  (\<open>os.Stat\<close>) stand for the file system.
\<close>

section \<open>Reads\<close>

definition deployment_by_key :: "db \<Rightarrow> string \<Rightarrow> deployment_row option" where
  "deployment_by_key d k = find (\<lambda>x. dp_idempotency_key x = k) (deployments d)"

definition getDeploymentByIdempotencyKey :: "string \<Rightarrow> db \<Rightarrow> store_error + deployment_row" where
  "getDeploymentByIdempotencyKey k d =
     (case deployment_by_key d k of None \<Rightarrow> Inl ErrNoRows | Some x \<Rightarrow> Inr x)"

definition GetDeployment :: "string \<Rightarrow> db \<Rightarrow> store_error + deployment_row \<times> deployment_step_row list" where
  "GetDeployment deploymentID d =
     (case deployment_by_id d deploymentID of
        None \<Rightarrow> Inl ErrDeploymentNotFound
      | Some x \<Rightarrow> Inr (x, sort_key ds_position
          (filter (\<lambda>s. ds_deployment_id s = deploymentID) (deployment_steps d))))"

text \<open>
  The recursive common table expression: the identifiers reached from \<open>acc\<close> through
  \<open>retry_of\<close>. Every round but the last adds a row, so as many rounds as rows are enough.
\<close>

fun retry_chain :: "nat \<Rightarrow> deployment_row list \<Rightarrow> string list \<Rightarrow> string list" where
  "retry_chain 0 t acc = acc"
| "retry_chain (Suc n) t acc =
     (let found = filter (\<lambda>x. dp_id x \<notin> set acc \<and> (\<exists>p \<in> set acc. dp_retry_of x = Some p)) t in
      if found = [] then acc else retry_chain n t (acc @ map dp_id found))"

definition retries_of :: "db \<Rightarrow> string \<Rightarrow> string list" where
  "retries_of d deploymentID =
     retry_chain (length (deployments d)) (deployments d)
       (map dp_id (filter (\<lambda>x. dp_retry_of x = Some deploymentID) (deployments d)))"

definition liveRetryOf :: "ambient \<Rightarrow> string \<Rightarrow> db \<Rightarrow> deployment_row option" where
  "liveRetryOf amb deploymentID d =
     (case select_desc (\<lambda>x. (dp_status x = DeploymentSucceeded, dp_created_at x, collation amb (dp_id x)))
        (\<lambda>x. dp_id x \<in> set (retries_of d deploymentID)
           \<and> dp_status x \<noteq> DeploymentFailed \<and> dp_status x \<noteq> DeploymentCancelled) (deployments d) of
        [] \<Rightarrow> None | x # _ \<Rightarrow> Some x)"

section \<open>Creation\<close>

definition new_deployment :: "ambient \<Rightarrow> string \<Rightarrow> string \<Rightarrow> string \<Rightarrow> string \<Rightarrow> string \<Rightarrow> string
    \<Rightarrow> string option \<Rightarrow> bool \<Rightarrow> deployment_row" where
  "new_deployment amb deploymentID idempotencyKey packageDigest contentDigest sourcePath actor retryOf strand =
     \<lparr>dp_id = deploymentID, dp_idempotency_key = idempotencyKey, dp_package_digest = packageDigest,
      dp_content_digest = contentDigest, dp_source_path = sourcePath, dp_status = DeploymentQueued,
      dp_automation_id = [], dp_content_hash = [], dp_revision_id = None, dp_retry_of = retryOf,
      dp_actor = actor, dp_error = [], dp_provenance = None, dp_strand_approvals = strand,
      dp_cancel_requested_at = None, dp_lease_owner = None, dp_lease_expires_at = None,
      dp_created_at = pg_now amb, dp_updated_at = pg_now amb, dp_started_at = None, dp_finished_at = None\<rparr>"

text \<open>\<open>ON CONFLICT (idempotency_key) DO NOTHING\<close>, with the number of rows inserted.\<close>

definition insert_deployment :: "deployment_row \<Rightarrow> db \<Rightarrow> store_error + nat \<times> db" where
  "insert_deployment x d =
     (if conflicts dp_idempotency_key x (deployments d) then Inr (0, d)
      else guardR (conflicts dp_id x (deployments d)) ErrDatabase
        (Inr (1, d\<lparr>deployments := deployments d @ [x]\<rparr>)))"

definition deploymentContentDigest :: "(string \<Rightarrow> string option) \<Rightarrow> ambient \<Rightarrow> string \<Rightarrow> db \<Rightarrow> string store_result" where
  "deploymentContentDigest digestDirectory amb idempotencyKey d =
     (case deployment_by_key d idempotencyKey of
        None \<Rightarrow> (Inl ErrNoRows, d)
      | Some x \<Rightarrow>
          if dp_content_digest x \<noteq> [] then (Inr (dp_content_digest x), d)
          else if dp_source_path x = [] then (Inl ErrDeploymentContentUnverifiable, d)
          else (case resolved_location amb (dp_source_path x) of
                  Inl e \<Rightarrow> (Inl e, d)
                | Inr p \<Rightarrow>
                    (case digestDirectory p of
                       None \<Rightarrow> (Inl ErrDeploymentContentUnverifiable, d)
                     | Some digest \<Rightarrow>
                         (Inr digest, d\<lparr>deployments := update_where
                            (\<lambda>y. dp_idempotency_key y = idempotencyKey \<and> dp_content_digest y = [])
                            (\<lambda>y. y\<lparr>dp_content_digest := digest\<rparr>) (deployments d)\<rparr>))))"

definition CreateDeployment :: "(string \<Rightarrow> string option) \<Rightarrow> ambient \<Rightarrow> string \<Rightarrow> string \<Rightarrow> string \<Rightarrow> string
    \<Rightarrow> string \<Rightarrow> string \<Rightarrow> db \<Rightarrow> (deployment_row \<times> bool) store_result" where
  "CreateDeployment digestDirectory amb deploymentID idempotencyKey packageDigest contentDigest sourcePath actor d =
     (case recorded_location amb sourcePath of
        Inl e \<Rightarrow> (Inl e, d)
      | Inr location \<Rightarrow>
        (case insert_deployment (new_deployment amb deploymentID idempotencyKey packageDigest contentDigest
                 location actor None False) d of
           Inl e \<Rightarrow> (Inl e, d)
         | Inr (n, d1) \<Rightarrow>
           if n = 1 then
             (case getDeploymentByIdempotencyKey idempotencyKey d1 of
                Inl e \<Rightarrow> (Inl e, d1) | Inr x \<Rightarrow> (Inr (x, True), d1))
           else
             (case deploymentContentDigest digestDirectory amb idempotencyKey d1 of
                (Inl e, d2) \<Rightarrow> (Inl e, d2)
              | (Inr recorded, d2) \<Rightarrow>
                if recorded \<noteq> contentDigest then (Inl ErrDeploymentIdempotencyConflict, d2)
                else
                  (case getDeploymentByIdempotencyKey idempotencyKey d2 of
                     Inl e \<Rightarrow> (Inl e, d2)
                   | Inr x \<Rightarrow>
                     if dp_status x = DeploymentFailed \<or> dp_status x = DeploymentCancelled then
                       (case liveRetryOf amb (dp_id x) d2 of
                          Some y \<Rightarrow> (Inr (y, False), d2) | None \<Rightarrow> (Inr (x, False), d2))
                     else (Inr (x, False), d2)))))"

definition RetryDeployment :: "(string \<Rightarrow> bool) \<Rightarrow> ambient \<Rightarrow> string \<Rightarrow> string \<Rightarrow> string \<Rightarrow> string \<Rightarrow> bool \<Rightarrow> db
    \<Rightarrow> (deployment_row \<times> bool) store_result" where
  "RetryDeployment isDir amb originalID deploymentID idempotencyKey actor strand d =
     (case deployment_by_key d idempotencyKey of
        Some x \<Rightarrow>
          if dp_retry_of x \<noteq> Some originalID \<or> dp_strand_approvals x \<noteq> strand
          then (Inl ErrDeploymentIdempotencyConflict, d) else (Inr (x, False), d)
      | None \<Rightarrow>
        (case deployment_by_id d originalID of
           None \<Rightarrow> (Inl ErrDeploymentNotFound, d)
         | Some original \<Rightarrow>
           if dp_status original \<noteq> DeploymentFailed \<and> dp_status original \<noteq> DeploymentCancelled
           then (Inl ErrDeploymentNotRetryable, d)
           else (case resolved_location amb (dp_source_path original) of
                   Inl e \<Rightarrow> (Inl e, d)
                 | Inr p \<Rightarrow>
                   if \<not> isDir p then (Inl ErrDeploymentSourceUnavailable, d)
                   else if dp_source_path original = [] then (Inl ErrNoRows, d)
                   else (case insert_deployment (new_deployment amb deploymentID idempotencyKey
                            (dp_package_digest original) (dp_content_digest original)
                            (dp_source_path original) actor (Some originalID) strand) d of
                           Inl e \<Rightarrow> (Inl e, d)
                         | Inr (n, d1) \<Rightarrow>
                           (case getDeploymentByIdempotencyKey idempotencyKey d1 of
                              Inl e \<Rightarrow> (Inl e, d1)
                            | Inr x \<Rightarrow>
                              if dp_retry_of x \<noteq> Some originalID \<or> dp_strand_approvals x \<noteq> strand
                              then (Inl ErrDeploymentIdempotencyConflict, d1)
                              else (Inr (x, n = 1), d1))))))"

section \<open>Claims, stages and steps\<close>

definition deployment_candidate :: "ambient \<Rightarrow> deployment_row \<Rightarrow> bool" where
  "deployment_candidate amb x =
     (dp_cancel_requested_at x = None
      \<and> (dp_status x = DeploymentQueued
         \<or> in_progress (dp_status x) \<and> opt_holds (\<lambda>t. t < pg_now amb) (dp_lease_expires_at x))
      \<and> \<not> locked amb [''deployments'', dp_id x])"

definition claim_deployment :: "ambient \<Rightarrow> string \<Rightarrow> duration \<Rightarrow> deployment_row \<Rightarrow> deployment_row" where
  "claim_deployment amb workerID lease x =
     x\<lparr>dp_status := DeploymentValidating,
       dp_started_at := (case dp_started_at x of None \<Rightarrow> Some (pg_now amb) | Some t \<Rightarrow> Some t),
       dp_updated_at := pg_now amb, dp_lease_owner := Some workerID,
       dp_lease_expires_at := Some (pg_now amb + lease), dp_error := []\<rparr>"

definition AcquireDeployment :: "ambient \<Rightarrow> string \<Rightarrow> duration \<Rightarrow> db \<Rightarrow> (deployment_row \<times> string) option store_result" where
  "AcquireDeployment amb workerID lease d =
     (case select_first dp_created_at (deployment_candidate amb) (deployments d) of
        None \<Rightarrow> (Inr None, d)
      | Some c \<Rightarrow>
          (let x = claim_deployment amb workerID lease c;
               d' = d\<lparr>deployments := update_where (\<lambda>y. dp_id y = dp_id c)
                 (claim_deployment amb workerID lease) (deployments d)\<rparr> in
           case resolved_location amb (dp_source_path x) of
             Inl e \<Rightarrow> (Inl e, d') | Inr p \<Rightarrow> (Inr (Some (x, p)), d')))"

text \<open>The guards of the worker's writes.\<close>

definition owns_deployment :: "string \<Rightarrow> string \<Rightarrow> deployment_row \<Rightarrow> bool" where
  "owns_deployment deploymentID workerID x =
     (dp_id x = deploymentID \<and> dp_lease_owner x = Some workerID \<and> in_progress (dp_status x))"

definition drives_deployment :: "string \<Rightarrow> string \<Rightarrow> deployment_row \<Rightarrow> bool" where
  "drives_deployment deploymentID workerID x =
     (owns_deployment deploymentID workerID x \<and> dp_cancel_requested_at x = None)"

definition RenewDeploymentLease :: "ambient \<Rightarrow> string \<Rightarrow> string \<Rightarrow> duration \<Rightarrow> db \<Rightarrow> bool store_result" where
  "RenewDeploymentLease amb deploymentID workerID lease d =
     (Inr (rows_affected (drives_deployment deploymentID workerID) (deployments d) = 1),
      d\<lparr>deployments := update_where (drives_deployment deploymentID workerID)
         (\<lambda>x. x\<lparr>dp_lease_expires_at := Some (pg_now amb + lease), dp_updated_at := pg_now amb\<rparr>)
         (deployments d)\<rparr>)"

definition SetDeploymentStage :: "ambient \<Rightarrow> string \<Rightarrow> string \<Rightarrow> deployment_status \<Rightarrow> string \<Rightarrow> string \<Rightarrow> db
    \<Rightarrow> unit store_result" where
  "SetDeploymentStage amb deploymentID workerID status automationID contentHash = transact (\<lambda>d.
     let hit = (\<lambda>x. drives_deployment deploymentID workerID x \<and> dp_status x \<noteq> DeploymentActivating) in
     guardR (status \<noteq> DeploymentBuilding \<and> status \<noteq> DeploymentChecking \<and> status \<noteq> DeploymentActivating)
       (ErrText (''unsupported deployment stage '' @ deployment_status_text status))
     (guardR (rows_affected hit (deployments d) \<noteq> 1) ErrDeploymentLeaseLost
       (Inr ((), d\<lparr>deployments := update_where hit
          (\<lambda>x. x\<lparr>dp_status := status, dp_automation_id := automationID, dp_content_hash := contentHash,
             dp_updated_at := pg_now amb\<rparr>) (deployments d)\<rparr>))))"

definition deploymentStatusForStep :: "string \<Rightarrow> store_error + deployment_status" where
  "deploymentStatusForStep kind =
     (if kind = ''validate'' then Inr DeploymentValidating
      else if kind = ''build'' then Inr DeploymentBuilding
      else if kind = ''check'' then Inr DeploymentChecking
      else if kind = ''activate'' then Inr DeploymentActivating
      else Inl (ErrText (''unsupported deployment step kind '' @ kind)))"

definition truncateDiagnostic :: "string \<Rightarrow> string \<Rightarrow> string" where
  "truncateDiagnostic v label =
     (if length v \<le> 2 ^ 20 then v else take (2 ^ 20) v @ [CHR 0x0A] @ ''['' @ label @ '' truncated]'')"

definition next_position :: "string \<Rightarrow> deployment_step_row list \<Rightarrow> nat" where
  "next_position deploymentID t =
     (case map ds_position (filter (\<lambda>s. ds_deployment_id s = deploymentID) t) of
        [] \<Rightarrow> 0 | p # ps \<Rightarrow> fold max ps p + 1)"

definition start_step :: "ambient \<Rightarrow> string \<Rightarrow> deployment_step_update \<Rightarrow> db \<Rightarrow> db" where
  "start_step amb deploymentID update d =
     (let same = (\<lambda>s. ds_deployment_id s = deploymentID \<and> ds_id s = su_id update) in
      if list_ex same (deployment_steps d)
      then d\<lparr>deployment_steps := update_where same
             (\<lambda>s. s\<lparr>ds_kind := su_kind update, ds_status := DeploymentStepRunning, ds_logs := [],
                ds_error := [], ds_started_at := pg_now amb, ds_finished_at := None\<rparr>) (deployment_steps d)\<rparr>
      else d\<lparr>deployment_steps := deployment_steps d @
             [\<lparr>ds_deployment_id = deploymentID, ds_position = next_position deploymentID (deployment_steps d),
               ds_id = su_id update, ds_kind = su_kind update, ds_status = DeploymentStepRunning, ds_logs = [],
               ds_error = [], ds_started_at = pg_now amb, ds_finished_at = None\<rparr>]\<rparr>)"

definition finish_step :: "ambient \<Rightarrow> string \<Rightarrow> string \<Rightarrow> deployment_step_update \<Rightarrow> step_status \<Rightarrow> db
    \<Rightarrow> store_error + unit \<times> db" where
  "finish_step amb deploymentID workerID update status d =
     (let hit = (\<lambda>s. ds_deployment_id s = deploymentID \<and> ds_id s = su_id update
            \<and> ds_status s = DeploymentStepRunning
            \<and> list_ex (owns_deployment deploymentID workerID) (deployments d)) in
      guardR (rows_affected hit (deployment_steps d) \<noteq> 1) ErrDeploymentLeaseLost
        (Inr ((), d\<lparr>deployment_steps := update_where hit
           (\<lambda>s. s\<lparr>ds_status := status, ds_logs := truncateDiagnostic (su_logs update) ''logs'',
              ds_error := truncateDiagnostic (su_error update) ''error'',
              ds_finished_at := Some (pg_now amb)\<rparr>) (deployment_steps d)\<rparr>)))"

definition RecordDeploymentStep :: "ambient \<Rightarrow> string \<Rightarrow> string \<Rightarrow> deployment_step_update \<Rightarrow> db \<Rightarrow> unit store_result" where
  "RecordDeploymentStep amb deploymentID workerID update = transact (\<lambda>d.
     if su_status update = ''running'' then
       bindR (deploymentStatusForStep (su_kind update)) (\<lambda>stage.
         guardR (rows_affected (drives_deployment deploymentID workerID) (deployments d) \<noteq> 1)
           (deploymentLeaseOrCancellation deploymentID d)
         (Inr ((), start_step amb deploymentID update
            (d\<lparr>deployments := update_where (drives_deployment deploymentID workerID)
               (\<lambda>x. x\<lparr>dp_status := stage, dp_updated_at := pg_now amb\<rparr>) (deployments d)\<rparr>))))
     else if su_status update = ''succeeded'' then
       finish_step amb deploymentID workerID update DeploymentStepSucceeded d
     else if su_status update = ''failed'' then
       finish_step amb deploymentID workerID update DeploymentStepFailed d
     else Inl (ErrText (''unsupported deployment step status '' @ su_status update)))"

section \<open>Cancellation and failure\<close>

definition terminal_deployment :: "deployment_status \<Rightarrow> bool" where
  "terminal_deployment s = (s \<in> {DeploymentSucceeded, DeploymentFailed, DeploymentCancelled})"

definition DeploymentCancellationRequested :: "string \<Rightarrow> string \<Rightarrow> db \<Rightarrow> store_error + bool" where
  "DeploymentCancellationRequested deploymentID workerID d =
     (case deployment_by_id d deploymentID of
        None \<Rightarrow> Inl ErrDeploymentLeaseLost
      | Some x \<Rightarrow>
          if terminal_deployment (dp_status x) then Inr False
          else if (case dp_lease_owner x of None \<Rightarrow> [] | Some w \<Rightarrow> w) \<noteq> workerID
          then Inl ErrDeploymentLeaseLost
          else Inr (dp_cancel_requested_at x \<noteq> None))"

definition cancel_request :: "ambient \<Rightarrow> deployment_row \<Rightarrow> deployment_row" where
  "cancel_request amb x =
     x\<lparr>dp_cancel_requested_at := (case dp_cancel_requested_at x of None \<Rightarrow> Some (pg_now amb) | Some t \<Rightarrow> Some t),
       dp_status := (if dp_status x = DeploymentQueued then DeploymentCancelled else dp_status x),
       dp_finished_at := (if dp_status x = DeploymentQueued then Some (pg_now amb) else dp_finished_at x),
       dp_updated_at := pg_now amb\<rparr>"

definition RequestDeploymentCancellation :: "ambient \<Rightarrow> string \<Rightarrow> string \<Rightarrow> db
    \<Rightarrow> (deployment_row \<times> deployment_step_row list) store_result" where
  "RequestDeploymentCancellation amb deploymentID actor = transact (\<lambda>d.
     let hit = (\<lambda>x. dp_id x = deploymentID \<and> \<not> terminal_deployment (dp_status x)) in
     case find hit (deployments d) of
       None \<Rightarrow> (case GetDeployment deploymentID d of
                 Inl ErrDeploymentNotFound \<Rightarrow> Inl ErrDeploymentNotFound
               | _ \<Rightarrow> Inl ErrDeploymentNotCancellable)
     | Some x \<Rightarrow>
       bindR (insertAuditEvent amb 0 ''deployment.cancel_requested'' (dp_automation_id x) actor
           [(''deploymentId'', DString deploymentID)]
           (d\<lparr>deployments := update_where hit (cancel_request amb) (deployments d)\<rparr>)) (\<lambda>d1.
       bindR (GetDeployment deploymentID d1) (\<lambda>v. Inr (v, d1))))"

definition CompleteDeploymentCancellation :: "ambient \<Rightarrow> string \<Rightarrow> string \<Rightarrow> db \<Rightarrow> unit store_result" where
  "CompleteDeploymentCancellation amb deploymentID workerID = transact (\<lambda>d.
     let hit = (\<lambda>x. owns_deployment deploymentID workerID x \<and> dp_cancel_requested_at x \<noteq> None) in
     guardR (rows_affected hit (deployments d) \<noteq> 1) ErrDeploymentLeaseLost
     (Inr ((), d\<lparr>deployments := update_where hit
          (\<lambda>x. x\<lparr>dp_status := DeploymentCancelled, dp_error := ''deployment cancelled'',
             dp_updated_at := pg_now amb, dp_finished_at := Some (pg_now amb),
             dp_lease_owner := None, dp_lease_expires_at := None\<rparr>) (deployments d),
        deployment_steps := update_where
          (\<lambda>s. ds_deployment_id s = deploymentID \<and> ds_status s = DeploymentStepRunning)
          (\<lambda>s. s\<lparr>ds_status := DeploymentStepFailed, ds_error := ''deployment cancelled'',
             ds_finished_at := Some (pg_now amb)\<rparr>) (deployment_steps d)\<rparr>)))"

definition FailDeployment :: "ambient \<Rightarrow> string \<Rightarrow> string \<Rightarrow> string \<Rightarrow> db \<Rightarrow> unit store_result" where
  "FailDeployment amb deploymentID workerID message = transact (\<lambda>d.
     let msg = truncateDiagnostic message ''error''; hit = drives_deployment deploymentID workerID in
     case find hit (deployments d) of
       None \<Rightarrow> Inl ErrDeploymentLeaseLost
     | Some x \<Rightarrow>
       (let d1 = d\<lparr>deployments := update_where hit
            (\<lambda>x. x\<lparr>dp_status := DeploymentFailed, dp_error := msg, dp_updated_at := pg_now amb,
               dp_finished_at := Some (pg_now amb), dp_lease_owner := None, dp_lease_expires_at := None\<rparr>)
            (deployments d)\<rparr> in
        if dp_automation_id x = [] then Inr ((), d1)
        else bindR (insertAuditEvent amb 0 ''deployment.failed'' (dp_automation_id x) (dp_actor x)
               [(''deploymentId'', DString deploymentID), (''packageDigest'', DString (dp_package_digest x)),
                (''contentHash'', DString (dp_content_hash x)), (''error'', DString msg)] d1)
             (\<lambda>d2. Inr ((), d2))))"

end
