(* ===== verification/DeploymentProofs.thy ===== *)
theory DeploymentProofs
  imports DeploymentQueue RunQueueProofs
begin

text \<open>
  Proofs about revisions and deployment jobs: the invariant of the catalogue (automations,
  revisions, triggers), the invariant of the deployment table, that every operation keeps them,
  the effect of an activation, and the lease contract interpreted on the deployment queue.
\<close>

section \<open>Replacing triggers and secret references\<close>

lemma insert_trigger_Inr:
  assumes "insert_trigger amb a v t d = Inr d'"
  shows "\<exists>nf. d' = d\<lparr>triggers := triggers d @ [trigger_row_of amb a v t nf]\<rparr>
    \<and> \<not> conflicts (\<lambda>x. (tr_automation_id x, tr_id x)) (trigger_row_of amb a v t nf) (triggers d)"
  using assms unfolding insert_trigger_def bindR_eq_Inr Let_def guardR_eq_Inr by blast

lemma insert_triggers_Inr:
  assumes "foldR (insert_trigger amb a v) ts d = Inr d'"
  shows "\<exists>rows. d' = d\<lparr>triggers := triggers d @ rows\<rparr>
    \<and> list_all2 (\<lambda>t row. \<exists>nf. row = trigger_row_of amb a v t nf) ts rows
    \<and> (distinct (map (\<lambda>x. (tr_automation_id x, tr_id x)) (triggers d)) \<longrightarrow>
       distinct (map (\<lambda>x. (tr_automation_id x, tr_id x)) (triggers d')))"
  using assms
proof (induction ts arbitrary: d)
  case Nil
  then show ?case by (intro exI[of _ "[]"]) simp
next
  case (Cons t ts)
  then obtain d1 where d1: "insert_trigger amb a v t d = Inr d1" "foldR (insert_trigger amb a v) ts d1 = Inr d'"
    by (auto simp: bindR_eq_Inr)
  from insert_trigger_Inr[OF d1(1)] obtain nf where
    nf: "d1 = d\<lparr>triggers := triggers d @ [trigger_row_of amb a v t nf]\<rparr>"
      "\<not> conflicts (\<lambda>x. (tr_automation_id x, tr_id x)) (trigger_row_of amb a v t nf) (triggers d)" by blast
  from Cons.IH[OF d1(2)] obtain rows where
    rows: "d' = d1\<lparr>triggers := triggers d1 @ rows\<rparr>"
      "list_all2 (\<lambda>t row. \<exists>nf. row = trigger_row_of amb a v t nf) ts rows"
      "distinct (map (\<lambda>x. (tr_automation_id x, tr_id x)) (triggers d1)) \<longrightarrow>
       distinct (map (\<lambda>x. (tr_automation_id x, tr_id x)) (triggers d'))" by blast
  have "distinct (map (\<lambda>x. (tr_automation_id x, tr_id x)) (triggers d1))"
    if "distinct (map (\<lambda>x. (tr_automation_id x, tr_id x)) (triggers d))"
    using that nf by (auto simp: conflicts_def)
  with rows nf(1) show ?case
    by (intro exI[of _ "trigger_row_of amb a v t nf # rows"]) auto
qed

definition other_triggers :: "string \<Rightarrow> db \<Rightarrow> trigger_row list" where
  "other_triggers a d = filter (\<lambda>t. tr_automation_id t \<noteq> a) (triggers d)"

lemma replaceTriggers_Inr:
  assumes "replaceTriggers amb a v ts d = Inr d'"
  shows "\<exists>rows. d' = d\<lparr>triggers := other_triggers a d @ rows\<rparr>
    \<and> list_all2 (\<lambda>t row. \<exists>nf. row = trigger_row_of amb a v t nf) ts rows"
    and "distinct (map (\<lambda>x. (tr_automation_id x, tr_id x)) (triggers d)) \<Longrightarrow>
      distinct (map (\<lambda>x. (tr_automation_id x, tr_id x)) (triggers d'))"
proof -
  let ?d0 = "d\<lparr>triggers := delete_where (\<lambda>t. tr_automation_id t = a) (triggers d)\<rparr>"
  from insert_triggers_Inr[OF assms[unfolded replaceTriggers_def]] obtain rows where
    *: "d' = ?d0\<lparr>triggers := triggers ?d0 @ rows\<rparr>"
      "list_all2 (\<lambda>t row. \<exists>nf. row = trigger_row_of amb a v t nf) ts rows"
      "distinct (map (\<lambda>x. (tr_automation_id x, tr_id x)) (triggers ?d0)) \<longrightarrow>
       distinct (map (\<lambda>x. (tr_automation_id x, tr_id x)) (triggers d'))" by blast
  then show "\<exists>rows. d' = d\<lparr>triggers := other_triggers a d @ rows\<rparr>
      \<and> list_all2 (\<lambda>t row. \<exists>nf. row = trigger_row_of amb a v t nf) ts rows"
    by (intro exI[of _ rows]) (simp add: other_triggers_def delete_where_def)
  assume "distinct (map (\<lambda>x. (tr_automation_id x, tr_id x)) (triggers d))"
  then show "distinct (map (\<lambda>x. (tr_automation_id x, tr_id x)) (triggers d'))"
    using *(3) by (simp add: delete_where_def distinct_map_filter)
qed

lemma insert_references_Inr:
  assumes "foldR (insert_secret_reference v) refs d = Inr d'"
  shows "d' = d\<lparr>secret_references := secret_references d @
      map (\<lambda>r. \<lparr>sx_revision_id = v, sx_secret_name = sr_name r, sx_purpose = sr_purpose r\<rparr>) refs\<rparr>
    \<and> (\<forall>r \<in> set refs. \<exists>s \<in> set (secrets d). s_name s = sr_name r)"
  using assms
proof (induction refs arbitrary: d)
  case (Cons r refs)
  then obtain d1 where d1: "insert_secret_reference v r d = Inr d1" "foldR (insert_secret_reference v) refs d1 = Inr d'"
    by (auto simp: bindR_eq_Inr)
  from d1(1) have "d1 = d\<lparr>secret_references := secret_references d @
      [\<lparr>sx_revision_id = v, sx_secret_name = sr_name r, sx_purpose = sr_purpose r\<rparr>]\<rparr>"
      "\<exists>s \<in> set (secrets d). s_name s = sr_name r"
    unfolding insert_secret_reference_def Let_def guardR_eq_Inr by (auto simp: list_all_iff)
  with Cons.IH[OF d1(2)] show ?case by simp
qed simp

lemma replaceSecretReferences_Inr:
  assumes "replaceSecretReferences v refs d = Inr d'"
  shows "d' = d\<lparr>secret_references := filter (\<lambda>x. sx_revision_id x \<noteq> v) (secret_references d) @
      map (\<lambda>r. \<lparr>sx_revision_id = v, sx_secret_name = sr_name r, sx_purpose = sr_purpose r\<rparr>) refs\<rparr>"
    and "\<forall>r \<in> set refs. \<exists>s \<in> set (secrets d). s_name s = sr_name r"
  using assms insert_references_Inr[of v refs "d\<lparr>secret_references :=
      delete_where (\<lambda>x. sx_revision_id x = v) (secret_references d)\<rparr>" d']
  unfolding replaceSecretReferences_def Let_def guardR_eq_Inr by (simp_all add: delete_where_def)

section \<open>The catalogue invariant\<close>

definition revision_id_of :: "string \<Rightarrow> string" where
  "revision_id_of contentHash = ''rev_'' @ take 24 contentHash"

definition catalogue_ok :: "automation_row list \<Rightarrow> revision_row list \<Rightarrow> trigger_row list \<Rightarrow> bool" where
  "catalogue_ok as vs ts =
     (distinct (map au_id as) \<and> distinct (map rv_id vs)
      \<and> distinct (map (\<lambda>t. (tr_automation_id t, tr_id t)) ts)
      \<and> (\<forall>v \<in> set vs. rv_id v = revision_id_of (rv_content_hash v))
      \<and> (\<forall>a \<in> set as. case au_active_revision_id a of None \<Rightarrow> True | Some i \<Rightarrow>
           (\<exists>v \<in> set vs. rv_id v = i \<and> rv_automation_id v = au_id a))
      \<and> (\<forall>t \<in> set ts. \<exists>a \<in> set as. au_id a = tr_automation_id t
           \<and> au_active_revision_id a = Some (tr_revision_id t)))"

lemma catalogue_ok_iff:
  "catalogue_ok as vs ts \<longleftrightarrow>
     distinct (map au_id as) \<and> distinct (map rv_id vs)
      \<and> distinct (map (\<lambda>t. (tr_automation_id t, tr_id t)) ts)
      \<and> (\<forall>v \<in> set vs. rv_id v = revision_id_of (rv_content_hash v))
      \<and> (\<forall>a \<in> set as. \<forall>i. au_active_revision_id a = Some i \<longrightarrow>
           (\<exists>v \<in> set vs. rv_id v = i \<and> rv_automation_id v = au_id a))
      \<and> (\<forall>t \<in> set ts. \<exists>a \<in> set as. au_id a = tr_automation_id t
           \<and> au_active_revision_id a = Some (tr_revision_id t))"
  by (simp add: catalogue_ok_def split: option.split)

abbreviation catalog_ok :: "db \<Rightarrow> bool" where
  "catalog_ok d \<equiv> catalogue_ok (automations d) (revisions d) (triggers d)"

lemma catalogue_okD:
  assumes "catalogue_ok as vs ts"
  shows "distinct (map au_id as)" "distinct (map rv_id vs)"
    "distinct (map (\<lambda>t. (tr_automation_id t, tr_id t)) ts)"
    "\<forall>v \<in> set vs. rv_id v = revision_id_of (rv_content_hash v)"
    "\<forall>a \<in> set as. \<forall>i. au_active_revision_id a = Some i \<longrightarrow>
       (\<exists>v \<in> set vs. rv_id v = i \<and> rv_automation_id v = au_id a)"
    "\<forall>t \<in> set ts. \<exists>a \<in> set as. au_id a = tr_automation_id t \<and> au_active_revision_id a = Some (tr_revision_id t)"
  using assms unfolding catalogue_ok_iff by blast+

lemma recorded_nonempty:
  assumes "recorded_location amb p = Inr r" "p \<noteq> []"
  shows "r \<noteq> []"
  using assms
  by (auto simp: recorded_location_def relativeStorageLocation_def isContainedRelativePath_def
      split: sum.splits option.splits if_splits)

lemma upsert_automation_facts:
  fixes d amb md
  defines "as' \<equiv> automations (upsert_automation amb md d)"
  shows "upsert_automation amb md d = d\<lparr>automations := as'\<rparr>"
    and "distinct (map au_id (automations d)) \<Longrightarrow> distinct (map au_id as')"
    and "\<exists>a \<in> set as'. au_id a = md_name md"
    and "a \<in> set as' \<Longrightarrow> au_id a \<noteq> md_name md \<Longrightarrow> a \<in> set (automations d)"
    and "a \<in> set (automations d) \<Longrightarrow> au_id a \<noteq> md_name md \<Longrightarrow> a \<in> set as'"
proof -
  show "distinct (map au_id as')" if "distinct (map au_id (automations d))"
    unfolding as'_def upsert_automation_def using that
    by (auto simp: map_update_where list_ex_iff)
  show "\<exists>a \<in> set as'. au_id a = md_name md"
  proof (cases "list_ex (\<lambda>a. au_id a = md_name md) (automations d)")
    case True
    then obtain a where "a \<in> set (automations d)" "au_id a = md_name md" by (auto simp: list_ex_iff)
    with True show ?thesis
      by (auto simp: as'_def upsert_automation_def intro!: bexI[OF _ update_where_hit])
  qed (simp add: as'_def upsert_automation_def)
qed (auto simp: as'_def upsert_automation_def list_ex_iff set_update_where split: if_splits)

lemma upsert_revision_Inr:
  assumes "upsert_revision amb i m h loc prov d = Inr d'" "i = revision_id_of h"
    and ok: "distinct (map rv_id (revisions d))" "\<forall>v \<in> set (revisions d). rv_id v = revision_id_of (rv_content_hash v)"
  defines "name \<equiv> md_name (mf_metadata m)"
  shows "\<exists>vs. d' = d\<lparr>revisions := vs\<rparr>" "distinct (map rv_id (revisions d'))"
    and "\<forall>v \<in> set (revisions d'). rv_id v = revision_id_of (rv_content_hash v)"
    and "\<exists>v \<in> set (revisions d'). rv_id v = i \<and> rv_automation_id v = name \<and> rv_content_hash v = h
      \<and> rv_artifact_path v = loc \<and> rv_provenance v = Some prov"
    and "\<And>v. v \<in> set (revisions d) \<Longrightarrow> rv_automation_id v \<noteq> name \<or> rv_content_hash v \<noteq> h \<Longrightarrow> v \<in> set (revisions d')"
proof -
  let ?hit = "\<lambda>v. rv_automation_id v = name \<and> rv_content_hash v = h"
  let ?f = "\<lambda>v::revision_row. v\<lparr>rv_artifact_path := loc, rv_provenance := Some prov\<rparr>"
  let ?row = "\<lparr>rv_id = i, rv_automation_id = name, rv_content_hash = h, rv_manifest = m,
    rv_artifact_path = loc, rv_provenance = Some prov, rv_created_at = pg_now amb\<rparr>"
  have cases: "(\<exists>v \<in> set (revisions d). ?hit v) \<and> d' = d\<lparr>revisions := update_where ?hit ?f (revisions d)\<rparr>
    \<or> \<not> conflicts rv_id ?row (revisions d) \<and> d' = d\<lparr>revisions := revisions d @ [?row]\<rparr>"
    using assms(1) unfolding upsert_revision_def name_def Let_def
    by (auto simp: guardR_eq_Inr conflicts_def split: if_splits)
  then show "\<exists>vs. d' = d\<lparr>revisions := vs\<rparr>" by blast
  show "distinct (map rv_id (revisions d'))"
    using cases ok(1) by (auto simp: map_update_where conflicts_def)
  show "\<forall>v \<in> set (revisions d'). rv_id v = revision_id_of (rv_content_hash v)"
    using cases ok(2) assms(2) by (auto simp: set_update_where)
  show "\<exists>v \<in> set (revisions d'). rv_id v = i \<and> rv_automation_id v = name \<and> rv_content_hash v = h
      \<and> rv_artifact_path v = loc \<and> rv_provenance v = Some prov"
    using cases
  proof
    assume *: "(\<exists>v \<in> set (revisions d). ?hit v) \<and> d' = d\<lparr>revisions := update_where ?hit ?f (revisions d)\<rparr>"
    then obtain v where "v \<in> set (revisions d)" "?hit v" by blast
    with * ok(2) assms(2) show ?thesis
      by (intro bexI[of _ "?f v"]) (auto simp: set_update_where intro!: bexI[of _ v])
  qed auto
  show "\<And>v. v \<in> set (revisions d) \<Longrightarrow> rv_automation_id v \<noteq> name \<or> rv_content_hash v \<noteq> h \<Longrightarrow> v \<in> set (revisions d')"
    using cases by (auto simp: set_update_where intro!: bexI)
qed

lemma set_active_revision_facts:
  "set_active_revision amb a v d = d\<lparr>automations := automations (set_active_revision amb a v d)\<rparr>"
  "map au_id (automations (set_active_revision amb a v d)) = map au_id (automations d)"
  "x \<in> set (automations (set_active_revision amb a v d)) \<longleftrightarrow>
    (\<exists>y \<in> set (automations d). x = (if au_id y = a
      then y\<lparr>au_active_revision_id := Some v, au_updated_at := pg_now amb\<rparr> else y))"
  by (simp_all add: set_active_revision_def map_update_where set_update_where)

text \<open>Activating a revision that is present and installing its triggers keeps
  the catalogue consistent.\<close>

lemma catalogue_activate:
  assumes "distinct (map au_id as)" "distinct (map rv_id vs)" "distinct (map (\<lambda>t. (tr_automation_id t, tr_id t)) ts)"
    and "\<forall>v \<in> set vs. rv_id v = revision_id_of (rv_content_hash v)"
    and "\<exists>v \<in> set vs. rv_id v = i \<and> rv_automation_id v = name"
    and "\<forall>a \<in> set as. au_id a \<noteq> name \<longrightarrow> (\<forall>j. au_active_revision_id a = Some j \<longrightarrow>
           (\<exists>v \<in> set vs. rv_id v = j \<and> rv_automation_id v = au_id a))"
    and "\<forall>t \<in> set ts. tr_automation_id t = name \<and> tr_revision_id t = i
           \<or> tr_automation_id t \<noteq> name \<and> (\<exists>a \<in> set as. au_id a = tr_automation_id t
             \<and> au_active_revision_id a = Some (tr_revision_id t))"
    and "\<exists>a \<in> set as. au_id a = name"
    and f: "\<And>a. au_id (f a) = au_id a" "\<And>a. au_active_revision_id (f a) = Some i"
  shows "catalogue_ok (update_where (\<lambda>a. au_id a = name) f as) vs ts"
proof -
  let ?as = "update_where (\<lambda>a. au_id a = name) f as"
  have "map au_id ?as = map au_id as" by (simp add: map_update_where f)
  moreover have "\<forall>a \<in> set ?as. \<forall>j. au_active_revision_id a = Some j \<longrightarrow>
      (\<exists>v \<in> set vs. rv_id v = j \<and> rv_automation_id v = au_id a)"
  proof (intro ballI allI impI)
    fix a j assume "a \<in> set ?as" "au_active_revision_id a = Some j"
    then obtain x where "x \<in> set as" "a = (if au_id x = name then f x else x)"
      unfolding set_update_where by blast
    with \<open>au_active_revision_id a = Some j\<close> assms(5,6) f
    show "\<exists>v \<in> set vs. rv_id v = j \<and> rv_automation_id v = au_id a"
      by (cases "au_id x = name") simp_all
  qed
  moreover have "\<forall>t \<in> set ts. \<exists>a \<in> set ?as. au_id a = tr_automation_id t
      \<and> au_active_revision_id a = Some (tr_revision_id t)"
  proof
    fix t assume "t \<in> set ts"
    with assms(7) consider "tr_automation_id t = name" "tr_revision_id t = i"
      | a where "tr_automation_id t \<noteq> name" "a \<in> set as" "au_id a = tr_automation_id t"
          "au_active_revision_id a = Some (tr_revision_id t)" by blast
    then show "\<exists>a \<in> set ?as. au_id a = tr_automation_id t \<and> au_active_revision_id a = Some (tr_revision_id t)"
    proof cases
      case 1
      from assms(8) obtain a where "a \<in> set as" "au_id a = name" by blast
      with 1 f show ?thesis by (intro bexI[of _ "f a"]) (simp_all add: update_where_hit)
    next
      case 2
      then show ?thesis by (intro bexI[of _ a]) (simp_all add: update_where_miss)
    qed
  qed
  ultimately show ?thesis using assms(1-4) by (simp add: catalogue_ok_iff)
qed

section \<open>The effect of an activation\<close>

lemma finish_deployment_job_Inr:
  assumes "finish_deployment_job amb k did w rid name actor h prov d = Inr d'"
  shows "rows_affected (may_activate did w) (deployments d) = 1"
    and "\<exists>ss as. d' = d\<lparr>deployment_steps := ss, deployments := update_where (may_activate did w)
            (succeeded_deployment amb rid prov) (deployments d), audit_events := audit_events d @ as\<rparr>"
proof -
  define d2 where "d2 = d\<lparr>deployment_steps := update_where
      (\<lambda>s. ds_deployment_id s = did \<and> ds_id s = ''activate'' \<and> ds_status s = DeploymentStepRunning)
      (\<lambda>s. s\<lparr>ds_status := DeploymentStepSucceeded, ds_finished_at := Some (pg_now amb)\<rparr>) (deployment_steps d),
    deployments := update_where (may_activate did w) (succeeded_deployment amb rid prov) (deployments d)\<rparr>"
  from assms have body: "rows_affected (may_activate did w) (deployments d) = 1"
    "\<exists>ds. insertAuditEvent amb k ''deployment.succeeded'' name actor ds d2 = Inr d'"
    unfolding finish_deployment_job_def Let_def guardR_eq_Inr d2_def by auto
  show "rows_affected (may_activate did w) (deployments d) = 1" by (rule body(1))
  from body(2) insertAuditEvent_frame have "\<exists>as. d' = d2\<lparr>audit_events := audit_events d2 @ as\<rparr>" by blast
  then obtain as where "d' = d2\<lparr>audit_events := audit_events d2 @ as\<rparr>" by blast
  then show "\<exists>ss as. d' = d\<lparr>deployment_steps := ss, deployments := update_where (may_activate did w)
            (succeeded_deployment amb rid prov) (deployments d), audit_events := audit_events d @ as\<rparr>"
    by (intro exI[of _ "deployment_steps d2"] exI[of _ as]) (simp add: d2_def)
qed

lemma publish_revision_Inr:
  assumes "publish_revision amb m h loc prov actor did stranded d = Inr d4"
  defines "name \<equiv> md_name (mf_metadata m)" and "rid \<equiv> revision_id_of h"
  obtains d1 rows as where
    "upsert_revision amb rid m h loc prov (upsert_automation amb (mf_metadata m) d) = Inr d1"
    "list_all2 (\<lambda>t row. \<exists>nf. row = trigger_row_of amb name rid t nf) (mf_triggers m) rows"
    "distinct (map (\<lambda>x. (tr_automation_id x, tr_id x)) (triggers d1)) \<Longrightarrow>
      distinct (map (\<lambda>x. (tr_automation_id x, tr_id x)) (other_triggers name d1 @ rows))"
    "\<forall>r \<in> set (SecretReferences m). \<exists>s \<in> set (secrets d1). s_name s = sr_name r"
    "d4 = (set_active_revision amb name rid d1)\<lparr>triggers := other_triggers name d1 @ rows,
       secret_references := filter (\<lambda>x. sx_revision_id x \<noteq> rid) (secret_references d1) @
         map (\<lambda>r. \<lparr>sx_revision_id = rid, sx_secret_name = sr_name r, sx_purpose = sr_purpose r\<rparr>) (SecretReferences m),
       audit_events := audit_events d1 @ as\<rparr>"
proof -
  from assms(1) obtain d1 d2 d3 ds where
    u: "upsert_revision amb rid m h loc prov (upsert_automation amb (mf_metadata m) d) = Inr d1"
    and t: "replaceTriggers amb name rid (mf_triggers m) d1 = Inr d2"
    and x: "replaceSecretReferences rid (SecretReferences m) d2 = Inr d3"
    and a: "insertAuditEvent amb 0 ''automation.deployed'' name actor ds (set_active_revision amb name rid d3) = Inr d4"
    unfolding publish_revision_def Let_def bindR_eq_Inr name_def rid_def revision_id_of_def by blast
  from replaceTriggers_Inr(1)[OF t] obtain rows where
    rows: "d2 = d1\<lparr>triggers := other_triggers name d1 @ rows\<rparr>"
      "list_all2 (\<lambda>t row. \<exists>nf. row = trigger_row_of amb name rid t nf) (mf_triggers m) rows" by blast
  note x' = replaceSecretReferences_Inr[OF x]
  from insertAuditEvent_frame[OF a] obtain as where
    as: "d4 = (set_active_revision amb name rid d3)\<lparr>audit_events := audit_events (set_active_revision amb name rid d3) @ as\<rparr>" ..
  show thesis
  proof (rule that[OF u rows(2)])
    show "distinct (map (\<lambda>x. (tr_automation_id x, tr_id x)) (other_triggers name d1 @ rows))"
      if "distinct (map (\<lambda>x. (tr_automation_id x, tr_id x)) (triggers d1))"
      using replaceTriggers_Inr(2)[OF t that] by (simp add: rows(1))
    show "\<forall>r \<in> set (SecretReferences m). \<exists>s \<in> set (secrets d1). s_name s = sr_name r"
      using x'(2) by (simp add: rows(1))
    show "d4 = (set_active_revision amb name rid d1)\<lparr>triggers := other_triggers name d1 @ rows,
       secret_references := filter (\<lambda>x. sx_revision_id x \<noteq> rid) (secret_references d1) @
         map (\<lambda>r. \<lparr>sx_revision_id = rid, sx_secret_name = sr_name r, sx_purpose = sr_purpose r\<rparr>) (SecretReferences m),
       audit_events := audit_events d1 @ as\<rparr>"
      by (simp add: as x'(1) rows(1) set_active_revision_def)
  qed
qed

lemma deploy_Inr:
  assumes "deploy amb m h path prov actor did w d = (Inr rid, d')"
  defines "name \<equiv> md_name (mf_metadata m)"
  obtains location stranded d4 where
    "rid = revision_id_of h" "valid_deploy_provenance m h prov" "recorded_location amb path = Inr location"
    "guardPendingApprovals amb name rid did d = Inr stranded"
    "publish_revision amb m h location prov actor did stranded d = Inr d4"
    "did = [] \<longrightarrow> d' = d4"
    "did \<noteq> [] \<longrightarrow> finish_deployment_job amb 1 did w rid name actor h prov d4 = Inr d'"
proof -
  from assms(1)[unfolded deploy_def transact_eq_Inr guardR_eq_Inr bindR_eq_Inr Let_def]
  obtain location stranded d4 where
    "valid_deploy_provenance m h prov" "recorded_location amb path = Inr location"
    "guardPendingApprovals amb name (revision_id_of h) did d = Inr stranded"
    "publish_revision amb m h location prov actor did stranded d = Inr d4"
    "(if did = [] then Inr d4 else finish_deployment_job amb 1 did w (revision_id_of h) name actor h prov d4) = Inr d'"
    "rid = revision_id_of h"
    unfolding name_def revision_id_of_def by auto
  then show thesis by (intro that) (auto split: if_splits)
qed

lemma trigger_rows_of:
  "list_all2 (\<lambda>t row. \<exists>nf. row = trigger_row_of amb a v t nf) ts rows \<Longrightarrow>
    (\<forall>row \<in> set rows. tr_automation_id row = a \<and> tr_revision_id row = v) \<and> map tr_id rows = map tg_id ts
    \<and> map tr_type rows = map tg_type ts \<and> map tr_config rows = map tg_config ts \<and> map tr_enabled rows = map IsEnabled ts"
  by (induction ts rows rule: list_all2_induct) (auto simp: trigger_row_of_def)

lemma publish_revision_catalog:
  assumes "catalog_ok d" "publish_revision amb m h loc prov actor did stranded d = Inr d4"
  shows "catalog_ok d4"
  using assms(2)
proof (cases rule: publish_revision_Inr)
  case (1 d1 rows as)
  let ?name = "md_name (mf_metadata m)" and ?rid = "revision_id_of h"
  let ?d0 = "upsert_automation amb (mf_metadata m) d"
  note ua = upsert_automation_facts[where d = d and amb = amb and md = "mf_metadata m"]
  have tables: "revisions ?d0 = revisions d" "triggers ?d0 = triggers d"
    by (subst ua(1), simp)+
  have ok: "distinct (map au_id (automations d))" "distinct (map rv_id (revisions d))"
    "distinct (map (\<lambda>t. (tr_automation_id t, tr_id t)) (triggers d))"
    "\<forall>v \<in> set (revisions d). rv_id v = revision_id_of (rv_content_hash v)"
    and act: "\<forall>a \<in> set (automations d). \<forall>i. au_active_revision_id a = Some i \<longrightarrow>
        (\<exists>v \<in> set (revisions d). rv_id v = i \<and> rv_automation_id v = au_id a)"
    and trg: "\<forall>t \<in> set (triggers d). \<exists>a \<in> set (automations d). au_id a = tr_automation_id t
        \<and> au_active_revision_id a = Some (tr_revision_id t)"
    using catalogue_okD[OF assms(1)] by blast+
  note ur = upsert_revision_Inr[OF 1(1) refl, unfolded tables, OF ok(2,4)]
  from ur(1) have d1: "automations d1 = automations ?d0" "triggers d1 = triggers d" by (auto simp: tables)
  have "catalogue_ok (update_where (\<lambda>a. au_id a = ?name)
      (\<lambda>a. a\<lparr>au_active_revision_id := Some ?rid, au_updated_at := pg_now amb\<rparr>) (automations d1))
      (revisions d1) (other_triggers ?name d1 @ rows)"
  proof (rule catalogue_activate[OF _ ur(2)])
    show "distinct (map au_id (automations d1))" using ua(2) ok(1) d1 by simp
    show "distinct (map (\<lambda>t. (tr_automation_id t, tr_id t)) (other_triggers ?name d1 @ rows))"
      by (rule 1(3)) (simp add: d1 ok(3))
    show "\<exists>v \<in> set (revisions d1). rv_id v = ?rid \<and> rv_automation_id v = ?name"
      using ur(4) by auto
    show "\<forall>a \<in> set (automations d1). au_id a \<noteq> ?name \<longrightarrow> (\<forall>j. au_active_revision_id a = Some j \<longrightarrow>
        (\<exists>v \<in> set (revisions d1). rv_id v = j \<and> rv_automation_id v = au_id a))"
    proof (intro ballI impI allI)
      fix a j assume a: "a \<in> set (automations d1)" "au_id a \<noteq> ?name" "au_active_revision_id a = Some j"
      then have "a \<in> set (automations d)" using ua(4) d1 by simp
      with act a obtain v where v: "v \<in> set (revisions d)" "rv_id v = j" "rv_automation_id v = au_id a" by blast
      with ur(5)[of v] a(2) show "\<exists>v \<in> set (revisions d1). rv_id v = j \<and> rv_automation_id v = au_id a
         " by auto
    qed
    show "\<forall>t \<in> set (other_triggers ?name d1 @ rows). tr_automation_id t = ?name \<and> tr_revision_id t = ?rid
       \<or> tr_automation_id t \<noteq> ?name \<and> (\<exists>a \<in> set (automations d1). au_id a = tr_automation_id t
             \<and> au_active_revision_id a = Some (tr_revision_id t))"
      using trigger_rows_of[OF 1(2)] trg ua(5) d1 by (fastforce simp: other_triggers_def)
    show "\<exists>a \<in> set (automations d1). au_id a = ?name" using ua(3) d1 by simp
  qed (use ur(3) in simp_all)
  then show ?thesis by (simp add: 1(5) set_active_revision_def)
qed

lemma publish_revision_frame:
  assumes "publish_revision amb m h loc prov actor did stranded d = Inr d4"
  shows "\<exists>as vs ts xs au. d4 = d\<lparr>automations := as, revisions := vs, triggers := ts,
    secret_references := xs, audit_events := audit_events d @ au\<rparr>"
  using assms
proof (cases rule: publish_revision_Inr)
  case (1 d1 rows as)
  obtain au where au: "upsert_automation amb (mf_metadata m) d = d\<lparr>automations := au\<rparr>"
    using upsert_automation_facts(1) by blast
  obtain vs where vs: "d1 = d\<lparr>automations := au, revisions := vs\<rparr>"
    using 1(1) unfolding upsert_revision_def Let_def au
    by (auto simp: guardR_eq_Inr split: if_splits)
  show ?thesis
    by (rule exI[of _ "automations d4"], rule exI[of _ "revisions d4"], rule exI[of _ "triggers d4"],
        rule exI[of _ "secret_references d4"], rule exI[of _ as])
      (simp add: 1(5) vs set_active_revision_def)
qed

lemma deploy_tables:
  assumes "deploy amb m h path prov actor did w d = (Inr rid, d')"
  shows "events d' = events d" "runs d' = runs d" "approvals d' = approvals d"
    "secrets d' = secrets d" "automation_state d' = automation_state d"
    "notification_events d' = notification_events d" "notification_deliveries d' = notification_deliveries d"
    "retention_plans d' = retention_plans d" "retention_items d' = retention_items d"
    "investigations d' = investigations d" "investigation_versions d' = investigation_versions d"
proof -
  from assms obtain location stranded d4 where
    p: "publish_revision amb m h location prov actor did stranded d = Inr d4"
    and f: "did = [] \<longrightarrow> d' = d4"
      "did \<noteq> [] \<longrightarrow> finish_deployment_job amb 1 did w rid (md_name (mf_metadata m)) actor h prov d4 = Inr d'"
    by (rule deploy_Inr) blast
  from publish_revision_frame[OF p] obtain as vs ts xs au where
    d4: "d4 = d\<lparr>automations := as, revisions := vs, triggers := ts, secret_references := xs,
      audit_events := audit_events d @ au\<rparr>" by blast
  have "\<exists>ss ds zs. d' = d4\<lparr>deployment_steps := ss, deployments := ds, audit_events := zs\<rparr>"
  proof (cases "did = []")
    case True
    then have "d' = d4\<lparr>deployment_steps := deployment_steps d4, deployments := deployments d4,
        audit_events := audit_events d4\<rparr>" using f(1) by simp
    then show ?thesis by blast
  next
    case False
    from finish_deployment_job_Inr(2)[OF f(2)[rule_format, OF this]] show ?thesis by blast
  qed
  then obtain ss ds zs where d': "d' = d4\<lparr>deployment_steps := ss, deployments := ds, audit_events := zs\<rparr>" by blast
  show "events d' = events d" "runs d' = runs d" "approvals d' = approvals d"
    "secrets d' = secrets d" "automation_state d' = automation_state d"
    "notification_events d' = notification_events d" "notification_deliveries d' = notification_deliveries d"
    "retention_plans d' = retention_plans d" "retention_items d' = retention_items d"
    "investigations d' = investigations d" "investigation_versions d' = investigation_versions d"
    by (simp_all add: d' d4)
qed

lemma deploy_catalog:
  assumes "deploy amb m h path prov actor did w d = (res, d')" "catalog_ok d"
  shows "catalog_ok d'"
proof (cases res)
  case (Inl e)
  with assms show ?thesis by (simp add: deploy_def transact_eq_Inl)
next
  case (Inr rid)
  from assms(1)[unfolded Inr] obtain location stranded d4 where
    p: "recorded_location amb path = Inr location" "publish_revision amb m h location prov actor did stranded d = Inr d4"
    and f: "did = [] \<longrightarrow> d' = d4"
      "did \<noteq> [] \<longrightarrow> finish_deployment_job amb 1 did w rid (md_name (mf_metadata m)) actor h prov d4 = Inr d'"
    by (rule deploy_Inr) blast
  have d4: "catalog_ok d4"
    by (rule publish_revision_catalog[OF assms(2) p(2)])
  show ?thesis
  proof (cases "did = []")
    case True
    with f d4 show ?thesis by simp
  next
    case False
    from finish_deployment_job_Inr(2)[OF f(2)[rule_format, OF this]] d4 show ?thesis by auto
  qed
qed

section \<open>Rollback, pause and adoption\<close>

lemma RollbackAutomation_Inr:
  assumes "RollbackAutomation amb a i actor d = (Inr changed, d')"
  obtains (noop) x v where "\<not> changed" "d' = d" "automation_by_id d a = Some x" "au_active_revision_id x = Some i \<or> i = []"
      "v \<in> set (revisions d)" "rv_id v = i" "rv_automation_id v = a" "rv_artifact_path v \<noteq> []"
  | (moved) x v rows as where "changed" "automation_by_id d a = Some x" "au_active_revision_id x \<noteq> Some i"
      "v \<in> set (revisions d)" "rv_id v = i" "rv_automation_id v = a" "rv_artifact_path v \<noteq> []"
      "list_all2 (\<lambda>t row. \<exists>nf. row = trigger_row_of amb a i t nf) (mf_triggers (rv_manifest v)) rows"
      "distinct (map (\<lambda>x. (tr_automation_id x, tr_id x)) (triggers d)) \<Longrightarrow>
        distinct (map (\<lambda>x. (tr_automation_id x, tr_id x)) (other_triggers a d @ rows))"
      "d' = (set_active_revision amb a i d)\<lparr>triggers := other_triggers a d @ rows, audit_events := audit_events d @ as\<rparr>"
proof -
  note body = assms[unfolded RollbackAutomation_def transact_eq_Inr Let_def]
  from body obtain x where x: "automation_by_id d a = Some x" by (auto split: option.splits)
  with body obtain v where
    v: "find (\<lambda>v. rv_id v = i \<and> rv_automation_id v = a) (revisions d) = Some v" by (auto split: option.splits)
  note v' = find_eq_SomeD[OF v]
  let ?cur = "case au_active_revision_id x of None \<Rightarrow> [] | Some v \<Rightarrow> v"
  note chain = body[unfolded x v option.case guardR_eq_Inr]
  show thesis
  proof (cases "?cur = i")
    case True
    show ?thesis
      by (rule noop[of x v]) (use True chain x v' in \<open>auto split: option.splits\<close>)
  next
    case False
    with chain obtain d1 d2 ds where t: "replaceTriggers amb a i (mf_triggers (rv_manifest v)) d = Inr d1"
      and au: "insertAuditEvent amb 0 ''automation.rolled_back'' a actor ds (set_active_revision amb a i d1) = Inr d2"
      and r: "changed" "d' = d2" "rv_artifact_path v \<noteq> []"
      by (auto simp: bindR_eq_Inr)
    from replaceTriggers_Inr(1)[OF t] obtain rows where rows: "d1 = d\<lparr>triggers := other_triggers a d @ rows\<rparr>"
      "list_all2 (\<lambda>t row. \<exists>nf. row = trigger_row_of amb a i t nf) (mf_triggers (rv_manifest v)) rows" by blast
    from insertAuditEvent_frame[OF au] obtain as where
      as: "d2 = (set_active_revision amb a i d1)\<lparr>audit_events := audit_events (set_active_revision amb a i d1) @ as\<rparr>" ..
    show ?thesis
    proof (rule moved[where as = as, OF r(1) x _ _ _ _ r(3) rows(2)])
      show "distinct (map (\<lambda>x. (tr_automation_id x, tr_id x)) (other_triggers a d @ rows))"
        if "distinct (map (\<lambda>x. (tr_automation_id x, tr_id x)) (triggers d))"
        using replaceTriggers_Inr(2)[OF t that] by (simp add: rows(1))
    qed (use False v' r(2) as rows(1) in \<open>auto simp: set_active_revision_def\<close>)
  qed
qed

lemma RollbackAutomation_catalog:
  assumes "RollbackAutomation amb a i actor d = (res, d')" "catalog_ok d"
  shows "catalog_ok d'"
proof (cases res)
  case (Inl e)
  with assms show ?thesis by (simp add: RollbackAutomation_def transact_eq_Inl)
next
  case (Inr changed)
  from assms(1)[unfolded Inr] show ?thesis
  proof (cases rule: RollbackAutomation_Inr)
    case noop
    with assms(2) show ?thesis by simp
  next
    case (moved x v rows as)
    have "catalogue_ok (update_where (\<lambda>y. au_id y = a)
      (\<lambda>y. y\<lparr>au_active_revision_id := Some i, au_updated_at := pg_now amb\<rparr>) (automations d))
      (revisions d) (other_triggers a d @ rows)"
    proof (rule catalogue_activate[OF catalogue_okD(1,2)[OF assms(2)] _ catalogue_okD(4)[OF assms(2)]])
      show "\<forall>y \<in> set (automations d). au_id y \<noteq> a \<longrightarrow> (\<forall>j. au_active_revision_id y = Some j \<longrightarrow>
          (\<exists>v \<in> set (revisions d). rv_id v = j \<and> rv_automation_id v = au_id y))"
        using catalogue_okD(5)[OF assms(2)] by blast
      show "\<exists>v \<in> set (revisions d). rv_id v = i \<and> rv_automation_id v = a"
        using moved(4-7) by blast
      show "\<exists>y \<in> set (automations d). au_id y = a"
        using automation_table.lookup_SomeD[OF moved(2)] by blast
      show "\<forall>t \<in> set (other_triggers a d @ rows). tr_automation_id t = a \<and> tr_revision_id t = i
         \<or> tr_automation_id t \<noteq> a \<and> (\<exists>y \<in> set (automations d). au_id y = tr_automation_id t
             \<and> au_active_revision_id y = Some (tr_revision_id t))"
        using assms(2) trigger_rows_of[OF moved(8)] by (auto simp: other_triggers_def catalogue_ok_iff)
      show "distinct (map (\<lambda>t. (tr_automation_id t, tr_id t)) (other_triggers a d @ rows))"
        by (rule moved(9)) (use assms(2) in \<open>simp add: catalogue_ok_iff\<close>)
    qed simp_all
    then show ?thesis by (simp add: moved(10) set_active_revision_def)
  qed
qed

text \<open>The catalogue invariant depends on a few columns only.\<close>

abbreviation automation_core where "automation_core a \<equiv> (au_id a, au_active_revision_id a)"
abbreviation revision_core where
  "revision_core v \<equiv> (rv_id v, rv_automation_id v, rv_content_hash v, rv_artifact_path v)"
abbreviation trigger_core where "trigger_core t \<equiv> ((tr_automation_id t, tr_id t), tr_revision_id t)"

lemma catalogue_core:
  "catalogue_ok as vs ts \<longleftrightarrow>
    (let A = map automation_core as; V = map revision_core vs; T = map trigger_core ts in
     distinct (map fst A) \<and> distinct (map fst V) \<and> distinct (map fst T)
     \<and> (\<forall>(i, a, h, p) \<in> set V. i = revision_id_of h)
     \<and> (\<forall>(a, r) \<in> set A. \<forall>i. r = Some i \<longrightarrow> (\<exists>(j, b, h, p) \<in> set V. j = i \<and> b = a))
     \<and> (\<forall>((a, t), v) \<in> set T. \<exists>(b, r) \<in> set A. b = a \<and> r = Some v))"
  by (simp add: catalogue_ok_iff Let_def comp_def)

lemma catalogue_update:
  assumes "catalogue_ok as vs ts" "map automation_core as' = map automation_core as"
    "map revision_core vs' = map revision_core vs" "map trigger_core ts' = map trigger_core ts"
  shows "catalogue_ok as' vs' ts'"
  using assms(1) unfolding catalogue_core assms(2-4) .

lemma set_next_fire_core: "map trigger_core (triggers (set_next_fire amb a t fa d)) = map trigger_core (triggers d)"
  by (simp add: set_next_fire_def map_update_where)

lemma set_next_fire_other:
  "set_next_fire amb a t fa d = d\<lparr>triggers := triggers (set_next_fire amb a t fa d)\<rparr>"
  by (simp add: set_next_fire_def)

lemma fire_schedules_catalog:
  assumes "foldR (fire_schedule amb) items (n, d) = Inr (n', d')"
  shows "automations d' = automations d \<and> revisions d' = revisions d \<and> deployments d' = deployments d
    \<and> approvals d' = approvals d \<and> secrets d' = secrets d \<and> secret_references d' = secret_references d
    \<and> map trigger_core (triggers d') = map trigger_core (triggers d)"
  using assms
proof (induction items arbitrary: n d)
  case (Cons x items)
  then obtain m dm where m: "fire_schedule amb x (n, d) = Inr (m, dm)"
      "foldR (fire_schedule amb) items (m, dm) = Inr (n', d')"
    by (auto simp: bindR_eq_Inr)
  obtain i t where x: "x = (i, t)" by (cases x)
  from m(1) obtain a k ty ext oc dt me fa tr res where
    "enqueueEvent amb k a tr ty ext oc dt me (set_next_fire amb (tr_automation_id t) (tr_id t) fa d) = Inr (res, dm)"
    unfolding fire_schedule_def x prod.case Let_def bindR_eq_Inr by (auto split: if_splits)
  from enqueueEvent_ok(3)[OF this] obtain es rs where
    dm: "dm = (set_next_fire amb (tr_automation_id t) (tr_id t) fa d)\<lparr>
      events := events (set_next_fire amb (tr_automation_id t) (tr_id t) fa d) @ es,
      runs := runs (set_next_fire amb (tr_automation_id t) (tr_id t) fa d) @ rs\<rparr>" by blast
  from Cons.IH[OF m(2)] show ?case
    using set_next_fire_core[of amb "tr_automation_id t" "tr_id t" fa d]
    by (simp add: dm) (simp add: set_next_fire_def)
qed simp

lemma EnqueueDueSchedules_catalog:
  assumes "EnqueueDueSchedules amb now limit d = (res, d')"
  shows "automations d' = automations d \<and> revisions d' = revisions d \<and> deployments d' = deployments d
    \<and> approvals d' = approvals d \<and> secrets d' = secrets d \<and> secret_references d' = secret_references d
    \<and> map trigger_core (triggers d') = map trigger_core (triggers d)"
proof (cases res)
  case (Inl e)
  with assms show ?thesis by (simp add: EnqueueDueSchedules_def transact_eq_Inl)
next
  case (Inr n)
  with assms fire_schedules_catalog show ?thesis
    by (simp add: EnqueueDueSchedules_def transact_eq_Inr Let_def)
qed

lemma reschedule_all:
  assumes "foldR (reschedule amb a) ts d = Inr d'"
  shows "\<exists>tt. d' = d\<lparr>triggers := tt\<rparr> \<and> map trigger_core tt = map trigger_core (triggers d)"
  using assms
proof (induction ts arbitrary: d)
  case Nil
  then show ?case by (intro exI[of _ "triggers d"]) simp
next
  case (Cons t ts)
  from Cons.prems obtain d1 where d1: "reschedule amb a t d = Inr d1" "foldR (reschedule amb a) ts d1 = Inr d'"
    by (auto simp: bindR_eq_Inr)
  from d1(1) obtain fa where "d1 = set_next_fire amb a (tr_id t) fa d"
    by (auto simp: reschedule_def bindR_eq_Inr)
  with d1(2) have "foldR (reschedule amb a) ts (set_next_fire amb a (tr_id t) fa d) = Inr d'" by simp
  from Cons.IH[OF this] obtain tt where
    "d' = (set_next_fire amb a (tr_id t) fa d)\<lparr>triggers := tt\<rparr>"
    "map trigger_core tt = map trigger_core (triggers (set_next_fire amb a (tr_id t) fa d))" by blast
  then show ?case
    unfolding set_next_fire_core by (intro exI[of _ tt]) (simp add: set_next_fire_def)
qed

lemma SetAutomationEnabled_Inr:
  assumes "SetAutomationEnabled amb a en actor d = (Inr changed, d')"
  shows "\<exists>as tt au. d' = d\<lparr>automations := as, triggers := tt, audit_events := audit_events d @ au\<rparr>
    \<and> map automation_core as = map automation_core (automations d)
    \<and> map trigger_core tt = map trigger_core (triggers d)
    \<and> (\<exists>x. automation_by_id d a = Some x \<and> changed = (au_enabled x \<noteq> en))
    \<and> (\<forall>y \<in> set as. au_id y = a \<longrightarrow> changed \<longrightarrow> au_enabled y = en)"
proof -
  note body = assms[unfolded SetAutomationEnabled_def transact_eq_Inr Let_def]
  from body obtain x where x: "automation_by_id d a = Some x" by (auto split: option.splits)
  show ?thesis
  proof (cases "au_enabled x = en")
    case True
    then have "d' = d\<lparr>automations := automations d, triggers := triggers d, audit_events := audit_events d @ []\<rparr>"
      "\<not> changed" using body x by auto
    with x True show ?thesis by blast
  next
    case False
    let ?f = "\<lambda>x. x\<lparr>au_enabled := en, au_updated_at := pg_now amb\<rparr>"
    define as where "as = update_where (\<lambda>x. au_id x = a) ?f (automations d)"
    define ts where "ts = filter (\<lambda>t. tr_automation_id t = a \<and> tr_type t = ''schedule'' \<and> tr_enabled t) (triggers d)"
    from body[unfolded x option.case] False obtain d2 where
      d2: "(if en then foldR (reschedule amb a) ts (d\<lparr>automations := as\<rparr>) else Inr (d\<lparr>automations := as\<rparr>)) = Inr d2"
      and d3: "insertAuditEvent amb 0 (if en then ''automation.resumed'' else ''automation.paused'')
        a actor [(''enabled'', DBool en)] d2 = Inr d'" "changed"
      unfolding if_not_P[OF False] bindR_eq_Inr by (auto simp: as_def ts_def)
    have "\<exists>tt. d2 = d\<lparr>automations := as, triggers := tt\<rparr> \<and> map trigger_core tt = map trigger_core (triggers d)"
    proof (cases en)
      case True
      with d2 reschedule_all[of amb a ts "d\<lparr>automations := as\<rparr>" d2] show ?thesis by simp
    next
      case False
      with d2 have "d2 = d\<lparr>automations := as, triggers := triggers d\<rparr>" by auto
      then show ?thesis by blast
    qed
    then obtain tt where tt: "d2 = d\<lparr>automations := as, triggers := tt\<rparr>"
      "map trigger_core tt = map trigger_core (triggers d)" by blast
    from insertAuditEvent_frame[OF d3(1)] obtain au where "d' = d2\<lparr>audit_events := audit_events d2 @ au\<rparr>" ..
    then have "d' = d\<lparr>automations := as, triggers := tt, audit_events := audit_events d @ au\<rparr>"
      using tt(1) by simp
    moreover have "map automation_core as = map automation_core (automations d)"
      by (simp add: as_def map_update_where)
    moreover have "\<forall>y \<in> set as. au_id y = a \<longrightarrow> changed \<longrightarrow> au_enabled y = en"
    proof (intro ballI impI)
      fix y assume "y \<in> set as" "au_id y = a"
      from this(1)[unfolded as_def] show "au_enabled y = en"
        by (cases rule: update_whereE) (use \<open>au_id y = a\<close> in simp_all)
    qed
    ultimately show ?thesis using x False d3(2) tt(2) by blast
  qed
qed

lemma AdoptRevisionProvenance_ok:
  assumes "AdoptRevisionProvenance amb a i prov d = (res, d')"
  shows "\<exists>vs ds au. d' = d\<lparr>revisions := vs, deployments := ds, audit_events := audit_events d @ au\<rparr>
    \<and> map revision_core vs = map revision_core (revisions d)
    \<and> (ds = deployments d \<or> ds = update_where (\<lambda>x. dp_revision_id x = Some i) (\<lambda>x. x\<lparr>dp_provenance := Some prov\<rparr>) (deployments d))"
proof -
  let ?hit = "\<lambda>v. rv_automation_id v = a \<and> rv_id v = i \<and> rv_provenance v = None"
  let ?vs = "update_where ?hit (\<lambda>v. v\<lparr>rv_provenance := Some prov\<rparr>) (revisions d)"
  let ?ds = "update_where (\<lambda>x. dp_revision_id x = Some i) (\<lambda>x. x\<lparr>dp_provenance := Some prov\<rparr>) (deployments d)"
  have vs: "map revision_core ?vs = map revision_core (revisions d)" by (simp add: map_update_where)
  from assms consider "d' = d" | "\<exists>ds. insertAuditEvent amb 0 ''artifact.adopted'' a ''system:upgrade'' ds
      (d\<lparr>revisions := ?vs, deployments := ?ds\<rparr>) = Inr d'"
    unfolding AdoptRevisionProvenance_def
    by (cases res) (auto simp: transact_eq_Inl transact_eq_Inr Let_def bindR_eq_Inr split: if_splits)
  then show ?thesis
  proof cases
    case 1
    then have "d' = d\<lparr>revisions := revisions d, deployments := deployments d, audit_events := audit_events d @ []\<rparr>"
      by simp
    then show ?thesis by blast
  next
    case 2
    then obtain au where "d' = d\<lparr>revisions := ?vs, deployments := ?ds, audit_events := audit_events d @ au\<rparr>"
      using insertAuditEvent_frame by fastforce
    with vs show ?thesis by blast
  qed
qed

section \<open>The deployment table\<close>

definition deployment_ok :: "deployment_row \<Rightarrow> bool" where
  "deployment_ok x =
     ((in_progress (dp_status x) \<longleftrightarrow> dp_lease_owner x \<noteq> None)
      \<and> (dp_lease_owner x = None \<longleftrightarrow> dp_lease_expires_at x = None)
      \<and> (terminal_deployment (dp_status x) \<longrightarrow> dp_finished_at x \<noteq> None)
      \<and> (dp_status x = DeploymentQueued \<longrightarrow> dp_cancel_requested_at x = None)
      \<and> (dp_status x = DeploymentSucceeded \<longrightarrow> dp_revision_id x \<noteq> None \<and> dp_cancel_requested_at x = None))"

definition deployments_ok :: "deployment_row list \<Rightarrow> bool" where
  "deployments_ok t =
     (distinct (map dp_id t) \<and> distinct (map dp_idempotency_key t) \<and> (\<forall>x \<in> set t. deployment_ok x))"

lemma deployments_update:
  assumes "deployments_ok t"
    and "\<And>x. x \<in> set t \<Longrightarrow> P x \<Longrightarrow> deployment_ok x \<Longrightarrow>
      dp_id (f x) = dp_id x \<and> dp_idempotency_key (f x) = dp_idempotency_key x \<and> deployment_ok (f x)"
  shows "deployments_ok (update_where P f t)"
proof -
  have "\<forall>x \<in> set t. deployment_ok x" using assms(1) by (simp add: deployments_ok_def)
  then have "map dp_id (update_where P f t) = map dp_id t"
    "map dp_idempotency_key (update_where P f t) = map dp_idempotency_key t"
    "\<forall>x \<in> set (update_where P f t). deployment_ok x"
    using assms(2) by (auto intro!: map_update_where simp: set_update_where)
  with assms(1) show ?thesis by (simp add: deployments_ok_def)
qed

text \<open>
  What every operation does to the table of jobs: it keeps the invariant, and a job whose
  cancellation was requested stays in the table with the request.
\<close>

definition cancels_kept :: "deployment_row list \<Rightarrow> deployment_row list \<Rightarrow> bool" where
  "cancels_kept t t' = (\<forall>x \<in> set t. dp_cancel_requested_at x \<noteq> None \<longrightarrow>
     (\<exists>y \<in> set t'. dp_id y = dp_id x \<and> dp_cancel_requested_at y \<noteq> None))"

definition jobs_follow :: "deployment_row list \<Rightarrow> deployment_row list \<Rightarrow> bool" where
  "jobs_follow t t' = ((deployments_ok t \<longrightarrow> deployments_ok t') \<and> cancels_kept t t')"

lemma cancels_kept_refl: "cancels_kept t t" "cancels_kept t (t @ xs)"
  by (auto simp: cancels_kept_def)

lemma cancels_kept_trans: "cancels_kept t t1 \<Longrightarrow> cancels_kept t1 t2 \<Longrightarrow> cancels_kept t t2"
  unfolding cancels_kept_def by metis

lemma cancels_kept_update:
  assumes "\<And>x. P x \<Longrightarrow> dp_id (f x) = dp_id x" "\<And>x. P x \<Longrightarrow> dp_cancel_requested_at x \<noteq> None \<Longrightarrow> dp_cancel_requested_at (f x) \<noteq> None"
  shows "cancels_kept t (update_where P f t)"
  unfolding cancels_kept_def
proof (intro ballI impI)
  fix x assume x: "x \<in> set t" "dp_cancel_requested_at x \<noteq> None"
  show "\<exists>y \<in> set (update_where P f t). dp_id y = dp_id x \<and> dp_cancel_requested_at y \<noteq> None"
  proof (cases "P x")
    case True
    with x assms update_where_hit[of x t P f] show ?thesis by (intro bexI[of _ "f x"]) simp_all
  next
    case False
    with x update_where_miss[of x t P f] show ?thesis by (intro bexI[of _ x]) simp_all
  qed
qed

lemma jobs_follow_refl: "jobs_follow t t"
  by (simp add: jobs_follow_def cancels_kept_refl)

lemma jobs_follow_trans: "jobs_follow t t1 \<Longrightarrow> jobs_follow t1 t2 \<Longrightarrow> jobs_follow t t2"
  using cancels_kept_trans by (auto simp: jobs_follow_def)

lemmas deployment_status_defs = in_progress_def terminal_deployment_def drives_deployment_def
  owns_deployment_def may_activate_def

lemma insert_deployment_ok:
  assumes "insert_deployment x d = Inr (n, d')" "deployments_ok (deployments d)" "deployment_ok x"
  shows "deployments_ok (deployments d')"
proof (cases "conflicts dp_idempotency_key x (deployments d)")
  case False
  with assms(1) have "\<not> conflicts dp_id x (deployments d)" "deployments d' = deployments d @ [x]"
    by (auto simp: insert_deployment_def guardR_eq_Inr)
  with False assms(2,3) show ?thesis unfolding conflicts_def deployments_ok_def by force
qed (use assms in \<open>auto simp: insert_deployment_def\<close>)

lemma insert_deployment_follow:
  assumes "insert_deployment x d = Inr (n, d')" "deployment_ok x"
  shows "jobs_follow (deployments d) (deployments d')"
proof -
  have "deployments d' = deployments d \<or> deployments d' = deployments d @ [x]"
    using assms(1) by (auto simp: insert_deployment_def guardR_eq_Inr split: if_splits)
  then show ?thesis using insert_deployment_ok[OF assms(1) _ assms(2)] by (auto simp: jobs_follow_def cancels_kept_refl)
qed

lemma new_deployment_ok: "deployment_ok (new_deployment amb i k p c s a r st)"
  by (simp add: deployment_ok_def new_deployment_def deployment_status_defs)

lemma deploymentContentDigest_ok:
  assumes "deploymentContentDigest dg amb k d = (res, d')"
  shows "\<exists>t. d' = d\<lparr>deployments := t\<rparr> \<and> jobs_follow (deployments d) t
    \<and> map dp_id t = map dp_id (deployments d)"
proof -
  let ?t = "\<lambda>digest. update_where (\<lambda>y. dp_idempotency_key y = k \<and> dp_content_digest y = [])
     (\<lambda>y. y\<lparr>dp_content_digest := digest\<rparr>) (deployments d)"
  have t: "jobs_follow (deployments d) (?t digest)" "map dp_id (?t digest) = map dp_id (deployments d)" for digest
    unfolding jobs_follow_def
    by (intro conjI impI deployments_update cancels_kept_update) (auto simp: deployment_ok_def map_update_where)
  have same: "\<exists>t. d = d\<lparr>deployments := t\<rparr> \<and> jobs_follow (deployments d) t
    \<and> map dp_id t = map dp_id (deployments d)" by (intro exI[of _ "deployments d"]) (simp add: jobs_follow_refl)
  show ?thesis
  proof (cases "deployment_by_key d k")
    case None
    with assms same show ?thesis by (simp add: deploymentContentDigest_def)
  next
    case (Some x)
    show ?thesis
    proof (cases "dp_content_digest x = [] \<and> dp_source_path x \<noteq> []")
      case False
      with assms Some same show ?thesis by (auto simp: deploymentContentDigest_def split: if_splits)
    next
      case True
      note body = assms[unfolded deploymentContentDigest_def Some option.case]
      show ?thesis
      proof (cases "resolved_location amb (dp_source_path x)")
        case (Inl e)
        with body same True show ?thesis by auto
      next
        case (Inr p)
        show ?thesis
        proof (cases "dg p")
          case None
          with body Inr same True show ?thesis by auto
        next
          case (Some digest)
          with body Inr True have "d' = d\<lparr>deployments := ?t digest\<rparr>" by simp
          with t show ?thesis by blast
        qed
      qed
    qed
  qed
qed

lemma CreateDeployment_ok:
  assumes "CreateDeployment dg amb i k pd cd src actor d = (res, d')"
  shows "\<exists>t. d' = d\<lparr>deployments := t\<rparr> \<and> jobs_follow (deployments d) t"
proof -
  have same: "\<exists>t. d = d\<lparr>deployments := t\<rparr> \<and> jobs_follow (deployments d) t"
    by (intro exI[of _ "deployments d"]) (simp add: jobs_follow_refl)
  show ?thesis
  proof (cases "recorded_location amb src")
    case (Inl e)
    with assms same show ?thesis by (simp add: CreateDeployment_def)
  next
    case (Inr loc)
    let ?x = "new_deployment amb i k pd cd loc actor None False"
    show ?thesis
    proof (cases "insert_deployment ?x d")
      case (Inl e)
      with assms same \<open>recorded_location amb src = Inr loc\<close> show ?thesis by (simp add: CreateDeployment_def)
    next
      case ins: (Inr nd)
      obtain n d1 where nd: "nd = (n, d1)" by (cases nd)
      have d1: "\<exists>t. d1 = d\<lparr>deployments := t\<rparr>" "jobs_follow (deployments d) (deployments d1)"
        using ins nd insert_deployment_follow[OF ins[unfolded nd] new_deployment_ok]
        by (auto simp: insert_deployment_def guardR_eq_Inr split: if_splits intro: exI[of _ "deployments d"])
      obtain r2 d2 where d2: "deploymentContentDigest dg amb k d1 = (r2, d2)" by (cases "deploymentContentDigest dg amb k d1")
      have "d' = d1 \<or> d' = d2"
        using assms Inr ins nd d2
        by (auto simp: CreateDeployment_def split: sum.splits if_splits option.splits)
      with d1 deploymentContentDigest_ok[OF d2] show ?thesis by (auto intro: jobs_follow_trans)
    qed
  qed
qed

lemma RetryDeployment_ok:
  assumes "RetryDeployment isDir amb orig i k actor strand d = (res, d')"
  shows "\<exists>t. d' = d\<lparr>deployments := t\<rparr> \<and> jobs_follow (deployments d) t"
proof -
  have "d' = d \<or> (\<exists>n pd cd src. insert_deployment (new_deployment amb i k pd cd src actor (Some orig) strand) d = Inr (n, d'))"
    using assms unfolding RetryDeployment_def
    by (auto split: option.splits sum.splits if_splits prod.splits)
  then show ?thesis
  proof
    assume "d' = d"
    then have "d' = d\<lparr>deployments := deployments d\<rparr>" by simp
    then show ?thesis using jobs_follow_refl by blast
  next
    assume "\<exists>n pd cd src. insert_deployment (new_deployment amb i k pd cd src actor (Some orig) strand) d = Inr (n, d')"
    then obtain n pd cd src where
      ins: "insert_deployment (new_deployment amb i k pd cd src actor (Some orig) strand) d = Inr (n, d')" by blast
    then have "\<exists>t. d' = d\<lparr>deployments := t\<rparr>"
      by (auto simp: insert_deployment_def guardR_eq_Inr split: if_splits intro: exI[of _ "deployments d"])
    with insert_deployment_follow[OF ins new_deployment_ok] show ?thesis by auto
  qed
qed

lemma AcquireDeployment_ok:
  assumes "AcquireDeployment amb w l d = (res, d')"
  shows "\<exists>t. d' = d\<lparr>deployments := t\<rparr> \<and> jobs_follow (deployments d) t"
proof (cases "select_first dp_created_at (deployment_candidate amb) (deployments d)")
  case None
  with assms have "d' = d\<lparr>deployments := deployments d\<rparr>" by (simp add: AcquireDeployment_def)
  then show ?thesis using jobs_follow_refl by blast
next
  case (Some c)
  let ?t = "update_where (\<lambda>y. dp_id y = dp_id c) (claim_deployment amb w l) (deployments d)"
  have d': "d' = d\<lparr>deployments := ?t\<rparr>"
    using assms Some by (auto simp: AcquireDeployment_def Let_def split: sum.splits)
  note c = select_first_Some(1,2)[OF Some]
  have "deployments_ok ?t" if ok: "deployments_ok (deployments d)"
  proof (rule deployments_update[OF ok])
    fix x assume x: "x \<in> set (deployments d)" "dp_id x = dp_id c" "deployment_ok x"
    then have "x = c" using c(1) ok by (auto simp: deployments_ok_def distinct_map inj_on_def)
    then show "dp_id (claim_deployment amb w l x) = dp_id x
        \<and> dp_idempotency_key (claim_deployment amb w l x) = dp_idempotency_key x
        \<and> deployment_ok (claim_deployment amb w l x)"
      using x(3) c(2) by (auto simp: deployment_ok_def claim_deployment_def deployment_candidate_def deployment_status_defs)
  qed
  moreover have "cancels_kept (deployments d) ?t" by (rule cancels_kept_update) (simp_all add: claim_deployment_def)
  ultimately show ?thesis using d' unfolding jobs_follow_def by blast
qed

text \<open>The writes a worker makes to the job it holds.\<close>

datatype deployment_write = RenewJob ambient duration
  | StageJob ambient deployment_status string string
  | StepJob ambient deployment_step_update
  | CancelJob ambient
  | FailJob ambient string
  | ActivateJob ambient manifest string string artifact_provenance string

fun write_deployment :: "deployment_write \<Rightarrow> string \<Rightarrow> string \<Rightarrow> db \<Rightarrow> bool \<times> db" where
  "write_deployment (RenewJob amb l) w k d =
     (case RenewDeploymentLease amb k w l d of (res, d') \<Rightarrow> (res = Inr True, d'))"
| "write_deployment (StageJob amb st a h) w k d =
     (case SetDeploymentStage amb k w st a h d of (res, d') \<Rightarrow> (is_ok res, d'))"
| "write_deployment (StepJob amb u) w k d =
     (case RecordDeploymentStep amb k w u d of (res, d') \<Rightarrow> (is_ok res, d'))"
| "write_deployment (CancelJob amb) w k d =
     (case CompleteDeploymentCancellation amb k w d of (res, d') \<Rightarrow> (is_ok res, d'))"
| "write_deployment (FailJob amb msg) w k d =
     (case FailDeployment amb k w msg d of (res, d') \<Rightarrow> (is_ok res, d'))"
| "write_deployment (ActivateJob amb m h path prov actor) w k d =
     (case ActivateDeployment amb k w m h path prov actor d of (res, d') \<Rightarrow> (is_ok res, d'))"

definition deployment_held :: "db \<Rightarrow> string \<Rightarrow> string \<Rightarrow> bool" where
  "deployment_held d k w = (\<exists>x \<in> set (deployments d). owns_deployment k w x)"

lemma publish_keeps_deployments:
  "publish_revision amb m h loc prov actor did stranded d = Inr d4 \<Longrightarrow> deployments d4 = deployments d"
  by (auto dest!: publish_revision_frame)

lemma unheld_activation:
  assumes "\<not> deployment_held d k w" "k \<noteq> []"
  shows "\<exists>e. deploy amb m h path prov actor k w d = (Inl e, d)"
proof (cases "deploy amb m h path prov actor k w d")
  case (Pair res d')
  show ?thesis
  proof (cases res)
    case (Inl e)
    with Pair show ?thesis by (simp add: deploy_def transact_eq_Inl)
  next
    case (Inr rid)
    from Pair[unfolded Inr] obtain location stranded d4 where
      p: "publish_revision amb m h location prov actor k stranded d = Inr d4"
      and f: "k \<noteq> [] \<longrightarrow> finish_deployment_job amb 1 k w rid (md_name (mf_metadata m)) actor h prov d4 = Inr d'"
      by (rule deploy_Inr) blast
    from finish_deployment_job_Inr(1)[OF f[rule_format, OF assms(2)]] have
      "\<exists>x \<in> set (deployments d). may_activate k w x"
      using rows_affected_pos[of "may_activate k w" "deployments d"] publish_keeps_deployments[OF p] by auto
    with assms(1) show ?thesis by (auto simp: deployment_held_def deployment_status_defs)
  qed
qed

interpretation deployment_lease: lease_queue "\<lambda>d. deployments_ok (deployments d)" "\<lambda>k. k \<noteq> []"
  deployment_held write_deployment
proof
  fix k d w p
  assume k: "k \<noteq> ([] :: string)" and nh: "\<not> deployment_held d k w"
  then have none: "\<And>Q. rows_affected (\<lambda>x. owns_deployment k w x \<and> Q x) (deployments d) = 0"
    "\<And>Q f. update_where (\<lambda>x. owns_deployment k w x \<and> Q x) f (deployments d) = deployments d"
    "\<not> list_ex (owns_deployment k w) (deployments d)"
    by (auto simp: deployment_held_def rows_affected_0 list_ex_iff intro!: update_where_none)
  have no_rows: "rows_affected (\<lambda>_. False) t = 0" for t :: "deployment_step_row list"
    by (simp add: rows_affected_def)
  have drv: "rows_affected (drives_deployment k w) (deployments d) = 0"
    "\<And>Q. rows_affected (\<lambda>x. drives_deployment k w x \<and> Q x) (deployments d) = 0"
    "\<And>f. update_where (drives_deployment k w) f (deployments d) = deployments d"
    "find (drives_deployment k w) (deployments d) = None"
    using nh by (auto simp: deployment_held_def drives_deployment_def rows_affected_0 find_eq_None intro!: update_where_none)
  show "write_deployment p w k d = (False, d)"
  proof (cases p)
    case (ActivateJob amb m h path prov actor)
    with unheld_activation[OF nh k, of amb m h path prov actor] show ?thesis
      by (auto simp: ActivateDeployment_def)
  next
    case (StepJob amb u)
    then show ?thesis
      by (cases "deploymentStatusForStep (su_kind u)")
        (auto simp: RecordDeploymentStep_def finish_step_def transact_def Let_def drv none no_rows)
  qed (simp_all add: RenewDeploymentLease_def SetDeploymentStage_def CompleteDeploymentCancellation_def
      FailDeployment_def transact_def Let_def drv none guardR_def)
next
  fix d k w w'
  assume "deployments_ok (deployments d)" "deployment_held d k w" "deployment_held d k w'"
  then show "w = w'"
    unfolding deployment_held_def owns_deployment_def deployments_ok_def distinct_map inj_on_def by force
qed

section \<open>The remaining job operations keep the table invariant\<close>

definition job_frame :: "db \<Rightarrow> db \<Rightarrow> bool" where
  "job_frame d d' = (\<exists>t ss au. d' = d\<lparr>deployments := t, deployment_steps := ss, audit_events := audit_events d @ au\<rparr>
     \<and> jobs_follow (deployments d) t)"

lemma job_frame_refl: "job_frame d d"
  unfolding job_frame_def
  by (rule exI[of _ "deployments d"], rule exI[of _ "deployment_steps d"], rule exI[of _ "[]"]) (simp add: jobs_follow_refl)

lemma job_frameI:
  assumes "d' = d\<lparr>deployments := t, deployment_steps := ss, audit_events := audit_events d @ au\<rparr>"
    and "jobs_follow (deployments d) t"
  shows "job_frame d d'"
  using assms unfolding job_frame_def by blast

lemma job_frame_update:
  assumes "d' = d\<lparr>deployments := update_where P f (deployments d), deployment_steps := ss,
      audit_events := audit_events d @ au\<rparr>"
    and "\<And>x. P x \<Longrightarrow> deployment_ok x \<Longrightarrow>
      dp_id (f x) = dp_id x \<and> dp_idempotency_key (f x) = dp_idempotency_key x \<and> deployment_ok (f x)"
    and "\<And>x. dp_id (f x) = dp_id x \<and> (dp_cancel_requested_at x \<noteq> None \<longrightarrow> dp_cancel_requested_at (f x) \<noteq> None)"
  shows "job_frame d d'"
proof (rule job_frameI[OF assms(1)])
  have "deployments_ok (deployments d) \<Longrightarrow> deployments_ok (update_where P f (deployments d))"
    by (rule deployments_update, assumption, rule assms(2))
  moreover have "cancels_kept (deployments d) (update_where P f (deployments d))"
    using assms(3) by (intro cancels_kept_update) simp_all
  ultimately show "jobs_follow (deployments d) (update_where P f (deployments d))" by (simp add: jobs_follow_def)
qed

lemma CreateDeployment_frame: "CreateDeployment dg amb i k pd cd src actor d = (res, d') \<Longrightarrow> job_frame d d'"
  by (drule CreateDeployment_ok) (auto intro!: job_frameI[where au = "[]" and ss = "deployment_steps d"])

lemma RetryDeployment_frame: "RetryDeployment isDir amb orig i k actor strand d = (res, d') \<Longrightarrow> job_frame d d'"
  by (drule RetryDeployment_ok) (auto intro!: job_frameI[where au = "[]" and ss = "deployment_steps d"])

lemma AcquireDeployment_frame: "AcquireDeployment amb w l d = (res, d') \<Longrightarrow> job_frame d d'"
  by (drule AcquireDeployment_ok) (auto intro!: job_frameI[where au = "[]" and ss = "deployment_steps d"])

lemma RenewDeploymentLease_frame:
  assumes "RenewDeploymentLease amb k w l d = (res, d')"
  shows "job_frame d d'"
proof (rule job_frame_update)
  show "d' = d\<lparr>deployments := update_where (drives_deployment k w)
      (\<lambda>x. x\<lparr>dp_lease_expires_at := Some (pg_now amb + l), dp_updated_at := pg_now amb\<rparr>) (deployments d),
      deployment_steps := deployment_steps d, audit_events := audit_events d @ []\<rparr>"
    using assms by (auto simp: RenewDeploymentLease_def)
qed (auto simp: deployment_ok_def deployment_status_defs)

lemma SetDeploymentStage_frame:
  assumes "SetDeploymentStage amb k w st a h d = (res, d')"
  shows "job_frame d d'"
proof (cases res)
  case (Inl e)
  with assms show ?thesis by (simp add: SetDeploymentStage_def transact_eq_Inl job_frame_refl)
next
  case (Inr u)
  let ?f = "\<lambda>x. x\<lparr>dp_status := st, dp_automation_id := a, dp_content_hash := h, dp_updated_at := pg_now amb\<rparr>"
  from assms Inr have st: "st = DeploymentBuilding \<or> st = DeploymentChecking \<or> st = DeploymentActivating"
    and d': "d' = d\<lparr>deployments := update_where (\<lambda>x. drives_deployment k w x \<and> dp_status x \<noteq> DeploymentActivating) ?f
      (deployments d), deployment_steps := deployment_steps d, audit_events := audit_events d @ []\<rparr>"
    by (auto simp: SetDeploymentStage_def transact_eq_Inr guardR_eq_Inr Let_def)
  show ?thesis
    by (rule job_frame_update[OF d']) (use st in \<open>auto simp: deployment_ok_def deployment_status_defs\<close>)
qed

lemma start_step_frame: "\<exists>ss. start_step amb k u d = d\<lparr>deployment_steps := ss\<rparr>"
  by (auto simp: start_step_def Let_def)

lemma deploymentStatusForStep_in_progress: "deploymentStatusForStep kd = Inr st \<Longrightarrow> in_progress st"
  by (auto simp: deploymentStatusForStep_def in_progress_def split: if_splits)

lemma finish_step_frame:
  assumes "finish_step amb k w u st d = Inr (v, d')"
  shows "job_frame d d'"
proof -
  from assms obtain ss where d': "d' = d\<lparr>deployment_steps := ss\<rparr>"
    by (auto simp: finish_step_def Let_def guardR_eq_Inr)
  show ?thesis by (rule job_frameI[where t = "deployments d" and ss = ss and au = "[]"]) (simp_all add: d' jobs_follow_refl)
qed

lemma RecordDeploymentStep_frame:
  assumes "RecordDeploymentStep amb k w u d = (res, d')"
  shows "job_frame d d'"
proof (cases res)
  case (Inl e)
  with assms show ?thesis by (simp add: RecordDeploymentStep_def transact_eq_Inl job_frame_refl)
next
  case (Inr v)
  note body = assms[unfolded Inr RecordDeploymentStep_def transact_eq_Inr]
  show ?thesis
  proof (cases "su_status u = ''running''")
    case False
    with body finish_step_frame show ?thesis by (auto split: if_splits)
  next
    case True
    with body obtain stage where st: "deploymentStatusForStep (su_kind u) = Inr stage"
      "d' = start_step amb k u (d\<lparr>deployments := update_where (drives_deployment k w)
          (\<lambda>x. x\<lparr>dp_status := stage, dp_updated_at := pg_now amb\<rparr>) (deployments d)\<rparr>)"
      by (auto simp: bindR_eq_Inr guardR_eq_Inr)
    from start_step_frame st(2) obtain ss where "d' = d\<lparr>deployments := update_where (drives_deployment k w)
          (\<lambda>x. x\<lparr>dp_status := stage, dp_updated_at := pg_now amb\<rparr>) (deployments d),
          deployment_steps := ss, audit_events := audit_events d @ []\<rparr>" by fastforce
    then show ?thesis
      by (rule job_frame_update)
        (use deploymentStatusForStep_in_progress[OF st(1)] in \<open>auto simp: deployment_ok_def deployment_status_defs\<close>)
  qed
qed

lemma RequestDeploymentCancellation_frame:
  assumes "RequestDeploymentCancellation amb k actor d = (res, d')"
  shows "job_frame d d'"
proof (cases res)
  case (Inl e)
  with assms show ?thesis by (simp add: RequestDeploymentCancellation_def transact_eq_Inl job_frame_refl)
next
  case (Inr v)
  let ?hit = "\<lambda>x. dp_id x = k \<and> \<not> terminal_deployment (dp_status x)"
  from assms[unfolded Inr RequestDeploymentCancellation_def transact_eq_Inr Let_def]
  obtain a ds where "insertAuditEvent amb 0 ''deployment.cancel_requested'' a actor ds
      (d\<lparr>deployments := update_where ?hit (cancel_request amb) (deployments d)\<rparr>) = Inr d'"
    by (auto simp: bindR_eq_Inr split: option.splits sum.splits store_error.splits)
  from insertAuditEvent_frame[OF this] obtain au where
    d': "d' = d\<lparr>deployments := update_where ?hit (cancel_request amb) (deployments d),
      deployment_steps := deployment_steps d, audit_events := audit_events d @ au\<rparr>" by auto
  show ?thesis
    by (rule job_frame_update[OF d'])
      (auto simp: deployment_ok_def cancel_request_def deployment_status_defs split: option.splits)
qed

lemma CompleteDeploymentCancellation_frame:
  assumes "CompleteDeploymentCancellation amb k w d = (res, d')"
  shows "job_frame d d'"
proof (cases res)
  case (Inl e)
  with assms show ?thesis by (simp add: CompleteDeploymentCancellation_def transact_eq_Inl job_frame_refl)
next
  case (Inr v)
  let ?hit = "\<lambda>x. owns_deployment k w x \<and> dp_cancel_requested_at x \<noteq> None"
  let ?f = "\<lambda>x. x\<lparr>dp_status := DeploymentCancelled, dp_error := ''deployment cancelled'',
     dp_updated_at := pg_now amb, dp_finished_at := Some (pg_now amb), dp_lease_owner := None,
     dp_lease_expires_at := None\<rparr>"
  let ?ss = "update_where (\<lambda>s. ds_deployment_id s = k \<and> ds_status s = DeploymentStepRunning)
     (\<lambda>s. s\<lparr>ds_status := DeploymentStepFailed, ds_error := ''deployment cancelled'',
        ds_finished_at := Some (pg_now amb)\<rparr>) (deployment_steps d)"
  from assms Inr have "d' = d\<lparr>deployments := update_where ?hit ?f (deployments d),
      deployment_steps := ?ss, audit_events := audit_events d @ []\<rparr>"
    by (auto simp: CompleteDeploymentCancellation_def transact_eq_Inr guardR_eq_Inr Let_def)
  then show ?thesis
    by (rule job_frame_update) (auto simp: deployment_ok_def deployment_status_defs)
qed

lemma FailDeployment_frame:
  assumes "FailDeployment amb k w msg d = (res, d')"
  shows "job_frame d d'"
proof (cases res)
  case (Inl e)
  with assms show ?thesis by (simp add: FailDeployment_def transact_eq_Inl job_frame_refl)
next
  case (Inr v)
  let ?f = "\<lambda>x. x\<lparr>dp_status := DeploymentFailed, dp_error := truncateDiagnostic msg ''error'',
     dp_updated_at := pg_now amb, dp_finished_at := Some (pg_now amb), dp_lease_owner := None,
     dp_lease_expires_at := None\<rparr>"
  let ?d1 = "d\<lparr>deployments := update_where (drives_deployment k w) ?f (deployments d)\<rparr>"
  from assms[unfolded Inr FailDeployment_def transact_eq_Inr Let_def]
  have "d' = ?d1 \<or> (\<exists>a actor ds. insertAuditEvent amb 0 ''deployment.failed'' a actor ds ?d1 = Inr d')"
    by (auto simp: bindR_eq_Inr split: option.splits if_splits)
  then obtain au where "d' = ?d1\<lparr>audit_events := audit_events ?d1 @ au\<rparr>"
  proof
    assume "d' = ?d1"
    then have "d' = ?d1\<lparr>audit_events := audit_events ?d1 @ []\<rparr>" by simp
    then show thesis by (rule that)
  qed (use insertAuditEvent_frame that in blast)
  then have "d' = d\<lparr>deployments := update_where (drives_deployment k w) ?f (deployments d),
      deployment_steps := deployment_steps d, audit_events := audit_events d @ au\<rparr>" by simp
  then show ?thesis
    by (rule job_frame_update) (auto simp: deployment_ok_def deployment_status_defs)
qed

lemma deploy_jobs:
  assumes "deploy amb m h path prov actor did w d = (Inr rid, d')"
  shows "jobs_follow (deployments d) (deployments d')"
    and "deployments d' = (if did = [] then deployments d
      else update_where (may_activate did w) (succeeded_deployment amb rid prov) (deployments d))"
proof -
  from assms obtain location stranded d4 where
    p: "publish_revision amb m h location prov actor did stranded d = Inr d4"
    and f: "did = [] \<longrightarrow> d' = d4"
      "did \<noteq> [] \<longrightarrow> finish_deployment_job amb 1 did w rid (md_name (mf_metadata m)) actor h prov d4 = Inr d'"
    by (rule deploy_Inr) blast
  show eq: "deployments d' = (if did = [] then deployments d
      else update_where (may_activate did w) (succeeded_deployment amb rid prov) (deployments d))"
  proof (cases "did = []")
    case True
    with f publish_keeps_deployments[OF p] show ?thesis by simp
  next
    case False
    from finish_deployment_job_Inr(2)[OF f(2)[rule_format, OF False]]
      publish_keeps_deployments[OF p] False show ?thesis by auto
  qed
  have "deployments_ok (deployments d')" if "deployments_ok (deployments d)"
    unfolding eq using that
    by (auto intro!: deployments_update simp: deployment_ok_def succeeded_deployment_def deployment_status_defs)
  moreover have "cancels_kept (deployments d) (deployments d')"
    unfolding eq by (auto intro!: cancels_kept_update cancels_kept_refl simp: succeeded_deployment_def)
  ultimately show "jobs_follow (deployments d) (deployments d')" by (simp add: jobs_follow_def)
qed

section \<open>What a publication writes\<close>

lemma publish_revision_references:
  assumes "publish_revision amb m h loc prov actor did stranded d = Inr d4"
  shows "secret_references d4 = filter (\<lambda>x. sx_revision_id x \<noteq> revision_id_of h) (secret_references d)
      @ map (\<lambda>r. \<lparr>sx_revision_id = revision_id_of h, sx_secret_name = sr_name r, sx_purpose = sr_purpose r\<rparr>) (SecretReferences m)"
    and "secrets d4 = secrets d"
    and "\<forall>r \<in> set (SecretReferences m). \<exists>s \<in> set (secrets d). s_name s = sr_name r"
  using assms
proof (atomize (full), cases rule: publish_revision_Inr)
  case (1 d1 rows as)
  let ?d0 = "upsert_automation amb (mf_metadata m) d"
  have "secrets ?d0 = secrets d" "secret_references ?d0 = secret_references d"
    by (subst upsert_automation_facts(1), simp)+
  then have "secrets d1 = secrets d" "secret_references d1 = secret_references d"
    using 1(1) unfolding upsert_revision_def Let_def by (auto simp: guardR_eq_Inr split: if_splits)
  then show "secret_references d4 = filter (\<lambda>x. sx_revision_id x \<noteq> revision_id_of h) (secret_references d)
      @ map (\<lambda>r. \<lparr>sx_revision_id = revision_id_of h, sx_secret_name = sr_name r, sx_purpose = sr_purpose r\<rparr>) (SecretReferences m)
      \<and> secrets d4 = secrets d \<and> (\<forall>r \<in> set (SecretReferences m). \<exists>s \<in> set (secrets d). s_name s = sr_name r)"
    using 1(4,5) by (simp add: set_active_revision_def)
qed

lemma deploy_published:
  assumes "deploy amb m h path prov actor did w d = (Inr rid, d')"
  obtains location stranded d4 where "recorded_location amb path = Inr location"
    "publish_revision amb m h location prov actor did stranded d = Inr d4" "secrets d' = secrets d4"
    "secret_references d' = secret_references d4" "revisions d' = revisions d4" "automations d' = automations d4"
    "triggers d' = triggers d4"
proof -
  from assms obtain location stranded d4 where
    p: "recorded_location amb path = Inr location" "publish_revision amb m h location prov actor did stranded d = Inr d4"
    and f: "did = [] \<longrightarrow> d' = d4"
      "did \<noteq> [] \<longrightarrow> finish_deployment_job amb 1 did w rid (md_name (mf_metadata m)) actor h prov d4 = Inr d'"
    by (rule deploy_Inr) blast
  have "secrets d' = secrets d4 \<and> secret_references d' = secret_references d4 \<and> revisions d' = revisions d4
    \<and> automations d' = automations d4 \<and> triggers d' = triggers d4"
  proof (cases "did = []")
    case False
    from finish_deployment_job_Inr(2)[OF f(2)[rule_format, OF this]] show ?thesis by auto
  qed (use f(1) in simp)
  with p that show thesis by blast
qed

end
