(* ===== verification/DeploymentProperties.thy ===== *)
theory DeploymentProperties
  imports DeploymentProofs Samples
begin

text \<open>
  The properties of activation, rollback and the deployment queue, each with a witness on a
  sample history that deploys the sample manifest through a claimed job.
\<close>

section \<open>A sample history\<close>

definition sample_hash :: string where
  "sample_hash = concat (replicate 32 ''a1'')"

definition sample_provenance :: artifact_provenance where
  "sample_provenance = \<lparr>ap_version = 1, ap_artifact_digest = ''sha256:'' @ sample_hash,
     ap_content_hash = sample_hash, ap_automation_id = ''orders'', ap_runtime_image = ''python:3.13'',
     ap_build_image = [], ap_tool_environment = None, ap_algorithm = ''ed25519'',
     ap_signing_key_id = ''sha256:'' @ sample_hash, ap_public_key = ''pk'', ap_signature = ''sig''\<rparr>"

definition sample_created :: "(deployment_row \<times> bool) store_result" where
  "sample_created = CreateDeployment (\<lambda>_. None) (sample_ambient 5 hour) ''dep_1'' ''key-1'' ''pkg'' ''content''
     ''/srv/werkt/deployment-sources/dep_1'' ''alice'' sample_db"

definition sample_deployment :: deployment_row where
  "sample_deployment =
     \<lparr>dp_id = ''dep_1'', dp_idempotency_key = ''key-1'', dp_package_digest = ''pkg'', dp_content_digest = ''content'',
      dp_source_path = ''deployment-sources/dep_1'', dp_status = DeploymentActivating, dp_automation_id = ''orders'',
      dp_content_hash = sample_hash, dp_revision_id = None, dp_retry_of = None, dp_actor = ''alice'', dp_error = [],
      dp_provenance = None, dp_strand_approvals = False, dp_cancel_requested_at = None,
      dp_lease_owner = Some ''w1'', dp_lease_expires_at = Some (2 * hour), dp_created_at = 0, dp_updated_at = 0,
      dp_started_at = Some 0, dp_finished_at = None\<rparr>"

definition sample_activating :: db where
  "sample_activating = sample_db\<lparr>deployments := [sample_deployment]\<rparr>"

definition sample_activated :: "string store_result" where
  "sample_activated = ActivateDeployment (sample_ambient 7 hour) ''dep_1'' ''w1'' sample_manifest sample_hash
     ''/srv/werkt/artifacts/b'' sample_provenance ''alice'' sample_activating"

section \<open>Shared facts\<close>

lemma automation_active:
  assumes "catalog_ok d'" "a \<in> set (automations d')" "au_id a = n" "au_active_revision_id a = Some i"
  shows "\<exists>x. automation_by_id d' n = Some x \<and> au_active_revision_id x = Some i"
  using automation_table.lookup_iff[OF catalogue_okD(1)[OF assms(1)], of n a] assms by auto

text \<open>What a trigger row and a trigger of the manifest say.\<close>

definition row_content :: "trigger_row \<Rightarrow> _" where
  "row_content t = (tr_id t, tr_type t, tr_config t, tr_enabled t)"

definition declared_content :: "trigger \<Rightarrow> _" where
  "declared_content t = (tg_id t, tg_type t, tg_config t, IsEnabled t)"

lemma trigger_contents:
  "list_all2 (\<lambda>t row. \<exists>nf. row = trigger_row_of amb a v t nf) ts rows \<Longrightarrow> map row_content rows = map declared_content ts"
  by (induction ts rows rule: list_all2_induct) (auto simp: trigger_row_of_def row_content_def declared_content_def)

lemma same_automation_triggers:
  assumes "list_all2 (\<lambda>t row. \<exists>nf. row = trigger_row_of amb n i t nf) ts rows"
    and "triggers d' = other_triggers n d @ rows"
  shows "map row_content (filter (\<lambda>t. tr_automation_id t = n) (triggers d')) = map declared_content ts"
    and "\<forall>t \<in> set (triggers d'). tr_automation_id t = n \<longrightarrow> tr_revision_id t = i"
    and "other_triggers n d' = other_triggers n d"
proof -
  note rows = trigger_rows_of[OF assms(1)]
  have "filter (\<lambda>t. tr_automation_id t = n) (other_triggers n d) = []"
    "filter (\<lambda>t. tr_automation_id t = n) rows = rows" "filter (\<lambda>t. tr_automation_id t \<noteq> n) rows = []"
    "filter (\<lambda>t. tr_automation_id t \<noteq> n) (other_triggers n d) = other_triggers n d"
    using rows by (auto simp: other_triggers_def filter_empty_conv filter_id_conv)
  with rows trigger_contents[OF assms(1)] assms(2)
  show "map row_content (filter (\<lambda>t. tr_automation_id t = n) (triggers d')) = map declared_content ts"
    "other_triggers n d' = other_triggers n d"
    by (simp_all add: other_triggers_def)
  show "\<forall>t \<in> set (triggers d'). tr_automation_id t = n \<longrightarrow> tr_revision_id t = i"
    using rows assms(2) by (auto simp: other_triggers_def)
qed

text \<open>What a successful deployment leaves of references, and of the automation.\<close>

lemma deploy_references:
  assumes "deploy amb m h artifactPath prov actor did w d = (Inr rid, d')"
  shows "\<forall>r \<in> set (SecretReferences m). \<exists>s \<in> set (secrets d'). s_name s = sr_name r" "secrets d' = secrets d"
    and "map (\<lambda>x. (sx_secret_name x, sx_purpose x)) (filter (\<lambda>x. sx_revision_id x = rid) (secret_references d'))
           = map (\<lambda>r. (sr_name r, sr_purpose r)) (SecretReferences m)"
    and "filter (\<lambda>x. sx_revision_id x \<noteq> rid) (secret_references d') = filter (\<lambda>x. sx_revision_id x \<noteq> rid) (secret_references d)"
proof -
  have r: "rid = revision_id_of h" using assms by (rule deploy_Inr) blast
  from assms have "(\<forall>r \<in> set (SecretReferences m). \<exists>s \<in> set (secrets d'). s_name s = sr_name r) \<and> secrets d' = secrets d
    \<and> map (\<lambda>x. (sx_secret_name x, sx_purpose x)) (filter (\<lambda>x. sx_revision_id x = rid) (secret_references d'))
        = map (\<lambda>r. (sr_name r, sr_purpose r)) (SecretReferences m)
    \<and> filter (\<lambda>x. sx_revision_id x \<noteq> rid) (secret_references d') = filter (\<lambda>x. sx_revision_id x \<noteq> rid) (secret_references d)"
  proof (rule deploy_published)
    fix location stranded d4
    assume p: "publish_revision amb m h location prov actor did stranded d = Inr d4"
      and keep: "secrets d' = secrets d4" "secret_references d' = secret_references d4"
    note refs = publish_revision_references[OF p]
    show ?thesis using refs(2,3) by (simp add: keep refs(1) r filter_map comp_def)
  qed
  then show "\<forall>r \<in> set (SecretReferences m). \<exists>s \<in> set (secrets d'). s_name s = sr_name r" "secrets d' = secrets d"
    "map (\<lambda>x. (sx_secret_name x, sx_purpose x)) (filter (\<lambda>x. sx_revision_id x = rid) (secret_references d'))
       = map (\<lambda>r. (sr_name r, sr_purpose r)) (SecretReferences m)"
    "filter (\<lambda>x. sx_revision_id x \<noteq> rid) (secret_references d') = filter (\<lambda>x. sx_revision_id x \<noteq> rid) (secret_references d)"
    by blast+
qed

lemma published_automation:
  assumes "catalog_ok d" "publish_revision amb m h location prov actor did stranded d = Inr d4" "location \<noteq> []"
  defines "name \<equiv> md_name (mf_metadata m)"
  shows "\<exists>a \<in> set (automations d4). au_id a = name \<and> au_active_revision_id a = Some (revision_id_of h)"
    and "\<exists>v \<in> set (revisions d4). rv_id v = revision_id_of h \<and> rv_automation_id v = name \<and> rv_content_hash v = h
          \<and> rv_provenance v = Some prov \<and> rv_artifact_path v \<noteq> []"
    and "\<exists>rows. triggers d4 = other_triggers name d @ rows
          \<and> list_all2 (\<lambda>t row. \<exists>nf. row = trigger_row_of amb name (revision_id_of h) t nf) (mf_triggers m) rows"
proof -
  have "(\<exists>a \<in> set (automations d4). au_id a = name \<and> au_active_revision_id a = Some (revision_id_of h))
    \<and> (\<exists>v \<in> set (revisions d4). rv_id v = revision_id_of h \<and> rv_automation_id v = name \<and> rv_content_hash v = h
        \<and> rv_provenance v = Some prov \<and> rv_artifact_path v \<noteq> [])
    \<and> (\<exists>rows. triggers d4 = other_triggers name d @ rows
        \<and> list_all2 (\<lambda>t row. \<exists>nf. row = trigger_row_of amb name (revision_id_of h) t nf) (mf_triggers m) rows)"
    using assms(2)
  proof (cases rule: publish_revision_Inr)
    case (1 d1 rows as)
    note ua = upsert_automation_facts[where d = d and amb = amb and md = "mf_metadata m"]
    have tab: "revisions (upsert_automation amb (mf_metadata m) d) = revisions d"
      "triggers (upsert_automation amb (mf_metadata m) d) = triggers d" by (subst ua(1), simp)+
    note ur = upsert_revision_Inr[OF 1(1) refl, unfolded tab, OF catalogue_okD(2,4)[OF assms(1)]]
    from ur(1) have d1: "automations d1 = automations (upsert_automation amb (mf_metadata m) d)"
      "triggers d1 = triggers d" by (auto simp: tab)
    from ua(3) d1 obtain y where y: "y \<in> set (automations d1)" "au_id y = name" by (auto simp: name_def)
    have "automations d4 = automations (set_active_revision amb name (revision_id_of h) d1)" by (simp add: 1(5) name_def)
    then have act: "\<exists>a \<in> set (automations d4). au_id a = name \<and> au_active_revision_id a = Some (revision_id_of h)"
      using y unfolding set_active_revision_def by (auto intro!: bexI[OF _ update_where_hit])
    have rev: "\<exists>v \<in> set (revisions d4). rv_id v = revision_id_of h \<and> rv_automation_id v = name \<and> rv_content_hash v = h
        \<and> rv_provenance v = Some prov \<and> rv_artifact_path v \<noteq> []"
      using ur(4) assms(3) by (auto simp: 1(5) name_def set_active_revision_def)
    have "triggers d4 = other_triggers name d @ rows" by (simp add: 1(5) name_def other_triggers_def d1)
    with act rev 1(2) show ?thesis by (auto simp: name_def)
  qed
  then show "\<exists>a \<in> set (automations d4). au_id a = name \<and> au_active_revision_id a = Some (revision_id_of h)"
    "\<exists>v \<in> set (revisions d4). rv_id v = revision_id_of h \<and> rv_automation_id v = name \<and> rv_content_hash v = h
      \<and> rv_provenance v = Some prov \<and> rv_artifact_path v \<noteq> []"
    "\<exists>rows. triggers d4 = other_triggers name d @ rows
      \<and> list_all2 (\<lambda>t row. \<exists>nf. row = trigger_row_of amb name (revision_id_of h) t nf) (mf_triggers m) rows"
    by blast+
qed

text \<open>In a consistent catalogue an automation's triggers are bound to its active revision, and repeating a rollback is a no-op.\<close>

lemma bound_to_active:
  assumes "catalog_ok d" "automation_by_id d a = Some x" "au_active_revision_id x = Some i"
  shows "\<forall>t \<in> set (triggers d). tr_automation_id t = a \<longrightarrow> tr_revision_id t = i"
proof (intro ballI impI)
  fix t assume t: "t \<in> set (triggers d)" "tr_automation_id t = a"
  from catalogue_okD(6)[OF assms(1)] t obtain y where y: "y \<in> set (automations d)" "au_id y = a"
    "au_active_revision_id y = Some (tr_revision_id t)" by auto
  with assms(2) have "y = x" using automation_table.lookup_iff[OF catalogue_okD(1)[OF assms(1)], of a y] by simp
  with assms(3) y(3) show "tr_revision_id t = i" by simp
qed

lemma rollback_to_active:
  assumes "catalog_ok d" "automation_by_id d a = Some x" "au_active_revision_id x = Some i"
    and "v \<in> set (revisions d)" "rv_id v = i" "rv_automation_id v = a" "rv_artifact_path v \<noteq> []"
  shows "RollbackAutomation amb a i actor d = (Inr False, d)"
proof -
  have "find (\<lambda>w. rv_id w = i \<and> rv_automation_id w = a) (revisions d) \<noteq> None"
    using assms(4-6) by (auto simp: find_None_iff)
  then obtain u where u: "find (\<lambda>w. rv_id w = i \<and> rv_automation_id w = a) (revisions d) = Some u" by auto
  with find_eq_SomeD[OF u] assms(4,5) catalogue_okD(2)[OF assms(1)] have "u = v"
    by (auto simp: distinct_map inj_on_def)
  with u assms(2,3,7) show ?thesis by (simp add: RollbackAutomation_def transact_def)
qed

section \<open>Properties\<close>

text \<open>
  C20: Publishing a revision is one atomic step. In a consistent catalogue, and with an artifact that
  has a path, as every artifact the deployer builds has, the automation's active revision is on
  success the one named by the content hash, present with its artifact and the signed provenance it was
  published with; the automation's triggers are exactly the manifest's, in its order, with their
  identifiers, types, configurations and enabled flags, all bound to that revision; every secret
  the manifest names exists, and the references recorded for the revision are exactly the
  manifest's, names and purposes; the triggers of other automations, the references of other
  revisions, the secrets and all approvals are untouched. On any error nothing changed.
\<close>

theorem deploy_publishes_atomically:
  assumes "catalog_ok d" and "artifactPath \<noteq> []"
    and "deploy amb m h artifactPath prov actor did w d = (res, d')"
  defines "name \<equiv> md_name (mf_metadata m)"
  shows "case res of Inl _ \<Rightarrow> d' = d
    | Inr rid \<Rightarrow> rid = revision_id_of h
       \<and> (\<exists>a. automation_by_id d' name = Some a \<and> au_active_revision_id a = Some rid)
       \<and> (\<exists>v \<in> set (revisions d'). rv_id v = rid \<and> rv_automation_id v = name \<and> rv_content_hash v = h
            \<and> rv_provenance v = Some prov \<and> rv_artifact_path v \<noteq> [])
       \<and> map (\<lambda>t. (tr_id t, tr_type t, tr_config t, tr_enabled t)) (filter (\<lambda>t. tr_automation_id t = name) (triggers d'))
           = map (\<lambda>t. (tg_id t, tg_type t, tg_config t, IsEnabled t)) (mf_triggers m)
       \<and> (\<forall>t \<in> set (triggers d'). tr_automation_id t = name \<longrightarrow> tr_revision_id t = rid)
       \<and> other_triggers name d' = other_triggers name d
       \<and> (\<forall>r \<in> set (SecretReferences m). \<exists>s \<in> set (secrets d'). s_name s = sr_name r)
       \<and> map (\<lambda>x. (sx_secret_name x, sx_purpose x)) (filter (\<lambda>x. sx_revision_id x = rid) (secret_references d'))
           = map (\<lambda>r. (sr_name r, sr_purpose r)) (SecretReferences m)
       \<and> filter (\<lambda>x. sx_revision_id x \<noteq> rid) (secret_references d') = filter (\<lambda>x. sx_revision_id x \<noteq> rid) (secret_references d)
       \<and> secrets d' = secrets d \<and> approvals d' = approvals d"
proof (cases res)
  case (Inl e)
  with assms(3) show ?thesis by (simp add: deploy_def transact_eq_Inl)
next
  case (Inr rid)
  note run = assms(3)[unfolded Inr]
  have r: "rid = revision_id_of h" using run by (rule deploy_Inr) blast
  from run show ?thesis
  proof (rule deploy_published)
    fix location stranded d4
    assume p: "recorded_location amb artifactPath = Inr location"
        "publish_revision amb m h location prov actor did stranded d = Inr d4"
      and keep: "revisions d' = revisions d4" "automations d' = automations d4" "triggers d' = triggers d4"
    note pub = published_automation[OF assms(1) p(2) recorded_nonempty[OF p(1) assms(2)], folded name_def r keep]
    from pub(1) have act: "\<exists>a. automation_by_id d' name = Some a \<and> au_active_revision_id a = Some rid"
      using automation_active[OF deploy_catalog[OF assms(3,1)]] by blast
    from pub(3) obtain rows where rows: "triggers d' = other_triggers name d @ rows"
      "list_all2 (\<lambda>t row. \<exists>nf. row = trigger_row_of amb name rid t nf) (mf_triggers m) rows" by blast
    note trg = same_automation_triggers[OF rows(2,1), unfolded row_content_def[abs_def] declared_content_def[abs_def]]
    from r act pub(2) trg deploy_references[OF run] deploy_tables(3)[OF run] show ?thesis
      unfolding Inr sum.case by (intro conjI)
  qed
qed

lemma sample_activating_ok: "catalog_ok sample_activating" "deployments_ok (deployments sample_activating)"
  by code_simp+

lemma sample_activated_ok: "is_ok (fst sample_activated)"
  by code_simp

theorem deploy_publishes_atomically_witness:
  "\<exists>a. automation_by_id (snd sample_activated) ''orders'' = Some a
     \<and> au_active_revision_id a = Some (revision_id_of sample_hash)"
  using deploy_publishes_atomically[OF sample_activating_ok(1), of "''/srv/werkt/artifacts/b''"
      "sample_ambient 7 hour" sample_manifest sample_hash sample_provenance "''alice''" "''dep_1''" "''w1''"
      "Inr (projr (fst sample_activated))" "snd sample_activated"] ok_result[OF sample_activated_ok]
  by (auto simp: sample_activated_def ActivateDeployment_def sample_manifest_def)

text \<open>
  C17: No deployment silently strands an approval. If publishing succeeds while the automation
  has a different active revision with approvals that are still pending and not expired, then it
  was the activation of a deployment job that records the operator's decision to strand them.
\<close>

theorem deploy_never_strands_silently:
  assumes "deploy amb m h path prov actor did w d = (Inr rid, d')"
    and "automation_by_id d (md_name (mf_metadata m)) = Some a" and "au_active_revision_id a = Some active"
    and "active \<noteq> []" and "active \<noteq> rid"
    and "p \<in> set (approvals d)" and "p_automation_id p = md_name (mf_metadata m)" and "p_revision_id p = active"
    and "p_status p = ''pending''" and "pg_now amb < p_expires_at p"
  shows "did \<noteq> [] \<and> (\<exists>x. deployment_by_id d did = Some x \<and> dp_strand_approvals x)"
proof -
  from assms(1) obtain stranded where g: "guardPendingApprovals amb (md_name (mf_metadata m)) rid did d = Inr stranded"
    by (rule deploy_Inr) blast
  have "p \<in> set (answerable_approvals amb (md_name (mf_metadata m)) active d)"
    using assms(6-10) by (simp add: answerable_approvals_def)
  then have "answerable_approvals amb (md_name (mf_metadata m)) active d \<noteq> []" by auto
  with g assms(2-5) show ?thesis
    by (auto simp: guardPendingApprovals_def Let_def bindR_eq_Inr guardR_eq_Inr split: if_splits option.splits)
qed

definition sample_stranding :: db where
  "sample_stranding = sample_activating\<lparr>
     approvals := [\<lparr>p_id = ''approval_1'', p_automation_id = ''orders'', p_revision_id = ''rev_a'',
       p_requested_by_run_id = ''run_0'', p_approval_key = ''ship'', p_status = ''pending'', p_title = ''Ship?'',
       p_description = [], p_fields = [], p_actions = [], p_expires_at = 9 * hour, p_created_at = 0,
       p_resolved_at = None, p_resolved_by = [], p_response = None, p_action_run_id = None,
       p_expiring_notified_at = None\<rparr>],
     deployments := map (\<lambda>x. x\<lparr>dp_strand_approvals := True\<rparr>) (deployments sample_activating)\<rparr>"

theorem deploy_never_strands_silently_witness:
  "\<exists>x. deployment_by_id sample_stranding ''dep_1'' = Some x \<and> dp_strand_approvals x"
proof -
  let ?x = "deploy (sample_ambient 7 hour) sample_manifest sample_hash
     ''/srv/werkt/artifacts/b'' sample_provenance ''alice'' ''dep_1'' ''w1'' sample_stranding"
  have "is_ok (fst ?x)" by code_simp
  from ok_result[OF this] have "?x = (Inr (projr (fst ?x)), snd ?x)" .
  moreover have "automation_by_id sample_stranding ''orders'' = Some sample_automation" by code_simp
  moreover have "projr (fst ?x) = ''rev_a1a1a1a1a1a1a1a1a1a1a1a1''" by code_simp
  ultimately show ?thesis
    using deploy_never_strands_silently[of "sample_ambient 7 hour" sample_manifest sample_hash
      "''/srv/werkt/artifacts/b''" sample_provenance "''alice''" "''dep_1''" "''w1''" sample_stranding
      "projr (fst ?x)" "snd ?x" sample_automation "''rev_a''" "hd (approvals sample_stranding)"]
    by (simp add: sample_manifest_def sample_automation_def sample_stranding_def sample_ambient_def duration_defs)
qed

text \<open>
  C23: A worker that lost its deployment job cannot publish, advance, cancel or fail it. While a
  worker holds the job, no sequence of renew, stage, step, cancel, fail or activate calls by
  other workers reports success or changes the database.
\<close>

theorem stale_deployment_workers_powerless:
  assumes "deployments_ok (deployments d)" and "k \<noteq> []" and "deployment_held d k w"
    and "\<forall>(p, w') \<in> set ps. w' \<noteq> w"
  shows "perform write_deployment k ps d = (replicate (length ps) False, d)"
  using assms by (rule deployment_lease.stale_writers_powerless)

theorem stale_deployment_workers_powerless_witness:
  "perform write_deployment ''dep_1''
     [(FailJob (sample_ambient 8 0) ''x'', ''w2''), (ActivateJob (sample_ambient 9 0) sample_manifest sample_hash
        ''/srv/werkt/artifacts/b'' sample_provenance ''mallory'', ''w0'')] sample_activating
   = (replicate 2 False, sample_activating)"
proof -
  have "deployment_held sample_activating ''dep_1'' ''w1''" by code_simp
  then show ?thesis
    using stale_deployment_workers_powerless[OF sample_activating_ok(2), of "''dep_1''" "''w1''"
      "[(FailJob (sample_ambient 8 0) ''x'', ''w2''), (ActivateJob (sample_ambient 9 0) sample_manifest sample_hash
        ''/srv/werkt/artifacts/b'' sample_provenance ''mallory'', ''w0'')]"]
    by (simp add: numeral_2_eq_2)
qed

text \<open>
  C25: Rollback restores a retained revision and is idempotent. In a consistent catalogue, after a
  successful rollback that names a revision, that revision, which still has its artifact, is
  active and every trigger of the automation is bound to it. A rollback that changed the active
  revision has installed exactly the triggers of that revision's manifest, in its order, with
  their identifiers, types, configurations and enabled flags; one to the revision that is active
  already changes nothing. The triggers of other automations stay. Repeating the rollback
  succeeds, reports no change and changes nothing.
\<close>

theorem rollback_restores_and_repeats:
  assumes "catalog_ok d" and "RollbackAutomation amb a i actor d = (Inr changed, d')" and "i \<noteq> []"
  shows "(\<exists>x v. automation_by_id d' a = Some x \<and> au_active_revision_id x = Some i
      \<and> v \<in> set (revisions d') \<and> rv_id v = i \<and> rv_automation_id v = a \<and> rv_artifact_path v \<noteq> []
      \<and> (if changed then map (\<lambda>t. (tr_id t, tr_type t, tr_config t, tr_enabled t)) (filter (\<lambda>t. tr_automation_id t = a) (triggers d'))
            = map (\<lambda>t. (tg_id t, tg_type t, tg_config t, IsEnabled t)) (mf_triggers (rv_manifest v))
          else d' = d)
      \<and> (\<forall>t \<in> set (triggers d'). tr_automation_id t = a \<longrightarrow> tr_revision_id t = i)
      \<and> other_triggers a d' = other_triggers a d)
    \<and> RollbackAutomation amb' a i actor' d' = (Inr False, d')"
proof -
  have cat: "catalog_ok d'" by (rule RollbackAutomation_catalog[OF assms(2,1)])
  have "\<exists>x v. automation_by_id d' a = Some x \<and> au_active_revision_id x = Some i
      \<and> v \<in> set (revisions d') \<and> rv_id v = i \<and> rv_automation_id v = a \<and> rv_artifact_path v \<noteq> []
      \<and> (if changed then map row_content (filter (\<lambda>t. tr_automation_id t = a) (triggers d')) = map declared_content (mf_triggers (rv_manifest v))
          else d' = d) \<and> other_triggers a d' = other_triggers a d"
    using assms(2)
  proof (cases rule: RollbackAutomation_Inr)
    case (noop x v)
    with assms(3) show ?thesis by (intro exI[of _ x] exI[of _ v]) simp
  next
    case (moved x v rows as)
    let ?f = "\<lambda>y. y\<lparr>au_active_revision_id := Some i, au_updated_at := pg_now amb\<rparr>"
    from automation_table.lookup_SomeD[OF moved(2)] have x: "x \<in> set (automations d)" "au_id x = a" by simp_all
    have "automations d' = update_where (\<lambda>y. au_id y = a) ?f (automations d)"
      by (simp add: moved(10) set_active_revision_def)
    moreover have "?f x \<in> set (update_where (\<lambda>y. au_id y = a) ?f (automations d))"
      by (rule update_where_hit[OF x(1)]) (rule x(2))
    ultimately have "\<exists>y \<in> set (automations d'). au_id y = a \<and> au_active_revision_id y = Some i"
      using x(2) by (intro bexI[of _ "?f x"]) simp_all
    then have "\<exists>y. automation_by_id d' a = Some y \<and> au_active_revision_id y = Some i"
      using automation_active[OF cat] by blast
    moreover have "triggers d' = other_triggers a d @ rows" "revisions d' = revisions d"
      by (simp_all add: moved(10) set_active_revision_def)
    ultimately show ?thesis
      using moved(1,4-7) same_automation_triggers(1,3)[OF moved(8), of d'] by auto
  qed
  then obtain x v where xv: "automation_by_id d' a = Some x" "au_active_revision_id x = Some i"
    "v \<in> set (revisions d')" "rv_id v = i" "rv_automation_id v = a" "rv_artifact_path v \<noteq> []"
    and trg: "if changed then map row_content (filter (\<lambda>t. tr_automation_id t = a) (triggers d')) = map declared_content (mf_triggers (rv_manifest v))
          else d' = d" "other_triggers a d' = other_triggers a d"
    by blast
  from rollback_to_active[OF cat xv] bound_to_active[OF cat xv(1,2)] show ?thesis
    using xv trg[unfolded row_content_def[abs_def] declared_content_def[abs_def]] by blast
qed

theorem rollback_restores_and_repeats_witness:
  "RollbackAutomation (sample_ambient 9 hour) ''orders'' ''rev_a'' ''bob''
     (snd (RollbackAutomation (sample_ambient 8 hour) ''orders'' ''rev_a'' ''bob'' sample_db))
   = (Inr False, snd (RollbackAutomation (sample_ambient 8 hour) ''orders'' ''rev_a'' ''bob'' sample_db))"
proof -
  let ?r = "RollbackAutomation (sample_ambient 8 hour) ''orders'' ''rev_a'' ''bob'' sample_db"
  have "is_ok (fst ?r)" "catalog_ok sample_db" by code_simp+
  from rollback_restores_and_repeats[OF this(2) ok_result[OF this(1)], of "sample_ambient 9 hour" "''bob''"]
  show ?thesis by simp
qed

text \<open>
  A job whose cancellation was requested: the request marks it, and whoever finds the mark can
  neither claim nor activate it.
\<close>

definition withdrawn :: "string \<Rightarrow> deployment_row list \<Rightarrow> bool" where
  "withdrawn k t = (\<exists>x \<in> set t. dp_id x = k \<and> dp_cancel_requested_at x \<noteq> None)"

lemma withdrawn_persists: "withdrawn k t \<Longrightarrow> cancels_kept t t' \<Longrightarrow> withdrawn k t'"
  unfolding withdrawn_def cancels_kept_def by metis

lemma cancellation_withdraws:
  assumes "RequestDeploymentCancellation amb k actor d = (Inr v, d1)"
  shows "withdrawn k (deployments d1)"
proof -
  let ?hit = "\<lambda>x. dp_id x = k \<and> \<not> terminal_deployment (dp_status x)"
  from assms[unfolded RequestDeploymentCancellation_def transact_eq_Inr Let_def]
  obtain x a ds where x: "find ?hit (deployments d) = Some x"
    and au: "insertAuditEvent amb 0 ''deployment.cancel_requested'' a actor ds
      (d\<lparr>deployments := update_where ?hit (cancel_request amb) (deployments d)\<rparr>) = Inr d1"
    by (auto simp: bindR_eq_Inr split: option.splits sum.splits store_error.splits)
  have d1: "deployments d1 = update_where ?hit (cancel_request amb) (deployments d)"
    using insertAuditEvent_frame[OF au] by auto
  have "cancel_request amb x \<in> set (deployments d1)"
    unfolding d1 using find_eq_SomeD[OF x] by (intro update_where_hit) simp_all
  moreover have "dp_id (cancel_request amb x) = k" "dp_cancel_requested_at (cancel_request amb x) \<noteq> None"
    using find_eq_SomeD[OF x] by (simp_all add: cancel_request_def split: option.split)
  ultimately show ?thesis unfolding withdrawn_def by blast
qed

lemma withdrawn_inert:
  assumes "deployments_ok (deployments d)" and "withdrawn k (deployments d)"
  shows "k \<noteq> [] \<Longrightarrow> \<exists>e. ActivateDeployment amb k w m h path prov actor d = (Inl e, d)"
    and "x \<in> set (deployments d) \<Longrightarrow> dp_id x = k \<Longrightarrow> \<not> deployment_candidate amb x \<and> dp_status x \<noteq> DeploymentSucceeded"
proof -
  have req: "dp_cancel_requested_at y \<noteq> None" if "y \<in> set (deployments d)" "dp_id y = k" for y
  proof -
    from assms(2) obtain z where z: "z \<in> set (deployments d)" "dp_id z = k" "dp_cancel_requested_at z \<noteq> None"
      unfolding withdrawn_def by blast
    have "distinct (map dp_id (deployments d))" using assms(1) unfolding deployments_ok_def by blast
    from key_unique[OF this that(1) z(1)] that(2) z show ?thesis by simp
  qed
  show "\<exists>e. ActivateDeployment amb k w m h path prov actor d = (Inl e, d)" if k: "k \<noteq> []"
  proof (cases "deploy amb m h path prov actor k w d")
    case (Pair res d2)
    show ?thesis
    proof (cases res)
      case (Inl e)
      with Pair show ?thesis by (simp add: ActivateDeployment_def deploy_def transact_eq_Inl)
    next
      case (Inr rid)
      from Pair[unfolded Inr] obtain location stranded d4 where
        p: "publish_revision amb m h location prov actor k stranded d = Inr d4"
        and f: "k \<noteq> [] \<longrightarrow> finish_deployment_job amb 1 k w rid (md_name (mf_metadata m)) actor h prov d4 = Inr d2"
        by (rule deploy_Inr) blast
      from finish_deployment_job_Inr(1)[OF f[rule_format, OF k]] have
        "\<exists>y \<in> set (deployments d). may_activate k w y"
        using rows_affected_pos[of "may_activate k w" "deployments d"] publish_keeps_deployments[OF p] by auto
      then obtain y where "y \<in> set (deployments d)" "may_activate k w y" by blast
      with req[of y] have False by (simp add: may_activate_def)
      then show ?thesis ..
    qed
  qed
  show "\<not> deployment_candidate amb x \<and> dp_status x \<noteq> DeploymentSucceeded" if "x \<in> set (deployments d)" "dp_id x = k"
    using req[OF that] that(1) assms(1) by (auto simp: deployment_candidate_def deployments_ok_def deployment_ok_def)
qed

text \<open>
  A deployment key names one package for good. After a deployment was created under a key,
  a replay with the same content returns that same deployment without creating anything, and a
  request with other content is refused as a conflict without changing anything.
\<close>

lemma deployment_key_idempotent:
  assumes "CreateDeployment dg amb i k pd cd src actor d = (Inr (x, True), d1)" and "cd \<noteq> []"
    and "recorded_location amb' src' = Inr loc'"
  shows "CreateDeployment dg' amb' i' k pd' cd' src' actor' d1 =
    (if cd' = cd then (Inr (x, False), d1) else (Inl ErrDeploymentIdempotencyConflict, d1))"
proof -
  from assms(1) obtain loc where
    ins: "insert_deployment (new_deployment amb i k pd cd loc actor None False) d = Inr (1, d1)"
    and x: "deployment_by_key d1 k = Some x"
    by (auto simp: CreateDeployment_def getDeploymentByIdempotencyKey_def
        split: sum.splits prod.splits if_splits option.splits)
  from ins have d1: "\<not> conflicts dp_idempotency_key (new_deployment amb i k pd cd loc actor None False) (deployments d)"
    "deployments d1 = deployments d @ [new_deployment amb i k pd cd loc actor None False]"
    by (auto simp: insert_deployment_def guardR_eq_Inr split: if_splits)
  have k: "dp_idempotency_key (new_deployment amb i k pd cd loc actor None False) = k"
    by (simp add: new_deployment_def)
  have "x = new_deployment amb i k pd cd loc actor None False"
    using x d1 k by (auto simp: deployment_by_key_def find_append conflicts_def split: option.splits
        dest!: find_eq_SomeD)
  then have fields: "dp_content_digest x = cd" "dp_status x = DeploymentQueued" by (simp_all add: new_deployment_def)
  have "conflicts dp_idempotency_key (new_deployment amb' i' k pd' cd' loc' actor' None False) (deployments d1)"
    using d1(2) by (simp add: conflicts_def new_deployment_def)
  then show ?thesis
    using assms(2,3) x fields
    by (simp add: CreateDeployment_def insert_deployment_def deploymentContentDigest_def
        getDeploymentByIdempotencyKey_def)
qed

section \<open>Retry chains\<close>

definition retry_step :: "deployment_row list \<Rightarrow> (string \<times> string) set" where
  "retry_step t = {(p, dp_id x) | p x. x \<in> set t \<and> dp_retry_of x = Some p}"

lemma retry_chain_sound:
  "set acc \<subseteq> (retry_step t)\<^sup>+ `` {r} \<Longrightarrow> set (retry_chain n t acc) \<subseteq> (retry_step t)\<^sup>+ `` {r}"
proof (induction n t acc rule: retry_chain.induct)
  case (2 n t acc)
  let ?found = "filter (\<lambda>x. dp_id x \<notin> set acc \<and> (\<exists>p \<in> set acc. dp_retry_of x = Some p)) t"
  have "set (acc @ map dp_id ?found) \<subseteq> (retry_step t)\<^sup>+ `` {r}"
  proof
    fix y assume "y \<in> set (acc @ map dp_id ?found)"
    then consider "y \<in> set acc" | x p where "x \<in> set t" "p \<in> set acc" "dp_retry_of x = Some p" "y = dp_id x" by auto
    then show "y \<in> (retry_step t)\<^sup>+ `` {r}"
    proof cases
      case 1
      with "2.prems" show ?thesis by blast
    next
      case 2
      then have "(p, y) \<in> retry_step t" by (auto simp: retry_step_def)
      moreover have "(r, p) \<in> (retry_step t)\<^sup>+" using "2.prems" 2(2) by blast
      ultimately show ?thesis by (auto intro: trancl_into_trancl)
    qed
  qed
  with 2 show ?case by (simp add: Let_def)
qed simp

lemma retry_chain_complete:
  assumes "length (filter (\<lambda>x. dp_id x \<notin> set acc) t) \<le> n"
  shows "set acc \<subseteq> set (retry_chain n t acc) \<and> (retry_step t) `` set (retry_chain n t acc) \<subseteq> set (retry_chain n t acc)"
  using assms
proof (induction n t acc rule: retry_chain.induct)
  case (1 t acc)
  then have "\<forall>x \<in> set t. dp_id x \<in> set acc" by (simp add: filter_empty_conv)
  then show ?case by (auto simp: retry_step_def)
next
  case (2 n t acc)
  let ?found = "filter (\<lambda>x. dp_id x \<notin> set acc \<and> (\<exists>p \<in> set acc. dp_retry_of x = Some p)) t"
  show ?case
  proof (cases "?found = []")
    case True
    then show ?thesis by (auto simp: retry_step_def filter_empty_conv)
  next
    case False
    let ?acc = "acc @ map dp_id ?found"
    have sub: "filter (\<lambda>x. dp_id x \<notin> set ?acc) t = filter (\<lambda>x. dp_id x \<notin> dp_id ` set ?found) (filter (\<lambda>x. dp_id x \<notin> set acc) t)"
      by auto
    from False obtain y where "y \<in> set ?found" by (meson list.set_sel(1))
    then have y: "y \<in> set (filter (\<lambda>x. dp_id x \<notin> set acc) t)" "\<not> dp_id y \<notin> dp_id ` set ?found" by auto
    have "length (filter (\<lambda>x. dp_id x \<notin> dp_id ` set ?found) (filter (\<lambda>x. dp_id x \<notin> set acc) t))
        < length (filter (\<lambda>x. dp_id x \<notin> set acc) t)"
      using y by (intro length_filter_less[of y])
    with sub "2.prems" have "length (filter (\<lambda>x. dp_id x \<notin> set ?acc) t) \<le> n" by simp
    from "2.IH"[OF refl False this] False show ?thesis by (simp add: Let_def)
  qed
qed

text \<open>
  The bounded search for retries finds exactly what the recursive query asks for: the
  deployments reached from the given one by one or more \<open>retry_of\<close> links, retries of retries
  included, however the links are arranged.
\<close>

lemma retries_of_is_transitive_closure:
  "set (retries_of d i) = (retry_step (deployments d))\<^sup>+ `` {i}"
proof
  let ?t = "deployments d" and ?acc = "map dp_id (filter (\<lambda>x. dp_retry_of x = Some i) (deployments d))"
  have "set ?acc \<subseteq> (retry_step ?t)\<^sup>+ `` {i}" by (auto simp: retry_step_def intro!: r_into_trancl)
  then show "set (retries_of d i) \<subseteq> (retry_step ?t)\<^sup>+ `` {i}"
    unfolding retries_of_def by (rule retry_chain_sound)
  have c: "set ?acc \<subseteq> set (retries_of d i)" "retry_step ?t `` set (retries_of d i) \<subseteq> set (retries_of d i)"
    unfolding retries_of_def using retry_chain_complete[of ?acc ?t "length ?t"] by simp_all
  show "(retry_step ?t)\<^sup>+ `` {i} \<subseteq> set (retries_of d i)"
  proof clarify
    fix y assume "(i, y) \<in> (retry_step ?t)\<^sup>+"
    then show "y \<in> set (retries_of d i)"
    proof (induction rule: trancl_induct)
      case (base y)
      then have "y \<in> set ?acc" by (auto simp: retry_step_def)
      with c(1) show ?case by blast
    next
      case (step y z)
      with c(2) show ?case by blast
    qed
  qed
qed

end
