(* ===== verification/Approvals.thy ===== *)
theory Approvals
  imports RunQueue
begin

text \<open>
  Approvals (\<open>internal/database/approvals.go\<close>): listing and reading approvals, which expire lazily
  on access, checking a reviewer's response against the fields the run declared, and the decision
  itself, which closes the approval and enqueues the continuation run in one transaction. An
  approval that is found expired is marked so and that mark is committed although the call
  reports an error. A response or declaration map is a list of pairs with distinct keys; where Go
  ranges over a map the model takes the order of the declarations, which only selects the error
  that is reported when a response has several faults. The messages leave out the quotes of
  \<open>%q\<close>.
\<close>

section \<open>Reading\<close>

definition lapsed :: "ambient \<Rightarrow> approval_row \<Rightarrow> bool" where
  "lapsed amb p = (p_status p = ''pending'' \<and> p_expires_at p \<le> pg_now amb)"

definition expire_approval :: "approval_row \<Rightarrow> approval_row" where
  "expire_approval p = p\<lparr>p_status := ''expired''\<rparr>"

definition without_images :: "approval_row \<Rightarrow> approval_row" where
  "without_images p = p\<lparr>p_fields := map (\<lambda>f. if af_type f = ''image'' then f\<lparr>af_value := JNull\<rparr> else f)
     (p_fields p)\<rparr>"

record list_cursor =
  lc_created_at :: time
  lc_id :: string

definition page_limit :: "int \<Rightarrow> nat" where
  "page_limit limit = (if limit \<le> 0 \<or> limit > 501 then 101 else nat limit)"

definition ListApprovalsPage :: "ambient \<Rightarrow> string \<Rightarrow> string \<Rightarrow> list_cursor \<Rightarrow> int \<Rightarrow> db
    \<Rightarrow> approval_row list \<times> db" where
  "ListApprovalsPage amb automationID status cursor limit d =
     (let d1 = d\<lparr>approvals := update_where (lapsed amb) expire_approval (approvals d)\<rparr>;
          key = (\<lambda>p. (p_created_at p, collation amb (p_id p)))
      in (map without_images (take (page_limit limit) (select_desc key
            (\<lambda>p. (automationID = [] \<or> p_automation_id p = automationID) \<and> (status = [] \<or> p_status p = status)
               \<and> (lc_id cursor = [] \<or> key p < (lc_created_at cursor, collation amb (lc_id cursor))))
            (approvals d1))), d1))"

definition GetApproval :: "ambient \<Rightarrow> string \<Rightarrow> db \<Rightarrow> approval_row store_result" where
  "GetApproval amb approvalID d =
     (let d1 = d\<lparr>approvals := update_where (\<lambda>p. p_id p = approvalID \<and> lapsed amb p) expire_approval (approvals d)\<rparr>
      in (case approval_by_id d1 approvalID of
            None \<Rightarrow> (Inl ErrApprovalNotFound, d1) | Some p \<Rightarrow> (Inr p, d1)))"

section \<open>Checking a response\<close>

text \<open>\<open>declarations[field.ID] = field\<close> in a loop: the last field with an identifier wins.\<close>

fun declarations :: "approval_field list \<Rightarrow> approval_field list" where
  "declarations [] = []"
| "declarations (f # fs) = (if af_id f \<in> af_id ` set fs then declarations fs else f # declarations fs)"

definition declared_field :: "approval_field list \<Rightarrow> string \<Rightarrow> approval_field option" where
  "declared_field fs i = find (\<lambda>f. af_id f = i) (declarations fs)"

definition invalid_response :: "string \<Rightarrow> string \<Rightarrow> store_error" where
  "invalid_response i msg = ErrApprovalInvalidResponse (''field '' @ i @ msg)"

definition supplied_fault :: "approval_field list \<Rightarrow> string \<Rightarrow> store_error option" where
  "supplied_fault fs key = (case declared_field fs key of
     None \<Rightarrow> Some (invalid_response key '' is not declared'')
   | Some f \<Rightarrow> if af_type f = ''image'' then Some (invalid_response key '' is display-only'') else None)"

text \<open>
  \<open>strings.TrimSpace(fmt.Sprint(value)) == ""\<close>: of the values JSON decodes to only a blank
  string prints as blanks.
\<close>

definition blank :: "json \<Rightarrow> bool" where
  "blank v = (case v of JNull \<Rightarrow> True | JString s \<Rightarrow> TrimSpace s = [] | _ \<Rightarrow> False)"

definition typed_value :: "approval_field \<Rightarrow> json \<Rightarrow> store_error + json option" where
  "typed_value f v =
     (if af_type f = ''text'' \<or> af_type f = ''textarea'' then
        (case v of
           JString s \<Rightarrow> guardR (rune_count s > 4000)
             (invalid_response (af_id f) '' must be text of at most 4000 characters'')
             (Inr (Some (JString (TrimSpace s))))
         | _ \<Rightarrow> Inl (invalid_response (af_id f) '' must be text of at most 4000 characters''))
      else if af_type f = ''number'' then
        (case v of JNumber _ \<Rightarrow> Inr (Some v) | _ \<Rightarrow> Inl (invalid_response (af_id f) '' must be a number''))
      else if af_type f = ''boolean'' then
        (case v of JBool _ \<Rightarrow> Inr (Some v) | _ \<Rightarrow> Inl (invalid_response (af_id f) '' must be a boolean''))
      else if af_type f = ''select'' then
        (case v of
           JString s \<Rightarrow> guardR (s \<notin> set (af_options f))
             (invalid_response (af_id f) '' must use a declared option'') (Inr (Some v))
         | _ \<Rightarrow> Inl (invalid_response (af_id f) '' must use a declared option''))
      else Inr None)"

definition given_value :: "json_map \<Rightarrow> approval_field \<Rightarrow> json" where
  "given_value supplied f = (case map_of supplied (af_id f) of Some v \<Rightarrow> v | None \<Rightarrow> af_value f)"

definition response_field :: "approval_action \<Rightarrow> json_map \<Rightarrow> approval_field \<Rightarrow> store_error + json option" where
  "response_field selected supplied f =
     (if af_type f = ''image'' then Inr None
      else let v = given_value supplied f in
        guardR (aa_requires_fields selected \<and> af_required f \<and> blank v)
          (invalid_response (af_id f) '' is required'')
          (if v = JNull then Inr None else typed_value f v))"

definition collect_field :: "approval_action \<Rightarrow> json_map \<Rightarrow> approval_field \<Rightarrow> json_map \<Rightarrow> store_error + json_map" where
  "collect_field selected supplied f res = bindR (response_field selected supplied f) (\<lambda>v.
     Inr (case v of None \<Rightarrow> res | Some x \<Rightarrow> res @ [(af_id f, x)]))"

definition validateApprovalResponse :: "approval_row \<Rightarrow> string \<Rightarrow> json_map \<Rightarrow> store_error + json_map" where
  "validateApprovalResponse p action supplied =
     (case find (\<lambda>a. aa_id a = action) (p_actions p) of
        None \<Rightarrow> Inl (ErrApprovalInvalidResponse ''action is not allowed'')
      | Some selected \<Rightarrow>
          (case first_failure (map (\<lambda>(k, v). (supplied_fault (p_fields p) k \<noteq> None,
                  the (supplied_fault (p_fields p) k))) supplied) of
             Some e \<Rightarrow> Inl e
           | None \<Rightarrow> foldR (collect_field selected supplied) (declarations (p_fields p)) []))"

section \<open>Deciding\<close>

definition approval_trigger_key :: "approval_row \<Rightarrow> string" where
  "approval_trigger_key p = p_automation_id p @ '':approval:'' @ p_id p"

definition decision_status :: "string \<Rightarrow> string" where
  "decision_status action =
     (if action = ''approve'' then ''approved'' else if action = ''reject'' then ''rejected'' else [])"

definition response_json :: "approval_response \<Rightarrow> json" where
  "response_json r = JObject [(''approvalId'', JString (rs_approval_id r)), (''key'', JString (rs_key r)),
     (''action'', JString (rs_action r)), (''fields'', JObject (rs_fields r))]"

text \<open>A repeated decision is answered again when it names the recorded action, fields and key.\<close>

definition replays_decision :: "approval_row \<Rightarrow> string \<Rightarrow> string \<Rightarrow> json_map \<Rightarrow> db \<Rightarrow> bool" where
  "replays_decision p idempotencyKey action supplied d =
     (case (validateApprovalResponse p action supplied, p_response p) of
        (Inr given, Some recorded) \<Rightarrow>
          rs_action recorded = action \<and> set (rs_fields recorded) = set given
          \<and> (case run_of_event d (approval_trigger_key p) idempotencyKey of
               None \<Rightarrow> False | Some r \<Rightarrow> p_action_run_id p = Some (r_id r))
      | _ \<Rightarrow> False)"

definition decided :: "ambient \<Rightarrow> string \<Rightarrow> string \<Rightarrow> approval_response \<Rightarrow> string \<Rightarrow> approval_row \<Rightarrow> approval_row" where
  "decided amb status actor response runID p =
     p\<lparr>p_status := status, p_resolved_at := Some (go_now amb), p_resolved_by := actor,
       p_response := Some response, p_action_run_id := Some runID\<rparr>"

definition continuation_event :: "ambient \<Rightarrow> string \<Rightarrow> string \<Rightarrow> string \<Rightarrow> approval_response \<Rightarrow> approval_row \<Rightarrow> event_row" where
  "continuation_event amb eventID idempotencyKey actor response p =
     event_row_of eventID (approval_trigger_key p) idempotencyKey
       \<lparr>et_automation = p_automation_id p, et_id = ''approval'', et_type = ''approval''\<rparr>
       (go_now amb) (go_now amb) (JObject [(''approval'', response_json response)])
       [(''source'', JString ''approval''), (''actor'', JString actor), (''approvalId'', JString (p_id p))]"

definition record_decision :: "ambient \<Rightarrow> string \<Rightarrow> string \<Rightarrow> string \<Rightarrow> json_map \<Rightarrow> manifest \<Rightarrow> approval_row \<Rightarrow> db
    \<Rightarrow> store_error + db" where
  "record_decision amb idempotencyKey action actor given m p d =
     (let eventID = newID amb 0 ''evt''; runID = newID amb 1 ''run''; status = decision_status action;
          response = \<lparr>rs_approval_id = p_id p, rs_key = p_approval_key p, rs_action = action, rs_fields = given\<rparr>
      in bindR (insert_event (continuation_event amb eventID idempotencyKey actor response p) d) (\<lambda>d1.
         bindR (insert_run (queued_run amb runID (p_automation_id p) (p_revision_id p) eventID
             (ex_retries (mf_execution m) + 1) (effective_policy m) (pg_now amb)) d1) (\<lambda>d2.
         guardR (status = []) ErrDatabase
         (bindR (insertAuditEvent amb 2 (''approval.'' @ status) (p_automation_id p) actor
             [(''approvalId'', DString (p_id p)), (''runId'', DString runID), (''action'', DString action)]
             (d2\<lparr>approvals := update_where (\<lambda>q. p_id q = p_id p) (decided amb status actor response runID)
                (approvals d2)\<rparr>))
           (enqueueNotificationEvent amb 3 ''approval.resolved'' (p_automation_id p) (p_id p)
             [(''approvalId'', DString (p_id p)), (''title'', DString (p_title p)), (''status'', DString status),
              (''resolvedBy'', DString actor), (''actionRunId'', DString runID)])))))"

definition decide :: "ambient \<Rightarrow> string \<Rightarrow> string \<Rightarrow> string \<Rightarrow> json_map \<Rightarrow> string \<Rightarrow> approval_row \<Rightarrow> db
    \<Rightarrow> store_error + unit \<times> db" where
  "decide amb idempotencyKey expectedRevision action supplied actor p d =
     guardR (expectedRevision = [] \<or> expectedRevision \<noteq> p_revision_id p) ErrAutomationRevisionChanged
     (case automation_by_id d (p_automation_id p) of
        None \<Rightarrow> Inl ErrNoRows
      | Some a \<Rightarrow>
        (case Option.bind (au_active_revision_id a) (revision_by_id d) of
           None \<Rightarrow> Inl ErrNoRows
         | Some v \<Rightarrow>
             guardR (rv_id v \<noteq> p_revision_id p) ErrAutomationRevisionChanged
             (bindR (validateApprovalResponse p action supplied) (\<lambda>given.
              bindR (record_decision amb idempotencyKey action actor given (rv_manifest v) p d)
                (\<lambda>d1. Inr ((), d1))))))"

definition ResolveApproval :: "ambient \<Rightarrow> string \<Rightarrow> string \<Rightarrow> string \<Rightarrow> string \<Rightarrow> json_map \<Rightarrow> string \<Rightarrow> db
    \<Rightarrow> (approval_row \<times> bool) store_result" where
  "ResolveApproval amb approvalID idempotencyKey expectedRevision action supplied actor d =
     (case approval_by_id d approvalID of
        None \<Rightarrow> (Inl ErrApprovalNotFound, d)
      | Some p \<Rightarrow>
        if p_status p \<noteq> ''pending'' then
          (if replays_decision p idempotencyKey action supplied d then (Inr (p, False), d)
           else (Inl ErrApprovalResolved, d))
        else if p_expires_at p \<le> go_now amb then
          (Inl ErrApprovalExpired,
           d\<lparr>approvals := update_where (\<lambda>q. p_id q = approvalID) expire_approval (approvals d)\<rparr>)
        else
          (case transact (decide amb idempotencyKey expectedRevision action supplied actor p) d of
             (Inl e, d1) \<Rightarrow> (Inl e, d1)
           | (Inr _, d1) \<Rightarrow>
               (case GetApproval amb approvalID d1 of
                  (Inl e, d2) \<Rightarrow> (Inl e, d2) | (Inr q, d2) \<Rightarrow> (Inr (q, True), d2))))"

end
