(* ===== verification/ApprovalProofs.thy ===== *)
theory ApprovalProofs
  imports Approvals RunQueueProofs Samples
begin

text \<open>
  What the approval operations guarantee: the invariant of the table and its preservation, that a
  response which is accepted answers the declared fields with values of their types, and that an
  approval is decided once.
\<close>

section \<open>Accepted responses\<close>

lemma declarations_sub: "set (declarations fs) \<subseteq> set fs"
  by (induction fs) auto

lemma declarations_ids: "af_id ` set (declarations fs) = af_id ` set fs"
  by (induction fs) auto

lemma declarations_distinct: "distinct (map af_id (declarations fs))"
proof (induction fs)
  case (Cons f fs)
  then show ?case using declarations_ids[of fs] by auto
qed simp

lemma declared_field_iff:
  "declared_field fs i = Some f \<longleftrightarrow> f \<in> set (declarations fs) \<and> af_id f = i"
  unfolding declared_field_def by (rule find_key_iff[OF declarations_distinct])

definition answers :: "approval_action \<Rightarrow> json_map \<Rightarrow> approval_field \<Rightarrow> json option \<Rightarrow> bool" where
  "answers selected supplied f v =
     (case v of
        Some x \<Rightarrow> typed_value f (given_value supplied f) = Inr (Some x) \<and> af_type f \<noteq> ''image''
      | None \<Rightarrow> af_type f = ''image'' \<or> given_value supplied f = JNull
          \<or> af_type f \<notin> {''text'', ''textarea'', ''number'', ''boolean'', ''select''})"

lemma response_field_answers:
  assumes "response_field selected supplied f = Inr v"
  shows "answers selected supplied f v"
    and "aa_requires_fields selected \<Longrightarrow> af_required f \<Longrightarrow> af_type f \<noteq> ''image'' \<Longrightarrow> \<not> blank (given_value supplied f)"
  using assms
  by (auto simp: response_field_def answers_def Let_def guardR_eq_Inr typed_value_def
      split: if_splits option.splits json.splits)

lemma collect_field_Inr:
  "collect_field selected supplied f acc = Inr res \<longleftrightarrow> (\<exists>v. response_field selected supplied f = Inr v
     \<and> res = (case v of None \<Rightarrow> acc | Some x \<Rightarrow> acc @ [(af_id f, x)]))"
  by (auto simp: collect_field_def bindR_eq_Inr)

text \<open>Collecting the fields yields one entry for each field that has a value, and no other.\<close>

lemma collect_fields:
  assumes "foldR (collect_field selected supplied) fs acc = Inr res" "distinct (map af_id fs)"
    "fst ` set acc \<inter> af_id ` set fs = {}" "distinct (map fst acc)"
  shows "distinct (map fst res) \<and> (\<forall>f \<in> set fs. response_field selected supplied f = Inr (map_of res (af_id f)))
    \<and> (\<forall>i. i \<notin> af_id ` set fs \<longrightarrow> map_of res i = map_of acc i)"
  using assms
proof (induction fs arbitrary: acc)
  case (Cons f fs)
  from Cons.prems(1) obtain v where v: "response_field selected supplied f = Inr v"
    and rest: "foldR (collect_field selected supplied) fs
      (case v of None \<Rightarrow> acc | Some x \<Rightarrow> acc @ [(af_id f, x)]) = Inr res"
    by (auto simp: collect_field_Inr bindR_eq_Inr)
  let ?acc = "case v of None \<Rightarrow> acc | Some x \<Rightarrow> acc @ [(af_id f, x)]"
  have new: "af_id f \<notin> fst ` set acc" "af_id f \<notin> af_id ` set fs" using Cons.prems by auto
  then have "fst ` set ?acc \<inter> af_id ` set fs = {}" "distinct (map fst ?acc)"
    using Cons.prems by (auto split: option.splits)
  note IH = Cons.IH[OF rest _ this]
  have "map_of acc (af_id f) = None" using new(1) by (simp add: map_of_eq_None_iff)
  then have "map_of ?acc (af_id f) = v" by (auto split: option.splits simp: map_add_def)
  moreover have "map_of ?acc i = map_of acc i" if "i \<noteq> af_id f" for i
    using that by (auto split: option.splits simp: map_add_def)
  ultimately show ?case using IH Cons.prems(2) v new(2) by auto
qed auto

lemma validate_Inr:
  assumes "validateApprovalResponse p action supplied = Inr res"
  obtains selected where "find (\<lambda>a. aa_id a = action) (p_actions p) = Some selected"
    "\<forall>(k, v) \<in> set supplied. supplied_fault (p_fields p) k = None"
    "foldR (collect_field selected supplied) (declarations (p_fields p)) [] = Inr res"
proof -
  from assms obtain selected where s: "find (\<lambda>a. aa_id a = action) (p_actions p) = Some selected"
    and none: "first_failure (map (\<lambda>(k, v). (supplied_fault (p_fields p) k \<noteq> None,
                  the (supplied_fault (p_fields p) k))) supplied) = None"
    and res: "foldR (collect_field selected supplied) (declarations (p_fields p)) [] = Inr res"
    unfolding validateApprovalResponse_def by (auto split: option.splits)
  from none have "\<forall>(k, v) \<in> set supplied. supplied_fault (p_fields p) k = None"
    by (auto simp: first_failure_None)
  with s res that show ?thesis by blast
qed

text \<open>
  A response that is accepted is well typed. Its entries are exactly the declared fields that
  are not images and have a value, supplied or preset; a text is trimmed, a choice is one of the
  declared options; when the chosen action requires fields, every required field has a value that
  is not blank; and the reviewer supplied no field that was not declared.
\<close>

lemma accepted_response_typed:
  assumes "validateApprovalResponse p action supplied = Inr res"
  shows "(\<exists>a \<in> set (p_actions p). aa_id a = action
      \<and> (aa_requires_fields a \<longrightarrow> (\<forall>f \<in> set (declarations (p_fields p)). af_required f \<and> af_type f \<noteq> ''image''
          \<longrightarrow> \<not> blank (given_value supplied f))))
    \<and> distinct (map fst res)
    \<and> (\<forall>(i, v) \<in> set res. \<exists>f \<in> set (declarations (p_fields p)). af_id f = i \<and> af_type f \<noteq> ''image''
        \<and> typed_value f (given_value supplied f) = Inr (Some v))
    \<and> (\<forall>(i, v) \<in> set supplied. i \<in> af_id ` set (p_fields p))"
proof -
  from assms obtain selected where s: "find (\<lambda>a. aa_id a = action) (p_actions p) = Some selected"
    and sup: "\<forall>(k, v) \<in> set supplied. supplied_fault (p_fields p) k = None"
    and res: "foldR (collect_field selected supplied) (declarations (p_fields p)) [] = Inr res"
    by (rule validate_Inr)
  let ?ds = "declarations (p_fields p)"
  from collect_fields[OF res declarations_distinct] have c: "distinct (map fst res)"
    "\<And>f. f \<in> set ?ds \<Longrightarrow> response_field selected supplied f = Inr (map_of res (af_id f))"
    "\<And>i. i \<notin> af_id ` set ?ds \<Longrightarrow> map_of res i = None" by auto
  have "\<exists>f \<in> set ?ds. af_id f = i \<and> af_type f \<noteq> ''image'' \<and> typed_value f (given_value supplied f) = Inr (Some v)"
    if "(i, v) \<in> set res" for i v
  proof -
    from that c(1) have m: "map_of res i = Some v" by simp
    with c(3)[of i] obtain f where f: "f \<in> set ?ds" "af_id f = i" by auto
    with response_field_answers(1)[OF c(2)[OF f(1)]] m show ?thesis by (auto simp: answers_def)
  qed
  moreover have "i \<in> af_id ` set (p_fields p)" if "(i, v) \<in> set supplied" for i v
    using sup that declarations_ids[of "p_fields p"]
    by (fastforce simp: supplied_fault_def declared_field_iff split: option.splits)
  moreover have "selected \<in> set (p_actions p) \<and> aa_id selected = action" using find_eq_SomeD[OF s] by simp
  ultimately show ?thesis
    using c(1) response_field_answers(2)[OF c(2)] by blast
qed

section \<open>One decision\<close>

lemma record_decision_Inr:
  assumes "record_decision amb key action actor given m p d = Inr d'"
  defines "rsp \<equiv> \<lparr>rs_approval_id = p_id p, rs_key = p_approval_key p, rs_action = action, rs_fields = given\<rparr>"
    and "runID \<equiv> newID amb 1 ''run''" and "eventID \<equiv> newID amb 0 ''evt''"
  obtains as ns where "decision_status action \<noteq> []"
    "d' = d\<lparr>events := events d @ [continuation_event amb eventID key actor rsp p],
      runs := runs d @ [queued_run amb runID (p_automation_id p) (p_revision_id p) eventID
         (ex_retries (mf_execution m) + 1) (effective_policy m) (pg_now amb)],
      approvals := update_where (\<lambda>q. p_id q = p_id p) (decided amb (decision_status action) actor rsp runID) (approvals d),
      audit_events := audit_events d @ as, notification_events := notification_events d @ ns\<rparr>"
    "insert_event (continuation_event amb eventID key actor rsp p) d = Inr (d\<lparr>events := events d @ [continuation_event amb eventID key actor rsp p]\<rparr>)"
    "insert_run (queued_run amb runID (p_automation_id p) (p_revision_id p) eventID
         (ex_retries (mf_execution m) + 1) (effective_policy m) (pg_now amb))
       (d\<lparr>events := events d @ [continuation_event amb eventID key actor rsp p]\<rparr>)
     = Inr (d\<lparr>events := events d @ [continuation_event amb eventID key actor rsp p],
          runs := runs d @ [queued_run amb runID (p_automation_id p) (p_revision_id p) eventID
         (ex_retries (mf_execution m) + 1) (effective_policy m) (pg_now amb)]\<rparr>)"
proof -
  let ?e = "continuation_event amb eventID key actor rsp p"
  let ?r = "queued_run amb runID (p_automation_id p) (p_revision_id p) eventID
         (ex_retries (mf_execution m) + 1) (effective_policy m) (pg_now amb)"
  let ?upd = "update_where (\<lambda>q. p_id q = p_id p) (decided amb (decision_status action) actor rsp runID)"
  from assms(1)[unfolded record_decision_def Let_def bindR_eq_Inr guardR_eq_Inr, folded rsp_def runID_def eventID_def]
  obtain d1 d2 d3 where d: "insert_event ?e d = Inr d1" "insert_run ?r d1 = Inr d2" "decision_status action \<noteq> []"
    and au: "insertAuditEvent amb 2 (''approval.'' @ decision_status action) (p_automation_id p) actor
             [(''approvalId'', DString (p_id p)), (''runId'', DString runID), (''action'', DString action)]
             (d2\<lparr>approvals := ?upd (approvals d2)\<rparr>) = Inr d3"
    and n: "enqueueNotificationEvent amb 3 ''approval.resolved'' (p_automation_id p) (p_id p)
             [(''approvalId'', DString (p_id p)), (''title'', DString (p_title p)), (''status'', DString (decision_status action)),
              (''resolvedBy'', DString actor), (''actionRunId'', DString runID)] d3 = Inr d'"
    by blast
  from d(1,2) have rows: "d1 = d\<lparr>events := events d @ [?e]\<rparr>" "d2 = d1\<lparr>runs := runs d1 @ [?r]\<rparr>"
    by (simp_all add: result_simps)
  obtain as where as: "d3 = d2\<lparr>approvals := ?upd (approvals d2)\<rparr>\<lparr>audit_events := audit_events (d2\<lparr>approvals := ?upd (approvals d2)\<rparr>) @ as\<rparr>"
    using insertAuditEvent_frame[OF au] by blast
  obtain ns where ns: "d' = d3\<lparr>notification_events := notification_events d3 @ ns\<rparr>"
    using enqueueNotificationEvent_frame[OF n] by blast
  show ?thesis
    by (rule that[OF d(3)]) (use d(1,2) rows as ns in simp_all)
qed

lemma ResolveApproval_Inr:
  assumes "ResolveApproval amb i key vn action supplied actor d = (Inr (q, created), d')"
  obtains (replay) p where "\<not> created" "d' = d" "q = p" "approval_by_id d i = Some p"
      "p_status p \<noteq> ''pending''" "replays_decision p key action supplied d"
  | (fresh) p a v given d1 where "created" "approval_by_id d i = Some p" "p_status p = ''pending''"
      "p_expires_at p > go_now amb" "vn = p_revision_id p" "automation_by_id d (p_automation_id p) = Some a"
      "au_active_revision_id a = Some (p_revision_id p)" "revision_by_id d (p_revision_id p) = Some v"
      "validateApprovalResponse p action supplied = Inr given"
      "record_decision amb key action actor given (rv_manifest v) p d = Inr d1"
      "GetApproval amb i d1 = (Inr q, d')"
proof (cases "approval_by_id d i")
  case None
  with assms show ?thesis by (simp add: ResolveApproval_def)
next
  case (Some p)
  note op = assms[unfolded ResolveApproval_def Some option.case]
  show ?thesis
  proof (cases "p_status p = ''pending''")
    case False
    with op Some replay show ?thesis by (simp split: if_splits)
  next
    case pending: True
    with op have live: "p_expires_at p > go_now amb" by (simp split: if_splits)
    with op pending obtain u d1 where t: "transact (decide amb key vn action supplied actor p) d = (Inr u, d1)"
      and g: "GetApproval amb i d1 = (Inr q, d')" and c: created
      by (simp split: prod.splits sum.splits)
    from t obtain a v given where "vn = p_revision_id p" "automation_by_id d (p_automation_id p) = Some a"
      "Option.bind (au_active_revision_id a) (revision_by_id d) = Some v" "rv_id v = p_revision_id p"
      "validateApprovalResponse p action supplied = Inr given"
      "record_decision amb key action actor given (rv_manifest v) p d = Inr d1"
      by (auto simp: transact_eq_Inr decide_def guardR_eq_Inr bindR_eq_Inr split: option.splits)
    moreover from this(3,4) have "au_active_revision_id a = Some (p_revision_id p)" "revision_by_id d (p_revision_id p) = Some v"
      using revision_table.lookup_SomeD by (auto simp: bind_eq_Some_conv)
    ultimately show ?thesis using fresh c Some pending live g by blast
  qed
qed


section \<open>The invariant\<close>

definition approval_ok :: "approval_row \<Rightarrow> bool" where
  "approval_ok p = (p_status p \<in> {''pending'', ''approved'', ''rejected'', ''expired''}
     \<and> (p_status p \<in> {''approved'', ''rejected''} \<longleftrightarrow> p_response p \<noteq> None)
     \<and> (p_response p \<noteq> None \<longleftrightarrow> p_action_run_id p \<noteq> None)
     \<and> (p_response p \<noteq> None \<longleftrightarrow> p_resolved_at p \<noteq> None))"

text \<open>A decided approval names the continuation run, which runs the revision that asked.\<close>

definition continued :: "run_row list \<Rightarrow> approval_row \<Rightarrow> bool" where
  "continued rs p = (\<forall>i. p_action_run_id p = Some i \<longrightarrow>
     list_ex (\<lambda>r. r_id r = i \<and> r_automation_id r = p_automation_id p \<and> r_revision_id r = p_revision_id p) rs)"

definition approvals_ok :: "db \<Rightarrow> bool" where
  "approvals_ok d = (distinct (map p_id (approvals d))
     \<and> distinct (map (\<lambda>p. (p_automation_id p, p_approval_key p)) (approvals d))
     \<and> list_all (\<lambda>p. approval_ok p \<and> continued (runs d) p) (approvals d))"

lemma continued_code [code]:
  "continued rs p = (case p_action_run_id p of None \<Rightarrow> True | Some i \<Rightarrow>
     list_ex (\<lambda>r. r_id r = i \<and> r_automation_id r = p_automation_id p \<and> r_revision_id r = p_revision_id p) rs)"
  by (auto simp: continued_def split: option.splits)

lemma decision_status_cases: "decision_status action \<noteq> [] \<Longrightarrow> decision_status action \<in> {''approved'', ''rejected''}"
  by (simp add: decision_status_def split: if_splits)

lemma decided_ok: "decision_status action \<noteq> [] \<Longrightarrow> approval_ok (decided amb (decision_status action) actor rsp runID p)"
  using decision_status_cases[of action] by (auto simp: approval_ok_def decided_def)

lemma decided_fields [simp]:
  "p_id (decided amb st actor rsp runID p) = p_id p"
  "p_automation_id (decided amb st actor rsp runID p) = p_automation_id p"
  "p_revision_id (decided amb st actor rsp runID p) = p_revision_id p"
  "p_approval_key (decided amb st actor rsp runID p) = p_approval_key p"
  "p_fields (decided amb st actor rsp runID p) = p_fields p"
  "p_actions (decided amb st actor rsp runID p) = p_actions p"
  "p_status (decided amb st actor rsp runID p) = st"
  "p_response (decided amb st actor rsp runID p) = Some rsp"
  "p_action_run_id (decided amb st actor rsp runID p) = Some runID"
  by (simp_all add: decided_def)

lemma validate_decided [simp]:
  "validateApprovalResponse (decided amb st actor rsp runID p) = validateApprovalResponse p"
  by (intro ext) (simp only: validateApprovalResponse_def decided_fields)

text \<open>Runs keep their identity, so what approvals say about runs survives every other operation.\<close>

lemma continued_history:
  assumes "prefix (map run_identity rs) (map run_identity rs')" "continued rs p"
  shows "continued rs' p"
proof -
  have "\<exists>r' \<in> set rs'. run_identity r' = run_identity r" if "r \<in> set rs" for r
    using set_mono_prefix[OF assms(1)] that by (auto simp: image_subset_iff image_iff) metis
  then show ?thesis using assms(2) unfolding continued_def list_ex_iff run_identity_def by fastforce
qed

lemma approvals_ok_history:
  assumes "approvals_ok d" "history_extends d d'" "approvals d' = approvals d"
  shows "approvals_ok d'"
  using assms continued_history unfolding approvals_ok_def history_extends_def list_all_iff by metis

lemma approvals_ok_update:
  assumes "approvals_ok d" "approvals d' = update_where P f (approvals d)" "history_extends d d'"
    and "\<And>p. p \<in> set (approvals d) \<Longrightarrow> P p \<Longrightarrow> approval_ok p \<Longrightarrow> continued (runs d) p \<Longrightarrow> p_id (f p) = p_id p \<and> p_automation_id (f p) = p_automation_id p
      \<and> p_approval_key (f p) = p_approval_key p \<and> approval_ok (f p) \<and> continued (runs d') (f p)"
  shows "approvals_ok d'"
proof -
  have h: "continued (runs d') p" if "p \<in> set (approvals d)" for p
    using that assms(1,3) continued_history by (auto simp: approvals_ok_def history_extends_def list_all_iff)
  have each: "approval_ok p \<and> continued (runs d) p" if "p \<in> set (approvals d)" for p
    using assms(1) that by (simp add: approvals_ok_def list_all_iff)
  have "map p_id (approvals d') = map p_id (approvals d)"
    "map (\<lambda>p. (p_automation_id p, p_approval_key p)) (approvals d') = map (\<lambda>p. (p_automation_id p, p_approval_key p)) (approvals d)"
    unfolding assms(2) using assms(4) each by (auto intro!: map_update_where)
  moreover have "list_all (\<lambda>p. approval_ok p \<and> continued (runs d') p) (approvals d')"
    unfolding assms(2) list_all_iff using assms(4) h each by (auto elim!: update_whereE)
  ultimately show ?thesis using assms(1) by (simp add: approvals_ok_def)
qed

lemma expire_ok:
  assumes "approval_ok p" "p_status p = ''pending''"
  shows "approval_ok (expire_approval p)"
  using assms by (auto simp: approval_ok_def expire_approval_def)

lemma expire_where_ok:
  assumes "approvals_ok d" "\<And>p. p \<in> set (approvals d) \<Longrightarrow> P p \<Longrightarrow> p_status p = ''pending''"
  shows "approvals_ok (d\<lparr>approvals := update_where P expire_approval (approvals d)\<rparr>)"
  by (rule approvals_ok_update[OF assms(1), where P = P and f = expire_approval])
    (use assms(2) expire_ok in \<open>auto simp: expire_approval_def continued_def\<close>)

lemma GetApproval_ok: "approvals_ok d \<Longrightarrow> approvals_ok (snd (GetApproval amb i d))"
  using expire_where_ok[of d "\<lambda>p. p_id p = i \<and> lapsed amb p"]
  by (simp add: GetApproval_def Let_def lapsed_def split: option.splits)

lemma ListApprovalsPage_ok: "approvals_ok d \<Longrightarrow> approvals_ok (snd (ListApprovalsPage amb a s c l d))"
  using expire_where_ok[of d "lapsed amb"] by (simp add: ListApprovalsPage_def Let_def lapsed_def)


text \<open>The row a decision leaves behind, and that reading it back changes nothing.\<close>

lemma decision_lookup:
  assumes "approval_by_id d i = Some p" "record_decision amb key action actor given m p d = Inr d1"
  shows "approval_by_id d1 i = Some (decided amb (decision_status action) actor
      \<lparr>rs_approval_id = p_id p, rs_key = p_approval_key p, rs_action = action, rs_fields = given\<rparr> (newID amb 1 ''run'') p)"
    "\<And>r. r \<in> set (approvals d1) \<Longrightarrow> p_id r = i \<Longrightarrow> p_status r \<in> {''approved'', ''rejected''}"
proof -
  let ?rsp = "\<lparr>rs_approval_id = p_id p, rs_key = p_approval_key p, rs_action = action, rs_fields = given\<rparr>"
  let ?f = "decided amb (decision_status action) actor ?rsp (newID amb 1 ''run'')"
  from assms(2) obtain as ns where st: "decision_status action \<noteq> []" and
    ap: "approvals d1 = update_where (\<lambda>q. p_id q = p_id p) ?f (approvals d)"
    by (rule record_decision_Inr) simp
  have i: "p_id p = i" using approval_table.lookup_SomeD[OF assms(1)] by simp
  show "approval_by_id d1 i = Some (?f p)"
    unfolding approval_by_id_def ap using assms(1)[unfolded approval_by_id_def]
    by (subst find_update_where) (auto simp: i)
  fix r assume "r \<in> set (approvals d1)" and r: "p_id r = i"
  then have "r \<in> set (update_where (\<lambda>q. p_id q = p_id p) ?f (approvals d))" by (simp add: ap)
  then show "p_status r \<in> {''approved'', ''rejected''}"
  proof (cases rule: update_whereE)
    case (updated x)
    with decision_status_cases[OF st] show ?thesis by (simp only: decided_fields)
  next
    case kept
    with r i show ?thesis by simp
  qed
qed

lemma decision_result:
  assumes "approval_by_id d i = Some p"
    "record_decision amb key action actor given m p d = Inr d1" "GetApproval amb i d1 = (Inr q, d')"
  shows "d' = d1"
    "q = decided amb (decision_status action) actor
      \<lparr>rs_approval_id = p_id p, rs_key = p_approval_key p, rs_action = action, rs_fields = given\<rparr> (newID amb 1 ''run'') p"
    "approval_by_id d1 i = Some q" "p_status q \<in> {''approved'', ''rejected''}"
proof -
  note look = decision_lookup[OF assms(1,2)]
  have kept: "update_where (\<lambda>p. p_id p = i \<and> lapsed amb p) expire_approval (approvals d1) = approvals d1"
    using look(2) by (intro update_where_none) (fastforce simp: lapsed_def)
  with look(1) assms(3) show "d' = d1" "q = decided amb (decision_status action) actor
      \<lparr>rs_approval_id = p_id p, rs_key = p_approval_key p, rs_action = action, rs_fields = given\<rparr> (newID amb 1 ''run'') p"
    "approval_by_id d1 i = Some q"
    by (auto simp: GetApproval_def Let_def)
  from approval_table.lookup_SomeD[OF this(3)] show "p_status q \<in> {''approved'', ''rejected''}"
    by (auto dest!: look(2))
qed

lemma record_decision_ok:
  assumes "record_decision amb key action actor given m p d = Inr d'" "p \<in> set (approvals d)"
  shows "queue_ok d \<Longrightarrow> queue_ok d'" "history_extends d d'"
    "approvals_ok d \<Longrightarrow> approvals_ok d'"
proof -
  let ?rsp = "\<lparr>rs_approval_id = p_id p, rs_key = p_approval_key p, rs_action = action, rs_fields = given\<rparr>"
  let ?e = "continuation_event amb (newID amb 0 ''evt'') key actor ?rsp p"
  let ?r = "queued_run amb (newID amb 1 ''run'') (p_automation_id p) (p_revision_id p) (newID amb 0 ''evt'')
     (ex_retries (mf_execution m) + 1) (effective_policy m) (pg_now amb)"
  from assms(1) obtain as ns where st: "decision_status action \<noteq> []" and
    d': "d' = d\<lparr>events := events d @ [?e], runs := runs d @ [?r],
      approvals := update_where (\<lambda>q. p_id q = p_id p) (decided amb (decision_status action) actor ?rsp (newID amb 1 ''run'')) (approvals d),
      audit_events := audit_events d @ as, notification_events := notification_events d @ ns\<rparr>"
    and ins: "insert_event ?e d = Inr (d\<lparr>events := events d @ [?e]\<rparr>)"
      "insert_run ?r (d\<lparr>events := events d @ [?e]\<rparr>) = Inr (d\<lparr>events := events d @ [?e], runs := runs d @ [?r]\<rparr>)"
    by (rule record_decision_Inr)
  show h: "history_extends d d'" by (rule history_insert) (simp_all add: d')
  show "queue_ok d \<Longrightarrow> queue_ok d'"
    using queue_insert_pair(1)[OF _ ins] by (simp add: d' continuation_event_def)
  assume ok: "approvals_ok d"
  have same: "q = p" if "q \<in> set (approvals d)" "p_id q = p_id p" for q
    using that ok assms(2) by (auto simp: approvals_ok_def distinct_map inj_on_def)
  show "approvals_ok d'"
    by (rule approvals_ok_update[OF ok _ h, where P = "\<lambda>q. p_id q = p_id p"
          and f = "decided amb (decision_status action) actor ?rsp (newID amb 1 ''run'')"])
      (use same decided_ok[OF st] in \<open>auto simp: d' continued_def\<close>)
qed

lemma ResolveApproval_ok:
  assumes "ResolveApproval amb i key vn action supplied actor d = (res, d')"
  shows "queue_ok d \<Longrightarrow> queue_ok d'" "history_extends d d'" "approvals_ok d \<Longrightarrow> approvals_ok d'"
proof -
  have "(queue_ok d \<longrightarrow> queue_ok d') \<and> history_extends d d' \<and> (approvals_ok d \<longrightarrow> approvals_ok d')"
  proof (cases res)
    case (Inr x)
    obtain q created where x: "x = (q, created)" by (cases x)
    from assms[unfolded Inr x] show ?thesis
    proof (cases rule: ResolveApproval_Inr)
      case (fresh p a v given d1)
      have "p \<in> set (approvals d)" using approval_table.lookup_SomeD[OF fresh(2)] by simp
      with record_decision_ok[OF fresh(10)] decision_result(1)[OF fresh(2,10,11)] show ?thesis by simp
    qed simp
  next
    case (Inl e)
    show ?thesis
    proof (cases "approval_by_id d i")
      case None
      with assms show ?thesis by (auto simp: ResolveApproval_def)
    next
      case (Some p)
      note p = approval_table.lookup_SomeD[OF Some]
      consider (same) "d' = d"
        | (expired) "p_status p = ''pending''"
            "d' = d\<lparr>approvals := update_where (\<lambda>q. p_id q = i) expire_approval (approvals d)\<rparr>"
        | (read) d1 where "transact (decide amb key vn action supplied actor p) d = (Inr (), d1)"
            "GetApproval amb i d1 = (Inl e, d')"
        using assms Inl by (auto simp: ResolveApproval_def Some transact_eq_Inl split: if_splits prod.splits sum.splits)
      then show ?thesis
      proof cases
        case expired
        have "approvals_ok d'" if ok: "approvals_ok d"
          unfolding expired(2)
        proof (rule expire_where_ok[OF ok])
          fix q assume "q \<in> set (approvals d)" "p_id q = i"
          with p ok have "q = p" by (auto simp: approvals_ok_def distinct_map inj_on_def)
          with expired(1) show "p_status q = ''pending''" by simp
        qed
        with expired(2) show ?thesis by auto
      next
        case read
        from read(1) obtain given m where r: "record_decision amb key action actor given m p d = Inr d1"
          by (auto simp: transact_eq_Inr decide_def guardR_eq_Inr bindR_eq_Inr split: option.splits)
        from decision_lookup(1)[OF Some r]
        have "approval_by_id (d1\<lparr>approvals := update_where (\<lambda>p. p_id p = i \<and> lapsed amb p) expire_approval (approvals d1)\<rparr>) i \<noteq> None"
          by (subst approval_table.lookup_update) (simp_all add: expire_approval_def)
        with read(2) have False by (auto simp: GetApproval_def Let_def split: option.splits)
        then show ?thesis ..
      qed simp
    qed
  qed
  then show "queue_ok d \<Longrightarrow> queue_ok d'" "history_extends d d'" "approvals_ok d \<Longrightarrow> approvals_ok d'" by blast+
qed


lemma decided_run_of_event:
  assumes "queue_ok d" "record_decision amb key action actor given m p d = Inr d1" "p \<in> set (approvals d)"
  shows "(\<exists>r. run_of_event d1 (approval_trigger_key p) k = Some r \<and> r_id r = newID amb 1 ''run'') \<longleftrightarrow> k = key"
proof -
  let ?rsp = "\<lparr>rs_approval_id = p_id p, rs_key = p_approval_key p, rs_action = action, rs_fields = given\<rparr>"
  let ?e = "continuation_event amb (newID amb 0 ''evt'') key actor ?rsp p"
  let ?r = "queued_run amb (newID amb 1 ''run'') (p_automation_id p) (p_revision_id p) (newID amb 0 ''evt'')
     (ex_retries (mf_execution m) + 1) (effective_policy m) (pg_now amb)"
  from assms(2) have t: "events d1 = events d @ [?e]" "runs d1 = runs d @ [?r]"
    by (auto elim!: record_decision_Inr)
  have ok: "queue_ok d1" by (rule record_decision_ok(1)[OF assms(2,3,1)])
  have e: "e_id ?e = newID amb 0 ''evt''" "e_trigger_key ?e = approval_trigger_key p" "e_external_id ?e = key"
    by (simp_all add: continuation_event_def)
  show ?thesis
  proof
    assume "k = key"
    with t e have "run_of_event d1 (approval_trigger_key p) k = Some ?r"
      by (subst run_of_event_iff[OF ok]) auto
    then show "\<exists>r. run_of_event d1 (approval_trigger_key p) k = Some r \<and> r_id r = newID amb 1 ''run''" by simp
  next
    assume "\<exists>r. run_of_event d1 (approval_trigger_key p) k = Some r \<and> r_id r = newID amb 1 ''run''"
    then obtain r x where r: "r \<in> set (runs d1)" "r_id r = newID amb 1 ''run''"
      and x: "x \<in> set (events d1)" "e_id x = r_event_id r" "e_external_id x = k"
      by (auto simp: run_of_event_iff[OF ok])
    have uniq: "distinct (map r_id (runs d1))" "distinct (map e_id (events d1))"
      using ok by (simp_all add: queue_tables_ok_def)
    have "r = ?r" by (rule key_unique[OF uniq(1) r(1)]) (simp_all add: t(2) r(2))
    then have "e_id x = e_id ?e" using x(2) e(1) by simp
    then have "x = ?e" by (rule key_unique[OF uniq(2) x(1), rotated]) (simp add: t(1))
    with x(3) e(3) show "k = key" by simp
  qed
qed

text \<open>
  What an accepted decision found and did, and how every later request is answered as long as the
  history of runs is only extended and the decided row is still the one recorded.
\<close>

lemma accepted_decision:
  assumes "ResolveApproval amb i key vn action supplied actor d = (Inr (q, True), d1)"
  shows "\<exists>p a r. approval_by_id d i = Some p \<and> p_status p = ''pending'' \<and> p_expires_at p > go_now amb
      \<and> vn = p_revision_id p \<and> automation_by_id d (p_automation_id p) = Some a \<and> au_active_revision_id a = Some vn
      \<and> runs d1 = runs d @ [r] \<and> r_status r = RunQueued \<and> r_revision_id r = vn \<and> p_action_run_id q = Some (r_id r)"
    and "p_status q \<noteq> ''pending''" "q \<in> set (approvals d1)" "p_id q = i"
  using assms
proof (atomize (full), cases rule: ResolveApproval_Inr)
  case (fresh p a v given d2)
  note res = decision_result[OF fresh(2,10,11)]
  from fresh(10) have "\<exists>r. runs d1 = runs d @ [r] \<and> r_status r = RunQueued \<and> r_revision_id r = vn \<and> p_action_run_id q = Some (r_id r)"
    unfolding res(1,2) by (rule record_decision_Inr) (simp add: fresh(5))
  then have "\<exists>p a r. approval_by_id d i = Some p \<and> p_status p = ''pending'' \<and> p_expires_at p > go_now amb
      \<and> vn = p_revision_id p \<and> automation_by_id d (p_automation_id p) = Some a \<and> au_active_revision_id a = Some vn
      \<and> runs d1 = runs d @ [r] \<and> r_status r = RunQueued \<and> r_revision_id r = vn \<and> p_action_run_id q = Some (r_id r)"
    using fresh(2-7) by metis
  moreover have "p_status q \<noteq> ''pending''" using res(4) by auto
  moreover have "approval_by_id d1 i = Some q" using res(1,3) by simp
  ultimately show "(\<exists>p a r. approval_by_id d i = Some p \<and> p_status p = ''pending'' \<and> p_expires_at p > go_now amb
      \<and> vn = p_revision_id p \<and> automation_by_id d (p_automation_id p) = Some a \<and> au_active_revision_id a = Some vn
      \<and> runs d1 = runs d @ [r] \<and> r_status r = RunQueued \<and> r_revision_id r = vn \<and> p_action_run_id q = Some (r_id r))
    \<and> p_status q \<noteq> ''pending'' \<and> q \<in> set (approvals d1) \<and> p_id q = i"
    using approval_table.lookup_SomeD by blast
qed simp

lemma run_of_event_key:
  assumes "queue_ok d" "run_of_event d t k = Some r" "run_of_event d t k' = Some r'" "r_id r = r_id r'"
  shows "k = k'"
proof -
  from assms(2,3) obtain x x' where r: "r \<in> set (runs d)" "r' \<in> set (runs d)"
    and x: "x \<in> set (events d)" "e_id x = r_event_id r" "e_external_id x = k"
      "x' \<in> set (events d)" "e_id x' = r_event_id r'" "e_external_id x' = k'"
    by (auto simp: run_of_event_iff[OF assms(1)])
  have uniq: "distinct (map r_id (runs d))" "distinct (map e_id (events d))"
    using assms(1) by (simp_all add: queue_tables_ok_def)
  have "r = r'" by (rule key_unique[OF uniq(1) r assms(4)])
  then have "x = x'" using key_unique[OF uniq(2) x(1,4)] x(2,5) by simp
  with x(3,6) show ?thesis by simp
qed

lemma decision_answered_later:
  assumes "queue_ok d" and "ResolveApproval amb i key vn action supplied actor d = (Inr (q, True), d1)"
    and "queue_ok d2" and "history_extends d1 d2" and "approval_by_id d2 i = Some q"
  shows "ResolveApproval amb' i key' vn' action' supplied' actor' d2 =
      (if action' = action \<and> key' = key \<and> (\<exists>g g'. validateApprovalResponse q action supplied = Inr g
            \<and> validateApprovalResponse q action' supplied' = Inr g' \<and> set g = set g')
       then (Inr (q, False), d2) else (Inl ErrApprovalResolved, d2))"
  using assms(2)
proof (cases rule: ResolveApproval_Inr)
  case (fresh p a v given d0)
  note res = decision_result[OF fresh(2,10,11)]
  have p: "p \<in> set (approvals d)" using approval_table.lookup_SomeD[OF fresh(2)] by simp
  have ok1: "queue_ok d1" unfolding res(1) by (rule record_decision_ok(1)[OF fresh(10) p assms(1)])
  note ran = decided_run_of_event[OF assms(1) fresh(10) p, folded res(1)]
  obtain r where "run_of_event d1 (approval_trigger_key p) key = Some r" "r_id r = newID amb 1 ''run''" using ran[of key] by blast
  from run_of_event_persists[OF ok1 assms(3,4) this(1)] this(2) obtain r' where
    r': "run_of_event d2 (approval_trigger_key p) key = Some r'" "r_id r' = newID amb 1 ''run''"
    by (auto simp: run_identity_def)
  have later: "(\<exists>r. run_of_event d2 (approval_trigger_key p) key' = Some r \<and> r_id r = newID amb 1 ''run'') \<longleftrightarrow> key' = key"
    using r' run_of_event_key[OF assms(3) _ r'(1), of key'] by auto
  have "replays_decision q key' action' supplied' d2 \<longleftrightarrow>
    action' = action \<and> key' = key \<and> (\<exists>g g'. validateApprovalResponse q action supplied = Inr g
            \<and> validateApprovalResponse q action' supplied' = Inr g' \<and> set g = set g')"
  proof -
    have key: "approval_trigger_key q = approval_trigger_key p" by (simp add: res(2) approval_trigger_key_def)
    have v: "validateApprovalResponse q = validateApprovalResponse p" by (simp add: res(2))
    have "replays_decision q key' action' supplied' d2 \<longleftrightarrow>
      (\<exists>g'. validateApprovalResponse p action' supplied' = Inr g' \<and> action = action' \<and> set given = set g'
        \<and> (\<exists>r. run_of_event d2 (approval_trigger_key p) key' = Some r \<and> r_id r = newID amb 1 ''run''))"
      unfolding replays_decision_def key v
      by (cases "validateApprovalResponse p action' supplied'"; cases "run_of_event d2 (approval_trigger_key p) key'")
        (auto simp: res(2))
    then show ?thesis unfolding v fresh(9) later by (metis (no_types, lifting) Inr_inject)
  qed
  moreover have "p_status q \<noteq> ''pending''" using res(4) by auto
  ultimately show ?thesis using assms(5) by (simp add: ResolveApproval_def)
qed simp

section \<open>Examples\<close>

definition sample_approval :: approval_row where
  "sample_approval = \<lparr>p_id = ''approval_1'', p_automation_id = ''orders'', p_revision_id = ''rev_a'',
     p_requested_by_run_id = ''run_1'', p_approval_key = ''refund'', p_status = ''pending'', p_title = ''Refund'',
     p_description = [], p_fields = [\<lparr>af_id = ''note'', af_label = ''Note'', af_type = ''text'', af_required = True,
        af_value = JNull, af_description = [], af_options = []\<rparr>],
     p_actions = [\<lparr>aa_id = ''approve'', aa_label = ''Approve'', aa_style = [], aa_requires_fields = True\<rparr>,
        \<lparr>aa_id = ''reject'', aa_label = ''Reject'', aa_style = [], aa_requires_fields = False\<rparr>],
     p_expires_at = 9 * hour, p_created_at = 0, p_resolved_at = None, p_resolved_by = [], p_response = None,
     p_action_run_id = None, p_expiring_notified_at = None\<rparr>"

definition sample_pending :: db where
  "sample_pending = sample_db\<lparr>approvals := [sample_approval]\<rparr>"

definition sample_decided :: "(approval_row \<times> bool) store_result" where
  "sample_decided = ResolveApproval (sample_ambient 3 hour) ''approval_1'' ''key-1'' ''rev_a'' ''approve''
     [(''note'', JString '' ok '')] ''alice'' sample_pending"

lemma sample_decided_accepted:
  "ResolveApproval (sample_ambient 3 hour) ''approval_1'' ''key-1'' ''rev_a'' ''approve''
     [(''note'', JString '' ok '')] ''alice'' sample_pending = (Inr (fst (projr (fst sample_decided)), True), snd sample_decided)"
proof -
  have ok: "is_ok (fst sample_decided)" "snd (projr (fst sample_decided))" by code_simp+
  then show ?thesis using ok_result[of sample_decided] by (cases "projr (fst sample_decided)") (simp add: sample_decided_def)
qed

end
