(* ===== verification/Notifications.thy ===== *)
theory Notifications
  imports Approvals
begin

text \<open>
  The notification outbox (\<open>internal/database/notifications.go\<close>): events are written in the
  transaction of what they report, expanded once into one delivery for each configured
  destination, and each delivery is leased to a worker, retried with a growing delay, and
  finally succeeded or failed. The statuses of a delivery are those of a run.
\<close>

definition notificationLeaseDuration :: duration where
  "notificationLeaseDuration = minute"

record notification_target =
  nt_destination_id :: string
  nt_provider :: string
  nt_config :: json

record notification_delivery =
  nv_id :: string
  nv_event_id :: string
  nv_event_type :: string
  nv_automation_id :: string
  nv_subject_id :: string
  nv_payload :: "(string \<times> details) list"
  nv_event_created_at :: time
  nv_destination_id :: string
  nv_provider :: string
  nv_config :: json
  nv_attempt :: int
  nv_max_attempts :: int

definition delivery_by_id :: "db \<Rightarrow> string \<Rightarrow> delivery_row option" where
  "delivery_by_id d k = find (\<lambda>x. nd_id x = k) (notification_deliveries d)"

definition notification_by_id :: "db \<Rightarrow> string \<Rightarrow> notification_event_row option" where
  "notification_by_id d k = find (\<lambda>n. n_id n = k) (notification_events d)"

interpretation delivery_table: keyed_table nd_id notification_deliveries
    "\<lambda>t d. d\<lparr>notification_deliveries := t\<rparr>" delivery_by_id
  by unfold_locales (simp_all add: delivery_by_id_def)

interpretation notification_table: keyed_table n_id notification_events
    "\<lambda>t d. d\<lparr>notification_events := t\<rparr>" notification_by_id
  by unfold_locales (simp_all add: notification_by_id_def)

section \<open>Writing events\<close>

text \<open>A plain \<open>INSERT INTO notification_events\<close>, which fails on a repeated identifier or subject.\<close>

definition insert_notification :: "notification_event_row \<Rightarrow> db \<Rightarrow> store_error + db" where
  "insert_notification n d =
     guardR (conflicts n_id n (notification_events d)
        \<or> conflicts (\<lambda>x. (n_event_type x, n_subject_id x)) n (notification_events d)) ErrDatabase
       (Inr (d\<lparr>notification_events := notification_events d @ [n]\<rparr>))"

definition new_notification :: "ambient \<Rightarrow> string \<Rightarrow> string \<Rightarrow> string \<Rightarrow> string \<Rightarrow> (string \<times> details) list
    \<Rightarrow> notification_event_row" where
  "new_notification amb eventID eventType automationID subjectID payload =
     \<lparr>n_id = eventID, n_event_type = eventType, n_automation_id = automationID,
      n_subject_id = subjectID, n_payload = payload, n_status = ''pending'',
      n_created_at = pg_now amb, n_expanded_at = None\<rparr>"

definition EnqueueNotificationTest :: "ambient \<Rightarrow> string \<Rightarrow> db \<Rightarrow> string store_result" where
  "EnqueueNotificationTest amb actor = transact (\<lambda>d.
     let eventID = newID amb 0 ''notification''; subjectID = newID amb 1 ''test'' in
     bindR (insert_notification (new_notification amb eventID ''notification.test'' ''system'' subjectID []) d) (\<lambda>d1.
     bindR (insertAuditEvent amb 2 ''notification.test_enqueued'' [] actor [(''eventId'', DString eventID)] d1) (\<lambda>d2.
     Inr (eventID, d2))))"

definition resend_notification :: "ambient \<Rightarrow> string \<Rightarrow> approval_row \<Rightarrow> db \<Rightarrow> store_error + string \<times> db" where
  "resend_notification amb actor p d =
     (let eventID = newID amb 0 ''notification''; subjectID = p_id p @ '':resend:'' @ eventID in
      bindR (insert_notification (new_notification amb eventID ''approval.requested'' (p_automation_id p) subjectID
          [(''approvalId'', DString (p_id p)), (''title'', DString (p_title p)),
           (''description'', DString (p_description p)), (''expiresAt'', DTime (p_expires_at p))]) d) (\<lambda>d1.
      bindR (insertAuditEvent amb 1 ''approval.notification_resent'' (p_automation_id p) actor
          [(''approvalId'', DString (p_id p)), (''eventId'', DString eventID)] d1) (\<lambda>d2.
      Inr (eventID, d2))))"

definition ResendPendingApprovalNotification :: "ambient \<Rightarrow> string \<Rightarrow> string \<Rightarrow> db \<Rightarrow> string store_result" where
  "ResendPendingApprovalNotification amb approvalID actor d =
     (case approval_by_id d approvalID of
        None \<Rightarrow> (Inl ErrApprovalNotFound, d)
      | Some p \<Rightarrow>
          if p_status p \<noteq> ''pending'' then (Inl ErrApprovalResolved, d)
          else if p_expires_at p \<le> go_now amb then
            (Inl ErrApprovalExpired,
             d\<lparr>approvals := update_where (\<lambda>q. p_id q = approvalID) expire_approval (approvals d)\<rparr>)
          else transact (resend_notification amb actor p) d)"

definition expiring_soon :: "ambient \<Rightarrow> time \<Rightarrow> approval_row \<Rightarrow> bool" where
  "expiring_soon amb horizon p = (p_status p = ''pending'' \<and> p_expires_at p > pg_now amb
     \<and> p_expires_at p \<le> horizon \<and> p_expiring_notified_at p = None \<and> \<not> locked amb [''approvals'', p_id p])"

definition warn_expiring :: "ambient \<Rightarrow> nat \<times> approval_row \<Rightarrow> db \<Rightarrow> store_error + db" where
  "warn_expiring amb item d = (case item of (k, p) \<Rightarrow>
     bindR (enqueueNotificationEvent amb k ''approval.expiring'' (p_automation_id p) (p_id p)
         [(''approvalId'', DString (p_id p)), (''title'', DString (p_title p)),
          (''description'', DString (p_description p)), (''expiresAt'', DTime (p_expires_at p))] d) (\<lambda>d1.
     Inr (d1\<lparr>approvals := update_where (\<lambda>q. p_id q = p_id p)
        (\<lambda>q. q\<lparr>p_expiring_notified_at := Some (pg_now amb)\<rparr>) (approvals d1)\<rparr>)))"

definition EnqueueExpiringApprovalNotifications :: "ambient \<Rightarrow> time \<Rightarrow> int \<Rightarrow> db \<Rightarrow> nat store_result" where
  "EnqueueExpiringApprovalNotifications amb horizon limit = transact (\<lambda>d.
     let limit = (if limit \<le> 0 then 100 else nat limit);
         values = select_limit (\<lambda>p. (p_expires_at p, collation amb (p_id p))) (expiring_soon amb horizon)
           limit (approvals d)
     in bindR (foldR (warn_expiring amb) (enumerate 0 values) d) (\<lambda>d1. Inr (length values, d1)))"

section \<open>Expanding events\<close>

definition AcquireNotificationEvent :: "ambient \<Rightarrow> db \<Rightarrow> notification_event_row option" where
  "AcquireNotificationEvent amb d =
     select_first (\<lambda>n. (n_created_at n, collation amb (n_id n)))
       (\<lambda>n. n_status n = ''pending'' \<and> \<not> locked amb [''notification_events'', n_id n]) (notification_events d)"

definition new_delivery :: "ambient \<Rightarrow> string \<Rightarrow> string \<Rightarrow> notification_target \<Rightarrow> delivery_row" where
  "new_delivery amb deliveryID eventID target =
     \<lparr>nd_id = deliveryID, nd_event_id = eventID, nd_destination_id = nt_destination_id target,
      nd_provider = nt_provider target, nd_provider_config = nt_config target, nd_status = RunQueued,
      nd_attempt = 0, nd_max_attempts = 5, nd_available_at = pg_now amb, nd_lease_owner = None,
      nd_lease_expires_at = None, nd_last_error = [], nd_response_code = None,
      nd_created_at = pg_now amb, nd_delivered_at = None\<rparr>"

definition is_object :: "json \<Rightarrow> bool" where
  "is_object v = (case v of JObject _ \<Rightarrow> True | _ \<Rightarrow> False)"

definition insert_delivery :: "ambient \<Rightarrow> string \<Rightarrow> nat \<times> notification_target \<Rightarrow> db \<Rightarrow> store_error + db" where
  "insert_delivery amb eventID item d = (case item of (k, target) \<Rightarrow>
     let row = new_delivery amb (newID amb k ''delivery'') eventID target in
     guardR (\<not> is_object (nt_config target)) ErrDatabase
     (if conflicts (\<lambda>x. (nd_event_id x, nd_destination_id x)) row (notification_deliveries d) then Inr d
      else guardR (conflicts nd_id row (notification_deliveries d)) ErrDatabase
        (Inr (d\<lparr>notification_deliveries := notification_deliveries d @ [row]\<rparr>))))"

definition ExpandNotificationEvent :: "ambient \<Rightarrow> string \<Rightarrow> notification_target list \<Rightarrow> db \<Rightarrow> unit store_result" where
  "ExpandNotificationEvent amb eventID targets = transact (\<lambda>d.
     case notification_by_id d eventID of
       None \<Rightarrow> Inl ErrNoRows
     | Some n \<Rightarrow>
         if n_status n \<noteq> ''pending'' then Inr ((), d)
         else bindR (foldR (insert_delivery amb eventID) (enumerate 0 targets) d) (\<lambda>d1.
           Inr ((), d1\<lparr>notification_events := update_where (\<lambda>x. n_id x = eventID)
             (\<lambda>x. x\<lparr>n_status := (if targets = [] then ''skipped'' else ''expanded''),
                   n_expanded_at := Some (pg_now amb)\<rparr>) (notification_events d1)\<rparr>)))"

section \<open>Delivering\<close>

definition delivery_candidate :: "ambient \<Rightarrow> db \<Rightarrow> delivery_row \<Rightarrow> bool" where
  "delivery_candidate amb d x = ((nd_status x = RunQueued
       \<or> nd_status x = RunRunning \<and> opt_holds (\<lambda>t. t \<le> pg_now amb) (nd_lease_expires_at x))
     \<and> nd_available_at x \<le> pg_now amb \<and> notification_by_id d (nd_event_id x) \<noteq> None
     \<and> \<not> locked amb [''notification_deliveries'', nd_id x])"

definition claim_delivery :: "ambient \<Rightarrow> string \<Rightarrow> delivery_row \<Rightarrow> delivery_row" where
  "claim_delivery amb workerID x =
     x\<lparr>nd_status := RunRunning, nd_attempt := nd_attempt x + 1, nd_lease_owner := Some workerID,
       nd_lease_expires_at := Some (pg_now amb + notificationLeaseDuration)\<rparr>"

definition claimed_delivery :: "delivery_row \<Rightarrow> notification_event_row \<Rightarrow> notification_delivery" where
  "claimed_delivery x n =
     \<lparr>nv_id = nd_id x, nv_event_id = nd_event_id x, nv_event_type = n_event_type n,
      nv_automation_id = n_automation_id n, nv_subject_id = n_subject_id n, nv_payload = n_payload n,
      nv_event_created_at = n_created_at n, nv_destination_id = nd_destination_id x,
      nv_provider = nd_provider x, nv_config = nd_provider_config x, nv_attempt = nd_attempt x + 1,
      nv_max_attempts = nd_max_attempts x\<rparr>"

definition AcquireNotificationDelivery :: "ambient \<Rightarrow> string \<Rightarrow> db \<Rightarrow> notification_delivery option store_result" where
  "AcquireNotificationDelivery amb workerID = transact (\<lambda>d.
     case select_first (\<lambda>x. (nd_available_at x, nd_created_at x, collation amb (nd_id x)))
            (delivery_candidate amb d) (notification_deliveries d) of
       None \<Rightarrow> Inr (None, d)
     | Some x \<Rightarrow>
         Inr (map_option (claimed_delivery x) (notification_by_id d (nd_event_id x)),
           d\<lparr>notification_deliveries := update_where (\<lambda>y. nd_id y = nd_id x) (claim_delivery amb workerID)
              (notification_deliveries d)\<rparr>))"

definition owns_delivery :: "string \<Rightarrow> string \<Rightarrow> delivery_row \<Rightarrow> bool" where
  "owns_delivery k workerID x =
     (nd_id x = k \<and> nd_status x = RunRunning \<and> nd_lease_owner x = Some workerID)"

definition delivered :: "ambient \<Rightarrow> int \<Rightarrow> delivery_row \<Rightarrow> delivery_row" where
  "delivered amb responseCode x =
     x\<lparr>nd_status := RunSucceeded, nd_response_code := Some responseCode, nd_delivered_at := Some (pg_now amb),
       nd_lease_owner := None, nd_lease_expires_at := None, nd_last_error := []\<rparr>"

definition CompleteNotificationDelivery :: "ambient \<Rightarrow> notification_delivery \<Rightarrow> string \<Rightarrow> int \<Rightarrow> db \<Rightarrow> unit store_result" where
  "CompleteNotificationDelivery amb v workerID responseCode = transact (\<lambda>d.
     let own = owns_delivery (nv_id v) workerID in
     guardR (\<not> int4 responseCode) ErrDatabase
     (guardR (rows_affected own (notification_deliveries d) \<noteq> 1) ErrNotificationLeaseLost
     (bindR (insertAuditEvent amb 0 ''notification.delivered'' (nv_automation_id v) ''system:notifications''
         [(''deliveryId'', DString (nv_id v)), (''destinationId'', DString (nv_destination_id v)),
          (''eventType'', DString (nv_event_type v)), (''provider'', DString (nv_provider v))]
         (d\<lparr>notification_deliveries := update_where own (delivered amb responseCode) (notification_deliveries d)\<rparr>)) (\<lambda>d1.
      Inr ((), d1)))))"

text \<open>
  \<open>time.Duration(1<<min(attempt-1, 6)) * 10 * time.Second\<close>, at most ten minutes; a negative shift
  count panics.
\<close>

definition notificationRetryDelay :: "int \<Rightarrow> duration option" where
  "notificationRetryDelay attempt =
     (if attempt < 1 then None
      else Some (min (2 ^ nat (min (attempt - 1) 6) * 10 * second) (10 * minute)))"

definition failed_delivery :: "ambient \<Rightarrow> bool \<Rightarrow> duration \<Rightarrow> string \<Rightarrow> delivery_row \<Rightarrow> delivery_row" where
  "failed_delivery amb retry dl msg x =
     x\<lparr>nd_status := (if retry then RunQueued else RunFailed), nd_available_at := go_now amb + dl,
       nd_last_error := msg, nd_lease_owner := None, nd_lease_expires_at := None\<rparr>"

definition FailNotificationDelivery :: "ambient \<Rightarrow> notification_delivery \<Rightarrow> string \<Rightarrow> string \<Rightarrow> bool \<Rightarrow> db \<Rightarrow> unit store_result" where
  "FailNotificationDelivery amb v workerID message retryable = transact (\<lambda>d.
     let retry = (retryable \<and> nv_attempt v < nv_max_attempts v); own = owns_delivery (nv_id v) workerID;
         delay = (if retry then notificationRetryDelay (nv_attempt v) else Some 0) in
     case delay of None \<Rightarrow> Inl Panic
     | Some dl \<Rightarrow>
       guardR (rows_affected own (notification_deliveries d) \<noteq> 1) ErrNotificationLeaseLost
       (let d1 = d\<lparr>notification_deliveries := update_where own (failed_delivery amb retry dl message) (notification_deliveries d)\<rparr> in
        if retry then Inr ((), d1)
        else bindR (insertAuditEvent amb 0 ''notification.failed'' (nv_automation_id v) ''system:notifications''
               [(''deliveryId'', DString (nv_id v)), (''destinationId'', DString (nv_destination_id v)),
                (''eventType'', DString (nv_event_type v)), (''provider'', DString (nv_provider v)),
                (''attempts'', DInt (nv_attempt v)), (''error'', DString message)] d1) (\<lambda>d2.
             Inr ((), d2))))"

end
