(* ===== verification/NotificationProofs.thy ===== *)
theory NotificationProofs
  imports Notifications Samples Leases RunQueueProofs
begin

text \<open>
  Proofs about the notification outbox: the invariant of its two tables and that every operation
  keeps it, that an event is expanded exactly once into one delivery for each destination, the
  lease contract of the deliveries, and the outcome of a failed attempt.
\<close>

section \<open>The invariant of the outbox\<close>

definition delivery_ok :: "delivery_row \<Rightarrow> bool" where
  "delivery_ok x = ((nd_status x = RunRunning) = (nd_lease_owner x \<noteq> None)
     \<and> (nd_lease_owner x = None) = (nd_lease_expires_at x = None)
     \<and> (nd_status x = RunSucceeded) = (nd_delivered_at x \<noteq> None)
     \<and> 0 \<le> nd_attempt x \<and> (nd_status x = RunQueued \<or> 1 \<le> nd_attempt x) \<and> nd_max_attempts x = 5)"

definition notification_ok :: "notification_event_row \<Rightarrow> bool" where
  "notification_ok n = (n_status n \<in> {''pending'', ''expanded'', ''skipped''}
     \<and> (n_status n = ''pending'') = (n_expanded_at n = None))"

abbreviation destination_key :: "delivery_row \<Rightarrow> string \<times> string" where
  "destination_key x \<equiv> (nd_event_id x, nd_destination_id x)"

abbreviation subject_key :: "notification_event_row \<Rightarrow> string \<times> string" where
  "subject_key n \<equiv> (n_event_type n, n_subject_id n)"

definition outbox_tables_ok :: "notification_event_row list \<Rightarrow> delivery_row list \<Rightarrow> bool" where
  "outbox_tables_ok ns xs =
     (distinct (map n_id ns) \<and> distinct (map subject_key ns) \<and> list_all notification_ok ns
      \<and> distinct (map nd_id xs) \<and> distinct (map destination_key xs) \<and> list_all delivery_ok xs
      \<and> (\<forall>x \<in> set xs. \<exists>n \<in> set ns. n_id n = nd_event_id x \<and> n_status n = ''expanded''))"

abbreviation outbox_ok :: "db \<Rightarrow> bool" where
  "outbox_ok d \<equiv> outbox_tables_ok (notification_events d) (notification_deliveries d)"

lemma outbox_update_deliveries:
  assumes "outbox_tables_ok ns xs"
    and "\<And>x. x \<in> set xs \<Longrightarrow> P x \<Longrightarrow> delivery_ok x \<Longrightarrow>
      nd_id (f x) = nd_id x \<and> destination_key (f x) = destination_key x \<and> delivery_ok (f x)"
  shows "outbox_tables_ok ns (update_where P f xs)"
proof -
  have ok: "delivery_ok x" if "x \<in> set xs" for x
    using assms(1) that by (auto simp: outbox_tables_ok_def list_all_iff)
  have "map nd_id (update_where P f xs) = map nd_id xs"
    "map destination_key (update_where P f xs) = map destination_key xs"
    using assms(2) ok by (auto intro!: map_update_where)
  moreover have "list_all delivery_ok (update_where P f xs)"
    using assms(2) ok unfolding list_all_iff by (auto elim!: update_whereE)
  moreover have "\<exists>n \<in> set ns. n_id n = nd_event_id x \<and> n_status n = ''expanded''"
    if "x \<in> set (update_where P f xs)" for x
    using that assms ok unfolding outbox_tables_ok_def by (auto elim!: update_whereE)
  ultimately show ?thesis using assms(1) by (simp add: outbox_tables_ok_def)
qed

lemma outbox_insert_event:
  assumes "outbox_tables_ok ns xs" "\<not> conflicts n_id n ns" "\<not> conflicts subject_key n ns"
    and "n_status n = ''pending''" "n_expanded_at n = None"
  shows "outbox_tables_ok (ns @ [n]) xs"
  using assms by (auto simp: outbox_tables_ok_def conflicts_def notification_ok_def)

lemma insert_notification_ok:
  "outbox_ok d \<Longrightarrow> insert_notification (new_notification amb i ty a s p) d = Inr d' \<Longrightarrow> outbox_ok d'"
  by (auto simp: insert_notification_def result_simps new_notification_def intro!: outbox_insert_event)

lemma enqueueNotificationEvent_outbox:
  "outbox_ok d \<Longrightarrow> enqueueNotificationEvent amb k ty a s p d = Inr d' \<Longrightarrow> outbox_ok d'"
  by (auto simp: enqueueNotificationEvent_def Let_def result_simps intro!: outbox_insert_event split: if_splits)

lemma insertAuditEvent_outbox:
  "insertAuditEvent amb k action a actor ds d = Inr d' \<Longrightarrow> outbox_ok d' = outbox_ok d"
  by (auto dest!: insertAuditEvent_frame)

lemma EnqueueNotificationTest_ok:
  assumes "outbox_ok d" shows "outbox_ok (snd (EnqueueNotificationTest amb actor d))"
  unfolding EnqueueNotificationTest_def using assms
  by (rule transact_invariant) (auto simp: Let_def result_simps intro: insert_notification_ok[OF assms])

lemma ResendPendingApprovalNotification_ok:
  assumes "outbox_ok d" shows "outbox_ok (snd (ResendPendingApprovalNotification amb i actor d))"
proof -
  have "outbox_ok (snd (transact (resend_notification amb actor p) d))" for p
    using assms by (rule transact_invariant)
      (auto simp: resend_notification_def Let_def result_simps intro: insert_notification_ok[OF assms])
  with assms show ?thesis by (auto simp: ResendPendingApprovalNotification_def split: option.splits)
qed

lemma warn_expiring_ok:
  assumes "outbox_ok d" "warn_expiring amb item d = Inr d'" shows "outbox_ok d'"
proof -
  obtain k p where item: "item = (k, p)" by (cases item)
  from assms(2)[unfolded warn_expiring_def item prod.case bindR_eq_Inr] obtain d1 ty pl where
    "enqueueNotificationEvent amb k ty (p_automation_id p) (p_id p) pl d = Inr d1"
    "notification_events d' = notification_events d1" "notification_deliveries d' = notification_deliveries d1" by auto
  with enqueueNotificationEvent_outbox[OF assms(1)] show ?thesis by simp
qed

lemma EnqueueExpiringApprovalNotifications_ok:
  assumes "outbox_ok d" shows "outbox_ok (snd (EnqueueExpiringApprovalNotifications amb h l d))"
  unfolding EnqueueExpiringApprovalNotifications_def Let_def
proof (rule transact_invariant[where P = outbox_ok, OF assms], unfold bindR_eq_Inr, elim exE conjE)
  fix xs a d1 d' and n :: nat
  assume fold: "foldR (warn_expiring amb) xs d = Inr d1" and "Inr (n, d1) = Inr (a, d')"
  have "outbox_ok d1" by (rule foldR_invariant[where P = outbox_ok, OF fold assms]) (rule warn_expiring_ok)
  with \<open>Inr (n, d1) = Inr (a, d')\<close> show "outbox_ok d'" by simp
qed

section \<open>Expansion\<close>

lemma insert_delivery_Inr:
  assumes "insert_delivery amb i (k, t) d = Inr d'"
  obtains (repeated) "d' = d" "(i, nt_destination_id t) \<in> destination_key ` set (notification_deliveries d)"
  | (fresh) "d' = d\<lparr>notification_deliveries := notification_deliveries d @ [new_delivery amb (newID amb k ''delivery'') i t]\<rparr>"
      "(i, nt_destination_id t) \<notin> destination_key ` set (notification_deliveries d)"
      "newID amb k ''delivery'' \<notin> nd_id ` set (notification_deliveries d)"
proof -
  let ?row = "new_delivery amb (newID amb k ''delivery'') i t"
  have key: "destination_key ?row = (i, nt_destination_id t)" "nd_id ?row = newID amb k ''delivery''"
    by (simp_all add: new_delivery_def)
  show thesis
  proof (cases "conflicts destination_key ?row (notification_deliveries d)")
    case True
    with assms have "d' = d" by (simp add: insert_delivery_def Let_def guardR_eq_Inr)
    moreover from True have "(i, nt_destination_id t) \<in> destination_key ` set (notification_deliveries d)"
      unfolding conflicts_def key(1) by force
    ultimately show thesis by (rule repeated)
  next
    case False
    with assms have "d' = d\<lparr>notification_deliveries := notification_deliveries d @ [?row]\<rparr>"
      "\<not> conflicts nd_id ?row (notification_deliveries d)"
      by (simp_all add: insert_delivery_def Let_def guardR_eq_Inr)
    then show thesis using False unfolding conflicts_def key by (intro fresh) force+
  qed
qed

text \<open>
  The loop over the targets: other tables and the deliveries of other events stay as they were,
  the new rows belong to this event, and every target has one.
\<close>

lemma insert_deliveries_Inr:
  assumes "foldR (insert_delivery amb i) (enumerate k ts) d = Inr d'"
  shows "\<exists>xs. d' = d\<lparr>notification_deliveries := notification_deliveries d @ xs\<rparr>
    \<and> list_all (\<lambda>x. nd_event_id x = i \<and> delivery_ok x \<and> nd_status x = RunQueued
         \<and> (\<exists>t \<in> set ts. nd_destination_id x = nt_destination_id t \<and> nd_provider x = nt_provider t \<and> nd_provider_config x = nt_config t)) xs
    \<and> (distinct (map nd_id (notification_deliveries d)) \<longrightarrow> distinct (map nd_id (notification_deliveries d')))
    \<and> (distinct (map destination_key (notification_deliveries d)) \<longrightarrow> distinct (map destination_key (notification_deliveries d')))
    \<and> (\<forall>t \<in> set ts. (i, nt_destination_id t) \<in> destination_key ` set (notification_deliveries d'))"
  using assms
proof (induction ts arbitrary: k d)
  case Nil
  then show ?case by (intro exI[of _ "[]"]) simp
next
  case (Cons t ts)
  then obtain d1 where d1: "insert_delivery amb i (k, t) d = Inr d1"
    "foldR (insert_delivery amb i) (enumerate (Suc k) ts) d1 = Inr d'"
    by (auto simp: bindR_eq_Inr)
  let ?row = "new_delivery amb (newID amb k ''delivery'') i t"
  have row: "nd_event_id ?row = i" "nd_destination_id ?row = nt_destination_id t" "nd_provider ?row = nt_provider t"
    "nd_provider_config ?row = nt_config t" "nd_id ?row = newID amb k ''delivery''" "delivery_ok ?row" "nd_status ?row = RunQueued"
    by (simp_all add: new_delivery_def delivery_ok_def)
  from Cons.IH[OF d1(2)] obtain xs where xs: "d' = d1\<lparr>notification_deliveries := notification_deliveries d1 @ xs\<rparr>"
    "list_all (\<lambda>x. nd_event_id x = i \<and> delivery_ok x \<and> nd_status x = RunQueued
         \<and> (\<exists>t \<in> set ts. nd_destination_id x = nt_destination_id t \<and> nd_provider x = nt_provider t \<and> nd_provider_config x = nt_config t)) xs"
    "distinct (map nd_id (notification_deliveries d1)) \<Longrightarrow> distinct (map nd_id (notification_deliveries d'))"
    "distinct (map destination_key (notification_deliveries d1)) \<Longrightarrow> distinct (map destination_key (notification_deliveries d'))"
    "\<forall>t \<in> set ts. (i, nt_destination_id t) \<in> destination_key ` set (notification_deliveries d')" by blast
  from d1(1) show ?case
  proof (cases rule: insert_delivery_Inr)
    case repeated
    with xs show ?thesis by (intro exI[of _ xs]) (auto simp: list_all_iff)
  next
    case fresh
    with xs row show ?thesis by (intro exI[of _ "?row # xs"]) (auto simp: list_all_iff)
  qed
qed

lemma ExpandNotificationEvent_Inr:
  assumes "ExpandNotificationEvent amb i ts d = (Inr (), d')"
  obtains (settled) n where "notification_by_id d i = Some n" "n_status n \<noteq> ''pending''" "d' = d"
  | (expanded) n d1 where "notification_by_id d i = Some n" "n_status n = ''pending''"
      "foldR (insert_delivery amb i) (enumerate 0 ts) d = Inr d1"
      "d' = d1\<lparr>notification_events := update_where (\<lambda>x. n_id x = i)
         (\<lambda>x. x\<lparr>n_status := (if ts = [] then ''skipped'' else ''expanded''), n_expanded_at := Some (pg_now amb)\<rparr>)
         (notification_events d1)\<rparr>"
proof (cases "notification_by_id d i")
  case None
  with assms show thesis by (simp add: ExpandNotificationEvent_def transact_eq_Inr)
next
  case (Some n)
  show thesis
  proof (cases "n_status n = ''pending''")
    case True
    with assms Some obtain d1 where "foldR (insert_delivery amb i) (enumerate 0 ts) d = Inr d1"
      "d' = d1\<lparr>notification_events := update_where (\<lambda>x. n_id x = i)
         (\<lambda>x. x\<lparr>n_status := (if ts = [] then ''skipped'' else ''expanded''), n_expanded_at := Some (pg_now amb)\<rparr>)
         (notification_events d1)\<rparr>"
      by (auto simp: ExpandNotificationEvent_def transact_eq_Inr bindR_eq_Inr simp del: if_split)
    with Some True show thesis by (rule expanded)
  next
    case False
    with assms Some have "d' = d" by (simp add: ExpandNotificationEvent_def transact_eq_Inr)
    with Some False show thesis by (rule settled)
  qed
qed

lemma pending_without_deliveries:
  assumes "outbox_ok d" "n \<in> set (notification_events d)" "n_status n = ''pending''" "x \<in> set (notification_deliveries d)"
  shows "nd_event_id x \<noteq> n_id n"
proof
  assume "nd_event_id x = n_id n"
  with assms(1,4) obtain m where "m \<in> set (notification_events d)" "n_id m = n_id n" "n_status m = ''expanded''"
    by (auto simp: outbox_tables_ok_def)
  moreover have "distinct (map n_id (notification_events d))" using assms(1) by (simp add: outbox_tables_ok_def)
  ultimately show False using key_unique[of n_id "notification_events d" m n] assms(2,3) by auto
qed

lemma ExpandNotificationEvent_ok:
  assumes "outbox_ok d" shows "outbox_ok (snd (ExpandNotificationEvent amb i ts d))"
proof (cases "ExpandNotificationEvent amb i ts d")
  case (Pair res d')
  show ?thesis
  proof (cases res)
    case Inl
    with Pair have "d' = d" unfolding ExpandNotificationEvent_def by (simp only: transact_eq_Inl)
    with Pair assms show ?thesis by simp
  next
    case (Inr u)
    with Pair have "ExpandNotificationEvent amb i ts d = (Inr (), d')" by simp
    then show ?thesis
    proof (cases rule: ExpandNotificationEvent_Inr)
      case (settled n)
      with Pair assms show ?thesis by simp
    next
      case (expanded n d1)
      let ?f = "\<lambda>x. x\<lparr>n_status := (if ts = [] then ''skipped'' else ''expanded''), n_expanded_at := Some (pg_now amb)\<rparr>"
      from insert_deliveries_Inr[OF expanded(3)] obtain xs where xs: "d1 = d\<lparr>notification_deliveries := notification_deliveries d @ xs\<rparr>"
        and new: "list_all (\<lambda>x. nd_event_id x = i \<and> delivery_ok x \<and> (\<exists>t. t \<in> set ts)) xs"
        and dist: "distinct (map nd_id (notification_deliveries d1))" "distinct (map destination_key (notification_deliveries d1))"
        using assms unfolding outbox_tables_ok_def list_all_iff by blast
      let ?ns = "notification_events d"
      have n: "n \<in> set ?ns" "n_id n = i" using notification_table.lookup_SomeD[OF expanded(1)] by simp_all
      have events: "notification_events d' = update_where (\<lambda>x. n_id x = i) ?f ?ns"
        and deliveries: "notification_deliveries d' = notification_deliveries d @ xs" using expanded(4) xs by simp_all
      have "\<exists>m \<in> set (update_where (\<lambda>x. n_id x = i) ?f ?ns). n_id m = nd_event_id x \<and> n_status m = ''expanded''"
        if x: "x \<in> set (notification_deliveries d @ xs)" for x
      proof (cases "x \<in> set (notification_deliveries d)")
        case True
        with assms obtain m where m: "m \<in> set ?ns" "n_id m = nd_event_id x" "n_status m = ''expanded''"
          by (auto simp: outbox_tables_ok_def)
        moreover have "n_id m \<noteq> i" using pending_without_deliveries[OF assms n(1) expanded(2) True] m(2) n(2) by simp
        ultimately show ?thesis using update_where_miss[of m ?ns "\<lambda>x. n_id x = i"] by blast
      next
        case False
        with x new have "nd_event_id x = i" "ts \<noteq> []" by (auto simp: list_all_iff)
        then show ?thesis using update_where_hit[of n ?ns "\<lambda>x. n_id x = i" ?f] n by (intro bexI[of _ "?f n"]) auto
      qed
      moreover have "map n_id (update_where (\<lambda>x. n_id x = i) ?f ?ns) = map n_id ?ns"
        "map subject_key (update_where (\<lambda>x. n_id x = i) ?f ?ns) = map subject_key ?ns"
        by (intro map_update_where; simp)+
      moreover have "list_all notification_ok (update_where (\<lambda>x. n_id x = i) ?f ?ns)"
        using assms unfolding outbox_tables_ok_def list_all_iff by (auto simp: notification_ok_def elim!: update_whereE)
      moreover have "list_all delivery_ok (notification_deliveries d @ xs)"
        using assms new by (auto simp: outbox_tables_ok_def list_all_iff)
      ultimately have "outbox_ok d'" using assms dist xs unfolding outbox_tables_ok_def events deliveries by simp
      with Pair show ?thesis by simp
    qed
  qed
qed

section \<open>Deliveries\<close>

lemma AcquireNotificationDelivery_cases:
  assumes "AcquireNotificationDelivery amb w d = (res, d')"
  obtains (idle) "res = Inr None" "d' = d" "\<forall>x \<in> set (notification_deliveries d). \<not> delivery_candidate amb d x"
  | (claimed) x n where "x \<in> set (notification_deliveries d)" "delivery_candidate amb d x"
      "notification_by_id d (nd_event_id x) = Some n" "res = Inr (Some (claimed_delivery x n))"
      "d' = d\<lparr>notification_deliveries := update_where (\<lambda>y. nd_id y = nd_id x) (claim_delivery amb w) (notification_deliveries d)\<rparr>"
      "\<forall>y \<in> set (notification_deliveries d). delivery_candidate amb d y \<longrightarrow> nd_available_at x \<le> nd_available_at y"
proof (cases "select_first (\<lambda>x. (nd_available_at x, nd_created_at x, collation amb (nd_id x)))
    (delivery_candidate amb d) (notification_deliveries d)")
  case None
  with assms show thesis by (intro idle) (auto simp: AcquireNotificationDelivery_def transact_def select_first_None)
next
  case (Some x)
  note sel = select_first_Some[OF Some]
  then obtain n where n: "notification_by_id d (nd_event_id x) = Some n" by (auto simp: delivery_candidate_def)
  have "\<forall>y \<in> set (notification_deliveries d). delivery_candidate amb d y \<longrightarrow> nd_available_at x \<le> nd_available_at y"
    using sel(3) by (auto simp: less_eq_prod_def less_le)
  with sel(1,2) n Some assms show thesis
    by (intro claimed) (auto simp: AcquireNotificationDelivery_def transact_def)
qed

lemma claim_delivery_ok:
  "delivery_ok x \<Longrightarrow> nd_status x = RunQueued \<or> nd_status x = RunRunning \<Longrightarrow> delivery_ok (claim_delivery amb w x)"
  by (auto simp: delivery_ok_def claim_delivery_def)

lemma AcquireNotificationDelivery_ok:
  assumes "outbox_ok d" shows "outbox_ok (snd (AcquireNotificationDelivery amb w d))"
proof (cases "AcquireNotificationDelivery amb w d")
  case (Pair res d')
  then show ?thesis
  proof (cases rule: AcquireNotificationDelivery_cases)
    case idle
    with Pair assms show ?thesis by simp
  next
    case (claimed x n)
    have "y = x" if "y \<in> set (notification_deliveries d)" "nd_id y = nd_id x" for y
      using assms that claimed(1) key_unique[of nd_id "notification_deliveries d" y x] by (simp add: outbox_tables_ok_def)
    then have "outbox_tables_ok (notification_events d) (notification_deliveries d')"
      unfolding claimed(5) using claimed(2)
      by (auto intro!: outbox_update_deliveries[OF assms] claim_delivery_ok simp: delivery_candidate_def)
        (simp_all add: claim_delivery_def)
    with Pair claimed(5) show ?thesis by simp
  qed
qed

lemma audited:
  assumes "bindR (insertAuditEvent amb k action a actor ds d) (\<lambda>d1. Inr (x, d1)) = Inr (y, d')"
  shows "\<exists>as. d' = d\<lparr>audit_events := audit_events d @ as\<rparr>"
  using assms insertAuditEvent_frame by (auto simp: bindR_eq_Inr)

lemma CompleteNotificationDelivery_Inr:
  "CompleteNotificationDelivery amb v w c d = (Inr (), d') \<Longrightarrow>
    int4 c \<and> rows_affected (owns_delivery (nv_id v) w) (notification_deliveries d) = 1
    \<and> (\<exists>as. d' = d\<lparr>notification_deliveries := update_where (owns_delivery (nv_id v) w) (delivered amb c) (notification_deliveries d),
        audit_events := audit_events d @ as\<rparr>)"
  unfolding CompleteNotificationDelivery_def transact_eq_Inr Let_def guardR_eq_Inr
  by (elim conjE, drule audited) auto

definition gives_up :: "notification_delivery \<Rightarrow> bool \<Rightarrow> bool" where
  "gives_up v retryable = (\<not> retryable \<or> nv_max_attempts v \<le> nv_attempt v)"

lemma FailNotificationDelivery_Inr:
  assumes "FailNotificationDelivery amb v w msg rt d = (Inr (), d')"
  shows "rows_affected (owns_delivery (nv_id v) w) (notification_deliveries d) = 1
    \<and> (\<exists>dl as. (gives_up v rt \<longrightarrow> dl = 0) \<and> (\<not> gives_up v rt \<longrightarrow> notificationRetryDelay (nv_attempt v) = Some dl \<and> as = [])
        \<and> d' = d\<lparr>notification_deliveries := update_where (owns_delivery (nv_id v) w)
             (failed_delivery amb (\<not> gives_up v rt) dl msg) (notification_deliveries d), audit_events := audit_events d @ as\<rparr>)"
proof -
  have gu: "(rt \<and> nv_attempt v < nv_max_attempts v) = (\<not> gives_up v rt)" by (auto simp: gives_up_def)
  show ?thesis
  proof (cases "gives_up v rt")
    case True
    let ?d1 = "d\<lparr>notification_deliveries := update_where (owns_delivery (nv_id v) w)
        (failed_delivery amb False 0 msg) (notification_deliveries d)\<rparr>"
    from assms[unfolded FailNotificationDelivery_def Let_def gu transact_eq_Inr] True
    have own: "rows_affected (owns_delivery (nv_id v) w) (notification_deliveries d) = 1"
      and "\<exists>as. d' = ?d1\<lparr>audit_events := audit_events ?d1 @ as\<rparr>"
      by (simp_all only: simp_thms if_True if_False option.case guardR_eq_Inr) (elim conjE, erule audited)
    then obtain as where "d' = ?d1\<lparr>audit_events := audit_events ?d1 @ as\<rparr>" by blast
    with own True show ?thesis by (intro conjI exI[of _ 0] exI[of _ as]) simp_all
  next
    case False
    from assms[unfolded FailNotificationDelivery_def Let_def gu transact_eq_Inr] False show ?thesis
      by (cases "notificationRetryDelay (nv_attempt v)") (auto simp: guardR_eq_Inr intro!: exI[of _ "[]"])
  qed
qed

lemma settle_delivery_ok:
  assumes "outbox_ok d"
  shows "outbox_tables_ok (notification_events d)
      (update_where (owns_delivery k w) (delivered amb c) (notification_deliveries d))"
    "outbox_tables_ok (notification_events d)
      (update_where (owns_delivery k w) (failed_delivery amb r dl msg) (notification_deliveries d))"
  by (intro outbox_update_deliveries[OF assms]; simp add: owns_delivery_def delivered_def failed_delivery_def delivery_ok_def)+

lemma CompleteNotificationDelivery_ok:
  assumes "outbox_ok d" shows "outbox_ok (snd (CompleteNotificationDelivery amb v w c d))"
proof (cases "CompleteNotificationDelivery amb v w c d")
  case (Pair res d')
  show ?thesis
  proof (cases res)
    case Inl
    with Pair have "d' = d" unfolding CompleteNotificationDelivery_def by (simp only: transact_eq_Inl)
    with Pair assms show ?thesis by simp
  next
    case (Inr u)
    with Pair CompleteNotificationDelivery_Inr[of amb v w c d d'] settle_delivery_ok[OF assms] show ?thesis by auto
  qed
qed

lemma FailNotificationDelivery_ok:
  assumes "outbox_ok d" shows "outbox_ok (snd (FailNotificationDelivery amb v w msg rt d))"
proof (cases "FailNotificationDelivery amb v w msg rt d")
  case (Pair res d')
  show ?thesis
  proof (cases res)
    case Inl
    with Pair have "d' = d" unfolding FailNotificationDelivery_def by (simp only: transact_eq_Inl)
    with Pair assms show ?thesis by simp
  next
    case (Inr u)
    with Pair FailNotificationDelivery_Inr[of amb v w msg rt d d'] settle_delivery_ok[OF assms] show ?thesis by auto
  qed
qed

section \<open>The lease of a delivery\<close>

datatype delivery_write =
    DeliveredWrite ambient notification_delivery int
  | FailedWrite ambient notification_delivery string bool

fun write_delivery :: "delivery_write \<Rightarrow> string \<Rightarrow> string \<Rightarrow> db \<Rightarrow> bool \<times> db" where
  "write_delivery (DeliveredWrite amb v c) w k d =
     (case CompleteNotificationDelivery amb (v\<lparr>nv_id := k\<rparr>) w c d of (res, d') \<Rightarrow> (is_ok res, d'))"
| "write_delivery (FailedWrite amb v msg rt) w k d =
     (case FailNotificationDelivery amb (v\<lparr>nv_id := k\<rparr>) w msg rt d of (res, d') \<Rightarrow> (is_ok res, d'))"

definition delivery_held :: "db \<Rightarrow> string \<Rightarrow> string \<Rightarrow> bool" where
  "delivery_held d k w = (\<exists>x \<in> set (notification_deliveries d). owns_delivery k w x)"

interpretation delivery_lease: lease_queue outbox_ok "\<lambda>_. True" delivery_held write_delivery
proof
  fix d k w p
  assume "\<not> delivery_held d k w"
  then have none: "rows_affected (owns_delivery k w) (notification_deliveries d) = 0"
    by (auto simp: delivery_held_def rows_affected_0)
  show "write_delivery p w k d = (False, d)"
  proof (cases p)
    case (DeliveredWrite amb v c)
    then show ?thesis by (simp add: none CompleteNotificationDelivery_def transact_def Let_def guardR_def)
  next
    case (FailedWrite amb v msg rt)
    then show ?thesis by (simp add: none FailNotificationDelivery_def transact_def Let_def split: option.splits)
  qed
next
  fix d k w w'
  assume "outbox_ok d" "delivery_held d k w" "delivery_held d k w'"
  then show "w = w'"
    unfolding delivery_held_def owns_delivery_def outbox_tables_ok_def by (metis key_unique option.inject)
qed

section \<open>Properties\<close>

text \<open>
  C32: A notification worker that lost its claim is powerless. While a worker holds a delivery, no
  sequence of completions and failures reported by other workers succeeds or changes anything.
\<close>

theorem stale_delivery_workers_powerless:
  assumes "outbox_ok d" and "delivery_held d k w" and "\<forall>(p, w') \<in> set ps. w' \<noteq> w"
  shows "perform write_delivery k ps d = (replicate (length ps) False, d)"
  by (rule delivery_lease.stale_writers_powerless[OF assms(1) TrueI assms(2,3)])

text \<open>
  Expanding a pending event gives it one queued delivery for each destination among the targets
  and no other, and leaves all earlier deliveries alone.
\<close>

definition expanded_event :: "string \<Rightarrow> db \<Rightarrow> bool" where
  "expanded_event i d = (\<exists>n \<in> set (notification_events d). n_id n = i \<and> n_status n \<noteq> ''pending'')"

definition deliveries_of :: "string \<Rightarrow> delivery_row list \<Rightarrow> (string \<times> string) list" where
  "deliveries_of i t = map (\<lambda>x. (nd_id x, nd_destination_id x)) (filter (\<lambda>x. nd_event_id x = i) t)"

lemma deliveries_of_append [simp]: "deliveries_of i (t @ xs) = deliveries_of i t @ deliveries_of i xs"
  by (simp add: deliveries_of_def)

lemma deliveries_of_update:
  assumes "\<And>x. nd_id (f x) = nd_id x \<and> nd_event_id (f x) = nd_event_id x \<and> nd_destination_id (f x) = nd_destination_id x"
  shows "deliveries_of i (update_where P f t) = deliveries_of i t"
  using assms by (induction t) (auto simp: deliveries_of_def update_where_def)

lemma expansion_delivers:
  assumes "outbox_ok d" and "notification_by_id d i = Some n" and "n_status n = ''pending''"
    and "ExpandNotificationEvent amb i ts d = (Inr (), d1)"
  shows "\<exists>xs. notification_deliveries d1 = notification_deliveries d @ xs
      \<and> distinct (map nd_destination_id xs) \<and> nd_destination_id ` set xs = nt_destination_id ` set ts
      \<and> (\<forall>x \<in> set xs. nd_event_id x = i \<and> nd_status x = RunQueued)"
    and "expanded_event i d1"
  using assms(4)
proof (atomize (full), cases rule: ExpandNotificationEvent_Inr)
  case (settled m)
  with assms(2,3) show "(\<exists>xs. notification_deliveries d1 = notification_deliveries d @ xs
      \<and> distinct (map nd_destination_id xs) \<and> nd_destination_id ` set xs = nt_destination_id ` set ts
      \<and> (\<forall>x \<in> set xs. nd_event_id x = i \<and> nd_status x = RunQueued)) \<and> expanded_event i d1" by simp
next
  case (expanded m d0)
  let ?f = "\<lambda>x. x\<lparr>n_status := (if ts = [] then ''skipped'' else ''expanded''), n_expanded_at := Some (pg_now amb)\<rparr>"
  from insert_deliveries_Inr[OF expanded(3)] obtain xs where xs: "d0 = d\<lparr>notification_deliveries := notification_deliveries d @ xs\<rparr>"
    "list_all (\<lambda>x. nd_event_id x = i \<and> nd_status x = RunQueued \<and> (\<exists>t \<in> set ts. nd_destination_id x = nt_destination_id t)) xs"
    "distinct (map destination_key (notification_deliveries d0))"
    "\<forall>t \<in> set ts. (i, nt_destination_id t) \<in> destination_key ` set (notification_deliveries d0)"
    using assms(1) unfolding outbox_tables_ok_def list_all_iff by blast
  have n: "n \<in> set (notification_events d)" "n_id n = i" using notification_table.lookup_SomeD[OF assms(2)] by simp_all
  have old: "nd_event_id x \<noteq> i" if "x \<in> set (notification_deliveries d)" for x
    using pending_without_deliveries[OF assms(1) n(1) assms(3) that] n(2) by simp
  have "distinct (map nd_destination_id xs)"
    using xs(1,2,3) by (auto simp: distinct_map inj_on_def list_all_iff)
  moreover have "nd_destination_id ` set xs = nt_destination_id ` set ts"
  proof
    show "nd_destination_id ` set xs \<subseteq> nt_destination_id ` set ts" using xs(2) by (auto simp: list_all_iff)
    show "nt_destination_id ` set ts \<subseteq> nd_destination_id ` set xs"
    proof
      fix k assume "k \<in> nt_destination_id ` set ts"
      with xs(1,4) obtain x where "x \<in> set (notification_deliveries d @ xs)" "nd_event_id x = i" "nd_destination_id x = k" by force
      with old show "k \<in> nd_destination_id ` set xs" by auto
    qed
  qed
  moreover have "notification_deliveries d1 = notification_deliveries d @ xs" using expanded(4) xs(1) by simp
  moreover have "\<forall>x \<in> set xs. nd_event_id x = i \<and> nd_status x = RunQueued" using xs(2) by (auto simp: list_all_iff)
  moreover have "notification_events d1 = update_where (\<lambda>x. n_id x = i) ?f (notification_events d)" using expanded(4) xs(1) by simp
  then have "?f n \<in> set (notification_events d1)" using update_where_hit[OF n(1), of "\<lambda>x. n_id x = i" ?f] n(2) by simp
  then have "expanded_event i d1" unfolding expanded_event_def using n(2) by (intro bexI[of _ "?f n"]) simp_all
  ultimately show "(\<exists>xs. notification_deliveries d1 = notification_deliveries d @ xs
      \<and> distinct (map nd_destination_id xs) \<and> nd_destination_id ` set xs = nt_destination_id ` set ts
      \<and> (\<forall>x \<in> set xs. nd_event_id x = i \<and> nd_status x = RunQueued)) \<and> expanded_event i d1" by blast
qed

text \<open>An event that is expanded is passed over by every later expansion and is not handed out.\<close>

lemma expanded_inert:
  assumes "outbox_ok d" "expanded_event i d"
  shows "ExpandNotificationEvent amb i ts d = (Inr (), d)"
    and "AcquireNotificationEvent amb d = Some m \<Longrightarrow> n_id m \<noteq> i"
proof -
  have uniq: "distinct (map n_id (notification_events d))" using assms(1) by (simp add: outbox_tables_ok_def)
  from assms(2) obtain n where n: "n \<in> set (notification_events d)" "n_id n = i" "n_status n \<noteq> ''pending''"
    unfolding expanded_event_def by blast
  have "notification_by_id d i = Some n" using notification_table.lookup_iff[OF uniq] n by blast
  with n(3) show "ExpandNotificationEvent amb i ts d = (Inr (), d)"
    by (simp add: ExpandNotificationEvent_def transact_def)
  assume "AcquireNotificationEvent amb d = Some m"
  from select_first_Some(1,2)[OF this[unfolded AcquireNotificationEvent_def]]
  have m: "m \<in> set (notification_events d)" "n_status m = ''pending''" by simp_all
  show "n_id m \<noteq> i"
  proof
    assume "n_id m = i"
    with n have "m = n" using key_unique[OF uniq m(1) n(1)] by simp
    with m(2) n(3) show False by simp
  qed
qed

text \<open>Expanded events stay expanded, with the deliveries they were given.\<close>

definition outbox_follow :: "db \<Rightarrow> db \<Rightarrow> bool" where
  "outbox_follow d d' = (\<forall>i. expanded_event i d \<longrightarrow> expanded_event i d'
     \<and> deliveries_of i (notification_deliveries d') = deliveries_of i (notification_deliveries d))"

lemma outbox_follow_refl: "outbox_follow d d"
  by (simp add: outbox_follow_def)

lemma outbox_follow_trans: "outbox_follow d d1 \<Longrightarrow> outbox_follow d1 d2 \<Longrightarrow> outbox_follow d d2"
  by (simp add: outbox_follow_def)

lemma outbox_follow_append:
  "notification_events d' = notification_events d @ ns \<Longrightarrow> notification_deliveries d' = notification_deliveries d \<Longrightarrow> outbox_follow d d'"
  by (auto simp: outbox_follow_def expanded_event_def)

lemma outbox_follow_update:
  assumes "notification_events d' = notification_events d"
    and "notification_deliveries d' = update_where P f (notification_deliveries d)"
    and "\<And>x. nd_id (f x) = nd_id x \<and> nd_event_id (f x) = nd_event_id x \<and> nd_destination_id (f x) = nd_destination_id x"
  shows "outbox_follow d d'"
  using assms(1) deliveries_of_update[OF assms(3)] by (simp add: outbox_follow_def expanded_event_def assms(2))

lemma ExpandNotificationEvent_follow:
  assumes "ExpandNotificationEvent amb i ts d = (res, d')" "outbox_ok d" shows "outbox_follow d d'"
proof (cases res)
  case Inl
  with assms(1) have "d' = d" unfolding ExpandNotificationEvent_def by (simp only: transact_eq_Inl)
  then show ?thesis by (simp add: outbox_follow_refl)
next
  case (Inr u)
  with assms(1) have "ExpandNotificationEvent amb i ts d = (Inr (), d')" by simp
  then show ?thesis
  proof (cases rule: ExpandNotificationEvent_Inr)
    case (expanded n d1)
    from insert_deliveries_Inr[OF expanded(3)] obtain xs where
      xs: "d1 = d\<lparr>notification_deliveries := notification_deliveries d @ xs\<rparr>" "list_all (\<lambda>x. nd_event_id x = i) xs"
      unfolding list_all_iff by blast
    have uniq: "distinct (map n_id (notification_events d))" using assms(2) by (simp add: outbox_tables_ok_def)
    have n: "n \<in> set (notification_events d)" "n_id n = i" using notification_table.lookup_SomeD[OF expanded(1)] by simp_all
    show ?thesis
      unfolding outbox_follow_def
    proof (intro allI impI)
      fix j assume "expanded_event j d"
      then obtain m where m: "m \<in> set (notification_events d)" "n_id m = j" "n_status m \<noteq> ''pending''"
        unfolding expanded_event_def by blast
      then have "j \<noteq> i" using key_unique[OF uniq m(1) n(1)] n(2) expanded(2) by auto
      then have "m \<in> set (notification_events d')"
        unfolding expanded(4) using m xs(1) by (simp add: update_where_miss)
      moreover have "deliveries_of j xs = []" using \<open>j \<noteq> i\<close> xs(2) by (auto simp: deliveries_of_def list_all_iff)
      ultimately show "expanded_event j d'
        \<and> deliveries_of j (notification_deliveries d') = deliveries_of j (notification_deliveries d)"
        using m expanded(4) xs(1) unfolding expanded_event_def by auto
    qed
  qed (simp add: outbox_follow_refl)
qed

lemma delivery_ops_follow:
  "AcquireNotificationDelivery amb w d = (r1, d') \<Longrightarrow> outbox_follow d d'"
  "CompleteNotificationDelivery amb v w c d = (r2, d') \<Longrightarrow> outbox_follow d d'"
  "FailNotificationDelivery amb v w msg rt d = (r3, d') \<Longrightarrow> outbox_follow d d'"
proof -
  assume "AcquireNotificationDelivery amb w d = (r1, d')"
  then show "outbox_follow d d'"
  proof (cases rule: AcquireNotificationDelivery_cases)
    case (claimed x n)
    then show ?thesis
      by (intro outbox_follow_update[of d' d "\<lambda>y. nd_id y = nd_id x" "claim_delivery amb w"]) (simp_all add: claim_delivery_def)
  qed (simp add: outbox_follow_refl)
next
  assume a: "CompleteNotificationDelivery amb v w c d = (r2, d')"
  show "outbox_follow d d'"
  proof (cases r2)
    case Inl
    with a have "d' = d" unfolding CompleteNotificationDelivery_def by (simp only: transact_eq_Inl)
    then show ?thesis by (simp add: outbox_follow_refl)
  next
    case (Inr u)
    with a CompleteNotificationDelivery_Inr[of amb v w c d d'] show ?thesis
      by (intro outbox_follow_update[of d' d "owns_delivery (nv_id v) w" "delivered amb c"]) (auto simp: delivered_def)
  qed
next
  assume a: "FailNotificationDelivery amb v w msg rt d = (r3, d')"
  show "outbox_follow d d'"
  proof (cases r3)
    case Inl
    with a have "d' = d" unfolding FailNotificationDelivery_def by (simp only: transact_eq_Inl)
    then show ?thesis by (simp add: outbox_follow_refl)
  next
    case (Inr u)
    with a have "FailNotificationDelivery amb v w msg rt d = (Inr (), d')" by simp
    from FailNotificationDelivery_Inr[OF this] obtain dl as where
      "d' = d\<lparr>notification_deliveries := update_where (owns_delivery (nv_id v) w)
             (failed_delivery amb (\<not> gives_up v rt) dl msg) (notification_deliveries d), audit_events := audit_events d @ as\<rparr>" by blast
    then show ?thesis
      by (intro outbox_follow_update[of d' d "owns_delivery (nv_id v) w" "failed_delivery amb (\<not> gives_up v rt) dl msg"])
        (simp_all add: failed_delivery_def)
  qed
qed

text \<open>
  A failed attempt is retried exactly while it may be and attempts remain. After a claimed
  delivery failed, it is queued again, available after ten seconds doubled with every attempt and
  never more than ten minutes later, if the failure was retryable and the attempt was below five;
  otherwise it has failed for good. The attempt is counted once and the lease is gone.
\<close>

lemma delivery_attempt_outcome:
  assumes "outbox_ok d" and "AcquireNotificationDelivery amb w d = (Inr (Some v), d1)"
    and "FailNotificationDelivery amb' v w msg retryable d1 = (Inr (), d2)"
  shows "\<exists>x y dl. delivery_by_id d (nv_id v) = Some x \<and> delivery_by_id d2 (nv_id v) = Some y
    \<and> nd_attempt y = nd_attempt x + 1 \<and> nd_lease_owner y = None \<and> nd_last_error y = msg
    \<and> nd_available_at y = go_now amb' + dl
    \<and> (if retryable \<and> nd_attempt y < 5
       then nd_status y = RunQueued \<and> dl = min (2 ^ nat (min (nd_attempt x) 6) * 10 * second) (10 * minute)
         \<and> 10 * second \<le> dl \<and> dl \<le> 10 * minute
       else nd_status y = RunFailed)"
  using assms(2)
proof (cases rule: AcquireNotificationDelivery_cases)
  case (claimed x n)
  have look: "delivery_by_id d (nd_id x) = Some x"
    using claimed(1) assms(1) delivery_table.lookup_iff by (simp add: outbox_tables_ok_def)
  have x: "0 \<le> nd_attempt x" "nd_max_attempts x = 5"
    using claimed(1) assms(1) by (auto simp: outbox_tables_ok_def list_all_iff delivery_ok_def)
  have v: "nv_id v = nd_id x" "nv_attempt v = nd_attempt x + 1" "nv_max_attempts v = 5"
    using claimed(4) x(2) by (simp_all add: claimed_delivery_def)
  have d1: "delivery_by_id d1 (nd_id x) = Some (claim_delivery amb w x)"
    using look unfolding claimed(5) delivery_by_id_def
    by (simp, subst find_update_where) (simp_all add: claim_delivery_def)
  from FailNotificationDelivery_Inr[OF assms(3)] obtain dl as where
    dl: "gives_up v retryable \<Longrightarrow> dl = 0" "\<not> gives_up v retryable \<Longrightarrow> notificationRetryDelay (nv_attempt v) = Some dl"
    and d2: "notification_deliveries d2 = update_where (owns_delivery (nv_id v) w)
        (failed_delivery amb' (\<not> gives_up v retryable) dl msg) (notification_deliveries d1)" by auto
  let ?y = "failed_delivery amb' (\<not> gives_up v retryable) dl msg (claim_delivery amb w x)"
  have "delivery_by_id d2 (nd_id x) = Some ?y"
    using d1 unfolding delivery_by_id_def d2
    by (subst find_update_where) (simp_all add: failed_delivery_def owns_delivery_def claim_delivery_def v)
  moreover have "gives_up v retryable \<longleftrightarrow> \<not> (retryable \<and> nd_attempt x + 1 < 5)"
    using v by (auto simp: gives_up_def)
  moreover have "dl = min (2 ^ nat (min (nd_attempt x) 6) * 10 * second) (10 * minute)" if "\<not> gives_up v retryable"
    using dl(2)[OF that] x(1) v(2) by (simp add: notificationRetryDelay_def)
  moreover have "10 * second \<le> min (2 ^ nat (min (nd_attempt x) 6) * 10 * second) (10 * minute)"
    by (simp add: minute_def second_def)
  ultimately show ?thesis
    using look v(1) by (intro exI[of _ x] exI[of _ ?y] exI[of _ dl]) (auto simp: failed_delivery_def claim_delivery_def)
qed simp

section \<open>Examples\<close>

definition sample_target :: notification_target where
  "sample_target = \<lparr>nt_destination_id = ''ops'', nt_provider = ''ntfy'', nt_config = JObject []\<rparr>"

definition sample_tested :: "string store_result" where
  "sample_tested = EnqueueNotificationTest (sample_ambient 1 0) ''alice'' sample_db"

definition sample_test_event :: string where
  "sample_test_event = newID (sample_ambient 1 0) 0 ''notification''"

definition sample_expanded :: "unit store_result" where
  "sample_expanded = ExpandNotificationEvent (sample_ambient 2 second) sample_test_event [sample_target] (snd sample_tested)"

definition sample_claimed :: "notification_delivery option store_result" where
  "sample_claimed = AcquireNotificationDelivery (sample_ambient 3 minute) ''w1'' (snd sample_expanded)"

lemma sample_outbox_ok: "outbox_ok sample_db"
  by (simp add: outbox_tables_ok_def sample_db_def empty_db_def)

lemma sample_tested_ok: "outbox_ok (snd sample_tested)"
  unfolding sample_tested_def by (rule EnqueueNotificationTest_ok[OF sample_outbox_ok])

lemma sample_expanded_ok: "outbox_ok (snd sample_expanded)"
  unfolding sample_expanded_def by (rule ExpandNotificationEvent_ok[OF sample_tested_ok])

lemma sample_claimed_ok: "outbox_ok (snd sample_claimed)"
  unfolding sample_claimed_def by (rule AcquireNotificationDelivery_ok[OF sample_expanded_ok])

lemma sample_expansion:
  "ExpandNotificationEvent (sample_ambient 2 second) sample_test_event [sample_target] (snd sample_tested)
      = (Inr (), snd sample_expanded)"
  "\<exists>n. notification_by_id (snd sample_tested) sample_test_event = Some n \<and> n_status n = ''pending''"
proof -
  have "is_ok (fst sample_expanded)" by code_simp
  then show "ExpandNotificationEvent (sample_ambient 2 second) sample_test_event [sample_target] (snd sample_tested)
      = (Inr (), snd sample_expanded)"
    using ok_result[of sample_expanded] by (simp add: sample_expanded_def)
  have "map_option n_status (notification_by_id (snd sample_tested) sample_test_event) = Some ''pending''"
    by code_simp
  then show "\<exists>n. notification_by_id (snd sample_tested) sample_test_event = Some n \<and> n_status n = ''pending''" by auto
qed

theorem stale_delivery_workers_powerless_witness:
  "perform write_delivery (nv_id (the (projr (fst sample_claimed))))
     [(DeliveredWrite (sample_ambient 9 hour) (the (projr (fst sample_claimed))) 200, ''w2'')] (snd sample_claimed)
   = ([False], snd sample_claimed)"
proof -
  have "list_ex (owns_delivery (nv_id (the (projr (fst sample_claimed)))) ''w1'') (notification_deliveries (snd sample_claimed))"
    by code_simp
  then have "delivery_held (snd sample_claimed) (nv_id (the (projr (fst sample_claimed)))) ''w1''"
    by (simp add: delivery_held_def list_ex_iff)
  from stale_delivery_workers_powerless[OF sample_claimed_ok this, of
      "[(DeliveredWrite (sample_ambient 9 hour) (the (projr (fst sample_claimed))) 200, ''w2'')]"]
  show ?thesis by simp
qed

end
