(* ===== verification/SecretStore.thy ===== *)
theory SecretStore
  imports Deployments
begin

text \<open>
  The store of encrypted secrets (\<open>internal/database/secrets.go\<close>): listing metadata, reading and
  rotating one secret, and deletion, which is refused while a retained revision refers to the
  secret. A value is the ciphertext the vault produced; the store never sees a plaintext.
\<close>

record secret_metadata =
  sm_name :: string
  sm_description :: string
  sm_version :: int
  sm_created_at :: time
  sm_updated_at :: time

definition metadata_of :: "secret_row \<Rightarrow> secret_metadata" where
  "metadata_of s = \<lparr>sm_name = s_name s, sm_description = s_description s, sm_version = s_version s,
     sm_created_at = s_created_at s, sm_updated_at = s_updated_at s\<rparr>"

definition secret_by_name :: "db \<Rightarrow> string \<Rightarrow> secret_row option" where
  "secret_by_name d k = find (\<lambda>s. s_name s = k) (secrets d)"

interpretation secret_table: keyed_table s_name secrets "\<lambda>t d. d\<lparr>secrets := t\<rparr>" secret_by_name
  by unfold_locales (simp_all add: secret_by_name_def)

definition ListSecrets :: "ambient \<Rightarrow> db \<Rightarrow> secret_metadata list" where
  "ListSecrets amb d = map metadata_of (sort_key (\<lambda>s. collation amb (s_name s)) (secrets d))"

definition GetEncryptedSecret :: "string \<Rightarrow> db \<Rightarrow> store_error + secret_row" where
  "GetEncryptedSecret name d = (case secret_by_name d name of
     None \<Rightarrow> Inl (ErrSecretNotFound []) | Some s \<Rightarrow> Inr s)"

definition rotate_secret :: "ambient \<Rightarrow> string \<Rightarrow> string \<Rightarrow> string \<Rightarrow> secret_row \<Rightarrow> secret_row" where
  "rotate_secret amb description ciphertext keyID s =
     s\<lparr>s_description := description, s_ciphertext := ciphertext, s_key_id := keyID,
       s_version := s_version s + 1, s_updated_at := pg_now amb\<rparr>"

definition new_secret :: "ambient \<Rightarrow> string \<Rightarrow> string \<Rightarrow> string \<Rightarrow> string \<Rightarrow> secret_row" where
  "new_secret amb name description ciphertext keyID =
     \<lparr>s_name = name, s_description = description, s_ciphertext = ciphertext, s_key_id = keyID,
      s_version = 1, s_created_at = pg_now amb, s_updated_at = pg_now amb\<rparr>"

definition upsert_secret :: "ambient \<Rightarrow> string \<Rightarrow> string \<Rightarrow> string \<Rightarrow> string \<Rightarrow> db \<Rightarrow> (secret_row \<times> bool) \<times> db" where
  "upsert_secret amb name description ciphertext keyID d =
     (case secret_by_name d name of
        Some s \<Rightarrow> ((rotate_secret amb description ciphertext keyID s, False),
          d\<lparr>secrets := update_where (\<lambda>x. s_name x = name) (rotate_secret amb description ciphertext keyID) (secrets d)\<rparr>)
      | None \<Rightarrow> ((new_secret amb name description ciphertext keyID, True),
          d\<lparr>secrets := secrets d @ [new_secret amb name description ciphertext keyID]\<rparr>))"

definition PutEncryptedSecret :: "ambient \<Rightarrow> string \<Rightarrow> string \<Rightarrow> string \<Rightarrow> string \<Rightarrow> string \<Rightarrow> db
    \<Rightarrow> (secret_metadata \<times> bool) store_result" where
  "PutEncryptedSecret amb name description ciphertext keyID actor = transact (\<lambda>d.
     case upsert_secret amb name description ciphertext keyID d of ((s, created), d1) \<Rightarrow>
       bindR (insertAuditEvent amb 0 (if created then ''secret.created'' else ''secret.rotated'') [] actor
           [(''name'', DString name), (''version'', DInt (s_version s))] d1) (\<lambda>d2.
       Inr ((metadata_of s, created), d2)))"

definition secret_uses :: "string \<Rightarrow> db \<Rightarrow> nat" where
  "secret_uses name d = rows_affected (\<lambda>x. sx_secret_name x = name) (secret_references d)"

definition DeleteSecret :: "ambient \<Rightarrow> string \<Rightarrow> string \<Rightarrow> db \<Rightarrow> unit store_result" where
  "DeleteSecret amb name actor = transact (\<lambda>d.
     case secret_by_name d name of
       None \<Rightarrow> Inl (ErrSecretNotFound [])
     | Some s \<Rightarrow>
         guardR (secret_uses name d > 0) (ErrSecretInUse name (secret_uses name d))
         (bindR (insertAuditEvent amb 0 ''secret.deleted'' [] actor
             [(''name'', DString name), (''version'', DInt (s_version s))]
             (d\<lparr>secrets := delete_where (\<lambda>x. s_name x = name) (secrets d)\<rparr>)) (\<lambda>d1.
          Inr ((), d1))))"

end
