(* ===== verification/RetentionStore.thy ===== *)
theory RetentionStore
  imports SecretStore
begin

text \<open>
  The store's side of retention (\<open>internal/database/retention.go\<close>): what source and artifact
  storage the rows refer to, plans with their items, the claim of a plan for application, and
  the detachment of one storage location, which re-checks at the moment of the write that
  nothing live refers to it. Storage locations in rows are relative to the data directory.
\<close>

record deployment_source_record =
  so_id :: string
  so_status :: deployment_status
  so_automation_id :: string
  so_path :: string
  so_created_at :: time

record revision_artifact_record =
  ra_id :: string
  ra_automation_id :: string
  ra_path :: string
  ra_created_at :: time
  ra_active :: bool
  ra_referenced_by_run :: bool
  ra_referenced_by_deployment :: bool

record retention_item =
  it_position :: int
  it_kind :: string
  it_storage_key :: string
  it_storage_path :: string
  it_resource_ids :: "string list"
  it_automation_ids :: "string list"
  it_reason :: string
  it_estimated_bytes :: int
  it_status :: string
  it_error :: string
  it_created_at :: time
  it_deleted_at :: "time option"

record retention_summary =
  su_items :: int
  su_estimated_bytes :: int
  su_deleted :: int
  su_skipped :: int
  su_failed :: int

record retention_plan =
  pn_id :: string
  pn_status :: string
  pn_policy :: retention_policy
  pn_summary :: retention_summary
  pn_items :: "retention_item list"
  pn_actor :: string
  pn_created_at :: time
  pn_expires_at :: time
  pn_applied_at :: "time option"

section \<open>What the rows refer to\<close>

definition live_run :: "run_row \<Rightarrow> bool" where
  "live_run r = (r_status r = RunQueued \<or> r_status r = RunRunning)"

definition source_record :: "ambient \<Rightarrow> deployment_row \<Rightarrow> store_error + deployment_source_record" where
  "source_record amb x = bindR (resolved_location amb (dp_source_path x)) (\<lambda>p.
     Inr \<lparr>so_id = dp_id x, so_status = dp_status x, so_automation_id = dp_automation_id x, so_path = p,
          so_created_at = dp_created_at x\<rparr>)"

definition ListDeploymentSourceRecords :: "ambient \<Rightarrow> db \<Rightarrow> store_error + deployment_source_record list" where
  "ListDeploymentSourceRecords amb d =
     mapR (source_record amb) (select_desc (\<lambda>x. (dp_created_at x, collation amb (dp_id x)))
       (\<lambda>x. dp_source_path x \<noteq> []) (deployments d))"

text \<open>An automation without an active revision makes the comparison \<open>NULL\<close>, which does not scan.\<close>

definition artifact_record :: "ambient \<Rightarrow> db \<Rightarrow> revision_row \<Rightarrow> store_error + revision_artifact_record" where
  "artifact_record amb d v =
     (case Option.bind (automation_by_id d (rv_automation_id v)) au_active_revision_id of
        None \<Rightarrow> Inl ErrDatabase
      | Some active \<Rightarrow> bindR (resolved_location amb (rv_artifact_path v)) (\<lambda>p.
          Inr \<lparr>ra_id = rv_id v, ra_automation_id = rv_automation_id v, ra_path = p,
               ra_created_at = rv_created_at v, ra_active = (active = rv_id v),
               ra_referenced_by_run = list_ex (\<lambda>r. r_revision_id r = rv_id v \<and> live_run r) (runs d),
               ra_referenced_by_deployment = list_ex (\<lambda>x. dp_automation_id x = rv_automation_id v
                 \<and> dp_content_hash x = rv_content_hash v \<and> in_progress (dp_status x)) (deployments d)\<rparr>))"

definition ListRevisionArtifactRecords :: "ambient \<Rightarrow> db \<Rightarrow> store_error + revision_artifact_record list" where
  "ListRevisionArtifactRecords amb d =
     mapR (artifact_record amb d) (select_desc (\<lambda>v. (rv_created_at v, collation amb (rv_id v)))
       (\<lambda>v. rv_artifact_path v \<noteq> [] \<and> automation_by_id d (rv_automation_id v) \<noteq> None) (revisions d))"

section \<open>Plans\<close>

definition plan_by_id :: "db \<Rightarrow> string \<Rightarrow> retention_plan_row option" where
  "plan_by_id d k = find (\<lambda>p. pl_id p = k) (retention_plans d)"

interpretation plan_table: keyed_table pl_id retention_plans "\<lambda>t d. d\<lparr>retention_plans := t\<rparr>" plan_by_id
  by unfold_locales (simp_all add: plan_by_id_def)

definition insert_retention_item :: "ambient \<Rightarrow> string \<Rightarrow> retention_item \<Rightarrow> db \<Rightarrow> store_error + db" where
  "insert_retention_item amb planID item d =
     bindR (recorded_location amb (it_storage_path item)) (\<lambda>path.
       let row = \<lparr>ri_plan_id = planID, ri_position = it_position item, ri_kind = it_kind item,
             ri_storage_key = it_storage_key item, ri_storage_path = path,
             ri_resource_ids = it_resource_ids item, ri_automation_ids = it_automation_ids item,
             ri_reason = it_reason item, ri_estimated_bytes = it_estimated_bytes item,
             ri_status = ''planned'', ri_error = [], ri_created_at = pg_now amb, ri_deleted_at = None\<rparr>
       in guardR (conflicts (\<lambda>x. (ri_plan_id x, ri_position x)) row (retention_items d)
            \<or> conflicts (\<lambda>x. (ri_plan_id x, ri_kind x, ri_storage_path x)) row (retention_items d)
            \<or> it_kind item \<notin> {''source'', ''artifact''} \<or> it_estimated_bytes item < 0
            \<or> \<not> int4 (it_position item)) ErrDatabase
          (Inr (d\<lparr>retention_items := retention_items d @ [row]\<rparr>)))"

definition new_plan :: "ambient \<Rightarrow> retention_plan \<Rightarrow> retention_plan_row" where
  "new_plan amb v = \<lparr>pl_id = pn_id v, pl_status = ''planned'', pl_policy = pn_policy v, pl_actor = pn_actor v,
     pl_created_at = pg_now amb, pl_updated_at = pg_now amb, pl_expires_at = pn_expires_at v,
     pl_lease_expires_at = None, pl_applied_at = None\<rparr>"

definition CreateRetentionPlan :: "ambient \<Rightarrow> retention_plan \<Rightarrow> db \<Rightarrow> unit store_result" where
  "CreateRetentionPlan amb v = transact (\<lambda>d.
     guardR (conflicts pl_id (new_plan amb v) (retention_plans d)) ErrDatabase
     (bindR (foldR (insert_retention_item amb (pn_id v)) (pn_items v)
         (d\<lparr>retention_plans := retention_plans d @ [new_plan amb v]\<rparr>)) (\<lambda>d1.
      bindR (insertAuditEvent amb 0 ''retention.planned'' [] (pn_actor v)
         [(''planId'', DString (pn_id v)), (''items'', DInt (int (length (pn_items v)))),
          (''estimatedBytes'', DInt (su_estimated_bytes (pn_summary v))), (''policy'', DPolicy (pn_policy v))] d1) (\<lambda>d2.
      Inr ((), d2)))))"

definition read_item :: "ambient \<Rightarrow> retention_item_row \<Rightarrow> store_error + retention_item" where
  "read_item amb x = bindR (resolved_location amb (ri_storage_path x)) (\<lambda>p.
     Inr \<lparr>it_position = ri_position x, it_kind = ri_kind x, it_storage_key = ri_storage_key x,
          it_storage_path = p, it_resource_ids = ri_resource_ids x, it_automation_ids = ri_automation_ids x,
          it_reason = ri_reason x, it_estimated_bytes = ri_estimated_bytes x, it_status = ri_status x,
          it_error = ri_error x, it_created_at = ri_created_at x, it_deleted_at = ri_deleted_at x\<rparr>)"

definition count_status :: "string \<Rightarrow> ('a \<Rightarrow> string) \<Rightarrow> 'a list \<Rightarrow> int" where
  "count_status s status xs = int (length (filter (\<lambda>x. status x = s) xs))"

definition summarize :: "retention_item list \<Rightarrow> retention_summary" where
  "summarize xs = \<lparr>su_items = int (length xs), su_estimated_bytes = sum_list (map it_estimated_bytes xs),
     su_deleted = count_status ''deleted'' it_status xs, su_skipped = count_status ''skipped'' it_status xs,
     su_failed = count_status ''failed'' it_status xs\<rparr>"

definition GetRetentionPlan :: "ambient \<Rightarrow> string \<Rightarrow> db \<Rightarrow> store_error + retention_plan" where
  "GetRetentionPlan amb planID d =
     (case plan_by_id d planID of
        None \<Rightarrow> Inl ErrRetentionPlanNotFound
      | Some p \<Rightarrow>
          bindR (mapR (read_item amb) (sort_key ri_position (filter (\<lambda>x. ri_plan_id x = planID) (retention_items d)))) (\<lambda>xs.
          Inr \<lparr>pn_id = pl_id p, pn_status = pl_status p, pn_policy = pl_policy p, pn_summary = summarize xs,
               pn_items = xs, pn_actor = pl_actor p, pn_created_at = pl_created_at p,
               pn_expires_at = pl_expires_at p, pn_applied_at = pl_applied_at p\<rparr>))"

definition claimable_plan :: "ambient \<Rightarrow> string \<Rightarrow> retention_plan_row \<Rightarrow> bool" where
  "claimable_plan amb planID p = (pl_id p = planID \<and> pl_expires_at p > pg_now amb
     \<and> (pl_status p = ''planned''
        \<or> pl_status p = ''applying'' \<and> opt_holds (\<lambda>t. t < pg_now amb) (pl_lease_expires_at p)))"

definition claim_plan :: "ambient \<Rightarrow> duration \<Rightarrow> retention_plan_row \<Rightarrow> retention_plan_row" where
  "claim_plan amb lease p = p\<lparr>pl_status := ''applying'', pl_updated_at := pg_now amb,
     pl_lease_expires_at := Some (pg_now amb + lease)\<rparr>"

definition ClaimRetentionPlan :: "ambient \<Rightarrow> string \<Rightarrow> duration \<Rightarrow> db \<Rightarrow> bool store_result" where
  "ClaimRetentionPlan amb planID lease d =
     (let d1 = d\<lparr>retention_plans := update_where (claimable_plan amb planID) (claim_plan amb lease) (retention_plans d)\<rparr> in
      if rows_affected (claimable_plan amb planID) (retention_plans d) = 1 then (Inr True, d1)
      else (case plan_by_id d1 planID of
              None \<Rightarrow> (Inl ErrRetentionPlanNotFound, d1)
            | Some p \<Rightarrow>
                if pl_status p = ''applied'' then (Inr False, d1)
                else if pl_expires_at p \<le> go_now amb then (Inl ErrRetentionPlanExpired, d1)
                else (Inl ErrRetentionPlanBusy, d1)))"

definition planned_item :: "string \<Rightarrow> int \<Rightarrow> retention_item_row \<Rightarrow> bool" where
  "planned_item planID position x = (ri_plan_id x = planID \<and> ri_position x = position \<and> ri_status x = ''planned'')"

definition settle_item :: "ambient \<Rightarrow> string \<Rightarrow> string \<Rightarrow> retention_item_row \<Rightarrow> retention_item_row" where
  "settle_item amb status message x = x\<lparr>ri_status := status, ri_error := message,
     ri_deleted_at := (if status = ''deleted'' then Some (pg_now amb) else None)\<rparr>"

definition RecordRetentionItem :: "ambient \<Rightarrow> string \<Rightarrow> int \<Rightarrow> string \<Rightarrow> string \<Rightarrow> db \<Rightarrow> unit store_result" where
  "RecordRetentionItem amb planID position status message = transact (\<lambda>d.
     guardR (status \<notin> {''deleted'', ''skipped'', ''failed''}) (ErrText (''invalid retention item status '' @ status))
     (guardR (rows_affected (planned_item planID position) (retention_items d) \<noteq> 1)
        (ErrText (''retention item '' @ decimal_int position @ '' is no longer planned''))
     (Inr ((), d\<lparr>retention_items := update_where (planned_item planID position)
        (settle_item amb status (take 4096 message)) (retention_items d)\<rparr>))))"

definition applying_plan :: "string \<Rightarrow> retention_plan_row \<Rightarrow> bool" where
  "applying_plan planID p = (pl_id p = planID \<and> pl_status p = ''applying'')"

definition CompleteRetentionPlan :: "ambient \<Rightarrow> string \<Rightarrow> string \<Rightarrow> db \<Rightarrow> unit store_result" where
  "CompleteRetentionPlan amb planID actor = transact (\<lambda>d.
     let xs = filter (\<lambda>x. ri_plan_id x = planID) (retention_items d) in
     guardR (rows_affected (applying_plan planID) (retention_plans d) \<noteq> 1) ErrRetentionPlanBusy
     (bindR (insertAuditEvent amb 0 ''retention.applied'' [] actor
         [(''planId'', DString planID), (''items'', DInt (int (length xs))),
          (''estimatedBytes'', DInt (sum_list (map ri_estimated_bytes xs))),
          (''deleted'', DInt (count_status ''deleted'' ri_status xs)),
          (''skipped'', DInt (count_status ''skipped'' ri_status xs)),
          (''failed'', DInt (count_status ''failed'' ri_status xs))]
         (d\<lparr>retention_plans := update_where (applying_plan planID)
            (\<lambda>p. p\<lparr>pl_status := ''applied'', pl_updated_at := pg_now amb, pl_applied_at := Some (pg_now amb),
                  pl_lease_expires_at := None\<rparr>) (retention_plans d)\<rparr>)) (\<lambda>d1.
      Inr ((), d1))))"

section \<open>Detaching storage\<close>

definition source_protected :: "string \<Rightarrow> db \<Rightarrow> bool" where
  "source_protected path d = list_ex (\<lambda>x. dp_source_path x = path
     \<and> dp_status x \<notin> {DeploymentSucceeded, DeploymentFailed, DeploymentCancelled}) (deployments d)"

definition artifact_protected :: "string \<Rightarrow> db \<Rightarrow> bool" where
  "artifact_protected path d =
     (list_ex (\<lambda>v. rv_artifact_path v = path
        \<and> list_ex (\<lambda>a. au_id a = rv_automation_id v \<and> au_active_revision_id a = Some (rv_id v)) (automations d)) (revisions d)
      \<or> list_ex (\<lambda>r. live_run r
        \<and> list_ex (\<lambda>v. rv_id v = r_revision_id r \<and> rv_artifact_path v = path) (revisions d)) (runs d)
      \<or> list_ex (\<lambda>x. in_progress (dp_status x)
        \<and> list_ex (\<lambda>v. rv_automation_id v = dp_automation_id x \<and> rv_content_hash v = dp_content_hash x
            \<and> rv_artifact_path v = path) (revisions d)) (deployments d))"

definition detach_artifact :: "string \<Rightarrow> db \<Rightarrow> db" where
  "detach_artifact path d =
     (let detached = map rv_id (filter (\<lambda>v. rv_artifact_path v = path) (revisions d)) in
      d\<lparr>revisions := update_where (\<lambda>v. rv_artifact_path v = path) (\<lambda>v. v\<lparr>rv_artifact_path := []\<rparr>) (revisions d),
        secret_references := delete_where (\<lambda>x. sx_revision_id x \<in> set detached) (secret_references d)\<rparr>)"

definition DetachRetentionItem :: "ambient \<Rightarrow> string \<Rightarrow> string \<Rightarrow> db \<Rightarrow> bool store_result" where
  "DetachRetentionItem amb kind path d =
     (case recorded_location amb path of
        Inl e \<Rightarrow> (Inl e, d)
      | Inr location \<Rightarrow>
          if kind = ''source'' then
            (if source_protected location d then (Inr False, d)
             else (Inr (rows_affected (\<lambda>x. dp_source_path x = location) (deployments d) > 0),
               d\<lparr>deployments := update_where (\<lambda>x. dp_source_path x = location)
                  (\<lambda>x. x\<lparr>dp_source_path := []\<rparr>) (deployments d)\<rparr>))
          else if kind = ''artifact'' then
            (if artifact_protected location d then (Inr False, d)
             else (Inr (rows_affected (\<lambda>v. rv_artifact_path v = location) (revisions d) > 0),
               detach_artifact location d))
          else (Inl (ErrText (''unsupported retention kind '' @ kind)), d))"

end
