(* ===== verification/SecretProofs.thy ===== *)
theory SecretProofs
  imports SecretStore RetentionStore DeploymentProofs Samples
begin

text \<open>
  Proofs about secrets and the revisions that need them: as long as the artifact of a revision is
  retained, the revision can be activated again, so every secret its manifest names must still
  exist. Publishing records the references, deletion respects them, and retention gives them up
  together with the artifact.
\<close>

section \<open>The invariant\<close>

definition recorded_reference :: "db \<Rightarrow> string \<Rightarrow> string \<Rightarrow> bool" where
  "recorded_reference d i name = (\<exists>x \<in> set (secret_references d). sx_revision_id x = i \<and> sx_secret_name x = name)"

definition references_recorded :: "db \<Rightarrow> revision_row \<Rightarrow> bool" where
  "references_recorded d v = (\<forall>r \<in> set (SecretReferences (rv_manifest v)). recorded_reference d (rv_id v) (sr_name r))"

text \<open>What every operation keeps: one row for each name, and no reference to a secret that is gone.\<close>

definition vault_ok :: "db \<Rightarrow> bool" where
  "vault_ok d = (distinct (map s_name (secrets d)) \<and> (\<forall>s \<in> set (secrets d). 1 \<le> s_version s)
     \<and> (\<forall>x \<in> set (secret_references d). sx_secret_name x \<in> s_name ` set (secrets d)))"

text \<open>
  What holds of publications as long as they name an artifact and their content hashes do not
  collide: an active revision has its artifact, and the secrets of a revision with an artifact are
  recorded as referenced.
\<close>

definition artifacts_retained :: "db \<Rightarrow> bool" where
  "artifacts_retained d = (\<forall>a \<in> set (automations d). case au_active_revision_id a of None \<Rightarrow> True
     | Some i \<Rightarrow> (\<exists>v \<in> set (revisions d). rv_id v = i \<and> rv_artifact_path v \<noteq> []))"

definition references_kept :: "db \<Rightarrow> bool" where
  "references_kept d = (\<forall>v \<in> set (revisions d). rv_artifact_path v \<noteq> [] \<longrightarrow> references_recorded d v)"

definition publications_ok :: "db \<Rightarrow> bool" where
  "publications_ok d = (artifacts_retained d \<and> references_kept d)"

lemma artifacts_retainedI:
  assumes "\<And>a i. a \<in> set (automations d) \<Longrightarrow> au_active_revision_id a = Some i \<Longrightarrow>
    \<exists>v \<in> set (revisions d). rv_id v = i \<and> rv_artifact_path v \<noteq> []"
  shows "artifacts_retained d"
  using assms by (auto simp: artifacts_retained_def split: option.splits)

lemma artifacts_retainedD:
  "artifacts_retained d \<Longrightarrow> a \<in> set (automations d) \<Longrightarrow> au_active_revision_id a = Some i \<Longrightarrow>
    \<exists>v \<in> set (revisions d). rv_id v = i \<and> rv_artifact_path v \<noteq> []"
  by (auto simp: artifacts_retained_def split: option.splits)

text \<open>The content hash of a package determines the secrets its manifest names.\<close>

definition hash_fixes_secrets :: "db \<Rightarrow> manifest \<Rightarrow> string \<Rightarrow> bool" where
  "hash_fixes_secrets d m h = (\<forall>v \<in> set (revisions d).
     rv_automation_id v = md_name (mf_metadata m) \<and> rv_content_hash v = h \<longrightarrow>
     SecretReferences (rv_manifest v) = SecretReferences m)"

lemma references_recorded_same:
  "secret_references d' = secret_references d \<Longrightarrow> references_recorded d' v = references_recorded d v"
  by (simp add: references_recorded_def recorded_reference_def)

lemma vault_ok_same:
  "secrets d' = secrets d \<Longrightarrow> secret_references d' = secret_references d \<Longrightarrow> vault_ok d' = vault_ok d"
  by (simp add: vault_ok_def)

lemma vault_ok_audit: "vault_ok (d\<lparr>audit_events := as\<rparr>) = vault_ok d"
  by (rule vault_ok_same) simp_all

text \<open>The publications depend on the active revisions, the revisions and the references only.\<close>

lemma artifacts_retained_core:
  assumes "map automation_core (automations d') = map automation_core (automations d)"
    "map revision_core (revisions d') = map revision_core (revisions d)"
  shows "artifacts_retained d' = artifacts_retained d"
proof -
  have "artifacts_retained x \<longleftrightarrow> (\<forall>(a, r) \<in> set (map automation_core (automations x)). case r of None \<Rightarrow> True
      | Some i \<Rightarrow> (\<exists>(j, b, h, p) \<in> set (map revision_core (revisions x)). j = i \<and> p \<noteq> []))" for x
    by (simp add: artifacts_retained_def)
  with assms show ?thesis by presburger
qed

lemma publications_ok_same:
  assumes "map automation_core (automations d') = map automation_core (automations d)"
    "revisions d' = revisions d" "secret_references d' = secret_references d"
  shows "publications_ok d' = publications_ok d"
  using artifacts_retained_core[OF assms(1)] references_recorded_same[OF assms(3)] assms(2)
  by (simp add: publications_ok_def references_kept_def)

section \<open>Operations\<close>

lemma upsert_secret_ok:
  assumes "vault_ok d" shows "vault_ok (snd (upsert_secret amb name ds c k d))"
proof (cases "secret_by_name d name")
  case None
  then have "name \<notin> s_name ` set (secrets d)" using secret_table.lookup_None[of d name] by auto
  with assms show ?thesis
    by (auto simp: upsert_secret_def None vault_ok_def new_secret_def)
next
  case (Some s)
  let ?t = "update_where (\<lambda>x. s_name x = name) (rotate_secret amb ds c k) (secrets d)"
  have names: "map s_name ?t = map s_name (secrets d)" by (rule map_update_where) (simp add: rotate_secret_def)
  then have "s_name ` set ?t = s_name ` set (secrets d)" by (metis set_map)
  moreover have "1 \<le> s_version x" if "x \<in> set ?t" for x
    using that assms by (auto simp: vault_ok_def rotate_secret_def elim!: update_whereE)
  ultimately show ?thesis
    using assms names by (simp add: upsert_secret_def Some vault_ok_def)
qed

lemma PutEncryptedSecret_Inr:
  assumes "PutEncryptedSecret amb name ds c k actor d = (Inr (md, created), d')"
  shows "\<exists>s d1 as. upsert_secret amb name ds c k d = ((s, created), d1) \<and> md = metadata_of s
    \<and> d' = d1\<lparr>audit_events := audit_events d1 @ as\<rparr>"
  using assms unfolding PutEncryptedSecret_def transact_eq_Inr
  by (auto simp: bindR_eq_Inr split: prod.splits dest!: insertAuditEvent_frame)

lemma PutEncryptedSecret_ok:
  assumes "vault_ok d" shows "vault_ok (snd (PutEncryptedSecret amb name ds c k actor d))"
proof (cases "PutEncryptedSecret amb name ds c k actor d")
  case (Pair res d')
  show ?thesis
  proof (cases res)
    case Inl
    with Pair have "d' = d" unfolding PutEncryptedSecret_def by (simp only: transact_eq_Inl)
    with Pair assms show ?thesis by simp
  next
    case (Inr u)
    with Pair PutEncryptedSecret_Inr[of amb name ds c k actor d "fst u" "snd u" d'] obtain s d1 as where
      "upsert_secret amb name ds c k d = ((s, snd u), d1)" "d' = d1\<lparr>audit_events := audit_events d1 @ as\<rparr>" by auto
    with Pair upsert_secret_ok[OF assms, of amb name ds c k] show ?thesis
      by (simp add: vault_ok_audit)
  qed
qed

lemma secret_uses_pos: "secret_uses name d > 0 \<longleftrightarrow> (\<exists>x \<in> set (secret_references d). sx_secret_name x = name)"
  using rows_affected_pos[of "\<lambda>x. sx_secret_name x = name" "secret_references d"] by (auto simp: secret_uses_def)

lemma DeleteSecret_Inr:
  assumes "DeleteSecret amb name actor d = (Inr (), d')"
  shows "secret_uses name d = 0 \<and> (\<exists>s. secret_by_name d name = Some s)
    \<and> (\<exists>as. d' = d\<lparr>secrets := delete_where (\<lambda>x. s_name x = name) (secrets d), audit_events := audit_events d @ as\<rparr>)"
  using assms unfolding DeleteSecret_def transact_eq_Inr
  by (auto simp: guardR_eq_Inr bindR_eq_Inr split: option.splits dest!: insertAuditEvent_frame)

lemma DeleteSecret_ok:
  assumes "vault_ok d" shows "vault_ok (snd (DeleteSecret amb name actor d))"
proof (cases "DeleteSecret amb name actor d")
  case (Pair res d')
  show ?thesis
  proof (cases res)
    case Inl
    with Pair have "d' = d" unfolding DeleteSecret_def by (simp only: transact_eq_Inl)
    with Pair assms show ?thesis by simp
  next
    case (Inr u)
    with Pair have del: "DeleteSecret amb name actor d = (Inr (), d')" by simp
    have unused: "\<forall>x \<in> set (secret_references d). sx_secret_name x \<noteq> name"
      using DeleteSecret_Inr[OF del] secret_uses_pos[of name d] by auto
    from DeleteSecret_Inr[OF del] obtain as where
      d': "d' = d\<lparr>secrets := delete_where (\<lambda>x. s_name x = name) (secrets d), audit_events := audit_events d @ as\<rparr>" by blast
    have "sx_secret_name x \<in> s_name ` set (secrets d')" if "x \<in> set (secret_references d)" for x
    proof -
      from that assms obtain s where "s \<in> set (secrets d)" "s_name s = sx_secret_name x" by (auto simp: vault_ok_def)
      with unused that show ?thesis by (auto simp: d' set_delete_where image_iff intro!: bexI[of _ s])
    qed
    then have "vault_ok d'"
      using assms by (simp add: d' vault_ok_def delete_where_def distinct_map_filter)
    with Pair show ?thesis by simp
  qed
qed

lemma detach_artifact_vault: "vault_ok d \<Longrightarrow> vault_ok (detach_artifact path d)"
  by (simp add: vault_ok_def detach_artifact_def Let_def set_delete_where)

lemma detach_artifact_references:
  assumes "references_kept d" and "distinct (map rv_id (revisions d))"
  shows "references_kept (detach_artifact path d)"
  unfolding references_kept_def
proof (intro ballI impI)
  let ?d' = "detach_artifact path d"
  let ?gone = "set (map rv_id (filter (\<lambda>v. rv_artifact_path v = path) (revisions d)))"
  have refs: "secret_references ?d' = delete_where (\<lambda>x. sx_revision_id x \<in> ?gone) (secret_references d)"
    and revs: "revisions ?d' = update_where (\<lambda>v. rv_artifact_path v = path) (\<lambda>v. v\<lparr>rv_artifact_path := []\<rparr>) (revisions d)"
    by (simp_all add: detach_artifact_def Let_def)
  fix v assume v: "v \<in> set (revisions ?d')" "rv_artifact_path v \<noteq> []"
  then have kept: "v \<in> set (revisions d)" "rv_artifact_path v \<noteq> path"
    unfolding revs by (auto elim!: update_whereE)
  have "rv_id v \<notin> ?gone"
    using kept key_unique[OF assms(2)] by auto
  moreover have "references_recorded d v" using assms(1) kept(1) v(2) by (simp add: references_kept_def)
  ultimately show "references_recorded ?d' v"
    unfolding references_recorded_def recorded_reference_def refs set_delete_where Bex_def by metis
qed

lemma detach_artifact_artifacts:
  assumes "artifacts_retained d" "catalog_ok d" "\<not> artifact_protected path d"
  shows "artifacts_retained (detach_artifact path d)"
proof (rule artifacts_retainedI)
  let ?vs = "update_where (\<lambda>v. rv_artifact_path v = path) (\<lambda>v. v\<lparr>rv_artifact_path := []\<rparr>) (revisions d)"
  have rows: "automations (detach_artifact path d) = automations d" "revisions (detach_artifact path d) = ?vs"
    by (simp_all add: detach_artifact_def Let_def)
  fix a i assume a: "a \<in> set (automations (detach_artifact path d))" "au_active_revision_id a = Some i"
  then have in_d: "a \<in> set (automations d)" by (simp add: rows)
  from artifacts_retainedD[OF assms(1) in_d a(2)] obtain v where
    v: "v \<in> set (revisions d)" "rv_id v = i" "rv_artifact_path v \<noteq> []" by blast
  from catalogue_okD(5)[OF assms(2)] in_d a(2) obtain u where
    u: "u \<in> set (revisions d)" "rv_id u = i" "rv_automation_id u = au_id a" by blast
  have "u = v" using key_unique[OF catalogue_okD(2)[OF assms(2)] u(1) v(1)] u(2) v(2) by simp
  with u(3) v in_d a(2) assms(3) have "rv_artifact_path v \<noteq> path"
    by (auto simp: artifact_protected_def list_ex_iff)
  with v show "\<exists>v \<in> set (revisions (detach_artifact path d)). rv_id v = i \<and> rv_artifact_path v \<noteq> []"
    unfolding rows by (intro bexI[of _ v] update_where_miss) simp_all
qed

lemma DetachRetentionItem_vault: "vault_ok d \<Longrightarrow> vault_ok (snd (DetachRetentionItem amb kind path d))"
  using vault_ok_same[of "d\<lparr>deployments := t\<rparr>" d for t]
  by (auto simp: DetachRetentionItem_def detach_artifact_vault split: sum.splits)

lemma DetachRetentionItem_publications:
  assumes "publications_ok d" "catalog_ok d"
  shows "publications_ok (snd (DetachRetentionItem amb kind path d))"
  using assms publications_ok_same[of "d\<lparr>deployments := t\<rparr>" d for t]
    detach_artifact_artifacts detach_artifact_references catalogue_okD(2)[OF assms(2)]
  by (auto simp: DetachRetentionItem_def publications_ok_def split: sum.splits)

lemma RollbackAutomation_secrets:
  assumes "RollbackAutomation amb a i actor d = (res, d')"
  shows "vault_ok d \<Longrightarrow> vault_ok d'" "publications_ok d \<Longrightarrow> publications_ok d'"
proof -
  have "(vault_ok d \<longrightarrow> vault_ok d') \<and> (publications_ok d \<longrightarrow> publications_ok d')"
  proof (cases res)
    case Inl
    with assms have "d' = d" unfolding RollbackAutomation_def by (simp only: transact_eq_Inl)
    then show ?thesis by simp
  next
    case (Inr changed)
    from assms[unfolded Inr] show ?thesis
    proof (cases rule: RollbackAutomation_Inr)
      case (moved x v rows as)
      have "vault_ok d' = vault_ok d" by (rule vault_ok_same) (simp_all add: moved(10) set_active_revision_def)
      moreover have "references_kept d' = references_kept d"
        using references_recorded_same[of d' d] by (simp add: references_kept_def moved(10) set_active_revision_def)
      moreover have "artifacts_retained d'" if "artifacts_retained d"
      proof (rule artifacts_retainedI)
        fix y j assume "y \<in> set (automations d')" "au_active_revision_id y = Some j"
        with artifacts_retainedD[OF that, of _ j] moved(4,5,7)
        show "\<exists>v \<in> set (revisions d'). rv_id v = j \<and> rv_artifact_path v \<noteq> []"
          by (auto simp: moved(10) set_active_revision_def elim!: update_whereE)
      qed
      ultimately show ?thesis by (simp add: publications_ok_def)
    qed simp
  qed
  then show "vault_ok d \<Longrightarrow> vault_ok d'" "publications_ok d \<Longrightarrow> publications_ok d'" by blast+
qed

section \<open>Publication\<close>

lemma upsert_revision_rows:
  assumes "upsert_revision amb i m h loc prov d = Inr d'" "i = revision_id_of h"
    and ok: "distinct (map rv_id (revisions d))" "\<forall>v \<in> set (revisions d). rv_id v = revision_id_of (rv_content_hash v)"
    and v: "v \<in> set (revisions d')"
  shows "rv_id v = i \<and> (rv_manifest v = m \<or> (\<exists>u \<in> set (revisions d). rv_automation_id u = md_name (mf_metadata m)
        \<and> rv_content_hash u = h \<and> rv_manifest v = rv_manifest u))
    \<or> rv_id v \<noteq> i \<and> v \<in> set (revisions d)"
proof -
  let ?hit = "\<lambda>v. rv_automation_id v = md_name (mf_metadata m) \<and> rv_content_hash v = h"
  let ?f = "\<lambda>v::revision_row. v\<lparr>rv_artifact_path := loc, rv_provenance := Some prov\<rparr>"
  let ?row = "\<lparr>rv_id = i, rv_automation_id = md_name (mf_metadata m), rv_content_hash = h, rv_manifest = m,
    rv_artifact_path = loc, rv_provenance = Some prov, rv_created_at = pg_now amb\<rparr>"
  show ?thesis
  proof (cases "\<exists>u \<in> set (revisions d). ?hit u")
    case True
    then obtain u where u: "u \<in> set (revisions d)" "?hit u" by blast
    then have "conflicts (\<lambda>v. (rv_automation_id v, rv_content_hash v)) ?row (revisions d)" by (auto simp: conflicts_def)
    with assms(1) have "revisions d' = update_where ?hit ?f (revisions d)" by (auto simp: upsert_revision_def Let_def)
    with v have "v \<in> set (update_where ?hit ?f (revisions d))" by simp
    then show ?thesis
    proof (cases rule: update_whereE)
      case (updated x)
      moreover have "rv_id x = i" using updated(1,2) ok(2) assms(2) by auto
      ultimately show ?thesis by auto
    next
      case kept
      moreover have "rv_id u = i" using u ok(2) assms(2) by auto
      ultimately have "rv_id v \<noteq> i" using u key_unique[OF ok(1)] by blast
      with kept show ?thesis by blast
    qed
  next
    case False
    then have "\<not> conflicts (\<lambda>v. (rv_automation_id v, rv_content_hash v)) ?row (revisions d)" by (auto simp: conflicts_def)
    with assms(1) have "\<not> conflicts rv_id ?row (revisions d)" "revisions d' = revisions d @ [?row]"
      by (auto simp: upsert_revision_def Let_def guardR_eq_Inr)
    with v show ?thesis by (auto simp: conflicts_def)
  qed
qed

lemma publish_revision_vault:
  assumes "vault_ok d" "publish_revision amb m h loc prov actor did stranded d = Inr d4"
  shows "vault_ok d4"
proof -
  note refs = publish_revision_references[OF assms(2)]
  have "sx_secret_name x \<in> s_name ` set (secrets d)" if "x \<in> set (secret_references d4)" for x
  proof -
    from that consider "x \<in> set (secret_references d)" | r where "r \<in> set (SecretReferences m)" "sx_secret_name x = sr_name r"
      unfolding refs(1) by auto
    then show ?thesis
    proof cases
      case 1
      with assms(1) show ?thesis by (simp add: vault_ok_def)
    next
      case (2 r)
      with refs(3) show ?thesis by force
    qed
  qed
  with assms(1) show ?thesis unfolding vault_ok_def refs(2) by blast
qed

lemma publish_revision_publications:
  assumes "publications_ok d" "catalog_ok d" "hash_fixes_secrets d m h" "loc \<noteq> []"
    and "publish_revision amb m h loc prov actor did stranded d = Inr d4"
  shows "publications_ok d4"
  using assms(5)
proof (cases rule: publish_revision_Inr)
  case (1 d1 rows as)
  let ?name = "md_name (mf_metadata m)" and ?rid = "revision_id_of h" and ?d0 = "upsert_automation amb (mf_metadata m) d"
  note refs = publish_revision_references(1)[OF assms(5)]
  note ua = upsert_automation_facts[where d = d and amb = amb and md = "mf_metadata m"]
  have d0: "revisions ?d0 = revisions d" by (subst ua(1), simp)
  have cat: "distinct (map rv_id (revisions d))" "\<forall>v \<in> set (revisions d). rv_id v = revision_id_of (rv_content_hash v)"
    using assms(2) by (auto simp: catalogue_ok_iff)
  note ur = upsert_revision_Inr[OF 1(1) refl, unfolded d0, OF cat]
  have d1: "automations d1 = automations ?d0" using ur(1) by auto
  have revs: "revisions d4 = revisions d1"
    and auts: "automations d4 = automations (set_active_revision amb ?name ?rid d1)"
    using 1(5) by (simp_all add: set_active_revision_def)
  have "references_recorded d4 v" if v: "v \<in> set (revisions d4)" "rv_artifact_path v \<noteq> []" for v
  proof -
    from upsert_revision_rows[OF 1(1) refl, unfolded d0, OF cat, of v] v(1) consider
      (published) "rv_id v = ?rid" "rv_manifest v = m \<or> (\<exists>u \<in> set (revisions d). rv_automation_id u = ?name
        \<and> rv_content_hash u = h \<and> rv_manifest v = rv_manifest u)"
      | (other) "rv_id v \<noteq> ?rid" "v \<in> set (revisions d)" unfolding revs by blast
    then show ?thesis
    proof cases
      case published
      then have "SecretReferences (rv_manifest v) = SecretReferences m"
        using assms(3) by (auto simp: hash_fixes_secrets_def)
      with published(1) show ?thesis
        by (auto simp: references_recorded_def recorded_reference_def refs bex_Un)
    next
      case other
      then have "references_recorded d v" using assms(1) v(2) by (simp add: publications_ok_def references_kept_def)
      with other(1) show ?thesis by (fastforce simp: references_recorded_def recorded_reference_def refs)
    qed
  qed
  moreover have "artifacts_retained d4"
  proof (rule artifacts_retainedI)
    fix a i assume "a \<in> set (automations d4)" and i: "au_active_revision_id a = Some i"
    then obtain y where y: "y \<in> set (automations d1)" "a = (if au_id y = ?name
        then y\<lparr>au_active_revision_id := Some ?rid, au_updated_at := pg_now amb\<rparr> else y)"
      unfolding auts set_active_revision_facts(3) by blast
    show "\<exists>v \<in> set (revisions d4). rv_id v = i \<and> rv_artifact_path v \<noteq> []"
    proof (cases "au_id y = ?name")
      case True
      with y i ur(4) assms(4) show ?thesis unfolding revs by auto
    next
      case False
      with y have "a \<in> set (automations d)" "au_id a \<noteq> ?name" using ua(4) d1 by auto
      moreover from this(1) i catalogue_okD(5)[OF assms(2)] obtain u where
        u: "u \<in> set (revisions d)" "rv_id u = i" "rv_automation_id u = au_id a" by blast
      moreover from artifacts_retainedD[of d a i] assms(1) calculation(1) i obtain v where
        v: "v \<in> set (revisions d)" "rv_id v = i" "rv_artifact_path v \<noteq> []" by (auto simp: publications_ok_def)
      ultimately have "v \<in> set (revisions d1)" using key_unique[OF cat(1) u(1) v(1)] ur(5)[of v] by auto
      with v show ?thesis unfolding revs by blast
    qed
  qed
  ultimately show ?thesis by (simp add: publications_ok_def references_kept_def)
qed

lemma deploy_secrets:
  assumes "deploy amb m h path prov actor did w d = (res, d')"
  shows "vault_ok d \<Longrightarrow> vault_ok d'"
    and "publications_ok d \<Longrightarrow> catalog_ok d \<Longrightarrow> hash_fixes_secrets d m h \<Longrightarrow> path \<noteq> [] \<Longrightarrow> publications_ok d'"
proof -
  have "(vault_ok d \<longrightarrow> vault_ok d')
    \<and> (publications_ok d \<longrightarrow> catalog_ok d \<longrightarrow> hash_fixes_secrets d m h \<longrightarrow> path \<noteq> [] \<longrightarrow> publications_ok d')"
  proof (cases res)
    case Inl
    with assms have "d' = d" unfolding deploy_def by (simp only: transact_eq_Inl)
    then show ?thesis by simp
  next
    case (Inr rid)
    from assms[unfolded Inr] show ?thesis
    proof (rule deploy_published)
      fix location stranded d4
      assume p: "recorded_location amb path = Inr location" "publish_revision amb m h location prov actor did stranded d = Inr d4"
        and same: "secrets d' = secrets d4" "secret_references d' = secret_references d4" "revisions d' = revisions d4"
          "automations d' = automations d4"
      have "vault_ok d' = vault_ok d4" by (rule vault_ok_same[OF same(1,2)])
      moreover have "publications_ok d' = publications_ok d4" by (rule publications_ok_same) (simp_all only: same)
      ultimately show ?thesis
        using publish_revision_vault[OF _ p(2)] publish_revision_publications[OF _ _ _ _ p(2)] recorded_nonempty[OF p(1)] by blast
    qed
  qed
  then show "vault_ok d \<Longrightarrow> vault_ok d'"
    and "publications_ok d \<Longrightarrow> catalog_ok d \<Longrightarrow> hash_fixes_secrets d m h \<Longrightarrow> path \<noteq> [] \<Longrightarrow> publications_ok d'" by blast+
qed

section \<open>Properties\<close>

text \<open>
  A secret in use cannot be deleted. Deleting a secret that the manifest of any retained
  revision names is refused with the number of uses and changes nothing, so the secret can still
  be read; deletion succeeds only for a secret no reference names, and afterwards it is gone.
\<close>

lemma referenced_secret_survives:
  assumes "vault_ok d" and "references_kept d" and "v \<in> set (revisions d)" and "rv_artifact_path v \<noteq> []"
    and "r \<in> set (SecretReferences (rv_manifest v))"
  shows "(\<exists>n > 0. DeleteSecret amb (sr_name r) actor d = (Inl (ErrSecretInUse (sr_name r) n), d))
    \<and> (\<exists>s. GetEncryptedSecret (sr_name r) d = Inr s)
    \<and> (DeleteSecret amb other actor d = (Inr (), d') \<longrightarrow>
        other \<noteq> sr_name r \<and> GetEncryptedSecret other d' = Inl (ErrSecretNotFound [])
        \<and> GetEncryptedSecret (sr_name r) d' = GetEncryptedSecret (sr_name r) d)"
proof -
  let ?k = "sr_name r"
  have "recorded_reference d (rv_id v) ?k"
    using assms by (auto simp: references_kept_def references_recorded_def)
  then have used: "secret_uses ?k d > 0" by (auto simp: recorded_reference_def secret_uses_pos)
  have "?k \<in> s_name ` set (secrets d)"
    using \<open>recorded_reference d (rv_id v) ?k\<close> assms(1) unfolding recorded_reference_def vault_ok_def by metis
  then obtain s where s: "secret_by_name d ?k = Some s"
    using secret_table.lookup_None[of d ?k] by (cases "secret_by_name d ?k") auto
  have "DeleteSecret amb ?k actor d = (Inl (ErrSecretInUse ?k (secret_uses ?k d)), d)"
    using used s by (simp add: DeleteSecret_def transact_def)
  moreover have "other \<noteq> ?k \<and> GetEncryptedSecret other d' = Inl (ErrSecretNotFound [])
      \<and> GetEncryptedSecret ?k d' = GetEncryptedSecret ?k d" if "DeleteSecret amb other actor d = (Inr (), d')"
  proof -
    from DeleteSecret_Inr[OF that] obtain as where zero: "secret_uses other d = 0"
      and d': "secrets d' = delete_where (\<lambda>x. s_name x = other) (secrets d)" by auto
    have "other \<noteq> ?k" using zero used by auto
    moreover have "secret_by_name d' other = None" by (simp add: secret_by_name_def d' find_eq_None set_delete_where)
    moreover have "find (\<lambda>x. s_name x = ?k) (delete_where (\<lambda>x. s_name x = other) t) = find (\<lambda>x. s_name x = ?k) t" for t
      using \<open>other \<noteq> ?k\<close> by (induction t) (auto simp: delete_where_def)
    then have "secret_by_name d' ?k = secret_by_name d ?k" by (simp add: secret_by_name_def d')
    ultimately show ?thesis by (simp add: GetEncryptedSecret_def)
  qed
  ultimately show ?thesis using used s by (auto simp: GetEncryptedSecret_def)
qed

text \<open>
  What is stored is what is read. After a secret was stored, reading it returns exactly the
  ciphertext, description and key it was stored with; its version is one for a new secret and one
  more than before for an existing one; every other secret reads as before.
\<close>

lemma stored_secret_read_back:
  assumes "PutEncryptedSecret amb name description c k actor d = (Inr (md, created), d')"
  shows "(\<exists>s. GetEncryptedSecret name d' = Inr s \<and> s_ciphertext s = c \<and> s_key_id s = k \<and> s_description s = description
      \<and> md = metadata_of s
      \<and> (case secret_by_name d name of None \<Rightarrow> created \<and> s_version s = 1
         | Some s0 \<Rightarrow> \<not> created \<and> s_version s = s_version s0 + 1 \<and> s_created_at s = s_created_at s0))
    \<and> (\<forall>other. other \<noteq> name \<longrightarrow> GetEncryptedSecret other d' = GetEncryptedSecret other d)"
proof -
  from PutEncryptedSecret_Inr[OF assms] obtain s d1 as where
    u: "upsert_secret amb name description c k d = ((s, created), d1)" "md = metadata_of s"
    and "d' = d1\<lparr>audit_events := audit_events d1 @ as\<rparr>" by blast
  then have reads: "secret_by_name d' n = secret_by_name d1 n" for n by (simp add: secret_by_name_def)
  show ?thesis
  proof (cases "secret_by_name d name")
    case None
    with u(1) have "s = new_secret amb name description c k" "created"
      "d1 = d\<lparr>secrets := secrets d @ [new_secret amb name description c k]\<rparr>" by (auto simp: upsert_secret_def)
    with None show ?thesis
      using secret_table.lookup_insert[of d s] by (auto simp: reads GetEncryptedSecret_def new_secret_def u(2))
  next
    case (Some s0)
    then have "s_name s0 = name" using secret_table.lookup_SomeD[OF Some] by simp
    moreover from Some u(1) have "s = rotate_secret amb description c k s0" "\<not> created"
      "d1 = d\<lparr>secrets := update_where (\<lambda>x. s_name x = name) (rotate_secret amb description c k) (secrets d)\<rparr>"
      by (auto simp: upsert_secret_def)
    moreover from this(3) have "secret_by_name d1 n = map_option (\<lambda>r. if s_name r = name then rotate_secret amb description c k r else r)
        (secret_by_name d n)" for n
      using secret_table.lookup_update[of "\<lambda>x. s_name x = name" "rotate_secret amb description c k" d n]
      by (simp add: rotate_secret_def)
    moreover have "s_name x = n" if "secret_by_name d n = Some x" for n x using secret_table.lookup_SomeD[OF that] by simp
    ultimately show ?thesis
      using Some by (auto simp: reads GetEncryptedSecret_def rotate_secret_def u(2) split: option.splits)
  qed
qed

end
