(* ===== verification/RetentionManager.thy ===== *)
theory RetentionManager
  imports RetentionStore
begin

text \<open>
  Retention (\<open>internal/service/retention.go\<close>): the policy and its defaults, the choice of storage
  that no live row needs, that is old enough and outside the kept counts, the plan built from it
  and the application of a plan, which selects again, inspects and detaches each item before it
  removes the storage. The size of a directory and whether \<open>os.RemoveAll\<close> succeeds are arguments.
  \<open>Apply\<close> also returns the paths it removed, in order. Where Go ranges over a map of groups the
  model takes the order in which the groups were created, so it fixes which of two equally old
  groups is kept by count.
\<close>

definition retentionPlanLifetime :: duration where "retentionPlanLifetime = 15 * minute"

definition retentionApplyLease :: duration where "retentionApplyLease = 5 * minute"

definition DefaultRetentionPolicy :: retention_policy where
  "DefaultRetentionPolicy = \<lparr>rp_source_max_age = ''720h'', rp_artifact_max_age = ''2160h'',
     rp_keep_retryable_sources = 3, rp_keep_inactive_revisions = 5\<rparr>"

datatype retention_error = InvalidRetentionPolicy string | RetentionPath string | StorageError
  | StoreError store_error | JoinedError retention_error store_error

definition positive_duration :: "string \<Rightarrow> duration option" where
  "positive_duration s = (case ParseDuration s of Some v \<Rightarrow> if v > 0 then Some v else None | None \<Rightarrow> None)"

definition validateRetentionPolicy :: "retention_policy
    \<Rightarrow> retention_error + retention_policy \<times> duration \<times> duration" where
  "validateRetentionPolicy value =
     (let source = (if rp_source_max_age value = [] then rp_source_max_age DefaultRetentionPolicy else rp_source_max_age value);
          artifact = (if rp_artifact_max_age value = [] then rp_artifact_max_age DefaultRetentionPolicy else rp_artifact_max_age value)
      in case positive_duration source of
           None \<Rightarrow> Inl (InvalidRetentionPolicy ''sourceMaxAge must be a positive Go duration'')
         | Some sourceAge \<Rightarrow>
           (case positive_duration artifact of
              None \<Rightarrow> Inl (InvalidRetentionPolicy ''artifactMaxAge must be a positive Go duration'')
            | Some artifactAge \<Rightarrow>
                guardR (rp_keep_retryable_sources value < 0 \<or> rp_keep_retryable_sources value > 10000)
                  (InvalidRetentionPolicy ''keepRetryableSources must be between 0 and 10000'')
                (guardR (rp_keep_inactive_revisions value < 0 \<or> rp_keep_inactive_revisions value > 10000)
                  (InvalidRetentionPolicy ''keepInactiveRevisions must be between 0 and 10000'')
                (Inr (value\<lparr>rp_source_max_age := duration_string sourceAge,
                       rp_artifact_max_age := duration_string artifactAge\<rparr>, sourceAge, artifactAge)))))"

section \<open>Choosing\<close>

record source_group =
  sg_path :: string
  sg_resource_ids :: "string list"
  sg_automation_ids :: "string list"
  sg_newest :: time
  sg_terminal :: bool
  sg_retryable :: bool

record artifact_group =
  ag_path :: string
  ag_resource_ids :: "string list"
  ag_automation_ids :: "string list"
  ag_newest :: time
  ag_protected :: bool

definition appendUnique :: "string list \<Rightarrow> string \<Rightarrow> string list" where
  "appendUnique values v = (if v \<in> set values then values else values @ [v])"

definition nonEmpty :: "string list \<Rightarrow> string list" where
  "nonEmpty values = filter (\<lambda>v. v \<noteq> []) values"

text \<open>\<open>group := groups[key]; if group == nil { create it }\<close> followed by an update of the group.\<close>

definition upsert_group :: "('g \<Rightarrow> string) \<Rightarrow> string \<Rightarrow> 'g \<Rightarrow> ('g \<Rightarrow> 'g) \<Rightarrow> 'g list \<Rightarrow> 'g list" where
  "upsert_group path p fresh f gs =
     (if list_ex (\<lambda>g. path g = p) gs then update_where (\<lambda>g. path g = p) f gs else gs @ [f fresh])"

definition finished_deployment :: "deployment_status \<Rightarrow> bool" where
  "finished_deployment s = (s \<in> {DeploymentSucceeded, DeploymentFailed, DeploymentCancelled})"

definition retryable_deployment :: "deployment_status \<Rightarrow> bool" where
  "retryable_deployment s = (s \<in> {DeploymentFailed, DeploymentCancelled})"

definition add_source :: "deployment_source_record \<Rightarrow> source_group \<Rightarrow> source_group" where
  "add_source r g = g\<lparr>sg_resource_ids := sg_resource_ids g @ [so_id r],
     sg_automation_ids := appendUnique (sg_automation_ids g) (so_automation_id r),
     sg_newest := max (sg_newest g) (so_created_at r),
     sg_terminal := (sg_terminal g \<and> finished_deployment (so_status r)),
     sg_retryable := (sg_retryable g \<or> retryable_deployment (so_status r))\<rparr>"

definition source_groups :: "deployment_source_record list \<Rightarrow> source_group list" where
  "source_groups rs = foldl (\<lambda>gs r. upsert_group sg_path (so_path r)
     \<lparr>sg_path = so_path r, sg_resource_ids = [], sg_automation_ids = [], sg_newest = zero_time,
      sg_terminal = True, sg_retryable = False\<rparr> (add_source r) gs) [] rs"

definition add_artifact :: "revision_artifact_record \<Rightarrow> artifact_group \<Rightarrow> artifact_group" where
  "add_artifact r g = g\<lparr>ag_resource_ids := ag_resource_ids g @ [ra_id r],
     ag_automation_ids := appendUnique (ag_automation_ids g) (ra_automation_id r),
     ag_newest := max (ag_newest g) (ra_created_at r),
     ag_protected := (ag_protected g \<or> ra_active r \<or> ra_referenced_by_run r \<or> ra_referenced_by_deployment r)\<rparr>"

definition artifact_groups :: "revision_artifact_record list \<Rightarrow> artifact_group list" where
  "artifact_groups rs = foldl (\<lambda>gs r. upsert_group ag_path (ra_path r)
     \<lparr>ag_path = ra_path r, ag_resource_ids = [], ag_automation_ids = [], ag_newest = zero_time,
      ag_protected = False\<rparr> (add_artifact r) gs) [] rs"

text \<open>\<open>byAutomation\<close> and the marking of the newest \<open>keep\<close> groups of every automation.\<close>

definition by_automation :: "('g \<Rightarrow> string list) \<Rightarrow> 'g list \<Rightarrow> 'g list list" where
  "by_automation keys gs =
     map (\<lambda>k. filter (\<lambda>g. k \<in> set (keys g)) gs) (remdups (concat (map keys gs)))"

definition newest_of_each :: "('g \<Rightarrow> time) \<Rightarrow> nat \<Rightarrow> 'g list list \<Rightarrow> 'g list" where
  "newest_of_each newest keep gss =
     concat (map (\<lambda>gs. take keep (sort_key (\<lambda>g. - newest g) gs)) gss)"

definition source_keys :: "source_group \<Rightarrow> string list" where
  "source_keys g = (let keys = nonEmpty (sg_automation_ids g) in if keys = [] then [''_unresolved''] else keys)"

definition markSourceCountProtection :: "source_group list \<Rightarrow> int \<Rightarrow> string list" where
  "markSourceCountProtection gs keep =
     map sg_path (newest_of_each sg_newest (nat keep) (by_automation source_keys (filter sg_retryable gs)))"

definition markArtifactCountProtection :: "artifact_group list \<Rightarrow> int \<Rightarrow> string list" where
  "markArtifactCountProtection gs keep =
     map ag_path (newest_of_each ag_newest (nat keep)
       (by_automation (\<lambda>g. nonEmpty (ag_automation_ids g)) (filter (\<lambda>g. \<not> ag_protected g) gs)))"

definition candidate_item :: "string \<Rightarrow> string \<Rightarrow> string list \<Rightarrow> string list \<Rightarrow> string \<Rightarrow> retention_item" where
  "candidate_item kind path resources automationIDs reason =
     \<lparr>it_position = 0, it_kind = kind, it_storage_key = [], it_storage_path = path,
      it_resource_ids = sort resources, it_automation_ids = nonEmpty (sort automationIDs), it_reason = reason,
      it_estimated_bytes = 0, it_status = [], it_error = [], it_created_at = zero_time, it_deleted_at = None\<rparr>"

definition source_item :: "source_group \<Rightarrow> retention_item" where
  "source_item g = candidate_item ''source'' (sg_path g) (sg_resource_ids g) (sg_automation_ids g)
     (''terminal deployment source exceeded sourceMaxAge''
        @ (if sg_retryable g then '' and keepRetryableSources'' else []))"

definition artifact_item :: "artifact_group \<Rightarrow> retention_item" where
  "artifact_item g = candidate_item ''artifact'' (ag_path g) (ag_resource_ids g) (ag_automation_ids g)
     ''inactive revision artifact exceeded artifactMaxAge and keepInactiveRevisions''"

definition selectRetentionCandidates :: "time \<Rightarrow> retention_policy \<Rightarrow> duration \<Rightarrow> duration
    \<Rightarrow> deployment_source_record list \<Rightarrow> revision_artifact_record list \<Rightarrow> retention_item list" where
  "selectRetentionCandidates now policy sourceAge artifactAge sources artifacts =
     (let sgs = source_groups sources; ags = artifact_groups artifacts;
          kept_sources = markSourceCountProtection sgs (rp_keep_retryable_sources policy);
          kept_artifacts = markArtifactCountProtection ags (rp_keep_inactive_revisions policy)
      in sort_key (\<lambda>i. (it_kind i, it_storage_path i))
        (map source_item (filter (\<lambda>g. sg_terminal g \<and> sg_newest g < now - sourceAge
            \<and> \<not> (sg_retryable g \<and> sg_path g \<in> set kept_sources)) sgs)
         @ map artifact_item (filter (\<lambda>g. \<not> ag_protected g \<and> ag_path g \<notin> set kept_artifacts
            \<and> ag_newest g < now - artifactAge) ags)))"

definition of_store :: "store_error + 'a \<Rightarrow> retention_error + 'a" where
  "of_store r = (case r of Inl e \<Rightarrow> Inl (StoreError e) | Inr v \<Rightarrow> Inr v)"

definition selectCandidates :: "ambient \<Rightarrow> retention_policy \<Rightarrow> duration \<Rightarrow> duration \<Rightarrow> db
    \<Rightarrow> retention_error + retention_item list" where
  "selectCandidates amb policy sourceAge artifactAge d =
     bindR (of_store (ListDeploymentSourceRecords amb d)) (\<lambda>sources.
     bindR (of_store (ListRevisionArtifactRecords amb d)) (\<lambda>artifacts.
     Inr (selectRetentionCandidates (go_now amb) policy sourceAge artifactAge sources artifacts)))"

section \<open>Storage on disk\<close>

definition retention_directory :: "string \<Rightarrow> string option" where
  "retention_directory kind = (if kind = ''source'' then Some ''deployment-sources''
     else if kind = ''artifact'' then Some ''artifacts'' else None)"

definition inspectStorage :: "(string \<Rightarrow> int option) \<Rightarrow> ambient \<Rightarrow> string \<Rightarrow> string \<Rightarrow> retention_error + string \<times> int" where
  "inspectStorage storageSize amb kind path =
     (case retention_directory kind of
        None \<Rightarrow> Inl (RetentionPath (''unsupported retention kind '' @ kind))
      | Some directory \<Rightarrow>
          (let root = Abs (working_dir amb) (JoinPath (data_dir amb) directory);
               target = Abs (working_dir amb) path
           in case Rel root target of
                None \<Rightarrow> Inl (RetentionPath (''retention path is not a direct child of '' @ root))
              | Some relative \<Rightarrow>
                  guardR (relative = ''.'' \<or> relative = ''..'' \<or> HasPrefix relative ''../'' \<or> slash \<in> set relative)
                    (RetentionPath (''retention path is not a direct child of '' @ root))
                  (case storageSize target of
                     None \<Rightarrow> Inl StorageError
                   | Some bytes \<Rightarrow> Inr (JoinPath directory relative, bytes))))"

fun inspect_all :: "(string \<Rightarrow> int option) \<Rightarrow> ambient \<Rightarrow> int \<Rightarrow> retention_item list \<Rightarrow> retention_error + retention_item list" where
  "inspect_all storageSize amb position [] = Inr []"
| "inspect_all storageSize amb position (i # items) =
     bindR (inspectStorage storageSize amb (it_kind i) (it_storage_path i)) (\<lambda>(key, bytes).
     bindR (inspect_all storageSize amb (position + 1) items) (\<lambda>rest.
     Inr (i\<lparr>it_storage_key := key, it_estimated_bytes := bytes, it_position := position,
            it_status := ''planned''\<rparr> # rest)))"

definition candidates :: "(string \<Rightarrow> int option) \<Rightarrow> ambient \<Rightarrow> retention_policy \<Rightarrow> duration \<Rightarrow> duration \<Rightarrow> db
    \<Rightarrow> retention_error + retention_item list" where
  "candidates storageSize amb policy sourceAge artifactAge d =
     bindR (selectCandidates amb policy sourceAge artifactAge d) (inspect_all storageSize amb 0)"

section \<open>Planning and applying\<close>

definition newRetentionPlanID :: "ambient \<Rightarrow> string" where
  "newRetentionPlanID amb = ''ret_'' @ hex_encode (entropy amb 1)"

definition Plan :: "(string \<Rightarrow> int option) \<Rightarrow> ambient \<Rightarrow> retention_policy \<Rightarrow> string \<Rightarrow> db
    \<Rightarrow> (retention_error + retention_plan) \<times> db" where
  "Plan storageSize amb policy actor d =
     (case bindR (validateRetentionPolicy policy) (\<lambda>(normalized, sourceAge, artifactAge).
           bindR (candidates storageSize amb normalized sourceAge artifactAge d) (\<lambda>items. Inr (normalized, items))) of
        Inl e \<Rightarrow> (Inl e, d)
      | Inr (normalized, items) \<Rightarrow>
          (case CreateRetentionPlan amb
              \<lparr>pn_id = newRetentionPlanID amb, pn_status = ''planned'', pn_policy = normalized,
               pn_summary = \<lparr>su_items = int (length items), su_estimated_bytes = sum_list (map it_estimated_bytes items),
                 su_deleted = 0, su_skipped = 0, su_failed = 0\<rparr>,
               pn_items = items, pn_actor = actor, pn_created_at = go_now amb,
               pn_expires_at = go_now amb + retentionPlanLifetime, pn_applied_at = None\<rparr> d of
             (Inl e, d1) \<Rightarrow> (Inl (StoreError e), d1)
           | (Inr _, d1) \<Rightarrow> (of_store (GetRetentionPlan amb (newRetentionPlanID amb) d1), d1)))"

text \<open>
  One item of a plan. The result tells whether the loop goes on, and the path is reported when
  \<open>os.RemoveAll\<close> was called on it.
\<close>

definition record_outcome :: "ambient \<Rightarrow> string \<Rightarrow> int \<Rightarrow> string \<Rightarrow> string \<Rightarrow> retention_error option \<Rightarrow> db
    \<Rightarrow> retention_error option \<times> db" where
  "record_outcome amb planID position status message cause d =
     (case RecordRetentionItem amb planID position status message d of
        (Inl e, d1) \<Rightarrow> (Some (case cause of None \<Rightarrow> StoreError e | Some c \<Rightarrow> JoinedError c e), d1)
      | (Inr _, d1) \<Rightarrow> (None, d1))"

definition apply_item :: "(string \<Rightarrow> int option) \<Rightarrow> (string \<Rightarrow> string option) \<Rightarrow> (retention_error \<Rightarrow> string) \<Rightarrow> ambient
    \<Rightarrow> string \<Rightarrow> (string \<times> string) list \<Rightarrow> retention_item \<Rightarrow> db \<Rightarrow> retention_error option \<times> db \<times> string list" where
  "apply_item storageSize RemoveAll message amb planID eligible item d =
     (let finish = (\<lambda>status msg cause d1 gone.
            case record_outcome amb planID (it_position item) status msg cause d1 of (r, d2) \<Rightarrow> (r, d2, gone));
          path = it_storage_path item
      in if it_status item \<noteq> ''planned'' then (None, d, [])
         else if (it_kind item, path) \<notin> set eligible then
           finish ''skipped'' ''storage became protected or no longer exists'' None d []
         else case inspectStorage storageSize amb (it_kind item) path of
           Inl e \<Rightarrow> finish ''failed'' (message e) (Some e) d []
         | Inr _ \<Rightarrow>
             (case DetachRetentionItem amb (it_kind item) path d of
                (Inl e, d1) \<Rightarrow> finish ''failed'' (message (StoreError e)) (Some (StoreError e)) d1 []
              | (Inr False, d1) \<Rightarrow>
                  finish ''skipped'' ''database references became protected or were already detached'' None d1 []
              | (Inr True, d1) \<Rightarrow>
                  (case RemoveAll path of
                     Some err \<Rightarrow> finish ''failed'' (''database references detached; remove storage: '' @ err)
                        (Some StorageError) d1 [path]
                   | None \<Rightarrow> finish ''deleted'' [] None d1 [path])))"

fun apply_items :: "(retention_item \<Rightarrow> db \<Rightarrow> retention_error option \<times> db \<times> string list) \<Rightarrow> retention_item list \<Rightarrow> db
    \<Rightarrow> retention_error option \<times> db \<times> string list" where
  "apply_items step [] d = (None, d, [])"
| "apply_items step (i # items) d =
     (case step i d of (r, d1, gone) \<Rightarrow>
        (case r of
           Some e \<Rightarrow> (Some e, d1, gone)
         | None \<Rightarrow> (case apply_items step items d1 of (r2, d2, gone2) \<Rightarrow> (r2, d2, gone @ gone2))))"

definition reselect :: "ambient \<Rightarrow> string \<Rightarrow> db \<Rightarrow> retention_error + retention_plan \<times> (string \<times> string) list" where
  "reselect amb planID d =
     bindR (of_store (GetRetentionPlan amb planID d)) (\<lambda>plan.
     bindR (validateRetentionPolicy (pn_policy plan)) (\<lambda>(_, sourceAge, artifactAge).
     bindR (selectCandidates amb (pn_policy plan) sourceAge artifactAge d) (\<lambda>current.
     Inr (plan, map (\<lambda>i. (it_kind i, it_storage_path i)) current))))"

definition apply_plan :: "(retention_item \<Rightarrow> db \<Rightarrow> retention_error option \<times> db \<times> string list) \<Rightarrow> ambient \<Rightarrow> string
    \<Rightarrow> retention_plan \<Rightarrow> db \<Rightarrow> (retention_error + retention_plan) \<times> db \<times> string list" where
  "apply_plan step amb actor plan d =
     (case apply_items step (pn_items plan) d of
        (Some e, d2, gone) \<Rightarrow> (Inl e, d2, gone)
      | (None, d2, gone) \<Rightarrow>
          (case CompleteRetentionPlan amb (pn_id plan) actor d2 of
             (Inl e, d3) \<Rightarrow> (Inl (StoreError e), d3, gone)
           | (Inr _, d3) \<Rightarrow> (of_store (GetRetentionPlan amb (pn_id plan) d3), d3, gone)))"

definition Apply :: "(string \<Rightarrow> int option) \<Rightarrow> (string \<Rightarrow> string option) \<Rightarrow> (retention_error \<Rightarrow> string) \<Rightarrow> ambient
    \<Rightarrow> string \<Rightarrow> string \<Rightarrow> db \<Rightarrow> (retention_error + retention_plan) \<times> db \<times> string list" where
  "Apply storageSize RemoveAll message amb planID actor d =
     (case ClaimRetentionPlan amb planID retentionApplyLease d of
        (Inl e, d1) \<Rightarrow> (Inl (StoreError e), d1, [])
      | (Inr False, d1) \<Rightarrow> (of_store (GetRetentionPlan amb planID d1), d1, [])
      | (Inr True, d1) \<Rightarrow>
          (case reselect amb planID d1 of
             Inl e \<Rightarrow> (Inl e, d1, [])
           | Inr (plan, eligible) \<Rightarrow>
               apply_plan (apply_item storageSize RemoveAll message amb (pn_id plan) eligible) amb actor plan d1))"

end
