(* ===== verification/RetentionProofs.thy ===== *)
theory RetentionProofs
  imports RetentionManager RunQueueProofs Samples
begin

text \<open>
  What retention guarantees: grouping the rows by path is the grouping one expects, storage is
  chosen only when nothing live refers to it, it is old enough and enough newer storage is kept,
  and applying a plan removes only direct children of the two storage directories that nothing
  live referred to at that moment.
\<close>

section \<open>Grouping\<close>

text \<open>The paths of the records in the order of their first appearance.\<close>

definition first_paths :: "('r \<Rightarrow> string) \<Rightarrow> 'r list \<Rightarrow> string list" where
  "first_paths rp rs = rev (remdups (rev (map rp rs)))"

lemma first_paths_snoc:
  "first_paths rp (rs @ [r]) = (if rp r \<in> rp ` set rs then first_paths rp rs else first_paths rp rs @ [rp r])"
  by (simp add: first_paths_def)

lemma set_first_paths [simp]: "set (first_paths rp rs) = rp ` set rs"
  by (simp add: first_paths_def)

lemma distinct_first_paths [simp]: "distinct (first_paths rp rs)"
  by (simp add: first_paths_def)

lemma grouping:
  assumes "\<And>r g. path (add r g) = path g" "\<And>p. path (fresh p) = p"
  shows "foldl (\<lambda>gs r. upsert_group path (rp r) (fresh (rp r)) (add r) gs) [] rs
    = map (\<lambda>p. foldl (\<lambda>g r. add r g) (fresh p) (filter (\<lambda>r. rp r = p) rs)) (first_paths rp rs)"
proof (induction rs rule: rev_induct)
  case (snoc r rs)
  let ?grp = "\<lambda>rs p. foldl (\<lambda>g r. add r g) (fresh p) (filter (\<lambda>r. rp r = p) rs)"
  have path: "path (?grp rs p) = p" for rs p
  proof -
    have "path (foldl (\<lambda>g r. add r g) g xs) = path g" for g xs
      by (induction xs arbitrary: g) (simp_all add: assms(1))
    then show ?thesis by (simp add: assms(2))
  qed
  have old: "?grp (rs @ [r]) p = ?grp rs p" if "p \<noteq> rp r" for p using that by simp
  show ?case
  proof (cases "rp r \<in> rp ` set rs")
    case True
    then have "list_ex (\<lambda>g. path g = rp r) (map (?grp rs) (first_paths rp rs))"
      by (auto simp: list_ex_iff path)
    with True snoc show ?thesis
      by (simp add: upsert_group_def first_paths_snoc update_where_def path)
  next
    case False
    then have "\<not> list_ex (\<lambda>g. path g = rp r) (map (?grp rs) (first_paths rp rs))"
      by (auto simp: list_ex_iff path)
    moreover have "filter (\<lambda>x. rp x = rp r) rs = []" using False by (auto simp: filter_empty_conv image_iff)
    moreover have "map (?grp (rs @ [r])) (first_paths rp rs) = map (?grp rs) (first_paths rp rs)"
      using False by (auto intro!: old)
    ultimately show ?thesis using snoc False by (simp add: upsert_group_def first_paths_snoc)
  qed
qed (simp add: first_paths_def)

lemma source_groups_grouping:
  "source_groups rs = map (\<lambda>p. foldl (\<lambda>g r. add_source r g)
     \<lparr>sg_path = p, sg_resource_ids = [], sg_automation_ids = [], sg_newest = zero_time, sg_terminal = True,
      sg_retryable = False\<rparr> (filter (\<lambda>r. so_path r = p) rs)) (first_paths so_path rs)"
  unfolding source_groups_def by (rule grouping) (simp_all add: add_source_def)

lemma artifact_groups_grouping:
  "artifact_groups rs = map (\<lambda>p. foldl (\<lambda>g r. add_artifact r g)
     \<lparr>ag_path = p, ag_resource_ids = [], ag_automation_ids = [], ag_newest = zero_time, ag_protected = False\<rparr>
     (filter (\<lambda>r. ra_path r = p) rs)) (first_paths ra_path rs)"
  unfolding artifact_groups_def by (rule grouping) (simp_all add: add_artifact_def)

lemma fold_source:
  "sg_path (foldl (\<lambda>g r. add_source r g) g rs) = sg_path g"
  "sg_terminal (foldl (\<lambda>g r. add_source r g) g rs) \<longleftrightarrow> sg_terminal g \<and> (\<forall>r \<in> set rs. finished_deployment (so_status r))"
  "sg_retryable (foldl (\<lambda>g r. add_source r g) g rs) \<longleftrightarrow> sg_retryable g \<or> (\<exists>r \<in> set rs. retryable_deployment (so_status r))"
  "sg_newest (foldl (\<lambda>g r. add_source r g) g rs) \<ge> sg_newest g"
  "r \<in> set rs \<Longrightarrow> so_created_at r \<le> sg_newest (foldl (\<lambda>g r. add_source r g) g rs)"
  "set (sg_automation_ids (foldl (\<lambda>g r. add_source r g) g rs)) = set (sg_automation_ids g) \<union> so_automation_id ` set rs"
proof -
  show "sg_path (foldl (\<lambda>g r. add_source r g) g rs) = sg_path g"
    by (induction rs arbitrary: g) (simp_all add: add_source_def)
  show "sg_terminal (foldl (\<lambda>g r. add_source r g) g rs) \<longleftrightarrow> sg_terminal g \<and> (\<forall>r \<in> set rs. finished_deployment (so_status r))"
    by (induction rs arbitrary: g) (auto simp: add_source_def)
  show "sg_retryable (foldl (\<lambda>g r. add_source r g) g rs) \<longleftrightarrow> sg_retryable g \<or> (\<exists>r \<in> set rs. retryable_deployment (so_status r))"
    by (induction rs arbitrary: g) (auto simp: add_source_def)
  show ge: "sg_newest (foldl (\<lambda>g r. add_source r g) g rs) \<ge> sg_newest g" for g rs
  proof (induction rs arbitrary: g)
    case (Cons r rs)
    from Cons[of "add_source r g"] show ?case by (simp add: add_source_def)
  qed simp
  show "r \<in> set rs \<Longrightarrow> so_created_at r \<le> sg_newest (foldl (\<lambda>g r. add_source r g) g rs)"
  proof (induction rs arbitrary: g)
    case (Cons x rs)
    with ge[of "add_source x g" rs] show ?case by (auto simp: add_source_def)
  qed simp
  show "set (sg_automation_ids (foldl (\<lambda>g r. add_source r g) g rs)) = set (sg_automation_ids g) \<union> so_automation_id ` set rs"
    by (induction rs arbitrary: g) (auto simp: add_source_def appendUnique_def)
qed

lemma fold_artifact:
  "ag_path (foldl (\<lambda>g r. add_artifact r g) g rs) = ag_path g"
  "ag_protected (foldl (\<lambda>g r. add_artifact r g) g rs) \<longleftrightarrow> ag_protected g
     \<or> (\<exists>r \<in> set rs. ra_active r \<or> ra_referenced_by_run r \<or> ra_referenced_by_deployment r)"
  "r \<in> set rs \<Longrightarrow> ra_created_at r \<le> ag_newest (foldl (\<lambda>g r. add_artifact r g) g rs)"
  "set (ag_automation_ids (foldl (\<lambda>g r. add_artifact r g) g rs)) = set (ag_automation_ids g) \<union> ra_automation_id ` set rs"
proof -
  show "ag_path (foldl (\<lambda>g r. add_artifact r g) g rs) = ag_path g"
    by (induction rs arbitrary: g) (simp_all add: add_artifact_def)
  show "ag_protected (foldl (\<lambda>g r. add_artifact r g) g rs) \<longleftrightarrow> ag_protected g
     \<or> (\<exists>r \<in> set rs. ra_active r \<or> ra_referenced_by_run r \<or> ra_referenced_by_deployment r)"
    by (induction rs arbitrary: g) (auto simp: add_artifact_def)
  have ge: "ag_newest (foldl (\<lambda>g r. add_artifact r g) g rs) \<ge> ag_newest g" for g rs
  proof (induction rs arbitrary: g)
    case (Cons r rs)
    from Cons[of "add_artifact r g"] show ?case by (simp add: add_artifact_def)
  qed simp
  show "r \<in> set rs \<Longrightarrow> ra_created_at r \<le> ag_newest (foldl (\<lambda>g r. add_artifact r g) g rs)"
  proof (induction rs arbitrary: g)
    case (Cons x rs)
    with ge[of "add_artifact x g" rs] show ?case by (auto simp: add_artifact_def)
  qed simp
  show "set (ag_automation_ids (foldl (\<lambda>g r. add_artifact r g) g rs)) = set (ag_automation_ids g) \<union> ra_automation_id ` set rs"
    by (induction rs arbitrary: g) (auto simp: add_artifact_def appendUnique_def)
qed

lemma source_group_facts:
  assumes "g \<in> set (source_groups rs)"
  shows "sg_terminal g \<longleftrightarrow> (\<forall>r \<in> set rs. so_path r = sg_path g \<longrightarrow> finished_deployment (so_status r))"
    "sg_retryable g \<longleftrightarrow> (\<exists>r \<in> set rs. so_path r = sg_path g \<and> retryable_deployment (so_status r))"
    "r \<in> set rs \<Longrightarrow> so_path r = sg_path g \<Longrightarrow> so_created_at r \<le> sg_newest g"
    "sg_path g \<in> so_path ` set rs"
  using assms unfolding source_groups_grouping by (auto simp: fold_source intro!: fold_source(5))

lemma artifact_group_facts:
  assumes "g \<in> set (artifact_groups rs)"
  shows "ag_protected g \<longleftrightarrow> (\<exists>r \<in> set rs. ra_path r = ag_path g \<and> (ra_active r \<or> ra_referenced_by_run r \<or> ra_referenced_by_deployment r))"
    "r \<in> set rs \<Longrightarrow> ra_path r = ag_path g \<Longrightarrow> ra_created_at r \<le> ag_newest g"
    "set (ag_automation_ids g) = ra_automation_id ` {r \<in> set rs. ra_path r = ag_path g}"
    "ag_path g \<in> ra_path ` set rs"
  using assms unfolding artifact_groups_grouping by (auto simp: fold_artifact intro!: fold_artifact(3))

lemma group_paths_distinct:
  "distinct (map sg_path (source_groups rs))" "distinct (map ag_path (artifact_groups as))"
  by (simp_all add: source_groups_grouping artifact_groups_grouping comp_def fold_source fold_artifact)

section \<open>Kept counts\<close>

lemma beyond_newest:
  fixes f :: "'a \<Rightarrow> int"
  assumes "x \<in> set xs" "x \<notin> set (take n (sort_key f xs))" "distinct xs"
  shows "\<exists>ys. distinct ys \<and> length ys = n \<and> set ys \<subseteq> set xs \<and> x \<notin> set ys \<and> (\<forall>y \<in> set ys. f y \<le> f x)"
proof -
  let ?s = "sort_key f xs"
  have "x \<in> set (drop n ?s)"
    using assms(1,2) append_take_drop_id[of n ?s] by (metis Un_iff set_append set_sort)
  then have "n < length ?s" by (metis drop_all empty_iff leI list.set(1))
  moreover have "f y \<le> f x" if "y \<in> set (take n ?s)" for y
  proof -
    have "sorted (map f (take n ?s @ drop n ?s))" by simp
    with that \<open>x \<in> set (drop n ?s)\<close> show ?thesis
      unfolding map_append sorted_append by auto
  qed
  moreover have "set (take n ?s) \<subseteq> set xs" by (metis set_sort set_take_subset)
  ultimately show ?thesis using assms(2,3) by (intro exI[of _ "take n ?s"]) auto
qed

lemma not_kept:
  assumes "g \<in> set gs" "k \<in> set (keys g)" "distinct gs"
    "g \<notin> set (newest_of_each newest n (by_automation keys gs))"
  shows "\<exists>ys. distinct ys \<and> length ys = n \<and> set ys \<subseteq> set gs \<and> g \<notin> set ys
    \<and> (\<forall>y \<in> set ys. k \<in> set (keys y) \<and> newest g \<le> newest y)"
proof -
  let ?xs = "filter (\<lambda>h. k \<in> set (keys h)) gs"
  have "?xs \<in> set (by_automation keys gs)" using assms(1,2) by (auto simp: by_automation_def)
  with assms(4) have "g \<notin> set (take n (sort_key (\<lambda>h. - newest h) ?xs))"
    by (auto simp: newest_of_each_def)
  from beyond_newest[OF _ this] assms(1-3) obtain ys where
    "distinct ys" "length ys = n" "set ys \<subseteq> set ?xs" "g \<notin> set ys" "\<forall>y \<in> set ys. - newest y \<le> - newest g"
    by auto
  then show ?thesis by (intro exI[of _ ys]) auto
qed

text \<open>
  C28: Retention chooses only storage nothing needs. A chosen artifact path belongs to no active
  revision, no queued or running run and no deployment in progress, every revision stored there
  is older than the policy's age, and each automation it belongs to keeps at least the configured
  number of other inactive artifacts that are no older. A chosen source path belongs only to
  finished deployments that are older than the policy's age.
\<close>

theorem retention_selection_safe:
  assumes "i \<in> set (selectRetentionCandidates now policy sourceAge artifactAge sources artifacts)"
  shows "(it_kind i = ''artifact'' \<and>
      (\<forall>r \<in> set artifacts. ra_path r = it_storage_path i \<longrightarrow> \<not> ra_active r \<and> \<not> ra_referenced_by_run r
         \<and> \<not> ra_referenced_by_deployment r \<and> ra_created_at r < now - artifactAge)
      \<and> (\<forall>r \<in> set artifacts. ra_path r = it_storage_path i \<and> ra_automation_id r \<noteq> [] \<longrightarrow>
          (\<exists>gs. distinct (map ag_path gs) \<and> length gs = nat (rp_keep_inactive_revisions policy)
             \<and> set gs \<subseteq> set (artifact_groups artifacts)
             \<and> (\<forall>g \<in> set gs. ag_path g \<noteq> it_storage_path i \<and> \<not> ag_protected g
                 \<and> ra_automation_id r \<in> set (ag_automation_ids g) \<and> ra_created_at r \<le> ag_newest g))))
    \<or> (it_kind i = ''source'' \<and>
      (\<forall>r \<in> set sources. so_path r = it_storage_path i \<longrightarrow>
         finished_deployment (so_status r) \<and> so_created_at r < now - sourceAge))"
proof -
  let ?kept = "markArtifactCountProtection (artifact_groups artifacts) (rp_keep_inactive_revisions policy)"
  from assms consider
    (source) g where "g \<in> set (source_groups sources)" "sg_terminal g" "sg_newest g < now - sourceAge" "i = source_item g"
  | (artifact) g where "g \<in> set (artifact_groups artifacts)" "\<not> ag_protected g" "ag_path g \<notin> set ?kept"
      "ag_newest g < now - artifactAge" "i = artifact_item g"
    unfolding selectRetentionCandidates_def Let_def by auto
  then show ?thesis
  proof cases
    case source
    then have "it_kind i = ''source''" "it_storage_path i = sg_path g" by (simp_all add: source_item_def candidate_item_def)
    with source source_group_facts(1,3)[OF source(1)] show ?thesis by fastforce
  next
    case (artifact g)
    have i: "it_kind i = ''artifact''" "it_storage_path i = ag_path g"
      by (simp_all add: artifact(5) artifact_item_def candidate_item_def)
    let ?free = "filter (\<lambda>g. \<not> ag_protected g) (artifact_groups artifacts)"
    have dist: "distinct (map ag_path ?free)" by (rule distinct_map_filter[OF group_paths_distinct(2)])
    have free: "g \<in> set ?free" "distinct ?free" using artifact(1,2) dist by (simp_all add: distinct_map)
    have keep: "\<exists>gs. distinct (map ag_path gs) \<and> length gs = nat (rp_keep_inactive_revisions policy)
             \<and> set gs \<subseteq> set (artifact_groups artifacts)
             \<and> (\<forall>h \<in> set gs. ag_path h \<noteq> ag_path g \<and> \<not> ag_protected h
                 \<and> ra_automation_id r \<in> set (ag_automation_ids h) \<and> ra_created_at r \<le> ag_newest h)"
      if r: "r \<in> set artifacts" "ra_path r = ag_path g" "ra_automation_id r \<noteq> []" for r
    proof -
      have "ra_automation_id r \<in> set (nonEmpty (ag_automation_ids g))"
        using r artifact_group_facts(3)[OF artifact(1)] by (auto simp: nonEmpty_def)
      moreover have "g \<notin> set (newest_of_each ag_newest (nat (rp_keep_inactive_revisions policy))
          (by_automation (\<lambda>g. nonEmpty (ag_automation_ids g)) ?free))"
        using artifact(3) by (auto simp: markArtifactCountProtection_def)
      ultimately obtain ys where ys: "distinct ys" "length ys = nat (rp_keep_inactive_revisions policy)"
        "set ys \<subseteq> set ?free" "g \<notin> set ys"
        "\<forall>y \<in> set ys. ra_automation_id r \<in> set (nonEmpty (ag_automation_ids y)) \<and> ag_newest g \<le> ag_newest y"
        using not_kept[of g ?free "ra_automation_id r" "\<lambda>g. nonEmpty (ag_automation_ids g)"
            ag_newest "nat (rp_keep_inactive_revisions policy)", OF free(1) _ free(2)] by blast
      have "ag_path h \<noteq> ag_path g" if "h \<in> set ys" for h
        using key_unique[OF dist, of h g] that ys(3,4) artifact(1,2) by auto
      moreover have "distinct (map ag_path ys)"
        using ys(1,3) dist by (auto simp: distinct_map intro: inj_on_subset)
      moreover have "ra_created_at r \<le> ag_newest g" by (rule artifact_group_facts(2)[OF artifact(1) r(1,2)])
      ultimately show ?thesis using ys by (intro exI[of _ ys]) (auto simp: nonEmpty_def intro: order_trans)
    qed
    have "\<not> ra_active r \<and> \<not> ra_referenced_by_run r \<and> \<not> ra_referenced_by_deployment r \<and> ra_created_at r < now - artifactAge"
      if "r \<in> set artifacts" "ra_path r = ag_path g" for r
      using artifact_group_facts(1,2)[OF artifact(1)] artifact(2,4) that by fastforce
    with keep show ?thesis unfolding i by blast
  qed
qed


section \<open>Applying a plan\<close>

text \<open>
  The location \<open>q\<close> is detached in a state: no row of its kind refers to it any more. What a live
  row refers to is protected.
\<close>

definition needed :: "string \<Rightarrow> string \<Rightarrow> db \<Rightarrow> bool" where
  "needed kind q d = (if kind = ''source'' then source_protected q d else artifact_protected q d)"

definition referenced :: "string \<Rightarrow> string \<Rightarrow> db \<Rightarrow> bool" where
  "referenced kind q d = (if kind = ''source'' then (\<exists>x \<in> set (deployments d). dp_source_path x = q)
     else (\<exists>v \<in> set (revisions d). rv_artifact_path v = q))"

text \<open>
  What the application of a plan may do to the tables: events, runs, automations and approvals
  stay, a needed location stays needed and the rows that hold it stay as they are, and no
  location gains a reference.
\<close>

definition storage_step :: "db \<Rightarrow> db \<Rightarrow> bool" where
  "storage_step d d' =
     (events d' = events d \<and> runs d' = runs d \<and> automations d' = automations d \<and> approvals d' = approvals d
      \<and> (\<forall>kind q. q \<noteq> [] \<and> needed kind q d \<longrightarrow> needed kind q d')
      \<and> (\<forall>kind q. q \<noteq> [] \<and> referenced kind q d' \<longrightarrow> referenced kind q d)
      \<and> (\<forall>v \<in> set (revisions d). rv_artifact_path v \<noteq> [] \<and> artifact_protected (rv_artifact_path v) d \<longrightarrow> v \<in> set (revisions d'))
      \<and> (\<forall>x \<in> set (deployments d). dp_source_path x \<noteq> [] \<and> source_protected (dp_source_path x) d \<longrightarrow> x \<in> set (deployments d')))"

lemma storage_step_same:
  assumes "events d' = events d" "runs d' = runs d" "automations d' = automations d" "approvals d' = approvals d"
    "deployments d' = deployments d" "revisions d' = revisions d"
  shows "storage_step d d'"
  unfolding storage_step_def needed_def referenced_def source_protected_def artifact_protected_def
  by (simp add: assms)

lemma storage_step_trans:
  assumes "storage_step d d1" "storage_step d1 d2"
  shows "storage_step d d2"
proof -
  have n: "needed kind q d1" if "q \<noteq> []" "needed kind q d" for kind q
    using assms(1) that unfolding storage_step_def by blast
  have a: "artifact_protected q d \<Longrightarrow> q \<noteq> [] \<Longrightarrow> artifact_protected q d1"
    "source_protected q d \<Longrightarrow> q \<noteq> [] \<Longrightarrow> source_protected q d1" for q
    using n[of q "''artifact''"] n[of q "''source''"] by (simp_all add: needed_def)
  have rows: "v \<in> set (revisions d2)"
    if "v \<in> set (revisions d)" "rv_artifact_path v \<noteq> []" "artifact_protected (rv_artifact_path v) d" for v
    using assms that a unfolding storage_step_def by metis
  have rows2: "x \<in> set (deployments d2)"
    if "x \<in> set (deployments d)" "dp_source_path x \<noteq> []" "source_protected (dp_source_path x) d" for x
    using assms that a unfolding storage_step_def by metis
  from assms rows rows2 show ?thesis unfolding storage_step_def by auto
qed

lemma detach_source_step:
  assumes "\<not> source_protected q d"
  shows "storage_step d (d\<lparr>deployments := update_where (\<lambda>x. dp_source_path x = q) (\<lambda>x. x\<lparr>dp_source_path := []\<rparr>) (deployments d)\<rparr>)"
    (is "storage_step d ?d'")
proof -
  let ?f = "\<lambda>x. x\<lparr>dp_source_path := []\<rparr>"
  have kept: "x \<in> set (deployments ?d')" if "x \<in> set (deployments d)" "source_protected (dp_source_path x) d" for x
  proof -
    from that(2) assms have "dp_source_path x \<noteq> q" by auto
    with update_where_miss[of x "deployments d" "\<lambda>x. dp_source_path x = q" ?f] that(1) show ?thesis by simp
  qed
  have "source_protected p ?d'" if "source_protected p d" "p \<noteq> []" for p
  proof -
    from that obtain x where x: "x \<in> set (deployments d)" "dp_source_path x = p"
      "dp_status x \<notin> {DeploymentSucceeded, DeploymentFailed, DeploymentCancelled}"
      by (auto simp: source_protected_def list_ex_iff)
    with kept[of x] that(1) show ?thesis unfolding source_protected_def list_ex_iff by blast
  qed
  moreover have "artifact_protected p ?d'" if ap: "artifact_protected p d" for p
  proof -
    have "list_ex (\<lambda>x. in_progress (dp_status x) \<and> P (dp_automation_id x) (dp_content_hash x)) (deployments ?d')
      = list_ex (\<lambda>x. in_progress (dp_status x) \<and> P (dp_automation_id x) (dp_content_hash x)) (deployments d)" for P
      unfolding list_ex_iff by (simp add: ex_update_where)
    from this[of "\<lambda>a h. list_ex (\<lambda>v. rv_automation_id v = a \<and> rv_content_hash v = h \<and> rv_artifact_path v = p) (revisions d)"]
    show ?thesis using ap unfolding artifact_protected_def by simp
  qed
  moreover have "referenced kind p d" if "referenced kind p ?d'" "p \<noteq> []" for kind p
    using that by (auto simp: referenced_def set_update_where split: if_splits)
  ultimately show ?thesis
    using kept unfolding storage_step_def needed_def by auto
qed

lemma detach_artifact_step:
  assumes "\<not> artifact_protected q d"
  shows "storage_step d (detach_artifact q d)"
proof -
  let ?d' = "detach_artifact q d"
  have frame: "runs ?d' = runs d" "automations ?d' = automations d" "deployments ?d' = deployments d"
    "revisions ?d' = update_where (\<lambda>v. rv_artifact_path v = q) (\<lambda>v. v\<lparr>rv_artifact_path := []\<rparr>) (revisions d)"
    by (simp_all add: detach_artifact_def Let_def)
  have kept: "v \<in> set (revisions ?d')" if "v \<in> set (revisions d)" "artifact_protected (rv_artifact_path v) d" for v
  proof -
    from that(2) assms have "rv_artifact_path v \<noteq> q" by auto
    with that(1) show ?thesis unfolding frame by (intro update_where_miss)
  qed
  have "artifact_protected p ?d'" if ap: "artifact_protected p d" for p
  proof -
    have "v \<in> set (revisions ?d')" if "v \<in> set (revisions d)" "rv_artifact_path v = p" for v
      using kept that ap by blast
    with ap show ?thesis unfolding artifact_protected_def frame(1-3) list_ex_iff by blast
  qed
  moreover have "source_protected p ?d' = source_protected p d" for p by (simp add: source_protected_def frame(3))
  moreover have "referenced kind p d" if "referenced kind p ?d'" "p \<noteq> []" for kind p
    using that unfolding referenced_def frame by (auto simp: set_update_where split: if_splits)
  ultimately show ?thesis
    using kept unfolding storage_step_def needed_def by (auto simp: detach_artifact_def Let_def)
qed

lemma DetachRetentionItem_facts:
  assumes "DetachRetentionItem amb kind path d = (res, d')"
  shows "storage_step d d'"
    and "res = Inr True \<Longrightarrow> path \<noteq> [] \<Longrightarrow> \<exists>q. q \<noteq> [] \<and> recorded_location amb path = Inr q \<and> kind \<in> {''source'', ''artifact''}
      \<and> \<not> needed kind q d \<and> \<not> referenced kind q d'"
proof -
  show "storage_step d d'"
    using assms detach_source_step detach_artifact_step storage_step_same[of d d]
    by (auto simp: DetachRetentionItem_def split: sum.splits if_splits)
  assume r: "res = Inr True" "path \<noteq> []"
  with assms obtain q where q: "recorded_location amb path = Inr q" by (auto simp: DetachRetentionItem_def split: sum.splits)
  have ne: "q \<noteq> []"
  proof -
    from q have "relativeStorageLocation (data_dir amb) (working_dir amb) path = Inr q"
      by (simp add: recorded_location_def split: sum.splits)
    then show ?thesis using r(2)
      by (auto simp: relativeStorageLocation_def isContainedRelativePath_def split: option.splits if_splits)
  qed
  have cleared: "\<not> (\<exists>x \<in> set (update_where (\<lambda>x. dp_source_path x = q) (\<lambda>x. x\<lparr>dp_source_path := []\<rparr>) (deployments d)). dp_source_path x = q)"
    "\<not> (\<exists>v \<in> set (update_where (\<lambda>v. rv_artifact_path v = q) (\<lambda>v. v\<lparr>rv_artifact_path := []\<rparr>) (revisions d)). rv_artifact_path v = q)"
    using ne by (auto simp: update_where_def)
  have "kind \<in> {''source'', ''artifact''} \<and> \<not> needed kind q d \<and> \<not> referenced kind q d'"
  proof (cases "kind = ''source''")
    case True
    with assms r(1) have "\<not> source_protected q d"
      "deployments d' = update_where (\<lambda>x. dp_source_path x = q) (\<lambda>x. x\<lparr>dp_source_path := []\<rparr>) (deployments d)"
      by (auto simp: DetachRetentionItem_def q split: if_splits)
    with True cleared(1) show ?thesis unfolding needed_def referenced_def by auto
  next
    case False
    with assms r(1) have "kind = ''artifact''" "\<not> artifact_protected q d"
      "revisions d' = update_where (\<lambda>v. rv_artifact_path v = q) (\<lambda>v. v\<lparr>rv_artifact_path := []\<rparr>) (revisions d)"
      by (auto simp: DetachRetentionItem_def q detach_artifact_def Let_def split: if_splits)
    with False cleared(2) show ?thesis unfolding needed_def referenced_def by auto
  qed
  with q ne show "\<exists>q. q \<noteq> [] \<and> recorded_location amb path = Inr q \<and> kind \<in> {''source'', ''artifact''}
      \<and> \<not> needed kind q d \<and> \<not> referenced kind q d'" by blast
qed


text \<open>A path a plan may remove: a direct child of the storage directory of its kind.\<close>

definition direct_child :: "ambient \<Rightarrow> string \<Rightarrow> string \<Rightarrow> bool" where
  "direct_child amb kind path = (\<exists>directory name. retention_directory kind = Some directory
     \<and> plain name \<and> components (Abs (working_dir amb) path)
        = components (Abs (working_dir amb) (JoinPath (data_dir amb) directory)) @ [name])"

lemma inspectStorage_child:
  assumes "inspectStorage sz amb kind path = Inr res"
  shows "direct_child amb kind path"
proof -
  from assms obtain directory relative where dir: "retention_directory kind = Some directory"
    and rel: "Rel (Abs (working_dir amb) (JoinPath (data_dir amb) directory)) (Abs (working_dir amb) path) = Some relative"
    and ok: "relative \<noteq> ''.''" "relative \<noteq> ''..''" "\<not> HasPrefix relative ''../''" "slash \<notin> set relative"
    by (auto simp: inspectStorage_def Let_def guardR_eq_Inr split: option.splits)
  let ?root = "Abs (working_dir amb) (JoinPath (data_dir amb) directory)" and ?t = "Abs (working_dir amb) path"
  from rel have abs: "IsAbs ?root" "IsAbs ?t" by (auto simp: Rel_def split: if_splits)
  obtain bs ts where st: "strip_common (components ?root) (components ?t) = (bs, ts)"
    by (cases "strip_common (components ?root) (components ?t)")
  then obtain pre where pre: "components ?root = pre @ bs" "components ?t = pre @ ts"
    using strip_common_spec by blast
  from rel st ok(1) abs have r: "relative = Join (replicate (length bs) ''..'' @ ts) ''/''"
    and ne: "components ?root \<noteq> components ?t" by (auto simp: Rel_def split: if_splits)
  have "replicate (length bs) ''..'' @ ts \<noteq> []" using ne pre by auto
  moreover have "length ws \<le> 1" if "slash \<notin> set (Join ws ''/'')" for ws
    using that by (cases ws rule: list.exhaust; cases "tl ws") auto
  ultimately obtain w where w: "replicate (length bs) ''..'' @ ts = [w]"
    using ok(4) unfolding r by (cases "replicate (length bs) ''..'' @ ts") fastforce+
  then have "bs = []" using ok(2) unfolding r by (cases bs) (auto simp: append_eq_Cons_conv)
  with w pre have "components ?t = components ?root @ [w]" by simp
  moreover from this components_rooted_plain[OF abs(2)] have "plain w" by simp
  ultimately show ?thesis using dir unfolding direct_child_def by blast
qed


text \<open>What is known of a removed path: where it lies and that nothing needed it.\<close>

definition removable :: "ambient \<Rightarrow> db \<Rightarrow> db \<Rightarrow> string \<Rightarrow> bool" where
  "removable amb d d' p = (\<exists>kind q. q \<noteq> [] \<and> recorded_location amb p = Inr q
     \<and> direct_child amb kind p \<and> \<not> needed kind q d \<and> \<not> referenced kind q d')"

lemma storage_step_needed: "storage_step d d' \<Longrightarrow> q \<noteq> [] \<Longrightarrow> needed kind q d \<Longrightarrow> needed kind q d'"
  by (simp add: storage_step_def)

lemma storage_step_referenced: "storage_step d d' \<Longrightarrow> q \<noteq> [] \<Longrightarrow> referenced kind q d' \<Longrightarrow> referenced kind q d"
  by (simp add: storage_step_def)

lemma removable_mono:
  assumes "storage_step d d1" "removable amb d1 d2 p" "storage_step d2 d3"
  shows "removable amb d d3 p"
proof -
  from assms(2) obtain kind q where kq: "q \<noteq> []" "recorded_location amb p = Inr q" "direct_child amb kind p"
    "\<not> needed kind q d1" "\<not> referenced kind q d2" unfolding removable_def by blast
  with storage_step_needed[OF assms(1) kq(1)] storage_step_referenced[OF assms(3) kq(1)] show ?thesis
    unfolding removable_def by (intro exI[of _ kind] exI[of _ q]) auto
qed

lemma record_outcome_step:
  assumes "record_outcome amb i pos st msg c d = (r, d')"
  shows "storage_step d d'"
  using assms by (auto simp: record_outcome_def RecordRetentionItem_def transact_def guardR_def
      split: sum.splits prod.splits if_splits intro!: storage_step_same)

text \<open>The ways one item can go.\<close>

lemma apply_item_cases:
  assumes "apply_item sz rm msg amb i eligible item d = (r, d', gone)"
  obtains (done_before) "d' = d" "gone = []"
  | (recorded) st m c where "record_outcome amb i (it_position item) st m c d = (r, d')" "gone = []"
  | (detached) x res d1 st m c where "(it_kind item, it_storage_path item) \<in> set eligible"
      "inspectStorage sz amb (it_kind item) (it_storage_path item) = Inr x"
      "DetachRetentionItem amb (it_kind item) (it_storage_path item) d = (res, d1)"
      "record_outcome amb i (it_position item) st m c d1 = (r, d')"
      "gone = [] \<or> res = Inr True \<and> gone = [it_storage_path item]"
proof -
  note op = assms[unfolded apply_item_def Let_def]
  show ?thesis
  proof (cases "it_status item = ''planned'' \<and> (it_kind item, it_storage_path item) \<in> set eligible")
    case False
    with op done_before recorded show ?thesis by (auto split: if_splits prod.splits)
  next
    case live: True
    show ?thesis
    proof (cases "inspectStorage sz amb (it_kind item) (it_storage_path item)")
      case (Inl e)
      with op live recorded show ?thesis by (auto split: prod.splits)
    next
      case (Inr x)
      obtain res d1 where det: "DetachRetentionItem amb (it_kind item) (it_storage_path item) d = (res, d1)" by force
      note op = op[unfolded det Inr, simplified live, simplified]
      show ?thesis
      proof (cases res)
        case (Inl e)
        with op show ?thesis using detached[OF _ Inr det] live by (auto split: prod.splits)
      next
        case (Inr b)
        show ?thesis
        proof (cases b)
          case True
          with op \<open>res = Inr b\<close> show ?thesis
            using detached[OF _ \<open>inspectStorage sz amb _ _ = Inr x\<close> det] live by (auto split: prod.splits option.splits)
        next
          case False
          with op \<open>res = Inr b\<close> show ?thesis
            using detached[OF _ \<open>inspectStorage sz amb _ _ = Inr x\<close> det] live by (auto split: prod.splits)
        qed
      qed
    qed
  qed
qed

lemma apply_item_removes:
  assumes "apply_item sz rm msg amb i eligible item d = (r, d', gone)" "\<forall>(k, p) \<in> set eligible. p \<noteq> []"
  shows "storage_step d d'" "\<forall>p \<in> set gone. removable amb d d' p"
proof -
  have "storage_step d d' \<and> (\<forall>p \<in> set gone. removable amb d d' p)"
    using assms(1)
  proof (cases rule: apply_item_cases)
    case done_before
    then show ?thesis by (simp add: storage_step_same)
  next
    case recorded
    then show ?thesis using record_outcome_step by simp
  next
    case (detached x res d1 st m c)
    note steps = DetachRetentionItem_facts(1)[OF detached(3)] record_outcome_step[OF detached(4)]
    from detached(1) assms(2) have "it_storage_path item \<noteq> []" by auto
    then have "removable amb d d1 (it_storage_path item)" if "res = Inr True"
      using DetachRetentionItem_facts(2)[OF detached(3) that] inspectStorage_child[OF detached(2)]
      unfolding removable_def by blast
    then have "\<forall>p \<in> set gone. removable amb d d' p"
      using detached(5) removable_mono[OF storage_step_same _ steps(2)] by auto
    with storage_step_trans[OF steps] show ?thesis by blast
  qed
  then show "storage_step d d'" "\<forall>p \<in> set gone. removable amb d d' p" by blast+
qed

lemma apply_items_removes:
  assumes "apply_items (apply_item sz rm msg amb i eligible) items d = (r, d', gone)" "\<forall>(k, p) \<in> set eligible. p \<noteq> []"
  shows "storage_step d d' \<and> (\<forall>p \<in> set gone. removable amb d d' p)"
  using assms(1)
proof (induction items arbitrary: d r d' gone)
  case Nil
  then show ?case by (simp add: storage_step_same)
next
  case (Cons item items)
  obtain r1 d1 g1 where one: "apply_item sz rm msg amb i eligible item d = (r1, d1, g1)" by (cases rule: prod_cases3)
  note first = apply_item_removes[OF one assms(2)]
  show ?case
  proof (cases r1)
    case (Some e)
    with Cons.prems one first show ?thesis by simp
  next
    case None
    obtain r2 d2 g2 where rest: "apply_items (apply_item sz rm msg amb i eligible) items d1 = (r2, d2, g2)"
      by (cases rule: prod_cases3)
    from Cons.IH[OF rest] have second: "storage_step d1 d2" "\<forall>p \<in> set g2. removable amb d1 d2 p" by simp_all
    from Cons.prems one None rest have eq: "d' = d2" "gone = g1 @ g2" by simp_all
    have refl: "storage_step x x" for x by (simp add: storage_step_same)
    show ?thesis
      unfolding eq using storage_step_trans[OF first(1) second(1)]
        removable_mono[OF refl _ second(1)] removable_mono[OF first(1) _ refl] first(2) second(2) by auto
  qed
qed

lemma resolved_nonempty:
  assumes "resolved_location amb s = Inr p" "s \<noteq> []"
  shows "p \<noteq> []"
proof -
  from assms(1) have "resolveStorageLocation (data_dir amb) s = Inr p"
    by (simp add: resolved_location_def split: sum.splits)
  from resolve_spec[OF this assms(2)] have "IsAbs p" by blast
  then show ?thesis by auto
qed

lemma selected_path:
  assumes "i \<in> set (selectRetentionCandidates now policy sa aa sources artifacts)"
  shows "it_storage_path i \<in> so_path ` set sources \<union> ra_path ` set artifacts"
proof -
  from assms consider g where "g \<in> set (source_groups sources)" "i = source_item g"
    | g where "g \<in> set (artifact_groups artifacts)" "i = artifact_item g"
    unfolding selectRetentionCandidates_def Let_def by auto
  then show ?thesis
    by cases (simp_all add: source_item_def artifact_item_def candidate_item_def source_group_facts(4) artifact_group_facts(4))
qed

lemma selectCandidates_nonempty:
  assumes "selectCandidates amb policy sa aa d = Inr items" "i \<in> set items"
  shows "it_storage_path i \<noteq> []"
proof -
  from assms(1) obtain sources artifacts where
    s: "ListDeploymentSourceRecords amb d = Inr sources" "ListRevisionArtifactRecords amb d = Inr artifacts"
    and i: "items = selectRetentionCandidates (go_now amb) policy sa aa sources artifacts"
    by (auto simp: selectCandidates_def bindR_eq_Inr of_store_def split: sum.splits)
  have "so_path r \<noteq> []" if r: "r \<in> set sources" for r
  proof -
    from mapR_in[OF s(1)[unfolded ListDeploymentSourceRecords_def] r] obtain x where
      "dp_source_path x \<noteq> []" "source_record amb x = Inr r" by (auto simp: set_select_desc)
    then show ?thesis using resolved_nonempty by (auto simp: source_record_def bindR_eq_Inr)
  qed
  moreover have "ra_path r \<noteq> []" if r: "r \<in> set artifacts" for r
  proof -
    from mapR_in[OF s(2)[unfolded ListRevisionArtifactRecords_def] r] obtain v where
      "rv_artifact_path v \<noteq> []" "artifact_record amb d v = Inr r" by (auto simp: set_select_desc)
    then show ?thesis using resolved_nonempty by (auto simp: artifact_record_def bindR_eq_Inr split: option.splits)
  qed
  ultimately show ?thesis
    using assms(2) selected_path[of i "go_now amb" policy sa aa sources artifacts] unfolding i by auto
qed


lemma ClaimRetentionPlan_step: "storage_step d (snd (ClaimRetentionPlan amb i l d))"
  by (auto simp: ClaimRetentionPlan_def Let_def split: option.splits intro!: storage_step_same)

lemma CompleteRetentionPlan_step: "storage_step d (snd (CompleteRetentionPlan amb i actor d))"
  unfolding CompleteRetentionPlan_def
  by (rule transact_invariant, rule storage_step_same, simp_all)
    (auto simp: Let_def guardR_eq_Inr bindR_eq_Inr dest!: insertAuditEvent_frame intro!: storage_step_same)

lemma reselect_nonempty:
  assumes "reselect amb i d = Inr (plan, eligible)"
  shows "\<forall>(k, p) \<in> set eligible. p \<noteq> []"
proof -
  from assms obtain sa aa current where c: "selectCandidates amb (pn_policy plan) sa aa d = Inr current"
    and e: "eligible = map (\<lambda>i. (it_kind i, it_storage_path i)) current"
    by (auto simp: reselect_def bindR_eq_Inr)
  show ?thesis using selectCandidates_nonempty[OF c] unfolding e by force
qed

lemma apply_plan_removes:
  assumes "apply_plan (apply_item sz rm msg amb i eligible) amb actor plan d = (res, d', gone)"
    "\<forall>(k, p) \<in> set eligible. p \<noteq> []"
  shows "storage_step d d' \<and> (\<forall>p \<in> set gone. removable amb d d' p)"
proof -
  obtain r d2 g where items: "apply_items (apply_item sz rm msg amb i eligible) (pn_items plan) d = (r, d2, g)"
    by (cases rule: prod_cases3)
  note s = apply_items_removes[OF items assms(2)]
  have g: "gone = g" and last: "storage_step d2 d'"
    using assms(1) CompleteRetentionPlan_step[of d2 amb "pn_id plan" actor] storage_step_same[of d2 d2]
    unfolding apply_plan_def items by (auto split: option.splits prod.splits sum.splits)
  show ?thesis
    using storage_step_trans[OF conjunct1[OF s] last] s removable_mono[OF storage_step_same _ last] by (auto simp: g)
qed

text \<open>
  C19: Applying a retention plan never takes away storage that is in use. Every path it removes is
  a direct child of the source or the artifact directory, named by a location that no active
  revision, no queued or running run and no deployment in progress needed, and that no row refers
  to afterwards. Every revision and deployment whose storage is needed keeps its row as it was,
  and runs and automations are not touched; whatever the sizes, the removals and the outcome.
\<close>

theorem retention_apply_keeps_live_storage:
  assumes "Apply sz rm msg amb planID actor d = (res, d', gone)"
  shows "(\<forall>p \<in> set gone. removable amb d d' p)
    \<and> runs d' = runs d \<and> automations d' = automations d
    \<and> (\<forall>v \<in> set (revisions d). rv_artifact_path v \<noteq> [] \<and> artifact_protected (rv_artifact_path v) d \<longrightarrow> v \<in> set (revisions d'))
    \<and> (\<forall>x \<in> set (deployments d). dp_source_path x \<noteq> [] \<and> source_protected (dp_source_path x) d \<longrightarrow> x \<in> set (deployments d'))"
proof -
  obtain c d1 where claim: "ClaimRetentionPlan amb planID retentionApplyLease d = (c, d1)" by force
  have s1: "storage_step d d1" using ClaimRetentionPlan_step[of d amb planID retentionApplyLease] by (simp add: claim)
  have "storage_step d d' \<and> (\<forall>p \<in> set gone. removable amb d d' p)"
  proof (cases "d' = d1 \<and> gone = []")
    case True
    with s1 show ?thesis by simp
  next
    case False
    from assms False obtain plan eligible where re: "reselect amb planID d1 = Inr (plan, eligible)"
      and op: "apply_plan (apply_item sz rm msg amb (pn_id plan) eligible) amb actor plan d1 = (res, d', gone)"
      unfolding Apply_def claim by (auto split: sum.splits bool.splits)
    from apply_plan_removes[OF op reselect_nonempty[OF re]] removable_mono[OF s1 _ storage_step_same] storage_step_trans[OF s1]
    show ?thesis by auto
  qed
  then show ?thesis unfolding storage_step_def by auto
qed

definition sample_old_revision :: revision_row where
  "sample_old_revision = sample_revision\<lparr>rv_id := ''rev_old'', rv_content_hash := ''o'', rv_artifact_path := ''artifacts/old''\<rparr>"

definition sample_retained :: db where
  "sample_retained = sample_db\<lparr>revisions := [sample_old_revision, sample_revision]\<rparr>"

definition sample_policy :: retention_policy where
  "sample_policy = \<lparr>rp_source_max_age = ''1h'', rp_artifact_max_age = ''1h'', rp_keep_retryable_sources = 0, rp_keep_inactive_revisions = 0\<rparr>"

definition sample_planned :: db where
  "sample_planned = sample_db\<lparr>revisions := [sample_old_revision, sample_revision],
     retention_plans := [\<lparr>pl_id = ''ret_1'', pl_status = ''planned'', pl_policy = sample_policy, pl_actor = ''ops'',
       pl_created_at = 8 * hour, pl_updated_at = 8 * hour, pl_expires_at = 10 * hour, pl_lease_expires_at = None,
       pl_applied_at = None\<rparr>],
     retention_items := [\<lparr>ri_plan_id = ''ret_1'', ri_position = 0, ri_kind = ''artifact'', ri_storage_key = ''artifacts/old'',
       ri_storage_path = ''artifacts/old'', ri_resource_ids = [''rev_old''], ri_automation_ids = [''orders''], ri_reason = [],
       ri_estimated_bytes = 7, ri_status = ''planned'', ri_error = [], ri_created_at = 8 * hour, ri_deleted_at = None\<rparr>]\<rparr>"

definition sample_applied :: "(retention_error + retention_plan) \<times> db \<times> string list" where
  "sample_applied = Apply (\<lambda>_. Some 7) (\<lambda>_. None) (\<lambda>_. ''error'') (sample_ambient 2 (9 * hour))
     ''ret_1'' ''ops'' sample_planned"

theorem retention_selection_safe_witness:
  "\<exists>i :: retention_item. it_storage_path i = ''/x'' \<and> (it_kind i = ''artifact'' \<or> it_kind i = ''source'')"
proof -
  define rs where "rs = [\<lparr>ra_id = ''rev'', ra_automation_id = ''orders'', ra_path = ''/x'', ra_created_at = 0,
    ra_active = False, ra_referenced_by_run = False, ra_referenced_by_deployment = False\<rparr>]"
  define xs where "xs = selectRetentionCandidates (9 * hour) sample_policy hour hour [] rs"
  have "xs \<noteq> []" "it_storage_path (hd xs) = ''/x''" unfolding xs_def rs_def by code_simp+
  with retention_selection_safe[of "hd xs" "9 * hour" sample_policy hour hour "[]" rs] show ?thesis
    unfolding xs_def[symmetric] by (intro exI[of _ "hd xs"]) auto
qed

theorem retention_apply_keeps_live_storage_witness:
  "sample_revision \<in> set (revisions (fst (snd sample_applied)))"
proof -
  have "sample_revision \<in> set (revisions sample_planned)" "artifact_protected (rv_artifact_path sample_revision) sample_planned"
    "rv_artifact_path sample_revision \<noteq> []" by code_simp+
  moreover have "Apply (\<lambda>_. Some 7) (\<lambda>_. None) (\<lambda>_. ''error'') (sample_ambient 2 (9 * hour)) ''ret_1'' ''ops'' sample_planned
    = (fst sample_applied, fst (snd sample_applied), snd (snd sample_applied))"
    by (simp add: sample_applied_def)
  from retention_apply_keeps_live_storage[OF this] have "\<forall>v \<in> set (revisions sample_planned). rv_artifact_path v \<noteq> []
      \<and> artifact_protected (rv_artifact_path v) sample_planned \<longrightarrow> v \<in> set (revisions (fst (snd sample_applied)))" by blast
  ultimately show ?thesis by blast
qed

end
