(* ===== verification/InvestigationStore.thy ===== *)
theory InvestigationStore
  imports Approvals
begin

text \<open>
  The store of investigations (\<open>internal/database/investigations.go\<close>): reservations keyed by the
  caller's request identifier, at most one open investigation for an issue, replacement of the
  state guarded by the version the caller saw, and one retained row for every accepted version.
  The three unique indexes of the table are modelled: request identifier, open subject, task.
\<close>

definition investigation_by_id :: "db \<Rightarrow> string \<Rightarrow> investigation_row option" where
  "investigation_by_id d k = find (\<lambda>x. in_request_id x = k) (investigations d)"

interpretation investigation_table: keyed_table in_request_id investigations
    "\<lambda>t d. d\<lparr>investigations := t\<rparr>" investigation_by_id
  by unfold_locales (simp_all add: investigation_by_id_def)

definition GetInvestigation :: "string \<Rightarrow> db \<Rightarrow> store_error + investigation_row" where
  "GetInvestigation i d = (case investigation_by_id d i of
     None \<Rightarrow> Inl ErrInvestigationNotFound | Some x \<Rightarrow> Inr x)"

definition ListInvestigations :: "ambient \<Rightarrow> string \<Rightarrow> int \<Rightarrow> list_cursor \<Rightarrow> int \<Rightarrow> db
    \<Rightarrow> store_error + investigation_row list" where
  "ListInvestigations amb repository issue cursor limit d =
     (case ValidateInvestigationSubject repository issue of
        Some e \<Rightarrow> Inl (ErrInvestigation e)
      | None \<Rightarrow>
          (let key = (\<lambda>x. (in_created_at x, collation amb (in_request_id x))) in
           Inr (take (page_limit limit) (select_desc key
             (\<lambda>x. in_repository_id x = repository \<and> in_issue_number x = issue
                \<and> (lc_id cursor = [] \<or> key x < (lc_created_at cursor, collation amb (lc_id cursor))))
             (investigations d)))))"

text \<open>The indexes \<open>investigations_one_active_subject\<close> and \<open>investigations_one_cloud_task\<close>.\<close>

definition open_investigation :: "investigation_row \<Rightarrow> bool" where
  "open_investigation x = (iv_status (in_state x) \<noteq> ''completed'' \<and> iv_status (in_state x) \<noteq> ''abandoned'')"

definition same_subject :: "investigation_row \<Rightarrow> investigation_row \<Rightarrow> bool" where
  "same_subject x y = (open_investigation x \<and> open_investigation y
     \<and> in_repository_id x = in_repository_id y \<and> in_issue_number x = in_issue_number y)"

definition same_task :: "investigation_row \<Rightarrow> investigation_row \<Rightarrow> bool" where
  "same_task x y = (iv_task_id (in_state x) \<noteq> [] \<and> iv_task_id (in_state x) = iv_task_id (in_state y))"

definition index_conflict :: "investigation_row \<Rightarrow> investigation_row list \<Rightarrow> bool" where
  "index_conflict x t = list_ex (\<lambda>y. in_request_id y \<noteq> in_request_id x \<and> (same_subject x y \<or> same_task x y)) t"

definition reserved_state :: investigation_state where
  "reserved_state = \<lparr>iv_status = ''reserved'', iv_task_id = [], iv_task_url = [], iv_attempt = 0,
     iv_actual_base_sha = [], iv_cloud_status = [], iv_cloud_updated_at = None, iv_observed_at = None,
     iv_handoff = [], iv_patch_ref = [], iv_patch_sha256 = [], iv_delivery_evidence = [], iv_reason = []\<rparr>"

definition reserved_row :: "ambient \<Rightarrow> investigation_spec \<Rightarrow> investigation_row" where
  "reserved_row amb spec = \<lparr>in_request_id = is_request_id spec, in_repository_id = is_repository_id spec,
     in_issue_number = is_issue_number spec, in_spec = spec, in_state = reserved_state, in_version = 1,
     in_created_at = pg_now amb, in_updated_at = pg_now amb\<rparr>"

definition recordInvestigationVersion :: "ambient \<Rightarrow> nat \<Rightarrow> investigation_row \<Rightarrow> string \<Rightarrow> string \<Rightarrow> db \<Rightarrow> store_error + db" where
  "recordInvestigationVersion amb k x actor action d =
     (let row = \<lparr>iw_request_id = in_request_id x, iw_version = in_version x, iw_state = in_state x,
                iw_actor = actor, iw_created_at = pg_now amb\<rparr>
      in guardR (conflicts (\<lambda>v. (iw_request_id v, iw_version v)) row (investigation_versions d)) ErrDatabase
         (insertAuditEvent amb k action [] actor
            [(''requestId'', DString (in_request_id x)), (''version'', DInt (in_version x)),
             (''status'', DString (iv_status (in_state x)))]
            (d\<lparr>investigation_versions := investigation_versions d @ [row]\<rparr>)))"

definition ReserveInvestigation :: "ambient \<Rightarrow> investigation_spec \<Rightarrow> string \<Rightarrow> db
    \<Rightarrow> (investigation_row \<times> bool) store_result" where
  "ReserveInvestigation amb spec actor = transact (\<lambda>d.
     case ValidateSpec spec of
       Some e \<Rightarrow> Inl (ErrInvestigation e)
     | None \<Rightarrow>
       (case investigation_by_id d (is_request_id spec) of
          Some x \<Rightarrow> guardR (in_spec x \<noteq> spec) ErrInvestigationConflict (Inr ((x, False), d))
        | None \<Rightarrow>
            (let x = reserved_row amb spec in
             guardR (index_conflict x (investigations d)) ErrInvestigationConflict
             (bindR (recordInvestigationVersion amb 0 x actor ''investigation.reserved''
                 (d\<lparr>investigations := investigations d @ [x]\<rparr>)) (\<lambda>d1.
              Inr ((x, True), d1))))))"

definition replace_state :: "ambient \<Rightarrow> investigation_state \<Rightarrow> investigation_row \<Rightarrow> investigation_row" where
  "replace_state amb s x = x\<lparr>in_state := s, in_version := in_version x + 1, in_updated_at := pg_now amb\<rparr>"

definition UpdateInvestigation :: "(string \<Rightarrow> url_parts option) \<Rightarrow> ambient \<Rightarrow> string \<Rightarrow> int \<Rightarrow> investigation_state \<Rightarrow> string \<Rightarrow> db
    \<Rightarrow> investigation_row store_result" where
  "UpdateInvestigation parse amb i expectedVersion s actor = transact (\<lambda>d.
     case investigation_by_id d i of
       None \<Rightarrow> Inl ErrInvestigationNotFound
     | Some x \<Rightarrow>
         guardR (in_version x \<noteq> expectedVersion) ErrInvestigationConflict
         (case ValidateTransition parse (go_now amb) s (in_state x) of
            Some e \<Rightarrow> Inl (ErrInvestigation e)
          | None \<Rightarrow>
              guardR (index_conflict (replace_state amb s x) (investigations d)) ErrInvestigationConflict
              (bindR (recordInvestigationVersion amb 0 (replace_state amb s x) actor ''investigation.updated''
                  (d\<lparr>investigations := update_where (\<lambda>y. in_request_id y = i) (replace_state amb s) (investigations d)\<rparr>)) (\<lambda>d1.
               Inr (replace_state amb s x, d1)))))"

end
