(* ===== verification/InvestigationProofs.thy ===== *)
theory InvestigationProofs
  imports InvestigationStore RunQueueProofs Samples
begin

text \<open>
  What the investigation store guarantees: one open investigation for an issue, a task attached to
  one investigation, a complete history of versions whose steps are allowed transitions, and
  exclusive replacement of a version.
\<close>

section \<open>The invariant\<close>

definition versions_of :: "string \<Rightarrow> investigation_version_row list \<Rightarrow> investigation_version_row list" where
  "versions_of i ws = filter (\<lambda>w. iw_request_id w = i) ws"

definition allowed_step :: "investigation_state \<Rightarrow> investigation_state \<Rightarrow> bool" where
  "allowed_step a b = (allowed_transition (iv_status a) (iv_status b)
     \<and> (iv_task_id a \<noteq> [] \<longrightarrow> iv_task_id b = iv_task_id a \<and> iv_task_url b = iv_task_url a)
     \<and> (iv_actual_base_sha a \<noteq> [] \<longrightarrow> iv_actual_base_sha b = iv_actual_base_sha a))"

text \<open>The retained versions of one investigation: numbered from one without a gap, beginning with the
  reservation, each an allowed step after the one before, ending in the current state.\<close>

definition history_ok :: "investigation_row \<Rightarrow> investigation_version_row list \<Rightarrow> bool" where
  "history_ok x ws = (ws \<noteq> [] \<and> map iw_version ws = map int [1..<Suc (length ws)]
     \<and> in_version x = int (length ws) \<and> iw_state (hd ws) = reserved_state \<and> iw_state (last ws) = in_state x
     \<and> successively allowed_step (map iw_state ws))"

definition row_matches_spec :: "investigation_row \<Rightarrow> bool" where
  "row_matches_spec x = (in_request_id x = is_request_id (in_spec x) \<and> in_repository_id x = is_repository_id (in_spec x)
     \<and> in_issue_number x = is_issue_number (in_spec x) \<and> ValidateSpec (in_spec x) = None)"

definition investigations_ok :: "db \<Rightarrow> bool" where
  "investigations_ok d = (distinct (map in_request_id (investigations d))
     \<and> list_all (\<lambda>x. row_matches_spec x \<and> \<not> index_conflict x (investigations d)
          \<and> history_ok x (versions_of (in_request_id x) (investigation_versions d))) (investigations d)
     \<and> list_all (\<lambda>w. list_ex (\<lambda>x. in_request_id x = iw_request_id w) (investigations d)) (investigation_versions d))"

lemma investigations_okD:
  assumes "investigations_ok d"
  shows "distinct (map in_request_id (investigations d))"
    and "\<And>x. x \<in> set (investigations d) \<Longrightarrow> row_matches_spec x \<and> \<not> index_conflict x (investigations d)
      \<and> history_ok x (versions_of (in_request_id x) (investigation_versions d))"
    and "\<And>w. w \<in> set (investigation_versions d) \<Longrightarrow> \<exists>x \<in> set (investigations d). in_request_id x = iw_request_id w"
  using assms unfolding investigations_ok_def list_all_iff list_ex_iff by blast+

lemma investigations_okI:
  assumes "distinct (map in_request_id (investigations d))"
    and "\<And>x. x \<in> set (investigations d) \<Longrightarrow> row_matches_spec x"
    and "\<And>x. x \<in> set (investigations d) \<Longrightarrow> \<not> index_conflict x (investigations d)"
    and "\<And>x. x \<in> set (investigations d) \<Longrightarrow> history_ok x (versions_of (in_request_id x) (investigation_versions d))"
    and "\<And>w. w \<in> set (investigation_versions d) \<Longrightarrow> \<exists>x \<in> set (investigations d). in_request_id x = iw_request_id w"
  shows "investigations_ok d"
  using assms unfolding investigations_ok_def list_all_iff list_ex_iff by blast

lemma versions_of_append [simp]: "versions_of i (ws @ vs) = versions_of i ws @ versions_of i vs"
  by (simp add: versions_of_def)

lemma index_conflict_iff:
  "index_conflict x t \<longleftrightarrow> (\<exists>y \<in> set t. in_request_id y \<noteq> in_request_id x \<and> (same_subject x y \<or> same_task x y))"
  by (simp add: index_conflict_def list_ex_iff)

lemma conflict_sym: "same_subject x y = same_subject y x" "same_task x y = same_task y x"
  by (auto simp: same_subject_def same_task_def)

lemma recordInvestigationVersion_Inr:
  assumes "recordInvestigationVersion amb k x actor action d = Inr d'"
  shows "\<exists>as. d' = d\<lparr>investigation_versions := investigation_versions d @ [\<lparr>iw_request_id = in_request_id x, iw_version = in_version x,
      iw_state = in_state x, iw_actor = actor, iw_created_at = pg_now amb\<rparr>], audit_events := audit_events d @ as\<rparr>"
  using assms unfolding recordInvestigationVersion_def Let_def guardR_eq_Inr
  by (auto dest!: insertAuditEvent_frame)

section \<open>Reserving\<close>

lemma ReserveInvestigation_Inr:
  assumes "ReserveInvestigation amb spec actor d = (Inr (x, created), d')"
  obtains (replay) "\<not> created" "d' = d" "investigation_by_id d (is_request_id spec) = Some x" "in_spec x = spec"
  | (fresh) as where "created" "investigation_by_id d (is_request_id spec) = None" "x = reserved_row amb spec"
      "ValidateSpec spec = None" "\<not> index_conflict x (investigations d)"
      "d' = d\<lparr>investigations := investigations d @ [x], investigation_versions := investigation_versions d @
         [\<lparr>iw_request_id = is_request_id spec, iw_version = 1, iw_state = reserved_state, iw_actor = actor,
           iw_created_at = pg_now amb\<rparr>], audit_events := audit_events d @ as\<rparr>"
proof (cases "investigation_by_id d (is_request_id spec)")
  case (Some y)
  with assms replay show ?thesis
    by (auto simp: ReserveInvestigation_def transact_eq_Inr guardR_eq_Inr split: option.splits)
next
  case None
  with assms have v: "ValidateSpec spec = None" "created" "x = reserved_row amb spec"
    "\<not> index_conflict x (investigations d)"
    "recordInvestigationVersion amb 0 x actor ''investigation.reserved'' (d\<lparr>investigations := investigations d @ [x]\<rparr>) = Inr d'"
    by (auto simp: ReserveInvestigation_def transact_eq_Inr Let_def guardR_eq_Inr bindR_eq_Inr split: option.splits)
  from recordInvestigationVersion_Inr[OF v(5)] obtain as where
    "d' = d\<lparr>investigations := investigations d @ [x], investigation_versions := investigation_versions d @
         [\<lparr>iw_request_id = is_request_id spec, iw_version = 1, iw_state = reserved_state, iw_actor = actor,
           iw_created_at = pg_now amb\<rparr>], audit_events := audit_events d @ as\<rparr>"
    by (auto simp: v(3) reserved_row_def)
  with fresh v None show ?thesis by blast
qed

lemma ReserveInvestigation_ok:
  assumes "investigations_ok d"
  shows "investigations_ok (snd (ReserveInvestigation amb spec actor d))"
proof (cases "ReserveInvestigation amb spec actor d")
  case (Pair res d')
  show ?thesis
  proof (cases res)
    case (Inl e)
    from Pair[unfolded Inl] have "d' = d" unfolding ReserveInvestigation_def by (simp add: transact_eq_Inl)
    with Pair assms show ?thesis by simp
  next
    case (Inr y)
    obtain x created where y: "y = (x, created)" by (cases y)
    from Pair[unfolded Inr y] show ?thesis
    proof (cases rule: ReserveInvestigation_Inr)
      case replay
      with Pair assms show ?thesis by simp
    next
      case (fresh as)
      let ?w = "\<lparr>iw_request_id = is_request_id spec, iw_version = 1, iw_state = reserved_state, iw_actor = actor,
           iw_created_at = pg_now amb\<rparr>"
      note ok = investigations_okD[OF assms]
      have new: "in_request_id r \<noteq> is_request_id spec" if "r \<in> set (investigations d)" for r
        using fresh(2) that by (auto simp: investigation_table.lookup_None)
      then have none: "versions_of (is_request_id spec) (investigation_versions d) = []"
        using ok(3) unfolding versions_of_def filter_empty_conv by metis
      have x: "in_request_id x = is_request_id spec" "row_matches_spec x" "in_version x = 1" "in_state x = reserved_state"
        using fresh(3,4) by (simp_all add: reserved_row_def row_matches_spec_def)
      have old: "\<not> index_conflict r (investigations d @ [x])" if "r \<in> set (investigations d)" for r
        using ok(2)[OF that] fresh(5) that new[OF that] x(1) unfolding index_conflict_iff
        by (auto simp: conflict_sym)
      have rows: "investigations d' = investigations d @ [x]" "investigation_versions d' = investigation_versions d @ [?w]"
        by (simp_all add: fresh(6))
      have "investigations_ok d'"
      proof (rule investigations_okI)
        show "distinct (map in_request_id (investigations d'))" using ok(1) new x(1) by (fastforce simp: rows)
        show "row_matches_spec y" if "y \<in> set (investigations d')" for y using that ok(2) x(2) by (auto simp: rows)
        show "\<not> index_conflict y (investigations d')" if "y \<in> set (investigations d')" for y
          using that old fresh(5) by (auto simp: rows index_conflict_iff)
        show "history_ok y (versions_of (in_request_id y) (investigation_versions d'))" if "y \<in> set (investigations d')" for y
        proof (cases "y = x")
          case True
          with x none show ?thesis by (simp add: rows versions_of_def history_ok_def)
        next
          case False
          with that have "y \<in> set (investigations d)" by (simp add: rows)
          with ok(2)[OF this] new[OF this] show ?thesis by (simp add: rows versions_of_def)
        qed
        show "\<exists>y \<in> set (investigations d'). in_request_id y = iw_request_id w" if "w \<in> set (investigation_versions d')" for w
          using that ok(3)[of w] x(1) by (auto simp: rows)
      qed
      with Pair show ?thesis by simp
    qed
  qed
qed

section \<open>Updating\<close>

lemma UpdateInvestigation_Inr:
  assumes "UpdateInvestigation parse amb i v s actor d = (Inr x', d')"
  obtains x as where "investigation_by_id d i = Some x" "in_version x = v" "ValidateTransition parse (go_now amb) s (in_state x) = None"
    "x' = replace_state amb s x" "\<not> index_conflict x' (investigations d)"
    "d' = d\<lparr>investigations := update_where (\<lambda>y. in_request_id y = i) (replace_state amb s) (investigations d),
       investigation_versions := investigation_versions d @ [\<lparr>iw_request_id = i, iw_version = v + 1, iw_state = s,
         iw_actor = actor, iw_created_at = pg_now amb\<rparr>], audit_events := audit_events d @ as\<rparr>"
proof -
  from assms obtain x where x: "investigation_by_id d i = Some x" "in_version x = v"
    "ValidateTransition parse (go_now amb) s (in_state x) = None" "x' = replace_state amb s x" "\<not> index_conflict x' (investigations d)"
    and r: "recordInvestigationVersion amb 0 x' actor ''investigation.updated''
      (d\<lparr>investigations := update_where (\<lambda>y. in_request_id y = i) (replace_state amb s) (investigations d)\<rparr>) = Inr d'"
    by (auto simp: UpdateInvestigation_def transact_eq_Inr guardR_eq_Inr bindR_eq_Inr split: option.splits)
  have "in_request_id x = i" using investigation_table.lookup_SomeD[OF x(1)] by simp
  with recordInvestigationVersion_Inr[OF r] that[OF x] show ?thesis
    using x(2,4) by (auto simp: replace_state_def)
qed

lemma allowed_step_accepted:
  assumes "ValidateTransition parse now s p = None"
  shows "allowed_step p s"
  using accepts_allowed[OF assms] accepts_task_identity[OF assms] accepts_base_sha[OF assms]
  by (simp add: allowed_step_def)

lemma history_ok_snoc:
  assumes "history_ok x ws" "allowed_step (in_state x) s"
  shows "history_ok (replace_state amb s x) (ws @ [\<lparr>iw_request_id = i, iw_version = in_version x + 1, iw_state = s,
         iw_actor = actor, iw_created_at = t\<rparr>])"
  using assms by (auto simp: history_ok_def replace_state_def successively_append_iff hd_append last_map)

lemma UpdateInvestigation_ok:
  assumes "investigations_ok d"
  shows "investigations_ok (snd (UpdateInvestigation parse amb i v s actor d))"
proof (cases "UpdateInvestigation parse amb i v s actor d")
  case (Pair res d')
  show ?thesis
  proof (cases res)
    case (Inl e)
    from Pair[unfolded Inl] have "d' = d" unfolding UpdateInvestigation_def by (simp add: transact_eq_Inl)
    with Pair assms show ?thesis by simp
  next
    case (Inr x')
    from Pair[unfolded Inr] obtain x as where x: "investigation_by_id d i = Some x" "in_version x = v"
      "ValidateTransition parse (go_now amb) s (in_state x) = None" "x' = replace_state amb s x" "\<not> index_conflict x' (investigations d)"
      and d': "d' = d\<lparr>investigations := update_where (\<lambda>y. in_request_id y = i) (replace_state amb s) (investigations d),
       investigation_versions := investigation_versions d @ [\<lparr>iw_request_id = i, iw_version = v + 1, iw_state = s,
         iw_actor = actor, iw_created_at = pg_now amb\<rparr>], audit_events := audit_events d @ as\<rparr>"
      by (rule UpdateInvestigation_Inr)
    note ok = investigations_okD[OF assms]
    from investigation_table.lookup_SomeD[OF x(1)] have xin: "x \<in> set (investigations d)" "in_request_id x = i" by simp_all
    have same: "y = x" if "y \<in> set (investigations d)" "in_request_id y = i" for y
      using key_unique[OF ok(1) that(1) xin(1)] that(2) xin(2) by simp
    have x'_fields: "in_request_id x' = i" "row_matches_spec x'" using x(4) xin(2) ok(2)[OF xin(1)]
      by (simp_all add: replace_state_def row_matches_spec_def)
    have ids: "map in_request_id (investigations d') = map in_request_id (investigations d)"
      unfolding d' by (simp add: map_update_where replace_state_def)
    have mem: "y \<in> set (investigations d') \<longleftrightarrow> y = x' \<or> y \<in> set (investigations d) \<and> in_request_id y \<noteq> i" for y
    proof
      assume "y \<in> set (investigations d')"
      then have "y \<in> set (update_where (\<lambda>y. in_request_id y = i) (replace_state amb s) (investigations d))" by (simp add: d')
      then show "y = x' \<or> y \<in> set (investigations d) \<and> in_request_id y \<noteq> i"
        by (cases rule: update_whereE) (use same x(4) in blast)+
    next
      assume "y = x' \<or> y \<in> set (investigations d) \<and> in_request_id y \<noteq> i"
      then show "y \<in> set (investigations d')"
        using update_where_hit[of x "investigations d" "\<lambda>y. in_request_id y = i" "replace_state amb s"]
          update_where_miss[of y "investigations d" "\<lambda>y. in_request_id y = i" "replace_state amb s"] xin x(4)
        by (auto simp: d')
    qed
    have nc: "\<not> index_conflict y (investigations d')" if "y \<in> set (investigations d')" for y
    proof
      assume "index_conflict y (investigations d')"
      then obtain z where z: "z \<in> set (investigations d')" "in_request_id z \<noteq> in_request_id y" "same_subject y z \<or> same_task y z"
        unfolding index_conflict_iff by blast
      show False
      proof (cases "y = x' \<or> z = x'")
        case True
        then have "index_conflict x' (investigations d)"
          using z that x'_fields(1) unfolding index_conflict_iff mem by (metis conflict_sym)
        with x(5) show False ..
      next
        case False
        with z that have "index_conflict y (investigations d)" "y \<in> set (investigations d)"
          unfolding index_conflict_iff mem by blast+
        with ok(2) show False by blast
      qed
    qed
    have "history_ok y (versions_of (in_request_id y) (investigation_versions d'))" if "y \<in> set (investigations d')" for y
    proof (cases "y = x'")
      case True
      then show ?thesis
        using history_ok_snoc[OF _ allowed_step_accepted[OF x(3)]] ok(2)[OF xin(1)] x(2,4) xin(2) x'_fields(1)
        by (auto simp: d' versions_of_def)
    next
      case False
      with that mem have y: "y \<in> set (investigations d)" "in_request_id y \<noteq> i" by blast+
      have "versions_of (in_request_id y) (investigation_versions d') = versions_of (in_request_id y) (investigation_versions d)"
        using y(2) by (simp add: d' versions_of_def)
      with ok(2)[OF y(1)] show ?thesis by simp
    qed
    moreover have "row_matches_spec y" if "y \<in> set (investigations d')" for y
      using that ok(2) x'_fields(2) by (auto simp: mem)
    moreover have "\<exists>y \<in> set (investigations d'). in_request_id y = iw_request_id w" if "w \<in> set (investigation_versions d')" for w
    proof -
      from that have "iw_request_id w \<in> in_request_id ` set (investigations d)"
        using ok(3) xin by (auto simp: d' image_iff) (metis)+
      then have "iw_request_id w \<in> set (map in_request_id (investigations d'))" by (simp only: ids set_map)
      then show ?thesis by auto
    qed
    ultimately have "investigations_ok d'"
      using ok(1) nc by (intro investigations_okI; (blast | simp add: ids))
    with Pair show ?thesis by simp
  qed
qed


section \<open>Properties\<close>

text \<open>
  C29: A version of an investigation is replaced once. After an update succeeded, every other
  update that was prepared against the same version is refused as a conflict and changes nothing,
  whatever its state and whoever sends it; the recorded version has moved on by one.
\<close>

theorem investigation_version_replaced_once:
  assumes "UpdateInvestigation parse amb i v s actor d = (Inr x, d1)"
  shows "in_version x = v + 1 \<and> in_state x = s \<and> GetInvestigation i d1 = Inr x
    \<and> UpdateInvestigation parse' amb' i v s' actor' d1 = (Inl ErrInvestigationConflict, d1)"
proof -
  from assms obtain y as where y: "investigation_by_id d i = Some y" "in_version y = v" "x = replace_state amb s y"
    and d1: "investigations d1 = update_where (\<lambda>y. in_request_id y = i) (replace_state amb s) (investigations d)"
    by (rule UpdateInvestigation_Inr) simp
  have "in_request_id y = i" using investigation_table.lookup_SomeD[OF y(1)] by simp
  then have "investigation_by_id d1 i = Some x"
    unfolding investigation_by_id_def d1 y(3) using y(1)[unfolded investigation_by_id_def]
    by (subst find_update_where) (auto simp: replace_state_def)
  with y show ?thesis
    by (simp add: GetInvestigation_def UpdateInvestigation_def transact_def replace_state_def)
qed

text \<open>
  A reserved request keeps its row and its subject, and as long as it does, it is the answer to
  the same request and excludes others.
\<close>

definition investigations_follow :: "db \<Rightarrow> db \<Rightarrow> bool" where
  "investigations_follow d d' = (\<forall>x \<in> set (investigations d). \<exists>y \<in> set (investigations d').
     in_request_id y = in_request_id x \<and> in_spec y = in_spec x)"

lemma investigations_follow_same: "investigations d' = investigations d \<Longrightarrow> investigations_follow d d'"
  by (auto simp: investigations_follow_def)

lemma investigations_follow_trans: "investigations_follow d d1 \<Longrightarrow> investigations_follow d1 d2 \<Longrightarrow> investigations_follow d d2"
  unfolding investigations_follow_def by metis

lemma ReserveInvestigation_follow:
  assumes "ReserveInvestigation amb spec actor d = (res, d')" shows "investigations_follow d d'"
proof (cases res)
  case Inl
  with assms have "d' = d" unfolding ReserveInvestigation_def by (simp only: transact_eq_Inl)
  then show ?thesis by (simp add: investigations_follow_same)
next
  case (Inr y)
  obtain x created where y: "y = (x, created)" by (cases y)
  from assms[unfolded Inr y] show ?thesis
    by (cases rule: ReserveInvestigation_Inr) (auto simp: investigations_follow_def)
qed

lemma UpdateInvestigation_follow:
  assumes "UpdateInvestigation parse amb i v s actor d = (res, d')" shows "investigations_follow d d'"
proof (cases res)
  case Inl
  with assms have "d' = d" unfolding UpdateInvestigation_def by (simp only: transact_eq_Inl)
  then show ?thesis by (simp add: investigations_follow_same)
next
  case (Inr x')
  from assms[unfolded Inr] have d': "investigations d' = update_where (\<lambda>y. in_request_id y = i) (replace_state amb s) (investigations d)"
    by (rule UpdateInvestigation_Inr) simp
  show ?thesis
    unfolding investigations_follow_def d'
  proof
    fix x assume x: "x \<in> set (investigations d)"
    show "\<exists>y \<in> set (update_where (\<lambda>y. in_request_id y = i) (replace_state amb s) (investigations d)).
        in_request_id y = in_request_id x \<and> in_spec y = in_spec x"
    proof (cases "in_request_id x = i")
      case True
      with update_where_hit[of x "investigations d" "\<lambda>y. in_request_id y = i" "replace_state amb s", OF x] show ?thesis
        by (intro bexI[of _ "replace_state amb s x"]) (simp_all add: replace_state_def)
    next
      case False
      with update_where_miss[of x "investigations d" "\<lambda>y. in_request_id y = i" "replace_state amb s", OF x] show ?thesis
        by (intro bexI[of _ x]) simp_all
    qed
  qed
qed

lemma reservation_recorded:
  assumes "ReserveInvestigation amb spec actor d = (Inr (x, created), d1)"
  shows "\<exists>y \<in> set (investigations d1). in_request_id y = is_request_id spec \<and> in_spec y = spec"
  using assms
proof (cases rule: ReserveInvestigation_Inr)
  case replay
  with investigation_table.lookup_SomeD[OF replay(3)] show ?thesis by blast
qed (auto simp: reserved_row_def)

lemma reserved_request_answered:
  assumes "investigations_ok d" "x \<in> set (investigations d)" "in_request_id x = is_request_id spec" "in_spec x = spec"
  shows "investigation_by_id d (is_request_id spec) = Some x"
    and "ReserveInvestigation amb spec actor d = (Inr (x, False), d)"
    and "ValidateSpec spec' = None \<Longrightarrow> is_request_id spec' = is_request_id spec \<Longrightarrow> spec' \<noteq> spec \<Longrightarrow>
      ReserveInvestigation amb spec' actor d = (Inl ErrInvestigationConflict, d)"
    and "ValidateSpec spec' = None \<Longrightarrow> investigation_by_id d (is_request_id spec') = None \<Longrightarrow>
      is_repository_id spec' = is_repository_id spec \<Longrightarrow> is_issue_number spec' = is_issue_number spec \<Longrightarrow>
      iv_status (in_state x) \<noteq> ''completed'' \<Longrightarrow> iv_status (in_state x) \<noteq> ''abandoned'' \<Longrightarrow>
      ReserveInvestigation amb spec' actor d = (Inl ErrInvestigationConflict, d)"
proof -
  note ok = investigations_okD[OF assms(1)]
  show look: "investigation_by_id d (is_request_id spec) = Some x"
    using investigation_table.lookup_iff[OF ok(1)] assms(2,3) by blast
  have row: "ValidateSpec spec = None" "in_repository_id x = is_repository_id spec" "in_issue_number x = is_issue_number spec"
    using ok(2)[OF assms(2)] assms(4) by (auto simp: row_matches_spec_def)
  show "ReserveInvestigation amb spec actor d = (Inr (x, False), d)"
    using look row(1) assms(4) by (simp add: ReserveInvestigation_def transact_def)
  show "ReserveInvestigation amb spec' actor d = (Inl ErrInvestigationConflict, d)"
    if "ValidateSpec spec' = None" "is_request_id spec' = is_request_id spec" "spec' \<noteq> spec"
    using look that assms(4) by (simp add: ReserveInvestigation_def transact_def)
  show "ReserveInvestigation amb spec' actor d = (Inl ErrInvestigationConflict, d)"
    if new: "ValidateSpec spec' = None" "investigation_by_id d (is_request_id spec') = None"
      "is_repository_id spec' = is_repository_id spec" "is_issue_number spec' = is_issue_number spec"
      and opened: "iv_status (in_state x) \<noteq> ''completed''" "iv_status (in_state x) \<noteq> ''abandoned''"
  proof -
    have "is_request_id spec' \<noteq> is_request_id spec" using new(2) look by auto
    then have "index_conflict (reserved_row amb spec') (investigations d)"
      using assms(3) row(2,3) new(3,4) opened unfolding index_conflict_iff
      by (intro bexI[OF _ assms(2)]) (simp add: reserved_row_def same_subject_def open_investigation_def reserved_state_def)
    with new show ?thesis by (simp add: ReserveInvestigation_def transact_def Let_def)
  qed
qed

section \<open>Examples\<close>

definition sample_spec :: investigation_spec where
  "sample_spec = \<lparr>is_request_id = ''req-1'', is_repository_id = ''42'', is_repository = ''acme/shop'', is_issue_number = 7,
     is_issue_fingerprint = replicate 64 (CHR ''a''), is_environment_id = ''env'', is_branch = ''main'',
     is_expected_base_sha = replicate 40 (CHR ''b'')\<rparr>"

lemma sample_spec_valid: "ValidateSpec sample_spec = None"
proof -
  have "lower_hex (CHR ''a'')" "lower_hex (CHR ''b'')" by code_simp+
  then have "sha256Value (is_issue_fingerprint sample_spec)" "commitSHA (is_expected_base_sha sample_spec)"
    by (simp_all only: sha256Value_def commitSHA_def sample_spec_def investigation_spec.simps length_replicate list_all_iff
        set_replicate_conv_if) simp_all
  moreover have "repositoryID ''42''" "investigationID ''req-1''" "repositoryName ''acme/shop''"
    "shortText ''env'' 256" "shortText ''main'' 256" by code_simp+
  ultimately show ?thesis
    by (simp add: ValidateSpec_def ValidateInvestigationSubject_def) (simp add: sample_spec_def)
qed

definition sample_open :: db where
  "sample_open = sample_db\<lparr>investigations := [reserved_row (sample_ambient 1 0) sample_spec]\<rparr>"

lemma sample_reservation:
  "ReserveInvestigation (sample_ambient 1 0) sample_spec ''alice'' sample_db
   = (Inr (reserved_row (sample_ambient 1 0) sample_spec, True),
      snd (ReserveInvestigation (sample_ambient 1 0) sample_spec ''alice'' sample_db))"
  by (simp add: ReserveInvestigation_def transact_def sample_spec_valid Let_def investigation_by_id_def index_conflict_def
      recordInvestigationVersion_def insertAuditEvent_def conflicts_def guardR_def bindR_def sample_db_def empty_db_def)

definition sample_unknown :: investigation_state where
  "sample_unknown = reserved_state\<lparr>iv_status := ''submission_unknown''\<rparr>"

lemma sample_unknown_accepted: "ValidateTransition (\<lambda>_. None) t sample_unknown reserved_state = None"
  by (simp add: sample_unknown_def accepts_facts reserved_state_def allowed_transition_def transitions_def
      within_limits_def no_task_evidence_def opt_less_def)

definition sample_moved :: "investigation_row store_result" where
  "sample_moved = UpdateInvestigation (\<lambda>_. None) (sample_ambient 2 hour) ''req-1'' 1 sample_unknown ''alice'' sample_open"

lemma sample_moved_ok: "is_ok (fst sample_moved)"
proof -
  have "investigation_by_id sample_open ''req-1'' = Some (reserved_row (sample_ambient 1 0) sample_spec)"
    by (simp add: investigation_by_id_def sample_open_def reserved_row_def sample_spec_def)
  then show ?thesis
    by (simp add: sample_moved_def UpdateInvestigation_def transact_def Let_def reserved_row_def sample_unknown_accepted
        index_conflict_def replace_state_def sample_open_def recordInvestigationVersion_def insertAuditEvent_def
        conflicts_def guardR_def bindR_def sample_db_def empty_db_def)
qed

theorem investigation_version_replaced_once_witness:
  "UpdateInvestigation (\<lambda>_. None) (sample_ambient 3 hour) ''req-1'' 1
     (reserved_state\<lparr>iv_status := ''abandoned'', iv_reason := ''stale''\<rparr>) ''bob'' (snd sample_moved)
   = (Inl ErrInvestigationConflict, snd sample_moved)"
  using investigation_version_replaced_once[OF ok_result[OF sample_moved_ok, unfolded sample_moved_def]]
  unfolding sample_moved_def by blast

end
