(* ===== verification/Manifest.thy ===== *)
theory Manifest
  imports Schema
begin

text \<open>
  \<open>internal/manifest/manifest.go\<close>: validation of a manifest, which collects every problem it finds,
  and the content hash of a package directory. The regular expressions are matchers over the same
  character classes; \<open>net.ParseIP\<close> is modelled with its IPv4 and IPv6 syntax. The cron parser and
  the time zone table come from the ambient inputs, \<open>cron_text\<close> is the text of a cron error, and
  the YAML decoder and SHA-256 are parameters.
\<close>

section \<open>Patterns\<close>

definition lower_alnum :: "char \<Rightarrow> bool" where
  "lower_alnum c = (is_lower c \<or> is_digit c)"

definition identifier_pattern :: "string \<Rightarrow> bool" where
  "identifier_pattern s = (case s of [] \<Rightarrow> False
     | c # cs \<Rightarrow> is_lower c \<and> length cs \<le> 62 \<and> list_all (\<lambda>x. lower_alnum x \<or> x = CHR ''-'') cs)"

definition environmentName :: "string \<Rightarrow> bool" where
  "environmentName s = (case s of [] \<Rightarrow> False
     | c # cs \<Rightarrow> (is_alpha c \<or> c = CHR ''_'') \<and> list_all (\<lambda>x. is_alnum x \<or> x = CHR ''_'') cs)"

text \<open>
  \<open>segments good seps after s\<close> matches what follows the first character of a pattern
  \<open>[good]*([seps][good]+)*\<close>; \<open>after\<close> says that a separator has just been read.
\<close>

fun segments :: "(char \<Rightarrow> bool) \<Rightarrow> string \<Rightarrow> bool \<Rightarrow> string \<Rightarrow> bool" where
  "segments good seps after [] = (\<not> after)"
| "segments good seps after (c # cs) =
     (if good c then segments good seps False cs
      else c \<in> set seps \<and> \<not> after \<and> segments good seps True cs)"

definition secretName :: "string \<Rightarrow> bool" where
  "secretName s = (case s of [] \<Rightarrow> False
     | c # cs \<Rightarrow> is_lower c \<and> segments lower_alnum ''._/-'' False cs)"

definition exactToolVersion :: "string \<Rightarrow> bool" where
  "exactToolVersion s =
     (case Cut s (CHR ''+'') of (version, build, found) \<Rightarrow>
        (case version of [] \<Rightarrow> False
         | c # cs \<Rightarrow> is_digit c \<and> segments is_alnum ''._-'' False cs)
        \<and> (found \<longrightarrow> build \<noteq> [] \<and> list_all (\<lambda>x. is_alnum x \<or> x = CHR ''.'' \<or> x = CHR ''-'') build))"

definition headerName :: "string \<Rightarrow> bool" where
  "headerName s = (s \<noteq> [] \<and>
     list_all (\<lambda>c. is_alnum c \<or> c \<in> set (''!#$%&*+.^_|~-'' @ [CHR 0x27, CHR 0x60])) s)"

definition maxEgressRules :: nat where
  "maxEgressRules = 32"

definition validSecretReference :: "string \<Rightarrow> bool" where
  "validSecretReference value = (length value \<le> 128 \<and> secretName value)"

section \<open>IP addresses\<close>

text \<open>
  \<open>netip.ParseAddr\<close> on the strings that reach it: dotted decimal with four octets and no leading
  zero, or colon-separated hexadecimal groups with at most one ellipsis and possibly a dotted
  tail; a zone is refused by \<open>net.ParseIP\<close>. The result is the list of octets, four or sixteen.
\<close>

definition octet :: "string \<Rightarrow> nat option" where
  "octet s = (if s \<noteq> [] \<and> list_all is_digit s \<and> (hd s \<noteq> CHR ''0'' \<or> length s = 1) \<and> parse_decimal s \<le> 255
     then Some (parse_decimal s) else None)"

fun all_some :: "'a option list \<Rightarrow> 'a list option" where
  "all_some [] = Some []"
| "all_some (x # xs) = (case (x, all_some xs) of (Some y, Some ys) \<Rightarrow> Some (y # ys) | _ \<Rightarrow> None)"

definition parseIPv4 :: "string \<Rightarrow> nat list option" where
  "parseIPv4 s = (let fs = Split s (CHR ''.'') in if length fs = 4 then all_some (map octet fs) else None)"

definition hex_group :: "string \<Rightarrow> nat list option" where
  "hex_group s = (if s \<noteq> [] \<and> length s \<le> 4 \<and> list_all (\<lambda>c. hex_value c \<noteq> None) s
     then (let v = foldl (\<lambda>a c. 16 * a + the (hex_value c)) 0 s in Some [v div 256, v mod 256]) else None)"

text \<open>Groups separated by single colons, the last of which may be a dotted address.\<close>

fun ipv6_groups :: "string list \<Rightarrow> nat list option" where
  "ipv6_groups [] = Some []"
| "ipv6_groups [g] = (if CHR ''.'' \<in> set g then parseIPv4 g else hex_group g)"
| "ipv6_groups (g # gs) = (case (hex_group g, ipv6_groups gs) of (Some a, Some b) \<Rightarrow> Some (a @ b) | _ \<Rightarrow> None)"

text \<open>The part before and the part after the first ellipsis \<open>::\<close>.\<close>

fun cut_ellipsis :: "string \<Rightarrow> (string \<times> string) option" where
  "cut_ellipsis (c # d # s) =
     (if c = CHR '':'' \<and> d = CHR '':'' then Some ([], s)
      else map_option (\<lambda>(a, b). (c # a, b)) (cut_ellipsis (d # s)))"
| "cut_ellipsis s = None"

definition groups_of :: "string \<Rightarrow> string list" where
  "groups_of s = (if s = [] then [] else Split s (CHR '':''))"

definition parseIPv6 :: "string \<Rightarrow> nat list option" where
  "parseIPv6 s =
     (case cut_ellipsis s of
        None \<Rightarrow> (case ipv6_groups (groups_of s) of
            Some bs \<Rightarrow> if length bs = 16 then Some bs else None | None \<Rightarrow> None)
      | Some (a, b) \<Rightarrow>
          if CHR ''.'' \<in> set a then None
          else (case (ipv6_groups (groups_of a), ipv6_groups (groups_of b)) of
            (Some x, Some y) \<Rightarrow> if length x + length y \<le> 14
               then Some (x @ replicate (16 - length x - length y) 0 @ y) else None
          | _ \<Rightarrow> None))"

definition ParseIP :: "string \<Rightarrow> nat list option" where
  "ParseIP s = (case find (\<lambda>c. c \<in> set ''.:%'') s of
     None \<Rightarrow> None
   | Some c \<Rightarrow> if c = CHR ''.'' then parseIPv4 s
       else if c = CHR '':'' then (if CHR ''%'' \<in> set s then None else parseIPv6 s)
       else None)"

text \<open>\<open>net.IP.To4\<close>: an IPv4 address, also one mapped into IPv6.\<close>

definition To4 :: "nat list \<Rightarrow> nat list option" where
  "To4 ip = (if length ip = 4 then Some ip
     else if length ip = 16 \<and> take 12 ip = replicate 10 0 @ [255, 255] then Some (drop 12 ip) else None)"

definition not_unicast :: "nat list \<Rightarrow> bool" where
  "not_unicast ip = (ip = [0, 0, 0, 0] \<or> hd ip div 16 = 14 \<or> ip = [255, 255, 255, 255])"

section \<open>Validation\<close>

abbreviation only_if :: "bool \<Rightarrow> string \<Rightarrow> string list" where
  "only_if b problem \<equiv> (if b then [problem] else [])"

definition hostname_label :: "string \<Rightarrow> bool" where
  "hostname_label w = (w \<noteq> [] \<and> length w \<le> 63 \<and> hd w \<noteq> CHR ''-'' \<and> last w \<noteq> CHR ''-''
     \<and> list_all (\<lambda>c. is_alpha c \<or> is_digit c \<or> c = CHR ''-'') w)"

definition validateEgressHost :: "string \<Rightarrow> string" where
  "validateEgressHost value =
     (let host = TrimSuffix value ''.'' in
      if host = [] then ''is required''
      else if value \<noteq> TrimSpace value \<or> length host > 253
        then ''must be a hostname or IPv4 address of at most 253 bytes''
      else if Contains host ''://'' \<or> ContainsAny host ''/*''
        then ''must be a hostname or IPv4 address without a scheme, path, or wildcard''
      else if \<not> list_all (\<lambda>c. 33 \<le> code c \<and> code c < 127) host
        then ''must contain only printable ASCII hostname characters''
      else (case ParseIP host of
        Some address \<Rightarrow>
          (case To4 address of
             None \<Rightarrow> ''must be IPv4; IPv6 egress is not supported''
           | Some ipv4 \<Rightarrow> if not_unicast ipv4 then ''must be a unicast IPv4 address'' else [])
      | None \<Rightarrow>
          if list_all hostname_label (Split host (CHR ''.'')) then [] else ''is not a valid DNS hostname''))"

definition unexpectedTriggerConfig :: "string \<Rightarrow> json_map \<Rightarrow> string list \<Rightarrow> string list" where
  "unexpectedTriggerConfig path config allowed =
     sort (map (\<lambda>k. path @ ''.config.'' @ k @ '' is not supported'')
       (filter (\<lambda>k. k \<notin> set allowed) (map fst config)))"

definition schedule_problems :: "ambient \<Rightarrow> (string \<Rightarrow> string) \<Rightarrow> string \<Rightarrow> json_map \<Rightarrow> string list" where
  "schedule_problems amb cron_text path config =
     unexpectedTriggerConfig path config [''cron'', ''timezone''] @
     (let expression = string_at config ''cron'' in
      if expression = [] then [path @ ''.config.cron is required'']
      else only_if (cron_parse amb expression = None) (path @ ''.config.cron is invalid: '' @ cron_text expression)) @
     (case map_of config ''timezone'' of
        None \<Rightarrow> []
      | Some (JString timezone) \<Rightarrow>
          only_if (timezone \<noteq> [] \<and> load_location amb timezone = None) (path @ ''.config.timezone is invalid'')
      | Some _ \<Rightarrow> [path @ ''.config.timezone must be a string''])"

definition webhook_problems :: "string \<Rightarrow> json_map \<Rightarrow> string list" where
  "webhook_problems path config =
     (let provider = string_at config ''provider''; native = (provider = [] \<or> provider = ''werkt'') in
      (case map_of config ''provider'' of
         None \<Rightarrow> [] | Some (JString _) \<Rightarrow> [] | Some _ \<Rightarrow> [path @ ''.config.provider must be a string'']) @
      only_if (provider \<noteq> [] \<and> provider \<noteq> ''werkt'' \<and> provider \<noteq> ''github'' \<and> provider \<noteq> ''zoom'')
        (path @ ''.config.provider must be werkt, github, or zoom'') @
      unexpectedTriggerConfig path config
        ([''secret'', ''provider'', ''deliveryDelay''] @ (if native then [''signatureHeader''] else [])) @
      only_if (\<not> validSecretReference (string_at config ''secret''))
        (path @ ''.config.secret must name a Werkt secret'') @
      (case map_of config ''signatureHeader'' of
         None \<Rightarrow> []
       | Some raw \<Rightarrow> only_if (native \<and> (case raw of JString h \<Rightarrow> h = [] \<or> \<not> headerName h | _ \<Rightarrow> True))
           (path @ ''.config.signatureHeader is invalid'')) @
      (case map_of config ''deliveryDelay'' of
         None \<Rightarrow> []
       | Some raw \<Rightarrow> only_if (case raw of
             JString delay \<Rightarrow> (case ParseDuration delay of None \<Rightarrow> True | Some d \<Rightarrow> d \<le> 0 \<or> d > 24 * hour)
           | _ \<Rightarrow> True)
           (path @ ''.config.deliveryDelay must be a positive duration of at most 24h'')))"

definition email_problems :: "string \<Rightarrow> json_map \<Rightarrow> string list" where
  "email_problems path config =
     unexpectedTriggerConfig path config [''tokenSecret''] @
     only_if (\<not> validSecretReference (string_at config ''tokenSecret''))
       (path @ ''.config.tokenSecret must name a Werkt secret'')"

definition ntfy_problems :: "string \<Rightarrow> json_map \<Rightarrow> string list" where
  "ntfy_problems path config =
     unexpectedTriggerConfig path config [''server'', ''topic'', ''tokenSecret''] @
     only_if (string_at config ''server'' = []) (path @ ''.config.server is required'') @
     only_if (string_at config ''topic'' = []) (path @ ''.config.topic is required'') @
     only_if (string_at config ''tokenSecret'' \<noteq> [] \<and> \<not> validSecretReference (string_at config ''tokenSecret''))
       (path @ ''.config.tokenSecret must name a Werkt secret'')"

definition trigger_type_problems :: "ambient \<Rightarrow> (string \<Rightarrow> string) \<Rightarrow> string \<Rightarrow> trigger \<Rightarrow> string list" where
  "trigger_type_problems amb cron_text path t =
     (if tg_type t = ''schedule'' then schedule_problems amb cron_text path (tg_config t)
      else if tg_type t = ''webhook'' then webhook_problems path (tg_config t)
      else if tg_type t = ''email'' then email_problems path (tg_config t)
      else if tg_type t = ''ntfy'' then ntfy_problems path (tg_config t)
      else [path @ ''.type must be schedule, webhook, email, or ntfy''])"

text \<open>A loop over indexed items with the identifiers seen so far.\<close>

fun indexed_problems :: "('a \<Rightarrow> string) \<Rightarrow> (string \<Rightarrow> 'a \<Rightarrow> string list) \<Rightarrow> string \<Rightarrow> nat \<Rightarrow> string list \<Rightarrow> 'a list
    \<Rightarrow> string list" where
  "indexed_problems ident check name index seen [] = []"
| "indexed_problems ident check name index seen (x # xs) =
     (let path = name @ ''['' @ decimal index @ '']'' in
      only_if (\<not> identifier_pattern (ident x)) (path @ ''.id is invalid'') @
      only_if (ident x \<in> set seen) (path @ ''.id must be unique'') @
      check path x @
      indexed_problems ident check name (Suc index) (ident x # seen) xs)"

definition check_problems :: "string \<Rightarrow> deployment_check \<Rightarrow> string list" where
  "check_problems path c =
     only_if (dc_command c = [] \<or> TrimSpace (hd (dc_command c)) = []) (path @ ''.command must contain an executable'') @
     only_if (dc_timeout c \<noteq> [] \<and> (case ParseDuration (dc_timeout c) of None \<Rightarrow> True | Some d \<Rightarrow> d \<le> 0))
       (path @ ''.timeout must be a positive duration'')"

definition egress_problems :: "nat \<times> egress_rule \<Rightarrow> string list" where
  "egress_problems item = (case item of (index, rule) \<Rightarrow>
     let path = ''runtime.egress['' @ decimal index @ '']''; problem = validateEgressHost (er_host rule) in
     only_if (problem \<noteq> []) (path @ ''.host '' @ problem) @
     only_if (er_port rule = 0) (path @ ''.port must be between 1 and 65535'') @
     only_if (er_protocol rule \<noteq> [] \<and> er_protocol rule \<noteq> ''tcp'' \<and> er_protocol rule \<noteq> ''udp'')
       (path @ ''.protocol must be tcp or udp''))"

definition tool_problems :: "string \<times> string \<Rightarrow> string list" where
  "tool_problems item = (case item of (name, version) \<Rightarrow>
     only_if (\<not> identifier_pattern name) (''runtime.tools contains invalid tool name '' @ name) @
     only_if (\<not> exactToolVersion version \<or> EqualFold version ''latest'' \<or> EqualFold version ''system'')
       (''runtime.tools.'' @ name @ '' must be an exact version''))"

definition environment_problems :: "bool \<Rightarrow> string \<Rightarrow> string list" where
  "environment_problems has_tools key =
     only_if (\<not> environmentName key) (''runtime.environment contains invalid variable name '' @ key) @
     only_if (HasPrefix key ''WERKT_'') ''runtime.environment cannot override reserved WERKT_ variables'' @
     only_if (has_tools \<and> (key = ''PATH'' \<or> key = ''HOME'' \<or> HasPrefix key ''MISE_''))
       (''runtime.environment cannot override tool environment variable '' @ key)"

definition secret_problems :: "(string \<times> string) list \<Rightarrow> string \<times> string \<Rightarrow> string list" where
  "secret_problems environment item = (case item of (target, source) \<Rightarrow>
     only_if (\<not> environmentName target) (''runtime.secrets contains invalid target variable name '' @ target) @
     only_if (HasPrefix target ''WERKT_'') ''runtime.secrets cannot override reserved WERKT_ variables'' @
     only_if (\<not> validSecretReference source) (''runtime.secrets source for '' @ target @ '' must name a Werkt secret'') @
     only_if (target \<in> fst ` set environment) (''runtime.secrets target '' @ target @ '' duplicates runtime.environment''))"

definition runtime_problems :: "runtime \<Rightarrow> string list" where
  "runtime_problems r =
     only_if (rn_language r = []) ''runtime.language is required'' @
     only_if (rn_command r = [] \<or> TrimSpace (hd (rn_command r)) = []) ''runtime.command must contain an executable'' @
     only_if (rn_build r \<noteq> [] \<and> TrimSpace (hd (rn_build r)) = []) ''runtime.build must start with an executable'' @
     only_if (rn_tools r \<noteq> [] \<and> (rn_image r \<noteq> [] \<or> rn_build_image r \<noteq> []))
       ''runtime.tools cannot be combined with runtime.image or runtime.buildImage'' @
     concat (map tool_problems (rn_tools r)) @
     only_if (length (rn_egress r) > maxEgressRules) (''runtime.egress accepts at most 32 rules'') @
     concat (map egress_problems (enumerate 0 (rn_egress r)))"

definition execution_problems :: "execution \<Rightarrow> string list" where
  "execution_problems e =
     only_if (ex_timeout e \<noteq> [] \<and> (case ParseDuration (ex_timeout e) of None \<Rightarrow> True | Some d \<Rightarrow> d \<le> 0))
       ''execution.timeout must be a positive duration'' @
     only_if (ex_retries e < 0) ''execution.retries cannot be negative'' @
     only_if (ex_concurrency e \<noteq> [] \<and> ex_concurrency e \<noteq> ''allow'' \<and> ex_concurrency e \<noteq> ''forbid'')
       ''execution.concurrency must be allow or forbid'' @
     only_if (ex_state_enabled e \<and> ex_concurrency e \<noteq> ''forbid'')
       ''execution.state.enabled requires execution.concurrency: forbid''"

definition manifest_problems :: "ambient \<Rightarrow> (string \<Rightarrow> string) \<Rightarrow> manifest \<Rightarrow> string list" where
  "manifest_problems amb cron_text m =
     only_if (mf_api_version m \<noteq> ''werkt.dev/v1'') ''apiVersion must be werkt.dev/v1'' @
     only_if (mf_kind m \<noteq> ''Automation'') ''kind must be Automation'' @
     only_if (\<not> identifier_pattern (md_name (mf_metadata m)))
       ''metadata.name must start with a letter and contain only lowercase letters, digits, or hyphens'' @
     only_if (md_project (mf_metadata m) = []) ''metadata.project is required'' @
     only_if (mf_triggers m = []) ''at least one trigger is required'' @
     indexed_problems tg_id (trigger_type_problems amb cron_text) ''triggers'' 0 [] (mf_triggers m) @
     runtime_problems (mf_runtime m) @
     indexed_problems dc_id check_problems ''deployment.checks'' 0 [] (mf_checks m) @
     concat (map (environment_problems (rn_tools (mf_runtime m) \<noteq> [])) (map fst (rn_environment (mf_runtime m)))) @
     concat (map (secret_problems (rn_environment (mf_runtime m))) (rn_secrets (mf_runtime m))) @
     execution_problems (mf_execution m)"

definition Validate :: "ambient \<Rightarrow> (string \<Rightarrow> string) \<Rightarrow> manifest \<Rightarrow> string + unit" where
  "Validate amb cron_text m =
     (let problems = manifest_problems amb cron_text m in
      guardR (problems \<noteq> []) (Join problems ''; '') (Inr ()))"

text \<open>\<open>Load\<close>: \<open>decode\<close> opens \<open>automation.yaml\<close> in the directory and decodes it with known fields only.\<close>

definition Load :: "(string \<Rightarrow> string + manifest) \<Rightarrow> ambient \<Rightarrow> (string \<Rightarrow> string) \<Rightarrow> string \<Rightarrow> string + manifest" where
  "Load decode amb cron_text directory =
     bindR (decode (JoinPath directory ''automation.yaml'')) (\<lambda>m.
     bindR (Validate amb cron_text m) (\<lambda>_. Inr m))"

section \<open>The content hash\<close>

text \<open>A directory tree; a file that cannot be read has no content.\<close>

datatype file_tree = FileNode "string option" | DirNode "(string \<times> file_tree) list"

definition ignoredDirectory :: "string \<Rightarrow> bool" where
  "ignoredDirectory name =
     (name \<in> set [''.git'', ''target'', ''__pycache__'', ''.pytest_cache'', ''.venv'', ''node_modules''])"

text \<open>The files \<open>WalkDir\<close> visits, by their path relative to the root.\<close>

fun walk_files :: "string \<Rightarrow> file_tree \<Rightarrow> (string \<times> string option) list" where
  "walk_files path (FileNode content) = [(path, content)]"
| "walk_files path (DirNode entries) =
     concat (map (\<lambda>(name, node).
       let child = (if path = [] then name else path @ ''/'' @ name) in
       case node of
         DirNode _ \<Rightarrow> if ignoredDirectory name then [] else walk_files child node
       | FileNode _ \<Rightarrow> walk_files child node) entries)"

definition hash_chunk :: "string \<times> string \<Rightarrow> string" where
  "hash_chunk item = fst item @ [CHR 0x00] @ snd item @ [CHR 0x00]"

definition hash_input :: "(string \<times> string) list \<Rightarrow> string" where
  "hash_input fs = concat (map hash_chunk fs)"

definition HashDirectory :: "(string \<Rightarrow> string) \<Rightarrow> file_tree \<Rightarrow> string option" where
  "HashDirectory sha256 tree =
     map_option (\<lambda>fs. hex_encode (sha256 (hash_input fs)))
       (all_some (map (\<lambda>(path, content). map_option (Pair path) content) (sort_key fst (walk_files [] tree))))"

end
