(* ===== verification/ManifestProofs.thy ===== *)
theory ManifestProofs
  imports Manifest DeploymentProofs Samples
begin

text \<open>
  What a validated manifest guarantees to the rest of the program: its identifiers and secrets are
  well formed, its timeouts positive, its triggers can be scheduled and published; and what the
  content hash of a package does and does not determine.
\<close>

section \<open>The shape of a validated manifest\<close>

lemma Validate_iff: "Validate amb ct m = Inr u \<longleftrightarrow> manifest_problems amb ct m = []"
  by (simp add: Validate_def Let_def guardR_eq_Inr)

lemma indexed_problems_none:
  "indexed_problems ident check name k seen xs = [] \<longleftrightarrow>
    distinct (map ident xs) \<and> set seen \<inter> ident ` set xs = {} \<and> (\<forall>x \<in> set xs. identifier_pattern (ident x))
    \<and> (\<forall>i < length xs. check (name @ ''['' @ decimal (k + i) @ '']'') (xs ! i) = [])"
proof (induction xs arbitrary: k seen)
  case (Cons x xs)
  have "(\<forall>i < length (x # xs). check (name @ ''['' @ decimal (k + i) @ '']'') ((x # xs) ! i) = []) \<longleftrightarrow>
    check (name @ ''['' @ decimal k @ '']'') x = []
    \<and> (\<forall>i < length xs. check (name @ ''['' @ decimal (Suc k + i) @ '']'') (xs ! i) = [])"
    by (auto simp: All_less_Suc2)
  with Cons show ?case by (auto simp: Let_def)
qed simp

lemma indexed_problems_check:
  assumes "indexed_problems ident check name k seen xs = []" and "x \<in> set xs"
  shows "\<exists>path. check path x = []"
  using assms unfolding indexed_problems_none in_set_conv_nth by metis

lemma sort_eq_Nil [simp]: "sort_key f xs = [] \<longleftrightarrow> xs = []"
  by (metis length_0_conv length_sort)

lemma egress_enumerated: "x \<in> set xs \<Longrightarrow> \<exists>i. (i, x) \<in> set (enumerate n xs)"
  by (metis map_snd_enumerate in_set_conv_nth set_map imageE prod.collapse)

lemma validated_trigger:
  assumes "Validate amb ct m = Inr ()" "t \<in> set (mf_triggers m)"
  shows "\<exists>path. trigger_type_problems amb ct path t = []"
  using assms(1) unfolding Validate_iff manifest_problems_def
  by (auto intro: indexed_problems_check[OF _ assms(2)])

lemma validated_schedule:
  assumes "Validate amb ct m = Inr ()" "t \<in> set (mf_triggers m)" "tg_type t = ''schedule''"
  shows "\<exists>f. cron_parse amb (string_at (tg_config t) ''cron'') = Some f"
    "string_at (tg_config t) ''timezone'' = [] \<or> (\<exists>l. load_location amb (string_at (tg_config t) ''timezone'') = Some l)"
proof -
  from validated_trigger[OF assms(1,2)] assms(3) obtain path where
    "schedule_problems amb ct path (tg_config t) = []" by (auto simp: trigger_type_problems_def)
  then show "\<exists>f. cron_parse amb (string_at (tg_config t) ''cron'') = Some f"
    "string_at (tg_config t) ''timezone'' = [] \<or> (\<exists>l. load_location amb (string_at (tg_config t) ''timezone'') = Some l)"
    by (auto simp: schedule_problems_def Let_def string_at_def split: if_splits option.splits json.splits)
qed

lemma only_if_Nil: "only_if b p = [] \<longleftrightarrow> \<not> b"
  by simp

lemma trigger_secret_valid:
  "webhook_problems path c = [] \<Longrightarrow> validSecretReference (string_at c ''secret'')"
  "email_problems path c = [] \<Longrightarrow> validSecretReference (string_at c ''tokenSecret'')"
  "ntfy_problems path c = [] \<Longrightarrow> string_at c ''tokenSecret'' = [] \<or> validSecretReference (string_at c ''tokenSecret'')"
  unfolding webhook_problems_def email_problems_def ntfy_problems_def Let_def append_is_Nil_conv only_if_Nil by blast+

lemma validated_secret_name:
  assumes "Validate amb ct m = Inr ()" "r \<in> set (SecretReferences m)"
  shows "validSecretReference (sr_name r)"
proof -
  from assms(2) consider (runtime) target where "(target, sr_name r) \<in> set (rn_secrets (mf_runtime m))"
    | (trigger) t where "t \<in> set (mf_triggers m)" "trigger_secret_name t \<noteq> []" "sr_name r = trigger_secret_name t"
    by (auto simp: SecretReferences_def split: if_splits)
  then show ?thesis
  proof cases
    case runtime
    then have "secret_problems (rn_environment (mf_runtime m)) (target, sr_name r) = []"
      using assms(1) unfolding Validate_iff manifest_problems_def by auto
    then show ?thesis by (simp add: secret_problems_def split: if_splits)
  next
    case (trigger t)
    from validated_trigger[OF assms(1) trigger(1)] obtain path where "trigger_type_problems amb ct path t = []" ..
    with trigger(2,3) trigger_secret_valid[of path "tg_config t"] show ?thesis
      by (simp add: trigger_type_problems_def trigger_secret_name_def split: if_splits)
  qed
qed

lemma validated_timeouts:
  assumes "Validate amb ct m = Inr ()"
  shows "0 < TimeoutDuration (mf_execution m)" "\<forall>c \<in> set (mf_checks m). 0 < check_TimeoutDuration c"
proof -
  show "0 < TimeoutDuration (mf_execution m)"
    using assms unfolding Validate_iff manifest_problems_def execution_problems_def TimeoutDuration_def
    by (auto simp: minute_def second_def split: option.splits if_splits)
  show "\<forall>c \<in> set (mf_checks m). 0 < check_TimeoutDuration c"
  proof
    fix c assume "c \<in> set (mf_checks m)"
    with assms obtain path where "check_problems path c = []"
      unfolding Validate_iff manifest_problems_def by (auto dest: indexed_problems_check)
    then show "0 < check_TimeoutDuration c"
      by (auto simp: check_problems_def check_TimeoutDuration_def minute_def second_def split: option.splits if_splits)
  qed
qed

section \<open>Publishing the triggers\<close>

lemma insert_trigger_succeeds:
  assumes "tg_type t = ''schedule'' \<longrightarrow> is_ok (nextSchedule amb (tg_config t) (go_now amb))"
    and "(a, tg_id t) \<notin> (\<lambda>x. (tr_automation_id x, tr_id x)) ` set (triggers d)"
    and "a \<in> au_id ` set (automations d)" "i \<in> rv_id ` set (revisions d)"
  obtains nf where "insert_trigger amb a i t d = Inr (d\<lparr>triggers := triggers d @ [trigger_row_of amb a i t nf]\<rparr>)"
proof -
  obtain nf where nf: "(if tg_type t = ''schedule'' \<and> IsEnabled t
      then bindR (nextSchedule amb (tg_config t) (go_now amb)) (\<lambda>n. Inr (Some n)) else Inr None) = Inr nf"
    using assms(1) by (cases "nextSchedule amb (tg_config t) (go_now amb)"; cases "tg_type t = ''schedule'' \<and> IsEnabled t") auto
  have "\<not> (conflicts (\<lambda>x. (tr_automation_id x, tr_id x)) (trigger_row_of amb a i t nf) (triggers d)
      \<or> list_all (\<lambda>x. au_id x \<noteq> a) (automations d) \<or> list_all (\<lambda>v. rv_id v \<noteq> i) (revisions d))"
    using assms(2-4) by (auto simp: conflicts_def trigger_row_of_def list_all_iff image_iff)
  then have "insert_trigger amb a i t d = Inr (d\<lparr>triggers := triggers d @ [trigger_row_of amb a i t nf]\<rparr>)"
    unfolding insert_trigger_def nf by (simp add: Let_def)
  then show thesis by (rule that)
qed

lemma insert_triggers_succeed:
  assumes "\<forall>t \<in> set ts. tg_type t = ''schedule'' \<longrightarrow> is_ok (nextSchedule amb (tg_config t) (go_now amb))"
    and "distinct (map tg_id ts)"
    and "\<forall>t \<in> set ts. (a, tg_id t) \<notin> (\<lambda>x. (tr_automation_id x, tr_id x)) ` set (triggers d)"
    and "a \<in> au_id ` set (automations d)" "i \<in> rv_id ` set (revisions d)"
  shows "\<exists>d'. foldR (insert_trigger amb a i) ts d = Inr d'"
  using assms
proof (induction ts arbitrary: d)
  case (Cons t ts)
  obtain nf where nf: "insert_trigger amb a i t d = Inr (d\<lparr>triggers := triggers d @ [trigger_row_of amb a i t nf]\<rparr>)"
    by (rule insert_trigger_succeeds[of t amb a d i]) (use Cons.prems in auto)
  have "\<exists>d'. foldR (insert_trigger amb a i) ts (d\<lparr>triggers := triggers d @ [trigger_row_of amb a i t nf]\<rparr>) = Inr d'"
  proof (rule Cons.IH)
    have "tg_id u \<noteq> tg_id t" if "u \<in> set ts" for u using that Cons.prems(2) by (metis distinct.simps(2) image_eqI list.simps(9) set_map)
    with Cons.prems(3) show "\<forall>u \<in> set ts. (a, tg_id u) \<notin> (\<lambda>x. (tr_automation_id x, tr_id x)) `
        set (triggers (d\<lparr>triggers := triggers d @ [trigger_row_of amb a i t nf]\<rparr>))"
      by (simp add: trigger_row_of_def)
  qed (use Cons.prems in simp_all)
  with nf show ?case by simp
qed simp

section \<open>Dotted addresses\<close>

lemma decimal_facts:
  "decimal n \<noteq> []" "list_all is_digit (decimal n)" "hd (decimal n) = CHR ''0'' \<longleftrightarrow> n = 0"
proof -
  have zero: "digit_char 0 = CHR ''0''" by code_simp
  have digit: "is_digit (digit_char k)" if "k < 10" for k
    using that by (simp add: digit_char_def is_digit_def code_def)
  have digit0: "digit_char k = CHR ''0'' \<longleftrightarrow> k = 0" if "k < 10" for k
  proof
    assume "digit_char k = CHR ''0''"
    then have "digit_value (digit_char k) = digit_value (digit_char 0)" unfolding zero by simp
    with that show "k = 0" by simp
  qed (simp add: zero)
  show "decimal n \<noteq> []" by (subst decimal.simps) simp
  show "list_all is_digit (decimal n)"
    by (induction n rule: decimal.induct) (subst decimal.simps, auto simp: digit)
  show "hd (decimal n) = CHR ''0'' \<longleftrightarrow> n = 0"
  proof (induction n rule: decimal.induct)
    case (1 n)
    show ?case
    proof (cases "n < 10")
      case True
      then show ?thesis by (subst decimal.simps) (simp add: digit0)
    next
      case False
      have "decimal (n div 10) \<noteq> []" by (subst decimal.simps) simp
      with False 1 show ?thesis by (subst decimal.simps) (auto simp: hd_append)
    qed
  qed
qed

definition dotted :: "nat list \<Rightarrow> string" where
  "dotted ip = Join (map decimal ip) ''.''"

lemma octet_decimal: "n \<le> 255 \<Longrightarrow> octet (decimal n) = Some n"
proof -
  assume "n \<le> 255"
  moreover have "length (decimal 0) = 1" by (simp add: decimal.simps)
  ultimately show ?thesis using decimal_facts[of n] by (auto simp: octet_def parse_decimal_decimal)
qed

lemma all_some_map: "(\<And>x. x \<in> set xs \<Longrightarrow> f x = Some (g x)) \<Longrightarrow> all_some (map f xs) = Some (map g xs)"
  by (induction xs) auto

lemma decimal_no_dot: "CHR ''.'' \<notin> set (decimal n)"
proof
  assume "CHR ''.'' \<in> set (decimal n)"
  with decimal_facts(2)[of n] have "is_digit (CHR ''.'')" by (auto simp: list_all_iff)
  then show False by (simp add: is_digit_def code_def)
qed

lemma Split_dotted: "ip \<noteq> [] \<Longrightarrow> Split (dotted ip) (CHR ''.'') = map decimal ip"
  unfolding dotted_def using decimal_no_dot by (intro Split_Join) auto

lemma set_dotted: "c \<in> set (dotted ip) \<Longrightarrow> is_digit c \<or> c = CHR ''.''"
proof (induction "map decimal ip" "''.''" arbitrary: ip rule: Join.induct)
  case (2 w)
  then show ?case using decimal_facts(2) by (cases ip) (auto simp: dotted_def list_all_iff)
next
  case (3 w v ws)
  then obtain n m ms where ip: "ip = n # m # ms" "w = decimal n" "v # ws = map decimal (m # ms)" by (auto simp: map_eq_Cons_conv)
  with 3(3) have "c \<in> set (decimal n) \<or> c = CHR ''.'' \<or> c \<in> set (dotted (m # ms))" by (auto simp: dotted_def)
  then show ?case using decimal_facts(2)[of n] 3(1)[of "m # ms"] ip(3) by (auto simp: list_all_iff)
qed (simp add: dotted_def)

lemma parse_dotted:
  assumes "length ip = 4" "\<forall>n \<in> set ip. n \<le> 255"
  shows "ParseIP (dotted ip) = Some ip"
proof -
  have ne: "ip \<noteq> []" using assms(1) by auto
  have "all_some (map octet (map decimal ip)) = Some ip"
    using all_some_map[of "ip" "octet \<circ> decimal" id] octet_decimal assms(2) by simp
  then have v4: "parseIPv4 (dotted ip) = Some ip" by (simp add: parseIPv4_def Split_dotted[OF ne] assms(1))
  have "CHR ''.'' \<in> set (dotted ip)"
  proof (rule ccontr)
    assume "CHR ''.'' \<notin> set (dotted ip)"
    then have "Split (dotted ip) (CHR ''.'') = [dotted ip]" by (rule Split_plain)
    with Split_dotted[OF ne] assms(1) show False by (metis length_map length_Cons list.size(3) numeral_eq_one_iff One_nat_def semiring_norm(83))
  qed
  moreover have "\<not> is_digit c" if "c \<in> set '':%''" for c using that by (auto simp: is_digit_def code_def)
  then have "c = CHR ''.''" if "c \<in> set (dotted ip)" "c \<in> set ''.:%''" for c
    using set_dotted[OF that(1)] that(2) by (auto simp: is_digit_def code_def)
  ultimately have "find (\<lambda>c. c \<in> set ''.:%'') (dotted ip) = Some (CHR ''.'')"
    by (cases "find (\<lambda>c. c \<in> set ''.:%'') (dotted ip)") (auto simp: find_eq_None dest: find_eq_SomeD)
  with v4 show ?thesis by (simp add: ParseIP_def)
qed

lemma space_bytes:
  "p \<in> set space_encodings \<Longrightarrow> \<not> is_digit (hd p) \<and> \<not> is_digit (last p)"
  unfolding space_encodings_def by (auto simp: is_digit_def code_def)

lemma HasSuffix_last: "HasSuffix s p \<Longrightarrow> p \<noteq> [] \<Longrightarrow> last p = last s"
  unfolding HasSuffix_def by (metis last_drop drop_eq_Nil not_le)

lemma TrimSpace_digits:
  assumes "s \<noteq> []" "is_digit (hd s)" "is_digit (last s)"
  shows "TrimSpace s = s"
proof -
  have left: "\<not> HasPrefix s p" and right: "\<not> HasSuffix s p" if p: "p \<in> set space_encodings" for p
  proof -
    have ne: "p \<noteq> []" using space_encodings_nonempty[OF p] by auto
    show "\<not> HasPrefix s p"
    proof
      assume "HasPrefix s p"
      then have "hd p = hd s" using ne by (auto simp: HasPrefix_def) (metis hd_take length_greater_0_conv)
      with space_bytes[OF p] assms(2) show False by simp
    qed
    show "\<not> HasSuffix s p"
    proof
      assume "HasSuffix s p"
      then have "last p = last s" using ne by (rule HasSuffix_last)
      with space_bytes[OF p] assms(3) show False by simp
    qed
  qed
  have "find (\<lambda>p. HasPrefix s p) space_encodings = None" "find (\<lambda>p. HasSuffix s p) space_encodings = None"
    unfolding find_eq_None using left right by blast+
  then show ?thesis by (simp add: TrimSpace_def TrimLeftSpace.simps TrimRightSpace.simps)
qed

lemma Contains_set: "Contains s p \<Longrightarrow> set p \<subseteq> set s"
proof (induction s p rule: Contains.induct)
  case (2 c s p)
  then show ?case unfolding Contains.simps HasPrefix_def by (metis set_take_subset set_subset_Cons subset_trans)
qed simp

lemma length_decimal: "n < 1000 \<Longrightarrow> length (decimal n) \<le> 3"
  by (subst decimal.simps, subst decimal.simps, subst decimal.simps) auto

lemma dotted_ends:
  assumes "ip \<noteq> []"
  shows "dotted ip \<noteq> []" "is_digit (hd (dotted ip))" "is_digit (last (dotted ip))"
    "\<forall>n \<in> set ip. n \<le> 255 \<Longrightarrow> length (dotted ip) < 4 * length ip"
proof -
  have d: "is_digit (hd (decimal n))" "is_digit (last (decimal n))" "decimal n \<noteq> []" for n
    using decimal_facts(1,2)[of n] by (auto simp: list_all_iff)
  have "dotted ip \<noteq> [] \<and> is_digit (hd (dotted ip)) \<and> is_digit (last (dotted ip))
    \<and> ((\<forall>n \<in> set ip. n \<le> 255) \<longrightarrow> length (dotted ip) < 4 * length ip)"
    using assms
  proof (induction ip)
    case (Cons n ns)
    have len: "n \<le> 255 \<Longrightarrow> length (decimal n) \<le> 3" using length_decimal[of n] by simp
    show ?case
    proof (cases ns)
      case Nil
      then show ?thesis using d[of n] len by (auto simp: dotted_def)
    next
      case (Cons m ms)
      then have "dotted (n # ns) = decimal n @ ''.'' @ dotted ns" by (simp add: dotted_def)
      with Cons.IH Cons d[of n] len show ?thesis by auto
    qed
  qed simp
  then show "dotted ip \<noteq> []" "is_digit (hd (dotted ip))" "is_digit (last (dotted ip))"
    "\<forall>n \<in> set ip. n \<le> 255 \<Longrightarrow> length (dotted ip) < 4 * length ip" by auto
qed

section \<open>The hashed bytes\<close>

definition nul_free :: "string \<times> string \<Rightarrow> bool" where
  "nul_free item = (CHR 0x00 \<notin> set (fst item) \<and> CHR 0x00 \<notin> set (snd item))"

lemma nul_split:
  assumes "a @ [z] @ x = b @ [z] @ y" "z \<notin> set a" "z \<notin> set b"
  shows "a = b \<and> x = y"
  using assms by (induction a arbitrary: b) (case_tac b; auto)+

section \<open>Properties\<close>

lemma validated_runtime:
  assumes "Validate amb cron_text m = Inr ()"
  shows "\<forall>e \<in> set (rn_egress (mf_runtime m)). er_port e \<noteq> 0"
    and "fst ` set (rn_secrets (mf_runtime m)) \<inter> fst ` set (rn_environment (mf_runtime m)) = {}"
    and "\<forall>k \<in> fst ` set (rn_secrets (mf_runtime m)) \<union> fst ` set (rn_environment (mf_runtime m)). \<not> HasPrefix k ''WERKT_''"
proof -
  note parts = assms[unfolded Validate_iff manifest_problems_def append_is_Nil_conv only_if_Nil not_not]
  have environment: "\<forall>k \<in> fst ` set (rn_environment (mf_runtime m)). environment_problems (rn_tools (mf_runtime m) \<noteq> []) k = []"
    and hidden: "\<forall>x \<in> set (rn_secrets (mf_runtime m)). secret_problems (rn_environment (mf_runtime m)) x = []"
    and run: "runtime_problems (mf_runtime m) = []" using parts by auto
  have egress: "er_port e \<noteq> 0" if "e \<in> set (rn_egress (mf_runtime m))" for e
  proof -
    from egress_enumerated[OF that] obtain i where "(i, e) \<in> set (enumerate 0 (rn_egress (mf_runtime m)))" ..
    with run have "egress_problems (i, e) = []" unfolding runtime_problems_def by auto
    then show ?thesis by (simp add: egress_problems_def Let_def split: if_splits)
  qed
  have environment_name: "\<not> HasPrefix k ''WERKT_''" if "k \<in> fst ` set (rn_environment (mf_runtime m))" for k
    using environment that unfolding environment_problems_def append_is_Nil_conv only_if_Nil by blast
  have secret_target: "\<not> HasPrefix k ''WERKT_'' \<and> k \<notin> fst ` set (rn_environment (mf_runtime m))"
    if "k \<in> fst ` set (rn_secrets (mf_runtime m))" for k
  proof -
    from that obtain source where "(k, source) \<in> set (rn_secrets (mf_runtime m))" by auto
    with hidden have "secret_problems (rn_environment (mf_runtime m)) (k, source) = []" by blast
    then show ?thesis unfolding secret_problems_def prod.case append_is_Nil_conv only_if_Nil by blast
  qed
  show "\<forall>e \<in> set (rn_egress (mf_runtime m)). er_port e \<noteq> 0" using egress by blast
  show "fst ` set (rn_secrets (mf_runtime m)) \<inter> fst ` set (rn_environment (mf_runtime m)) = {}" using secret_target by blast
  show "\<forall>k \<in> fst ` set (rn_secrets (mf_runtime m)) \<union> fst ` set (rn_environment (mf_runtime m)). \<not> HasPrefix k ''WERKT_''"
    using secret_target environment_name by blast
qed

text \<open>
  C36: A validated manifest is well formed. Its name and every trigger and check identifier match
  the identifier pattern, trigger identifiers are unique and so are check identifiers, every secret
  it refers to anywhere has a valid name, no secret variable is also an environment variable or a
  reserved one, a stateful automation forbids concurrent runs, the retry count is not negative, all
  timeouts are positive, and there are at most 32 egress rules, each with a port.
\<close>

theorem validated_manifest_well_formed:
  assumes "Validate amb cron_text m = Inr ()"
  shows "identifier_pattern (md_name (mf_metadata m)) \<and> mf_triggers m \<noteq> []
    \<and> distinct (map tg_id (mf_triggers m)) \<and> distinct (map dc_id (mf_checks m))
    \<and> (\<forall>t \<in> set (mf_triggers m). identifier_pattern (tg_id t) \<and> tg_type t \<in> {''schedule'', ''webhook'', ''email'', ''ntfy''})
    \<and> (\<forall>c \<in> set (mf_checks m). identifier_pattern (dc_id c))
    \<and> (\<forall>r \<in> set (SecretReferences m). validSecretReference (sr_name r))
    \<and> fst ` set (rn_secrets (mf_runtime m)) \<inter> fst ` set (rn_environment (mf_runtime m)) = {}
    \<and> (\<forall>k \<in> fst ` set (rn_secrets (mf_runtime m)) \<union> fst ` set (rn_environment (mf_runtime m)). \<not> HasPrefix k ''WERKT_'')
    \<and> (ex_state_enabled (mf_execution m) \<longrightarrow> ex_concurrency (mf_execution m) = ''forbid'')
    \<and> 0 \<le> ex_retries (mf_execution m) \<and> 0 < TimeoutDuration (mf_execution m)
    \<and> (\<forall>c \<in> set (mf_checks m). 0 < check_TimeoutDuration c)
    \<and> length (rn_egress (mf_runtime m)) \<le> 32 \<and> (\<forall>e \<in> set (rn_egress (mf_runtime m)). er_port e \<noteq> 0)"
proof -
  note parts = assms[unfolded Validate_iff manifest_problems_def append_is_Nil_conv only_if_Nil not_not]
  have triggers: "indexed_problems tg_id (trigger_type_problems amb cron_text) ''triggers'' 0 [] (mf_triggers m) = []"
    and checks: "indexed_problems dc_id check_problems ''deployment.checks'' 0 [] (mf_checks m) = []"
    and head: "identifier_pattern (md_name (mf_metadata m))" "mf_triggers m \<noteq> []"
    and exec: "execution_problems (mf_execution m) = []"
    and run: "runtime_problems (mf_runtime m) = []" using parts by auto
  have types: "tg_type t \<in> {''schedule'', ''webhook'', ''email'', ''ntfy''}" if "t \<in> set (mf_triggers m)" for t
    using validated_trigger[OF assms that] by (auto simp: trigger_type_problems_def split: if_splits)
  show ?thesis
  proof (intro conjI)
    show "distinct (map tg_id (mf_triggers m))" "distinct (map dc_id (mf_checks m))"
      using triggers checks unfolding indexed_problems_none by blast+
    show "\<forall>t \<in> set (mf_triggers m). identifier_pattern (tg_id t) \<and> tg_type t \<in> {''schedule'', ''webhook'', ''email'', ''ntfy''}"
      using triggers types unfolding indexed_problems_none by blast
    show "\<forall>c \<in> set (mf_checks m). identifier_pattern (dc_id c)"
      using checks unfolding indexed_problems_none by blast
    show "\<forall>r \<in> set (SecretReferences m). validSecretReference (sr_name r)" using validated_secret_name[OF assms] by blast
    show "ex_state_enabled (mf_execution m) \<longrightarrow> ex_concurrency (mf_execution m) = ''forbid''" "0 \<le> ex_retries (mf_execution m)"
      using exec unfolding execution_problems_def append_is_Nil_conv only_if_Nil by auto
    show "length (rn_egress (mf_runtime m)) \<le> 32"
      using run unfolding runtime_problems_def append_is_Nil_conv only_if_Nil by (auto simp: maxEgressRules_def)
  qed (use head validated_runtime[OF assms] validated_timeouts[OF assms] in blast)+
qed

text \<open>
  The triggers of a validated manifest can always be published. Whatever triggers the automation
  had before, replacing them by those of a validated manifest succeeds as soon as the automation
  and the revision exist, for every clock, if the schedules are parsed the way they were validated.
\<close>

lemma validated_triggers_publishable:
  assumes "Validate amb cron_text m = Inr ()"
    and "cron_parse amb' = cron_parse amb" and "load_location amb' = load_location amb"
    and "a \<in> au_id ` set (automations d)" and "i \<in> rv_id ` set (revisions d)"
  shows "\<exists>d'. replaceTriggers amb' a i (mf_triggers m) d = Inr d'"
  unfolding replaceTriggers_def
proof (rule insert_triggers_succeed)
  show "\<forall>t \<in> set (mf_triggers m). tg_type t = ''schedule'' \<longrightarrow> is_ok (nextSchedule amb' (tg_config t) (go_now amb'))"
  proof (intro ballI impI)
    fix t assume t: "t \<in> set (mf_triggers m)" "tg_type t = ''schedule''"
    from validated_schedule[OF assms(1) t] show "is_ok (nextSchedule amb' (tg_config t) (go_now amb'))"
      by (auto simp: nextSchedule_def Let_def assms(2,3))
  qed
  show "distinct (map tg_id (mf_triggers m))"
    using assms(1) unfolding Validate_iff manifest_problems_def append_is_Nil_conv indexed_problems_none by blast
qed (use assms(4,5) in \<open>auto simp: set_delete_where\<close>)

text \<open>
  Dotted addresses are recognised exactly. The decimal notation of four octets parses back to
  those octets, and it is accepted as an egress host if and only if the address is a unicast one:
  not unspecified, not multicast and not the broadcast address.
\<close>

lemma egress_address_exact:
  assumes "length ip = 4" and "\<forall>n \<in> set ip. n \<le> 255"
  shows "ParseIP (dotted ip) = Some ip \<and> (validateEgressHost (dotted ip) = [] \<longleftrightarrow> \<not> not_unicast ip)"
proof -
  let ?s = "dotted ip"
  have ne: "ip \<noteq> []" using assms(1) by auto
  note ends = dotted_ends[OF ne]
  have chars: "c \<in> set ?s \<Longrightarrow> is_digit c \<or> c = CHR ''.''" for c by (rule set_dotted)
  have "last ?s \<noteq> CHR ''.''" using ends(3) by (auto simp: is_digit_def code_def)
  then have "TrimSuffix ?s ''.'' = ?s"
    using HasSuffix_last[of ?s "''.''"] by (auto simp: TrimSuffix_def)
  moreover have "TrimSpace ?s = ?s" by (rule TrimSpace_digits) (rule ends)+
  moreover have "length ?s \<le> 253" using ends(4)[OF assms(2)] assms(1) by simp
  moreover have "\<not> Contains ?s ''://''"
    using Contains_set[of ?s "''://''"] chars[of "CHR '':''"] by (auto simp: is_digit_def code_def)
  moreover have "\<not> ContainsAny ?s ''/*''"
    using chars[of "CHR ''/''"] chars[of "CHR ''*''"] by (auto simp: ContainsAny_def list_ex_iff is_digit_def code_def)
  moreover have "list_all (\<lambda>c. 33 \<le> code c \<and> code c < 127) ?s"
    using chars by (force simp: list_all_iff is_digit_def code_def)
  ultimately show ?thesis
    using parse_dotted[OF assms] ends(1) by (simp add: validateEgressHost_def Let_def To4_def assms(1))
qed

text \<open>
  For files without NUL bytes the hashed bytes determine the package: two lists of files with
  the same hash input have the same paths and contents in the same order.
\<close>

lemma hash_input_injective:
  assumes "list_all nul_free xs" and "list_all nul_free ys" and "hash_input xs = hash_input ys"
  shows "xs = ys"
  using assms
proof (induction xs arbitrary: ys)
  case Nil
  then show ?case by (cases ys) (auto simp: hash_input_def hash_chunk_def)
next
  case (Cons x xs)
  then obtain y zs where ys: "ys = y # zs" by (cases ys) (auto simp: hash_input_def hash_chunk_def)
  have eq: "fst x @ [CHR 0x00] @ (snd x @ [CHR 0x00] @ hash_input xs) = fst y @ [CHR 0x00] @ (snd y @ [CHR 0x00] @ hash_input zs)"
    using Cons.prems(3) by (simp add: ys hash_input_def hash_chunk_def)
  have free: "nul_free x" "nul_free y" using Cons.prems(1,2) ys by simp_all
  from nul_split[OF eq] free have "fst x = fst y"
    and rest: "snd x @ [CHR 0x00] @ hash_input xs = snd y @ [CHR 0x00] @ hash_input zs" by (auto simp: nul_free_def)
  from nul_split[OF rest] free have "snd x = snd y" "hash_input xs = hash_input zs" by (auto simp: nul_free_def)
  with Cons.IH[of zs] Cons.prems(1,2) ys \<open>fst x = fst y\<close> show ?case by (simp add: prod_eq_iff)
qed

text \<open>
  In general the content hash does not determine the package. There are two different
  directories, one with a single file and one with two, that have the same content hash whatever
  the hash function is, because a NUL byte inside a file looks like the end of it.
\<close>

lemma content_hash_ambiguous:
  "\<exists>t u. map fst (walk_files [] t) = [''a''] \<and> map fst (walk_files [] u) = [''a'', ''b'']
    \<and> (\<forall>sha256. HashDirectory sha256 t \<noteq> None \<and> HashDirectory sha256 t = HashDirectory sha256 u)"
proof -
  let ?t = "DirNode [(''a'', FileNode (Some (''1'' @ [CHR 0x00] @ ''b'' @ [CHR 0x00] @ ''2'')))]"
  let ?u = "DirNode [(''a'', FileNode (Some ''1'')), (''b'', FileNode (Some ''2''))]"
  have walks: "walk_files [] ?t = [(''a'', Some (''1'' @ [CHR 0x00] @ ''b'' @ [CHR 0x00] @ ''2''))]"
    "walk_files [] ?u = [(''a'', Some ''1''), (''b'', Some ''2'')]" by simp_all
  have "sort_key fst [(''a'', Some ''1''), (''b'', Some ''2'')] = [(''a'', Some ''1''), (''b'', Some ''2'')]" by code_simp
  then have same: "HashDirectory sha256 ?t \<noteq> None \<and> HashDirectory sha256 ?t = HashDirectory sha256 ?u" for sha256
    unfolding HashDirectory_def walks by (simp add: hash_input_def hash_chunk_def)
  show ?thesis
    by (rule exI[of _ ?t], rule exI[of _ ?u], intro conjI allI)
      (simp_all only: walks list.map fst_conv, rule same[THEN conjunct1], rule same[THEN conjunct2])
qed

section \<open>Examples\<close>

definition sample_validated :: manifest where
  "sample_validated = sample_manifest\<lparr>mf_triggers :=
     [\<lparr>tg_id = ''hook'', tg_type = ''webhook'', tg_enabled = None, tg_config = [(''secret'', JString ''api-token'')]\<rparr>,
      \<lparr>tg_id = ''hourly'', tg_type = ''schedule'', tg_enabled = Some True, tg_config = [(''cron'', JString ''0 * * * *'')]\<rparr>],
     mf_execution := \<lparr>ex_timeout = [], ex_retries = 2, ex_concurrency = ''forbid'', ex_state_enabled = True\<rparr>\<rparr>"

lemma sample_validates: "Validate (sample_ambient 1 0) (\<lambda>_. []) sample_validated = Inr ()"
  by code_simp

theorem validated_manifest_well_formed_witness:
  "distinct (map tg_id (mf_triggers sample_validated)) \<and> 0 < TimeoutDuration (mf_execution sample_validated)"
  using validated_manifest_well_formed[OF sample_validates] by blast

end
