(* ===== verification/RunControl.thy ===== *)
theory RunControl
  imports Approvals Encodings
begin

text \<open>
  The runner's gate around an attempt (\<open>internal/runner/executor.go\<close>, \<open>internal/domain/approval_image.go\<close>):
  the check of the run control an automation wrote (deferral, approval request, notifications), the
  check of its state, the environment with the resolved secrets, and the redaction of its logs.

  \<open>encoding/json\<close> and \<open>image/jpeg\<close> are parameters: \<open>decode\<close> gives the control a byte string decodes to
  with unknown fields refused, \<open>trailing\<close> whether another value follows it, \<open>raw_fields\<close> the type
  and the undecoded value of each field of its approval, \<open>jpeg\<close> the size a JPEG declares and whether all of it decodes.
\<close>

section \<open>Approval images\<close>

definition ApprovalImagePrefix :: string where
  "ApprovalImagePrefix = ''data:image/jpeg;base64,''"

definition MaxApprovalImageBytes :: nat where
  "MaxApprovalImageBytes = 262144"

definition MaxApprovalImagesBytes :: nat where
  "MaxApprovalImagesBytes = 1048576"

definition MaxApprovalImageSide :: int where
  "MaxApprovalImageSide = 4096"

definition DecodeApprovalImage :: "(string \<Rightarrow> ((int \<times> int) \<times> bool) option) \<Rightarrow> json \<Rightarrow> string + string" where
  "DecodeApprovalImage jpeg value =
     (case value of
        JString text \<Rightarrow>
          guardR (\<not> HasPrefix text ApprovalImagePrefix)
            (''approval image value must start with '' @ [CHR 0x22] @ ApprovalImagePrefix @ [CHR 0x22])
          (let encoded = drop (length ApprovalImagePrefix) text in
           guardR (length encoded div 4 * 3 > MaxApprovalImageBytes + 2) ''approval image must be at most 262144 bytes''
           (case b64_decode True True encoded of
              None \<Rightarrow> Inl ''approval image value must be valid base64''
            | Some decoded \<Rightarrow>
                guardR (length decoded > MaxApprovalImageBytes) ''approval image must be at most 262144 bytes''
                (case jpeg decoded of
                   None \<Rightarrow> Inl ''approval image must be a JPEG''
                 | Some ((width, height), whole) \<Rightarrow>
                     guardR (width > MaxApprovalImageSide \<or> height > MaxApprovalImageSide)
                       ''approval image must be at most 4096 pixels on each side''
                     (guardR (\<not> whole) ''approval image must be a JPEG that decodes'' (Inr decoded)))))
      | _ \<Rightarrow> Inl ''approval image value must be a string'')"

section \<open>The run control\<close>

definition maxRunControlTextBytes :: nat where
  "maxRunControlTextBytes = 65536"

definition MaxRunControlBytes :: nat where
  "MaxRunControlBytes = maxRunControlTextBytes + MaxApprovalImagesBytes div 3 * 4 + 16 * 64"

definition maxContinuationDelay :: duration where
  "maxContinuationDelay = 30 * 24 * hour"

definition maxNotificationsPerRun :: nat where
  "maxNotificationsPerRun = 8"

definition controlIdentifier :: "string \<Rightarrow> bool" where
  "controlIdentifier s = (case s of [] \<Rightarrow> False
     | c # cs \<Rightarrow> is_alnum c \<and> length cs \<le> 127 \<and> list_all (\<lambda>x. is_alnum x \<or> x \<in> set ''._:-'') cs)"

text \<open>The options of a select field: the first fault of the loop over them.\<close>

fun option_fault :: "string list \<Rightarrow> string list \<Rightarrow> string option" where
  "option_fault seen [] = None"
| "option_fault seen (x # xs) =
     (if TrimSpace x = [] \<or> rune_count x > 100 then Some ''approval select options must contain at most 100 characters''
      else if x \<in> set seen then Some ''approval select options must be unique''
      else option_fault (x # seen) xs)"

text \<open>The switch on the field's type; it adds the size of a decoded image to the running total.\<close>

definition field_type_check :: "(string \<Rightarrow> ((int \<times> int) \<times> bool) option) \<Rightarrow> approval_field \<Rightarrow> nat \<Rightarrow> string + nat" where
  "field_type_check jpeg f imageBytes =
     (if af_type f \<in> {''text'', ''textarea'', ''number'', ''boolean''} then
        guardR (af_options f \<noteq> []) ''approval field options require type select'' (Inr imageBytes)
      else if af_type f = ''image'' then
        guardR (af_options f \<noteq> []) ''approval field options require type select''
        (guardR (af_required f) ''approval image fields are display-only and cannot be required''
        (guardR (af_value f = JNull) ''approval image fields require a value''
        (bindR (DecodeApprovalImage jpeg (af_value f)) (\<lambda>image.
         guardR (imageBytes + length image > MaxApprovalImagesBytes) ''approval images must together be at most 1048576 bytes''
         (Inr (imageBytes + length image))))))
      else if af_type f = ''select'' then
        guardR (af_options f = [] \<or> length (af_options f) > 32) ''approval select fields require one to 32 options''
        (case option_fault [] (af_options f) of Some e \<Rightarrow> Inl e | None \<Rightarrow> Inr imageBytes)
      else Inl ''approval field type must be text, textarea, number, boolean, select, or image'')"

definition default_fault :: "approval_field \<Rightarrow> string option" where
  "default_fault f =
     (if af_value f = JNull then None
      else if af_type f = ''text'' \<or> af_type f = ''textarea'' then
        (case af_value f of JString s \<Rightarrow> if rune_count s > 4000 then Some ''approval text defaults must contain at most 4000 characters'' else None
         | _ \<Rightarrow> Some ''approval text defaults must contain at most 4000 characters'')
      else if af_type f = ''number'' then
        (case af_value f of JNumber _ \<Rightarrow> None | _ \<Rightarrow> Some ''approval number defaults must be numbers'')
      else if af_type f = ''boolean'' then
        (case af_value f of JBool _ \<Rightarrow> None | _ \<Rightarrow> Some ''approval boolean defaults must be booleans'')
      else if af_type f = ''select'' then
        (case af_value f of JString s \<Rightarrow> if s \<in> set (af_options f) then None else Some ''approval select defaults must use a declared option''
         | _ \<Rightarrow> Some ''approval select defaults must use a declared option'')
      else None)"

definition field_check :: "(string \<Rightarrow> ((int \<times> int) \<times> bool) option) \<Rightarrow> approval_field \<Rightarrow> string list \<times> nat
    \<Rightarrow> string + string list \<times> nat" where
  "field_check jpeg f acc = (case acc of (seen, imageBytes) \<Rightarrow>
     guardR (\<not> controlIdentifier (af_id f)) ''approval field id is invalid''
     (guardR (af_id f \<in> set seen) ''approval field ids must be unique''
     (guardR (TrimSpace (af_label f) = [] \<or> rune_count (af_label f) > 80 \<or> rune_count (af_description f) > 300)
        ''approval field label or description is invalid''
     (bindR (field_type_check jpeg f imageBytes) (\<lambda>imageBytes1.
      case default_fault f of Some e \<Rightarrow> Inl e | None \<Rightarrow> Inr (af_id f # seen, imageBytes1))))))"

definition action_check :: "approval_action \<Rightarrow> string list \<Rightarrow> string + string list" where
  "action_check a seen =
     guardR (\<not> controlIdentifier (aa_id a) \<or> TrimSpace (aa_label a) = [] \<or> rune_count (aa_label a) > 80)
       ''approval action id or label is invalid''
     (guardR (aa_id a \<in> set seen) ''approval action ids must be unique''
     (guardR (aa_id a \<noteq> ''approve'' \<and> aa_id a \<noteq> ''reject'') ''approval action id must be approve or reject''
     (guardR (aa_style a \<notin> {[], ''primary'', ''neutral'', ''danger''})
        ''approval action style must be primary, neutral, or danger'' (Inr (aa_id a # seen)))))"

definition validateApprovalRequest :: "(string \<Rightarrow> ((int \<times> int) \<times> bool) option) \<Rightarrow> approval_request \<Rightarrow> time \<Rightarrow> string + unit" where
  "validateApprovalRequest jpeg v now =
     guardR (\<not> controlIdentifier (ar_key v)) ''approval.key is invalid''
     (guardR (TrimSpace (ar_title v) = [] \<or> rune_count (TrimSpace (ar_title v)) > 120)
        ''approval.title must contain at most 120 characters''
     (guardR (rune_count (ar_description v) > 1000) ''approval.description must contain at most 1000 characters''
     (guardR (ar_expires_at v < now \<or> ar_expires_at v > now + maxContinuationDelay)
        ''approval.expiresAt must be in the next 30 days''
     (guardR (length (ar_fields v) > 16 \<or> ar_actions v = [] \<or> length (ar_actions v) > 4)
        ''approval accepts at most 16 fields and requires one to four actions''
     (bindR (foldR (field_check jpeg) (ar_fields v) ([], 0)) (\<lambda>_.
      bindR (foldR action_check (ar_actions v) []) (\<lambda>_. Inr ())))))))"

definition notification_check :: "notification_request \<Rightarrow> string list \<times> notification_request list
    \<Rightarrow> string + string list \<times> notification_request list" where
  "notification_check n acc = (case acc of (seen, done_list) \<Rightarrow>
     let title = TrimSpace (nr_title n); body = TrimSpace (nr_body n);
         priority = (if nr_priority n = [] then ''default'' else nr_priority n) in
     guardR (\<not> controlIdentifier (nr_key n)) ''notification.key is invalid''
     (guardR (nr_key n \<in> set seen) ''notification keys must be unique''
     (guardR (title = [] \<or> rune_count title > 120) ''notification.title must contain at most 120 characters''
     (guardR (body = [] \<or> rune_count body > 1000) ''notification.body must contain at most 1000 characters''
     (guardR (priority \<notin> {''low'', ''default'', ''high''}) ''notification.priority must be low, default, or high''
     (Inr (nr_key n # seen, done_list @ [n\<lparr>nr_title := title, nr_body := body, nr_priority := priority\<rparr>])))))))"

definition defer_check :: "time \<Rightarrow> deferred_run_request \<Rightarrow> string + deferred_run_request" where
  "defer_check now r =
     guardR (\<not> controlIdentifier (dr_key r)) ''defer.key is invalid''
     (guardR (dr_until r < now \<or> dr_until r > now + maxContinuationDelay) ''defer.until must be in the next 30 days''
     (Inr (r\<lparr>dr_data := (case dr_data r of None \<Rightarrow> Some (JObject []) | Some v \<Rightarrow> Some v)\<rparr>)))"

text \<open>A check of a pointer that may be nil.\<close>

definition check_option :: "('a \<Rightarrow> 'e + 'a) \<Rightarrow> 'a option \<Rightarrow> 'e + 'a option" where
  "check_option f x = (case x of None \<Rightarrow> Inr None | Some v \<Rightarrow> bindR (f v) (\<lambda>w. Inr (Some w)))"

text \<open>How much of the control the approval's image values take up as spelled in it.\<close>

definition approvalImageEncodedBytes :: "(string \<Rightarrow> (string \<times> string) list option) \<Rightarrow> string \<Rightarrow> nat" where
  "approvalImageEncodedBytes raw_fields value = (case raw_fields value of
     None \<Rightarrow> 0
   | Some fs \<Rightarrow> sum_list (map (\<lambda>(ty, v). if ty = ''image'' then length v else 0) fs))"

definition validateRunControl :: "(string \<Rightarrow> run_control option) \<Rightarrow> (string \<Rightarrow> bool)
    \<Rightarrow> (string \<Rightarrow> (string \<times> string) list option)
    \<Rightarrow> (string \<Rightarrow> ((int \<times> int) \<times> bool) option) \<Rightarrow> string \<Rightarrow> time \<Rightarrow> string + run_control" where
  "validateRunControl decode trailing raw_fields jpeg value now =
     guardR (length value > MaxRunControlBytes) ''run control exceeds 1464660 bytes''
     (case decode value of
        None \<Rightarrow> Inl ''run control must be a valid JSON object''
      | Some control \<Rightarrow>
          guardR (trailing value) ''run control must contain one JSON object''
          (bindR (check_option (defer_check now) (rc_defer control)) (\<lambda>deferral.
           bindR (check_option (\<lambda>v. bindR (validateApprovalRequest jpeg v now) (\<lambda>_. Inr v)) (rc_approval control)) (\<lambda>_.
           guardR (length value - approvalImageEncodedBytes raw_fields value > maxRunControlTextBytes)
             ''run control exceeds 65536 bytes besides approval images''
           (guardR (length (rc_notifications control) > maxNotificationsPerRun) ''notifications accepts at most 8 messages''
           (bindR (foldR notification_check (rc_notifications control) ([], [])) (\<lambda>(_, ns).
            Inr (control\<lparr>rc_defer := deferral, rc_notifications := ns\<rparr>))))))))"

definition DefaultMaxAutomationStateBytes :: int where
  "DefaultMaxAutomationStateBytes = 1048576"

definition automationStateLimit :: "int \<Rightarrow> int" where
  "automationStateLimit configured = (if configured > 0 then configured else DefaultMaxAutomationStateBytes)"

definition validateAutomationState :: "(string \<Rightarrow> json option) \<Rightarrow> string \<Rightarrow> int \<Rightarrow> string + string" where
  "validateAutomationState parse value maxBytes =
     guardR (int (length value) > maxBytes) (''automation state exceeds '' @ decimal_int maxBytes @ '' bytes'')
     (case parse value of Some (JObject _) \<Rightarrow> Inr value | _ \<Rightarrow> Inl ''automation state must be a JSON object'')"

end
