(* ===== verification/Execution.thy ===== *)
theory Execution
  imports RunControl RunQueue "HOL-Library.AList"
begin

text \<open>
  One attempt of a run (\<open>internal/runner/executor.go\<close> and \<open>process.go\<close>): the environment with the
  resolved secrets, the reserved variables, the bounded logs, the redaction of secrets from them,
  and the process executor from the checks before the start to the validated result. What the
  operating system does (the temporary directory, writing files, the process, reading the files it
  left) and \<open>encoding/json\<close> are the fields of \<open>runner_host\<close>.
\<close>

section \<open>Environment\<close>

type_synonym env_map = "(string \<times> string) list"

definition put_all :: "env_map \<Rightarrow> env_map \<Rightarrow> env_map" where
  "put_all new m = foldl (\<lambda>acc (k, v). AList.update k v acc) m new"

definition guestMiseDataDir :: string where "guestMiseDataDir = ''/opt/werkt/mise''"
definition guestRuntimeBinDir :: string where "guestRuntimeBinDir = ''/opt/werkt/runtime/bin''"

definition miseEnvironment :: env_map where
  "miseEnvironment =
     [(''HOME'', ''/root''), (''MISE_YES'', ''1''), (''MISE_PIN'', ''1''), (''MISE_LOG_LEVEL'', ''warn''),
      (''MISE_DATA_DIR'', guestMiseDataDir), (''MISE_CACHE_DIR'', ''/var/cache/werkt-mise''),
      (''MISE_CONFIG_DIR'', ''/etc/werkt/mise''), (''MISE_STATE_DIR'', ''/var/lib/werkt-mise''),
      (''MISE_GLOBAL_CONFIG_FILE'', ''/etc/werkt/mise/config.toml'')]"

definition toolRuntimeEnvironment :: "resolved_tool_environment option \<Rightarrow> env_map" where
  "toolRuntimeEnvironment environment = (case environment of
     None \<Rightarrow> []
   | Some e \<Rightarrow>
       (let toolPath = (if te_version e = 1 then guestMiseDataDir @ ''/shims'' else guestRuntimeBinDir) in
        AList.update ''PATH'' (Join [toolPath, ''/opt/werkt/bin'', ''/usr/local/sbin'', ''/usr/local/bin'', ''/usr/sbin'',
          ''/usr/bin'', ''/sbin'', ''/bin''] '':'') miseEnvironment))"

definition promotionEnvironment :: "runtime \<Rightarrow> env_map" where
  "promotionEnvironment r =
     (let values = put_all (toolRuntimeEnvironment (rn_resolved_tools r)) (put_all (rn_environment r) []) in
      if rn_language r = ''python'' then AList.update ''PYTHONPATH'' ''.werkt-sdk/python'' values else values)"

record resolved_environment =
  re_values :: env_map
  re_secrets :: "string list"

text \<open>The verb \<open>%q\<close> on a name of the manifest, which has no character that is escaped.\<close>

definition quoted :: "string \<Rightarrow> string" where
  "quoted s = [CHR 0x22] @ s @ [CHR 0x22]"

text \<open>A resolved value: absent and empty are both refused.\<close>

definition resolved_value :: "env_map \<Rightarrow> string \<Rightarrow> string \<Rightarrow> string + string" where
  "resolved_value resolved name msg = (case map_of resolved name of
     None \<Rightarrow> Inl msg | Some v \<Rightarrow> guardR (v = []) msg (Inr v))"

definition resolveRuntimeEnvironment :: "(string list \<Rightarrow> string + env_map) option \<Rightarrow> runtime \<Rightarrow> string + resolved_environment" where
  "resolveRuntimeEnvironment resolver r =
     (let values = promotionEnvironment r in
      if rn_secrets r = [] then Inr \<lparr>re_values = values, re_secrets = []\<rparr>
      else case resolver of
        None \<Rightarrow> Inl ''secret resolver is not configured''
      | Some resolve \<Rightarrow>
          (let targets = sort (map fst (rn_secrets r)); names = sort (remdups (map snd (rn_secrets r))) in
           bindR (case resolve names of Inl e \<Rightarrow> Inl (''resolve runtime secrets: '' @ e) | Inr m \<Rightarrow> Inr m) (\<lambda>resolved.
           bindR (mapR (\<lambda>name. resolved_value resolved name (''runtime secret '' @ quoted name @ '' was not resolved'')) names) (\<lambda>secretValues.
           bindR (foldR (\<lambda>target acc.
               let source = the (map_of (rn_secrets r) target) in
               bindR (resolved_value resolved source (''runtime secret '' @ quoted target @ '' references unavailable secret '' @ quoted source))
                 (\<lambda>v. Inr (AList.update target v acc))) targets values) (\<lambda>all.
           Inr \<lparr>re_values = all, re_secrets = secretValues\<rparr>)))))"

definition environment :: "env_map \<Rightarrow> string list" where
  "environment values = map (\<lambda>k. k @ ''='' @ the (map_of values k)) (sort (remdups (map fst values)))"

definition reserved_variables :: "runnable_run \<Rightarrow> string \<Rightarrow> string \<Rightarrow> string \<Rightarrow> string \<Rightarrow> env_map" where
  "reserved_variables run eventPath resultPath controlPath statePath =
     [(''WERKT_AUTOMATION_ID'', r_automation_id (rr_run run)), (''WERKT_REVISION_ID'', r_revision_id (rr_run run)),
      (''WERKT_RUN_ID'', r_id (rr_run run)), (''WERKT_EVENT_PATH'', eventPath), (''WERKT_RESULT_PATH'', resultPath),
      (''WERKT_CONTROL_PATH'', controlPath)] @
     (if statePath = [] then []
      else [(''WERKT_STATE_PATH'', statePath), (''WERKT_STATE_VERSION'', decimal_int (rr_state_version run))])"

definition runtimeEnvironment :: "runnable_run \<Rightarrow> string \<Rightarrow> string \<Rightarrow> string \<Rightarrow> string \<Rightarrow> env_map \<Rightarrow> string list" where
  "runtimeEnvironment run eventPath resultPath controlPath statePath values =
     environment (put_all (reserved_variables run eventPath resultPath controlPath statePath) values)"

definition inheritedRuntimeEnvironment :: "(string \<Rightarrow> string option) \<Rightarrow> string list" where
  "inheritedRuntimeEnvironment lookup =
     concat (map (\<lambda>k. case lookup k of None \<Rightarrow> [] | Some v \<Rightarrow> [k @ ''='' @ v])
       [''PATH'', ''HOME'', ''TMPDIR'', ''LANG'', ''LC_ALL'', ''SSL_CERT_FILE'', ''SSL_CERT_DIR'', ''SYSTEMROOT''])"

section \<open>Logs\<close>

definition maxLogs :: nat where
  "maxLogs = 1048576"

abbreviation newline :: string where "newline \<equiv> [CHR 0x0A]"

definition truncated_marker :: string where
  "truncated_marker = newline @ ''[logs truncated]'' @ newline"

record limited_buffer =
  lb_buffer :: string
  lb_truncated :: bool

definition limited_write :: "string \<Rightarrow> limited_buffer \<Rightarrow> limited_buffer" where
  "limited_write value b =
     (if length (lb_buffer b) < maxLogs then
        b\<lparr>lb_buffer := lb_buffer b @ take (maxLogs - length (lb_buffer b)) value,
          lb_truncated := (lb_truncated b \<or> length value > maxLogs - length (lb_buffer b))\<rparr>
      else b\<lparr>lb_truncated := True\<rparr>)"

definition limited_string :: "limited_buffer \<Rightarrow> string" where
  "limited_string b = lb_buffer b @ (if lb_truncated b then truncated_marker else [])"

definition log_section :: "string \<Rightarrow> string \<Rightarrow> string" where
  "log_section name text = (if text = [] then []
     else ''['' @ name @ '']'' @ newline @ text @ (if HasSuffix text newline then [] else newline))"

definition formatLogs :: "string \<Rightarrow> string \<Rightarrow> string" where
  "formatLogs stdout stderr =
     (let value = log_section ''stdout'' stdout @ log_section ''stderr'' stderr in
      if length value > maxLogs then take maxLogs value @ truncated_marker else value)"

section \<open>Redaction\<close>

definition secret_patterns :: "(nat \<Rightarrow> bool) \<Rightarrow> string \<Rightarrow> string list" where
  "secret_patterns printable value =
     (if value = [] then []
      else [value, QueryEscape value, b64_encode value, b64_raw value, quote_inner printable value])"

definition newLogRedactor :: "(nat \<Rightarrow> bool) \<Rightarrow> string list \<Rightarrow> string list" where
  "newLogRedactor printable values =
     sort_key (\<lambda>p. (- int (length p), p))
       (remdups (filter (\<lambda>p. p \<noteq> []) (concat (map (secret_patterns printable) values))))"

text \<open>
  \<open>strings.Replacer\<close> with all patterns replaced by \<open>[REDACTED]\<close>: left to right, without overlap,
  the first pattern in argument order that matches at a position.
\<close>

function Redact :: "string list \<Rightarrow> string \<Rightarrow> string" where
  "Redact patterns [] = []"
| "Redact patterns (c # s) =
     (case find (\<lambda>p. p \<noteq> [] \<and> HasPrefix (c # s) p) patterns of
        None \<Rightarrow> c # Redact patterns s
      | Some p \<Rightarrow> ''[REDACTED]'' @ Redact patterns (drop (length p - 1) s))"
  by pat_completeness auto
termination
  by (relation "measure (length \<circ> snd)") auto

section \<open>The process executor\<close>

text \<open>Whether the attempt's context had ended, by its own timeout or from outside with \<open>ctx.Err()\<close>.\<close>

datatype attempt_end = StillRunning | TimedOut | Interrupted string

datatype file_state = Missing | Unreadable string | Contents string

record process_outcome =
  po_stdout :: string
  po_stderr :: string
  po_error :: "string option"
  po_ended :: attempt_end
  po_result :: file_state
  po_control :: file_state
  po_state :: file_state

record runner_host =
  rh_run_directory :: "string + string"
  rh_write :: "string \<Rightarrow> string \<Rightarrow> string option"
  rh_launch :: "string list \<Rightarrow> string \<Rightarrow> string list \<Rightarrow> process_outcome"
  rh_lookup_env :: "string \<Rightarrow> string option"
  rh_now :: time
  rh_event_json :: "event_envelope \<Rightarrow> string"
  rh_state_json :: "json_map \<Rightarrow> string"
  rh_parse :: "string \<Rightarrow> json option"
  rh_decode :: "string \<Rightarrow> run_control option"
  rh_trailing :: "string \<Rightarrow> bool"
  rh_raw_fields :: "string \<Rightarrow> (string \<times> string) list option"
  rh_jpeg :: "string \<Rightarrow> ((int \<times> int) \<times> bool) option"
  rh_printable :: "nat \<Rightarrow> bool"

record attempt_result =
  at_output :: string
  at_logs :: string
  at_state :: "string option"
  at_control :: run_control

definition empty_control :: run_control where
  "empty_control = \<lparr>rc_defer = None, rc_approval = None, rc_notifications = []\<rparr>"

definition logs_only :: "string \<Rightarrow> attempt_result" where
  "logs_only logs = \<lparr>at_output = [], at_logs = logs, at_state = None, at_control = empty_control\<rparr>"

definition readBoundedFile :: "file_state \<Rightarrow> int \<Rightarrow> string + string" where
  "readBoundedFile f maxBytes = (case f of
     Missing \<Rightarrow> Inl ''no such file or directory''
   | Unreadable e \<Rightarrow> Inl e
   | Contents s \<Rightarrow> guardR (int (length s) > maxBytes) (''file exceeds '' @ decimal_int maxBytes @ '' bytes'') (Inr s))"

definition attemptEnded :: "attempt_end \<Rightarrow> duration \<Rightarrow> string" where
  "attemptEnded e timeout = (case e of
     Interrupted cause \<Rightarrow> ''automation interrupted: '' @ cause
   | _ \<Rightarrow> ''automation exceeded timeout '' @ duration_string timeout @ '': context deadline exceeded'')"

text \<open>The files written before the start; the path of the state file is empty for a stateless automation.\<close>

definition prepare_files :: "runner_host \<Rightarrow> int \<Rightarrow> runnable_run \<Rightarrow> string \<Rightarrow> string + string" where
  "prepare_files h maxStateBytes run dir =
     (let write = (\<lambda>path text msg. case rh_write h path text of Some e \<Rightarrow> Inl (msg @ e) | None \<Rightarrow> Inr ()) in
      bindR (write (JoinPath dir ''event.json'') (rh_event_json h (rr_event run)) ''write event: '') (\<lambda>_.
      bindR (write (JoinPath dir ''control.json'') ''{}'' ''initialize run control: '') (\<lambda>_.
      if \<not> ex_state_enabled (mf_execution (rr_manifest run)) then Inr []
      else
        (let state = rh_state_json h (rr_state run) in
         bindR (case validateAutomationState (rh_parse h) state maxStateBytes of
             Inl e \<Rightarrow> Inl (''initialize automation state: '' @ e) | Inr v \<Rightarrow> Inr v) (\<lambda>_.
         bindR (write (JoinPath dir ''state.json'') state ''write automation state: '') (\<lambda>_.
         Inr (JoinPath dir ''state.json'')))))))"

text \<open>What is read back after a process that ended well.\<close>

definition read_result :: "runner_host \<Rightarrow> int \<Rightarrow> bool \<Rightarrow> string \<Rightarrow> process_outcome \<Rightarrow> string + attempt_result" where
  "read_result h maxStateBytes stateful logs out =
     bindR (case po_result out of Missing \<Rightarrow> Inr ''{}'' | Unreadable e \<Rightarrow> Inl (''read automation result: '' @ e) | Contents s \<Rightarrow> Inr s) (\<lambda>result.
     guardR (rh_parse h result = None) ''automation result is not valid JSON''
     (bindR (case readBoundedFile (po_control out) (int MaxRunControlBytes) of
         Inl e \<Rightarrow> Inl (''read run control: '' @ e) | Inr s \<Rightarrow> Inr s) (\<lambda>controlJSON.
      bindR (validateRunControl (rh_decode h) (rh_trailing h) (rh_raw_fields h) (rh_jpeg h) controlJSON (rh_now h)) (\<lambda>control.
      bindR (if \<not> stateful then Inr None
             else bindR (case readBoundedFile (po_state out) maxStateBytes of
                 Inl e \<Rightarrow> Inl (''read automation state: '' @ e) | Inr s \<Rightarrow> Inr s) (\<lambda>stateJSON.
               bindR (validateAutomationState (rh_parse h) stateJSON maxStateBytes) (\<lambda>v. Inr (Some v)))) (\<lambda>state.
      Inr \<lparr>at_output = result, at_logs = logs, at_state = state, at_control = control\<rparr>)))))"

definition start_process :: "runner_host \<Rightarrow> int \<Rightarrow> runnable_run \<Rightarrow> resolved_environment \<Rightarrow> string \<Rightarrow> string \<Rightarrow> process_outcome" where
  "start_process h maxStateBytes run resolved dir statePath =
     rh_launch h (rn_command (mf_runtime (rr_manifest run))) (rr_artifact_path run)
       (inheritedRuntimeEnvironment (rh_lookup_env h) @
        runtimeEnvironment run (JoinPath dir ''event.json'') (JoinPath dir ''result.json'') (JoinPath dir ''control.json'')
          statePath (AList.update ''WERKT_STATE_MAX_BYTES'' (decimal_int maxStateBytes) (re_values resolved)))"

text \<open>The outcome of a finished process: the redacted logs always, the result only of a good end.\<close>

definition finish_attempt :: "runner_host \<Rightarrow> int \<Rightarrow> runnable_run \<Rightarrow> string list \<Rightarrow> string \<Rightarrow> process_outcome
    \<Rightarrow> attempt_result \<times> string option" where
  "finish_attempt h maxStateBytes run redactor statePath out =
     (let logs = formatLogs (Redact redactor (po_stdout out)) (Redact redactor (po_stderr out)) in
      if po_ended out \<noteq> StillRunning
      then (logs_only logs, Some (attemptEnded (po_ended out) (TimeoutDuration (mf_execution (rr_manifest run)))))
      else case po_error out of
        Some e \<Rightarrow> (logs_only logs, Some (''automation process failed: '' @ Redact redactor e))
      | None \<Rightarrow> (case read_result h maxStateBytes (statePath \<noteq> []) logs out of
          Inl e \<Rightarrow> (logs_only logs, Some e) | Inr r \<Rightarrow> (r, None)))"

definition process_Execute :: "(string list \<Rightarrow> string + env_map) option \<Rightarrow> runner_host \<Rightarrow> int \<Rightarrow> runnable_run
    \<Rightarrow> attempt_result \<times> string option" where
  "process_Execute resolver h maxStateBytes run =
     (let r = mf_runtime (rr_manifest run) in
      if rn_command r = [] then (logs_only [], Some ''runtime command is empty'')
      else if rn_egress r \<noteq> [] then (logs_only [],
        Some ''runtime.egress requires the husker executor; the process executor cannot enforce network policy'')
      else case bindR (resolveRuntimeEnvironment resolver r) (\<lambda>resolved.
             bindR (case rh_run_directory h of Inl e \<Rightarrow> Inl (''create run directory: '' @ e) | Inr d \<Rightarrow> Inr d) (\<lambda>dir.
             bindR (prepare_files h maxStateBytes run dir) (\<lambda>statePath. Inr (resolved, dir, statePath)))) of
        Inl e \<Rightarrow> (logs_only [], Some e)
      | Inr (resolved, dir, statePath) \<Rightarrow>
          finish_attempt h maxStateBytes run (newLogRedactor (rh_printable h) (re_secrets resolved)) statePath
            (start_process h maxStateBytes run resolved dir statePath))"

text \<open>The executor that verifies the artifact first; \<open>reap\<close> removes what earlier attempts left behind.\<close>

definition verifying_Execute :: "(runnable_run \<Rightarrow> string option) option \<Rightarrow> (string \<Rightarrow> artifact_provenance option \<Rightarrow> string option) option
    \<Rightarrow> (runnable_run \<Rightarrow> attempt_result \<times> string option) option \<Rightarrow> runnable_run \<Rightarrow> attempt_result \<times> string option" where
  "verifying_Execute reap verify execute run =
     (case (execute, verify) of
        (Some run_next, Some check) \<Rightarrow>
          (case (if r_attempt (rr_run run) > 1 then Option.bind reap (\<lambda>f. f run) else None) of
             Some e \<Rightarrow> (logs_only [], Some (''remove earlier attempts: '' @ e))
           | None \<Rightarrow>
               (case check (rr_artifact_path run) (rr_provenance run) of
                  Some e \<Rightarrow> (logs_only [], Some (''verify automation artifact: '' @ e))
                | None \<Rightarrow> run_next run))
      | _ \<Rightarrow> (logs_only [], Some ''artifact verification is not configured''))"

end
