(* ===== verification/ExecutionProofs.thy ===== *)
theory ExecutionProofs
  imports Execution ApprovalProofs RunProperties
begin

text \<open>
  What the gate around an attempt guarantees: logs without the secrets that were injected, bounded
  buffers, run controls within their limits, and approvals that a reviewer can always answer.
\<close>

section \<open>Substrings\<close>

lemma HasPrefix_Nil [simp]: "HasPrefix s []"
  by (simp add: HasPrefix_def)

lemma HasPrefix_Cons: "HasPrefix s (c # q) \<longleftrightarrow> (\<exists>s'. s = c # s' \<and> HasPrefix s' q)"
  by (cases s) (auto simp: HasPrefix_def)

lemma HasPrefix_append: "HasPrefix s q \<Longrightarrow> HasPrefix (s @ t) q"
  unfolding HasPrefix_def by (metis append_eq_conv_conj append_take_drop_id take_append append_assoc)

lemma Contains_empty [simp]: "Contains s []"
  by (cases s) simp_all

lemma HasPrefix_cut:
  assumes "HasPrefix (xs @ c # ys) v" "c \<notin> set v" shows "HasPrefix xs v"
  using assms
proof (induction v arbitrary: xs)
  case (Cons a v)
  then show ?case by (cases xs) (auto simp: HasPrefix_Cons)
qed simp

text \<open>A text without the delimiter occurs on one side of it.\<close>

lemma Contains_split:
  assumes "Contains (xs @ c # ys) v" "c \<notin> set v"
  shows "Contains xs v \<or> Contains ys v"
  using assms
proof (induction xs)
  case Nil
  then show ?case using HasPrefix_cut[of "[]" c ys v] by (cases v) (auto simp: HasPrefix_Cons)
next
  case (Cons x xs)
  then show ?case using HasPrefix_cut[of "x # xs" c ys v] by auto
qed

lemma Contains_take: "Contains (take n s) v \<Longrightarrow> Contains s v"
proof (induction s arbitrary: n)
  case (Cons c s)
  then show ?case
  proof (cases n)
    case (Suc m)
    with Cons.prems have "HasPrefix (c # take m s) v \<or> Contains (take m s) v" by simp
    then show ?thesis
    proof
      assume "HasPrefix (c # take m s) v"
      then have "HasPrefix ((c # take m s) @ drop m s) v" by (rule HasPrefix_append)
      then show ?thesis by simp
    next
      assume "Contains (take m s) v"
      with Cons.IH show ?thesis by simp
    qed
  qed (cases v; simp add: HasPrefix_def)
qed simp

section \<open>Redaction\<close>

lemma Redact_prefix:
  assumes "HasPrefix (Redact ps s) q" "CHR ''['' \<notin> set q"
  shows "HasPrefix s q"
  using assms
proof (induction ps s arbitrary: q rule: Redact.induct)
  case (2 ps c s)
  show ?case
  proof (cases q)
    case (Cons a q')
    show ?thesis
    proof (cases "find (\<lambda>p. p \<noteq> [] \<and> HasPrefix (c # s) p) ps")
      case None
      then have "HasPrefix (Redact ps s) q'" "a = c" using 2(3) Cons by (simp_all add: HasPrefix_Cons)
      with 2(1)[OF None] 2(4) Cons show ?thesis by (simp add: HasPrefix_Cons)
    next
      case (Some p)
      with 2(3,4) Cons show ?thesis by (simp add: HasPrefix_Cons)
    qed
  qed simp
qed simp

definition inconspicuous :: "string \<Rightarrow> bool" where
  "inconspicuous v = (v \<noteq> [] \<and> list_all (\<lambda>c. c \<notin> set (''[]'' @ newline)) v
     \<and> \<not> list_ex (\<lambda>w. Contains w v) [''REDACTED'', ''stdout'', ''stderr'', ''logs truncated''])"

lemma inconspicuousD:
  assumes "inconspicuous v"
  shows "v \<noteq> []" "CHR ''['' \<notin> set v" "CHR '']'' \<notin> set v" "CHR 0x0A \<notin> set v"
    "\<not> Contains ''REDACTED'' v" "\<not> Contains ''stdout'' v" "\<not> Contains ''stderr'' v" "\<not> Contains ''logs truncated'' v"
  using assms by (auto simp: inconspicuous_def list_all_iff)

lemma Contains_Nil: "Contains [] v \<longleftrightarrow> v = []"
  by simp

lemma bracketed:
  assumes "Contains (''['' @ w @ '']'' @ t) v" "inconspicuous v"
  shows "Contains w v \<or> Contains t v"
proof -
  note v = inconspicuousD[OF assms(2)]
  from assms(1) have "Contains ([] @ CHR ''['' # (w @ CHR '']'' # t)) v" by simp
  from Contains_split[OF this v(2)] have "Contains (w @ CHR '']'' # t) v" using v(1) by simp
  then show ?thesis by (rule Contains_split[OF _ v(3)])
qed

lemma Redact_hides:
  assumes "v \<in> set ps" "inconspicuous v"
  shows "\<not> Contains (Redact ps s) v"
  using assms
proof (induction ps s rule: Redact.induct)
  case (1 ps)
  then show ?case using inconspicuousD(1) by simp
next
  case (2 ps c s)
  show ?case
  proof (cases "find (\<lambda>p. p \<noteq> [] \<and> HasPrefix (c # s) p) ps")
    case None
    then have "\<not> HasPrefix (c # s) v" using 2(3) inconspicuousD(1)[OF 2(4)] by (auto simp: find_None_iff)
    then have "\<not> HasPrefix (Redact ps (c # s)) v" using Redact_prefix inconspicuousD(2)[OF 2(4)] by blast
    with None 2(1)[OF None 2(3,4)] show ?thesis by simp
  next
    case (Some p)
    have "Contains ''REDACTED'' v \<or> Contains (Redact ps (drop (length p - 1) s)) v" if "Contains (Redact ps (c # s)) v"
      using that bracketed[of "''REDACTED''" "Redact ps (drop (length p - 1) s)" v] 2(4) Some by simp
    with 2(2)[OF Some 2(3,4)] inconspicuousD(5)[OF 2(4)] show ?thesis by blast
  qed
qed

lemma secret_is_pattern: "v \<in> set values \<Longrightarrow> v \<noteq> [] \<Longrightarrow> v \<in> set (newLogRedactor printable values)"
  by (auto simp: newLogRedactor_def secret_patterns_def)

section \<open>Logs\<close>

lemma log_section_hides:
  assumes "inconspicuous v" "\<not> Contains name v" "\<not> Contains text v" "\<not> Contains t v"
  shows "\<not> Contains (log_section name text @ t) v"
proof (cases "text = []")
  case False
  note v = inconspicuousD[OF assms(1)]
  have tail: "\<not> Contains (text @ (if HasSuffix text newline then [] else newline) @ t) v"
  proof (cases "HasSuffix text newline")
    case True
    then obtain pre where ends: "text = pre @ newline"
      unfolding HasSuffix_def by (metis append_take_drop_id)
    have "\<not> Contains pre v"
      using assms(3) Contains_take[of "length pre" "text" v] by (auto simp: ends)
    with assms(4) Contains_split[of pre "CHR 0x0A" t v] v(4) True show ?thesis by (auto simp: ends)
  next
    case False
    with assms(3,4) Contains_split[of "text" "CHR 0x0A" t v] v(4) show ?thesis by auto
  qed
  have "\<not> Contains (newline @ text @ (if HasSuffix text newline then [] else newline) @ t) v"
    using tail Contains_split[of "[]" "CHR 0x0A" "text @ (if HasSuffix text newline then [] else newline) @ t" v] v(1,4) by auto
  with bracketed[OF _ assms(1), of name "newline @ text @ (if HasSuffix text newline then [] else newline) @ t"] assms(2) False
  show ?thesis by (auto simp: log_section_def)
qed (use assms in \<open>simp add: log_section_def\<close>)

lemma formatLogs_hides:
  assumes "inconspicuous v" "\<not> Contains a v" "\<not> Contains b v"
  shows "\<not> Contains (formatLogs a b) v"
proof -
  note v = inconspicuousD[OF assms(1)]
  have "\<not> Contains (log_section ''stderr'' b) v"
    using log_section_hides[OF assms(1) v(7) assms(3), of "[]"] v(1) by simp
  then have all: "\<not> Contains (log_section ''stdout'' a @ log_section ''stderr'' b) v"
    by (rule log_section_hides[OF assms(1) v(6) assms(2)])
  have "\<not> Contains (take maxLogs w @ truncated_marker) v" if "\<not> Contains w v" for w
  proof
    assume "Contains (take maxLogs w @ truncated_marker) v"
    then have "Contains (take maxLogs w @ CHR 0x0A # (''['' @ ''logs truncated'' @ '']'' @ newline)) v"
      by (simp add: truncated_marker_def)
    from Contains_split[OF this v(4)] have "Contains (take maxLogs w) v \<or> Contains (''['' @ ''logs truncated'' @ '']'' @ newline) v" .
    moreover have "\<not> Contains newline v" using Contains_split[of "[]" "CHR 0x0A" "[]" v] v(1,4) by auto
    ultimately show False using bracketed[OF _ assms(1), of "''logs truncated''" newline] v(8) Contains_take that by blast
  qed
  with all show ?thesis unfolding formatLogs_def Let_def by presburger
qed

section \<open>Injected secrets\<close>

lemma resolved_value_Inr: "resolved_value m k msg = Inr v \<longleftrightarrow> map_of m k = Some v \<and> v \<noteq> []"
  by (auto simp: resolved_value_def guardR_eq_Inr split: option.splits)

lemma injected_targets:
  assumes "foldR (\<lambda>target acc. let source = src target in
      bindR (resolved_value resolved source (msg target source)) (\<lambda>v. Inr (AList.update target v acc))) ts vals = Inr all"
  shows "(t \<in> set ts \<longrightarrow> map_of all t = map_of resolved (src t)) \<and> (t \<notin> set ts \<longrightarrow> map_of all t = map_of vals t)"
  using assms
proof (induction ts arbitrary: vals)
  case (Cons u ts)
  then obtain v where v: "map_of resolved (src u) = Some v"
    and rest: "foldR (\<lambda>target acc. let source = src target in
      bindR (resolved_value resolved source (msg target source)) (\<lambda>v. Inr (AList.update target v acc))) ts (AList.update u v vals) = Inr all"
    by (auto simp: bindR_eq_Inr resolved_value_Inr Let_def)
  from Cons.IH[OF rest] v show ?case by (auto simp: update_conv')
qed simp

lemma secret_injected:
  assumes "resolveRuntimeEnvironment resolver r = Inr env" "(target, source) \<in> set (rn_secrets r)"
    "distinct (map fst (rn_secrets r))"
  obtains v where "map_of (re_values env) target = Some v" "v \<noteq> []" "v \<in> set (re_secrets env)"
proof -
  let ?names = "sort (remdups (map snd (rn_secrets r)))"
  from assms(1,2) obtain resolve resolved sv al where
    sv: "mapR (\<lambda>name. resolved_value resolved name (''runtime secret '' @ quoted name @ '' was not resolved'')) ?names = Inr sv"
    and al: "foldR (\<lambda>target acc. let source = the (map_of (rn_secrets r) target) in
               bindR (resolved_value resolved source (''runtime secret '' @ quoted target @ '' references unavailable secret '' @ quoted source))
                 (\<lambda>v. Inr (AList.update target v acc))) (sort (map fst (rn_secrets r))) (promotionEnvironment r) = Inr al"
    and env: "env = \<lparr>re_values = al, re_secrets = sv\<rparr>"
    unfolding resolveRuntimeEnvironment_def by (auto simp: Let_def bindR_eq_Inr split: option.splits if_splits)
  have source: "map_of (rn_secrets r) target = Some source" using assms(2,3) by simp
  have "source \<in> set ?names" using assms(2) by force
  from mapR_out[OF sv this] obtain v where v: "v \<in> set sv" "map_of resolved source = Some v" "v \<noteq> []"
    by (auto simp: resolved_value_Inr)
  have "target \<in> set (sort (map fst (rn_secrets r)))" using assms(2) by force
  with injected_targets[OF al, of target] v source have "map_of al target = Some v" by simp
  with v env show thesis by (intro that) simp_all
qed

lemma process_Execute_logs:
  assumes "process_Execute resolver h mx run = (res, err)"
  shows "at_logs res = [] \<or> (\<exists>env a b. resolveRuntimeEnvironment resolver (mf_runtime (rr_manifest run)) = Inr env
    \<and> at_logs res = formatLogs (Redact (newLogRedactor (rh_printable h) (re_secrets env)) a)
        (Redact (newLogRedactor (rh_printable h) (re_secrets env)) b))"
proof -
  have fin: "at_logs (fst (finish_attempt h mx run red sp out)) = formatLogs (Redact red (po_stdout out)) (Redact red (po_stderr out))"
    for red sp out
    by (auto simp: finish_attempt_def Let_def logs_only_def read_result_def bindR_eq_Inr guardR_eq_Inr split: option.splits sum.splits)
  from assms show ?thesis
    unfolding process_Execute_def Let_def
    by (auto simp: logs_only_def bindR_eq_Inr split: if_splits sum.splits option.splits) (metis fin fst_conv)+
qed

text \<open>
  The logs of an attempt do not show the secrets it was given. Every secret the manifest asks
  for is injected under its variable with a value that is not empty, and that value does not occur
  in the logs the process executor returns, whatever the process printed and however the attempt
  ended. The value must not be part of the words the log itself is built from, nor contain a
  bracket or a line break.
\<close>

lemma hidden_secret:
  assumes "process_Execute resolver h maxStateBytes run = (res, err)"
    and "resolveRuntimeEnvironment resolver (mf_runtime (rr_manifest run)) = Inr env"
    and "(target, source) \<in> set (rn_secrets (mf_runtime (rr_manifest run)))"
    and "distinct (map fst (rn_secrets (mf_runtime (rr_manifest run))))"
  shows "\<exists>v. map_of (re_values env) target = Some v \<and> v \<noteq> []
    \<and> (inconspicuous v \<longrightarrow> \<not> Contains (at_logs res) v)"
proof -
  from secret_injected[OF assms(2,3,4)] obtain v where
    v: "map_of (re_values env) target = Some v" "v \<noteq> []" "v \<in> set (re_secrets env)" .
  have "\<not> Contains (at_logs res) v" if i: "inconspicuous v"
    using process_Execute_logs[OF assms(1)]
  proof
    assume "at_logs res = []"
    with v(2) show ?thesis by simp
  next
    let ?red = "newLogRedactor (rh_printable h) (re_secrets env)"
    assume "\<exists>env a b. resolveRuntimeEnvironment resolver (mf_runtime (rr_manifest run)) = Inr env
      \<and> at_logs res = formatLogs (Redact (newLogRedactor (rh_printable h) (re_secrets env)) a)
          (Redact (newLogRedactor (rh_printable h) (re_secrets env)) b)"
    then obtain a b where "at_logs res = formatLogs (Redact ?red a) (Redact ?red b)" using assms(2) by auto
    moreover have "v \<in> set ?red" using v(2,3) by (intro secret_is_pattern)
    ultimately show ?thesis using formatLogs_hides[OF i] Redact_hides[OF _ i] by simp
  qed
  with v show ?thesis by blast
qed

section \<open>Approvals that can be answered\<close>

lemma foldR_step: "foldR f xs s = Inr s' \<Longrightarrow> x \<in> set xs \<Longrightarrow> \<exists>t t'. f x t = Inr t'"
  by (induction xs arbitrary: s) (auto simp: bindR_eq_Inr)

lemma foldR_total: "(\<And>x s. x \<in> set xs \<Longrightarrow> \<exists>s'. f x s = Inr s') \<Longrightarrow> \<exists>s'. foldR f xs s = Inr s'"
proof (induction xs arbitrary: s)
  case (Cons x xs)
  from Cons.prems[of x s] obtain t where "f x s = Inr t" by auto
  moreover from Cons.IH[of t] Cons.prems obtain s' where "foldR f xs t = Inr s'" by auto
  ultimately show ?case by simp
qed simp

lemma option_fault_None: "option_fault seen xs = None \<Longrightarrow> x \<in> set xs \<Longrightarrow> TrimSpace x \<noteq> []"
  by (induction xs arbitrary: seen) (auto split: if_splits)

lemma field_check_facts:
  assumes "field_check jpeg f acc = Inr acc'"
  shows "af_type f \<in> {''text'', ''textarea'', ''number'', ''boolean'', ''image'', ''select''}"
    and "af_type f = ''select'' \<Longrightarrow> af_options f \<noteq> [] \<and> (\<forall>x \<in> set (af_options f). TrimSpace x \<noteq> [])"
proof -
  from assms obtain n n' where t: "field_type_check jpeg f n = Inr n'"
    by (auto simp: field_check_def guardR_eq_Inr bindR_eq_Inr split: prod.splits)
  then show "af_type f \<in> {''text'', ''textarea'', ''number'', ''boolean'', ''image'', ''select''}"
    unfolding field_type_check_def by (auto split: if_splits)
  assume "af_type f = ''select''"
  with t have "af_options f \<noteq> []" "option_fault [] (af_options f) = None"
    unfolding field_type_check_def by (auto simp: guardR_eq_Inr split: if_splits option.splits)
  then show "af_options f \<noteq> [] \<and> (\<forall>x \<in> set (af_options f). TrimSpace x \<noteq> [])" using option_fault_None by blast
qed

lemma validated_request_parts:
  assumes "validateApprovalRequest jpeg v now = Inr ()"
  shows "ar_actions v \<noteq> []" "f \<in> set (ar_fields v) \<Longrightarrow> \<exists>acc acc'. field_check jpeg f acc = Inr acc'"
    "a \<in> set (ar_actions v) \<Longrightarrow> \<exists>seen seen'. action_check a seen = Inr seen'"
    "now \<le> ar_expires_at v" "ar_expires_at v \<le> now + maxContinuationDelay" "length (ar_fields v) \<le> 16"
proof -
  from assms obtain acc seen where fields: "foldR (field_check jpeg) (ar_fields v) ([], 0) = Inr acc"
    and actions: "foldR action_check (ar_actions v) [] = Inr seen"
    unfolding validateApprovalRequest_def guardR_eq_Inr bindR_eq_Inr by blast
  show "f \<in> set (ar_fields v) \<Longrightarrow> \<exists>acc acc'. field_check jpeg f acc = Inr acc'" using foldR_step[OF fields] by blast
  show "a \<in> set (ar_actions v) \<Longrightarrow> \<exists>seen seen'. action_check a seen = Inr seen'" using foldR_step[OF actions] by blast
qed (use assms in \<open>auto simp: validateApprovalRequest_def guardR_eq_Inr\<close>)

text \<open>An answer that satisfies any declared field.\<close>

definition sample_answer :: "approval_field \<Rightarrow> json" where
  "sample_answer f =
     (if af_type f = ''number'' then JNumber 0 else if af_type f = ''boolean'' then JBool True
      else if af_type f = ''select'' then JString (hd (af_options f)) else JString ''x'')"

definition sample_answers :: "approval_field list \<Rightarrow> json_map" where
  "sample_answers fs = map (\<lambda>f. (af_id f, sample_answer f)) (filter (\<lambda>f. af_type f \<noteq> ''image'') (declarations fs))"

lemma trim_x: "TrimSpace ''x'' = ''x''" by code_simp

lemma answer_accepted:
  assumes "field_check jpeg f acc = Inr acc'" "given_value supplied f = sample_answer f \<or> af_type f = ''image''"
  shows "\<exists>v. response_field selected supplied f = Inr v"
proof (cases "af_type f = ''image''")
  case False
  note facts = field_check_facts[OF assms(1)]
  have g: "given_value supplied f = sample_answer f" using assms(2) False by blast
  have "rune_count ''x'' \<le> 4000" by (simp add: rune_count_def)
  with facts False trim_x have "\<not> blank (sample_answer f) \<and> (\<exists>w. typed_value f (sample_answer f) = Inr w)"
    unfolding sample_answer_def blank_def typed_value_def by (auto simp: guardR_def)
  moreover from this have "sample_answer f \<noteq> JNull" by (auto simp: blank_def)
  ultimately show ?thesis using False by (auto simp: response_field_def g guardR_def)
qed (simp add: response_field_def)

lemma given_sample:
  assumes "f \<in> set (declarations fs)" "af_type f \<noteq> ''image''"
  shows "given_value (sample_answers fs) f = sample_answer f"
proof -
  let ?gs = "filter (\<lambda>f. af_type f \<noteq> ''image'') (declarations fs)"
  have "distinct (map af_id ?gs)" by (rule distinct_map_filter[OF declarations_distinct])
  then have "distinct (map fst (sample_answers fs))" by (simp add: sample_answers_def comp_def)
  moreover have "(af_id f, sample_answer f) \<in> set (sample_answers fs)" using assms by (auto simp: sample_answers_def)
  ultimately show ?thesis by (simp add: given_value_def)
qed

lemma sample_answers_accepted:
  assumes "validateApprovalRequest jpeg v now = Inr ()" "p_fields p = ar_fields v" "p_actions p = ar_actions v"
    "a \<in> set (ar_actions v)"
  shows "\<exists>given. validateApprovalResponse p (aa_id a) (sample_answers (p_fields p)) = Inr given"
proof -
  let ?ds = "declarations (p_fields p)"
  obtain selected where sel: "find (\<lambda>x. aa_id x = aa_id a) (p_actions p) = Some selected"
    using assms(3,4) by (cases "find (\<lambda>x. aa_id x = aa_id a) (p_actions p)") (auto simp: find_eq_None)
  have "supplied_fault (p_fields p) k = None" if "(k, x) \<in> set (sample_answers (p_fields p))" for k x
  proof -
    from that obtain f where f: "f \<in> set ?ds" "af_type f \<noteq> ''image''" "k = af_id f" by (auto simp: sample_answers_def)
    then have "declared_field (p_fields p) k = Some f" by (simp add: declared_field_iff)
    with f(2) show ?thesis by (simp add: supplied_fault_def)
  qed
  then have "first_failure (map (\<lambda>(k, v). (supplied_fault (p_fields p) k \<noteq> None, the (supplied_fault (p_fields p) k)))
      (sample_answers (p_fields p))) = None"
    by (auto simp: first_failure_None)
  moreover have "\<exists>res. foldR (collect_field selected (sample_answers (p_fields p))) ?ds [] = Inr res"
  proof (rule foldR_total)
    fix f acc assume f: "f \<in> set ?ds"
    then have "f \<in> set (ar_fields v)" using declarations_sub[of "p_fields p"] assms(2) by auto
    from validated_request_parts(2)[OF assms(1) this] obtain s s' where "field_check jpeg f s = Inr s'" by blast
    from answer_accepted[OF this, of "sample_answers (p_fields p)" selected] given_sample[OF f]
    obtain x where "response_field selected (sample_answers (p_fields p)) f = Inr x" by blast
    then show "\<exists>s'. collect_field selected (sample_answers (p_fields p)) f acc = Inr s'" by (simp add: collect_field_def)
  qed
  ultimately show ?thesis using sel by (simp add: validateApprovalResponse_def)
qed

section \<open>Run controls\<close>

lemma notification_checks:
  assumes "foldR notification_check ns (seen, acc) = Inr (seen', acc')"
    and "distinct seen" "set seen = nr_key ` set acc" "distinct (map nr_key acc)"
  shows "length acc' = length acc + length ns \<and> distinct (map nr_key acc')
    \<and> (\<forall>n \<in> set acc'. n \<in> set acc \<or> controlIdentifier (nr_key n) \<and> nr_title n \<noteq> [] \<and> rune_count (nr_title n) \<le> 120
        \<and> nr_body n \<noteq> [] \<and> rune_count (nr_body n) \<le> 1000 \<and> nr_priority n \<in> {''low'', ''default'', ''high''})"
  using assms
proof (induction ns arbitrary: seen acc)
  case (Cons n ns)
  let ?m = "n\<lparr>nr_title := TrimSpace (nr_title n), nr_body := TrimSpace (nr_body n),
    nr_priority := (if nr_priority n = [] then ''default'' else nr_priority n)\<rparr>"
  from Cons.prems(1) obtain mid where step: "notification_check n (seen, acc) = Inr mid"
    and tail: "foldR notification_check ns mid = Inr (seen', acc')" by (auto simp: bindR_eq_Inr)
  note body = step[unfolded notification_check_def Let_def guardR_eq_Inr prod.case]
  have ok: "controlIdentifier (nr_key n)" "nr_key n \<notin> set seen"
    "TrimSpace (nr_title n) \<noteq> []" "rune_count (TrimSpace (nr_title n)) \<le> 120" "TrimSpace (nr_body n) \<noteq> []"
    "rune_count (TrimSpace (nr_body n)) \<le> 1000"
    "(if nr_priority n = [] then ''default'' else nr_priority n) \<in> {''low'', ''default'', ''high''}"
    and mid: "mid = (nr_key n # seen, acc @ [?m])"
    using body unfolding not_less de_Morgan_disj not_not sum.inject by (elim conjE, (assumption | simp only:))+
  have rest: "foldR notification_check ns (nr_key n # seen, acc @ [?m]) = Inr (seen', acc')" using tail mid by simp
  have "distinct (nr_key n # seen)" "set (nr_key n # seen) = nr_key ` set (acc @ [?m])" "distinct (map nr_key (acc @ [?m]))"
    using Cons.prems(2-4) ok(2) by auto
  from Cons.IH[OF rest this] ok show ?case by (auto split del: if_split)
qed auto

lemma check_option_Inr: "check_option f x = Inr y \<longleftrightarrow> (x = None \<and> y = None \<or> (\<exists>v w. x = Some v \<and> f v = Inr w \<and> y = Some w))"
  by (auto simp: check_option_def bindR_eq_Inr split: option.splits)

section \<open>Bounded buffers\<close>

definition write_all :: "string list \<Rightarrow> limited_buffer" where
  "write_all ws = foldl (\<lambda>b w. limited_write w b) \<lparr>lb_buffer = [], lb_truncated = False\<rparr> ws"

lemma write_all_snoc: "write_all (ws @ [w]) = limited_write w (write_all ws)"
  by (simp add: write_all_def)

section \<open>Properties\<close>

definition sample_host :: runner_host where
  "sample_host = \<lparr>rh_run_directory = Inr ''/tmp/werkt-run-1'', rh_write = (\<lambda>_ _. None),
     rh_launch = (\<lambda>_ _ _. \<lparr>po_stdout = ''token=swordfish!'', po_stderr = [], po_error = None, po_ended = StillRunning,
       po_result = Missing, po_control = Contents ''{}'', po_state = Contents ''{}''\<rparr>),
     rh_lookup_env = (\<lambda>_. None), rh_now = 0, rh_event_json = (\<lambda>_. ''{}''), rh_state_json = (\<lambda>_. ''{}''),
     rh_parse = (\<lambda>s. if s = ''{}'' then Some (JObject []) else None),
     rh_decode = (\<lambda>s. if s = ''{}'' then Some empty_control else None), rh_trailing = (\<lambda>_. False),
     rh_raw_fields = (\<lambda>_. Some []), rh_jpeg = (\<lambda>_. None), rh_printable = (\<lambda>_. False)\<rparr>"

text \<open>
  C37: Every approval a run requests can be answered. When the runner accepted an approval request,
  the approval recorded for it has at least one action, each of them is a decision the store knows,
  and for each of them there is a response the store accepts, whatever fields are required.
\<close>

theorem requested_approval_answerable:
  assumes "validateApprovalRequest jpeg v now = Inr ()"
  shows "p_actions (requested_approval amb i run v) \<noteq> []
    \<and> (\<forall>a \<in> set (p_actions (requested_approval amb i run v)). decision_status (aa_id a) \<noteq> []
        \<and> (\<exists>supplied given. validateApprovalResponse (requested_approval amb i run v) (aa_id a) supplied = Inr given))"
proof -
  let ?p = "requested_approval amb i run v"
  have p: "p_fields ?p = ar_fields v" "p_actions ?p = ar_actions v" by (simp_all add: requested_approval_def)
  have "decision_status (aa_id a) \<noteq> []" if "a \<in> set (ar_actions v)" for a
    using validated_request_parts(3)[OF assms that] by (auto simp: action_check_def guardR_eq_Inr decision_status_def)
  moreover have "\<exists>supplied given. validateApprovalResponse ?p (aa_id a) supplied = Inr given" if "a \<in> set (ar_actions v)" for a
    using sample_answers_accepted[OF assms p that] by blast
  ultimately show ?thesis using validated_request_parts(1)[OF assms] p(2) by simp
qed

definition sample_request :: approval_request where
  "sample_request = \<lparr>ar_key = ''budget'', ar_title = ''Budget'', ar_description = [], ar_expires_at = hour,
     ar_fields = [\<lparr>af_id = ''region'', af_label = ''Region'', af_type = ''select'', af_required = True, af_value = JNull,
       af_description = [], af_options = [''eu'', ''us'']\<rparr>],
     ar_actions = [\<lparr>aa_id = ''approve'', aa_label = ''Approve'', aa_style = [], aa_requires_fields = True\<rparr>]\<rparr>"

theorem requested_approval_answerable_witness:
  "\<exists>supplied given. validateApprovalResponse (requested_approval (sample_ambient 1 0) ''approval_1'' sample_run sample_request)
     ''approve'' supplied = Inr given"
proof -
  have "validateApprovalRequest (\<lambda>_. None) sample_request 0 = Inr ()" by code_simp
  from requested_approval_answerable[OF this, of "sample_ambient 1 0" "''approval_1''" sample_run]
  show ?thesis by (simp add: requested_approval_def sample_request_def)
qed

text \<open>
  What a run may ask for is bounded. An accepted run control defers by at most thirty days, never
  into the past, and with data; its approval expires within thirty days and has at most sixteen
  fields; it has at most eight notifications with distinct keys, each with a title of at most 120
  and a body of at most 1000 characters, neither blank, and a known priority.
\<close>

lemma accepted_run_control_bounded:
  assumes "validateRunControl decode trailing raw_fields jpeg value now = Inr c"
  shows "(\<forall>r. rc_defer c = Some r \<longrightarrow> controlIdentifier (dr_key r) \<and> now \<le> dr_until r
        \<and> dr_until r \<le> now + 30 * 24 * hour \<and> dr_data r \<noteq> None)
    \<and> (\<forall>v. rc_approval c = Some v \<longrightarrow> now \<le> ar_expires_at v \<and> ar_expires_at v \<le> now + 30 * 24 * hour
        \<and> length (ar_fields v) \<le> 16)
    \<and> length (rc_notifications c) \<le> 8 \<and> distinct (map nr_key (rc_notifications c))
    \<and> (\<forall>n \<in> set (rc_notifications c). controlIdentifier (nr_key n) \<and> nr_title n \<noteq> [] \<and> rune_count (nr_title n) \<le> 120
        \<and> nr_body n \<noteq> [] \<and> rune_count (nr_body n) \<le> 1000 \<and> nr_priority n \<in> {''low'', ''default'', ''high''})"
proof -
  from assms obtain control where dec: "decode value = Some control"
    unfolding validateRunControl_def by (auto simp: guardR_eq_Inr split: option.splits)
  from assms[unfolded validateRunControl_def dec option.case guardR_eq_Inr bindR_eq_Inr]
  obtain deferral approval res where d: "check_option (defer_check now) (rc_defer control) = Inr deferral"
    and a: "check_option (\<lambda>v. bindR (validateApprovalRequest jpeg v now) (\<lambda>_. Inr v)) (rc_approval control) = Inr approval"
    and few: "\<not> length (rc_notifications control) > maxNotificationsPerRun"
    and n: "foldR notification_check (rc_notifications control) ([], []) = Inr res"
    and c: "(case res of (_, ns) \<Rightarrow> Inr (control\<lparr>rc_defer := deferral, rc_notifications := ns\<rparr>)) = (Inr c :: string + run_control)"
    by blast
  obtain seen ns where res: "res = (seen, ns)" by (cases res)
  have c': "rc_defer c = deferral" "rc_approval c = rc_approval control" "rc_notifications c = ns"
    using c res by auto
  have "controlIdentifier (dr_key r) \<and> now \<le> dr_until r \<and> dr_until r \<le> now + 30 * 24 * hour \<and> dr_data r \<noteq> None"
    if "deferral = Some r" for r
    using d that by (auto simp: check_option_Inr defer_check_def guardR_eq_Inr maxContinuationDelay_def split: option.splits)
  moreover have "now \<le> ar_expires_at v \<and> ar_expires_at v \<le> now + 30 * 24 * hour \<and> length (ar_fields v) \<le> 16"
    if "rc_approval control = Some v" for v
  proof -
    from a that have "validateApprovalRequest jpeg v now = Inr ()" by (auto simp: check_option_Inr bindR_eq_Inr)
    from validated_request_parts(4-6)[OF this] show ?thesis by (simp add: maxContinuationDelay_def)
  qed
  moreover from notification_checks[OF n[unfolded res]] have "length ns = length (rc_notifications control)"
    "distinct (map nr_key ns)" "\<forall>n \<in> set ns. controlIdentifier (nr_key n) \<and> nr_title n \<noteq> [] \<and> rune_count (nr_title n) \<le> 120
        \<and> nr_body n \<noteq> [] \<and> rune_count (nr_body n) \<le> 1000 \<and> nr_priority n \<in> {''low'', ''default'', ''high''}" by simp_all
  moreover have "length (rc_notifications control) \<le> 8" using few by (simp add: maxNotificationsPerRun_def)
  ultimately show ?thesis unfolding c' by (intro conjI allI impI) (simp_all only: c', blast+)
qed

definition sample_asking :: run_control where
  "sample_asking = \<lparr>rc_defer = Some \<lparr>dr_key = ''again'', dr_until = minute, dr_data = None\<rparr>, rc_approval = Some sample_request,
     rc_notifications = [\<lparr>nr_key = ''n1'', nr_title = '' Hello '', nr_body = ''World'', nr_priority = []\<rparr>]\<rparr>"

definition sample_accepted :: run_control where
  "sample_accepted = sample_asking\<lparr>rc_defer := Some \<lparr>dr_key = ''again'', dr_until = minute, dr_data = Some (JObject [])\<rparr>,
     rc_notifications := [\<lparr>nr_key = ''n1'', nr_title = ''Hello'', nr_body = ''World'', nr_priority = ''default''\<rparr>]\<rparr>"

lemma sample_checked:
  "validateApprovalRequest (\<lambda>_. None) sample_request 0 = Inr ()"
  "defer_check 0 \<lparr>dr_key = ''again'', dr_until = minute, dr_data = None\<rparr> = Inr \<lparr>dr_key = ''again'', dr_until = minute, dr_data = Some (JObject [])\<rparr>"
  "notification_check \<lparr>nr_key = ''n1'', nr_title = '' Hello '', nr_body = ''World'', nr_priority = []\<rparr> ([], [])
    = Inr ([''n1''], [\<lparr>nr_key = ''n1'', nr_title = ''Hello'', nr_body = ''World'', nr_priority = ''default''\<rparr>])"
  by code_simp+

text \<open>
  A build log keeps the first megabyte of what was written. However the output is cut into
  writes that are not empty, the buffer holds the beginning of their concatenation up to the limit,
  and it is marked as truncated exactly if something was dropped.
\<close>

lemma limited_buffer_keeps_prefix:
  assumes "\<forall>w \<in> set ws. w \<noteq> []"
  shows "lb_buffer (write_all ws) = take maxLogs (concat ws)
    \<and> (lb_truncated (write_all ws) \<longleftrightarrow> maxLogs < length (concat ws))"
  using assms
proof (induction ws rule: rev_induct)
  case (snoc w ws)
  then have IH: "lb_buffer (write_all ws) = take maxLogs (concat ws)"
    "lb_truncated (write_all ws) \<longleftrightarrow> maxLogs < length (concat ws)" and w: "w \<noteq> []" by auto
  show ?case
  proof (cases "length (concat ws) < maxLogs")
    case True
    with IH show ?thesis by (auto simp: write_all_snoc limited_write_def)
  next
    case False
    with IH w show ?thesis by (auto simp: write_all_snoc limited_write_def)
  qed
qed (simp add: write_all_def)

end
