(* ===== verification/ProvenanceProofs.thy ===== *)
theory ProvenanceProofs
  imports Provenance Samples
begin

text \<open>
  What an attestation guarantees: a freshly attested and written artifact loads and verifies, the
  metadata does not change the digest, and the input of the digest determines every path,
  permission and content, so one attestation cannot verify two different artifacts unless the hash
  collides.
\<close>

section \<open>The digest input is unambiguous\<close>

lemma nul_cut: "a @ [z] @ x = b @ [z] @ y \<Longrightarrow> z \<notin> set a \<Longrightarrow> z \<notin> set b \<Longrightarrow> a = b \<and> x = y"
  by (induction a arbitrary: b) (case_tac b; auto)+

lemma digit_char_inject: "m < 10 \<Longrightarrow> n < 10 \<Longrightarrow> digit_char m = digit_char n \<longleftrightarrow> m = n"
  by (metis digit_value_char)

lemma octal4_inject:
  assumes "m < 4096" "n < 4096" "octal4 m = octal4 n" shows "m = n"
proof -
  from assms(3) have same: "m div 512 mod 8 = n div 512 mod 8" "m div 64 mod 8 = n div 64 mod 8" "m div 8 mod 8 = n div 8 mod 8"
    "m mod 8 = n mod 8" by (auto simp: octal4_def digit_char_inject)
  have "k = k div 512 mod 8 * 512 + k div 64 mod 8 * 64 + k div 8 mod 8 * 8 + k mod 8" if "k < 4096" for k :: nat
  proof -
    have top: "k div 512 mod 8 = k div 512" using that by simp
    have "k = k div 8 * 8 + k mod 8" "k div 8 = k div 64 * 8 + k div 8 mod 8" "k div 64 = k div 512 * 8 + k div 64 mod 8"
      using div_mult2_eq[of k 8 8] div_mult2_eq[of k 64 8] div_mult_mod_eq[of k 8] div_mult_mod_eq[of "k div 8" 8]
        div_mult_mod_eq[of "k div 64" 8] by simp_all
    then show ?thesis unfolding top by linarith
  qed
  from this[OF assms(1)] this[OF assms(2)] same show ?thesis by simp
qed

lemma digit_not_nul: "k < 10 \<Longrightarrow> digit_char k \<noteq> CHR 0x00"
proof
  assume "k < 10" "digit_char k = CHR 0x00"
  then have "of_char (digit_char k) = (0::nat)" by simp
  with \<open>k < 10\<close> show False by (simp add: digit_char_def)
qed

lemma octal4_no_nul: "CHR 0x00 \<notin> set (octal4 m)"
proof -
  have "digit_char (k mod 8) \<noteq> CHR 0x00" for k by (rule digit_not_nul) (use mod_less_divisor[of 8 k] in linarith)
  then show ?thesis by (simp add: octal4_def) metis
qed

lemma decimal_no_nul: "CHR 0x00 \<notin> set (decimal n)"
proof (induction n rule: decimal.induct)
  case (1 n)
  show ?case
    by (subst decimal.simps) (use 1 digit_not_nul[of n] digit_not_nul[of "n mod 10"] in auto)
qed

definition proper_file :: "string \<times> nat \<times> string \<Rightarrow> bool" where
  "proper_file f = (CHR 0x00 \<notin> set (fst f) \<and> fst (snd f) < 512)"

lemma digest_chunk_cut:
  assumes "proper_file f" "proper_file g" "digest_chunk f @ x = digest_chunk g @ y"
  shows "f = g \<and> x = y"
proof -
  obtain p m c q n e where fg: "f = (p, m, c)" "g = (q, n, e)" by (metis prod_cases3)
  let ?z = "[CHR 0x00]"
  have "p @ ?z @ (octal4 m @ ?z @ decimal (length c) @ ?z @ c @ ?z @ x) = q @ ?z @ (octal4 n @ ?z @ decimal (length e) @ ?z @ e @ ?z @ y)"
    using assms(3) by (simp add: fg digest_chunk_def)
  from nul_cut[OF this] assms(1,2) have "p = q"
    and a: "octal4 m @ ?z @ (decimal (length c) @ ?z @ c @ ?z @ x) = octal4 n @ ?z @ (decimal (length e) @ ?z @ e @ ?z @ y)"
    by (auto simp: proper_file_def fg)
  from nul_cut[OF a octal4_no_nul octal4_no_nul] have "octal4 m = octal4 n"
    and b: "decimal (length c) @ ?z @ (c @ ?z @ x) = decimal (length e) @ ?z @ (e @ ?z @ y)" by auto
  then have "m = n" using assms(1,2) octal4_inject[of m n] by (auto simp: proper_file_def fg)
  from nul_cut[OF b decimal_no_nul decimal_no_nul] have "length c = length e" "c @ ?z @ x = e @ ?z @ y" by auto
  then have "c = e" "x = y" by auto
  with \<open>p = q\<close> \<open>m = n\<close> show ?thesis by (simp add: fg)
qed

lemma digest_input_injective:
  assumes "list_all proper_file fs" "list_all proper_file gs"
    "concat (map digest_chunk fs) = concat (map digest_chunk gs)"
  shows "fs = gs"
  using assms
proof (induction fs arbitrary: gs)
  case Nil
  then show ?case by (cases gs) (auto simp: digest_chunk_def split: prod.splits)
next
  case (Cons f fs)
  then obtain g hs where gs: "gs = g # hs" by (cases gs) (auto simp: digest_chunk_def split: prod.splits)
  with Cons.prems digest_chunk_cut[of f g "concat (map digest_chunk fs)" "concat (map digest_chunk hs)"]
  have "f = g" "concat (map digest_chunk fs) = concat (map digest_chunk hs)" by simp_all
  with Cons.IH[of hs] Cons.prems gs show ?case by simp
qed

section \<open>Metadata is not part of the artifact\<close>

lemma digest_entries_append:
  "digest_entries path (xs @ ys) = bindR (digest_entries path xs) (\<lambda>fs. bindR (digest_entries path ys) (\<lambda>gs. Inr (fs @ gs)))"
proof (induction xs)
  case Nil
  then show ?case by (cases "digest_entries path ys") simp_all
next
  case (Cons x xs)
  obtain name node where x: "x = (name, node)" by (cases x)
  show ?case
    by (cases "digest_entry (if path = [] then name else path @ ''/'' @ name) node"; cases "digest_entries path xs";
        cases "digest_entries path ys") (simp_all add: x Cons del: digest_entry.simps)
qed

lemma digest_written:
  assumes "provenance_Write v tree = Inr tree'"
  shows "artifact_contents tree' = artifact_contents tree" "DigestDirectory sha256 tree' = DigestDirectory sha256 tree"
proof -
  have "digest_entries [] tree' = bindR (digest_entries [] tree) Inr"
    using assms by (auto simp: provenance_Write_def guardR_eq_Inr digest_entries_append)
  then have "digest_entries [] tree' = digest_entries [] tree" by (cases "digest_entries [] tree") simp_all
  then show "artifact_contents tree' = artifact_contents tree" by (simp add: artifact_contents_def)
  then show "DigestDirectory sha256 tree' = DigestDirectory sha256 tree" by (simp add: DigestDirectory_def)
qed

lemma Verify_Inr:
  "Verify cr a tree v = Inr () \<Longrightarrow> DigestDirectory (cr_sha256 cr) tree = Inr (ap_artifact_digest v)"
  by (auto simp: Verify_def guardR_eq_Inr bindR_eq_Inr split: option.splits)

lemma Verify_attested:
  assumes "Attest cr a tree m contentHash = Inr v"
    and "\<And>msg. cr_verify cr (ak_public a) msg (cr_sign cr (ak_private a) msg)"
    and "\<And>msg. length (cr_sign cr (ak_private a) msg) = 64"
    and "rn_resolved_tools (mf_runtime m) = None \<or> ValidToolEnvironment (rn_resolved_tools (mf_runtime m))"
    and "DigestDirectory (cr_sha256 cr) tree' = DigestDirectory (cr_sha256 cr) tree"
  shows "Verify cr a tree' v = Inr ()"
proof -
  from assms(1) obtain digest where d: "DigestDirectory (cr_sha256 cr) tree = Inr digest"
    and v: "ap_artifact_digest v = digest" "ap_algorithm v = AlgorithmEd25519" "ap_signing_key_id v = ak_key_id a"
      "ap_public_key v = b64_encode (ak_public a)" "ap_tool_environment v = rn_resolved_tools (mf_runtime m)"
      "ap_version v = (if rn_resolved_tools (mf_runtime m) \<noteq> None then 2 else 1)"
      "ap_signature v = b64_encode (cr_sign cr (ak_private a) (statementJSON v))"
    by (auto simp: Attest_def bindR_eq_Inr Let_def statementJSON_def statement_fields_def)
  from d assms(5) have "DigestDirectory (cr_sha256 cr) tree' = Inr digest" by simp
  then show ?thesis using assms(2-4) by (auto simp: Verify_def v)
qed

section \<open>Properties\<close>

text \<open>
  C7: A published artifact verifies. If an artifact was attested and the attestation written next to
  it, loading gives that attestation back, and verification accepts it, provided signatures of the
  key verify and are 64 bytes long, the decoder reads what the encoder wrote, and the manifest's tool
  environment, if any, passed the structural check.
\<close>

theorem attested_artifact_verifies:
  assumes "Attest cr a tree m contentHash = Inr v" and "provenance_Write v tree = Inr tree'"
    and "\<And>msg. cr_verify cr (ak_public a) msg (cr_sign cr (ak_private a) msg)"
    and "\<And>msg. length (cr_sign cr (ak_private a) msg) = 64"
    and "decode (provenanceJSON v @ [CHR 0x0A]) = Some v"
    and "rn_resolved_tools (mf_runtime m) = None \<or> ValidToolEnvironment (rn_resolved_tools (mf_runtime m))"
  shows "provenance_Load decode tree' = Inr v \<and> Verify cr a tree' v = Inr ()"
proof
  from assms(2) have fresh: "MetadataDirectory \<notin> fst ` set tree"
    and tree': "tree' = tree @ [(MetadataDirectory, ArtifactDir [(metadataFilename, ArtifactFile 384 (Some (provenanceJSON v @ [CHR 0x0A])))])]"
    by (auto simp: provenance_Write_def guardR_eq_Inr)
  from fresh have "map_of tree MetadataDirectory = None" by (simp add: map_of_eq_None_iff)
  with assms(5) show "provenance_Load decode tree' = Inr v" by (simp add: provenance_Load_def tree' map_add_def)
  show "Verify cr a tree' v = Inr ()"
    by (rule Verify_attested[OF assms(1,3,4,6) digest_written(2)[OF assms(2)]])
qed

text \<open>
  C8: An attestation pins its artifact. If one attestation verifies against two artifacts, their
  digest inputs hash to the same value; unless the hash collides on these two inputs, the artifacts
  have the same files with the same paths, permissions and contents.
\<close>

theorem attestation_pins_artifact:
  assumes "Verify cr a tree v = Inr ()" and "Verify cr a' tree' v = Inr ()"
    and "artifact_contents tree = Inr fs" and "artifact_contents tree' = Inr gs"
    and "list_all proper_file fs" and "list_all proper_file gs"
    and "cr_sha256 cr (concat (map digest_chunk fs)) = cr_sha256 cr (concat (map digest_chunk gs))
      \<longrightarrow> concat (map digest_chunk fs) = concat (map digest_chunk gs)"
  shows "fs = gs"
proof -
  from Verify_Inr[OF assms(1)] Verify_Inr[OF assms(2)]
  have "DigestDirectory (cr_sha256 cr) tree = DigestDirectory (cr_sha256 cr) tree'" by simp
  then have "cr_sha256 cr (concat (map digest_chunk fs)) = cr_sha256 cr (concat (map digest_chunk gs))"
    using assms(3,4) by (simp add: DigestDirectory_def)
  with assms(7) have "concat (map digest_chunk fs) = concat (map digest_chunk gs)" by blast
  from digest_input_injective[OF assms(5,6) this] show ?thesis .
qed

section \<open>Examples\<close>

definition sample_crypto :: crypto where
  "sample_crypto = \<lparr>cr_hmac = (\<lambda>k m. k @ m), cr_sha256 = (\<lambda>s. s), cr_key_from_seed = (\<lambda>s. s), cr_public = (\<lambda>s. s),
     cr_sign = (\<lambda>k m. replicate 64 (CHR ''s'')), cr_verify = (\<lambda>k m s. s = replicate 64 (CHR ''s''))\<rparr>"

definition sample_attestor :: attestor where
  "sample_attestor = \<lparr>ak_private = ''k'', ak_public = ''p'', ak_key_id = ''sha256:70''\<rparr>"

definition sample_tree :: "(string \<times> artifact_entry) list" where
  "sample_tree = [(''main.py'', ArtifactFile 420 (Some ''print''))]"

definition sample_attested :: artifact_provenance where
  "sample_attested = projr (Attest sample_crypto sample_attestor sample_tree sample_manifest ''ab'')"

definition sample_published :: "(string \<times> artifact_entry) list" where
  "sample_published = projr (provenance_Write sample_attested sample_tree)"

lemma sample_contents:
  "artifact_contents sample_tree = Inr [(''main.py'', 420, ''print'')]"
  "artifact_contents sample_published = Inr [(''main.py'', 420, ''print'')]"
proof -
  show c: "artifact_contents sample_tree = Inr [(''main.py'', 420, ''print'')]" by code_simp
  have "provenance_Write sample_attested sample_tree = Inr sample_published"
    by (simp add: sample_published_def provenance_Write_def sample_tree_def MetadataDirectory_def)
  from digest_written(1)[OF this] c show "artifact_contents sample_published = Inr [(''main.py'', 420, ''print'')]" by simp
qed

lemma sample_attestation:
  "Attest sample_crypto sample_attestor sample_tree sample_manifest ''ab'' = Inr sample_attested"
  "provenance_Write sample_attested sample_tree = Inr sample_published"
proof -
  show "Attest sample_crypto sample_attestor sample_tree sample_manifest ''ab'' = Inr sample_attested"
    by (simp add: sample_attested_def Attest_def DigestDirectory_def sample_contents Let_def)
  show "provenance_Write sample_attested sample_tree = Inr sample_published"
    by (simp add: sample_published_def provenance_Write_def sample_tree_def MetadataDirectory_def)
qed

lemma sample_laws:
  "cr_verify sample_crypto (ak_public sample_attestor) msg (cr_sign sample_crypto (ak_private sample_attestor) msg)"
  "length (cr_sign sample_crypto (ak_private sample_attestor) msg) = 64"
  "rn_resolved_tools (mf_runtime sample_manifest) = None \<or> ValidToolEnvironment (rn_resolved_tools (mf_runtime sample_manifest))"
  by (simp_all add: sample_crypto_def sample_manifest_def sample_runtime_def)

theorem attested_artifact_verifies_witness:
  "provenance_Load (\<lambda>_. Some sample_attested) sample_published = Inr sample_attested
    \<and> Verify sample_crypto sample_attestor sample_published sample_attested = Inr ()"
  by (rule attested_artifact_verifies[OF sample_attestation sample_laws(1,2) refl sample_laws(3)])

theorem attestation_pins_artifact_witness:
  "artifact_contents sample_published = artifact_contents sample_tree"
proof -
  note v = Verify_attested[OF sample_attestation(1) sample_laws]
  have files: "list_all proper_file [(''main.py'', 420, ''print'')]" by (simp add: proper_file_def)
  have "[(''main.py'', 420, ''print'')] = [(''main.py'', 420::nat, ''print'')]"
    by (rule attestation_pins_artifact[OF v[OF refl] v[OF digest_written(2)[OF sample_attestation(2)]] sample_contents files files])
      (simp add: sample_crypto_def)
  with sample_contents show ?thesis by simp
qed

end
