(* ===== verification/SecretVault.thy ===== *)
theory SecretVault
  imports SecretProofs ExecutionProofs Manifest
begin

text \<open>
  The vault (\<open>internal/secretvault/vault.go\<close>): it validates names and values, seals a value with
  its name as associated data, stores the nonce and the sealed bytes, and resolves the values one
  boundary needs. AES-GCM and HMAC-SHA256 are parameters: a cipher is a value of \<open>aead\<close>.
\<close>

section \<open>Keys and validation\<close>

datatype vault_error = ErrUnavailable | VaultErrInvalidKey | ErrInvalidName | ErrInvalidValue | ErrInvalidDescription
  | ErrNoSecrets | ErrStore store_error | ErrResolveStore string store_error | ErrInvalidCiphertext string | ErrKeyMismatch string

record aead =
  ae_nonce_size :: nat
  ae_seal :: "string \<Rightarrow> string \<Rightarrow> string \<Rightarrow> string"
  ae_open :: "string \<Rightarrow> string \<Rightarrow> string \<Rightarrow> string option"

record vault =
  vt_aead :: aead
  vt_key_id :: string

definition decodeKey :: "string \<Rightarrow> vault_error + string" where
  "decodeKey value =
     (let trimmed = TrimSpace value;
          key = (case b64_decode False True trimmed of Some k \<Rightarrow> Some k | None \<Rightarrow> b64_decode False False trimmed) in
      case key of None \<Rightarrow> Inl VaultErrInvalidKey | Some k \<Rightarrow> guardR (length k \<noteq> 32) VaultErrInvalidKey (Inr k))"

definition vault_New :: "(string \<Rightarrow> aead) \<Rightarrow> (string \<Rightarrow> string \<Rightarrow> string) \<Rightarrow> string \<Rightarrow> vault_error + vault" where
  "vault_New gcm hmac encodedKey =
     bindR (decodeKey encodedKey) (\<lambda>key.
     Inr \<lparr>vt_aead = gcm key, vt_key_id = hex_encode (take 8 (hmac key ''werkt-secret-vault-key-id-v1''))\<rparr>)"

definition MinimumValueBytes :: nat where "MinimumValueBytes = 8"
definition MaximumValueBytes :: nat where "MaximumValueBytes = 65536"
definition MaximumDescriptionBytes :: nat where "MaximumDescriptionBytes = 500"

function ValidString :: "string \<Rightarrow> bool" where
  "ValidString [] = True"
| "ValidString (c # s) = (case decode_rune (c # s) of None \<Rightarrow> False | Some (_, w) \<Rightarrow> ValidString (drop (w - 1) s))"
  by pat_completeness auto
termination
  by (relation "measure length") auto

definition ValidateName :: "string \<Rightarrow> vault_error + unit" where
  "ValidateName name = guardR (name = [] \<or> length name > 128 \<or> \<not> secretName name) ErrInvalidName (Inr ())"

definition ValidateValue :: "string \<Rightarrow> vault_error + unit" where
  "ValidateValue value =
     guardR (length value < MinimumValueBytes \<or> length value > MaximumValueBytes \<or> \<not> ValidString value \<or> CHR 0x00 \<in> set value)
       ErrInvalidValue (Inr ())"

definition additionalData :: "string \<Rightarrow> string" where
  "additionalData name = ''werkt-secret:v1:'' @ name"

section \<open>Operations\<close>

text \<open>The result of the store inside the vault's.\<close>

definition of_store :: "'a store_result \<Rightarrow> (vault_error + 'a) \<times> db" where
  "of_store r = (case r of (Inl e, d) \<Rightarrow> (Inl (ErrStore e), d) | (Inr x, d) \<Rightarrow> (Inr x, d))"

definition vault_Get :: "string \<Rightarrow> db \<Rightarrow> vault_error + secret_metadata" where
  "vault_Get name d = bindR (ValidateName name) (\<lambda>_.
     case GetEncryptedSecret name d of Inl e \<Rightarrow> Inl (ErrStore e) | Inr s \<Rightarrow> Inr (metadata_of s))"

text \<open>\<open>nonce\<close> is what the random source gave for this call.\<close>

definition vault_Put :: "vault \<Rightarrow> ambient \<Rightarrow> string \<Rightarrow> string \<Rightarrow> string \<Rightarrow> string \<Rightarrow> string \<Rightarrow> db
    \<Rightarrow> (vault_error + secret_metadata \<times> bool) \<times> db" where
  "vault_Put v amb nonce name value description actor d =
     (case bindR (ValidateName name) (\<lambda>_. bindR (ValidateValue value) (\<lambda>_.
        guardR (length description > MaximumDescriptionBytes \<or> \<not> ValidString description) ErrInvalidDescription (Inr ()))) of
        Inl e \<Rightarrow> (Inl e, d)
      | Inr _ \<Rightarrow>
          (let sealed = ae_seal (vt_aead v) nonce value (additionalData name) in
           of_store (PutEncryptedSecret amb name description (nonce @ sealed) (vt_key_id v) actor d)))"

definition vault_Delete :: "ambient \<Rightarrow> string \<Rightarrow> string \<Rightarrow> db \<Rightarrow> (vault_error + unit) \<times> db" where
  "vault_Delete amb name actor d = (case ValidateName name of
     Inl e \<Rightarrow> (Inl e, d) | Inr _ \<Rightarrow> of_store (DeleteSecret amb name actor d))"

definition open_secret :: "vault \<Rightarrow> db \<Rightarrow> string \<Rightarrow> vault_error + string" where
  "open_secret v d name = (case GetEncryptedSecret name d of
     Inl e \<Rightarrow> Inl (ErrResolveStore name e)
   | Inr s \<Rightarrow>
       (let n = ae_nonce_size (vt_aead v) in
        guardR (length (s_ciphertext s) < n) (ErrInvalidCiphertext name)
        (case ae_open (vt_aead v) (take n (s_ciphertext s)) (drop n (s_ciphertext s)) (additionalData name) of
           None \<Rightarrow> Inl (ErrKeyMismatch name) | Some plaintext \<Rightarrow> Inr plaintext)))"

definition vault_Resolve :: "vault \<Rightarrow> string list \<Rightarrow> db \<Rightarrow> vault_error + env_map" where
  "vault_Resolve v names d =
     bindR (mapR ValidateName names) (\<lambda>_.
     mapR (\<lambda>name. bindR (open_secret v d name) (\<lambda>plaintext. Inr (name, plaintext))) (sort (remdups names)))"

definition VerifyAll :: "vault \<Rightarrow> ambient \<Rightarrow> db \<Rightarrow> vault_error + nat" where
  "VerifyAll v amb d =
     (let names = map sm_name (ListSecrets amb d) in
      guardR (names = []) ErrNoSecrets
      (bindR (vault_Resolve v names d) (\<lambda>_. Inr (length names))))"

text \<open>The resolver the runner is given; \<open>describe\<close> is the text of an error.\<close>

definition runtime_resolver :: "(vault_error \<Rightarrow> string) \<Rightarrow> vault \<Rightarrow> db \<Rightarrow> string list \<Rightarrow> string + env_map" where
  "runtime_resolver describe v d names = (case vault_Resolve v names d of Inl e \<Rightarrow> Inl (describe e) | Inr m \<Rightarrow> Inr m)"

section \<open>Lemmas\<close>

lemma of_store_ok: "is_ok (fst r) \<Longrightarrow> of_store r = (Inr (projr (fst r)), snd r)"
  by (cases r; cases "fst r") (auto simp: of_store_def)

lemma Put_Inr:
  assumes "vault_Put v amb nonce name value description actor d = (Inr (md, created), d')"
  shows "ValidateName name = Inr () \<and> ValidateValue value = Inr ()
    \<and> PutEncryptedSecret amb name description (nonce @ ae_seal (vt_aead v) nonce value (additionalData name)) (vt_key_id v) actor d
      = (Inr (md, created), d')"
  using assms unfolding vault_Put_def of_store_def Let_def
  by (auto simp: bindR_eq_Inr guardR_eq_Inr split: sum.splits prod.splits)

lemma open_put:
  assumes "vault_Put v amb nonce name value description actor d = (Inr (md, created), d')"
    and "length nonce = ae_nonce_size (vt_aead v)"
    and "\<And>n p a. ae_open (vt_aead v) n (ae_seal (vt_aead v) n p a) a = Some p"
  shows "open_secret v d' name = Inr value" "other \<noteq> name \<Longrightarrow> open_secret v d' other = open_secret v d other"
proof -
  from Put_Inr[OF assms(1)] have "PutEncryptedSecret amb name description
      (nonce @ ae_seal (vt_aead v) nonce value (additionalData name)) (vt_key_id v) actor d = (Inr (md, created), d')" by simp
  note read = stored_secret_read_back[OF this]
  from read obtain s where "GetEncryptedSecret name d' = Inr s"
    "s_ciphertext s = nonce @ ae_seal (vt_aead v) nonce value (additionalData name)" by blast
  with assms(2,3) show "open_secret v d' name = Inr value" by (simp add: open_secret_def)
  assume "other \<noteq> name"
  with read have "GetEncryptedSecret other d' = GetEncryptedSecret other d" by blast
  then show "open_secret v d' other = open_secret v d other" by (simp add: open_secret_def)
qed

lemma mapR_pairs:
  "mapR (\<lambda>name. bindR (f name) (\<lambda>x. Inr (name, x))) names = Inr m \<Longrightarrow> n \<in> set names \<Longrightarrow> \<exists>x. f n = Inr x \<and> map_of m n = Some x"
  by (induction names arbitrary: m) (auto simp: bindR_eq_Inr)

lemma Resolve_opens:
  assumes "vault_Resolve v names d = Inr m" "n \<in> set names"
  shows "\<exists>x. open_secret v d n = Inr x \<and> map_of m n = Some x"
proof -
  from assms(1) have "mapR (\<lambda>name. bindR (open_secret v d name) (\<lambda>plaintext. Inr (name, plaintext))) (sort (remdups names)) = Inr m"
    by (auto simp: vault_Resolve_def bindR_eq_Inr)
  from mapR_pairs[OF this, of n] assms(2) show ?thesis by simp
qed

lemma injected_value:
  assumes "resolveRuntimeEnvironment (Some resolve) r = Inr env" "(target, source) \<in> set (rn_secrets r)"
    "distinct (map fst (rn_secrets r))"
  shows "\<exists>resolved. resolve (sort (remdups (map snd (rn_secrets r)))) = Inr resolved \<and> map_of (re_values env) target = map_of resolved source"
proof -
  from assms(1,2) obtain resolved sv al where
    res: "resolve (sort (remdups (map snd (rn_secrets r)))) = Inr resolved"
    and al: "foldR (\<lambda>target acc. let source = the (map_of (rn_secrets r) target) in
               bindR (resolved_value resolved source (''runtime secret '' @ quoted target @ '' references unavailable secret '' @ quoted source))
                 (\<lambda>v. Inr (AList.update target v acc))) (sort (map fst (rn_secrets r))) (promotionEnvironment r) = Inr al"
    and env: "env = \<lparr>re_values = al, re_secrets = sv\<rparr>"
    unfolding resolveRuntimeEnvironment_def by (auto simp: Let_def bindR_eq_Inr split: option.splits if_splits sum.splits)
  have "map_of (rn_secrets r) target = Some source" "target \<in> set (sort (map fst (rn_secrets r)))" using assms(2,3) by force+
  with injected_targets[OF al, of target] env res show ?thesis by auto
qed

section \<open>Properties\<close>

text \<open>
  C6: A value put into the vault is the value a run gets, and its logs do not show it. When a
  secret was stored and the environment of a run that asks for it is resolved from the resulting
  database, the run's variable holds exactly the stored value. The logs of the process attempt
  never contain the value when it is inconspicuous, that is: not empty, without an opening or a
  closing square bracket and without a newline (so this second part says nothing of multi-line
  secrets such as PEM keys, nor of JSON arrays), and not itself contained in one of the words
  REDACTED, stdout, stderr and logs truncated that the log format adds. The hypotheses on the
  surroundings are that the cipher opens what it sealed with the same nonce and associated data,
  that the random nonce has the cipher's nonce size, and that the manifest's map of secret variables
  has one entry per variable, as every Go map has.
\<close>

theorem stored_secret_reaches_run:
  assumes "vault_Put v amb nonce name value description actor d = (Inr (md, created), d')"
    and "length nonce = ae_nonce_size (vt_aead v)"
    and "\<And>n p a. ae_open (vt_aead v) n (ae_seal (vt_aead v) n p a) a = Some p"
    and "(target, name) \<in> set (rn_secrets (mf_runtime (rr_manifest run)))"
    and "distinct (map fst (rn_secrets (mf_runtime (rr_manifest run))))"
    and "resolveRuntimeEnvironment (Some (runtime_resolver describe v d')) (mf_runtime (rr_manifest run)) = Inr env"
    and "process_Execute (Some (runtime_resolver describe v d')) h maxStateBytes run = (res, err)"
  shows "map_of (re_values env) target = Some value \<and> (inconspicuous value \<longrightarrow> \<not> Contains (at_logs res) value)"
proof -
  let ?names = "sort (remdups (map snd (rn_secrets (mf_runtime (rr_manifest run)))))"
  from injected_value[OF assms(6,4,5)] obtain resolved where
    r: "runtime_resolver describe v d' ?names = Inr resolved" "map_of (re_values env) target = map_of resolved name" by blast
  then have "vault_Resolve v ?names d' = Inr resolved" by (auto simp: runtime_resolver_def split: sum.splits)
  from Resolve_opens[OF this, of name] assms(4) open_put(1)[OF assms(1,2,3)] have "map_of resolved name = Some value" by force
  with r have stored: "map_of (re_values env) target = Some value" by simp
  from hidden_secret[OF assms(7,6,4,5)] stored show ?thesis by auto
qed

text \<open>
  A stored value cannot be moved to another name. With a cipher that refuses sealed bytes under
  other associated data, the ciphertext of one secret is refused when it is read under a different
  name, so exchanging two rows of the table does not exchange the secrets.
\<close>

lemma secret_bound_to_name:
  assumes "vault_Put v amb nonce name value description actor d = (Inr (md, created), d')"
    and "length nonce = ae_nonce_size (vt_aead v)"
    and "\<And>n p a b. a \<noteq> b \<Longrightarrow> ae_open (vt_aead v) n (ae_seal (vt_aead v) n p a) b = None"
    and "GetEncryptedSecret name d' = Inr s" and "GetEncryptedSecret other d2 = Inr t" and "s_ciphertext t = s_ciphertext s"
    and "other \<noteq> name"
  shows "open_secret v d2 other = Inl (ErrKeyMismatch other)"
proof -
  from Put_Inr[OF assms(1)] have "PutEncryptedSecret amb name description
      (nonce @ ae_seal (vt_aead v) nonce value (additionalData name)) (vt_key_id v) actor d = (Inr (md, created), d')" by simp
  from stored_secret_read_back[OF this] assms(4)
  have "s_ciphertext s = nonce @ ae_seal (vt_aead v) nonce value (additionalData name)" by auto
  with assms(2,3,5-7) show ?thesis by (simp add: open_secret_def additionalData_def)
qed

text \<open>
  A successful check of the vault means that every stored secret opens with the configured key.
\<close>

lemma verified_vault_opens_all:
  assumes "VerifyAll v amb d = Inr n"
  shows "n = length (secrets d) \<and> n > 0 \<and> (\<forall>s \<in> set (secrets d). \<exists>x. open_secret v d (s_name s) = Inr x)"
proof -
  let ?names = "map sm_name (ListSecrets amb d)"
  from assms obtain m where ok: "?names \<noteq> []" "vault_Resolve v ?names d = Inr m" "n = length ?names"
    by (auto simp: VerifyAll_def Let_def guardR_eq_Inr bindR_eq_Inr)
  have same: "set ?names = s_name ` set (secrets d)" "length ?names = length (secrets d)"
    by (auto simp: ListSecrets_def metadata_of_def image_iff)
  with ok have "\<exists>x. open_secret v d (s_name s) = Inr x" if "s \<in> set (secrets d)" for s
    using Resolve_opens[OF ok(2), of "s_name s"] that by auto
  with ok same show ?thesis by auto
qed

section \<open>Examples\<close>

text \<open>A cipher that writes its associated data in the clear, with the length in unary.\<close>

definition sample_header :: "string \<Rightarrow> string" where
  "sample_header a = replicate (length a) (CHR ''1'') @ ''0'' @ a"

definition sample_vault :: vault where
  "sample_vault = \<lparr>vt_aead = \<lparr>ae_nonce_size = 2, ae_seal = (\<lambda>n p a. sample_header a @ p),
     ae_open = (\<lambda>n c a. if take (length (sample_header a)) c = sample_header a then Some (drop (length (sample_header a)) c) else None)\<rparr>,
     vt_key_id = ''k1''\<rparr>"

lemma unary_cut: "replicate m x @ y # u = replicate n x @ y # v \<Longrightarrow> x \<noteq> y \<Longrightarrow> m = n \<and> u = v"
proof (induction m arbitrary: n)
  case 0
  then show ?case by (cases n) auto
next
  case (Suc m)
  then show ?case by (cases n) auto
qed

lemma sample_vault_opens: "ae_open (vt_aead sample_vault) n (ae_seal (vt_aead sample_vault) n p a) a = Some p"
  by (simp add: sample_vault_def)

lemma sample_vault_binds:
  assumes "a \<noteq> b" shows "ae_open (vt_aead sample_vault) n (ae_seal (vt_aead sample_vault) n p a) b = None"
proof -
  have False if "take (length (sample_header b)) (sample_header a @ p) = sample_header b"
  proof -
    from that obtain r where "sample_header a @ p = sample_header b @ r" by (metis append_take_drop_id)
    then have "replicate (length a) (CHR ''1'') @ CHR ''0'' # (a @ p) = replicate (length b) (CHR ''1'') @ CHR ''0'' # (b @ r)"
      by (simp add: sample_header_def)
    from unary_cut[OF this] have "length a = length b" "a @ p = b @ r" by auto
    with assms show False by simp
  qed
  then show ?thesis by (auto simp: sample_vault_def)
qed

definition sample_put :: "(secret_metadata \<times> bool) store_result" where
  "sample_put = PutEncryptedSecret (sample_ambient 1 0) ''api-token'' []
     (''n1'' @ ae_seal (vt_aead sample_vault) ''n1'' ''swordfish'' (additionalData ''api-token'')) ''k1'' ''alice'' sample_db"

lemma sample_put_ok:
  "vault_Put sample_vault (sample_ambient 1 0) ''n1'' ''api-token'' ''swordfish'' [] ''alice'' sample_db
    = (Inr (fst (projr (fst sample_put)), snd (projr (fst sample_put))), snd sample_put)"
proof -
  have "ValidString ''swordfish''" by code_simp
  then have "ValidateValue ''swordfish'' = Inr ()"
    by (simp add: ValidateValue_def MinimumValueBytes_def MaximumValueBytes_def del: ValidString.simps)
  moreover have "ValidateName ''api-token'' = Inr ()" by code_simp
  moreover have "vt_key_id sample_vault = ''k1''" by (simp add: sample_vault_def)
  ultimately have "vault_Put sample_vault (sample_ambient 1 0) ''n1'' ''api-token'' ''swordfish'' [] ''alice'' sample_db = of_store sample_put"
    by (simp add: vault_Put_def MaximumDescriptionBytes_def sample_put_def)
  moreover have "is_ok (fst sample_put)" by code_simp
  ultimately show ?thesis by (simp add: of_store_ok)
qed

theorem stored_secret_reaches_run_witness:
  "\<not> Contains (at_logs (fst (process_Execute (Some (runtime_resolver (\<lambda>_. []) sample_vault (snd sample_put))) sample_host 1024 sample_run)))
     ''swordfish'' \<and> inconspicuous ''swordfish''"
proof -
  let ?r = "Some (runtime_resolver (\<lambda>_. []) sample_vault (snd sample_put))"
  let ?x = "process_Execute ?r sample_host 1024 sample_run"
  let ?env = "\<lparr>re_values = [(''PYTHONPATH'', ''.werkt-sdk/python''), (''TOKEN'', ''swordfish'')], re_secrets = [''swordfish'']\<rparr>"
  have "(''TOKEN'', ''api-token'') \<in> set (rn_secrets (mf_runtime (rr_manifest sample_run)))" by code_simp
  moreover have "distinct (map fst (rn_secrets (mf_runtime (rr_manifest sample_run))))" by code_simp
  moreover have "resolveRuntimeEnvironment ?r (mf_runtime (rr_manifest sample_run)) = Inr ?env" by code_simp
  moreover have "?x = (fst ?x, snd ?x)" by simp
  moreover have "length ''n1'' = ae_nonce_size (vt_aead sample_vault)" by (simp add: sample_vault_def)
  moreover have "inconspicuous ''swordfish''" by code_simp
  ultimately show ?thesis using stored_secret_reaches_run[OF sample_put_ok _ sample_vault_opens] by blast
qed

end
