(* ===== verification/StoreOps.thy ===== *)
theory StoreOps
  imports RunProperties DeploymentProperties ApprovalProofs NotificationProofs SecretProofs RetentionProofs InvestigationProofs
begin

text \<open>
  The store as one component: every operation that changes the database as a value of \<open>store_op\<close>,
  its effect \<open>apply_op\<close>, the states a sequence of operations can reach, and the invariant of all
  tables together, which every operation keeps. The theorems of this theory speak about arbitrary
  interleavings of all operations of all components.
\<close>

text \<open>Whether an operation reported success, and the database it leaves.\<close>

definition report :: "'a store_result \<Rightarrow> bool \<times> db" where
  "report r = (is_ok (fst r), snd r)"

datatype queue_op =
    IngestOp ambient string string string string time json json_map
  | ManualOp ambient string string string json string
  | SchedulesOp ambient time nat

fun apply_queue_op :: "queue_op \<Rightarrow> db \<Rightarrow> bool \<times> db" where
  "apply_queue_op (IngestOp amb a t ty ext oc dt m) d = report (IngestEvent amb a t ty ext oc dt m d)"
| "apply_queue_op (ManualOp amb a ext want dt actor) d = report (EnqueueManualRun amb a ext want dt actor d)"
| "apply_queue_op (SchedulesOp amb now limit) d = report (EnqueueDueSchedules amb now limit d)"

datatype run_op =
    AcquireRunOp ambient string duration
  | RenewRunOp ambient string string duration
  | CompleteRunOp ambient runnable_run string string "json option" "json option" run_control
  | FailRunOp ambient run_row string string string
  | ReleaseRunOp ambient run_row string string string

fun apply_run_op :: "run_op \<Rightarrow> db \<Rightarrow> bool \<times> db" where
  "apply_run_op (AcquireRunOp amb w l) d = report (AcquireRun amb w l d)"
| "apply_run_op (RenewRunOp amb k w l) d = report (RenewRunLease amb k w l d)"
| "apply_run_op (CompleteRunOp amb run w lg rs st ctl) d = report (CompleteRun amb run w lg rs st ctl d)"
| "apply_run_op (FailRunOp amb run w lg msg) d = report (FailRun amb run w lg msg d)"
| "apply_run_op (ReleaseRunOp amb run w lg reason) d = report (ReleaseRun amb run w lg reason d)"

datatype approval_op =
    ListApprovalsOp ambient string string list_cursor int
  | GetApprovalOp ambient string
  | ResolveOp ambient string string string string json_map string

fun apply_approval_op :: "approval_op \<Rightarrow> db \<Rightarrow> bool \<times> db" where
  "apply_approval_op (ListApprovalsOp amb a s c l) d = (True, snd (ListApprovalsPage amb a s c l d))"
| "apply_approval_op (GetApprovalOp amb i) d = report (GetApproval amb i d)"
| "apply_approval_op (ResolveOp amb i key vn action supplied actor) d = report (ResolveApproval amb i key vn action supplied actor d)"

datatype catalog_op =
    DeployOp ambient manifest string string artifact_provenance string string string
  | RollbackOp ambient string string string
  | EnableOp ambient string bool string
  | AdoptOp ambient string string artifact_provenance

fun apply_catalog_op :: "catalog_op \<Rightarrow> db \<Rightarrow> bool \<times> db" where
  "apply_catalog_op (DeployOp amb m h path prov actor did w) d = report (deploy amb m h path prov actor did w d)"
| "apply_catalog_op (RollbackOp amb a i actor) d = report (RollbackAutomation amb a i actor d)"
| "apply_catalog_op (EnableOp amb a en actor) d = report (SetAutomationEnabled amb a en actor d)"
| "apply_catalog_op (AdoptOp amb a i prov) d = report (AdoptRevisionProvenance amb a i prov d)"

datatype deployment_op =
    CreateDeploymentOp "string \<Rightarrow> string option" ambient string string string string string string
  | RetryDeploymentOp "string \<Rightarrow> bool" ambient string string string string bool
  | AcquireDeploymentOp ambient string duration
  | RenewDeploymentOp ambient string string duration
  | StageOp ambient string string deployment_status string string
  | StepOp ambient string string deployment_step_update
  | RequestCancelOp ambient string string
  | CompleteCancelOp ambient string string
  | FailDeploymentOp ambient string string string

fun apply_deployment_op :: "deployment_op \<Rightarrow> db \<Rightarrow> bool \<times> db" where
  "apply_deployment_op (CreateDeploymentOp dg amb i k pd cd src actor) d = report (CreateDeployment dg amb i k pd cd src actor d)"
| "apply_deployment_op (RetryDeploymentOp isDir amb orig i k actor strand) d = report (RetryDeployment isDir amb orig i k actor strand d)"
| "apply_deployment_op (AcquireDeploymentOp amb w l) d = report (AcquireDeployment amb w l d)"
| "apply_deployment_op (RenewDeploymentOp amb k w l) d = report (RenewDeploymentLease amb k w l d)"
| "apply_deployment_op (StageOp amb k w st a h) d = report (SetDeploymentStage amb k w st a h d)"
| "apply_deployment_op (StepOp amb k w u) d = report (RecordDeploymentStep amb k w u d)"
| "apply_deployment_op (RequestCancelOp amb k actor) d = report (RequestDeploymentCancellation amb k actor d)"
| "apply_deployment_op (CompleteCancelOp amb k w) d = report (CompleteDeploymentCancellation amb k w d)"
| "apply_deployment_op (FailDeploymentOp amb k w msg) d = report (FailDeployment amb k w msg d)"

datatype notice_op =
    TestNoticeOp ambient string
  | ResendOp ambient string string
  | ExpiringOp ambient time int
  | ExpandOp ambient string "notification_target list"
  | AcquireDeliveryOp ambient string
  | DeliveredOp ambient notification_delivery string int
  | FailDeliveryOp ambient notification_delivery string string bool

fun apply_notice_op :: "notice_op \<Rightarrow> db \<Rightarrow> bool \<times> db" where
  "apply_notice_op (TestNoticeOp amb actor) d = report (EnqueueNotificationTest amb actor d)"
| "apply_notice_op (ResendOp amb i actor) d = report (ResendPendingApprovalNotification amb i actor d)"
| "apply_notice_op (ExpiringOp amb horizon limit) d = report (EnqueueExpiringApprovalNotifications amb horizon limit d)"
| "apply_notice_op (ExpandOp amb i ts) d = report (ExpandNotificationEvent amb i ts d)"
| "apply_notice_op (AcquireDeliveryOp amb w) d = report (AcquireNotificationDelivery amb w d)"
| "apply_notice_op (DeliveredOp amb v w c) d = report (CompleteNotificationDelivery amb v w c d)"
| "apply_notice_op (FailDeliveryOp amb v w msg rt) d = report (FailNotificationDelivery amb v w msg rt d)"

datatype secret_op =
    PutSecretOp ambient string string string string string
  | DeleteSecretOp ambient string string

fun apply_secret_op :: "secret_op \<Rightarrow> db \<Rightarrow> bool \<times> db" where
  "apply_secret_op (PutSecretOp amb name ds c k actor) d = report (PutEncryptedSecret amb name ds c k actor d)"
| "apply_secret_op (DeleteSecretOp amb name actor) d = report (DeleteSecret amb name actor d)"

datatype investigation_op =
    ReserveOp ambient investigation_spec string
  | UpdateOp "string \<Rightarrow> url_parts option" ambient string int investigation_state string

fun apply_investigation_op :: "investigation_op \<Rightarrow> db \<Rightarrow> bool \<times> db" where
  "apply_investigation_op (ReserveOp amb spec actor) d = report (ReserveInvestigation amb spec actor d)"
| "apply_investigation_op (UpdateOp parse amb i v s actor) d = report (UpdateInvestigation parse amb i v s actor d)"

datatype retention_op =
    CreatePlanOp ambient retention_plan
  | ClaimPlanOp ambient string duration
  | RecordItemOp ambient string int string string
  | CompletePlanOp ambient string string
  | DetachOp ambient string string

fun apply_retention_op :: "retention_op \<Rightarrow> db \<Rightarrow> bool \<times> db" where
  "apply_retention_op (CreatePlanOp amb v) d = report (CreateRetentionPlan amb v d)"
| "apply_retention_op (ClaimPlanOp amb i l) d = report (ClaimRetentionPlan amb i l d)"
| "apply_retention_op (RecordItemOp amb i p s msg) d = report (RecordRetentionItem amb i p s msg d)"
| "apply_retention_op (CompletePlanOp amb i actor) d = report (CompleteRetentionPlan amb i actor d)"
| "apply_retention_op (DetachOp amb kind path) d = report (DetachRetentionItem amb kind path d)"

datatype store_op =
    QueueStep queue_op
  | RunStep run_op
  | ApprovalStep approval_op
  | CatalogStep catalog_op
  | DeploymentStep deployment_op
  | NoticeStep notice_op
  | SecretStep secret_op
  | InvestigationStep investigation_op
  | RetentionStep retention_op

fun apply_op :: "store_op \<Rightarrow> db \<Rightarrow> bool \<times> db" where
  "apply_op (QueueStep x) = apply_queue_op x"
| "apply_op (RunStep x) = apply_run_op x"
| "apply_op (ApprovalStep x) = apply_approval_op x"
| "apply_op (CatalogStep x) = apply_catalog_op x"
| "apply_op (DeploymentStep x) = apply_deployment_op x"
| "apply_op (NoticeStep x) = apply_notice_op x"
| "apply_op (SecretStep x) = apply_secret_op x"
| "apply_op (InvestigationStep x) = apply_investigation_op x"
| "apply_op (RetentionStep x) = apply_retention_op x"

lemma report_eq: "report r = (ok, d') \<longleftrightarrow> (\<exists>res. r = (res, d') \<and> ok = is_ok res)"
  by (cases r) (auto simp: report_def)

section \<open>The invariant of all tables\<close>

definition store_ok :: "db \<Rightarrow> bool" where
  "store_ok d = (queue_ok d \<and> catalog_ok d \<and> deployments_ok (deployments d) \<and> approvals_ok d \<and> outbox_ok d
     \<and> investigations_ok d \<and> vault_ok d \<and> states_ok d)"

lemma store_okD:
  assumes "store_ok d"
  shows "queue_ok d" "catalog_ok d" "deployments_ok (deployments d)" "approvals_ok d" "outbox_ok d" "investigations_ok d" "vault_ok d"
    "states_ok d"
  using assms by (simp_all add: store_ok_def)

lemma investigations_ok_same:
  "investigations d' = investigations d \<Longrightarrow> investigation_versions d' = investigation_versions d \<Longrightarrow> investigations_ok d' = investigations_ok d"
  by (simp add: investigations_ok_def versions_of_def)

text \<open>
  What no operation undoes: the history of events and runs grows, a decided approval stays as it
  is, a withdrawn job stays withdrawn, an expanded event keeps its deliveries, a reserved request
  keeps its subject, and the automation states only move forward.
\<close>

definition approvals_follow :: "db \<Rightarrow> db \<Rightarrow> bool" where
  "approvals_follow d d' = (\<forall>p \<in> set (approvals d). p_status p \<noteq> ''pending'' \<longrightarrow> p \<in> set (approvals d'))"

lemma approvals_follow_append: "approvals d' = approvals d @ ps \<Longrightarrow> approvals_follow d d'"
  by (simp add: approvals_follow_def)

lemma approvals_follow_same: "approvals d' = approvals d \<Longrightarrow> approvals_follow d d'"
  by (simp add: approvals_follow_def)

lemma approvals_follow_update:
  assumes "approvals d' = update_where P f (approvals d)" "\<And>p. p \<in> set (approvals d) \<Longrightarrow> P p \<Longrightarrow> p_status p = ''pending''"
  shows "approvals_follow d d'"
  unfolding approvals_follow_def assms(1) using assms(2) by (metis update_where_miss)

definition follows :: "db \<Rightarrow> db \<Rightarrow> bool" where
  "follows d d' = (history_extends d d' \<and> approvals_follow d d' \<and> cancels_kept (deployments d) (deployments d')
     \<and> outbox_follow d d' \<and> investigations_follow d d' \<and> states_follow d d')"

lemma followsD:
  assumes "follows d d'"
  shows "history_extends d d'" "approvals_follow d d'" "cancels_kept (deployments d) (deployments d')"
    "outbox_follow d d'" "investigations_follow d d'" "states_follow d d'"
  using assms by (simp_all add: follows_def)

lemmas follows_refls = approvals_follow_same cancels_kept_refl outbox_follow_refl investigations_follow_same states_follow_same

lemma follows_refl [simp]: "follows d d"
  by (simp add: follows_def follows_refls)

lemma follows_trans: "follows d d1 \<Longrightarrow> follows d1 d2 \<Longrightarrow> follows d d2"
  unfolding follows_def approvals_follow_def
  using history_trans cancels_kept_trans outbox_follow_trans investigations_follow_trans states_follow_trans by blast

text \<open>The invariant holds afterwards, and nothing that is settled is undone.\<close>

definition kept :: "db \<Rightarrow> db \<Rightarrow> bool" where
  "kept d d' = (store_ok d' \<and> follows d d')"

lemma kept_refl [simp]: "kept d d = store_ok d"
  by (simp add: kept_def)

text \<open>An operation keeps the invariant if it keeps the part of every table it writes.\<close>

lemma store_ok_frame:
  assumes "store_ok d"
    and "queue_ok d \<Longrightarrow> queue_ok d'" and "history_extends d d'" and "catalog_ok d \<Longrightarrow> catalog_ok d'"
    and "jobs_follow (deployments d) (deployments d')"
    and "approvals d' = approvals d \<or> approvals_ok d' \<and> approvals_follow d d'"
    and "outbox_ok d \<Longrightarrow> outbox_ok d' \<and> outbox_follow d d'"
    and "investigations d' = investigations d \<and> investigation_versions d' = investigation_versions d
      \<or> investigations_ok d' \<and> investigations_follow d d'"
    and "secrets d' = secrets d \<and> secret_references d' = secret_references d \<or> vault_ok d'"
    and "automation_state d' = automation_state d \<or> states_ok d' \<and> states_follow d d'"
  shows "kept d d'"
proof -
  have "approvals_ok d'" "approvals_follow d d'"
    using assms(1,3,6) approvals_ok_history[of d d'] approvals_follow_same[of d' d] by (auto simp: store_ok_def)
  moreover have "investigations_ok d'" "investigations_follow d d'"
    using assms(1,8) investigations_ok_same[of d' d] investigations_follow_same[of d' d] by (auto simp: store_ok_def)
  moreover have "vault_ok d'" using assms(1,9) vault_ok_same[of d' d] by (auto simp: store_ok_def)
  moreover have "states_ok d'" "states_follow d d'"
    using assms(1,10) states_follow_same[of d' d] by (auto simp: store_ok_def states_ok_def)
  ultimately show ?thesis using assms(1-5,7) by (simp add: store_ok_def kept_def follows_def jobs_follow_def)
qed

text \<open>A table that is left alone follows.\<close>

lemma outbox_follow_same [simp]:
  "notification_events d' = notification_events d \<Longrightarrow> notification_deliveries d' = notification_deliveries d \<Longrightarrow> outbox_follow d d'"
  using outbox_follow_append[of d' d "[]"] by simp

declare jobs_follow_refl [simp]

lemma job_frame_ok: "store_ok d \<Longrightarrow> job_frame d d' \<Longrightarrow> kept d d'"
  by (rule store_ok_frame[of d d']) (auto simp: job_frame_def)

text \<open>
  The rows the publications speak about. An operation of another component leaves them alone.
\<close>

definition publication_rows :: "db \<Rightarrow> _" where
  "publication_rows d = (map automation_core (automations d), revisions d, secret_references d)"

lemma publication_rows_ok: "publication_rows d' = publication_rows d \<Longrightarrow> publications_ok d' = publications_ok d"
  by (intro publications_ok_same) (simp_all add: publication_rows_def)

lemma deployment_op_frame: "apply_deployment_op x d = (ok, d') \<Longrightarrow> job_frame d d'"
  by (cases x) (auto simp: report_eq intro: CreateDeployment_frame RetryDeployment_frame AcquireDeployment_frame
      RenewDeploymentLease_frame SetDeploymentStage_frame RecordDeploymentStep_frame RequestDeploymentCancellation_frame
      CompleteDeploymentCancellation_frame FailDeployment_frame)

lemma deployment_op_ok: "apply_deployment_op x d = (ok, d') \<Longrightarrow> store_ok d \<Longrightarrow> kept d d'"
  by (rule job_frame_ok) (auto dest: deployment_op_frame)

lemma deployment_op_runs: "apply_deployment_op x d = (ok, d') \<Longrightarrow> runs d' = runs d"
  by (drule deployment_op_frame) (auto simp: job_frame_def)

section \<open>Operations of one component\<close>

text \<open>A transaction that fails changes nothing, so a frame has to be shown for success only.\<close>

lemma transact_cases:
  assumes "transact body d = (res, d')" "d' = d \<Longrightarrow> P d" "\<And>a. body d = Inr (a, d') \<Longrightarrow> P d'"
  shows "P d'"
  using assms by (cases res) (auto simp: transact_eq_Inl transact_eq_Inr)

text \<open>What the operations of one component do not write.\<close>

definition rest_of_investigations :: "db \<Rightarrow> _" where
  "rest_of_investigations d = (events d, runs d, automations d, revisions d, triggers d, deployments d, approvals d,
     notification_events d, notification_deliveries d, secrets d, secret_references d, automation_state d)"

lemma investigation_op_rest:
  assumes "apply_investigation_op x d = (ok, d')" shows "rest_of_investigations d' = rest_of_investigations d"
proof (cases x)
  case (ReserveOp amb spec actor)
  with assms(1) obtain res where "ReserveInvestigation amb spec actor d = (res, d')" by (auto simp: report_eq)
  then show ?thesis unfolding ReserveInvestigation_def
    by (rule transact_cases) (auto simp: rest_of_investigations_def result_simps Let_def split: option.splits
        dest!: recordInvestigationVersion_Inr)
next
  case (UpdateOp parse amb i v s actor)
  with assms(1) obtain res where "UpdateInvestigation parse amb i v s actor d = (res, d')" by (auto simp: report_eq)
  then show ?thesis unfolding UpdateInvestigation_def
    by (rule transact_cases) (auto simp: rest_of_investigations_def result_simps split: option.splits
        dest!: recordInvestigationVersion_Inr)
qed

lemma investigation_op_ok:
  assumes "apply_investigation_op x d = (ok, d')" "store_ok d" shows "kept d d'"
proof -
  note rest = investigation_op_rest[OF assms(1)]
  have "investigations_ok d' \<and> investigations_follow d d'"
    using assms store_okD(6)[OF assms(2)] ReserveInvestigation_ok UpdateInvestigation_ok
      ReserveInvestigation_follow UpdateInvestigation_follow
    by (cases x) (auto simp: report_eq, (metis snd_conv)+)
  with rest show ?thesis by (intro store_ok_frame[OF assms(2)]) (auto simp: rest_of_investigations_def)
qed

definition rest_of_retention :: "db \<Rightarrow> _" where
  "rest_of_retention d = (events d, runs d, automations d, revisions d, triggers d, deployments d, approvals d,
     notification_events d, notification_deliveries d, secrets d, secret_references d, investigations d, investigation_versions d,
     automation_state d)"

lemma insert_retention_item_rest:
  "insert_retention_item amb i item d = Inr d' \<Longrightarrow> rest_of_retention d' = rest_of_retention d"
  by (auto simp: insert_retention_item_def rest_of_retention_def result_simps Let_def)

lemma rest_of_retention_ok: "store_ok d \<Longrightarrow> rest_of_retention d' = rest_of_retention d \<Longrightarrow> kept d d'"
  by (rule store_ok_frame[of d d']) (auto simp: rest_of_retention_def)

lemma CreateRetentionPlan_rest:
  assumes "CreateRetentionPlan amb v d = (res, d')" shows "rest_of_retention d' = rest_of_retention d"
  using assms unfolding CreateRetentionPlan_def
proof (rule transact_cases)
  fix a assume "guardR (conflicts pl_id (new_plan amb v) (retention_plans d)) ErrDatabase
     (bindR (foldR (insert_retention_item amb (pn_id v)) (pn_items v) (d\<lparr>retention_plans := retention_plans d @ [new_plan amb v]\<rparr>))
       (\<lambda>d1. bindR (insertAuditEvent amb 0 ''retention.planned'' [] (pn_actor v)
         [(''planId'', DString (pn_id v)), (''items'', DInt (int (length (pn_items v)))),
          (''estimatedBytes'', DInt (su_estimated_bytes (pn_summary v))), (''policy'', DPolicy (pn_policy v))] d1)
         (\<lambda>d2. Inr ((), d2)))) = Inr (a, d')"
  then obtain d1 as where f: "foldR (insert_retention_item amb (pn_id v)) (pn_items v) (d\<lparr>retention_plans := retention_plans d @ [new_plan amb v]\<rparr>) = Inr d1"
    and d': "d' = d1\<lparr>audit_events := audit_events d1 @ as\<rparr>"
    by (auto simp: result_simps dest!: insertAuditEvent_frame)
  have "rest_of_retention d1 = rest_of_retention d"
    by (rule foldR_invariant[where P = "\<lambda>x. rest_of_retention x = rest_of_retention d", OF f])
      (auto simp: rest_of_retention_def dest!: insert_retention_item_rest)
  then show "rest_of_retention d' = rest_of_retention d" by (simp add: d' rest_of_retention_def)
qed simp

lemma catalogue_keys:
  assumes "map (\<lambda>v. (rv_id v, rv_automation_id v, rv_content_hash v)) vs' = map (\<lambda>v. (rv_id v, rv_automation_id v, rv_content_hash v)) vs"
  shows "catalogue_ok as vs' ts = catalogue_ok as vs ts"
proof -
  have "catalogue_ok as us ts \<longleftrightarrow> (let V = map (\<lambda>v. (rv_id v, rv_automation_id v, rv_content_hash v)) us in
      distinct (map au_id as) \<and> distinct (map fst V) \<and> distinct (map (\<lambda>t. (tr_automation_id t, tr_id t)) ts)
      \<and> (\<forall>(i, a, h) \<in> set V. i = revision_id_of h)
      \<and> (\<forall>a \<in> set as. \<forall>i. au_active_revision_id a = Some i \<longrightarrow> (\<exists>(j, b, h) \<in> set V. j = i \<and> b = au_id a))
      \<and> (\<forall>t \<in> set ts. \<exists>a \<in> set as. au_id a = tr_automation_id t \<and> au_active_revision_id a = Some (tr_revision_id t)))" for us
    by (simp add: catalogue_ok_iff Let_def comp_def)
  with assms show ?thesis by presburger
qed

lemma detach_artifact_catalog:
  assumes "catalog_ok d" shows "catalog_ok (detach_artifact q d)"
proof -
  let ?vs = "update_where (\<lambda>v. rv_artifact_path v = q) (\<lambda>v. v\<lparr>rv_artifact_path := []\<rparr>) (revisions d)"
  note c = catalogue_okD[OF assms]
  have key: "map (\<lambda>v. (rv_id v, rv_automation_id v, rv_content_hash v)) ?vs = map (\<lambda>v. (rv_id v, rv_automation_id v, rv_content_hash v)) (revisions d)"
    by (rule map_update_where) simp
  have "catalogue_ok (automations d) ?vs (triggers d)"
    using assms catalogue_keys[OF key] by simp
  then show ?thesis by (simp add: detach_artifact_def Let_def)
qed

lemma DetachRetentionItem_store_ok:
  assumes "DetachRetentionItem amb kind path d = (res, d')" "store_ok d" shows "kept d d'"
proof -
  note ok = store_okD[OF assms(2)]
  have "vault_ok d'" using DetachRetentionItem_vault[OF ok(7), of amb kind path] assms(1) by simp
  moreover have "catalog_ok d'"
    using assms(1) ok(2) detach_artifact_catalog[OF ok(2)] by (auto simp: DetachRetentionItem_def split: sum.splits if_splits)
  moreover have "jobs_follow (deployments d) (update_where (\<lambda>x. dp_source_path x = q) (\<lambda>x. x\<lparr>dp_source_path := []\<rparr>) (deployments d))" for q
    unfolding jobs_follow_def by (intro conjI impI deployments_update cancels_kept_update) (auto simp: deployment_ok_def)
  then have "jobs_follow (deployments d) (deployments d')"
    using assms(1) by (auto simp: DetachRetentionItem_def detach_artifact_def Let_def split: sum.splits if_splits)
  moreover have "events d' = events d" "runs d' = runs d" "approvals d' = approvals d"
    "notification_events d' = notification_events d" "notification_deliveries d' = notification_deliveries d"
    "investigations d' = investigations d" "investigation_versions d' = investigation_versions d" "automation_state d' = automation_state d"
    using assms(1) by (auto simp: DetachRetentionItem_def detach_artifact_def Let_def split: sum.splits if_splits)
  ultimately show ?thesis by (intro store_ok_frame[OF assms(2)]) auto
qed

lemma retention_op_rest:
  assumes "apply_retention_op x d = (ok, d')"
  shows "rest_of_retention d' = rest_of_retention d \<or> (\<exists>amb kind path res. DetachRetentionItem amb kind path d = (res, d'))"
proof (cases x)
  case (CreatePlanOp amb v)
  with assms show ?thesis by (auto simp: report_eq intro: CreateRetentionPlan_rest)
next
  case (ClaimPlanOp amb i l)
  with assms show ?thesis
    by (auto simp: report_eq ClaimRetentionPlan_def Let_def rest_of_retention_def split: if_splits option.splits)
next
  case (RecordItemOp amb i p st msg)
  with assms(1) obtain res where "RecordRetentionItem amb i p st msg d = (res, d')" by (auto simp: report_eq)
  then have "rest_of_retention d' = rest_of_retention d"
    unfolding RecordRetentionItem_def by (rule transact_cases) (auto simp: result_simps rest_of_retention_def)
  then show ?thesis ..
next
  case (CompletePlanOp amb i actor)
  with assms(1) obtain res where "CompleteRetentionPlan amb i actor d = (res, d')" by (auto simp: report_eq)
  then have "rest_of_retention d' = rest_of_retention d"
    unfolding CompleteRetentionPlan_def
    by (rule transact_cases) (auto simp: result_simps Let_def rest_of_retention_def dest!: insertAuditEvent_frame)
  then show ?thesis ..
next
  case (DetachOp amb kind path)
  with assms show ?thesis by (auto simp: report_eq)
qed

lemma retention_op_ok: "apply_retention_op x d = (ok, d') \<Longrightarrow> store_ok d \<Longrightarrow> kept d d'"
  by (drule retention_op_rest) (auto intro: rest_of_retention_ok DetachRetentionItem_store_ok)

lemma retention_op_publications:
  assumes "apply_retention_op x d = (ok, d')" "store_ok d" "publications_ok d" shows "publications_ok d'"
  using retention_op_rest[OF assms(1)]
proof (elim disjE exE)
  fix amb kind path res assume "DetachRetentionItem amb kind path d = (res, d')"
  with DetachRetentionItem_publications[OF assms(3) store_okD(2)[OF assms(2)], of amb kind path] show ?thesis by simp
qed (use assms(3) publication_rows_ok[of d' d] in \<open>simp add: rest_of_retention_def publication_rows_def\<close>)

lemma retention_op_runs:
  assumes "apply_retention_op x d = (ok, d')" shows "runs d' = runs d"
  using retention_op_rest[OF assms]
proof (elim disjE exE)
  fix amb kind path res assume r: "DetachRetentionItem amb kind path d = (res, d')"
  then show ?thesis
    by (cases "recorded_location amb path")
      (auto simp: DetachRetentionItem_def detach_artifact_def Let_def split: if_splits)
qed (simp add: rest_of_retention_def)

definition rest_of_secrets :: "db \<Rightarrow> _" where
  "rest_of_secrets d = (events d, runs d, automations d, revisions d, triggers d, deployments d, approvals d,
     notification_events d, notification_deliveries d, investigations d, investigation_versions d, secret_references d,
     automation_state d)"

lemma secret_op_rest:
  assumes "apply_secret_op x d = (ok, d')" shows "rest_of_secrets d' = rest_of_secrets d"
proof (cases x)
  case (PutSecretOp amb name ds c k actor)
  with assms(1) obtain res where "PutEncryptedSecret amb name ds c k actor d = (res, d')" by (auto simp: report_eq)
  then show ?thesis unfolding PutEncryptedSecret_def
    by (rule transact_cases) (auto simp: rest_of_secrets_def result_simps upsert_secret_def split: prod.splits option.splits
        dest!: insertAuditEvent_frame)
next
  case (DeleteSecretOp amb name actor)
  with assms(1) obtain res where "DeleteSecret amb name actor d = (res, d')" by (auto simp: report_eq)
  then show ?thesis unfolding DeleteSecret_def
    by (rule transact_cases) (auto simp: rest_of_secrets_def result_simps split: option.splits dest!: insertAuditEvent_frame)
qed

lemma secret_op_ok:
  assumes "apply_secret_op x d = (ok, d')" "store_ok d" shows "kept d d'"
proof -
  note rest = secret_op_rest[OF assms(1)]
  have "vault_ok d'"
    using assms store_okD(7)[OF assms(2)] PutEncryptedSecret_ok DeleteSecret_ok by (cases x) (auto simp: report_def)
  with rest show ?thesis by (intro store_ok_frame[OF assms(2)]) (auto simp: rest_of_secrets_def)
qed

section \<open>Notifications and approvals\<close>

definition rest_of_notices :: "db \<Rightarrow> _" where
  "rest_of_notices d = (events d, runs d, automations d, revisions d, triggers d, deployments d, secrets d, secret_references d,
     investigations d, investigation_versions d, automation_state d)"

lemma rest_of_notices_audit [simp]: "rest_of_notices (d\<lparr>audit_events := as\<rparr>) = rest_of_notices d"
  by (simp add: rest_of_notices_def)

lemma rest_of_notices_ok:
  assumes "store_ok d" "rest_of_notices d' = rest_of_notices d" "approvals d' = approvals d \<or> approvals_ok d' \<and> approvals_follow d d'"
    "outbox_ok d' \<and> outbox_follow d d'"
  shows "kept d d'"
  using assms(2-4) by (intro store_ok_frame[OF assms(1)]) (auto simp: rest_of_notices_def)

definition sent :: "db \<Rightarrow> db \<Rightarrow> bool" where
  "sent d d' = (rest_of_notices d' = rest_of_notices d \<and> approvals d' = approvals d
     \<and> notification_deliveries d' = notification_deliveries d \<and> (\<exists>ns. notification_events d' = notification_events d @ ns))"

lemma sent_refl [simp]: "sent d d"
  by (simp add: sent_def)

lemma sent_audit [simp]: "sent d (z\<lparr>audit_events := as\<rparr>) = sent d z"
  by (simp add: sent_def)

lemma sent_trans: "sent d d1 \<Longrightarrow> sent d1 d2 \<Longrightarrow> sent d d2"
  by (auto simp: sent_def)

lemma sent_frames:
  "insert_notification n d = Inr d' \<Longrightarrow> sent d d'"
  "enqueueNotificationEvent amb k ty a i p d = Inr d' \<Longrightarrow> sent d d'"
  "insertAuditEvent amb k act a actor ds d = Inr d' \<Longrightarrow> sent d d'"
  by (auto simp: sent_def insert_notification_def result_simps rest_of_notices_def dest!: enqueueNotificationEvent_frame insertAuditEvent_frame)

lemma pending_row:
  assumes "approvals_ok d" "approval_by_id d i = Some p" "p_status p = ''pending''" "q \<in> set (approvals d)" "p_id q = i"
  shows "p_status q = ''pending''"
proof -
  have "p \<in> set (approvals d)" "p_id p = i" using approval_table.lookup_SomeD[OF assms(2)] by simp_all
  then have "q = p" using assms(1,4,5) key_unique[of p_id "approvals d" q p] by (simp add: approvals_ok_def)
  with assms(3) show ?thesis by simp
qed

lemma expire_one:
  assumes "approvals_ok d" "approval_by_id d i = Some p" "p_status p = ''pending''"
  shows "approvals_ok (d\<lparr>approvals := update_where (\<lambda>q. p_id q = i) expire_approval (approvals d)\<rparr>)"
  by (rule expire_where_ok[OF assms(1)]) (rule pending_row[OF assms])

text \<open>The warnings of approvals that expire soon: only pending rows are marked.\<close>

definition warned :: "db \<Rightarrow> db \<Rightarrow> bool" where
  "warned d z = (rest_of_notices z = rest_of_notices d \<and> approvals_ok z \<and> approvals_follow d z
     \<and> map (\<lambda>p. (p_id p, p_status p)) (approvals z) = map (\<lambda>p. (p_id p, p_status p)) (approvals d)
     \<and> notification_deliveries z = notification_deliveries d \<and> (\<exists>ns. notification_events z = notification_events d @ ns))"

lemma warn_expiring_warned:
  assumes "warn_expiring amb (k, p) z = Inr z'" "warned d z" "p \<in> set (approvals d)" "p_status p = ''pending''"
  shows "warned d z'"
proof -
  from assms(1)[unfolded warn_expiring_def prod.case bindR_eq_Inr] obtain d1 ty a i pl where
    e: "enqueueNotificationEvent amb k ty a i pl z = Inr d1"
    and z': "z' = d1\<lparr>approvals := update_where (\<lambda>q. p_id q = p_id p) (\<lambda>q. q\<lparr>p_expiring_notified_at := Some (pg_now amb)\<rparr>) (approvals d1)\<rparr>"
    by auto
  from enqueueNotificationEvent_frame[OF e] obtain ns where d1: "d1 = z\<lparr>notification_events := notification_events z @ ns\<rparr>" by auto
  have w: "rest_of_notices z = rest_of_notices d" "approvals_ok z" "approvals_follow d z"
    "map (\<lambda>p. (p_id p, p_status p)) (approvals z) = map (\<lambda>p. (p_id p, p_status p)) (approvals d)"
    "notification_deliveries z = notification_deliveries d" "\<exists>ns. notification_events z = notification_events d @ ns"
    using assms(2) by (simp_all add: warned_def)
  have "approvals_ok d1" using approvals_ok_history[OF w(2), of d1] by (simp add: d1 history_extends_def)
  then have ok: "approvals_ok z'"
    by (rule approvals_ok_update[where P = "\<lambda>q. p_id q = p_id p"]) (auto simp: z' approval_ok_def continued_def)
  have pending: "p_status q = ''pending''" if q: "q \<in> set (approvals z)" "p_id q = p_id p" for q
  proof -
    have uniq: "distinct (map p_id (approvals z))" using w(2) by (simp add: approvals_ok_def)
    have "(p_id p, p_status p) \<in> set (map (\<lambda>p. (p_id p, p_status p)) (approvals z))" unfolding w(4) using assms(3) by simp
    then obtain u where "u \<in> set (approvals z)" "p_id u = p_id p" "p_status u = p_status p" by auto
    with key_unique[OF uniq q(1)] q(2) assms(4) show ?thesis by simp
  qed
  have "approvals_follow z z'" by (rule approvals_follow_update[where P = "\<lambda>q. p_id q = p_id p"]) (use pending in \<open>simp_all add: z' d1\<close>)
  with w(3) have follow: "approvals_follow d z'" by (simp add: approvals_follow_def)
  have "map (\<lambda>p. (p_id p, p_status p)) (approvals z') = map (\<lambda>p. (p_id p, p_status p)) (approvals z)"
    unfolding z' d1 by (simp add: map_update_where)
  with w ok follow show ?thesis by (auto simp: warned_def z' d1 rest_of_notices_def)
qed

lemma notice_op_effect:
  assumes "apply_notice_op x d = (ok, d')" "store_ok d"
  shows "rest_of_notices d' = rest_of_notices d" "approvals d' = approvals d \<or> approvals_ok d' \<and> approvals_follow d d'"
    "outbox_follow d d'"
proof -
  note inv = store_okD[OF assms(2)]
  have "rest_of_notices d' = rest_of_notices d \<and> (approvals d' = approvals d \<or> approvals_ok d' \<and> approvals_follow d d') \<and> outbox_follow d d'"
  proof (cases x)
    case (TestNoticeOp amb actor)
    with assms(1) obtain res where "EnqueueNotificationTest amb actor d = (res, d')" by (auto simp: report_eq)
    then have "sent d d'"
      unfolding EnqueueNotificationTest_def
      by (rule transact_cases) (auto simp: result_simps Let_def dest!: sent_frames elim: sent_trans)
    then show ?thesis by (auto simp: sent_def intro: outbox_follow_append)
  next
    case (ResendOp amb i actor)
    with assms(1) obtain res where r: "ResendPendingApprovalNotification amb i actor d = (res, d')" by (auto simp: report_eq)
    have resent: "sent d d'" if "transact (resend_notification amb actor p) d = (res, d')" for p
      using that by (rule transact_cases) (auto simp: resend_notification_def result_simps Let_def dest!: sent_frames elim: sent_trans)
    show ?thesis
    proof (cases "\<exists>p. approval_by_id d i = Some p \<and> p_status p = ''pending'' \<and> p_expires_at p \<le> go_now amb")
      case True
      then obtain p where p: "approval_by_id d i = Some p" "p_status p = ''pending''" "p_expires_at p \<le> go_now amb" by blast
      with r have d': "d' = d\<lparr>approvals := update_where (\<lambda>q. p_id q = i) expire_approval (approvals d)\<rparr>"
        by (simp add: ResendPendingApprovalNotification_def)
      have "approvals_follow d d'"
        by (rule approvals_follow_update[where P = "\<lambda>q. p_id q = i"]) (use pending_row[OF inv(4) p(1,2)] in \<open>simp_all add: d'\<close>)
      with expire_one[OF inv(4) p(1,2)] show ?thesis by (simp add: d' rest_of_notices_def)
    next
      case False
      with r have "d' = d \<or> (\<exists>p. transact (resend_notification amb actor p) d = (res, d'))"
        by (auto simp: ResendPendingApprovalNotification_def split: option.splits if_splits)
      with resent have "sent d d'" by auto
      then show ?thesis by (auto simp: sent_def intro: outbox_follow_append)
    qed
  next
    case (ExpiringOp amb horizon limit)
    with assms(1) obtain res where r: "EnqueueExpiringApprovalNotifications amb horizon limit d = (res, d')" by (auto simp: report_eq)
    have start: "warned d d" using inv(4) by (simp add: warned_def approvals_follow_same)
    let ?due = "\<lambda>n. select_limit (\<lambda>p. (p_expires_at p, collation amb (p_id p))) (expiring_soon amb horizon) n (approvals d)"
    have fold: "warned d d1" if "foldR (warn_expiring amb) (enumerate 0 (?due n)) d = Inr d1" for n d1
    proof (rule foldR_invariant[where P = "warned d", OF that start])
      fix item z z' assume item: "item \<in> set (enumerate 0 (?due n))" and z: "warned d z" "warn_expiring amb item z = Inr z'"
      obtain k p where kp: "item = (k, p)" by (cases item)
      with item have "p \<in> set (?due n)" by (auto simp: in_set_enumerate_eq)
      then have "p \<in> set (approvals d)" "p_status p = ''pending''" using set_select_limit by (fastforce simp: expiring_soon_def)+
      with warn_expiring_warned z kp show "warned d z'" by blast
    qed
    from r have "warned d d'"
      unfolding EnqueueExpiringApprovalNotifications_def
      by (rule transact_cases) (use start in \<open>auto simp: bindR_eq_Inr Let_def dest: fold\<close>)
    then show ?thesis by (auto simp: warned_def intro: outbox_follow_append)
  next
    case (ExpandOp amb i ts)
    with assms(1) obtain res where r: "ExpandNotificationEvent amb i ts d = (res, d')" by (auto simp: report_eq)
    have "rest_of_notices d' = rest_of_notices d \<and> approvals d' = approvals d"
      using r unfolding ExpandNotificationEvent_def
      by (rule transact_cases) (auto simp: result_simps rest_of_notices_def split: option.splits if_splits dest!: insert_deliveries_Inr)
    with ExpandNotificationEvent_follow[OF r inv(5)] show ?thesis by simp
  next
    case (AcquireDeliveryOp amb w)
    with assms(1) obtain res where r: "AcquireNotificationDelivery amb w d = (res, d')" by (auto simp: report_eq)
    then have "rest_of_notices d' = rest_of_notices d \<and> approvals d' = approvals d"
      by (cases rule: AcquireNotificationDelivery_cases) (simp_all add: rest_of_notices_def)
    with delivery_ops_follow(1)[OF r] show ?thesis by simp
  next
    case (DeliveredOp amb v w c)
    with assms(1) obtain res where r: "CompleteNotificationDelivery amb v w c d = (res, d')" by (auto simp: report_eq)
    then have "rest_of_notices d' = rest_of_notices d \<and> approvals d' = approvals d"
      unfolding CompleteNotificationDelivery_def
      by (rule transact_cases) (auto simp: result_simps Let_def rest_of_notices_def dest!: insertAuditEvent_frame)
    with delivery_ops_follow(2)[OF r] show ?thesis by simp
  next
    case (FailDeliveryOp amb v w msg rt)
    with assms(1) obtain res where r: "FailNotificationDelivery amb v w msg rt d = (res, d')" by (auto simp: report_eq)
    then have "rest_of_notices d' = rest_of_notices d \<and> approvals d' = approvals d"
      unfolding FailNotificationDelivery_def
      by (rule transact_cases) (auto simp: result_simps Let_def rest_of_notices_def split: option.splits if_splits dest!: insertAuditEvent_frame)
    with delivery_ops_follow(3)[OF r] show ?thesis by simp
  qed
  then show "rest_of_notices d' = rest_of_notices d" "approvals d' = approvals d \<or> approvals_ok d' \<and> approvals_follow d d'"
    "outbox_follow d d'" by blast+
qed

lemma notice_op_ok:
  assumes "apply_notice_op x d = (ok, d')" "store_ok d" shows "kept d d'"
proof -
  note inv = store_okD(5)[OF assms(2)]
  have "outbox_ok d'"
    using assms(1) EnqueueNotificationTest_ok[OF inv] ResendPendingApprovalNotification_ok[OF inv]
      EnqueueExpiringApprovalNotifications_ok[OF inv] ExpandNotificationEvent_ok[OF inv] AcquireNotificationDelivery_ok[OF inv]
      CompleteNotificationDelivery_ok[OF inv] FailNotificationDelivery_ok[OF inv]
    by (cases x) (auto simp: report_def)
  with notice_op_effect[OF assms] rest_of_notices_ok[OF assms(2)] show ?thesis by blast
qed

definition rest_of_approvals :: "db \<Rightarrow> _" where
  "rest_of_approvals d = (automations d, revisions d, triggers d, deployments d, secrets d, secret_references d,
     investigations d, investigation_versions d, automation_state d, notification_deliveries d)"

lemma record_decision_outbox:
  assumes "record_decision amb key action actor given m p d = Inr d'"
  shows "outbox_ok d \<Longrightarrow> outbox_ok d'" "rest_of_approvals d' = rest_of_approvals d"
proof -
  from assms[unfolded record_decision_def Let_def bindR_eq_Inr guardR_eq_Inr] obtain e x1 r x2 k act det x3 ty pl where
    a: "insert_event e d = Inr x1" and b: "insert_run r x1 = Inr x2"
    and c: "insertAuditEvent amb k act (p_automation_id p) actor det (x2\<lparr>approvals := update_where (\<lambda>q. p_id q = p_id p)
      (decided amb (decision_status action) actor \<lparr>rs_approval_id = p_id p, rs_key = p_approval_key p, rs_action = action, rs_fields = given\<rparr>
        (newID amb 1 ''run'')) (approvals x2)\<rparr>) = Inr x3"
    and n: "enqueueNotificationEvent amb 3 ty (p_automation_id p) (p_id p) pl x3 = Inr d'"
    by blast
  have "outbox_ok x1 = outbox_ok d" using a by (auto simp: insert_event_def result_simps)
  moreover have "outbox_ok x2 = outbox_ok x1" using b by (auto simp: insert_run_def result_simps)
  moreover have "outbox_ok x3 = outbox_ok x2" using insertAuditEvent_outbox[OF c] by simp
  ultimately show "outbox_ok d \<Longrightarrow> outbox_ok d'" using enqueueNotificationEvent_outbox[OF _ n] by blast
  from assms show "rest_of_approvals d' = rest_of_approvals d"
    by (rule record_decision_Inr) (simp add: rest_of_approvals_def)
qed

lemma ResolveApproval_frame:
  assumes "ResolveApproval amb i key vn action supplied actor d = (res, d')"
  shows "outbox_ok d \<Longrightarrow> outbox_ok d'" "rest_of_approvals d' = rest_of_approvals d"
proof -
  have "(outbox_ok d \<longrightarrow> outbox_ok d') \<and> rest_of_approvals d' = rest_of_approvals d"
  proof (cases res)
    case (Inl e)
    have get: "outbox_ok (snd (GetApproval amb i z)) = outbox_ok z \<and> rest_of_approvals (snd (GetApproval amb i z)) = rest_of_approvals z" for z
      by (simp add: GetApproval_def Let_def rest_of_approvals_def split: option.splits)
    have dec: "(outbox_ok d \<longrightarrow> outbox_ok z) \<and> rest_of_approvals z = rest_of_approvals d"
      if "decide amb key vn action supplied actor p d = Inr (u, z)" for p u z
      using that by (auto simp: decide_def result_simps split: option.splits dest: record_decision_outbox)
    from assms[unfolded Inl] dec get show ?thesis
      by (auto simp: ResolveApproval_def rest_of_approvals_def transact_def split: option.splits if_splits sum.splits prod.splits)
        (metis fst_conv snd_conv)+
  next
    case (Inr x)
    obtain q created where x: "x = (q, created)" by (cases x)
    from assms[unfolded Inr x] show ?thesis
    proof (cases rule: ResolveApproval_Inr)
      case (fresh p a v given d1)
      with decision_result(1)[OF fresh(2,10,11)] record_decision_outbox[OF fresh(10)] show ?thesis by simp
    qed simp
  qed
  then show "outbox_ok d \<Longrightarrow> outbox_ok d'" "rest_of_approvals d' = rest_of_approvals d" by blast+
qed

text \<open>A decision and an expiry change pending rows only, and the outbox only grows.\<close>

definition approvals_progress :: "db \<Rightarrow> db \<Rightarrow> bool" where
  "approvals_progress d d' = (approvals_follow d d' \<and> (\<exists>ns. notification_events d' = notification_events d @ ns))"

lemma approvals_progress_refl [simp]: "approvals_progress d d"
  by (simp add: approvals_progress_def approvals_follow_same)

lemma approvals_progress_trans: "approvals_progress d d1 \<Longrightarrow> approvals_progress d1 d2 \<Longrightarrow> approvals_progress d d2"
  by (auto simp: approvals_progress_def approvals_follow_def)

lemma lapse_progress:
  "approvals_progress d (d\<lparr>approvals := update_where (\<lambda>p. Q p \<and> lapsed amb p) expire_approval (approvals d)\<rparr>)"
proof -
  have "approvals_follow d (d\<lparr>approvals := update_where (\<lambda>p. Q p \<and> lapsed amb p) expire_approval (approvals d)\<rparr>)"
    by (rule approvals_follow_update[where P = "\<lambda>p. Q p \<and> lapsed amb p"]) (auto simp: lapsed_def)
  then show ?thesis by (simp add: approvals_progress_def)
qed

lemma GetApproval_progress: "GetApproval amb i d = (res, d') \<Longrightarrow> approvals_progress d d'"
  using lapse_progress[of d "\<lambda>p. p_id p = i" amb] by (auto simp: GetApproval_def Let_def split: option.splits)

lemma ResolveApproval_progress:
  assumes "ResolveApproval amb i key vn action supplied actor d = (res, d')" "approvals_ok d"
  shows "approvals_progress d d'"
proof (cases "approval_by_id d i")
  case None
  with assms(1) show ?thesis by (auto simp: ResolveApproval_def)
next
  case (Some p)
  note p = approval_table.lookup_SomeD[OF Some]
  have pending: "p_status q = ''pending''" if "p_status p = ''pending''" "q \<in> set (approvals d)" "p_id q = i" for q
    using pending_row[OF assms(2) Some that] .
  have dec: "approvals_progress d z" if r: "transact (decide amb key vn action supplied actor p) d = (Inr u, z)"
    and "p_status p = ''pending''" for u z
  proof -
    from r obtain given m where "record_decision amb key action actor given m p d = Inr z"
      by (auto simp: transact_eq_Inr decide_def result_simps split: option.splits)
    then show ?thesis
    proof (rule record_decision_Inr)
      fix as ns assume z: "z = d\<lparr>events := events d @ [continuation_event amb (newID amb 0 ''evt'') key actor
            \<lparr>rs_approval_id = p_id p, rs_key = p_approval_key p, rs_action = action, rs_fields = given\<rparr> p],
          runs := runs d @ [queued_run amb (newID amb 1 ''run'') (p_automation_id p) (p_revision_id p) (newID amb 0 ''evt'')
             (ex_retries (mf_execution m) + 1) (effective_policy m) (pg_now amb)],
          approvals := update_where (\<lambda>q. p_id q = p_id p) (decided amb (decision_status action) actor
            \<lparr>rs_approval_id = p_id p, rs_key = p_approval_key p, rs_action = action, rs_fields = given\<rparr> (newID amb 1 ''run'')) (approvals d),
          audit_events := audit_events d @ as, notification_events := notification_events d @ ns\<rparr>"
      have "approvals_follow d z"
        by (rule approvals_follow_update[where P = "\<lambda>q. p_id q = p_id p"]) (use pending that(2) p in \<open>simp_all add: z\<close>)
      then show ?thesis by (simp add: approvals_progress_def z)
    qed
  qed
  have expired: "approvals_progress d (d\<lparr>approvals := update_where (\<lambda>q. p_id q = i) expire_approval (approvals d)\<rparr>)"
    if "p_status p = ''pending''"
  proof -
    have "approvals_follow d (d\<lparr>approvals := update_where (\<lambda>q. p_id q = i) expire_approval (approvals d)\<rparr>)"
      by (rule approvals_follow_update[where P = "\<lambda>q. p_id q = i"]) (use pending[OF that] in simp_all)
    then show ?thesis by (simp add: approvals_progress_def)
  qed
  show ?thesis
  proof (cases "p_status p = ''pending''")
    case False
    with assms(1) Some show ?thesis by (auto simp: ResolveApproval_def split: if_splits)
  next
    case True
    show ?thesis
    proof (cases "p_expires_at p \<le> go_now amb")
      case late: True
      with assms(1) Some True have "d' = d\<lparr>approvals := update_where (\<lambda>q. p_id q = i) expire_approval (approvals d)\<rparr>"
        by (simp add: ResolveApproval_def)
      with expired[OF True] show ?thesis by simp
    next
      case False
      obtain r z where t: "transact (decide amb key vn action supplied actor p) d = (r, z)"
        by (cases "transact (decide amb key vn action supplied actor p) d")
      show ?thesis
      proof (cases r)
        case (Inl e)
        with t have "z = d" by (simp add: transact_eq_Inl)
        with assms(1) Some True False t Inl show ?thesis by (simp add: ResolveApproval_def)
      next
        case (Inr u)
        from assms(1) Some True False t Inr obtain r' where "GetApproval amb i z = (r', d')"
          by (cases "GetApproval amb i z") (auto simp: ResolveApproval_def split: sum.splits)
        with dec[OF t[unfolded Inr] True] GetApproval_progress show ?thesis by (blast intro: approvals_progress_trans)
      qed
    qed
  qed
qed

lemma approval_op_effect:
  assumes "apply_approval_op x d = (ok, d')" "store_ok d"
  shows "rest_of_approvals d' = rest_of_approvals d" "approvals_progress d d'"
proof -
  have "rest_of_approvals d' = rest_of_approvals d \<and> approvals_progress d d'"
  proof (cases x)
    case (ResolveOp amb i key vn action supplied actor)
    with assms(1) obtain res where "ResolveApproval amb i key vn action supplied actor d = (res, d')" by (auto simp: report_eq)
    from ResolveApproval_frame(2)[OF this] ResolveApproval_progress[OF this store_okD(4)[OF assms(2)]] show ?thesis by simp
  next
    case (ListApprovalsOp amb a st c l)
    with assms(1) lapse_progress[of d "\<lambda>_. True" amb] show ?thesis
      by (auto simp: ListApprovalsPage_def Let_def rest_of_approvals_def)
  next
    case (GetApprovalOp amb i)
    with assms(1) obtain res where r: "GetApproval amb i d = (res, d')" by (auto simp: report_eq)
    then have "rest_of_approvals d' = rest_of_approvals d"
      by (auto simp: GetApproval_def Let_def rest_of_approvals_def split: option.splits)
    with GetApproval_progress[OF r] show ?thesis by simp
  qed
  then show "rest_of_approvals d' = rest_of_approvals d" "approvals_progress d d'" by simp_all
qed

lemma approval_op_ok:
  assumes "apply_approval_op x d = (ok, d')" "store_ok d" shows "kept d d'"
proof -
  have out: "outbox_follow d d'"
    using approval_op_effect[OF assms] by (auto simp: approvals_progress_def rest_of_approvals_def intro: outbox_follow_append)
  have follow: "approvals_follow d d'" using approval_op_effect(2)[OF assms] by (simp add: approvals_progress_def)
  have "(queue_ok d \<longrightarrow> queue_ok d') \<and> history_extends d d' \<and> approvals_ok d' \<and> (outbox_ok d \<longrightarrow> outbox_ok d')"
  proof (cases x)
    case (ResolveOp amb i key vn action supplied actor)
    with assms(1) obtain res where r: "ResolveApproval amb i key vn action supplied actor d = (res, d')" by (auto simp: report_eq)
    from ResolveApproval_ok[OF r] ResolveApproval_frame(1)[OF r] store_okD(4)[OF assms(2)] show ?thesis by blast
  next
    case (ListApprovalsOp amb a st c l)
    with assms ListApprovalsPage_ok[OF store_okD(4)[OF assms(2)]] show ?thesis
      by (auto simp: ListApprovalsPage_def Let_def)
  next
    case (GetApprovalOp amb i)
    with assms GetApproval_ok[OF store_okD(4)[OF assms(2)], of amb i] show ?thesis
      by (auto simp: report_def GetApproval_def Let_def split: option.splits)
  qed
  with out follow approval_op_effect(1)[OF assms] show ?thesis
    by (intro store_ok_frame[OF assms(2)]) (auto simp: rest_of_approvals_def)
qed

section \<open>The catalog\<close>

definition rest_of_catalog :: "db \<Rightarrow> _" where
  "rest_of_catalog d = (events d, runs d, approvals d, notification_events d, notification_deliveries d, investigations d,
     investigation_versions d, automation_state d)"

lemma rest_of_catalog_ok:
  "store_ok d \<Longrightarrow> rest_of_catalog d' = rest_of_catalog d \<Longrightarrow> catalog_ok d' \<Longrightarrow> jobs_follow (deployments d) (deployments d') \<Longrightarrow>
    vault_ok d' \<Longrightarrow> kept d d'"
  by (rule store_ok_frame[of d d']) (auto simp: rest_of_catalog_def)

text \<open>
  What the publications rely on besides the checks of an activation: it names an artifact, and no
  other package of the automation with the same content hash names other secrets. The store
  accepts activations that do not meet this.
\<close>

fun proper_catalog_op :: "catalog_op \<Rightarrow> db \<Rightarrow> bool" where
  "proper_catalog_op (DeployOp amb m h path prov actor did w) d = (path \<noteq> [] \<and> hash_fixes_secrets d m h)"
| "proper_catalog_op _ d = True"

lemma deploy_store_ok:
  assumes "deploy amb m h path prov actor did w d = (res, d')" "store_ok d" shows "kept d d'"
proof (cases res)
  case Inl
  with assms(1) have "d' = d" unfolding deploy_def by (simp only: transact_eq_Inl)
  with assms(2) show ?thesis by simp
next
  case (Inr rid)
  note inv = store_okD[OF assms(2)]
  have "rest_of_catalog d' = rest_of_catalog d" using deploy_tables[OF assms(1)[unfolded Inr]] by (simp add: rest_of_catalog_def)
  then show ?thesis
    using rest_of_catalog_ok[OF assms(2)] deploy_catalog[OF assms(1) inv(2)] deploy_jobs(1)[OF assms(1)[unfolded Inr]]
      deploy_secrets(1)[OF assms(1) inv(7)] by blast
qed

lemma Rollback_store_ok:
  assumes "RollbackAutomation amb a i actor d = (res, d')" "store_ok d" shows "kept d d'"
proof (cases res)
  case Inl
  with assms(1) have "d' = d" unfolding RollbackAutomation_def by (simp only: transact_eq_Inl)
  with assms(2) show ?thesis by simp
next
  case (Inr changed)
  note inv = store_okD[OF assms(2)]
  from assms(1)[unfolded Inr] have "rest_of_catalog d' = rest_of_catalog d \<and> deployments d' = deployments d"
    by (cases rule: RollbackAutomation_Inr) (simp_all add: rest_of_catalog_def set_active_revision_def)
  then show ?thesis
    using rest_of_catalog_ok[OF assms(2)] RollbackAutomation_catalog[OF assms(1) inv(2)] RollbackAutomation_secrets(1)[OF assms(1) inv(7)]
    by auto
qed

lemma Adopt_rows:
  assumes "AdoptRevisionProvenance amb a i prov d = (res, d')"
  obtains "d' = d"
  | as where "d' = d\<lparr>revisions := update_where (\<lambda>v. rv_automation_id v = a \<and> rv_id v = i \<and> rv_provenance v = None)
        (\<lambda>v. v\<lparr>rv_provenance := Some prov\<rparr>) (revisions d),
      deployments := update_where (\<lambda>x. dp_revision_id x = Some i) (\<lambda>x. x\<lparr>dp_provenance := Some prov\<rparr>) (deployments d), audit_events := as\<rparr>"
  using assms unfolding AdoptRevisionProvenance_def
  by (rule transact_cases[where P = "\<lambda>z. z = d' \<longrightarrow> thesis", THEN mp])
    (auto simp: result_simps Let_def split: if_splits dest!: insertAuditEvent_frame)

lemma Adopt_core: "map revision_core (update_where P (\<lambda>v. v\<lparr>rv_provenance := q\<rparr>) vs) = map revision_core vs"
  by (rule map_update_where) simp

lemma Adopt_store_ok:
  assumes "AdoptRevisionProvenance amb a i prov d = (res, d')" "store_ok d" shows "kept d d'"
  using assms(1)
proof (rule Adopt_rows)
  note inv = store_okD[OF assms(2)]
  let ?vs = "update_where (\<lambda>v. rv_automation_id v = a \<and> rv_id v = i \<and> rv_provenance v = None) (\<lambda>v. v\<lparr>rv_provenance := Some prov\<rparr>) (revisions d)"
  let ?ds = "update_where (\<lambda>x. dp_revision_id x = Some i) (\<lambda>x. x\<lparr>dp_provenance := Some prov\<rparr>) (deployments d)"
  fix as assume d': "d' = d\<lparr>revisions := ?vs, deployments := ?ds, audit_events := as\<rparr>"
  have "catalog_ok d'" using catalogue_update[OF inv(2) refl Adopt_core refl] by (simp add: d')
  moreover have "jobs_follow (deployments d) ?ds"
    unfolding jobs_follow_def by (intro conjI impI deployments_update cancels_kept_update) (auto simp: deployment_ok_def)
  moreover have "vault_ok d'" using inv(7) vault_ok_same[of d' d] by (simp add: d')
  ultimately show ?thesis by (intro rest_of_catalog_ok[OF assms(2)]) (simp_all add: d' rest_of_catalog_def)
qed (use assms(2) in simp)

lemma Adopt_publications:
  assumes "AdoptRevisionProvenance amb a i prov d = (res, d')" "publications_ok d" shows "publications_ok d'"
  using assms(1)
proof (rule Adopt_rows)
  let ?vs = "update_where (\<lambda>v. rv_automation_id v = a \<and> rv_id v = i \<and> rv_provenance v = None) (\<lambda>v. v\<lparr>rv_provenance := Some prov\<rparr>) (revisions d)"
  fix as assume d': "d' = d\<lparr>revisions := ?vs,
    deployments := update_where (\<lambda>x. dp_revision_id x = Some i) (\<lambda>x. x\<lparr>dp_provenance := Some prov\<rparr>) (deployments d), audit_events := as\<rparr>"
  have "artifacts_retained d' = artifacts_retained d" by (rule artifacts_retained_core) (simp_all add: d' Adopt_core)
  moreover have "references_kept d'"
    using assms(2) by (auto simp: publications_ok_def references_kept_def d' set_update_where references_recorded_def recorded_reference_def)
  ultimately show ?thesis using assms(2) by (simp add: publications_ok_def)
qed (use assms(2) in simp)

lemma Enable_rows:
  assumes "SetAutomationEnabled amb a en actor d = (res, d')"
  obtains as tt au where "d' = d\<lparr>automations := as, triggers := tt, audit_events := au\<rparr>"
    "map automation_core as = map automation_core (automations d)" "map trigger_core tt = map trigger_core (triggers d)"
proof (cases res)
  case Inl
  with assms have "d' = d" unfolding SetAutomationEnabled_def by (simp only: transact_eq_Inl)
  then show ?thesis by (intro that[where as = "automations d" and tt = "triggers d" and au = "audit_events d"]) simp_all
next
  case (Inr changed)
  from SetAutomationEnabled_Inr[OF assms[unfolded Inr]] that show ?thesis by blast
qed

lemma Enable_store_ok:
  assumes "SetAutomationEnabled amb a en actor d = (res, d')" "store_ok d"
  shows "kept d d'" "publications_ok d' = publications_ok d"
proof -
  note inv = store_okD[OF assms(2)]
  from assms(1) have "kept d d' \<and> publications_ok d' = publications_ok d"
  proof (rule Enable_rows)
    fix as tt au assume d': "d' = d\<lparr>automations := as, triggers := tt, audit_events := au\<rparr>"
      and core: "map automation_core as = map automation_core (automations d)" "map trigger_core tt = map trigger_core (triggers d)"
    have "catalog_ok d'" using catalogue_update[OF inv(2) core(1) refl core(2)] by (simp add: d')
    moreover have "vault_ok d'" using vault_ok_same[of d' d] inv(7) by (simp add: d')
    ultimately have "kept d d'" by (intro rest_of_catalog_ok[OF assms(2)]) (simp_all add: d' rest_of_catalog_def)
    moreover have "publications_ok d' = publications_ok d" by (rule publications_ok_same) (simp_all add: d' core)
    ultimately show ?thesis by blast
  qed
  then show "kept d d'" "publications_ok d' = publications_ok d" by simp_all
qed

lemma catalog_op_ok:
  "apply_catalog_op x d = (ok, d') \<Longrightarrow> store_ok d \<Longrightarrow> kept d d'"
  by (cases x) (auto simp: report_eq intro: deploy_store_ok Rollback_store_ok Adopt_store_ok Enable_store_ok)

lemma catalog_op_publications:
  assumes "apply_catalog_op x d = (ok, d')" "store_ok d" "proper_catalog_op x d" "publications_ok d"
  shows "publications_ok d'"
proof (cases x)
  case (DeployOp amb m h path prov actor did w)
  with assms deploy_secrets(2)[of amb m h path prov actor did w d _ d', OF _ assms(4) store_okD(2)[OF assms(2)]] show ?thesis
    by (auto simp: report_eq)
next
  case (RollbackOp amb a i actor)
  with assms RollbackAutomation_secrets(2)[of amb a i actor d _ d'] show ?thesis by (auto simp: report_eq)
next
  case (EnableOp amb a en actor)
  with assms Enable_store_ok(2)[of amb a en actor d _ d'] show ?thesis by (auto simp: report_eq)
next
  case (AdoptOp amb a i prov)
  with assms Adopt_publications[of amb a i prov d _ d'] show ?thesis by (auto simp: report_eq)
qed

section \<open>Events and new runs\<close>

definition rest_of_queue :: "db \<Rightarrow> _" where
  "rest_of_queue d = (automations d, revisions d, deployments d, approvals d, notification_events d, notification_deliveries d,
     secrets d, secret_references d, investigations d, investigation_versions d, automation_state d)"

text \<open>New runs are added behind the others, queued and not yet attempted.\<close>

definition adds_runs :: "db \<Rightarrow> db \<Rightarrow> bool" where
  "adds_runs d d' = (\<exists>rs. runs d' = runs d @ rs \<and> list_all (\<lambda>r. r_status r = RunQueued \<and> r_attempt r = 0) rs)"

lemma adds_runs_same [simp]: "runs d' = runs d \<Longrightarrow> adds_runs d d'"
  by (simp add: adds_runs_def)

lemma adds_runs_trans: "adds_runs d d1 \<Longrightarrow> adds_runs d1 d2 \<Longrightarrow> adds_runs d d2"
  by (auto simp: adds_runs_def)

lemma rest_of_queue_ok:
  assumes "store_ok d" "rest_of_queue d' = rest_of_queue d" "queue_ok d'" "history_extends d d'"
    "map trigger_core (triggers d') = map trigger_core (triggers d)"
  shows "kept d d'"
proof -
  have "catalog_ok d'" using catalogue_update[OF store_okD(2)[OF assms(1)] refl refl assms(5)] assms(2) by (simp add: rest_of_queue_def)
  with assms show ?thesis by (intro store_ok_frame[OF assms(1)]) (auto simp: rest_of_queue_def)
qed

lemma enqueueEvent_rest:
  assumes "enqueueEvent amb k a t ty ext oc dt m d = Inr (res, d')"
  shows "rest_of_queue d' = rest_of_queue d \<and> triggers d' = triggers d \<and> adds_runs d d'"
proof -
  obtain rid created where res: "res = (rid, created)" by (cases res)
  from assms[unfolded res] show ?thesis
  proof (cases rule: enqueueEvent_cases)
    case (fresh tr v e avail)
    then show ?thesis by (auto simp: insert_run_def result_simps rest_of_queue_def adds_runs_def queued_run_def)
  qed simp
qed

lemma Ingest_rest:
  assumes "IngestEvent amb a t ty ext oc dt m d = (res, d')"
  shows "rest_of_queue d' = rest_of_queue d \<and> triggers d' = triggers d \<and> adds_runs d d'"
  using assms unfolding IngestEvent_def by (rule transact_cases) (auto dest: enqueueEvent_rest)

lemma Manual_rest:
  assumes "EnqueueManualRun amb a ext want dt actor d = (res, d')"
  shows "rest_of_queue d' = rest_of_queue d \<and> triggers d' = triggers d \<and> adds_runs d d'"
proof (cases res)
  case Inl
  with assms have "d' = d" unfolding EnqueueManualRun_def by (simp only: transact_eq_Inl)
  then show ?thesis by simp
next
  case (Inr x)
  obtain rid created where x: "x = (rid, created)" by (cases x)
  from assms[unfolded Inr x] show ?thesis
  proof (cases rule: EnqueueManualRun_cases)
    case fresh
    then show ?thesis by (auto simp: insert_run_def result_simps rest_of_queue_def adds_runs_def dest!: insertAuditEvent_frame)
  qed simp
qed

lemma fire_schedule_rest:
  assumes "fire_schedule amb item (n, d) = Inr (n', d')"
  shows "rest_of_queue d' = rest_of_queue d \<and> adds_runs d d'"
proof -
  obtain i t where item: "item = (i, t)" by (cases item)
  from assms[unfolded fire_schedule_def item Let_def prod.case bindR_eq_Inr] obtain following x k ty ext oc dt m where
    x: "enqueueEvent amb k (tr_automation_id t) (tr_id t) ty ext oc dt m
        (set_next_fire amb (tr_automation_id t) (tr_id t) following d) = Inr (x, d')"
    by (auto split: prod.splits)
  from enqueueEvent_rest[OF x] show ?thesis by (simp add: rest_of_queue_def set_next_fire_def adds_runs_def)
qed

lemma Schedules_rest:
  assumes "EnqueueDueSchedules amb now limit d = (res, d')"
  shows "rest_of_queue d' = rest_of_queue d \<and> adds_runs d d'"
proof -
  have "rest_of_queue (snd z) = rest_of_queue d \<and> adds_runs d (snd z)"
    if "foldR (fire_schedule amb) items (0, d) = Inr z" for items z
    by (rule foldR_invariant[where P = "\<lambda>z. rest_of_queue (snd z) = rest_of_queue d \<and> adds_runs d (snd z)", OF that])
      (auto dest!: fire_schedule_rest intro: adds_runs_trans)
  from assms this show ?thesis
    unfolding EnqueueDueSchedules_def by (rule_tac transact_cases) (auto simp: Let_def)
qed

lemma queue_op_ok:
  assumes "apply_queue_op x d = (ok, d')" "store_ok d"
  shows "kept d d'" "adds_runs d d'" "rest_of_queue d' = rest_of_queue d"
proof -
  note q = store_okD(1)[OF assms(2)]
  have "kept d d' \<and> adds_runs d d' \<and> rest_of_queue d' = rest_of_queue d"
  proof (cases x)
    case (IngestOp amb a t ty ext oc dt m)
    with assms(1) obtain res where r: "IngestEvent amb a t ty ext oc dt m d = (res, d')" by (auto simp: report_eq)
    with Ingest_rest[OF r] IngestEvent_ok(1)[OF q, of amb a t ty ext oc dt m] IngestEvent_ok(2)[of d amb a t ty ext oc dt m] show ?thesis
      by (auto intro: rest_of_queue_ok[OF assms(2)])
  next
    case (ManualOp amb a ext want dt actor)
    with assms(1) obtain res where r: "EnqueueManualRun amb a ext want dt actor d = (res, d')" by (auto simp: report_eq)
    with Manual_rest[OF r] EnqueueManualRun_ok(1)[OF r q] EnqueueManualRun_ok(2)[OF r] show ?thesis
      by (auto intro: rest_of_queue_ok[OF assms(2)])
  next
    case (SchedulesOp amb now limit)
    with assms(1) obtain res where r: "EnqueueDueSchedules amb now limit d = (res, d')" by (auto simp: report_eq)
    from Schedules_rest[OF r] EnqueueDueSchedules_ok[OF r] EnqueueDueSchedules_catalog[OF r] q show ?thesis
      by (auto intro: rest_of_queue_ok[OF assms(2)])
  qed
  then show "kept d d'" "adds_runs d d'" "rest_of_queue d' = rest_of_queue d" by simp_all
qed

section \<open>Leased runs\<close>

definition rest_of_runs :: "db \<Rightarrow> _" where
  "rest_of_runs d = (automations d, revisions d, triggers d, deployments d, secrets d, secret_references d, investigations d,
     investigation_versions d)"

lemma rest_of_runs_ok:
  assumes "store_ok d" "rest_of_runs d' = rest_of_runs d" "queue_ok d'" "history_extends d d'"
    "\<exists>ps. approvals d' = approvals d @ ps" "approvals_ok d'" "outbox_ok d'" "\<exists>ns. notification_events d' = notification_events d @ ns"
    "notification_deliveries d' = notification_deliveries d"
    "automation_state d' = automation_state d \<or> states_ok d' \<and> states_follow d d'"
  shows "kept d d'"
proof -
  have "approvals_follow d d'" "outbox_follow d d'" using assms(5,8,9) approvals_follow_append outbox_follow_append by blast+
  with assms show ?thesis by (intro store_ok_frame[OF assms(1)]) (auto simp: rest_of_runs_def)
qed

lemma request_notification_outbox:
  "request_notification amb run item d = Inr d' \<Longrightarrow> outbox_ok d \<Longrightarrow> outbox_ok d'"
  using enqueueNotificationEvent_outbox insertAuditEvent_outbox
  by (fastforce simp: request_notification_def Let_def bindR_eq_Inr split: prod.splits)

lemma request_approval_outbox:
  assumes "request_approval amb k run rq d = Inr d'" "outbox_ok d" shows "outbox_ok d'"
proof -
  from assms(1)[unfolded request_approval_def Let_def guardR_eq_Inr bindR_eq_Inr] obtain ps x where
    a: "insertAuditEvent amb (k + 1) ''approval.requested'' (r_automation_id (rr_run run)) (''run:'' @ r_id (rr_run run))
        [(''approvalId'', DString (newID amb k ''approval'')), (''revisionId'', DString (r_revision_id (rr_run run))),
         (''key'', DString (ar_key rq))] (d\<lparr>approvals := ps\<rparr>) = Inr x"
    and n: "\<exists>ty a i pl. enqueueNotificationEvent amb (k + 2) ty a i pl x = Inr d'" by blast
  from insertAuditEvent_outbox[OF a] assms(2) have "outbox_ok x" by simp
  with n show ?thesis using enqueueNotificationEvent_outbox by blast
qed

lemma enqueueDeferredRun_outbox:
  "enqueueDeferredRun amb k run rq d = Inr d' \<Longrightarrow> outbox_ok d' = outbox_ok d"
  by (auto simp: enqueueDeferredRun_def Let_def bindR_eq_Inr insert_event_def insert_run_def guardR_eq_Inr)

lemma CompleteRun_outbox:
  assumes "CompleteRun amb run w lg rs st ctl d = (Inr (), d')" "outbox_ok d" shows "outbox_ok d'"
proof -
  let ?d0 = "d\<lparr>runs := update_where (owns_run (r_id (rr_run run)) w) (finish_run amb RunSucceeded lg rs []) (runs d)\<rparr>"
  from assms(1)[unfolded CompleteRun_def transact_eq_Inr Let_def guardR_eq_Inr bindR_eq_Inr]
  obtain x1 x2 x3 items where x1: "save_state amb run st ?d0 = Inr x1"
    and x2: "optionally (enqueueDeferredRun amb 0 run) (rc_defer ctl) x1 = Inr x2"
    and x3: "optionally (request_approval amb 2 run) (rc_approval ctl) x2 = Inr x3"
    and x4: "foldR (request_notification amb run) items x3 = Inr d'"
    by blast
  have "outbox_ok x1" using save_state_frame[OF x1] assms(2) by auto
  then have "outbox_ok x2" using x2 enqueueDeferredRun_outbox by (auto simp: optionally_def split: option.splits)
  then have "outbox_ok x3" using x3 request_approval_outbox by (auto simp: optionally_def split: option.splits)
  then show ?thesis by (rule foldR_invariant[where P = outbox_ok, OF x4]) (rule request_notification_outbox)
qed

lemma CompleteRun_store_ok:
  assumes "CompleteRun amb run w lg rs st ctl d = (res, d')" "store_ok d" shows "kept d d'"
proof (cases res)
  case Inl
  with assms(1) have "d' = d" unfolding CompleteRun_def by (simp only: transact_eq_Inl)
  with assms(2) show ?thesis by simp
next
  case (Inr u)
  note inv = store_okD[OF assms(2)] and r = assms(1)[unfolded Inr]
  from r have r': "CompleteRun amb run w lg rs st ctl d = (Inr (), d')" by simp
  note hist = CompleteRun_ok(2)[OF assms(1)]
  have old: "approvals_ok (d'\<lparr>approvals := approvals d\<rparr>)"
    using approvals_ok_history[OF inv(4), of "d'\<lparr>approvals := approvals d\<rparr>"] hist by (simp add: history_extends_def)
  from r' show ?thesis
  proof (cases rule: CompleteRun_Inr)
    case (1 d1 es rn ss ps ns as)
    have new: "approvals d' = approvals d @ ps" by (simp add: 1(4))
    have "approvals_ok d'"
    proof (cases "rc_approval ctl")
      case None
      with old new 1(7) show ?thesis by (simp add: approvals_ok_def)
    next
      case (Some rq)
      from old new 1(8)[OF this] show ?thesis
        by (auto simp: approvals_ok_def conflicts_def requested_approval_def approval_ok_def continued_def image_iff)
    qed
    then show ?thesis
      using CompleteRun_ok(1)[OF assms(1) inv(1)] hist CompleteRun_outbox[OF r' inv(5)] CompleteRun_follow[OF r'] inv(8)
      by (intro rest_of_runs_ok[OF assms(2)]) (simp_all add: 1(2,4) rest_of_runs_def)
  qed
qed

lemma FailRun_outbox:
  assumes "FailRun amb run w lg msg d = (Inr (), d')" "outbox_ok d" shows "outbox_ok d'"
proof (cases "r_attempt run < r_max_attempts run")
  case True
  with assms(1) have "\<exists>rs. d' = d\<lparr>runs := rs\<rparr>"
    unfolding FailRun_def transact_eq_Inr Let_def by (auto simp: guardR_eq_Inr split: option.splits)
  with assms(2) show ?thesis by auto
next
  case False
  with assms(1) obtain rs x where
    n: "enqueueNotificationEvent amb 0 ''run.failed'' (r_automation_id run) (r_id run)
       [(''runId'', DString (r_id run)), (''attempts'', DInt (r_attempt run))] (d\<lparr>runs := rs\<rparr>) = Inr x"
    and a: "\<exists>ds. insertAuditEvent amb 1 ''run.failed'' (r_automation_id run) (''run:'' @ r_id run) ds x = Inr d'"
    unfolding FailRun_def transact_eq_Inr Let_def by (auto simp: guardR_eq_Inr bindR_eq_Inr split: option.splits)
  from enqueueNotificationEvent_outbox[OF _ n] assms(2) a show ?thesis using insertAuditEvent_outbox by auto
qed

lemma FailRun_store_ok:
  assumes "FailRun amb run w lg msg d = (res, d')" "store_ok d" shows "kept d d'"
proof (cases res)
  case Inl
  with assms(1) have "d' = d" unfolding FailRun_def by (simp only: transact_eq_Inl)
  with assms(2) show ?thesis by simp
next
  case (Inr u)
  note inv = store_okD[OF assms(2)]
  from assms(1) Inr have r: "FailRun amb run w lg msg d = (Inr (), d')" by simp
  have out: "outbox_ok d'" by (rule FailRun_outbox[OF r inv(5)])
  from r show ?thesis
  proof (cases rule: FailRun_Inr)
    case (1 dl ns as)
    have "approvals_ok d'" using approvals_ok_history[OF inv(4), of d'] FailRun_ok[OF assms(1)] by (simp add: 1(4))
    with out FailRun_ok[OF assms(1)] inv(1) show ?thesis
      by (intro rest_of_runs_ok[OF assms(2)]) (simp_all add: 1(4) rest_of_runs_def)
  qed
qed

lemma run_op_ok:
  assumes "apply_run_op x d = (ok, d')" "store_ok d" shows "kept d d'"
proof -
  note inv = store_okD[OF assms(2)]
  have only: "kept d d'" if "queue_ok d'" "history_extends d d'" "d' = d\<lparr>runs := rs\<rparr>" for rs
    using that approvals_ok_history[OF inv(4), of d'] inv(5) by (intro rest_of_runs_ok[OF assms(2)]) (simp_all add: rest_of_runs_def)
  show ?thesis
  proof (cases x)
    case (AcquireRunOp amb w l)
    with assms(1) obtain res where r: "AcquireRun_from amb w l d d = (res, d')" by (auto simp: report_eq AcquireRun_def)
    from AcquireRun_from_state[OF r] have "\<exists>rs. d' = d\<lparr>runs := rs\<rparr>"
      by (elim disjE exE) (auto intro: exI[of _ "runs d"])
    then show ?thesis using only AcquireRun_from_ok(1)[OF r inv(1)] AcquireRun_from_ok(2)[OF r] by blast
  next
    case (RenewRunOp amb k w l)
    with assms(1) obtain res where r: "RenewRunLease amb k w l d = (res, d')" by (auto simp: report_eq)
    then have "\<exists>rs. d' = d\<lparr>runs := rs\<rparr>" by (auto simp: RenewRunLease_def)
    then show ?thesis using only RenewRunLease_ok(1)[OF r inv(1)] RenewRunLease_ok(2)[OF r] by blast
  next
    case (ReleaseRunOp amb run w lg reason)
    with assms(1) obtain res where r: "ReleaseRun amb run w lg reason d = (res, d')" by (auto simp: report_eq)
    then have "d' = d \<or> (\<exists>rs. d' = d\<lparr>runs := rs\<rparr>)"
      unfolding ReleaseRun_def by (rule transact_cases) (auto simp: result_simps Let_def)
    then show ?thesis using only ReleaseRun_ok[OF r] inv(1) assms(2) by (metis kept_refl)
  next
    case (CompleteRunOp amb run w lg rs st ctl)
    with assms show ?thesis by (auto simp: report_eq intro: CompleteRun_store_ok)
  next
    case (FailRunOp amb run w lg msg)
    with assms show ?thesis by (auto simp: report_eq intro: FailRun_store_ok)
  qed
qed

lemma run_op_rest:
  assumes "apply_run_op x d = (ok, d')" shows "rest_of_runs d' = rest_of_runs d"
proof (cases x)
  case (AcquireRunOp amb w l)
  with assms obtain res where "AcquireRun_from amb w l d d = (res, d')" by (auto simp: report_eq AcquireRun_def)
  from AcquireRun_from_state[OF this] show ?thesis by (elim disjE exE conjE) (simp_all add: rest_of_runs_def)
next
  case (RenewRunOp amb k w l)
  with assms show ?thesis by (auto simp: report_eq RenewRunLease_def rest_of_runs_def)
next
  case (ReleaseRunOp amb run w lg reason)
  with assms obtain res where "ReleaseRun amb run w lg reason d = (res, d')" by (auto simp: report_eq)
  then show ?thesis unfolding ReleaseRun_def by (rule transact_cases) (auto simp: result_simps Let_def rest_of_runs_def)
next
  case (CompleteRunOp amb run w lg rs st ctl)
  with assms obtain res where r: "CompleteRun amb run w lg rs st ctl d = (res, d')" by (auto simp: report_eq)
  show ?thesis
  proof (cases res)
    case Inl
    with r have "d' = d" unfolding CompleteRun_def by (simp only: transact_eq_Inl)
    then show ?thesis by simp
  next
    case (Inr u)
    with r have "CompleteRun amb run w lg rs st ctl d = (Inr (), d')" by simp
    then show ?thesis by (cases rule: CompleteRun_Inr) (simp add: rest_of_runs_def)
  qed
next
  case (FailRunOp amb run w lg msg)
  with assms obtain res where r: "FailRun amb run w lg msg d = (res, d')" by (auto simp: report_eq)
  show ?thesis
  proof (cases res)
    case Inl
    with r have "d' = d" unfolding FailRun_def by (simp only: transact_eq_Inl)
    then show ?thesis by simp
  next
    case (Inr u)
    with r have "FailRun amb run w lg msg d = (Inr (), d')" by simp
    then show ?thesis by (cases rule: FailRun_Inr) (simp add: rest_of_runs_def)
  qed
qed

section \<open>Reachable states\<close>

text \<open>Every operation, whatever its arguments and whether it succeeds, keeps the invariant and undoes nothing.\<close>

lemma apply_op_kept:
  assumes "apply_op op d = (ok, d')" "store_ok d" shows "kept d d'"
  using assms queue_op_ok(1) run_op_ok approval_op_ok catalog_op_ok deployment_op_ok notice_op_ok secret_op_ok investigation_op_ok
    retention_op_ok by (cases op) auto

inductive reachable :: "db \<Rightarrow> db \<Rightarrow> bool" for d where
  start: "reachable d d"
| step: "reachable d d1 \<Longrightarrow> apply_op op d1 = (ok, d2) \<Longrightarrow> reachable d d2"

lemma reachable_kept: "reachable d d' \<Longrightarrow> store_ok d \<Longrightarrow> kept d d'"
proof (induction rule: reachable.induct)
  case (step d1 op ok d2)
  then have k: "kept d d1" by simp
  then have "kept d1 d2" using apply_op_kept[OF step(2)] by (simp add: kept_def)
  with k show ?case using follows_trans by (auto simp: kept_def)
qed simp

lemma reachable_one: "reachable d (snd (apply_op op d))"
  by (rule reachable.step[OF reachable.start, where op = op and ok = "fst (apply_op op d)"]) simp

text \<open>The states reached when every activation names an artifact and no content hashes collide.\<close>

definition proper_op :: "store_op \<Rightarrow> db \<Rightarrow> bool" where
  "proper_op op d = (case op of CatalogStep x \<Rightarrow> proper_catalog_op x d | _ \<Rightarrow> True)"

inductive properly_reachable :: "db \<Rightarrow> db \<Rightarrow> bool" for d where
  proper_start: "properly_reachable d d"
| proper_step: "properly_reachable d d1 \<Longrightarrow> proper_op op d1 \<Longrightarrow> apply_op op d1 = (ok, d2) \<Longrightarrow> properly_reachable d d2"

lemma properly_reachable_reachable: "properly_reachable d d' \<Longrightarrow> reachable d d'"
  by (induction rule: properly_reachable.induct) (auto intro: reachable.intros)

lemma apply_op_publications:
  assumes "apply_op op d = (ok, d')" "store_ok d" "proper_op op d" "publications_ok d" shows "publications_ok d'"
proof -
  have same: "publications_ok d'" if "publication_rows d' = publication_rows d" using publication_rows_ok[OF that] assms(4) by simp
  show ?thesis
  proof (cases op)
    case (CatalogStep x)
    with assms catalog_op_publications[of x d ok d'] show ?thesis by (simp add: proper_op_def)
  next
    case (RetentionStep x)
    with assms retention_op_publications[of x d ok d'] show ?thesis by simp
  next
    case (QueueStep x)
    with assms queue_op_ok(3)[of x d ok d'] show ?thesis by (intro same) (simp add: rest_of_queue_def publication_rows_def)
  next
    case (RunStep x)
    with assms run_op_rest[of x d ok d'] show ?thesis by (intro same) (simp add: rest_of_runs_def publication_rows_def)
  next
    case (ApprovalStep x)
    with assms approval_op_effect(1)[of x d ok d'] show ?thesis by (intro same) (simp add: rest_of_approvals_def publication_rows_def)
  next
    case (DeploymentStep x)
    with assms deployment_op_frame[of x d ok d'] show ?thesis by (intro same) (auto simp: job_frame_def publication_rows_def)
  next
    case (NoticeStep x)
    with assms notice_op_effect(1)[of x d ok d'] show ?thesis by (intro same) (simp add: rest_of_notices_def publication_rows_def)
  next
    case (SecretStep x)
    with assms secret_op_rest[of x d ok d'] show ?thesis by (intro same) (simp add: rest_of_secrets_def publication_rows_def)
  next
    case (InvestigationStep x)
    with assms investigation_op_rest[of x d ok d'] show ?thesis by (intro same) (simp add: rest_of_investigations_def publication_rows_def)
  qed
qed

lemma properly_reachable_publications:
  "properly_reachable d d' \<Longrightarrow> store_ok d \<Longrightarrow> publications_ok d \<Longrightarrow> publications_ok d'"
proof (induction rule: properly_reachable.induct)
  case (proper_step d1 op ok d2)
  then have "store_ok d1" using reachable_kept[OF properly_reachable_reachable[OF proper_step(1)]] by (simp add: kept_def)
  with proper_step show ?case using apply_op_publications by blast
qed simp

lemma empty_store_ok: "store_ok empty_db"
  by (simp add: store_ok_def empty_db_def queue_tables_ok_def catalogue_ok_def deployments_ok_def approvals_ok_def
      outbox_tables_ok_def investigations_ok_def vault_ok_def states_ok_def)

lemma empty_publications_ok: "publications_ok empty_db"
  by (simp add: publications_ok_def artifacts_retained_def references_kept_def empty_db_def)

section \<open>Only the run queue changes runs\<close>

lemma notice_op_runs: "apply_notice_op x d = (ok, d') \<Longrightarrow> runs d' = runs d"
proof (cases x)
  case (ExpiringOp amb horizon limit)
  assume "apply_notice_op x d = (ok, d')"
  with ExpiringOp obtain res where r: "EnqueueExpiringApprovalNotifications amb horizon limit d = (res, d')" by (auto simp: report_eq)
  have "runs d1 = runs d" if "foldR (warn_expiring amb) xs d = Inr d1" for xs d1
    by (rule foldR_invariant[where P = "\<lambda>z. runs z = runs d", OF that])
      (auto simp: warn_expiring_def bindR_eq_Inr split: prod.splits dest!: enqueueNotificationEvent_frame)
  from r this show ?thesis
    unfolding EnqueueExpiringApprovalNotifications_def by (rule_tac transact_cases) (auto simp: bindR_eq_Inr Let_def)
next
  case (ExpandOp amb i ts)
  assume "apply_notice_op x d = (ok, d')"
  with ExpandOp obtain res where "ExpandNotificationEvent amb i ts d = (res, d')" by (auto simp: report_eq)
  then show ?thesis unfolding ExpandNotificationEvent_def
    by (rule transact_cases) (auto simp: result_simps split: option.splits if_splits dest!: insert_deliveries_Inr)
qed (auto simp: report_eq EnqueueNotificationTest_def ResendPendingApprovalNotification_def resend_notification_def
    AcquireNotificationDelivery_def CompleteNotificationDelivery_def FailNotificationDelivery_def insert_notification_def
    result_simps Let_def split: option.splits if_splits elim!: transact_cases)

lemma catalog_op_runs:
  assumes "apply_catalog_op x d = (ok, d')" shows "runs d' = runs d"
proof (cases x)
  case (DeployOp amb m h path prov actor did w)
  with assms obtain res where r: "deploy amb m h path prov actor did w d = (res, d')" by (auto simp: report_eq)
  show ?thesis
  proof (cases res)
    case Inl
    with r have "d' = d" unfolding deploy_def by (simp only: transact_eq_Inl)
    then show ?thesis by simp
  qed (use r deploy_tables(2) in blast)
next
  case (RollbackOp amb a i actor)
  with assms obtain res where r: "RollbackAutomation amb a i actor d = (res, d')" by (auto simp: report_eq)
  show ?thesis
  proof (cases res)
    case Inl
    with r have "d' = d" unfolding RollbackAutomation_def by (simp only: transact_eq_Inl)
    then show ?thesis by simp
  next
    case (Inr changed)
    from r[unfolded Inr] show ?thesis
      by (cases rule: RollbackAutomation_Inr) (simp_all add: set_active_revision_def)
  qed
next
  case (EnableOp amb a en actor)
  with assms obtain res where r: "SetAutomationEnabled amb a en actor d = (res, d')" by (auto simp: report_eq)
  show ?thesis
  proof (cases res)
    case Inl
    with r have "d' = d" unfolding SetAutomationEnabled_def by (simp only: transact_eq_Inl)
    then show ?thesis by simp
  next
    case (Inr changed)
    from SetAutomationEnabled_Inr[OF r[unfolded Inr]] show ?thesis by auto
  qed
next
  case (AdoptOp amb a i prov)
  with assms obtain res where "AdoptRevisionProvenance amb a i prov d = (res, d')" by (auto simp: report_eq)
  then show ?thesis unfolding AdoptRevisionProvenance_def
    by (rule transact_cases) (auto simp: result_simps Let_def split: if_splits dest!: insertAuditEvent_frame)
qed

lemma GetApproval_runs: "runs (snd (GetApproval amb i d)) = runs d"
  by (simp add: GetApproval_def Let_def split: option.splits)

lemma decide_adds:
  assumes "decide amb key vn action supplied actor p d = Inr (u, d')" shows "adds_runs d d'"
proof -
  have rec: "adds_runs d z" if "record_decision amb key action actor given m p d = Inr z" for given m z
    using that by (rule record_decision_Inr) (auto simp: adds_runs_def queued_run_def)
  from assms show ?thesis by (auto simp: decide_def result_simps split: option.splits dest: rec)
qed

lemma approval_op_runs:
  assumes "apply_approval_op x d = (ok, d')" shows "adds_runs d d'"
proof (cases x)
  case (ResolveOp amb i key vn action supplied actor)
  have get: "adds_runs d (snd (GetApproval amb i z))" if "adds_runs d z" for z
    using that by (simp add: adds_runs_def GetApproval_runs)
  have txn: "adds_runs d (snd (transact (decide amb key vn action supplied actor p) d))" for p
    using decide_adds[of amb key vn action supplied actor p d]
    by (auto simp: transact_def split: sum.splits prod.splits)
  have "adds_runs d (snd (ResolveApproval amb i key vn action supplied actor d))"
    using txn get by (auto simp: ResolveApproval_def split: option.splits sum.splits prod.splits) (metis snd_conv)+
  with ResolveOp assms show ?thesis by (auto simp: report_def)
qed (use assms GetApproval_runs in \<open>auto simp: report_def ListApprovalsPage_def Let_def\<close>)

end
