(* ===== verification/SystemProofs.thy ===== *)
theory SystemProofs
  imports StoreOps
begin

text \<open>
  Properties of arbitrary sequences of store operations: the invariant of all tables in every
  reachable state, the lasting answer to a delivered event, and what an operation that reports an
  error may have changed.
\<close>

section \<open>Operations that fail\<close>

text \<open>
  The writes that outlive an error: a claim of work whose stored location cannot be resolved, the
  mark of an approval found expired, and the content digest computed for a key used before.
\<close>

definition expired_mark :: "ambient \<Rightarrow> string \<Rightarrow> db \<Rightarrow> db \<Rightarrow> bool" where
  "expired_mark amb i d d' = (\<exists>p \<in> set (approvals d). p_id p = i \<and> p_status p = ''pending'' \<and> p_expires_at p \<le> go_now amb
     \<and> d' = d\<lparr>approvals := update_where (\<lambda>q. p_id q = i) expire_approval (approvals d)\<rparr>)"

fun failed_effect :: "store_op \<Rightarrow> db \<Rightarrow> db \<Rightarrow> bool" where
  "failed_effect (RunStep (AcquireRunOp amb w l)) d d' =
     (\<exists>c \<in> set (runs d). run_candidate amb d c \<and> d' = d\<lparr>runs := update_where (\<lambda>r. r_id r = r_id c) (claim_run amb w l) (runs d)\<rparr>)"
| "failed_effect (DeploymentStep (AcquireDeploymentOp amb w l)) d d' =
     (\<exists>c \<in> set (deployments d). deployment_candidate amb c
       \<and> d' = d\<lparr>deployments := update_where (\<lambda>x. dp_id x = dp_id c) (claim_deployment amb w l) (deployments d)\<rparr>)"
| "failed_effect (DeploymentStep (CreateDeploymentOp dg amb i k pd cd src actor)) d d' =
     (\<exists>digest. d' = d\<lparr>deployments := update_where (\<lambda>y. dp_idempotency_key y = k \<and> dp_content_digest y = [])
       (\<lambda>y. y\<lparr>dp_content_digest := digest\<rparr>) (deployments d)\<rparr>)"
| "failed_effect (ApprovalStep (ResolveOp amb i key vn action supplied actor)) d d' = expired_mark amb i d d'"
| "failed_effect (NoticeStep (ResendOp amb i actor)) d d' = expired_mark amb i d d'"
| "failed_effect _ d d' = False"

lemma report_False: "report r = (False, d') \<Longrightarrow> \<exists>e. r = (Inl e, d')"
  by (cases r; cases "fst r") (auto simp: report_def)

lemma transact_failed: "report (transact body d) = (False, d') \<Longrightarrow> d' = d"
  by (auto simp: transact_eq_Inl dest!: report_False)

lemma ResolveApproval_failed:
  assumes "ResolveApproval amb i key vn action supplied actor d = (Inl e, d')"
  shows "d' = d \<or> expired_mark amb i d d'"
proof (cases "approval_by_id d i")
  case None
  with assms show ?thesis by (simp add: ResolveApproval_def)
next
  case (Some p)
  note p = approval_table.lookup_SomeD[OF Some]
  show ?thesis
  proof (cases "p_status p = ''pending'' \<and> p_expires_at p \<le> go_now amb")
    case True
    with assms Some p show ?thesis by (auto simp: ResolveApproval_def expired_mark_def)
  next
    case False
    have found: "fst (GetApproval amb i d1) \<noteq> Inl x" if "decide amb key vn action supplied actor p d = Inr (u, d1)" for u d1 x
    proof -
      from that obtain given m where "record_decision amb key action actor given m p d = Inr d1"
        by (auto simp: decide_def result_simps split: option.splits)
      from decision_lookup(1)[OF Some this] have "approval_by_id d1 i \<noteq> None" by simp
      then have "find (\<lambda>p. p_id p = i) (update_where (\<lambda>p. p_id p = i \<and> lapsed amb p) expire_approval (approvals d1)) \<noteq> None"
        unfolding approval_by_id_def find_eq_None
        using ex_update_where[of "\<lambda>p. p_id p = i" expire_approval "\<lambda>p. p_id p = i \<and> lapsed amb p" "approvals d1"]
        by (auto simp: expire_approval_def)
      then show ?thesis by (auto simp: GetApproval_def Let_def approval_by_id_def split: option.splits)
    qed
    with False assms Some show ?thesis
      by (auto simp: ResolveApproval_def transact_def split: if_splits sum.splits prod.splits) (metis fst_conv)+
  qed
qed

lemma Resend_failed:
  assumes "ResendPendingApprovalNotification amb i actor d = (Inl e, d')" shows "d' = d \<or> expired_mark amb i d d'"
  using assms approval_table.lookup_SomeD
  by (auto simp: ResendPendingApprovalNotification_def expired_mark_def transact_eq_Inl split: option.splits if_splits)

lemma CreateDeployment_failed:
  assumes "CreateDeployment dg amb i k pd cd src actor d = (Inl e, d')"
  shows "d' = d \<or> failed_effect (DeploymentStep (CreateDeploymentOp dg amb i k pd cd src actor)) d d'"
proof (cases "recorded_location amb src")
  case (Inl x)
  with assms show ?thesis by (simp add: CreateDeployment_def)
next
  case (Inr location)
  let ?row = "new_deployment amb i k pd cd location actor None False"
  show ?thesis
  proof (cases "conflicts dp_idempotency_key ?row (deployments d)")
    case True
    have "d2 = d \<or> failed_effect (DeploymentStep (CreateDeploymentOp dg amb i k pd cd src actor)) d d2"
      if "deploymentContentDigest dg amb k d = (res, d2)" for res d2
      using that by (auto simp: deploymentContentDigest_def split: option.splits if_splits sum.splits)
    with True Inr assms show ?thesis
      by (auto simp: CreateDeployment_def insert_deployment_def split: prod.splits sum.splits if_splits option.splits)
  next
    case False
    have "deployment_by_key (d\<lparr>deployments := deployments d @ [?row]\<rparr>) k \<noteq> None"
      by (auto simp: deployment_by_key_def find_append new_deployment_def split: option.splits)
    with False Inr assms show ?thesis
      by (auto simp: CreateDeployment_def insert_deployment_def guardR_def getDeploymentByIdempotencyKey_def
          split: if_splits option.splits sum.splits)
  qed
qed

lemma RetryDeployment_failed:
  assumes "RetryDeployment isDir amb orig i k actor strand d = (Inl e, d')" shows "d' = d"
proof -
  have new: "deployment_by_key (d\<lparr>deployments := deployments d @ [x]\<rparr>) k = Some x" if "deployment_by_key d k = None" "dp_idempotency_key x = k" for x
    using that by (auto simp: deployment_by_key_def find_append)
  have no: "\<not> conflicts dp_idempotency_key x (deployments d)" if "deployment_by_key d k = None" "dp_idempotency_key x = k" for x
    using that by (auto simp: deployment_by_key_def find_eq_None conflicts_def)
  from assms show ?thesis
    by (auto simp: RetryDeployment_def insert_deployment_def guardR_def getDeploymentByIdempotencyKey_def new no new_deployment_def
        split: if_splits option.splits sum.splits)
qed

lemma AcquireRun_failed:
  assumes "AcquireRun amb w l d = (Inl e, d')" shows "d' = d \<or> failed_effect (RunStep (AcquireRunOp amb w l)) d d'"
  using AcquireRun_from_state[OF assms[unfolded AcquireRun_def]]
proof (elim disjE exE conjE)
  fix c assume c: "select_first (\<lambda>r. (r_available_at r, r_created_at r)) (run_candidate amb d) (runs d) = Some c"
    and d': "d' = d\<lparr>runs := update_where (\<lambda>r. r_id r = r_id c) (claim_run amb w l) (runs d)\<rparr>"
  from select_first_Some(1,2)[OF c] show ?thesis unfolding d' failed_effect.simps by blast
qed simp

lemma AcquireDeployment_failed:
  assumes "AcquireDeployment amb w l d = (Inl e, d')" shows "d' = d \<or> failed_effect (DeploymentStep (AcquireDeploymentOp amb w l)) d d'"
proof (cases "select_first dp_created_at (deployment_candidate amb) (deployments d)")
  case (Some c)
  with assms have d': "d' = d\<lparr>deployments := update_where (\<lambda>x. dp_id x = dp_id c) (claim_deployment amb w l) (deployments d)\<rparr>"
    by (auto simp: AcquireDeployment_def Let_def split: sum.splits)
  from select_first_Some(1,2)[OF Some] show ?thesis unfolding d' failed_effect.simps by blast
qed (use assms in \<open>simp add: AcquireDeployment_def\<close>)

lemma GetApproval_failed:
  assumes "GetApproval amb i d = (Inl e, d')" shows "d' = d"
proof -
  let ?t = "update_where (\<lambda>p. p_id p = i \<and> lapsed amb p) expire_approval (approvals d)"
  from assms have d': "d' = d\<lparr>approvals := ?t\<rparr>" and "find (\<lambda>p. p_id p = i) ?t = None"
    by (auto simp: GetApproval_def Let_def approval_by_id_def split: option.splits)
  then have "\<not> (\<exists>p \<in> set (approvals d). p_id p = i)"
    using ex_update_where[of "\<lambda>p. p_id p = i" expire_approval "\<lambda>p. p_id p = i \<and> lapsed amb p" "approvals d"]
    by (auto simp: find_eq_None expire_approval_def)
  then have "?t = approvals d" by (intro update_where_none) auto
  with d' show ?thesis by simp
qed

text \<open>A failed operation of each component.\<close>

lemma queue_op_failed: "apply_queue_op x d = (False, d') \<Longrightarrow> d' = d"
  by (cases x) (auto simp: IngestEvent_def EnqueueManualRun_def EnqueueDueSchedules_def dest: transact_failed)

lemma secret_op_failed: "apply_secret_op x d = (False, d') \<Longrightarrow> d' = d"
  by (cases x) (auto simp: PutEncryptedSecret_def DeleteSecret_def dest: transact_failed)

lemma investigation_op_failed: "apply_investigation_op x d = (False, d') \<Longrightarrow> d' = d"
  by (cases x) (auto simp: ReserveInvestigation_def UpdateInvestigation_def dest: transact_failed)

lemma catalog_op_failed: "apply_catalog_op x d = (False, d') \<Longrightarrow> d' = d"
  by (cases x) (auto simp: deploy_def RollbackAutomation_def SetAutomationEnabled_def AdoptRevisionProvenance_def dest: transact_failed)

lemma retention_op_failed:
  assumes "apply_retention_op x d = (False, d')" "distinct (map pl_id (retention_plans d))" shows "d' = d"
proof (cases x)
  case (ClaimPlanOp amb i l)
  with assms(1) have d': "d' = d\<lparr>retention_plans := update_where (claimable_plan amb i) (claim_plan amb l) (retention_plans d)\<rparr>"
    and "rows_affected (claimable_plan amb i) (retention_plans d) \<noteq> 1"
    by (auto simp: ClaimRetentionPlan_def Let_def split: if_splits option.splits dest!: report_False)
  moreover have "(\<lambda>v. pl_id v = i \<and> claimable_plan amb i v) = claimable_plan amb i" by (auto simp: claimable_plan_def)
  ultimately have "\<forall>v \<in> set (retention_plans d). \<not> claimable_plan amb i v"
    using rows_affected_key_1[OF assms(2), of i "claimable_plan amb i"] by (auto simp: claimable_plan_def)
  then have "update_where (claimable_plan amb i) (claim_plan amb l) (retention_plans d) = retention_plans d"
    by (intro update_where_none) blast
  with d' show ?thesis by simp
next
  case (DetachOp amb kind path)
  with assms show ?thesis
    by (auto simp: DetachRetentionItem_def split: if_splits sum.splits dest!: report_False)
qed (use assms in \<open>auto simp: CreateRetentionPlan_def RecordRetentionItem_def CompleteRetentionPlan_def dest: transact_failed\<close>)

lemma run_op_failed:
  assumes "apply_run_op x d = (False, d')" shows "d' = d \<or> failed_effect (RunStep x) d d'"
proof (cases x)
  case (AcquireRunOp amb w l)
  with assms show ?thesis by (auto dest!: report_False AcquireRun_failed simp del: failed_effect.simps)
next
  case (RenewRunOp amb k w l)
  with assms show ?thesis by (auto simp: RenewRunLease_def report_def)
qed (use assms in \<open>auto simp: CompleteRun_def FailRun_def ReleaseRun_def dest: transact_failed\<close>)

lemma deployment_op_failed:
  assumes "apply_deployment_op x d = (False, d')" shows "d' = d \<or> failed_effect (DeploymentStep x) d d'"
proof (cases x)
  case (CreateDeploymentOp dg amb i k pd cd src actor)
  with assms show ?thesis by (auto dest!: report_False CreateDeployment_failed simp del: failed_effect.simps)
next
  case (RetryDeploymentOp isDir amb orig i k actor strand)
  with assms show ?thesis by (auto dest!: report_False RetryDeployment_failed simp del: failed_effect.simps)
next
  case (AcquireDeploymentOp amb w l)
  with assms show ?thesis by (auto dest!: report_False AcquireDeployment_failed simp del: failed_effect.simps)
next
  case (RenewDeploymentOp amb k w l)
  with assms show ?thesis by (auto simp: RenewDeploymentLease_def report_def)
qed (use assms in \<open>auto simp: SetDeploymentStage_def RecordDeploymentStep_def RequestDeploymentCancellation_def
    CompleteDeploymentCancellation_def FailDeployment_def dest: transact_failed\<close>)

lemma approval_op_failed:
  assumes "apply_approval_op x d = (False, d')" shows "d' = d \<or> failed_effect (ApprovalStep x) d d'"
  using assms by (cases x) (auto dest!: report_False GetApproval_failed ResolveApproval_failed)

lemma notice_op_failed:
  assumes "apply_notice_op x d = (False, d')" shows "d' = d \<or> failed_effect (NoticeStep x) d d'"
proof (cases x)
  case (ResendOp amb i actor)
  with assms show ?thesis by (auto dest!: report_False Resend_failed)
next
  case (AcquireDeliveryOp amb w)
  with assms obtain e where "AcquireNotificationDelivery amb w d = (Inl e, d')" by (auto dest!: report_False)
  then have "d' = d" unfolding AcquireNotificationDelivery_def by (simp only: transact_eq_Inl)
  then show ?thesis by simp
qed (use assms in \<open>auto simp: EnqueueNotificationTest_def EnqueueExpiringApprovalNotifications_def ExpandNotificationEvent_def
    CompleteNotificationDelivery_def FailNotificationDelivery_def dest: transact_failed\<close>)

section \<open>Events and their runs\<close>

text \<open>An accepted event has a run, and a repeated one is answered with it.\<close>

lemma run_of_event_accepted:
  assumes "enqueueEvent amb k a t ty ext oc dt m d = Inr ((rid, created), d')" "queue_ok d'" "ext \<noteq> []"
  shows "\<exists>r. run_of_event d' (a @ '':'' @ t) ext = Some r \<and> r_id r = rid"
  using assms(1)
proof (cases rule: enqueueEvent_cases)
  case (replay r)
  with assms(3) show ?thesis by auto
next
  case (fresh tr v e avail)
  let ?r = "queued_run amb rid a (tr_revision_id tr) (e_id e) (ex_retries (mf_execution (rv_manifest v)) + 1) (effective_policy (rv_manifest v)) avail"
  from fresh(8) have d': "d' = d\<lparr>events := events d @ [e], runs := runs d @ [?r]\<rparr>" by (auto simp: insert_run_def result_simps)
  have "e_trigger_key e = a @ '':'' @ t" "e_external_id e = ext" using assms(3) by (simp_all add: fresh(4) event_row_of_def)
  then have "run_of_event d' (a @ '':'' @ t) ext = Some ?r" using run_of_event_iff[OF assms(2)] by (auto simp: d')
  then show ?thesis by simp
qed

lemma enqueueEvent_replays:
  assumes "enqueueEvent amb k a t ty ext oc dt m d = Inr ((rid, created), d')" "ext \<noteq> []" "queue_ok d"
    and "run_of_event d (a @ '':'' @ t) ext = Some r"
  shows "rid = r_id r \<and> \<not> created \<and> d' = d"
  using assms(1)
proof (cases rule: enqueueEvent_cases)
  case (replay r')
  with assms(2,4) show ?thesis by simp
next
  case (fresh tr v e avail)
  from assms(4) obtain e0 where "e0 \<in> set (events d)" "e_trigger_key e0 = a @ '':'' @ t" "e_external_id e0 = ext"
    unfolding run_of_event_iff[OF assms(3)] by blast
  moreover have "e_trigger_key e = a @ '':'' @ t" "e_external_id e = ext" using assms(2) by (simp_all add: fresh(4) event_row_of_def)
  ultimately have False using fresh(5) by (auto simp: conflicts_def)
  then show ?thesis ..
qed

section \<open>Samples\<close>

definition sample_store :: db where
  "sample_store = sample_db\<lparr>secret_references := [\<lparr>sx_revision_id = ''rev_a'', sx_secret_name = ''api-token'', sx_purpose = ''x''\<rparr>]\<rparr>"

lemma sample_store_ok: "store_ok sample_store"
  by code_simp

definition sample_secret_put :: store_op where
  "sample_secret_put = SecretStep (PutSecretOp (sample_ambient 1 hour) ''mail-token'' [] ''c'' ''k'' ''ada'')"

abbreviation sample_delivery :: "nat \<Rightarrow> db \<Rightarrow> (string \<times> bool) store_result" where
  "sample_delivery n \<equiv> IngestEvent (sample_ambient n (2 * hour)) ''orders'' ''hook'' ''webhook'' ''ext-1'' zero_time (JObject []) []"

section \<open>Properties\<close>

text \<open>
  C1: Every reachable state is consistent. Whatever operations of whatever components are applied
  in whatever order and with whatever arguments to the empty store, whether they succeed or fail,
  the tables keep their keys, references and state rules: every run has its event, its lease and
  status agree, every active revision is present and belongs to its automation, triggers are bound
  to the active revision, deployment jobs, approvals and their continuations agree, deliveries
  belong to expanded notifications, every investigation has a gapless history of valid versions,
  no secret reference names a secret that is gone, and an automation has one state. If moreover
  every activation along the way named an artifact and no two packages of an automation with one
  content hash named different secrets, which the store does not check, then every active revision
  still has its artifact and the secrets of every retained revision are recorded as referenced.
\<close>

theorem reachable_states_consistent:
  "(reachable empty_db d \<longrightarrow> store_ok d) \<and> (properly_reachable empty_db d \<longrightarrow> store_ok d \<and> publications_ok d)"
proof (intro conjI impI)
  have ok: "store_ok d" if "reachable empty_db d" using reachable_kept[OF that empty_store_ok] by (simp add: kept_def)
  show "store_ok d" if "reachable empty_db d" using ok[OF that] .
  assume "properly_reachable empty_db d"
  then show "store_ok d" "publications_ok d"
    using ok properly_reachable_reachable properly_reachable_publications[OF _ empty_store_ok empty_publications_ok] by blast+
qed

theorem reachable_states_consistent_witness:
  "store_ok (snd (apply_op sample_secret_put empty_db)) \<and> publications_ok (snd (apply_op sample_secret_put empty_db))
    \<and> secrets (snd (apply_op sample_secret_put empty_db)) \<noteq> []"
proof -
  have "properly_reachable empty_db (snd (apply_op sample_secret_put empty_db))"
    by (rule properly_reachable.proper_step[OF properly_reachable.proper_start, where op = sample_secret_put and
          ok = "fst (apply_op sample_secret_put empty_db)"]) (simp_all add: proper_op_def sample_secret_put_def)
  moreover have "secrets (snd (apply_op sample_secret_put empty_db)) \<noteq> []" by code_simp
  ultimately show ?thesis using reachable_states_consistent by blast
qed

text \<open>
  C3: An accepted event is answered with its run forever. If an event was accepted by a consistent
  store, then after any further operations of any component, in any order and with any arguments,
  delivering an event with the same trigger and the same, non-empty external identifier either
  fails or answers with the same run, says that nothing was created, and changes nothing: no
  sequence of operations makes the store run an event twice.
\<close>

theorem event_answered_forever:
  assumes "store_ok d0" and "IngestEvent amb a t ty ext oc dt m d0 = (Inr (rid, created), d)" and "ext \<noteq> []"
    and "reachable d d1" and "IngestEvent amb' a t ty' ext oc' dt' m' d1 = (Inr (rid', created'), d2)"
  shows "rid' = rid \<and> \<not> created' \<and> d2 = d1"
proof -
  have k0: "kept d0 d" using queue_op_ok(1)[of "IngestOp amb a t ty ext oc dt m" d0 True d] assms(1,2) by (simp add: report_def)
  then have ok: "store_ok d" by (simp add: kept_def)
  have ok1: "store_ok d1" "history_extends d d1" using reachable_kept[OF assms(4) ok] by (simp_all add: kept_def follows_def)
  from assms(2) have "enqueueEvent amb 0 a t ty ext oc dt m d0 = Inr ((rid, created), d)" by (simp add: IngestEvent_def transact_eq_Inr)
  from run_of_event_accepted[OF this store_okD(1)[OF ok] assms(3)] obtain r where
    r: "run_of_event d (a @ '':'' @ t) ext = Some r" "r_id r = rid" by blast
  from run_of_event_persists[OF store_okD(1)[OF ok] store_okD(1)[OF ok1(1)] ok1(2) r(1)] r(2) obtain r1 where
    r1: "run_of_event d1 (a @ '':'' @ t) ext = Some r1" "r_id r1 = rid" by (auto simp: run_identity_def)
  from assms(5) have "enqueueEvent amb' 0 a t ty' ext oc' dt' m' d1 = Inr ((rid', created'), d2)" by (simp add: IngestEvent_def transact_eq_Inr)
  from enqueueEvent_replays[OF this assms(3) store_okD(1)[OF ok1(1)] r1(1)] r1(2) show ?thesis by simp
qed

theorem event_answered_forever_witness:
  "\<exists>rid. fst (sample_delivery 1 sample_store) = Inr (rid, True)
     \<and> fst (sample_delivery 5 (snd (apply_op sample_secret_put (snd (sample_delivery 1 sample_store))))) = Inr (rid, False)"
proof -
  let ?d = "snd (sample_delivery 1 sample_store)"
  let ?d1 = "snd (apply_op sample_secret_put ?d)"
  have a: "fst (sample_delivery 1 sample_store) = Inr (''run_787878787878787878787878'', True)" by code_simp
  have "is_ok (fst (sample_delivery 5 ?d1))" by code_simp
  then obtain rid created where b: "fst (sample_delivery 5 ?d1) = Inr (rid, created)" by (cases "fst (sample_delivery 5 ?d1)") auto
  have "reachable ?d ?d1" by (rule reachable_one)
  moreover have "sample_delivery 1 sample_store = (Inr (''run_787878787878787878787878'', True), ?d)" using a by (metis prod.collapse)
  moreover have "sample_delivery 5 ?d1 = (Inr (rid, created), snd (sample_delivery 5 ?d1))" using b by (metis prod.collapse)
  ultimately have "rid = ''run_787878787878787878787878'' \<and> \<not> created"
    using event_answered_forever[OF sample_store_ok, of _ _ _ _ "''ext-1''" _ _ _ _ _ ?d ?d1] by blast
  with a b show ?thesis by simp
qed

text \<open>
  C5: An operation that reports an error has changed nothing. The only exceptions are the writes
  the code commits before it can fail: a worker's claim of a due run or deployment whose stored
  location does not resolve, the mark of the addressed approval as expired once its time is over,
  and the digest computed for the first use of a repeated idempotency key. (The identifier of a
  retention plan is its primary key.)
\<close>

theorem failed_operation_effect:
  assumes "apply_op op d = (False, d')" and "distinct (map pl_id (retention_plans d))"
  shows "d' = d \<or> failed_effect op d d'"
  using assms queue_op_failed run_op_failed approval_op_failed catalog_op_failed deployment_op_failed notice_op_failed
    secret_op_failed investigation_op_failed retention_op_failed
  by (cases op) (simp_all del: failed_effect.simps)

theorem failed_operation_effect_witness:
  "apply_op (SecretStep (DeleteSecretOp (sample_ambient 1 hour) ''absent'' ''ada'')) sample_store = (False, sample_store)"
proof -
  let ?op = "SecretStep (DeleteSecretOp (sample_ambient 1 hour) ''absent'' ''ada'')"
  have "\<not> fst (apply_op ?op sample_store)" by code_simp
  then have "apply_op ?op sample_store = (False, snd (apply_op ?op sample_store))" by (metis prod.collapse)
  moreover have "distinct (map pl_id (retention_plans sample_store))" by code_simp
  ultimately show ?thesis using failed_operation_effect[of ?op sample_store "snd (apply_op ?op sample_store)"]
    by (simp only: failed_effect.simps) simp
qed

end
