(* ===== verification/StoreHistory.thy ===== *)
theory StoreHistory
  imports StoreOps
begin

text \<open>
  What stays true for good: properties of a decision, a cancellation, an expansion, a reservation
  or a saved state in every state that any later sequence of store operations can reach, whatever
  components apply them, in whatever order, and whether they succeed or fail.
\<close>

text \<open>A state reached from a consistent one after one operation, and what it still knows of it.\<close>

lemma later:
  assumes "store_ok d" "apply_op op d = (ok, d1)" "reachable d1 d2"
  shows "store_ok d1" "store_ok d2" "follows d1 d2"
  using apply_op_kept[OF assms(2,1)] reachable_kept[OF assms(3)] by (simp_all add: kept_def)

lemma report_Inr: "r = (Inr x, d') \<Longrightarrow> report r = (True, d')"
  by (simp add: report_def)

text \<open>
  C18: An approval is decided once. When a decision is accepted by a consistent store, the approval was pending and not
  expired, the revision it belongs to was still active and is the one the reviewer saw, and one
  continuation run on that revision was queued. From then on, in every state that further
  operations of any component lead to, the same decision with the same idempotency key is answered
  with the recorded approval and changes nothing, and every other decision, by whomever, is
  refused and changes nothing.
\<close>

theorem approval_decided_once:
  assumes "store_ok d" and "ResolveApproval amb i key vn action supplied actor d = (Inr (q, True), d1)"
    and "reachable d1 d2"
  shows "(\<exists>p a r. approval_by_id d i = Some p \<and> p_status p = ''pending'' \<and> p_expires_at p > go_now amb
      \<and> vn = p_revision_id p \<and> automation_by_id d (p_automation_id p) = Some a \<and> au_active_revision_id a = Some vn
      \<and> runs d1 = runs d @ [r] \<and> r_status r = RunQueued \<and> r_revision_id r = vn \<and> p_action_run_id q = Some (r_id r))
    \<and> ResolveApproval amb' i key' vn' action' supplied' actor' d2 =
      (if action' = action \<and> key' = key \<and> (\<exists>g g'. validateApprovalResponse q action supplied = Inr g
            \<and> validateApprovalResponse q action' supplied' = Inr g' \<and> set g = set g')
       then (Inr (q, False), d2) else (Inl ErrApprovalResolved, d2))"
proof -
  have op: "apply_op (ApprovalStep (ResolveOp amb i key vn action supplied actor)) d = (True, d1)"
    using report_Inr[OF assms(2)] by simp
  note l = later[OF assms(1) op assms(3)]
  note q = accepted_decision[OF assms(2)]
  from followsD(2)[OF l(3)] q(2,3) have "q \<in> set (approvals d2)" unfolding approvals_follow_def by blast
  moreover have "distinct (map p_id (approvals d2))" using store_okD(4)[OF l(2)] by (simp add: approvals_ok_def)
  ultimately have "approval_by_id d2 i = Some q" using approval_table.lookup_iff q(4) by blast
  from decision_answered_later[OF store_okD(1)[OF assms(1)] assms(2) store_okD(1)[OF l(2)] followsD(1)[OF l(3)] this] q(1)
  show ?thesis by blast
qed

definition sample_listing :: store_op where
  "sample_listing = ApprovalStep (ListApprovalsOp (sample_ambient 9 (99 * hour)) [] [] \<lparr>lc_created_at = 0, lc_id = []\<rparr> 0)"

theorem approval_decided_once_witness:
  "ResolveApproval (sample_ambient 4 (2 * hour)) ''approval_1'' ''key-2'' ''rev_a'' ''reject'' [] ''bob''
     (snd (apply_op sample_listing (snd sample_decided)))
   = (Inl ErrApprovalResolved, snd (apply_op sample_listing (snd sample_decided)))"
proof -
  have "store_ok sample_pending" by code_simp
  from approval_decided_once[OF this sample_decided_accepted reachable_one, where action' = "''reject''"] show ?thesis by simp
qed

text \<open>
  C22: No lost update of the automation state. In a consistent store, if two runs of a stateful automation started from
  the same state version (versions are never negative) and one of them completed, the completion
  of the other is refused and changes nothing, however many other operations of whatever
  components came in between, so it can neither overwrite the state nor report success on stale
  input.
\<close>

theorem no_lost_state_update:
  assumes "store_ok d" and "CompleteRun amb run w lg rs st ctl d = (Inr (), d1)" and "reachable d1 d2"
    and "ex_state_enabled (mf_execution (rr_manifest run))" and "ex_state_enabled (mf_execution (rr_manifest run'))"
    and "r_automation_id (rr_run run') = r_automation_id (rr_run run)"
    and "rr_state_version run' = rr_state_version run" and "0 \<le> rr_state_version run"
  shows "\<exists>e. CompleteRun amb' run' w' lg' rs' st' ctl' d2 = (Inl e, d2)"
proof -
  have op: "apply_op (RunStep (CompleteRunOp amb run w lg rs st ctl)) d = (True, d1)" using report_Inr[OF assms(2)] by simp
  note l = later[OF assms(1) op assms(3)]
  from completed_state_version[OF assms(2,4) store_okD(8)[OF assms(1)] assms(8)] obtain s where
    "s \<in> set (automation_state d1)" "st_automation_id s = r_automation_id (rr_run run)" "st_version s = rr_state_version run + 1" by blast
  with followsD(6)[OF l(3)] obtain s' where
    "s' \<in> set (automation_state d2)" "st_automation_id s' = r_automation_id (rr_run run)" "rr_state_version run + 1 \<le> st_version s'"
    unfolding states_follow_def by metis
  then show ?thesis using stale_completion_refused[OF assms(5) store_okD(8)[OF l(2)]] assms(6,7) by simp
qed

theorem no_lost_state_update_witness:
  "\<exists>e. CompleteRun (sample_ambient 5 0) sample_run ''w1'' [] None (Some (JObject [])) no_control (snd sample_completed)
     = (Inl e, snd sample_completed)"
proof (rule no_lost_state_update[of "snd RunProperties.sample_claimed" "sample_ambient 3 (2 * hour + second)" sample_run "''w1''" "''log''"
    "Some (JBool True)" "Some (JObject [(''n'', JNumber 1)])" sample_control "snd sample_completed"])
  show "CompleteRun (sample_ambient 3 (2 * hour + second)) sample_run ''w1'' ''log'' (Some (JBool True))
     (Some (JObject [(''n'', JNumber 1)])) sample_control (snd RunProperties.sample_claimed) = (Inr (), snd sample_completed)"
    by code_simp
  show "reachable (snd sample_completed) (snd sample_completed)" by (rule reachable.start)
qed code_simp+

text \<open>
  C24: A cancelled deployment never publishes. Once a consistent store accepted the request to cancel
  a deployment, whose identifier is never empty, then in every
  state that further operations of any component lead to, no worker, not even the one holding the
  job, can activate it, the attempt changes nothing, a worker that claims a job leaves this one
  alone, and the job has not succeeded.
\<close>

theorem cancelled_deployment_never_publishes:
  assumes "store_ok d" and "k \<noteq> []" and "RequestDeploymentCancellation amb k actor d = (Inr v, d1)"
    and "reachable d1 d2"
  shows "(\<exists>e. ActivateDeployment amb' k w m h path prov actor' d2 = (Inl e, d2))
    \<and> filter (\<lambda>x. dp_id x = k) (deployments (snd (AcquireDeployment amb' w l d2))) = filter (\<lambda>x. dp_id x = k) (deployments d2)
    \<and> (\<exists>x \<in> set (deployments d2). dp_id x = k) \<and> (\<forall>x \<in> set (deployments d2). dp_id x = k \<longrightarrow> dp_status x \<noteq> DeploymentSucceeded)"
proof -
  have op: "apply_op (DeploymentStep (RequestCancelOp amb k actor)) d = (True, d1)" using report_Inr[OF assms(3)] by simp
  note l = later[OF assms(1) op assms(4)]
  have w: "withdrawn k (deployments d2)" by (rule withdrawn_persists[OF cancellation_withdraws[OF assms(3)] followsD(3)[OF l(3)]])
  note inert = withdrawn_inert[OF store_okD(3)[OF l(2)] w]
  have "filter (\<lambda>x. dp_id x = k) (deployments (snd (AcquireDeployment amb' w l d2))) = filter (\<lambda>x. dp_id x = k) (deployments d2)"
  proof (cases "select_first dp_created_at (deployment_candidate amb') (deployments d2)")
    case None
    then show ?thesis by (simp add: AcquireDeployment_def)
  next
    case (Some c)
    from select_first_Some(1,2)[OF Some] inert(2)[of c] have "dp_id c \<noteq> k" by blast
    then have "filter (\<lambda>x. dp_id x = k) (update_where (\<lambda>y. dp_id y = dp_id c) (claim_deployment amb' w l) t) = filter (\<lambda>x. dp_id x = k) t" for t
      by (induction t) (auto simp: update_where_def claim_deployment_def)
    then show ?thesis by (simp add: AcquireDeployment_def Some Let_def split: sum.split)
  qed
  moreover have "\<exists>x \<in> set (deployments d2). dp_id x = k" using w unfolding withdrawn_def by blast
  ultimately show ?thesis using inert(1)[OF assms(2)] inert(2) by blast
qed

lemma sample_activating_store_ok: "store_ok sample_activating"
  by code_simp

theorem cancelled_deployment_never_publishes_witness:
  "\<exists>e. ActivateDeployment (sample_ambient 9 (9 * hour)) ''dep_1'' ''w1'' sample_manifest sample_hash
      ''/srv/werkt/artifacts/b'' sample_provenance ''bob''
      (snd (RequestDeploymentCancellation (sample_ambient 8 0) ''dep_1'' ''bob'' sample_activating))
    = (Inl e, snd (RequestDeploymentCancellation (sample_ambient 8 0) ''dep_1'' ''bob'' sample_activating))"
proof -
  have "is_ok (fst (RequestDeploymentCancellation (sample_ambient 8 0) ''dep_1'' ''bob'' sample_activating))" by code_simp
  from cancelled_deployment_never_publishes[OF sample_activating_store_ok _ ok_result[OF this] reachable.start] show ?thesis by blast
qed

text \<open>
  C30: Reserving is idempotent and exclusive. After a reservation in a consistent store, in every state
  that further operations of any component lead to, repeating it returns the investigation of that
  request, with the same subject and in its current state, without creating anything; the same
  request identifier with another valid subject is refused; and another, new and valid request for
  the same issue is refused as long as the investigation is neither completed nor abandoned. Nothing changes in any
  of these cases.
\<close>

theorem reservation_idempotent_exclusive:
  assumes "store_ok d" and "ReserveInvestigation amb spec actor d = (Inr (x, created), d1)" and "reachable d1 d2"
  shows "\<exists>y. GetInvestigation (is_request_id spec) d2 = Inr y \<and> in_spec y = spec
    \<and> ReserveInvestigation amb' spec actor' d2 = (Inr (y, False), d2)
    \<and> (\<forall>spec'. ValidateSpec spec' = None \<longrightarrow>
        (is_request_id spec' = is_request_id spec \<and> spec' \<noteq> spec \<longrightarrow>
           ReserveInvestigation amb' spec' actor' d2 = (Inl ErrInvestigationConflict, d2))
        \<and> (investigation_by_id d2 (is_request_id spec') = None \<and> is_repository_id spec' = is_repository_id spec
            \<and> is_issue_number spec' = is_issue_number spec \<and> iv_status (in_state y) \<noteq> ''completed'' \<and> iv_status (in_state y) \<noteq> ''abandoned''
          \<longrightarrow> ReserveInvestigation amb' spec' actor' d2 = (Inl ErrInvestigationConflict, d2)))"
proof -
  have op: "apply_op (InvestigationStep (ReserveOp amb spec actor)) d = (True, d1)" using report_Inr[OF assms(2)] by simp
  note l = later[OF assms(1) op assms(3)]
  from reservation_recorded[OF assms(2)] followsD(5)[OF l(3)] obtain y where
    y: "y \<in> set (investigations d2)" "in_request_id y = is_request_id spec" "in_spec y = spec"
    unfolding investigations_follow_def by metis
  note ans = reserved_request_answered[OF store_okD(6)[OF l(2)] y]
  show ?thesis
    using ans(1,2) ans(3)[where amb = amb' and actor = actor'] ans(4)[where amb = amb' and actor = actor'] y(3)
    by (intro exI[of _ y]) (simp add: GetInvestigation_def)
qed

theorem reservation_idempotent_exclusive_witness:
  "\<exists>y. ReserveInvestigation (sample_ambient 5 hour) sample_spec ''bob'' (snd (ReserveInvestigation (sample_ambient 1 0) sample_spec ''alice'' sample_db))
     = (Inr (y, False), snd (ReserveInvestigation (sample_ambient 1 0) sample_spec ''alice'' sample_db)) \<and> in_spec y = sample_spec"
proof -
  have "store_ok sample_db" by code_simp
  from reservation_idempotent_exclusive[OF this sample_reservation reachable.start] show ?thesis by blast
qed

text \<open>
  C31: An event is expanded exactly once. Expanding a pending event of a consistent store gives it one queued delivery for
  each destination among the targets and no other, and leaves all earlier deliveries alone. From
  then on, in every state that further operations of any component lead to, expanding it again,
  with whatever targets, succeeds without any change, the event is not handed out for expansion,
  and its deliveries are still exactly those, each to its destination.
\<close>

theorem notification_expanded_once:
  assumes "store_ok d" and "notification_by_id d i = Some n" and "n_status n = ''pending''"
    and "ExpandNotificationEvent amb i ts d = (Inr (), d1)" and "reachable d1 d2"
  shows "(\<exists>xs. notification_deliveries d1 = notification_deliveries d @ xs
      \<and> distinct (map nd_destination_id xs) \<and> nd_destination_id ` set xs = nt_destination_id ` set ts
      \<and> (\<forall>x \<in> set xs. nd_event_id x = i \<and> nd_status x = RunQueued))
    \<and> ExpandNotificationEvent amb' i ts' d2 = (Inr (), d2)
    \<and> (\<forall>m. AcquireNotificationEvent amb' d2 = Some m \<longrightarrow> n_id m \<noteq> i)
    \<and> map (\<lambda>x. (nd_id x, nd_destination_id x)) (filter (\<lambda>x. nd_event_id x = i) (notification_deliveries d2))
      = map (\<lambda>x. (nd_id x, nd_destination_id x)) (filter (\<lambda>x. nd_event_id x = i) (notification_deliveries d1))"
proof -
  have op: "apply_op (NoticeStep (ExpandOp amb i ts)) d = (True, d1)" using report_Inr[OF assms(4)] by simp
  note l = later[OF assms(1) op assms(5)]
  note done1 = expansion_delivers[OF store_okD(5)[OF assms(1)] assms(2-4)]
  have follow: "expanded_event i d2" "deliveries_of i (notification_deliveries d2) = deliveries_of i (notification_deliveries d1)"
    using followsD(4)[OF l(3)] done1(2) unfolding outbox_follow_def by blast+
  show ?thesis
    using done1(1) expanded_inert[OF store_okD(5)[OF l(2)] follow(1)] follow(2)[unfolded deliveries_of_def] by blast
qed

theorem notification_expanded_once_witness:
  "ExpandNotificationEvent (sample_ambient 5 hour) sample_test_event [] (snd sample_expanded) = (Inr (), snd sample_expanded)"
proof -
  have "store_ok (snd sample_tested)" by code_simp
  with notification_expanded_once[OF _ _ _ sample_expansion(1) reachable.start] sample_expansion(2) show ?thesis by blast
qed

end
