(* ===== verification/RunWorker.thy ===== *)
theory RunWorker
  imports SystemProofs Execution
begin

text \<open>
  The run workers of \<open>service/worker.go\<close> on top of the store. A worker claims a run, executes it
  while its lease is renewed, and records how the attempt ended; several workers, the other
  components of the control plane and crashes interleave in any order. The system of the workers
  and the store is shown to implement the life cycle of a run, a small automaton, and the
  automaton bounds how often a run can fail.
\<close>

definition runLeaseDuration :: duration where "runLeaseDuration = 10 * minute"

definition shutdownReleaseReason :: string where
  "shutdownReleaseReason = ''interrupted by control-plane shutdown''"

definition leaseLost :: string where "leaseLost = ''run lease ownership was lost''"

text \<open>
  What a worker knows when the executor returns: its result and error, whether the error comes from
  a cancelled context, and whether the control plane is shutting down.
\<close>

record attempt_outcome =
  ao_result :: attempt_result
  ao_error :: "string option"
  ao_canceled :: bool
  ao_shutdown :: bool

definition interrupted :: "attempt_outcome \<Rightarrow> bool" where
  "interrupted out = (ao_shutdown out \<and> ao_error out \<noteq> None \<and> ao_canceled out)"

text \<open>\<open>errors.Join\<close> of the executor's error with the cause of the cancellation.\<close>

definition attempt_error :: "bool \<Rightarrow> attempt_outcome \<Rightarrow> string option" where
  "attempt_error lost out = (case ao_error out of
     None \<Rightarrow> if lost then Some leaseLost else None
   | Some e \<Rightarrow> Some (if lost then e @ newline @ leaseLost else e))"

text \<open>The second half of \<open>runOnce\<close>; \<open>decode\<close> reads the JSON texts the automation left.\<close>

definition record_attempt :: "(string \<Rightarrow> json option) \<Rightarrow> ambient \<Rightarrow> string \<Rightarrow> runnable_run \<Rightarrow> bool \<Rightarrow> attempt_outcome \<Rightarrow> db
    \<Rightarrow> unit store_result" where
  "record_attempt decode amb w run lost out d =
     (let logs = at_logs (ao_result out) in
      if interrupted out then ReleaseRun amb (rr_run run) w logs shutdownReleaseReason d
      else case attempt_error lost out of
        Some msg \<Rightarrow> FailRun amb (rr_run run) w logs msg d
      | None \<Rightarrow> CompleteRun amb run w logs (decode (at_output (ao_result out)))
          (Option.bind (at_state (ao_result out)) decode) (at_control (ao_result out)) d)"

text \<open>
  The control plane: the store, and for every worker the run it is executing with the mark that
  its renewal loop found the lease gone.
\<close>

record control_plane =
  cp_db :: db
  cp_claims :: "string \<Rightarrow> (runnable_run \<times> bool) option"

text \<open>
  The events: a worker without a run polls, the renewal loop of a worker ticks, the executor of a
  worker returns, the process of a worker dies, and any other component calls the store.
\<close>

datatype plane_event =
    Poll ambient string
  | RenewalTick ambient string
  | ExecutorReturns ambient string attempt_outcome
  | WorkerDies string
  | StoreCall store_op

fun run_step_of_worker :: "store_op \<Rightarrow> bool" where
  "run_step_of_worker (RunStep _) = True"
| "run_step_of_worker _ = False"

text \<open>The clock of the store when an event happens; crashes and the calls of other components need none.\<close>

fun event_now :: "plane_event \<Rightarrow> time" where
  "event_now (Poll amb _) = pg_now amb"
| "event_now (RenewalTick amb _) = pg_now amb"
| "event_now (ExecutorReturns amb _ _) = pg_now amb"
| "event_now _ = 0"

text \<open>An event that cannot happen in a state gives \<open>None\<close>; the label is the run whose failure was recorded.\<close>

fun plane_step :: "(string \<Rightarrow> json option) \<Rightarrow> plane_event \<Rightarrow> control_plane \<Rightarrow> (string option \<times> control_plane) option" where
  "plane_step decode (Poll amb w) s =
     (if cp_claims s w \<noteq> None then None
      else case AcquireRun amb w runLeaseDuration (cp_db s) of
        (Inr (Some run), d) \<Rightarrow> Some (None, s\<lparr>cp_db := d, cp_claims := (cp_claims s)(w := Some (run, False))\<rparr>)
      | (_, d) \<Rightarrow> Some (None, s\<lparr>cp_db := d\<rparr>))"
| "plane_step decode (RenewalTick amb w) s =
     (case cp_claims s w of
        Some (run, False) \<Rightarrow>
          (case RenewRunLease amb (r_id (rr_run run)) w runLeaseDuration (cp_db s) of
             (Inr renewed, d) \<Rightarrow> Some (None, s\<lparr>cp_db := d, cp_claims := (cp_claims s)(w := Some (run, \<not> renewed))\<rparr>)
           | (Inl _, d) \<Rightarrow> Some (None, s\<lparr>cp_db := d\<rparr>))
      | _ \<Rightarrow> None)"
| "plane_step decode (ExecutorReturns amb w out) s =
     (case cp_claims s w of
        None \<Rightarrow> None
      | Some (run, lost) \<Rightarrow>
          (let (res, d) = record_attempt decode amb w run lost out (cp_db s) in
           Some (if is_ok res \<and> \<not> interrupted out \<and> attempt_error lost out \<noteq> None then Some (r_id (rr_run run)) else None,
             s\<lparr>cp_db := d, cp_claims := (cp_claims s)(w := None)\<rparr>)))"
| "plane_step decode (WorkerDies w) s = Some (None, s\<lparr>cp_claims := (cp_claims s)(w := None)\<rparr>)"
| "plane_step decode (StoreCall op) s =
     (if run_step_of_worker op then None
      else Some (None, s\<lparr>cp_db := snd (apply_op op (cp_db s))\<rparr>))"

text \<open>A sequence of events; the labels in order.\<close>

fun plane_run :: "(string \<Rightarrow> json option) \<Rightarrow> plane_event list \<Rightarrow> control_plane \<Rightarrow> (string option list \<times> control_plane) option" where
  "plane_run decode [] s = Some ([], s)"
| "plane_run decode (e # es) s = Option.bind (plane_step decode e s) (\<lambda>(l, s1).
     Option.bind (plane_run decode es s1) (\<lambda>(ls, s2). Some (l # ls, s2)))"

definition initial_plane :: control_plane where
  "initial_plane = \<lparr>cp_db = empty_db, cp_claims = (\<lambda>_. None)\<rparr>"

section \<open>The life cycle of a run\<close>

text \<open>
  A run waits with the number of its attempts and the time it is due, or is active with that
  number, the worker that holds it and the end of the worker's lease.
\<close>

datatype phase = Absent | Waiting int time | Active int string time | Succeeded | Failed

definition row_phase :: "run_row \<Rightarrow> phase" where
  "row_phase r = (case r_status r of
     RunQueued \<Rightarrow> Waiting (r_attempt r) (r_available_at r)
   | RunRunning \<Rightarrow> Active (r_attempt r) (case r_lease_owner r of None \<Rightarrow> [] | Some w \<Rightarrow> w)
       (case r_lease_expires_at r of None \<Rightarrow> 0 | Some t \<Rightarrow> t)
   | RunSucceeded \<Rightarrow> Succeeded
   | RunFailed \<Rightarrow> Failed)"

definition run_phase :: "string \<Rightarrow> db \<Rightarrow> phase" where
  "run_phase k d = (case run_by_id d k of None \<Rightarrow> Absent | Some r \<Rightarrow> row_phase r)"

definition run_limit :: "string \<Rightarrow> db \<Rightarrow> int" where
  "run_limit k d = (case run_by_id d k of None \<Rightarrow> 0 | Some r \<Rightarrow> r_max_attempts r)"

text \<open>
  The automaton, for a run of at most \<open>m\<close> attempts and an event at the time \<open>now\<close>; the flag
  says that a failure is recorded. A waiting run is claimed only when it is due, an active one
  only when its lease has ended.
\<close>

inductive lifecycle :: "int \<Rightarrow> time \<Rightarrow> phase \<Rightarrow> bool \<Rightarrow> phase \<Rightarrow> bool" for m now where
  idle: "lifecycle m now p False p"
| queued: "lifecycle m now Absent False (Waiting 0 due)"
| claimed: "due \<le> now \<Longrightarrow> lifecycle m now (Waiting n due) False (Active (n + 1) w (now + runLeaseDuration))"
| reclaimed: "until < now \<Longrightarrow> lifecycle m now (Active n w until) False (Active (n + 1) w' (now + runLeaseDuration))"
| renewed: "lifecycle m now (Active n w until) False (Active n w (now + runLeaseDuration))"
| succeeded: "lifecycle m now (Active n w until) False Succeeded"
| released: "lifecycle m now (Active n w until) False (Waiting n due)"
| retried: "n < m \<Longrightarrow> lifecycle m now (Active n w until) True (Waiting n due)"
| exhausted: "m \<le> n \<Longrightarrow> lifecycle m now (Active n w until) True Failed"

inductive_cases lifecycle_from: "lifecycle m now p f q"

section \<open>The invariant of the control plane\<close>

text \<open>A worker that still owns the row of its run knows the row's attempt and limit.\<close>

definition claims_current :: "(string \<Rightarrow> (runnable_run \<times> bool) option) \<Rightarrow> db \<Rightarrow> bool" where
  "claims_current cl d = (\<forall>w run lost. cl w = Some (run, lost) \<longrightarrow>
     (\<forall>r \<in> set (runs d). owns_run (r_id (rr_run run)) w r \<longrightarrow>
        r_attempt r = r_attempt (rr_run run) \<and> r_max_attempts r = r_max_attempts (rr_run run)))"

definition plane_ok :: "control_plane \<Rightarrow> bool" where
  "plane_ok s = (store_ok (cp_db s) \<and> claims_current (cp_claims s) (cp_db s))"

lemma initial_plane_ok: "plane_ok initial_plane"
  using empty_store_ok by (simp add: plane_ok_def initial_plane_def claims_current_def)

abbreviation fresh_runs :: "run_row list \<Rightarrow> bool" where
  "fresh_runs \<equiv> list_all (\<lambda>r. r_status r = RunQueued \<and> r_attempt r = 0)"

lemma claims_change:
  assumes "claims_current cl d" "runs d' = update_where P f (runs d) @ rs" "fresh_runs rs"
    and "\<And>w. cl' w = None \<or> map_option fst (cl' w) = map_option fst (cl w)"
    and "\<And>r k w. P r \<Longrightarrow> cl' w \<noteq> None \<Longrightarrow> owns_run k w (f r) \<Longrightarrow> owns_run k w r \<and> r_attempt (f r) = r_attempt r \<and> r_max_attempts (f r) = r_max_attempts r"
  shows "claims_current cl' d'"
  unfolding claims_current_def
proof (intro allI impI ballI)
  fix w run lost r assume c: "cl' w = Some (run, lost)" and r: "r \<in> set (runs d')" "owns_run (r_id (rr_run run)) w r"
  from c assms(4)[of w] obtain lost0 where old: "cl w = Some (run, lost0)"
    by (cases "cl w") auto
  from r assms(3) have "r \<in> set (update_where P f (runs d))" by (auto simp: assms(2) owns_run_def list_all_iff)
  then obtain r0 where "r0 \<in> set (runs d)" "r = (if P r0 then f r0 else r0)" by (auto simp: update_where_def)
  with r(2) assms(1) old c assms(5)[of r0 w] show "r_attempt r = r_attempt (rr_run run) \<and> r_max_attempts r = r_max_attempts (rr_run run)"
    unfolding claims_current_def by (metis option.distinct(1))
qed

section \<open>One event and one run\<close>

lemma row_change:
  assumes "runs d' = update_where P f (runs d) @ rs" "\<And>r. r_id (f r) = r_id r"
  shows "run_by_id d' k = (case run_by_id d k of Some r \<Rightarrow> Some (if P r then f r else r) | None \<Rightarrow> find (\<lambda>r. r_id r = k) rs)"
proof -
  have "run_by_id (d\<lparr>runs := update_where P f (runs d)\<rparr>) k = map_option (\<lambda>r. if P r then f r else r) (run_by_id d k)"
    by (rule run_of_update) (rule assms(2))
  then show ?thesis by (auto simp: run_by_id_def assms(1) find_append split: option.splits)
qed

text \<open>The step of the automaton and the limit of the run, from what a statement does to its row.\<close>

definition lives :: "string \<Rightarrow> time \<Rightarrow> bool \<Rightarrow> db \<Rightarrow> db \<Rightarrow> bool" where
  "lives k now failure d d' = (lifecycle (run_limit k d') now (run_phase k d) failure (run_phase k d')
     \<and> (run_phase k d \<noteq> Absent \<longrightarrow> run_limit k d' = run_limit k d))"

lemma row_phase_present [simp]: "row_phase r \<noteq> Absent"
  by (simp add: row_phase_def split: run_status.split)

lemma lives_change:
  assumes "runs d' = update_where P f (runs d) @ rs" "fresh_runs rs"
    and "\<And>r. r_id (f r) = r_id r \<and> r_max_attempts (f r) = r_max_attempts r"
    and "\<And>r. run_by_id d k = Some r \<Longrightarrow> P r \<Longrightarrow> lifecycle (r_max_attempts r) now (row_phase r) failure (row_phase (f r))"
    and "failure \<Longrightarrow> \<exists>r. run_by_id d k = Some r \<and> P r"
  shows "lives k now failure d d'"
proof (cases "run_by_id d k")
  case None
  have "run_by_id d' k = find (\<lambda>r. r_id r = k) rs" using row_change[OF assms(1), of k] assms(3) None by simp
  moreover have "lifecycle m now Absent False (row_phase r)" if "find (\<lambda>r. r_id r = k) rs = Some r" for r m
  proof -
    have "row_phase r = Waiting 0 (r_available_at r)"
      using that assms(2) by (auto simp: list_all_iff row_phase_def dest!: find_eq_SomeD)
    then show ?thesis using lifecycle.queued[of m now "r_available_at r"] by simp
  qed
  moreover have "\<not> failure" using assms(5) None by auto
  ultimately show ?thesis using None
    by (auto simp: lives_def run_phase_def intro: lifecycle.idle split: option.splits)
next
  case (Some r)
  have "run_by_id d' k = Some (if P r then f r else r)" using row_change[OF assms(1), of k] assms(3) Some by simp
  moreover have "\<not> P r \<Longrightarrow> \<not> failure" using assms(5) Some by auto
  ultimately show ?thesis using Some assms(3,4)
    by (auto simp: lives_def run_phase_def run_limit_def intro: lifecycle.idle)
qed

lemma lives_same: "runs d' = runs d \<Longrightarrow> lives k now False d d'"
  by (rule lives_change[where P = "\<lambda>_. False" and f = "\<lambda>r. r" and rs = "[]"]) (simp_all add: update_where_none)

text \<open>A poll that writes anything writes the row of one candidate.\<close>

lemma AcquireRun_row:
  assumes "AcquireRun amb w l d = (res, d')" "queue_ok d" "d' \<noteq> d"
  obtains c where "run_by_id d (r_id c) = Some c" "run_candidate amb d c"
    "runs d' = update_where (\<lambda>r. r_id r = r_id c) (claim_run amb w l) (runs d) @ []"
proof -
  from AcquireRun_from_state[OF assms(1)[unfolded AcquireRun_def]] assms(3) obtain c where
    c: "select_first (\<lambda>r. (r_available_at r, r_created_at r)) (run_candidate amb d) (runs d) = Some c"
    and d': "d' = d\<lparr>runs := update_where (\<lambda>r. r_id r = r_id c) (claim_run amb w l) (runs d)\<rparr>" by blast
  note sel = select_first_Some[OF c]
  have "run_by_id d (r_id c) = Some c"
    using sel(1) assms(2) run_table.lookup_iff[of d "r_id c" c] by (simp add: queue_tables_ok_def)
  with sel(2) d' that show thesis by simp
qed

lemma claim_run_fields [simp]:
  "r_id (claim_run amb w l r) = r_id r" "r_max_attempts (claim_run amb w l r) = r_max_attempts r"
  "r_lease_owner (claim_run amb w l r) = Some w"
  "row_phase (claim_run amb w l r) = Active (r_attempt r + 1) w (pg_now amb + l)"
  by (simp_all add: claim_run_def row_phase_def)

lemma AcquireRun_lives:
  assumes "AcquireRun amb w runLeaseDuration d = (res, d')" "queue_ok d" shows "lives k (pg_now amb) False d d'"
proof (cases "d' = d")
  case False
  with assms show ?thesis
  proof (rule AcquireRun_row)
    fix c assume c: "run_by_id d (r_id c) = Some c" "run_candidate amb d c"
      and d': "runs d' = update_where (\<lambda>r. r_id r = r_id c) (claim_run amb w runLeaseDuration) (runs d) @ []"
    show ?thesis
    proof (rule lives_change[OF d'])
      fix r assume r: "run_by_id d k = Some r" "r_id r = r_id c"
      then have "k = r_id c" using run_table.lookup_SomeD by auto
      with r c(1) have "r = c" by simp
      with c(2) show "lifecycle (r_max_attempts r) (pg_now amb) (row_phase r) False (row_phase (claim_run amb w runLeaseDuration r))"
        by (auto simp: run_candidate_def row_phase_def[of c] opt_holds_def split: option.splits intro: lifecycle.intros)
    qed simp_all
  qed
qed (simp add: lives_same)

lemma AcquireRun_claims:
  assumes "AcquireRun amb w l d = (res, d')" "queue_ok d" "claims_current cl d" "cl w = None"
  shows "claims_current cl d'" "res = Inr (Some run) \<Longrightarrow> claims_current (cl(w := Some (run, False))) d'"
proof -
  show base: "claims_current cl d'"
  proof (cases "d' = d")
    case False
    with assms(1,2) show ?thesis
    proof (rule AcquireRun_row)
      fix c assume "runs d' = update_where (\<lambda>r. r_id r = r_id c) (claim_run amb w l) (runs d) @ []"
      then show ?thesis by (rule claims_change[OF assms(3)]) (use assms(4) in \<open>auto simp: owns_run_def\<close>)
    qed
  qed (use assms(3) in simp)
  assume res: "res = Inr (Some run)"
  have "r = rr_run run" if "r \<in> set (runs d')" "r_id r = r_id (rr_run run)" for r
  proof -
    from assms(1) res obtain i where "run_by_id d' i = Some (rr_run run)"
      by (auto simp: AcquireRun_def AcquireRun_from_def Let_def split: option.splits sum.splits)
    then have "run_by_id d' (r_id (rr_run run)) = Some (rr_run run)" using run_table.lookup_SomeD by auto
    moreover have "distinct (map r_id (runs d'))"
      using AcquireRun_from_ok(1)[OF assms(1)[unfolded AcquireRun_def] assms(2)] by (simp add: queue_tables_ok_def)
    then have "run_by_id d' (r_id (rr_run run)) = Some r" using that run_table.lookup_iff by blast
    ultimately show ?thesis by simp
  qed
  with base show "claims_current (cl(w := Some (run, False))) d'"
    by (auto simp: claims_current_def owns_run_def)
qed

lemma Renew_step:
  assumes "RenewRunLease amb k w runLeaseDuration d = (res, d')"
  shows "lives k' (pg_now amb) False d d'" "claims_current cl d \<Longrightarrow> cl w = Some (run, lost) \<Longrightarrow> claims_current (cl(w := Some (run, lost'))) d'"
proof -
  from assms have d': "runs d' = update_where (owns_run k w) (\<lambda>r. r\<lparr>r_lease_expires_at := Some (pg_now amb + runLeaseDuration)\<rparr>) (runs d) @ []"
    by (auto simp: RenewRunLease_def)
  show "lives k' (pg_now amb) False d d'"
    by (rule lives_change[OF d']) (auto simp: owns_run_def row_phase_def intro: lifecycle.renewed)
  show "claims_current cl d \<Longrightarrow> cl w = Some (run, lost) \<Longrightarrow> claims_current (cl(w := Some (run, lost'))) d'"
    by (rule claims_change[OF _ d']) (auto simp: owns_run_def)
qed

text \<open>A recorded outcome: the row leaves the worker, in the way its kind says.\<close>

lemma owned_phase: "owns_run k w r \<Longrightarrow> \<exists>until. row_phase r = Active (r_attempt r) w until"
  by (simp add: owns_run_def row_phase_def)

lemma outcome_change:
  assumes "runs d' = update_where (owns_run i w) f (runs d) @ rs" "fresh_runs rs" "queue_ok d"
    and "\<And>r. r_id (f r) = r_id r \<and> r_max_attempts (f r) = r_max_attempts r \<and> r_status (f r) \<noteq> RunRunning"
    and "\<And>r until. r \<in> set (runs d) \<Longrightarrow> owns_run i w r \<Longrightarrow>
      lifecycle (r_max_attempts r) now (Active (r_attempt r) w until) failed (row_phase (f r))"
    and "rows_affected (owns_run i w) (runs d) = 1"
  shows "lives k now (failed \<and> k = i) d d'" "claims_current cl d \<Longrightarrow> claims_current (cl(w := None)) d'"
proof -
  from owned_row[OF assms(3,6)] obtain r where r: "run_by_id d i = Some r" "owns_run i w r" by blast
  show "lives k now (failed \<and> k = i) d d'"
  proof (rule lives_change[OF assms(1,2)])
    fix x assume x: "run_by_id d k = Some x" "owns_run i w x"
    then have "k = i" "x \<in> set (runs d)" using run_table.lookup_SomeD[OF x(1)] by (auto simp: owns_run_def)
    moreover obtain until where "row_phase x = Active (r_attempt x) w until" using owned_phase[OF x(2)] by blast
    ultimately show "lifecycle (r_max_attempts x) now (row_phase x) (failed \<and> k = i) (row_phase (f x))"
      using assms(5)[OF _ x(2), of until] by simp
  qed (use r assms(4) in auto)
  show "claims_current cl d \<Longrightarrow> claims_current (cl(w := None)) d'"
    by (rule claims_change[OF _ assms(1,2)]) (use assms(4) in \<open>auto simp: owns_run_def\<close>)
qed

lemma claims_drop: "claims_current cl d \<Longrightarrow> claims_current (cl(w := None)) d"
  by (auto simp: claims_current_def)

lemma record_attempt_step:
  assumes "record_attempt decode amb w run lost out d = (res, d')" "queue_ok d" "claims_current cl d" "cl w = Some (run, lost)"
  defines "failure \<equiv> is_ok res \<and> \<not> interrupted out \<and> attempt_error lost out \<noteq> None"
  shows "lives k now (failure \<and> k = r_id (rr_run run)) d d'" "claims_current (cl(w := None)) d'"
proof -
  let ?i = "r_id (rr_run run)" and ?logs = "at_logs (ao_result out)"
  have "lives k now (failure \<and> k = ?i) d d' \<and> claims_current (cl(w := None)) d'"
  proof (cases "is_ok res")
    case False
    then obtain e where "res = Inl e" by (cases res) auto
    with assms(1) have "d' = d" unfolding record_attempt_def Let_def ReleaseRun_def FailRun_def CompleteRun_def
      by (auto simp: transact_eq_Inl split: if_splits option.splits)
    with False show ?thesis using assms(3) claims_drop by (simp add: failure_def lives_same)
  next
    case True
    then have res: "res = Inr ()" by (cases res) auto
    consider (release) "interrupted out" "ReleaseRun amb (rr_run run) w ?logs shutdownReleaseReason d = (Inr (), d')"
      | (fail) msg where "\<not> interrupted out" "attempt_error lost out = Some msg" "FailRun amb (rr_run run) w ?logs msg d = (Inr (), d')"
      | (complete) rs st where "attempt_error lost out = None" "CompleteRun amb run w ?logs rs st (at_control (ao_result out)) d = (Inr (), d')"
      using assms(1) by (auto simp: record_attempt_def Let_def res split: if_splits option.splits)
    then show ?thesis
    proof cases
      case release
      then have "runs d' = update_where (owns_run ?i w) (released_run amb ?logs shutdownReleaseReason) (runs d) @ []"
        and one: "rows_affected (owns_run ?i w) (runs d) = 1" by (auto simp: ReleaseRun_Inr)
      note step = outcome_change[OF this(1) _ assms(2) _ _ one, where failed = False and now = now]
      have "lives k now (False \<and> k = ?i) d d' \<and> claims_current (cl(w := None)) d'"
        by (intro conjI step assms(3)) (auto simp: released_run_def row_phase_def intro: lifecycle.intros)
      with release show ?thesis by (simp add: failure_def)
    next
      case complete
      from complete(2) show ?thesis
      proof (cases rule: CompleteRun_Inr)
        case (1 d1 es rn ss ps ns as)
        have new: "runs d' = update_where (owns_run ?i w) (finish_run amb RunSucceeded ?logs rs []) (runs d) @ rn" by (simp add: 1(4))
        have "fresh_runs rn" using 1(5,6) by (cases "rc_defer (at_control (ao_result out))") (auto simp: deferred_run_def queued_run_def)
        note step = outcome_change[OF new this assms(2) _ _ 1(1), where failed = False and now = now]
        have "lives k now (False \<and> k = ?i) d d' \<and> claims_current (cl(w := None)) d'"
          by (intro conjI step assms(3)) (auto simp: finish_run_def row_phase_def intro: lifecycle.intros)
        with complete show ?thesis by (simp add: failure_def)
      qed
    next
      case (fail msg)
      from fail(3) show ?thesis
      proof (cases rule: FailRun_Inr)
        case (1 dl ns as)
        let ?retry = "r_attempt (rr_run run) < r_max_attempts (rr_run run)"
        have new: "runs d' = update_where (owns_run ?i w) (failed_run amb ?retry dl ?logs msg) (runs d) @ []" by (simp add: 1(4))
        have known: "r_attempt r = r_attempt (rr_run run) \<and> r_max_attempts r = r_max_attempts (rr_run run)"
          if "r \<in> set (runs d)" "owns_run ?i w r" for r
          using assms(3,4) that by (auto simp: claims_current_def)
        note step = outcome_change[OF new _ assms(2) _ _ 1(1), where failed = True and now = now]
        have "lives k now (True \<and> k = ?i) d d' \<and> claims_current (cl(w := None)) d'"
          by (intro conjI step assms(3)) (auto simp: failed_run_def row_phase_def known intro: lifecycle.intros)
        with fail True show ?thesis by (simp add: failure_def)
      qed
    qed
  qed
  then show "lives k now (failure \<and> k = ?i) d d'" "claims_current (cl(w := None)) d'" by blast+
qed

lemma store_call_adds:
  assumes "apply_op op d = (ok, d')" "store_ok d" "\<not> run_step_of_worker op" shows "adds_runs d d'"
  using assms queue_op_ok(2) approval_op_runs catalog_op_runs deployment_op_runs notice_op_runs secret_op_rest investigation_op_rest
    retention_op_runs by (cases op) (fastforce simp: rest_of_secrets_def rest_of_investigations_def)+

lemma store_call_step:
  assumes "apply_op op d = (ok, d')" "store_ok d" "\<not> run_step_of_worker op"
  shows "lives k now False d d'" "claims_current cl d \<Longrightarrow> claims_current cl d'"
proof -
  from store_call_adds[OF assms] obtain rs where "runs d' = runs d @ rs" and new: "fresh_runs rs" by (auto simp: adds_runs_def)
  then have d': "runs d' = update_where (\<lambda>_. False) (\<lambda>r. r) (runs d) @ rs" by (simp add: update_where_none)
  show "lives k now False d d'" by (rule lives_change[OF d' new]) simp_all
  assume "claims_current cl d"
  then show "claims_current cl d'" by (rule claims_change[OF _ d' new]) simp_all
qed

lemma outcome_is_run_op:
  assumes "record_attempt decode amb w run lost out d = (res, d')"
  shows "\<exists>x. apply_run_op x d = (is_ok res, d')"
proof (cases "interrupted out")
  case True
  with assms show ?thesis
    by (intro exI[of _ "ReleaseRunOp amb (rr_run run) w (at_logs (ao_result out)) shutdownReleaseReason"])
      (simp add: record_attempt_def report_def)
next
  case False
  show ?thesis
  proof (cases "attempt_error lost out")
    case None
    with False assms show ?thesis
      by (intro exI[of _ "CompleteRunOp amb run w (at_logs (ao_result out)) (decode (at_output (ao_result out)))
          (Option.bind (at_state (ao_result out)) decode) (at_control (ao_result out))"])
        (simp add: record_attempt_def report_def)
  next
    case (Some msg)
    with False assms show ?thesis
      by (intro exI[of _ "FailRunOp amb (rr_run run) w (at_logs (ao_result out)) msg"])
        (simp add: record_attempt_def report_def)
  qed
qed

text \<open>Every event is a step of the automaton for every run, and keeps the invariant.\<close>

lemma plane_step_lives:
  assumes "plane_step decode ev s = Some (label, s')" "plane_ok s"
  shows "lives k (event_now ev) (label = Some k) (cp_db s) (cp_db s')" "plane_ok s'"
proof -
  from assms(2) have ok: "store_ok (cp_db s)" and cl: "claims_current (cp_claims s) (cp_db s)" by (simp_all add: plane_ok_def)
  note q = store_okD(1)[OF ok]
  have kept: "store_ok d'" if "apply_op op (cp_db s) = (b, d')" for op b d'
    using apply_op_kept[OF that ok] by (simp add: kept_def)
  have runop: "store_ok d'" if "apply_run_op x (cp_db s) = (b, d')" for x b d'
    using kept[of "RunStep x"] that by simp
  have "lives k (event_now ev) (label = Some k) (cp_db s) (cp_db s') \<and> plane_ok s'"
  proof (cases ev)
    case (Poll amb w)
    obtain res d where r: "AcquireRun amb w runLeaseDuration (cp_db s) = (res, d)" by (cases "AcquireRun amb w runLeaseDuration (cp_db s)")
    with runop[of "AcquireRunOp amb w runLeaseDuration"] have "store_ok d" by (simp add: report_def)
    moreover from assms(1) Poll have "cp_claims s w = None" by (cases "cp_claims s w") auto
    ultimately show ?thesis using assms(1) Poll r AcquireRun_lives[OF r q] AcquireRun_claims[OF r q cl]
      by (auto simp: plane_ok_def split: sum.splits option.splits)
  next
    case (RenewalTick amb w)
    with assms(1) obtain run where c: "cp_claims s w = Some (run, False)" by (auto split: option.splits prod.splits bool.splits)
    obtain res d where r: "RenewRunLease amb (r_id (rr_run run)) w runLeaseDuration (cp_db s) = (res, d)"
      by (cases "RenewRunLease amb (r_id (rr_run run)) w runLeaseDuration (cp_db s)")
    with runop[of "RenewRunOp amb (r_id (rr_run run)) w runLeaseDuration"] have "store_ok d" by (simp add: report_def)
    moreover obtain b where "res = Inr b" using r by (auto simp: RenewRunLease_def)
    ultimately show ?thesis using assms(1) RenewalTick r c Renew_step(1)[OF r] Renew_step(2)[OF r cl c]
      by (auto simp: plane_ok_def)
  next
    case (ExecutorReturns amb w out)
    with assms(1) obtain run lost where c: "cp_claims s w = Some (run, lost)" by (auto split: option.splits)
    obtain res d where r: "record_attempt decode amb w run lost out (cp_db s) = (res, d)"
      by (cases "record_attempt decode amb w run lost out (cp_db s)")
    have "store_ok d" using runop outcome_is_run_op[OF r] by blast
    with assms(1) ExecutorReturns r c record_attempt_step(1)[OF r q cl c, of k] record_attempt_step(2)[OF r q cl c] show ?thesis
      by (auto simp: plane_ok_def eq_commute[of k])
  next
    case (WorkerDies w)
    with assms(1) ok cl show ?thesis by (auto simp: plane_ok_def lives_same claims_drop)
  next
    case (StoreCall op)
    with assms(1) have op: "\<not> run_step_of_worker op" by (auto split: if_splits)
    obtain b d where r: "apply_op op (cp_db s) = (b, d)" by (cases "apply_op op (cp_db s)")
    with assms(1) StoreCall op kept[OF r] store_call_step[OF r ok op] cl show ?thesis
      by (auto simp: plane_ok_def)
  qed
  then show "lives k (event_now ev) (label = Some k) (cp_db s) (cp_db s')" "plane_ok s'" by blast+
qed

section \<open>Sequences of events\<close>

inductive_simps lifecycle_final: "lifecycle m now Succeeded f q" "lifecycle m now Failed f q"

lemma plane_run_Cons:
  "plane_run decode (e # es) s = Some (ls, s') \<longleftrightarrow>
    (\<exists>l s1 ls1. plane_step decode e s = Some (l, s1) \<and> plane_run decode es s1 = Some (ls1, s') \<and> ls = l # ls1)"
  by (auto simp: bind_eq_Some_conv)

text \<open>What is known of a run with \<open>n\<close> recorded failures.\<close>

fun failures_fit :: "phase \<Rightarrow> int \<Rightarrow> int \<Rightarrow> bool" where
  "failures_fit Absent m n = (n = 0)"
| "failures_fit (Waiting a due) m n = (n \<le> a \<and> n < max 1 m)"
| "failures_fit (Active a w until) m n = (n < a \<and> n < max 1 m)"
| "failures_fit Succeeded m n = (n < max 1 m)"
| "failures_fit Failed m n = (n \<le> max 1 m)"

lemma failures_fit_step:
  "lifecycle m now p f q \<Longrightarrow> failures_fit p m n \<Longrightarrow> 0 \<le> n \<Longrightarrow> failures_fit q m (n + (if f then 1 else 0))"
  by (erule lifecycle.cases) auto

lemma failures_fit_bound: "failures_fit p m n \<Longrightarrow> n \<le> max 1 m"
  by (cases p) auto

lemma failures_fit_plane:
  assumes "plane_run decode evs s = Some (labels, s')" "plane_ok s" "0 \<le> n"
    and "failures_fit (run_phase k (cp_db s)) (run_limit k (cp_db s)) n"
  shows "failures_fit (run_phase k (cp_db s')) (run_limit k (cp_db s')) (n + int (count_list labels (Some k)))"
  using assms
proof (induction evs arbitrary: s labels n)
  case (Cons e es)
  from Cons.prems(1) obtain l s1 ls where
    st: "plane_step decode e s = Some (l, s1)" "plane_run decode es s1 = Some (ls, s')" "labels = l # ls"
    unfolding plane_run_Cons by blast
  note step = plane_step_lives[OF st(1) Cons.prems(2)]
  have "failures_fit (run_phase k (cp_db s)) (run_limit k (cp_db s1)) n"
    using step(1)[of k] Cons.prems(4) by (cases "run_phase k (cp_db s) = Absent") (auto simp: lives_def)
  with step(1)[of k] Cons.prems(3) have "failures_fit (run_phase k (cp_db s1)) (run_limit k (cp_db s1)) (n + (if l = Some k then 1 else 0))"
    by (auto simp: lives_def dest: failures_fit_step)
  from Cons.IH[OF st(2) step(2) _ this] Cons.prems(3) show ?case by (auto simp: st(3) algebra_simps split: if_splits)
qed simp

lemma final_phase_plane:
  assumes "plane_run decode evs s = Some (labels, s')" "plane_ok s" "run_phase k (cp_db s) \<in> {Succeeded, Failed}"
  shows "run_phase k (cp_db s') = run_phase k (cp_db s) \<and> Some k \<notin> set labels"
  using assms
proof (induction evs arbitrary: s labels)
  case (Cons e es)
  from Cons.prems(1) obtain l s1 ls where
    st: "plane_step decode e s = Some (l, s1)" "plane_run decode es s1 = Some (ls, s')" "labels = l # ls"
    unfolding plane_run_Cons by blast
  note step = plane_step_lives[OF st(1) Cons.prems(2)]
  from step(1)[of k] Cons.prems(3) have "run_phase k (cp_db s1) = run_phase k (cp_db s)" "l \<noteq> Some k"
    by (auto simp: lives_def lifecycle_final)
  with Cons.IH[OF st(2) step(2)] Cons.prems(3) st(3) show ?case by auto
qed simp

lemma plane_run_ok: "plane_run decode evs s = Some (labels, s') \<Longrightarrow> plane_ok s \<Longrightarrow> plane_ok s'"
  by (induction evs arbitrary: s labels) (auto simp: bind_eq_Some_conv dest: plane_step_lives(2))

section \<open>A sample control plane\<close>

definition sample_plane :: control_plane where
  "sample_plane = \<lparr>cp_db = sample_store, cp_claims = (\<lambda>_. None)\<rparr>"

lemma sample_plane_ok: "plane_ok sample_plane"
  using sample_store_ok by (simp add: plane_ok_def sample_plane_def claims_current_def)

definition sample_failure :: attempt_outcome where
  "sample_failure = \<lparr>ao_result = logs_only ''boom'', ao_error = Some ''exit status 1'', ao_canceled = False, ao_shutdown = False\<rparr>"

definition sample_success :: attempt_outcome where
  "sample_success = \<lparr>ao_result = (logs_only [])\<lparr>at_state := Some ''{}''\<rparr>, ao_error = None, ao_canceled = False, ao_shutdown = False\<rparr>"

definition sample_decode :: "string \<Rightarrow> json option" where
  "sample_decode s = (if s = ''{}'' then Some (JObject []) else None)"

abbreviation sample_ingest :: plane_event where
  "sample_ingest \<equiv> StoreCall (QueueStep (IngestOp (sample_ambient 1 (2 * hour)) ''orders'' ''hook'' ''webhook'' ''ext-1'' zero_time (JObject []) []))"

definition sample_events :: "attempt_outcome \<Rightarrow> plane_event list" where
  "sample_events out = [sample_ingest, Poll (sample_ambient 2 (2 * hour)) ''w1'', RenewalTick (sample_ambient 3 (2 * hour)) ''w1'',
     ExecutorReturns (sample_ambient 4 (2 * hour)) ''w1'' out]"

definition sample_ended :: "attempt_outcome \<Rightarrow> control_plane" where
  "sample_ended out = snd (the (plane_run sample_decode (sample_events out) sample_plane))"

lemma sample_runs:
  "plane_run sample_decode (sample_events sample_failure) sample_plane = Some ([None, None, None, Some sample_run_id], sample_ended sample_failure)"
  "plane_run sample_decode (sample_events sample_success) sample_plane = Some ([None, None, None, None], sample_ended sample_success)"
proof -
  have "map_option fst (plane_run sample_decode (sample_events sample_failure) sample_plane) = Some [None, None, None, Some sample_run_id]"
    "map_option fst (plane_run sample_decode (sample_events sample_success) sample_plane) = Some [None, None, None, None]"
    by code_simp+
  then show "plane_run sample_decode (sample_events sample_failure) sample_plane = Some ([None, None, None, Some sample_run_id], sample_ended sample_failure)"
    "plane_run sample_decode (sample_events sample_success) sample_plane = Some ([None, None, None, None], sample_ended sample_success)"
    by (auto simp: sample_ended_def)
qed

section \<open>Properties\<close>

text \<open>
  C2: The control plane implements the life cycle of a run. In every state in which the invariant
  of the workers and the store holds, every event moves every run along one step of the automaton
  \<open>lifecycle\<close> at the time of the event or leaves it where it is, whether the event is a poll, a
  renewal, the end of an execution, a crash of a worker, or a call of any operation of the store
  but those that only a worker makes on a run, with any arguments and successful or not: a run appears as waiting with no attempt; a waiting
  run is claimed only when it is due, and an active one is taken by another worker only when its
  lease has expired, each claim with the next attempt and a lease of ten minutes from then; its
  worker renews that lease; and an active run succeeds, is released, or has a failure recorded
  that sends it back to waiting below its limit of attempts and ends it otherwise. The invariant
  holds again afterwards.
\<close>

theorem run_lifecycle_refinement:
  assumes "plane_ok s" and "plane_step decode ev s = Some (label, s')"
  shows "lifecycle (run_limit k (cp_db s')) (event_now ev) (run_phase k (cp_db s)) (label = Some k) (run_phase k (cp_db s')) \<and> plane_ok s'"
  using plane_step_lives[OF assms(2,1)] by (auto simp: lives_def)

theorem run_lifecycle_refinement_witness:
  "\<exists>label s'. plane_step sample_decode sample_ingest sample_plane = Some (label, s')
     \<and> lifecycle 3 0 Absent False (run_phase sample_run_id (cp_db s')) \<and> run_phase sample_run_id (cp_db s') = Waiting 0 (2 * hour)"
proof -
  let ?x = "plane_step sample_decode sample_ingest sample_plane"
  have "map_option fst ?x = Some None" by code_simp
  then obtain s' where st: "?x = Some (None, s')" by (cases ?x) auto
  have "map_option (\<lambda>(l, s'). (run_phase sample_run_id (cp_db s'), run_limit sample_run_id (cp_db s'))) ?x = Some (Waiting 0 (2 * hour), 3)" by code_simp
  moreover have "run_phase sample_run_id (cp_db sample_plane) = Absent" by code_simp
  ultimately show ?thesis
    using run_lifecycle_refinement[OF sample_plane_ok st, of sample_run_id] st by auto
qed

text \<open>
  C4: Retries end. Over any sequence of events from a state in which the invariant of the workers
  and the store holds, as it does at first, however long and in whatever interleaving of workers,
  crashes, releases, reclaimed leases and calls of the other operations of the store, the failures
  recorded for a run that did not exist at the start are at most its limit of attempts (and at
  most one for a limit below one).
\<close>

theorem recorded_failures_bounded:
  assumes "plane_ok s" and "run_phase k (cp_db s) = Absent" and "plane_run decode evs s = Some (labels, s')"
  shows "int (count_list labels (Some k)) \<le> max 1 (run_limit k (cp_db s'))"
  using failures_fit_plane[OF assms(3,1), of 0 k] assms(2) failures_fit_bound by fastforce

theorem recorded_failures_bounded_witness:
  "int (count_list [None, None, None, Some sample_run_id] (Some sample_run_id)) = 1
     \<and> int (count_list [None, None, None, Some sample_run_id] (Some sample_run_id)) \<le> max 1 (run_limit sample_run_id (cp_db (sample_ended sample_failure)))"
proof -
  have "run_phase sample_run_id (cp_db sample_plane) = Absent" by code_simp
  from recorded_failures_bounded[OF sample_plane_ok this sample_runs(1)] show ?thesis by simp
qed

text \<open>
  C14: A finished run is final. Once a run has succeeded or failed, in a state in which the invariant
  of the workers and the store holds, no sequence of events of any worker or component changes
  that, and no failure of it is recorded any more.
\<close>

theorem finished_run_final:
  assumes "plane_ok s" and "run_phase k (cp_db s) = Succeeded \<or> run_phase k (cp_db s) = Failed"
    and "plane_run decode evs s = Some (labels, s')"
  shows "run_phase k (cp_db s') = run_phase k (cp_db s) \<and> Some k \<notin> set labels"
  using final_phase_plane[OF assms(3,1)] assms(2) by simp

theorem finished_run_final_witness:
  "\<exists>s'. plane_run sample_decode [Poll (sample_ambient 9 (9 * hour)) ''w2''] (sample_ended sample_success) = Some ([None], s')
     \<and> run_phase sample_run_id (cp_db s') = Succeeded"
proof -
  let ?x = "plane_run sample_decode [Poll (sample_ambient 9 (9 * hour)) ''w2''] (sample_ended sample_success)"
  have ok: "plane_ok (sample_ended sample_success)" by (rule plane_run_ok[OF sample_runs(2) sample_plane_ok])
  have succ: "run_phase sample_run_id (cp_db (sample_ended sample_success)) = Succeeded" by code_simp
  have "map_option fst ?x = Some [None]" by code_simp
  then obtain s' where st: "?x = Some ([None], s')" by (cases ?x) auto
  from finished_run_final[OF ok disjI1[OF succ] st] succ st show ?thesis by auto
qed

end
