(* ===== verification/Deployer.thy ===== *)
theory Deployer
  imports DeploymentQueue Manifest "HOL-Library.AList"
begin

text \<open>
  The deployer (\<open>service/deployer.go\<close>), the Python SDK it embeds (\<open>sdk/python/embed.go\<close>), the
  deployment worker (\<open>service/deployment_worker.go\<close>) and the custodian of artifacts
  (\<open>service/provenance.go\<close>): a source tree is validated and hashed, copied, built and checked,
  attested, published under its content hash and activated in the store.

  The directory of artifacts is an association list from names to entries. A builder is a function
  that may change the copied tree and report steps to the store; the manifest decoder, the
  preparation of the execution environment, the JSON decoder of attestations, the files of the
  SDK, the umask of the process and what is read through a link are arguments.
\<close>

type_synonym tree = "(string \<times> artifact_entry) list"

datatype deploy_error = DeployText string | DeployStore store_error | DeployProvenance provenance_error
  | DeployJoin deploy_error deploy_error

text \<open>\<open>errors.Is\<close> for an error of the store, and \<open>errors.Join\<close>.\<close>

fun is_store_error :: "store_error \<Rightarrow> deploy_error \<Rightarrow> bool" where
  "is_store_error e (DeployStore x) = (x = e)"
| "is_store_error e (DeployJoin a b) = (is_store_error e a \<or> is_store_error e b)"
| "is_store_error e _ = False"

definition join_errors :: "deploy_error option \<Rightarrow> deploy_error \<Rightarrow> deploy_error option" where
  "join_errors a b = Some (case a of None \<Rightarrow> b | Some x \<Rightarrow> DeployJoin x b)"

type_synonym reporter = "ambient \<Rightarrow> deployment_step_update \<Rightarrow> db \<Rightarrow> store_error option \<times> db"
type_synonym builder = "reporter option \<Rightarrow> manifest \<Rightarrow> tree \<Rightarrow> db \<Rightarrow> (deploy_error + tree) \<times> db"

record deployer =
  dl_crypto :: crypto
  dl_attestor :: "attestor option"
  dl_builder :: "builder option"
  dl_prepare :: "(manifest \<Rightarrow> string + manifest) option"
  dl_yaml :: "string \<Rightarrow> string + manifest"
  dl_cron_text :: "string \<Rightarrow> string"
  dl_json :: "string \<Rightarrow> artifact_provenance option"
  dl_sdk :: tree
  dl_umask :: "nat \<Rightarrow> nat"
  dl_source :: "string \<Rightarrow> tree"
  dl_linked :: "string \<Rightarrow> string option"

record prepared_deployment =
  pd_source_directory :: string
  pd_manifest :: manifest
  pd_content_hash :: string

record built_deployment =
  bd_prepared :: prepared_deployment
  bd_artifact_path :: string
  bd_provenance :: artifact_provenance

section \<open>The Python SDK\<close>

definition sdk_file :: "string \<times> nat \<times> string option \<Rightarrow> string" where
  "sdk_file f = (case f of (path, mode, content) \<Rightarrow>
     path @ [CHR 0x00] @ (case content of None \<Rightarrow> [] | Some c \<Rightarrow> c) @ [CHR 0x00])"

definition sdk_Digest :: "(string \<Rightarrow> string) \<Rightarrow> tree \<Rightarrow> string" where
  "sdk_Digest sha256 sdk = hex_encode (sha256 (concat (map sdk_file
     (case digest_entries ''werkt'' sdk of Inl _ \<Rightarrow> [] | Inr fs \<Rightarrow> sort_key fst fs))))"

definition RevisionHash :: "(string \<Rightarrow> string) \<Rightarrow> tree \<Rightarrow> string \<Rightarrow> string" where
  "RevisionHash sha256 sdk packageHash =
     hex_encode (sha256 (packageHash @ [CHR 0x00] @ ''werkt-python-sdk:'' @ sdk_Digest sha256 sdk))"

definition sdk_Install :: "tree \<Rightarrow> tree \<Rightarrow> deploy_error + tree" where
  "sdk_Install sdk tree =
     (let installed = ArtifactDir [(''werkt'', ArtifactDir sdk)] in
      case map_of tree ''.werkt-sdk'' of
        None \<Rightarrow> Inr (tree @ [(''.werkt-sdk'', ArtifactDir [(''python'', installed)])])
      | Some (ArtifactDir entries) \<Rightarrow>
          guardR (''python'' \<in> fst ` set entries)
            (DeployText ''automation package collides with the reserved Python SDK artifact path'')
            (Inr (AList.update ''.werkt-sdk'' (ArtifactDir (entries @ [(''python'', installed)])) tree))
      | Some _ \<Rightarrow> Inl (DeployText ''.werkt-sdk: not a directory''))"

section \<open>Preparation\<close>

text \<open>The tree as the content hash reads it; files are opened through links.\<close>

fun as_file_tree :: "(string \<Rightarrow> string option) \<Rightarrow> string \<Rightarrow> artifact_entry \<Rightarrow> file_tree" where
  "as_file_tree linked path (ArtifactFile mode content) = FileNode content"
| "as_file_tree linked path (ArtifactDir entries) =
     DirNode (map (\<lambda>(name, node). (name, as_file_tree linked (if path = [] then name else path @ ''/'' @ name) node)) entries)"
| "as_file_tree linked path ArtifactLink = FileNode (linked path)"
| "as_file_tree linked path ArtifactSpecial = FileNode (linked path)"

definition resolvedEnvironmentRevisionHash :: "(string \<Rightarrow> string) \<Rightarrow> string \<Rightarrow> resolved_tool_environment \<Rightarrow> string" where
  "resolvedEnvironmentRevisionHash sha256 sourceHash e =
     hex_encode (sha256 (json_object [(''source'', json_string sourceHash), (''environment'', environment_json e)]))"

definition of_text :: "string + 'a \<Rightarrow> deploy_error + 'a" where
  "of_text r = (case r of Inl e \<Rightarrow> Inl (DeployText e) | Inr x \<Rightarrow> Inr x)"

definition of_provenance :: "provenance_error + 'a \<Rightarrow> deploy_error + 'a" where
  "of_provenance r = (case r of Inl e \<Rightarrow> Inl (DeployProvenance e) | Inr x \<Rightarrow> Inr x)"

definition package_hash :: "deployer \<Rightarrow> manifest \<Rightarrow> tree \<Rightarrow> string option" where
  "package_hash dl m source =
     (let sha = cr_sha256 (dl_crypto dl);
          sdk = (\<lambda>h. if rn_language (mf_runtime m) = ''python'' then RevisionHash sha (dl_sdk dl) h else h);
          tools = (\<lambda>h. case rn_resolved_tools (mf_runtime m) of None \<Rightarrow> h | Some e \<Rightarrow> resolvedEnvironmentRevisionHash sha h e)
      in map_option (\<lambda>h. tools (sdk h)) (HashDirectory sha (as_file_tree (dl_linked dl) [] (ArtifactDir source))))"

definition Prepare :: "deployer \<Rightarrow> ambient \<Rightarrow> string \<Rightarrow> db \<Rightarrow> deploy_error + prepared_deployment" where
  "Prepare dl amb sourceDirectory d =
     (let absolute = Abs (working_dir amb) sourceDirectory in
      bindR (of_text (Load (dl_yaml dl) amb (dl_cron_text dl) absolute)) (\<lambda>m0.
      bindR (case dl_prepare dl of None \<Rightarrow> Inr m0
             | Some f \<Rightarrow> (case f m0 of Inl e \<Rightarrow> Inl (DeployText (''prepare execution environment: '' @ e)) | Inr m \<Rightarrow> Inr m)) (\<lambda>m.
      bindR (case ValidateSecretReferences (SecretReferences m) d of Inl e \<Rightarrow> Inl (DeployStore e) | Inr _ \<Rightarrow> Inr ()) (\<lambda>_.
      (case package_hash dl m (dl_source dl absolute) of
         None \<Rightarrow> Inl (DeployText ''walk automation directory'')
       | Some h \<Rightarrow> Inr \<lparr>pd_source_directory = absolute, pd_manifest = m, pd_content_hash = h\<rparr>)))))"

section \<open>Building an artifact\<close>

fun copy_entries :: "(nat \<Rightarrow> nat) \<Rightarrow> string \<Rightarrow> tree \<Rightarrow> deploy_error + tree"
  and copy_entry :: "(nat \<Rightarrow> nat) \<Rightarrow> string \<Rightarrow> artifact_entry \<Rightarrow> deploy_error + artifact_entry" where
  "copy_entries umask path [] = Inr []"
| "copy_entries umask path ((name, node) # entries) =
     (let relative = (if path = [] then name else path @ ''/'' @ name) in
      if path = [] \<and> name = MetadataDirectory
      then Inl (DeployText (''automation packages cannot contain reserved '' @ MetadataDirectory @ '' metadata''))
      else if (case node of ArtifactDir _ \<Rightarrow> ignoredDirectory name | _ \<Rightarrow> False) then copy_entries umask path entries
      else bindR (copy_entry umask relative node) (\<lambda>copied.
           bindR (copy_entries umask path entries) (\<lambda>rest. Inr ((name, copied) # rest))))"
| "copy_entry umask relative (ArtifactDir entries) =
     bindR (copy_entries umask relative entries) (\<lambda>copied. Inr (ArtifactDir copied))"
| "copy_entry umask relative ArtifactLink =
     Inl (DeployText (''automation packages cannot contain symbolic links: '' @ relative))"
| "copy_entry umask relative ArtifactSpecial = Inl (DeployText (''unsupported package entry: '' @ relative))"
| "copy_entry umask relative (ArtifactFile mode content) = (case content of
     None \<Rightarrow> Inl (DeployText (''open '' @ relative)) | Some c \<Rightarrow> Inr (ArtifactFile (umask mode) (Some c)))"

definition copyDirectory :: "(nat \<Rightarrow> nat) \<Rightarrow> tree \<Rightarrow> deploy_error + tree" where
  "copyDirectory umask source = copy_entries umask [] source"

text \<open>The copy of the package with the SDK an automation in Python needs.\<close>

definition package_copy :: "deployer \<Rightarrow> prepared_deployment \<Rightarrow> deploy_error + tree" where
  "package_copy dl p =
     bindR (copyDirectory (dl_umask dl) (dl_source dl (pd_source_directory p))) (\<lambda>tree.
     if rn_language (mf_runtime (pd_manifest p)) = ''python'' then sdk_Install (dl_sdk dl) tree else Inr tree)"

definition requires_promotion :: "manifest \<Rightarrow> bool" where
  "requires_promotion m = (rn_build (mf_runtime m) \<noteq> [] \<or> mf_checks m \<noteq> [])"

text \<open>Build and checks, when the manifest has any.\<close>

definition promote :: "deployer \<Rightarrow> reporter option \<Rightarrow> manifest \<Rightarrow> tree \<Rightarrow> db \<Rightarrow> (deploy_error + tree) \<times> db" where
  "promote dl report m tree d =
     (if \<not> requires_promotion m then (Inr tree, d)
      else case dl_builder dl of
        None \<Rightarrow> (Inl (DeployText ''deployment builder is not configured''), d)
      | Some build \<Rightarrow> build report m tree d)"

definition loadVerifiedArtifact :: "deployer \<Rightarrow> attestor \<Rightarrow> tree \<Rightarrow> prepared_deployment \<Rightarrow> deploy_error + artifact_provenance" where
  "loadVerifiedArtifact dl a tree p =
     (let m = pd_manifest p in
      bindR (of_provenance (provenance_Load (dl_json dl) tree)) (\<lambda>v.
      bindR (of_provenance (Verify (dl_crypto dl) a tree v)) (\<lambda>_.
      guardR (ap_content_hash v \<noteq> pd_content_hash p \<or> ap_automation_id v \<noteq> md_name (mf_metadata m)
          \<or> ap_runtime_image v \<noteq> rn_image (mf_runtime m) \<or> ap_build_image v \<noteq> effectiveBuildImage m
          \<or> ap_tool_environment v \<noteq> rn_resolved_tools (mf_runtime m))
        (DeployText ''retained artifact attestation does not match the prepared deployment'') (Inr v))))"

text \<open>The attested tree of a new artifact.\<close>

definition attest_copy :: "deployer \<Rightarrow> attestor \<Rightarrow> prepared_deployment \<Rightarrow> tree \<Rightarrow> deploy_error + tree" where
  "attest_copy dl a p tree =
     guardR (MetadataDirectory \<in> fst ` set tree) (DeployText (''artifact contains reserved '' @ MetadataDirectory @ '' metadata''))
     (bindR (of_provenance (Attest (dl_crypto dl) a tree (pd_manifest p) (pd_content_hash p))) (\<lambda>v.
      of_provenance (provenance_Write v tree)))"

text \<open>
  Publication by renaming: an entry that appeared under the name in the meantime stays, unless it is
  an empty directory, and is an error unless it is a directory.
\<close>

definition publish_artifact :: "string \<Rightarrow> tree \<Rightarrow> tree \<Rightarrow> deploy_error + tree" where
  "publish_artifact name tree artifacts = (case map_of artifacts name of
     None \<Rightarrow> Inr (artifacts @ [(name, ArtifactDir tree)])
   | Some (ArtifactDir []) \<Rightarrow> Inr (AList.update name (ArtifactDir tree) artifacts)
   | Some (ArtifactDir _) \<Rightarrow> Inr artifacts
   | Some _ \<Rightarrow> Inl (DeployText ''publish artifact''))"

definition artifact_location :: "ambient \<Rightarrow> string \<Rightarrow> string" where
  "artifact_location amb contentHash =
     Abs (working_dir amb) (JoinPath (JoinPath (data_dir amb) ''artifacts'') contentHash)"

definition built :: "ambient \<Rightarrow> prepared_deployment \<Rightarrow> artifact_provenance \<Rightarrow> built_deployment" where
  "built amb p v = \<lparr>bd_prepared = p, bd_artifact_path = artifact_location amb (pd_content_hash p), bd_provenance = v\<rparr>"

text \<open>
  The last step of \<open>BuildArtifact\<close>: whatever is published under the content hash is loaded and
  verified once more, and its attestation is the one that is handed on.
\<close>

definition verified_artifact :: "deployer \<Rightarrow> attestor \<Rightarrow> ambient \<Rightarrow> prepared_deployment \<Rightarrow> tree \<Rightarrow> deploy_error + built_deployment" where
  "verified_artifact dl a amb p artifacts = (case map_of artifacts (pd_content_hash p) of
     Some (ArtifactDir tree) \<Rightarrow> bindR (loadVerifiedArtifact dl a tree p) (\<lambda>v. Inr (built amb p v))
   | _ \<Rightarrow> Inl (DeployProvenance ErrMetadataMissing))"

text \<open>\<open>meanwhile\<close> is what other deployments published while this one was building.\<close>

definition BuildArtifact :: "deployer \<Rightarrow> ambient \<Rightarrow> (tree \<Rightarrow> tree) \<Rightarrow> reporter option \<Rightarrow> prepared_deployment \<Rightarrow> tree \<Rightarrow> db
    \<Rightarrow> (deploy_error + built_deployment) \<times> tree \<times> db" where
  "BuildArtifact dl amb meanwhile report p artifacts d =
     (let m = pd_manifest p; name = pd_content_hash p in
      case dl_attestor dl of
        None \<Rightarrow> (Inl (DeployText ''artifact attestor is not configured''), artifacts, d)
      | Some a \<Rightarrow>
          (case map_of artifacts name of
             None \<Rightarrow>
               (case package_copy dl p of
                  Inl e \<Rightarrow> (Inl e, artifacts, d)
                | Inr copied \<Rightarrow>
                    (case promote dl report m copied d of
                       (Inl e, d1) \<Rightarrow> (Inl e, meanwhile artifacts, d1)
                     | (Inr promoted, d1) \<Rightarrow>
                         (case bindR (attest_copy dl a p promoted) (\<lambda>tree. publish_artifact name tree (meanwhile artifacts)) of
                            Inl e \<Rightarrow> (Inl e, meanwhile artifacts, d1)
                          | Inr artifacts1 \<Rightarrow> (verified_artifact dl a amb p artifacts1, artifacts1, d1))))
           | Some (ArtifactDir tree) \<Rightarrow>
               (case loadVerifiedArtifact dl a tree p of
                  Inl e \<Rightarrow> (Inl e, artifacts, d)
                | Inr _ \<Rightarrow>
                    if \<not> requires_promotion m then (verified_artifact dl a amb p (meanwhile artifacts), meanwhile artifacts, d)
                    else if Option.is_none (dl_builder dl) then (Inl (DeployText ''deployment builder is not configured''), artifacts, d)
                    else (case package_copy dl p of
                            Inl e \<Rightarrow> (Inl e, artifacts, d)
                          | Inr copied \<Rightarrow>
                              (case promote dl report m copied d of
                                 (Inl e, d1) \<Rightarrow> (Inl e, meanwhile artifacts, d1)
                               | (Inr _, d1) \<Rightarrow> (verified_artifact dl a amb p (meanwhile artifacts), meanwhile artifacts, d1))))
           | Some _ \<Rightarrow> (Inl (DeployText (''artifact path is not a directory: '' @ artifact_location amb name)), artifacts, d)))"

section \<open>The deployment worker\<close>

text \<open>One report of a step; an error of the store ends the deployment.\<close>

definition report_step :: "ambient \<Rightarrow> string \<Rightarrow> string \<Rightarrow> deployment_step_update \<Rightarrow> db \<Rightarrow> store_error option \<times> db" where
  "report_step amb deploymentID workerID update d =
     (case RecordDeploymentStep amb deploymentID workerID update d of
        (Inl e, d1) \<Rightarrow> (Some e, d1) | (Inr _, d1) \<Rightarrow> (None, d1))"

abbreviation step_update :: "string \<Rightarrow> string \<Rightarrow> deployment_step_update" where
  "step_update name status \<equiv> \<lparr>su_id = name, su_kind = name, su_status = status, su_logs = [], su_error = []\<rparr>"

text \<open>\<open>ambs k\<close> is what the k-th call of the store reads from outside.\<close>

definition worker_activate :: "(nat \<Rightarrow> ambient) \<Rightarrow> deployment_row \<Rightarrow> string \<Rightarrow> built_deployment \<Rightarrow> db \<Rightarrow> (deploy_error + string) \<times> db" where
  "worker_activate ambs job w b d =
     (let i = dp_id job; p = bd_prepared b; m = pd_manifest p; h = pd_content_hash p in
      case SetDeploymentStage (ambs 4) i w DeploymentActivating (md_name (mf_metadata m)) h d of
        (Inl e, d1) \<Rightarrow> (Inl (DeployStore e), d1)
      | (Inr _, d1) \<Rightarrow>
          (case report_step (ambs 5) i w (step_update ''activate'' ''running'') d1 of
             (Some e, d2) \<Rightarrow> (Inl (DeployStore e), d2)
           | (None, d2) \<Rightarrow>
               (case ActivateDeployment (ambs 6) i w m h (bd_artifact_path b) (bd_provenance b) (dp_actor job) d2 of
                  (Inl e, d3) \<Rightarrow> (Inl (DeployStore e), d3) | (Inr rid, d3) \<Rightarrow> (Inr rid, d3))))"

definition worker_stage :: "ambient \<Rightarrow> string \<Rightarrow> string \<Rightarrow> prepared_deployment \<Rightarrow> db \<Rightarrow> store_error option \<times> db" where
  "worker_stage amb i w p d =
     (let m = pd_manifest p in
      if \<not> requires_promotion m then (None, d)
      else (case SetDeploymentStage amb i w
              (if rn_build (mf_runtime m) = [] then DeploymentChecking else DeploymentBuilding)
              (md_name (mf_metadata m)) (pd_content_hash p) d of
              (Inl e, d1) \<Rightarrow> (Some e, d1) | (Inr _, d1) \<Rightarrow> (None, d1)))"

definition worker_process :: "deployer \<Rightarrow> (nat \<Rightarrow> ambient) \<Rightarrow> (tree \<Rightarrow> tree) \<Rightarrow> (deploy_error \<Rightarrow> string) \<Rightarrow> deployment_row \<Rightarrow> string
    \<Rightarrow> string \<Rightarrow> tree \<Rightarrow> db \<Rightarrow> (deploy_error + string) \<times> tree \<times> db" where
  "worker_process dl ambs meanwhile describe job sourcePath w artifacts d =
     (let i = dp_id job in
      case report_step (ambs 0) i w (step_update ''validate'' ''running'') d of
        (Some e, d1) \<Rightarrow> (Inl (DeployStore e), artifacts, d1)
      | (None, d1) \<Rightarrow>
          (case Prepare dl (ambs 1) sourcePath d1 of
             Inl e \<Rightarrow> (Inl e, artifacts, snd (report_step (ambs 2) i w
                ((step_update ''validate'' ''failed'')\<lparr>su_error := describe e\<rparr>) d1))
           | Inr p \<Rightarrow>
               (case report_step (ambs 2) i w (step_update ''validate'' ''succeeded'') d1 of
                  (Some e, d2) \<Rightarrow> (Inl (DeployStore e), artifacts, d2)
                | (None, d2) \<Rightarrow>
                    (case worker_stage (ambs 3) i w p d2 of
                       (Some e, d3) \<Rightarrow> (Inl (DeployStore e), artifacts, d3)
                     | (None, d3) \<Rightarrow>
                         (case BuildArtifact dl (ambs 3) meanwhile (Some (\<lambda>amb. report_step amb i w)) p artifacts d3 of
                            (Inl e, artifacts1, d4) \<Rightarrow> (Inl e, artifacts1, d4)
                          | (Inr b, artifacts1, d4) \<Rightarrow>
                              (case worker_activate ambs job w b d4 of (res, d5) \<Rightarrow> (res, artifacts1, d5)))))))"

text \<open>How the context of the attempt ended: not at all or by the shutdown, or by the monitor.\<close>

datatype attempt_cause = NoCause | CauseCancelled | CauseLeaseLost

text \<open>The rest of \<open>runOnce\<close>: what is recorded about an attempt that ended with \<open>failure\<close>.\<close>

definition conclude_deployment :: "ambient \<Rightarrow> (deploy_error \<Rightarrow> string) \<Rightarrow> string \<Rightarrow> string \<Rightarrow> bool \<Rightarrow> attempt_cause \<Rightarrow> deploy_error option \<Rightarrow> db
    \<Rightarrow> (deploy_error + unit) \<times> db" where
  "conclude_deployment amb describe i w shutdown cause failure d =
     (let check = DeploymentCancellationRequested i w d;
          cause1 = (if check = Inr True then CauseCancelled else cause);
          failure1 = (case check of Inl e \<Rightarrow> if e = ErrDeploymentLeaseLost then failure else join_errors failure (DeployStore e)
                      | Inr _ \<Rightarrow> failure);
          stored = (\<lambda>r. case r of (Inl e, d') \<Rightarrow> (Inl (DeployStore e), d') | (Inr _, d') \<Rightarrow> (Inr (), d')) in
      if cause1 = CauseCancelled \<or> (case failure1 of None \<Rightarrow> False | Some e \<Rightarrow> is_store_error ErrDeploymentCancelled e)
      then stored (CompleteDeploymentCancellation amb i w d)
      else case (if cause1 = CauseLeaseLost then join_errors failure1 (DeployStore ErrDeploymentLeaseLost) else failure1) of
        None \<Rightarrow> (Inr (), d)
      | Some e \<Rightarrow>
          if is_store_error ErrDeploymentLeaseLost e then (Inl e, d)
          else if shutdown then (Inr (), d)
          else (case FailDeployment amb i w (describe e) d of
                  (Inl x, d') \<Rightarrow> (Inl (DeployJoin e (DeployStore x)), d') | (Inr _, d') \<Rightarrow> (Inr (), d')))"

section \<open>The custodian\<close>

text \<open>
  The artifact at a resolved location. Storage is looked up by the location's path; an artifact that
  is not a directory cannot be loaded.
\<close>

type_synonym storage = "string \<Rightarrow> tree option"

definition custodian_Verify :: "deployer \<Rightarrow> attestor \<Rightarrow> storage \<Rightarrow> revision_row \<times> string \<Rightarrow> deploy_error + unit" where
  "custodian_Verify dl a storage artifact = (case artifact of (v, path) \<Rightarrow>
     (case rv_provenance v of
        None \<Rightarrow> Inl (DeployProvenance ErrInvalidAttestation)
      | Some prov \<Rightarrow>
          (case storage path of
             None \<Rightarrow> Inl (DeployProvenance (ErrDigest ''walk artifact''))
           | Some tree \<Rightarrow> of_provenance (Verify (dl_crypto dl) a tree prov))))"

definition VerifyRevision :: "deployer \<Rightarrow> attestor \<Rightarrow> storage \<Rightarrow> ambient \<Rightarrow> string \<Rightarrow> string \<Rightarrow> db \<Rightarrow> deploy_error + unit" where
  "VerifyRevision dl a storage amb automationID revisionID d = (case GetRevisionArtifact amb automationID revisionID d of
     Inl e \<Rightarrow> Inl (DeployStore e) | Inr artifact \<Rightarrow> custodian_Verify dl a storage artifact)"

definition custodian_VerifyAll :: "deployer \<Rightarrow> attestor \<Rightarrow> storage \<Rightarrow> ambient \<Rightarrow> db \<Rightarrow> deploy_error + nat" where
  "custodian_VerifyAll dl a storage amb d = (case ListRevisionArtifacts amb d of
     Inl e \<Rightarrow> Inl (DeployStore e)
   | Inr artifacts \<Rightarrow> bindR (mapR (custodian_Verify dl a storage) artifacts) (\<lambda>_. Inr (length artifacts)))"

text \<open>The attestation of an artifact from before attestations: the one stored beside it, or a new one.\<close>

definition legacy_attestation :: "deployer \<Rightarrow> attestor \<Rightarrow> revision_row \<Rightarrow> tree \<Rightarrow> deploy_error + artifact_provenance \<times> tree" where
  "legacy_attestation dl a v tree = (case provenance_Load (dl_json dl) tree of
     Inr prov \<Rightarrow> Inr (prov, tree)
   | Inl ErrMetadataMissing \<Rightarrow>
       of_provenance (bindR (Attest (dl_crypto dl) a tree (rv_manifest v) (rv_content_hash v)) (\<lambda>prov.
         bindR (provenance_Write prov tree) (\<lambda>tree'. Inr (prov, tree'))))
   | Inl e \<Rightarrow> Inl (DeployProvenance e))"

definition matches_revision :: "revision_row \<Rightarrow> artifact_provenance \<Rightarrow> bool" where
  "matches_revision v prov = (ap_content_hash prov = rv_content_hash v \<and> ap_automation_id prov = rv_automation_id v
     \<and> ap_runtime_image prov = rn_image (mf_runtime (rv_manifest v)) \<and> ap_build_image prov = effectiveBuildImage (rv_manifest v)
     \<and> ap_tool_environment prov = rn_resolved_tools (mf_runtime (rv_manifest v)))"

definition has_provenance :: "revision_row \<Rightarrow> bool" where
  "has_provenance v = (case rv_provenance v of None \<Rightarrow> False | Some prov \<Rightarrow> ap_artifact_digest prov \<noteq> [])"

text \<open>One artifact: the result says whether the revision was changed. Metadata that was written stays.\<close>

definition adopt_artifact :: "deployer \<Rightarrow> attestor \<Rightarrow> ambient \<Rightarrow> revision_row \<times> string \<Rightarrow> storage \<Rightarrow> db
    \<Rightarrow> (deploy_error + bool) \<times> storage \<times> db" where
  "adopt_artifact dl a amb artifact storage d = (case artifact of (v, path) \<Rightarrow>
     if has_provenance v then (Inr False, storage, d)
     else case storage path of
       None \<Rightarrow> (Inl (DeployProvenance (ErrDigest ''walk artifact'')), storage, d)
     | Some tree \<Rightarrow>
         (case legacy_attestation dl a v tree of
            Inl e \<Rightarrow> (Inl e, storage, d)
          | Inr (prov, tree') \<Rightarrow>
              (let storage' = storage(path := Some tree') in
               case Verify (dl_crypto dl) a tree' prov of
                 Inl e \<Rightarrow> (Inl (DeployProvenance e), storage', d)
               | Inr _ \<Rightarrow>
                   if \<not> matches_revision v prov
                   then (Inl (DeployText (''adopt legacy revision '' @ rv_id v @ '': attestation does not match revision identity'')), storage', d)
                   else (case AdoptRevisionProvenance amb (rv_automation_id v) (rv_id v) prov d of
                           (Inl e, d') \<Rightarrow> (Inl (DeployStore e), storage', d')
                         | (Inr changed, d') \<Rightarrow> (Inr changed, storage', d')))))"

fun adopt_artifacts :: "deployer \<Rightarrow> attestor \<Rightarrow> (nat \<Rightarrow> ambient) \<Rightarrow> (revision_row \<times> string) list \<Rightarrow> nat \<Rightarrow> storage \<Rightarrow> db
    \<Rightarrow> (deploy_error + nat) \<times> storage \<times> db" where
  "adopt_artifacts dl a ambs [] n storage d = (Inr n, storage, d)"
| "adopt_artifacts dl a ambs (x # xs) n storage d =
     (case adopt_artifact dl a (ambs (length xs)) x storage d of
        (Inl e, storage', d') \<Rightarrow> (Inl e, storage', d')
      | (Inr changed, storage', d') \<Rightarrow> adopt_artifacts dl a ambs xs (if changed then n + 1 else n) storage' d')"

text \<open>\<open>ambs k\<close> is what the adoption of the artifact before the last \<open>k\<close> reads from outside.\<close>

definition AdoptLegacy :: "deployer \<Rightarrow> attestor \<Rightarrow> ambient \<Rightarrow> (nat \<Rightarrow> ambient) \<Rightarrow> storage \<Rightarrow> db
    \<Rightarrow> (deploy_error + nat) \<times> storage \<times> db" where
  "AdoptLegacy dl a amb ambs storage d = (case ListRevisionArtifacts amb d of
     Inl e \<Rightarrow> (Inl (DeployStore e), storage, d)
   | Inr artifacts \<Rightarrow> adopt_artifacts dl a ambs artifacts 0 storage d)"

end
