(* ===== verification/DeployerProofs.thy ===== *)
theory DeployerProofs
  imports Deployer DeploymentProperties ProvenanceProofs ManifestProofs
begin

text \<open>
  The properties of the deployer, the deployment worker and the custodian: an artifact is handed on
  only after it verified against the deployment it is for, what is published is what was verified,
  the content hash covers exactly the files that are copied, a finished deployment is never
  recorded as anything else, and adopting old artifacts makes all of them verify.
\<close>

lemma of_provenance_Inr [simp]: "of_provenance r = Inr x \<longleftrightarrow> r = Inr x"
  by (auto simp: of_provenance_def split: sum.splits)

lemma of_text_Inr [simp]: "of_text r = Inr x \<longleftrightarrow> r = Inr x"
  by (auto simp: of_text_def split: sum.splits)

section \<open>Artifacts\<close>

text \<open>An attestation speaks about the prepared deployment.\<close>

definition attests :: "artifact_provenance \<Rightarrow> prepared_deployment \<Rightarrow> bool" where
  "attests v p = (let m = pd_manifest p in ap_content_hash v = pd_content_hash p
     \<and> ap_automation_id v = md_name (mf_metadata m) \<and> ap_runtime_image v = rn_image (mf_runtime m)
     \<and> ap_build_image v = effectiveBuildImage m \<and> ap_tool_environment v = rn_resolved_tools (mf_runtime m))"

lemma loaded_decoded: "provenance_Load decode tree = Inr v \<Longrightarrow> \<exists>text. decode text = Some v"
  by (auto simp: provenance_Load_def split: option.split_asm artifact_entry.split_asm)

lemma loadVerifiedArtifact_Inr:
  "loadVerifiedArtifact dl a tree p = Inr v \<longleftrightarrow>
    provenance_Load (dl_json dl) tree = Inr v \<and> Verify (dl_crypto dl) a tree v = Inr () \<and> attests v p"
  by (auto simp: loadVerifiedArtifact_def Let_def bindR_eq_Inr guardR_eq_Inr attests_def)

text \<open>The artifact stored under the content hash of a deployment verifies and belongs to it.\<close>

definition stored_verified :: "deployer \<Rightarrow> attestor \<Rightarrow> tree \<Rightarrow> prepared_deployment \<Rightarrow> artifact_provenance \<Rightarrow> bool" where
  "stored_verified dl a artifacts p v = (\<exists>tree. map_of artifacts (pd_content_hash p) = Some (ArtifactDir tree)
     \<and> provenance_Load (dl_json dl) tree = Inr v \<and> Verify (dl_crypto dl) a tree v = Inr () \<and> attests v p)"

lemma verified_artifact_Inr:
  "verified_artifact dl a amb p artifacts = Inr b \<longleftrightarrow> (\<exists>v. b = built amb p v \<and> stored_verified dl a artifacts p v)"
  by (auto simp: verified_artifact_def stored_verified_def bindR_eq_Inr loadVerifiedArtifact_Inr split: option.splits artifact_entry.splits)

lemma BuildArtifact_verified:
  assumes "BuildArtifact dl amb meanwhile report p artifacts d = (Inr b, artifacts', d')"
  obtains a v where "dl_attestor dl = Some a" "b = built amb p v" "stored_verified dl a artifacts' p v"
proof -
  obtain a where a: "dl_attestor dl = Some a" using assms by (cases "dl_attestor dl") (auto simp: BuildArtifact_def)
  with assms have "verified_artifact dl a amb p artifacts' = Inr b"
    by (auto simp: BuildArtifact_def Let_def split: option.splits artifact_entry.splits sum.splits prod.splits if_splits)
  with a that show thesis by (auto simp: verified_artifact_Inr)
qed

lemma BuildArtifact_unpromoted:
  assumes "BuildArtifact dl amb meanwhile report p artifacts d = (res, artifacts', d')" "\<not> requires_promotion (pd_manifest p)"
  shows "d' = d"
  using assms by (auto simp: BuildArtifact_def promote_def Let_def split: option.splits artifact_entry.splits sum.splits prod.splits if_splits)

section \<open>The copied package\<close>

lemma walk_dir:
  "walk_files path (DirNode []) = []"
  "walk_files path (DirNode ((name, node) # entries)) =
    (let child = (if path = [] then name else path @ ''/'' @ name) in
     case node of DirNode _ \<Rightarrow> if ignoredDirectory name then [] else walk_files child node | FileNode _ \<Rightarrow> walk_files child node)
    @ walk_files path (DirNode entries)"
  by (auto simp: Let_def split: file_tree.splits)

lemma walk_head:
  "walk_files c t = walk_files c t' \<Longrightarrow> (\<exists>x. t = DirNode x) = (\<exists>x. t' = DirNode x) \<Longrightarrow>
    (case t of DirNode _ \<Rightarrow> if g then [] else walk_files c t | FileNode _ \<Rightarrow> walk_files c t)
    = (case t' of DirNode _ \<Rightarrow> if g then [] else walk_files c t' | FileNode _ \<Rightarrow> walk_files c t')"
  by (cases t; cases t') (auto simp del: walk_files.simps(2))

lemma copy_walk:
  "copy_entries umask path es = Inr es' \<Longrightarrow>
    walk_files path (as_file_tree linked path (ArtifactDir es')) = walk_files path (as_file_tree linked' path (ArtifactDir es))"
  "copy_entry umask path e = Inr e' \<Longrightarrow>
    walk_files path (as_file_tree linked path e') = walk_files path (as_file_tree linked' path e)
    \<and> (\<exists>x. as_file_tree linked path e' = DirNode x) = (\<exists>x. as_file_tree linked' path e = DirNode x)"
proof (induction umask path es and umask path e arbitrary: es' and e' rule: copy_entries_copy_entry.induct)
  case (2 umask path name node entries)
  let ?rel = "if path = [] then name else path @ ''/'' @ name"
  let ?skip = "case node of ArtifactDir _ \<Rightarrow> ignoredDirectory name | _ \<Rightarrow> False"
  from "2.prems" have plain: "\<not> (path = [] \<and> name = MetadataDirectory)" by (auto simp: Let_def)
  show ?case
  proof (cases ?skip)
    case True
    with "2.prems" plain have "copy_entries umask path entries = Inr es'" by (simp only: copy_entries.simps Let_def if_True if_False)
    from "2.IH"(1)[OF refl plain True this] True show ?thesis by (auto simp: Let_def split: artifact_entry.splits)
  next
    case False
    with "2.prems" plain obtain copied rest where c: "copy_entry umask ?rel node = Inr copied"
      and r: "copy_entries umask path entries = Inr rest" and es': "es' = (name, copied) # rest"
      by (auto simp only: copy_entries.simps Let_def if_False bindR_eq_Inr sum.inject)
    note head = "2.IH"(2)[OF refl plain False c] and tail = "2.IH"(3)[OF refl plain False r]
    show ?thesis
      unfolding es' as_file_tree.simps(2) list.map prod.case walk_dir(2) Let_def
      by (intro arg_cong2[where f = append] walk_head) (use head tail in simp_all)
  qed
qed (auto simp: bindR_eq_Inr split: option.splits)

section \<open>The revision a publication leaves\<close>

lemma deploy_revision_row:
  assumes "deploy amb m h path prov actor did w d = (Inr rid, d')" "catalog_ok d"
  obtains location v where "rid = revision_id_of h" "recorded_location amb path = Inr location"
    "v \<in> set (revisions d')" "rv_id v = rid" "rv_automation_id v = md_name (mf_metadata m)" "rv_content_hash v = h"
    "rv_provenance v = Some prov" "rv_artifact_path v = location"
proof -
  from assms(1) obtain location stranded d4 where r: "rid = revision_id_of h" and loc: "recorded_location amb path = Inr location"
    and p: "publish_revision amb m h location prov actor did stranded d = Inr d4"
    and f: "did = [] \<longrightarrow> d' = d4"
      "did \<noteq> [] \<longrightarrow> finish_deployment_job amb 1 did w rid (md_name (mf_metadata m)) actor h prov d4 = Inr d'"
    by (rule deploy_Inr) blast
  have keep: "revisions d' = revisions d4"
  proof (cases "did = []")
    case False
    from finish_deployment_job_Inr(2)[OF f(2)[rule_format, OF False]] show ?thesis by auto
  qed (use f(1) in simp)
  from p show thesis
  proof (cases rule: publish_revision_Inr)
    case (1 d1 rows as)
    note ua = upsert_automation_facts[where d = d and amb = amb and md = "mf_metadata m"]
    have tab: "revisions (upsert_automation amb (mf_metadata m) d) = revisions d" by (subst ua(1), simp)
    from upsert_revision_Inr(4)[OF 1(1) refl, unfolded tab, OF catalogue_okD(2,4)[OF assms(2)]] obtain v where
      "v \<in> set (revisions d1)" "rv_id v = revision_id_of h" "rv_automation_id v = md_name (mf_metadata m)" "rv_content_hash v = h"
      "rv_artifact_path v = location" "rv_provenance v = Some prov" by blast
    moreover have "revisions d' = revisions d1" by (simp add: keep 1(5) set_active_revision_def)
    ultimately show thesis using that[OF r loc, of v] by (simp add: r)
  qed
qed

section \<open>The worker\<close>

lemma report_step_catalog: "catalog_ok d \<Longrightarrow> catalog_ok (snd (report_step amb i w u d))"
proof -
  obtain res d' where r: "RecordDeploymentStep amb i w u d = (res, d')" by (cases "RecordDeploymentStep amb i w u d")
  from RecordDeploymentStep_frame[OF r] show "catalog_ok d \<Longrightarrow> ?thesis"
    by (auto simp: report_step_def r job_frame_def split: sum.splits)
qed

text \<open>
  A builder reaches the store only through the reporter it is given: what every report keeps, the
  whole build keeps.
\<close>

definition builder_reports_only :: "builder \<Rightarrow> bool" where
  "builder_reports_only build = (\<forall>keeps report m tree d. (\<forall>amb u d. keeps d \<longrightarrow> keeps (snd (report amb u d))) \<longrightarrow> keeps d
     \<longrightarrow> keeps (snd (build (Some report) m tree d)))"

lemma promote_keeps:
  assumes "promote dl (Some report) m tree d = (res, d')" "keeps d" "\<And>amb u d. keeps d \<Longrightarrow> keeps (snd (report amb u d))"
    "\<And>build. dl_builder dl = Some build \<Longrightarrow> builder_reports_only build"
  shows "keeps d'"
proof (cases "requires_promotion m")
  case True
  show ?thesis
  proof (cases "dl_builder dl")
    case (Some build)
    with True assms(1) have "d' = snd (build (Some report) m tree d)" by (simp add: promote_def)
    moreover have "keeps (snd (build (Some report) m tree d))"
      by (rule assms(4)[OF Some, unfolded builder_reports_only_def, rule_format]) (use assms(2,3) in auto)
    ultimately show ?thesis by simp
  qed (use True assms(1,2) in \<open>simp add: promote_def\<close>)
qed (use assms(1,2) in \<open>simp add: promote_def\<close>)

lemma BuildArtifact_keeps:
  assumes "BuildArtifact dl amb meanwhile (Some report) p artifacts d = (res, artifacts', d')" "keeps d"
    "\<And>amb u d. keeps d \<Longrightarrow> keeps (snd (report amb u d))" "\<And>build. dl_builder dl = Some build \<Longrightarrow> builder_reports_only build"
  shows "keeps d'"
proof -
  note kept = promote_keeps[where keeps = keeps, OF _ assms(2-4)]
  from assms(1,2) kept show ?thesis
    by (auto simp: BuildArtifact_def Let_def split: option.splits artifact_entry.splits sum.splits prod.splits if_splits)
qed

lemma worker_activate_Inr:
  assumes "worker_activate ambs job w b d = (Inr rid, d')" "catalog_ok d"
  obtains d1 where "catalog_ok d1" "deploy (ambs 6) (pd_manifest (bd_prepared b)) (pd_content_hash (bd_prepared b)) (bd_artifact_path b)
    (bd_provenance b) (dp_actor job) (dp_id job) w d1 = (Inr rid, d')"
proof -
  let ?p = "bd_prepared b"
  obtain r1 d1 where s: "SetDeploymentStage (ambs 4) (dp_id job) w DeploymentActivating (md_name (mf_metadata (pd_manifest ?p))) (pd_content_hash ?p) d = (r1, d1)"
    by (cases "SetDeploymentStage (ambs 4) (dp_id job) w DeploymentActivating (md_name (mf_metadata (pd_manifest ?p))) (pd_content_hash ?p) d")
  from SetDeploymentStage_frame[OF s] assms(2) have "catalog_ok d1" by (auto simp: job_frame_def)
  then have "catalog_ok (snd (report_step (ambs 5) (dp_id job) w (step_update ''activate'' ''running'') d1))" by (rule report_step_catalog)
  moreover from assms(1) s have "deploy (ambs 6) (pd_manifest ?p) (pd_content_hash ?p) (bd_artifact_path b) (bd_provenance b) (dp_actor job) (dp_id job) w
      (snd (report_step (ambs 5) (dp_id job) w (step_update ''activate'' ''running'') d1)) = (Inr rid, d')"
    by (auto simp: worker_activate_def Let_def ActivateDeployment_def split: sum.splits prod.splits option.splits)
  ultimately show thesis by (rule that)
qed

lemma worker_stage_catalog:
  assumes "worker_stage amb i w p d = (r, d')" "catalog_ok d" shows "catalog_ok d'"
proof (cases "requires_promotion (pd_manifest p)")
  case True
  let ?st = "if rn_build (mf_runtime (pd_manifest p)) = [] then DeploymentChecking else DeploymentBuilding"
  obtain res d1 where s: "SetDeploymentStage amb i w ?st (md_name (mf_metadata (pd_manifest p))) (pd_content_hash p) d = (res, d1)"
    by (cases "SetDeploymentStage amb i w ?st (md_name (mf_metadata (pd_manifest p))) (pd_content_hash p) d")
  with True assms(1) have "d' = d1" by (cases res) (simp_all add: worker_stage_def Let_def)
  with SetDeploymentStage_frame[OF s] assms(2) show ?thesis by (auto simp: job_frame_def)
qed (use assms in \<open>simp add: worker_stage_def\<close>)

lemma worker_process_Inr:
  assumes "worker_process dl ambs meanwhile describe job src w artifacts d = (Inr rid, artifacts', d')" "catalog_ok d"
    "\<And>build. dl_builder dl = Some build \<Longrightarrow> builder_reports_only build"
  obtains d1 p b d3 d4 where "Prepare dl (ambs 1) src d1 = Inr p" "catalog_ok d4"
    "BuildArtifact dl (ambs 3) meanwhile (Some (\<lambda>amb. report_step amb (dp_id job) w)) p artifacts d3 = (Inr b, artifacts', d4)"
    "worker_activate ambs job w b d4 = (Inr rid, d')"
proof -
  let ?i = "dp_id job" and ?rep = "\<lambda>amb. report_step amb (dp_id job) w"
  obtain r1 d1 where e1: "report_step (ambs 0) ?i w (step_update ''validate'' ''running'') d = (r1, d1)"
    by (cases "report_step (ambs 0) ?i w (step_update ''validate'' ''running'') d")
  note run = assms(1)[unfolded worker_process_def Let_def e1 prod.case]
  from run have r1: "r1 = None" by (cases r1) auto
  with run obtain p where p: "Prepare dl (ambs 1) src d1 = Inr p" by (cases "Prepare dl (ambs 1) src d1") auto
  obtain r2 d2 where e2: "report_step (ambs 2) ?i w (step_update ''validate'' ''succeeded'') d1 = (r2, d2)"
    by (cases "report_step (ambs 2) ?i w (step_update ''validate'' ''succeeded'') d1")
  from run r1 p e2 have r2: "r2 = None" by (cases r2) auto
  obtain r3 d3 where e3: "worker_stage (ambs 3) ?i w p d2 = (r3, d3)" by (cases "worker_stage (ambs 3) ?i w p d2")
  from run r1 p e2 r2 e3 have r3: "r3 = None" by (cases r3) auto
  obtain rb arts d4 where e4: "BuildArtifact dl (ambs 3) meanwhile (Some ?rep) p artifacts d3 = (rb, arts, d4)"
    by (cases "BuildArtifact dl (ambs 3) meanwhile (Some ?rep) p artifacts d3")
  from run r1 p e2 r2 e3 r3 e4 obtain b where rb: "rb = Inr b" by (cases rb) auto
  have "catalog_ok d1" using report_step_catalog[OF assms(2)] e1 by (metis snd_conv)
  then have "catalog_ok d2" using report_step_catalog e2 by (metis snd_conv)
  then have "catalog_ok d3" by (rule worker_stage_catalog[OF e3])
  then have ok: "catalog_ok d4" by (rule BuildArtifact_keeps[OF e4]) (use assms(3) report_step_catalog in auto)
  from run r1 p e2 r2 e3 r3 e4 rb have "worker_activate ambs job w b d4 = (Inr rid, d')" "arts = artifacts'"
    by (auto split: prod.splits)
  with p ok e4 rb that show thesis by simp
qed

section \<open>Adoption\<close>

lemma Verify_same_digest:
  assumes "DigestDirectory (cr_sha256 cr) tree' = DigestDirectory (cr_sha256 cr) tree"
  shows "Verify cr a tree' v = Verify cr a tree v"
  unfolding Verify_def assms ..

text \<open>Storage only gains metadata, which no digest covers.\<close>

definition storage_grows :: "(string \<Rightarrow> string) \<Rightarrow> storage \<Rightarrow> storage \<Rightarrow> bool" where
  "storage_grows sha st st' = (\<forall>q tree. st q = Some tree \<longrightarrow>
     (\<exists>tree'. st' q = Some tree' \<and> DigestDirectory sha tree' = DigestDirectory sha tree))"

lemma grown_verifies:
  "storage_grows (cr_sha256 (dl_crypto dl)) st st' \<Longrightarrow> custodian_Verify dl a st x = Inr () \<Longrightarrow> custodian_Verify dl a st' x = Inr ()"
  by (auto simp: custodian_Verify_def storage_grows_def split: prod.splits option.splits)
    (metis Verify_same_digest option.inject option.distinct(1))+

lemma Adopt_revisions:
  assumes "AdoptRevisionProvenance amb a i prov d = (Inr ch, d')"
  shows "revisions d' = update_where (\<lambda>v. rv_automation_id v = a \<and> rv_id v = i \<and> rv_provenance v = None)
    (\<lambda>v. v\<lparr>rv_provenance := Some prov\<rparr>) (revisions d)"
proof -
  let ?hit = "\<lambda>v. rv_automation_id v = a \<and> rv_id v = i \<and> rv_provenance v = None"
  show ?thesis
  proof (cases "rows_affected ?hit (revisions d) = 0")
    case True
    with assms have "d' = d" by (simp add: AdoptRevisionProvenance_def transact_eq_Inr)
    moreover have "update_where ?hit (\<lambda>v. v\<lparr>rv_provenance := Some prov\<rparr>) (revisions d) = revisions d"
      using True by (intro update_where_none) (simp add: rows_affected_0)
    ultimately show ?thesis by simp
  next
    case False
    with assms show ?thesis
      by (auto simp: AdoptRevisionProvenance_def transact_eq_Inr Let_def bindR_eq_Inr dest!: insertAuditEvent_frame)
  qed
qed

lemma legacy_grows:
  assumes "legacy_attestation dl a v tree = Inr (prov, tree')"
  shows "DigestDirectory sha tree' = DigestDirectory sha tree"
  using assms by (auto simp: legacy_attestation_def bindR_eq_Inr split: sum.splits provenance_error.splits dest: digest_written(2))

lemma adopt_artifact_step:
  assumes "adopt_artifact dl a amb (v, path) st d = (Inr ch, st', d')"
  shows "storage_grows (cr_sha256 (dl_crypto dl)) st st'"
    and "has_provenance v \<Longrightarrow> d' = d"
    and "\<not> has_provenance v \<Longrightarrow> \<exists>prov tree. st' path = Some tree \<and> Verify (dl_crypto dl) a tree prov = Inr ()
      \<and> AdoptRevisionProvenance amb (rv_automation_id v) (rv_id v) prov d = (Inr ch, d')"
proof -
  note step = assms[unfolded adopt_artifact_def prod.case]
  show "has_provenance v \<Longrightarrow> d' = d" using step by simp
  have "\<exists>prov tree tree'. st path = Some tree \<and> legacy_attestation dl a v tree = Inr (prov, tree') \<and> st' = st(path := Some tree')
      \<and> Verify (dl_crypto dl) a tree' prov = Inr () \<and> AdoptRevisionProvenance amb (rv_automation_id v) (rv_id v) prov d = (Inr ch, d')"
    if "\<not> has_provenance v"
    using step that by (auto simp: Let_def split: option.splits sum.splits prod.splits if_splits)
  note new = this
  from new show "\<not> has_provenance v \<Longrightarrow> \<exists>prov tree. st' path = Some tree \<and> Verify (dl_crypto dl) a tree prov = Inr ()
      \<and> AdoptRevisionProvenance amb (rv_automation_id v) (rv_id v) prov d = (Inr ch, d')" by fastforce
  show "storage_grows (cr_sha256 (dl_crypto dl)) st st'"
  proof (cases "has_provenance v")
    case True
    with step show ?thesis by (simp add: storage_grows_def)
  next
    case False
    from new[OF this] show ?thesis using legacy_grows[of dl a v] by (auto simp: storage_grows_def)
  qed
qed

text \<open>What holds while artifacts are adopted: every stored revision verifies or is still to come.\<close>

definition adoption_ok :: "deployer \<Rightarrow> attestor \<Rightarrow> ambient \<Rightarrow> (revision_row \<times> string) list \<Rightarrow> storage \<Rightarrow> db \<Rightarrow> bool" where
  "adoption_ok dl a amb xs st d = (distinct (map (rv_id \<circ> fst) xs) \<and> (\<forall>v \<in> set (revisions d). rv_artifact_path v \<noteq> [] \<longrightarrow>
     (\<exists>path. resolved_location amb (rv_artifact_path v) = Inr path
        \<and> (custodian_Verify dl a st (v, path) = Inr () \<or> (v, path) \<in> set xs \<and> rv_provenance v = None))))"

lemma adopt_step_ok:
  assumes "adopt_artifact dl a amb' x st d = (Inr ch, st', d')" "adoption_ok dl a amb (x # xs) st d"
  shows "adoption_ok dl a amb xs st' d'"
proof -
  obtain u q where x: "x = (u, q)" by (cases x)
  note step = adopt_artifact_step[OF assms(1)[unfolded x]]
  have distinct: "rv_id u \<notin> (rv_id \<circ> fst) ` set xs" "distinct (map (rv_id \<circ> fst) xs)"
    using assms(2) by (auto simp: adoption_ok_def x image_iff)
  have row: "\<exists>path. resolved_location amb (rv_artifact_path v') = Inr path
      \<and> (custodian_Verify dl a st' (v', path) = Inr () \<or> (v', path) \<in> set xs \<and> rv_provenance v' = None)"
    if v': "v' \<in> set (revisions d')" "rv_artifact_path v' \<noteq> []" for v'
  proof (cases "has_provenance u")
    case True
    with step(2) v' assms(2) obtain path where path: "resolved_location amb (rv_artifact_path v') = Inr path"
      "custodian_Verify dl a st (v', path) = Inr () \<or> (v', path) \<in> set ((u, q) # xs) \<and> rv_provenance v' = None"
      unfolding adoption_ok_def x by blast
    moreover from True have "rv_provenance u \<noteq> None" by (auto simp: has_provenance_def split: option.splits)
    ultimately show ?thesis using grown_verifies[OF step(1)] by auto
  next
    case False
    from step(3)[OF this] obtain prov tree where t: "st' q = Some tree" "Verify (dl_crypto dl) a tree prov = Inr ()"
      and ad: "AdoptRevisionProvenance amb' (rv_automation_id u) (rv_id u) prov d = (Inr ch, d')" by blast
    from v'(1) show ?thesis unfolding Adopt_revisions[OF ad]
    proof (cases rule: update_whereE)
      case (updated v)
      with assms(2) v'(2) obtain path where path: "resolved_location amb (rv_artifact_path v) = Inr path"
        "custodian_Verify dl a st (v, path) = Inr () \<or> (v, path) \<in> set ((u, q) # xs)"
        unfolding adoption_ok_def x by fastforce
      have "custodian_Verify dl a st (v, path) \<noteq> Inr ()" using updated(2) by (simp add: custodian_Verify_def)
      moreover have "(v, path) \<notin> set xs" using distinct(1) updated(2) by (force simp: image_iff)
      ultimately have "path = q" using path(2) by auto
      with path(1) t updated(3) show ?thesis by (auto simp: custodian_Verify_def)
    next
      case kept
      with assms(2) v'(2) obtain path where path: "resolved_location amb (rv_artifact_path v') = Inr path"
        "custodian_Verify dl a st (v', path) = Inr () \<or> (v', path) \<in> set ((u, q) # xs) \<and> rv_provenance v' = None"
        unfolding adoption_ok_def x by blast
      with kept(2) show ?thesis using grown_verifies[OF step(1)] by auto
    qed
  qed
  with distinct(2) show ?thesis by (simp add: adoption_ok_def)
qed

lemma adopt_artifacts_ok:
  "adopt_artifacts dl a ambs xs n st d = (Inr k, st', d') \<Longrightarrow> adoption_ok dl a amb xs st d \<Longrightarrow> adoption_ok dl a amb [] st' d'"
proof (induction xs arbitrary: n st d)
  case (Cons x xs)
  obtain r st1 d1 where s: "adopt_artifact dl a (ambs (length xs)) x st d = (r, st1, d1)"
    by (cases "adopt_artifact dl a (ambs (length xs)) x st d")
  with Cons.prems(1) obtain ch where r: "r = Inr ch"
    and rest: "adopt_artifacts dl a ambs xs (if ch then n + 1 else n) st1 d1 = (Inr k, st', d')" by (cases r) auto
  from Cons.IH[OF rest adopt_step_ok[OF s[unfolded r] Cons.prems(2)]] show ?case .
qed simp

lemma adopt_artifacts_paths:
  "adopt_artifacts dl a ambs xs n st d = (Inr k, st', d') \<Longrightarrow> map rv_artifact_path (revisions d') = map rv_artifact_path (revisions d)"
proof (induction xs arbitrary: n st d)
  case (Cons x xs)
  obtain r st1 d1 where s: "adopt_artifact dl a (ambs (length xs)) x st d = (r, st1, d1)"
    by (cases "adopt_artifact dl a (ambs (length xs)) x st d")
  with Cons.prems(1) obtain ch where r: "r = Inr ch"
    and rest: "adopt_artifacts dl a ambs xs (if ch then n + 1 else n) st1 d1 = (Inr k, st', d')" by (cases r) auto
  obtain u q where x: "x = (u, q)" by (cases x)
  note step = adopt_artifact_step(2,3)[OF s[unfolded r x]]
  have "map rv_artifact_path (revisions d1) = map rv_artifact_path (revisions d)"
  proof (cases "has_provenance u")
    case False
    from step(2)[OF this] obtain prov where "AdoptRevisionProvenance (ambs (length xs)) (rv_automation_id u) (rv_id u) prov d = (Inr ch, d1)" by blast
    from Adopt_revisions[OF this] show ?thesis by (simp add: map_update_where)
  qed (use step(1) in simp)
  with Cons.IH[OF rest] show ?case by simp
qed simp

lemma length_retained:
  assumes "map rv_artifact_path vs' = map rv_artifact_path vs"
  shows "length (filter (\<lambda>v. rv_artifact_path v \<noteq> []) vs') = length (filter (\<lambda>v. rv_artifact_path v \<noteq> []) vs)"
proof -
  have "length (filter (\<lambda>v. rv_artifact_path v \<noteq> []) us) = length (filter (\<lambda>p. p \<noteq> []) (map rv_artifact_path us))" for us
    by (induction us) auto
  from this[of vs'] this[of vs] assms show ?thesis by (simp only:)
qed

section \<open>A sample deployer\<close>

definition sample_hashing :: crypto where
  "sample_hashing = sample_crypto\<lparr>cr_sha256 := (\<lambda>_. replicate 32 (CHR 0xA1))\<rparr>"

definition sample_signer :: attestor where
  "sample_signer = sample_attestor\<lparr>ak_key_id := ''sha256:'' @ sample_hash\<rparr>"

definition sample_signed :: artifact_provenance where
  "sample_signed = sample_provenance\<lparr>ap_public_key := b64_encode ''p'', ap_signature := b64_encode (replicate 64 (CHR ''s''))\<rparr>"

definition sample_deployer :: deployer where
  "sample_deployer = \<lparr>dl_crypto = sample_hashing, dl_attestor = Some sample_signer, dl_builder = Some (\<lambda>_ _ tree d. (Inr tree, d)),
     dl_prepare = None, dl_yaml = (\<lambda>_. Inr sample_validated), dl_cron_text = (\<lambda>_. []), dl_json = (\<lambda>_. Some sample_signed),
     dl_sdk = [(''__init__.py'', ArtifactFile 416 (Some ''sdk''))], dl_umask = (\<lambda>mode. mode),
     dl_source = (\<lambda>_. [(''.git'', ArtifactDir []), (''main.py'', ArtifactFile 420 (Some ''print''))]), dl_linked = (\<lambda>_. None)\<rparr>"

definition sample_validating :: db where
  "sample_validating = sample_db\<lparr>deployments := [sample_deployment\<lparr>dp_status := DeploymentValidating\<rparr>]\<rparr>"

definition sample_prepared :: prepared_deployment where
  "sample_prepared = \<lparr>pd_source_directory = ''/srv/werkt/deployment-sources/dep_1'', pd_manifest = sample_validated, pd_content_hash = sample_hash\<rparr>"

abbreviation sample_ambients :: "nat \<Rightarrow> ambient" where
  "sample_ambients k \<equiv> sample_ambient (10 + k) hour"

text \<open>The states between the calls of the worker.\<close>

definition sample_step :: "step_status \<Rightarrow> time option \<Rightarrow> db" where
  "sample_step st finished = sample_validating\<lparr>deployments := [sample_deployment\<lparr>dp_status := DeploymentValidating, dp_updated_at := hour\<rparr>],
     deployment_steps := [\<lparr>ds_deployment_id = ''dep_1'', ds_position = 0, ds_id = ''validate'', ds_kind = ''validate'', ds_status = st,
       ds_logs = [], ds_error = [], ds_started_at = hour, ds_finished_at = finished\<rparr>]\<rparr>"

definition sample_built :: "(deploy_error + built_deployment) \<times> tree \<times> db" where
  "sample_built = BuildArtifact sample_deployer (sample_ambients 3) (\<lambda>t. t) (Some (\<lambda>amb. report_step amb ''dep_1'' ''w1''))
     sample_prepared [] (sample_step DeploymentStepSucceeded (Some hour))"

definition sample_deployed :: "(deploy_error + string) \<times> db" where
  "sample_deployed = worker_activate sample_ambients sample_deployment ''w1'' (built (sample_ambients 3) sample_prepared sample_signed)
     (sample_step DeploymentStepSucceeded (Some hour))"

lemma sample_reports:
  "report_step (sample_ambients 0) ''dep_1'' ''w1'' (step_update ''validate'' ''running'') sample_validating
    = (None, sample_step DeploymentStepRunning None)"
  "report_step (sample_ambients 2) ''dep_1'' ''w1'' (step_update ''validate'' ''succeeded'') (sample_step DeploymentStepRunning None)
    = (None, sample_step DeploymentStepSucceeded (Some hour))"
  by (simp_all add: report_step_def RecordDeploymentStep_def transact_def deploymentStatusForStep_def bindR_def guardR_def rows_affected_def
      drives_deployment_def owns_deployment_def in_progress_def sample_validating_def sample_step_def sample_deployment_def start_step_def
      finish_step_def next_position_def update_where_def truncateDiagnostic_def sample_defs)

lemma sample_preparation:
  "Prepare sample_deployer (sample_ambients 1) ''/srv/werkt/deployment-sources/dep_1'' (sample_step DeploymentStepRunning None) = Inr sample_prepared"
  by code_simp

lemma sample_build: "sample_built = (Inr (built (sample_ambients 3) sample_prepared sample_signed), fst (snd sample_built), sample_step DeploymentStepSucceeded (Some hour))"
proof -
  have "is_ok (fst sample_built)" by code_simp
  then obtain b where b: "sample_built = (Inr b, fst (snd sample_built), snd (snd sample_built))" by (cases "fst sample_built") (auto simp: prod_eq_iff)
  then obtain v where "b = built (sample_ambients 3) sample_prepared v" "stored_verified sample_deployer sample_signer (fst (snd sample_built)) sample_prepared v"
    unfolding sample_built_def by (rule BuildArtifact_verified) (auto simp: sample_deployer_def)
  moreover from this(2) have "v = sample_signed" by (auto simp: stored_verified_def sample_deployer_def dest!: loaded_decoded)
  moreover have "snd (snd sample_built) = sample_step DeploymentStepSucceeded (Some hour)"
    by (rule BuildArtifact_unpromoted[OF b[unfolded sample_built_def], folded sample_built_def])
      (simp add: requires_promotion_def sample_prepared_def sample_validated_def sample_manifest_def sample_runtime_def)
  ultimately show ?thesis using b by simp
qed

lemma sample_activation: "sample_deployed = (Inr (projr (fst sample_deployed)), snd sample_deployed)"
proof (rule ok_result)
  show "is_ok (fst sample_deployed)" by code_simp
qed

definition sample_artifacts :: tree where "sample_artifacts = fst (snd sample_built)"
definition sample_published_id :: string where "sample_published_id = projr (fst sample_deployed)"
definition sample_final :: db where "sample_final = snd sample_deployed"

lemma sample_process:
  "worker_process sample_deployer sample_ambients (\<lambda>t. t) (\<lambda>_. []) sample_deployment ''/srv/werkt/deployment-sources/dep_1'' ''w1'' [] sample_validating
    = (Inr sample_published_id, sample_artifacts, sample_final)"
proof -
  have job: "dp_id sample_deployment = ''dep_1''" by (simp add: sample_deployment_def)
  have plain: "worker_stage amb i w sample_prepared d = (None, d)" for amb i w d
    by (simp add: worker_stage_def requires_promotion_def sample_prepared_def sample_validated_def sample_manifest_def sample_runtime_def)
  note built = sample_build[folded sample_artifacts_def, unfolded sample_built_def]
    and activated = sample_activation[folded sample_published_id_def sample_final_def, unfolded sample_deployed_def]
  show ?thesis
    by (simp only: worker_process_def Let_def job sample_reports sample_preparation prod.case option.case sum.case plain built activated)
qed

section \<open>Properties\<close>

text \<open>
  C9: Only verified artifacts are published. If the deployment worker's work ends with a published
  revision, then the directory stored under the content hash of the prepared package carries an
  attestation that verifies and speaks about exactly this automation, these images, this tool
  environment and this hash, whatever other deployments stored there in the meantime; and the
  revision in the store is named by the hash, records this attestation and the location of that
  directory. The builder is only assumed to reach the store through the reporter it is given.
\<close>

theorem deployed_revision_verified:
  assumes "catalog_ok d" and "\<And>build. dl_builder dl = Some build \<Longrightarrow> builder_reports_only build"
    and "worker_process dl ambs meanwhile describe job src w artifacts d = (Inr rid, artifacts', d')"
  shows "\<exists>d1 p a v row. Prepare dl (ambs 1) src d1 = Inr p \<and> dl_attestor dl = Some a \<and> stored_verified dl a artifacts' p v
    \<and> rid = revision_id_of (pd_content_hash p) \<and> row \<in> set (revisions d') \<and> rv_id row = rid
    \<and> rv_automation_id row = md_name (mf_metadata (pd_manifest p)) \<and> rv_provenance row = Some v
    \<and> recorded_location (ambs 6) (artifact_location (ambs 3) (pd_content_hash p)) = Inr (rv_artifact_path row)"
  using assms(3,1,2)
proof (rule worker_process_Inr)
  fix d1 p b d3 d4
  assume p: "Prepare dl (ambs 1) src d1 = Inr p" and ok: "catalog_ok d4"
    and b: "BuildArtifact dl (ambs 3) meanwhile (Some (\<lambda>amb. report_step amb (dp_id job) w)) p artifacts d3 = (Inr b, artifacts', d4)"
    and act: "worker_activate ambs job w b d4 = (Inr rid, d')"
  from b obtain a v where a: "dl_attestor dl = Some a" "b = built (ambs 3) p v" "stored_verified dl a artifacts' p v"
    by (rule BuildArtifact_verified)
  from act ok obtain d5 where d5: "catalog_ok d5" "deploy (ambs 6) (pd_manifest (bd_prepared b)) (pd_content_hash (bd_prepared b))
      (bd_artifact_path b) (bd_provenance b) (dp_actor job) (dp_id job) w d5 = (Inr rid, d')" by (rule worker_activate_Inr)
  have parts: "bd_prepared b = p" "bd_artifact_path b = artifact_location (ambs 3) (pd_content_hash p)" "bd_provenance b = v"
    by (simp_all add: a(2) built_def)
  from d5(2,1) show ?thesis unfolding parts
    by (rule deploy_revision_row) (use p a in blast)
qed

theorem deployed_revision_verified_witness:
  "\<exists>p a v row. dl_attestor sample_deployer = Some a \<and> stored_verified sample_deployer a sample_artifacts p v
     \<and> row \<in> set (revisions sample_final) \<and> rv_provenance row = Some v"
proof -
  have "catalog_ok sample_validating" by code_simp
  moreover have "builder_reports_only build" if "dl_builder sample_deployer = Some build" for build
    using that by (auto simp: sample_deployer_def builder_reports_only_def)
  ultimately show ?thesis using deployed_revision_verified[OF _ _ sample_process] by blast
qed

text \<open>
  The content hash names what is copied. The files that are hashed for the identity of a package
  are exactly the files that are copied into its artifact, whatever could be read through links:
  the copy of a package that can be copied has the same content hash as the package.
\<close>

lemma copied_package_same_hash:
  assumes "copyDirectory umask source = Inr tree"
  shows "HashDirectory sha256 (as_file_tree linked [] (ArtifactDir tree)) = HashDirectory sha256 (as_file_tree linked' [] (ArtifactDir source))"
  using copy_walk(1)[OF assms[unfolded copyDirectory_def], of linked linked'] by (simp add: HashDirectory_def)

text \<open>
  C26: Adoption makes every artifact verifiable. If all revisions that have an attestation verify and
  the adoption of older artifacts succeeds, then afterwards the custodian's check of all artifacts
  succeeds: every retained revision has an attestation that verifies against its directory, and
  the metadata written for the older ones disturbed none of the others.
\<close>

theorem adopted_artifacts_verify:
  assumes "catalog_ok d" and "ListRevisionArtifacts amb d = Inr artifacts"
    and "\<And>v path. (v, path) \<in> set artifacts \<Longrightarrow> rv_provenance v \<noteq> None \<Longrightarrow> custodian_Verify dl a storage (v, path) = Inr ()"
    and "AdoptLegacy dl a amb ambs storage d = (Inr n, storage', d')"
  shows "custodian_VerifyAll dl a storage' amb d' = Inr (length artifacts)"
proof -
  let ?rows = "\<lambda>d. sort_key (\<lambda>v. (collation amb (rv_automation_id v), collation amb (rv_id v))) (filter (\<lambda>v. rv_artifact_path v \<noteq> []) (revisions d))"
  let ?item = "\<lambda>v. bindR (resolved_location amb (rv_artifact_path v)) (\<lambda>p. Inr (v, p))"
  have listed: "list_all2 (\<lambda>v y. ?item v = Inr y) (?rows d) artifacts"
    using mapR_eq_Inr[OF assms(2)[unfolded ListRevisionArtifacts_def]] .
  then have ids: "map fst artifacts = ?rows d"
    by (induction rule: list_all2_induct) (auto simp: bindR_eq_Inr)
  have "distinct (map rv_id (?rows d))"
    using catalogue_okD(2)[OF assms(1)] by (simp add: distinct_map inj_on_def)
  then have "distinct (map (rv_id \<circ> fst) artifacts)" unfolding ids[symmetric] by simp
  moreover have "\<exists>path. resolved_location amb (rv_artifact_path v) = Inr path
      \<and> (custodian_Verify dl a storage (v, path) = Inr () \<or> (v, path) \<in> set artifacts \<and> rv_provenance v = None)"
    if "v \<in> set (revisions d)" "rv_artifact_path v \<noteq> []" for v
  proof -
    from that have "v \<in> set (?rows d)" by simp
    with mapR_out[OF assms(2)[unfolded ListRevisionArtifacts_def]] obtain y where "y \<in> set artifacts" "?item v = Inr y" by blast
    then show ?thesis using assms(3) by (auto simp: bindR_eq_Inr)
  qed
  ultimately have "adoption_ok dl a amb artifacts storage d" by (simp add: adoption_ok_def)
  with adopt_artifacts_ok assms(2,4) have ok: "adoption_ok dl a amb [] storage' d'" by (auto simp: AdoptLegacy_def)
  have "\<exists>xs. ListRevisionArtifacts amb d' = Inr xs"
    unfolding ListRevisionArtifacts_def by (rule mapR_total) (use ok in \<open>auto simp: adoption_ok_def bindR_eq_Inr\<close>)
  then obtain xs where xs: "ListRevisionArtifacts amb d' = Inr xs" ..
  have "\<exists>ys. mapR (custodian_Verify dl a storage') xs = Inr ys"
  proof (rule mapR_total)
    fix x assume "x \<in> set xs"
    with mapR_in[OF xs[unfolded ListRevisionArtifacts_def]] obtain v where "v \<in> set (?rows d')" "?item v = Inr x" by blast
    with ok show "\<exists>y. custodian_Verify dl a storage' x = Inr y" by (fastforce simp: adoption_ok_def bindR_eq_Inr)
  qed
  moreover have "length xs = length artifacts"
  proof -
    have "adopt_artifacts dl a ambs artifacts 0 storage d = (Inr n, storage', d')" using assms(2,4) by (simp add: AdoptLegacy_def)
    note same = length_retained[OF adopt_artifacts_paths[OF this]]
    have "length xs = length (?rows d')" "length artifacts = length (?rows d)"
      using mapR_eq_Inr[OF xs[unfolded ListRevisionArtifacts_def]] listed by (auto dest: list_all2_lengthD)
    with same show ?thesis by simp
  qed
  ultimately show ?thesis using xs by (auto simp: custodian_VerifyAll_def)
qed

text \<open>
  C27: A finished deployment stays as it is. Whatever ended the attempt (an error, a cancellation, the
  loss of the lease, a shutdown), what the worker records afterwards changes nothing at all once
  the deployment has succeeded, failed or been cancelled: a published deployment is never
  reported as failed.
\<close>

theorem finished_deployment_untouched:
  assumes "deployments_ok (deployments d)" and "deployment_by_id d i = Some x" and "terminal_deployment (dp_status x)"
  shows "snd (conclude_deployment amb describe i w shutdown cause failure d) = d"
proof -
  have none: "\<not> owns_deployment i w y" if "y \<in> set (deployments d)" for y
  proof
    assume o: "owns_deployment i w y"
    then have "y = x" using that assms(1,2) deployment_table.lookup_iff[of d i y] by (simp add: deployments_ok_def owns_deployment_def)
    with o assms(3) show False by (auto simp: owns_deployment_def in_progress_def terminal_deployment_def)
  qed
  have "rows_affected (\<lambda>y. owns_deployment i w y \<and> dp_cancel_requested_at y \<noteq> None) (deployments d) = 0"
    using none by (auto simp: rows_affected_0)
  then have c: "CompleteDeploymentCancellation amb i w d = (Inl ErrDeploymentLeaseLost, d)"
    by (simp add: CompleteDeploymentCancellation_def transact_def guardR_def)
  have "find (drives_deployment i w) (deployments d) = None"
    using none by (auto simp: find_eq_None drives_deployment_def)
  then have f: "FailDeployment amb i w msg d = (Inl ErrDeploymentLeaseLost, d)" for msg
    by (simp add: FailDeployment_def transact_def Let_def)
  show ?thesis by (simp add: conclude_deployment_def Let_def c f split: option.splits)
qed

definition sample_legacy :: db where
  "sample_legacy = sample_db\<lparr>revisions := [sample_revision\<lparr>rv_content_hash := sample_hash, rv_id := revision_id_of sample_hash\<rparr>],
     automations := [sample_automation\<lparr>au_active_revision_id := Some (revision_id_of sample_hash)\<rparr>], triggers := []\<rparr>"

definition sample_storage :: storage where
  "sample_storage path = (if path = ''/srv/werkt/artifacts/a'' then Some [(''main.py'', ArtifactFile 420 (Some ''print''))] else None)"

definition sample_adopted :: "(deploy_error + nat) \<times> storage \<times> db" where
  "sample_adopted = AdoptLegacy sample_deployer sample_signer (sample_ambient 1 0) (\<lambda>k. sample_ambient (2 + k) 0) sample_storage sample_legacy"

theorem adopted_artifacts_verify_witness:
  "custodian_VerifyAll sample_deployer sample_signer (fst (snd sample_adopted)) (sample_ambient 1 0) (snd (snd sample_adopted)) = Inr 1"
proof -
  have "is_ok (fst sample_adopted)" by code_simp
  then have ok: "AdoptLegacy sample_deployer sample_signer (sample_ambient 1 0) (\<lambda>k. sample_ambient (2 + k) 0) sample_storage sample_legacy
      = (Inr (projr (fst sample_adopted)), fst (snd sample_adopted), snd (snd sample_adopted))"
    by (cases sample_adopted; cases "fst sample_adopted") (auto simp: sample_adopted_def)
  have cat: "catalog_ok sample_legacy" by code_simp
  let ?v = "sample_revision\<lparr>rv_content_hash := sample_hash, rv_id := revision_id_of sample_hash\<rparr>"
  have listed: "ListRevisionArtifacts (sample_ambient 1 0) sample_legacy = Inr [(?v, ''/srv/werkt/artifacts/a'')]" by code_simp
  have "custodian_VerifyAll sample_deployer sample_signer (fst (snd sample_adopted)) (sample_ambient 1 0) (snd (snd sample_adopted))
      = Inr (length [(?v, ''/srv/werkt/artifacts/a'')])"
    by (rule adopted_artifacts_verify[OF cat listed _ ok]) (simp add: sample_revision_def)
  then show ?thesis by simp
qed

definition sample_done :: db where
  "sample_done = sample_db\<lparr>deployments := [sample_deployment\<lparr>dp_status := DeploymentSucceeded, dp_revision_id := Some ''rev_a'',
     dp_lease_owner := None, dp_lease_expires_at := None, dp_finished_at := Some 0\<rparr>]\<rparr>"

theorem finished_deployment_untouched_witness:
  "snd (conclude_deployment (sample_ambient 1 0) (\<lambda>_. ''late'') ''dep_1'' ''w1'' False CauseCancelled (Some (DeployText ''late'')) sample_done) = sample_done"
proof (rule finished_deployment_untouched)
  show "deployments_ok (deployments sample_done)" by code_simp
  show "deployment_by_id sample_done ''dep_1'' = Some (hd (deployments sample_done))" by code_simp
  show "terminal_deployment (dp_status (hd (deployments sample_done)))" by code_simp
qed

end
