(* ===== verification/Archive.thy ===== *)
theory Archive
  imports Deployer "HOL-Library.Word"
begin

unbundle bit_operations_syntax

text \<open>
  Package archives (\<open>internal/packageio/archive.go\<close>): the bounded reception of an upload, the
  extraction of its entries into a fresh directory, and the archive the command line writes.

  The gzip and tar formats are arguments: \<open>decode\<close> gives the entries a stream of bytes holds, each
  with the data that can be read for it, and whether the stream ended properly; \<open>encode\<close> writes
  entries. Sizes, limits and modes are the 64-bit integers of the code. The case folding of Unicode
  (\<open>lower\<close>) and the umask of the process are arguments too.
\<close>

type_synonym int64 = "64 word"

section \<open>Limits and entries\<close>

datatype archive_error = ErrCompressedLimit | ErrExpandedLimit | ErrEntryLimit | ErrUnsafeArchive string
  | ErrInvalidArchive | ErrArchiveIO string

record limits =
  lm_compressed_bytes :: int64
  lm_expanded_bytes :: int64
  lm_entries :: int

definition DefaultLimits :: limits where
  "DefaultLimits = \<lparr>lm_compressed_bytes = push_bit 20 64, lm_expanded_bytes = push_bit 20 256, lm_entries = 10000\<rparr>"

datatype typeflag = TypeReg | TypeRegA | TypeDir | TypeOther nat

record tar_header =
  th_name :: string
  th_typeflag :: typeflag
  th_size :: int64
  th_mode :: int64

type_synonym tar_entry = "tar_header \<times> string"

section \<open>Reception\<close>

text \<open>
  A reader delivers \<open>body\<close> and then ends, with an error unless \<open>whole\<close>. The limited reader gives up
  after one byte more than allowed.
\<close>

definition Receive :: "(string \<Rightarrow> string) \<Rightarrow> string \<times> bool \<Rightarrow> int64 \<Rightarrow> archive_error + string \<times> string" where
  "Receive sha256 reader maxBytes = (case reader of (body, whole) \<Rightarrow>
     guardR (maxBytes \<le>s 0) (ErrArchiveIO ''compressed package limit must be positive'')
     (let n = sint (maxBytes + 1); received = take (nat n) body in
      guardR (\<not> whole \<and> int (length body) < n) (ErrArchiveIO ''receive package'')
      (guardR (sint maxBytes < int (length received)) ErrCompressedLimit
      (Inr (hex_encode (sha256 received), received)))))"

section \<open>Directories\<close>

text \<open>\<open>os.Root.MkdirAll\<close>, which fails on an entry that is not a directory, and exclusive creation.\<close>

fun mkdir_all :: "string list \<Rightarrow> tree \<Rightarrow> tree option" where
  "mkdir_all [] t = Some t"
| "mkdir_all (c # cs) t = (case map_of t c of
     None \<Rightarrow> map_option (\<lambda>sub. t @ [(c, ArtifactDir sub)]) (mkdir_all cs [])
   | Some (ArtifactDir sub) \<Rightarrow> map_option (\<lambda>s. AList.update c (ArtifactDir s) t) (mkdir_all cs sub)
   | Some _ \<Rightarrow> None)"

fun create_file :: "string list \<Rightarrow> nat \<Rightarrow> string \<Rightarrow> tree \<Rightarrow> tree option" where
  "create_file [] mode content t = None"
| "create_file (c # cs) mode content t = (case map_of t c of
     None \<Rightarrow> if cs = [] then Some (t @ [(c, ArtifactFile mode (Some content))]) else None
   | Some (ArtifactDir sub) \<Rightarrow> map_option (\<lambda>s. AList.update c (ArtifactDir s) t) (create_file cs mode content sub)
   | Some _ \<Rightarrow> None)"

section \<open>Extraction\<close>

record extraction =
  ex_seen :: "string list"
  ex_expanded :: int64
  ex_entries :: nat
  ex_tree :: tree

text \<open>\<open>0o640 | (header.Mode & 0o110)\<close>.\<close>

definition entry_mode :: "int64 \<Rightarrow> nat" where
  "entry_mode mode = unat (416 OR (mode AND 72))"

text \<open>A regular file; what was written of it before an error stays.\<close>

definition extract_file :: "(nat \<Rightarrow> nat) \<Rightarrow> limits \<Rightarrow> string list \<Rightarrow> tar_entry \<Rightarrow> extraction \<Rightarrow> archive_error option \<times> extraction" where
  "extract_file umask l path e s = (case e of (h, data) \<Rightarrow>
     if th_size h <s 0 \<or> lm_expanded_bytes l - th_size h <s ex_expanded s then (Some ErrExpandedLimit, s)
     else let s1 = s\<lparr>ex_expanded := ex_expanded s + th_size h\<rparr> in
       (case mkdir_all (butlast path) (ex_tree s1) of
          None \<Rightarrow> (Some (ErrArchiveIO ''mkdir''), s1)
        | Some t \<Rightarrow>
            let s2 = s1\<lparr>ex_tree := t\<rparr>; size = unat (th_size h) in
            (case create_file path (umask (entry_mode (th_mode h))) (take size data) t of
               None \<Rightarrow> (Some (ErrArchiveIO ''open''), s2)
             | Some t' \<Rightarrow> (if length data < size then Some (ErrArchiveIO ''unexpected EOF'') else None, s2\<lparr>ex_tree := t'\<rparr>))))"

definition extract_entry :: "(string \<Rightarrow> string) \<Rightarrow> (nat \<Rightarrow> nat) \<Rightarrow> limits \<Rightarrow> tar_entry \<Rightarrow> extraction \<Rightarrow> archive_error option \<times> extraction" where
  "extract_entry lower umask l e s =
     (let h = fst e; s1 = s\<lparr>ex_entries := ex_entries s + 1\<rparr> in
      if lm_entries l < int (ex_entries s1) then (Some ErrEntryLimit, s1)
      else case safeArchivePath (th_name h) of
        None \<Rightarrow> (Some (ErrUnsafeArchive ''path''), s1)
      | Some clean \<Rightarrow>
          if clean = ''.'' then
            (if th_typeflag h = TypeDir then (None, s1)
             else (Some (ErrUnsafeArchive ''root path is not a directory''), s1))
          else if lower clean \<in> set (ex_seen s1) then (Some (ErrUnsafeArchive ''duplicate path''), s1)
          else let s2 = s1\<lparr>ex_seen := lower clean # ex_seen s1\<rparr>; path = Split clean slash in
            (case th_typeflag h of
               TypeDir \<Rightarrow> (case mkdir_all path (ex_tree s2) of
                  None \<Rightarrow> (Some (ErrArchiveIO ''mkdir''), s2) | Some t \<Rightarrow> (None, s2\<lparr>ex_tree := t\<rparr>))
             | TypeOther k \<Rightarrow> (Some (ErrUnsafeArchive ''unsupported entry''), s2)
             | _ \<Rightarrow> extract_file umask l path e s2))"

fun extract_entries :: "(string \<Rightarrow> string) \<Rightarrow> (nat \<Rightarrow> nat) \<Rightarrow> limits \<Rightarrow> tar_entry list \<Rightarrow> extraction \<Rightarrow> archive_error option \<times> extraction" where
  "extract_entries lower umask l [] s = (None, s)"
| "extract_entries lower umask l (e # es) s = (case extract_entry lower umask l e s of
     (Some err, s1) \<Rightarrow> (Some err, s1) | (None, s1) \<Rightarrow> extract_entries lower umask l es s1)"

type_synonym archive_decoder = "string \<Rightarrow> (tar_entry list \<times> bool) option"

definition Extract :: "(string \<Rightarrow> string) \<Rightarrow> (nat \<Rightarrow> nat) \<Rightarrow> archive_decoder \<Rightarrow> limits \<Rightarrow> string \<Rightarrow> tree \<Rightarrow> archive_error option \<times> tree" where
  "Extract lower umask decode l archive destination = (case decode archive of
     None \<Rightarrow> (Some ErrInvalidArchive, destination)
   | Some (entries, whole) \<Rightarrow>
       (case extract_entries lower umask l entries
          \<lparr>ex_seen = [], ex_expanded = 0, ex_entries = 0, ex_tree = destination\<rparr> of
          (Some err, s) \<Rightarrow> (Some err, ex_tree s)
        | (None, s) \<Rightarrow> (if whole then None else Some ErrInvalidArchive, ex_tree s)))"

section \<open>Writing an archive\<close>

definition relative_to :: "string \<Rightarrow> string \<Rightarrow> string" where
  "relative_to path name = (if path = [] then name else path @ ''/'' @ name)"

fun archive_paths :: "string \<Rightarrow> tree \<Rightarrow> archive_error + (string \<times> artifact_entry) list" where
  "archive_paths path [] = Inr []"
| "archive_paths path ((name, ArtifactDir entries) # rest) =
     (if ignoredDirectory name then archive_paths path rest
      else bindR (archive_paths (relative_to path name) entries) (\<lambda>inner.
           bindR (archive_paths path rest) (\<lambda>more.
           Inr ((relative_to path name, ArtifactDir entries) # inner @ more))))"
| "archive_paths path ((name, ArtifactFile mode content) # rest) =
     bindR (archive_paths path rest) (\<lambda>more. Inr ((relative_to path name, ArtifactFile mode content) # more))"
| "archive_paths path ((name, ArtifactLink) # rest) =
     Inl (ErrArchiveIO (''automation packages cannot contain symbolic links: '' @ relative_to path name))"
| "archive_paths path ((name, ArtifactSpecial) # rest) =
     Inl (ErrArchiveIO (''unsupported package entry: '' @ relative_to path name))"

text \<open>The header and data of one path; \<open>dir_mode\<close> gives the permissions of a directory.\<close>

definition archive_entry :: "(string \<Rightarrow> int64) \<Rightarrow> string \<times> artifact_entry \<Rightarrow> archive_error + tar_entry" where
  "archive_entry dir_mode p = (case p of (relative, node) \<Rightarrow> (case node of
     ArtifactFile mode (Some content) \<Rightarrow>
       Inr (\<lparr>th_name = relative, th_typeflag = TypeReg, th_size = of_nat (length content), th_mode = of_nat mode\<rparr>, content)
   | ArtifactDir entries \<Rightarrow>
       Inr (\<lparr>th_name = relative @ ''/'', th_typeflag = TypeDir, th_size = 0, th_mode = dir_mode relative\<rparr>, [])
   | _ \<Rightarrow> Inl (ErrArchiveIO (''open '' @ relative))))"

definition WriteArchive :: "(string \<Rightarrow> string) \<Rightarrow> (tar_entry list \<Rightarrow> string option) \<Rightarrow> (string \<Rightarrow> int64) \<Rightarrow> tree
    \<Rightarrow> archive_error + string \<times> string" where
  "WriteArchive sha256 encode dir_mode source =
     bindR (archive_paths [] source) (\<lambda>paths.
     bindR (mapR (archive_entry dir_mode) (sort_key fst paths)) (\<lambda>entries.
     (case encode entries of
        None \<Rightarrow> Inl (ErrArchiveIO ''write archive'')
      | Some bytes \<Rightarrow> Inr (hex_encode (sha256 bytes), bytes))))"

end
