(* ===== verification/ArchiveProofs.thy ===== *)
theory ArchiveProofs
  imports Archive DeployerProofs "HOL-Library.Multiset"
begin

unbundle bit_operations_syntax

text \<open>
  What an extraction leaves behind, also when it fails half way, and that the archive written for a
  package extracts to the package. The regular files of a directory are listed with their paths;
  the lemmas say how each operation on directories changes that list.
\<close>

section \<open>The files of a directory\<close>

fun tree_files :: "string \<Rightarrow> tree \<Rightarrow> artifact_files" where
  "tree_files path [] = []"
| "tree_files path ((name, ArtifactDir entries) # rest) =
     tree_files (relative_to path name) entries @ tree_files path rest"
| "tree_files path ((name, ArtifactFile mode content) # rest) =
     (relative_to path name, mode, content) # tree_files path rest"
| "tree_files path ((name, ArtifactLink) # rest) = tree_files path rest"
| "tree_files path ((name, ArtifactSpecial) # rest) = tree_files path rest"

fun only_files :: "tree \<Rightarrow> bool" where
  "only_files [] = True"
| "only_files ((name, ArtifactDir entries) # rest) = (only_files entries \<and> only_files rest)"
| "only_files ((name, ArtifactFile mode content) # rest) = only_files rest"
| "only_files _ = False"

lemma tree_files_append [simp]: "tree_files p (s @ t) = tree_files p s @ tree_files p t"
proof (induction s)
  case (Cons x s)
  then show ?case by (cases x; cases "snd x") auto
qed simp

lemma only_files_append [simp]: "only_files (s @ t) \<longleftrightarrow> only_files s \<and> only_files t"
proof (induction s)
  case (Cons x s)
  then show ?case by (cases x; cases "snd x") auto
qed simp

lemma only_files_sub: "only_files t \<Longrightarrow> map_of t c = Some (ArtifactDir sub) \<Longrightarrow> only_files sub"
proof (induction t)
  case (Cons x t)
  then show ?case by (cases x; cases "snd x") (auto split: if_splits)
qed simp

lemma only_files_update: "only_files t \<Longrightarrow> only_files sub \<Longrightarrow> only_files (AList.update c (ArtifactDir sub) t)"
proof (induction t)
  case (Cons x t)
  then show ?case by (cases x; cases "snd x") auto
qed simp

lemma tree_files_update:
  "map_of t c = Some (ArtifactDir sub) \<Longrightarrow>
   mset (tree_files p (AList.update c (ArtifactDir sub') t)) + mset (tree_files (relative_to p c) sub)
     = mset (tree_files p t) + mset (tree_files (relative_to p c) sub')"
proof (induction t)
  case (Cons x t)
  then show ?case by (cases x; cases "snd x") (auto split: if_splits)
qed simp

lemma mkdir_all_files: "mkdir_all cs t = Some t' \<Longrightarrow> mset (tree_files p t') = mset (tree_files p t)"
proof (induction cs t arbitrary: t' p rule: mkdir_all.induct)
  case (2 c cs t)
  show ?case
  proof (cases "map_of t c")
    case None
    with 2 show ?thesis by fastforce
  next
    case (Some x)
    with 2(3) obtain sub s where x: "x = ArtifactDir sub" "mkdir_all cs sub = Some s"
        "t' = AList.update c (ArtifactDir s) t"
      by (auto split: artifact_entry.splits)
    with 2(2)[OF Some x(1) x(2)] tree_files_update[of t c sub p s] Some show ?thesis by simp
  qed
qed simp

lemma create_file_files:
  "create_file cs mode content t = Some t' \<Longrightarrow>
   mset (tree_files p t') = add_mset (foldl relative_to p cs, mode, Some content) (mset (tree_files p t))"
proof (induction cs mode content t arbitrary: t' p rule: create_file.induct)
  case (2 c cs mode content t)
  show ?case
  proof (cases "map_of t c")
    case None
    with 2(2) show ?thesis by (auto split: if_splits)
  next
    case (Some x)
    with 2(2) obtain sub s where x: "x = ArtifactDir sub" "create_file cs mode content sub = Some s"
        "t' = AList.update c (ArtifactDir s) t"
      by (auto split: artifact_entry.splits)
    with 2(1)[OF Some x(1) x(2)] tree_files_update[of t c sub p s] Some show ?thesis by simp
  qed
qed simp

lemma mkdir_all_only_files: "mkdir_all cs t = Some t' \<Longrightarrow> only_files t \<Longrightarrow> only_files t'"
proof (induction cs t arbitrary: t' rule: mkdir_all.induct)
  case (2 c cs t)
  then show ?case
    by (fastforce split: option.splits artifact_entry.splits intro: only_files_update dest: only_files_sub)
qed simp

lemma create_file_only_files: "create_file cs mode content t = Some t' \<Longrightarrow> only_files t \<Longrightarrow> only_files t'"
proof (induction cs mode content t arbitrary: t' rule: create_file.induct)
  case (2 c cs mode content t)
  then show ?case
    by (fastforce split: option.splits artifact_entry.splits if_splits intro: only_files_update dest: only_files_sub)
qed simp

lemma relative_to_path: "list_all plain cs \<Longrightarrow> foldl relative_to p cs =
  (if cs = [] then p else relative_to p (Join cs ''/''))"
proof (induction cs arbitrary: p)
  case (Cons c cs)
  then show ?case by (cases cs) (auto simp: relative_to_def plain_def)
qed simp

section \<open>Modes and sizes\<close>

definition extracted_modes :: "nat set" where
  "extracted_modes = {416, 424, 480, 488}"

lemma and_single_bit: "(m :: 64 word) AND 2 ^ k = (if bit m k then 2 ^ k else 0)"
  by (intro bit_word_eqI) (auto simp: bit_simps)

lemma and72: "(m :: 64 word) AND 72 \<in> {0, 8, 64, 72}"
proof -
  have "m AND 72 = (m AND 2 ^ 3) OR (m AND 2 ^ 6)"
    by (simp add: bit.conj_disj_distrib[symmetric])
  then show ?thesis unfolding and_single_bit by auto
qed

lemma entry_mode_values: "entry_mode m \<in> extracted_modes"
  using and72[of m] by (auto simp: entry_mode_def extracted_modes_def)

lemma sint_nonneg: "0 \<le>s (x :: int64) \<Longrightarrow> 0 \<le> sint x \<and> sint x < 2 ^ 63 \<and> sint x = int (unat x)"
proof -
  assume "0 \<le>s x"
  then have "0 \<le> sint x" by (simp add: word_sle_eq)
  moreover have "sint x < 2 ^ 63" using sint_lt[of x] by simp
  ultimately show ?thesis by (simp add: uint_sint take_bit_int_eq_self)
qed

lemma no_overflow:
  fixes limit size expanded :: int64
  assumes "0 \<le>s limit" "0 \<le>s size" "0 \<le>s expanded" "expanded \<le>s limit" "\<not> limit - size <s expanded"
  shows "0 \<le>s expanded + size" "expanded + size \<le>s limit" "unat (expanded + size) = unat expanded + unat size"
proof -
  note r = sint_nonneg
  note rs = r[OF assms(1)] r[OF assms(2)] r[OF assms(3)]
  have "sint (limit - size) = sint limit - sint size"
    using rs by (simp add: sint_word_ariths signed_take_bit_int_eq_self)
  then have le: "sint expanded + sint size \<le> sint limit"
    using assms(5) by (simp add: word_sless_alt)
  then have sum: "sint (expanded + size) = sint expanded + sint size"
    using rs by (simp add: sint_word_ariths signed_take_bit_int_eq_self)
  with le rs show "0 \<le>s expanded + size" "expanded + size \<le>s limit"
    by (simp_all add: word_sle_eq)
  from r[OF this(1)] sum rs show "unat (expanded + size) = unat expanded + unat size" by linarith
qed

section \<open>What an extraction keeps\<close>

abbreviation files_bytes :: "tree \<Rightarrow> nat" where
  "files_bytes t \<equiv> (\<Sum>(p, m, c) \<leftarrow> tree_files [] t. case c of None \<Rightarrow> 0 | Some x \<Rightarrow> length x)"

definition extracted_file :: "(nat \<Rightarrow> nat) \<Rightarrow> string \<times> nat \<times> string option \<Rightarrow> bool" where
  "extracted_file umask f = (case f of (path, mode, content) \<Rightarrow>
     path \<noteq> [] \<and> list_all plain (Split path slash) \<and> mode \<in> umask ` extracted_modes \<and> content \<noteq> None)"

text \<open>The bounds on the directory of an extraction, of which \<open>used\<close> bytes and \<open>n\<close> entries were counted.\<close>

definition directory_within :: "(string \<Rightarrow> string) \<Rightarrow> (nat \<Rightarrow> nat) \<Rightarrow> nat \<Rightarrow> nat \<Rightarrow> string list \<Rightarrow> tree \<Rightarrow> bool" where
  "directory_within lower umask used n seen t =
     (only_files t \<and> files_bytes t \<le> used \<and> length (tree_files [] t) \<le> n
      \<and> list_all (extracted_file umask) (tree_files [] t)
      \<and> distinct (map (\<lambda>f. lower (fst f)) (tree_files [] t))
      \<and> (\<lambda>f. lower (fst f)) ` set (tree_files [] t) \<subseteq> set seen)"

lemma directory_within_mono:
  "directory_within lower umask used n seen t \<Longrightarrow> used \<le> used' \<Longrightarrow> n \<le> n' \<Longrightarrow> set seen \<subseteq> set seen'
   \<Longrightarrow> directory_within lower umask used' n' seen' t"
  by (auto simp: directory_within_def)

lemma directory_within_same:
  assumes "mset (tree_files [] t') = mset (tree_files [] t)" "only_files t'" "directory_within lower umask used n seen t"
  shows "directory_within lower umask used n seen t'"
proof -
  let ?f = "\<lambda>f :: string \<times> nat \<times> string option. lower (fst f)"
  have "set (tree_files [] t') = set (tree_files [] t)" "length (tree_files [] t') = length (tree_files [] t)"
    using assms(1) by (auto dest: mset_eq_setD mset_eq_length)
  moreover have "files_bytes t' = files_bytes t"
    using assms(1) by (metis (no_types, lifting) mset_map sum_mset_sum_list)
  moreover have "distinct (map ?f (tree_files [] t')) = distinct (map ?f (tree_files [] t))"
    using assms(1) by (metis mset_map mset_eq_imp_distinct_iff)
  ultimately show ?thesis using assms(2,3) by (simp add: directory_within_def list_all_iff)
qed

lemma directory_within_create:
  assumes "mset (tree_files [] t') = add_mset (path, mode, Some content) (mset (tree_files [] t))" "only_files t'"
    and "directory_within lower umask used n seen t" "lower path \<notin> set seen"
    and "extracted_file umask (path, mode, Some content)"
  shows "directory_within lower umask (used + length content) (Suc n) (lower path # seen) t'"
proof -
  let ?f = "\<lambda>f :: string \<times> nat \<times> string option. lower (fst f)" and ?ys = "(path, mode, Some content) # tree_files [] t"
  have m: "mset (tree_files [] t') = mset ?ys" using assms(1) by simp
  then have "set (tree_files [] t') = set ?ys" "length (tree_files [] t') = length ?ys"
    by (metis mset_eq_setD) (metis m mset_eq_length)
  moreover have "files_bytes t' = length content + files_bytes t"
  proof -
    have "files_bytes t' = (\<Sum>(p, m, c) \<leftarrow> ?ys. case c of None \<Rightarrow> 0 | Some x \<Rightarrow> length x)"
      using m by (metis (no_types, lifting) mset_map sum_mset_sum_list)
    then show ?thesis by simp
  qed
  moreover have "distinct (map ?f (tree_files [] t')) = distinct (map ?f ?ys)"
    using m by (metis mset_map mset_eq_imp_distinct_iff)
  ultimately show ?thesis using assms(2-5) by (auto simp: directory_within_def list_all_iff)
qed

definition extraction_ok :: "(string \<Rightarrow> string) \<Rightarrow> (nat \<Rightarrow> nat) \<Rightarrow> limits \<Rightarrow> extraction \<Rightarrow> bool" where
  "extraction_ok lower umask l s =
     (0 \<le>s ex_expanded s \<and> ex_expanded s \<le>s lm_expanded_bytes l
      \<and> directory_within lower umask (unat (ex_expanded s)) (min (ex_entries s) (nat (lm_entries l))) (ex_seen s) (ex_tree s))"

lemma mkdir_all_within:
  "directory_within lower umask used n seen t \<Longrightarrow> mkdir_all cs t = Some t' \<Longrightarrow> directory_within lower umask used n seen t'"
  by (rule directory_within_same) (auto simp: mkdir_all_files directory_within_def dest: mkdir_all_only_files)

lemma extract_file_ok:
  assumes "0 \<le>s lm_expanded_bytes l" "0 \<le>s ex_expanded s" "ex_expanded s \<le>s lm_expanded_bytes l"
    and "directory_within lower umask (unat (ex_expanded s)) n seen (ex_tree s)"
    and "ex_seen s = lower path # seen" "lower path \<notin> set seen"
    and "list_all plain ts" "ts \<noteq> []" "path = Join ts ''/''"
    and "Suc n \<le> min (ex_entries s) (nat (lm_entries l))"
    and "extract_file umask l ts e s = (err, s')"
  shows "extraction_ok lower umask l s'"
proof -
  obtain h data where e: "e = (h, data)" by (cases e)
  let ?m = "min (ex_entries s) (nat (lm_entries l))"
  show ?thesis
  proof (cases "th_size h <s 0 \<or> lm_expanded_bytes l - th_size h <s ex_expanded s")
    case True
    then have "s' = s" using assms(11) e by (simp add: extract_file_def)
    then show ?thesis using assms(2-5,10) by (auto simp: extraction_ok_def elim!: directory_within_mono)
  next
    case False
    then have sz: "0 \<le>s th_size h" by (simp add: word_sless_alt word_sle_eq)
    note no = no_overflow[OF assms(1) sz assms(2,3)] False
    let ?s1 = "s\<lparr>ex_expanded := ex_expanded s + th_size h\<rparr>"
    have grown: "directory_within lower umask (unat (ex_expanded s + th_size h)) ?m (ex_seen s) t"
      if "directory_within lower umask (unat (ex_expanded s)) n seen t" for t
      using that no assms(5,10) by (auto elim!: directory_within_mono)
    show ?thesis
    proof (cases "mkdir_all (butlast ts) (ex_tree s)")
      case None
      then have "s' = ?s1" using assms(11) e False by (simp add: extract_file_def)
      then show ?thesis using no grown[OF assms(4)] by (simp add: extraction_ok_def)
    next
      case (Some t)
      then have w: "directory_within lower umask (unat (ex_expanded s)) n seen t"
        using assms(4) mkdir_all_within by blast
      let ?mode = "umask (entry_mode (th_mode h))" and ?c = "take (unat (th_size h)) data"
      show ?thesis
      proof (cases "create_file ts ?mode ?c t")
        case None
        then have "s' = ?s1\<lparr>ex_tree := t\<rparr>" using assms(11) e False Some by (simp add: extract_file_def Let_def)
        then show ?thesis using no grown[OF w] by (simp add: extraction_ok_def)
      next
        case (Some t')
        have s': "s' = ?s1\<lparr>ex_tree := t'\<rparr>"
          using assms(11) e False Some \<open>mkdir_all (butlast ts) (ex_tree s) = Some t\<close> by (simp add: extract_file_def Let_def)
        have sp: "Split path slash = ts" using assms(7-9) by (simp add: Split_Join plain_no_slash)
        have "foldl relative_to [] ts = path" using relative_to_path[OF assms(7)] assms(8,9) by (simp add: relative_to_def)
        then have "mset (tree_files [] t') = add_mset (path, ?mode, Some ?c) (mset (tree_files [] t))"
          using create_file_files[OF Some, of "[]"] by simp
        moreover have "extracted_file umask (path, ?mode, Some ?c)"
          using sp assms(7-9) Join_contained(3)[OF assms(7,8)] entry_mode_values by (simp add: extracted_file_def)
        moreover have "only_files t'" using Some w create_file_only_files by (auto simp: directory_within_def)
        ultimately have "directory_within lower umask (unat (ex_expanded s) + length ?c) (Suc n) (lower path # seen) t'"
          using directory_within_create w assms(6) by blast
        then have "directory_within lower umask (unat (ex_expanded s + th_size h)) ?m (ex_seen s) t'"
          using no assms(5,10) by (auto elim!: directory_within_mono)
        then show ?thesis using s' no by (simp add: extraction_ok_def)
      qed
    qed
  qed
qed

lemma extract_entry_ok:
  assumes "0 \<le>s lm_expanded_bytes l" "extraction_ok lower umask l s" "extract_entry lower umask l e s = (err, s')"
  shows "extraction_ok lower umask l s'"
proof -
  let ?s1 = "s\<lparr>ex_entries := ex_entries s + 1\<rparr>"
  have ok1: "extraction_ok lower umask l ?s1"
    using assms(2) by (auto simp: extraction_ok_def elim!: directory_within_mono)
  show ?thesis
  proof (cases "s' = ?s1")
    case True
    with ok1 show ?thesis by simp
  next
    case False
    then obtain clean where c: "safeArchivePath (th_name (fst e)) = Some clean" "clean \<noteq> ''.''"
        "lower clean \<notin> set (ex_seen s)" and lim: "\<not> lm_entries l < int (ex_entries s + 1)"
      using assms(3) by (auto simp: extract_entry_def Let_def split: if_splits option.splits)
    let ?s2 = "?s1\<lparr>ex_seen := lower clean # ex_seen s\<rparr>" and ?ts = "Split clean slash"
    have ok2: "extraction_ok lower umask l ?s2"
      using ok1 by (auto simp: extraction_ok_def elim!: directory_within_mono)
    obtain ts where "ts \<noteq> []" "list_all plain ts" "clean = Join ts ''/''"
      using safeArchivePath_plain[OF c(1)] c(2) by blast
    then have ts: "?ts \<noteq> []" "list_all plain ?ts" "clean = Join ?ts ''/''"
      by (simp_all add: Split_Join plain_no_slash)
    have cont: "(err, s') = (case th_typeflag (fst e) of
        TypeDir \<Rightarrow> (case mkdir_all ?ts (ex_tree ?s2) of
           None \<Rightarrow> (Some (ErrArchiveIO ''mkdir''), ?s2) | Some t \<Rightarrow> (None, ?s2\<lparr>ex_tree := t\<rparr>))
      | TypeOther k \<Rightarrow> (Some (ErrUnsafeArchive ''unsupported entry''), ?s2)
      | _ \<Rightarrow> extract_file umask l ?ts e ?s2)"
      using assms(3) c lim by (cases "th_typeflag (fst e)") (auto simp: extract_entry_def Let_def split: option.splits)
    have regular: "extraction_ok lower umask l s'" if "extract_file umask l ?ts e ?s2 = (err, s')"
      by (rule extract_file_ok[OF assms(1) _ _ _ _ _ ts(2,1,3) _ that, where n = "ex_entries s" and seen = "ex_seen s"])
        (use assms(2) lim c(3) in \<open>auto simp: extraction_ok_def elim!: directory_within_mono\<close>)
    have dir: "extraction_ok lower umask l (?s2\<lparr>ex_tree := t\<rparr>)" if "mkdir_all ?ts (ex_tree ?s2) = Some t" for t
      using ok2 that mkdir_all_within by (auto simp: extraction_ok_def)
    show ?thesis
      using cont regular dir ok2 by (auto split: typeflag.splits option.splits)
  qed
qed

lemma extract_entries_ok:
  assumes "0 \<le>s lm_expanded_bytes l"
  shows "extraction_ok lower umask l s \<Longrightarrow> extraction_ok lower umask l (snd (extract_entries lower umask l es s))"
proof (induction es arbitrary: s)
  case (Cons e es)
  obtain err s' where e: "extract_entry lower umask l e s = (err, s')" by (cases "extract_entry lower umask l e s")
  with Cons extract_entry_ok[OF assms] show ?case by (cases err) auto
qed simp

section \<open>Directories by path\<close>

text \<open>What is at a path: nothing, a directory (\<open>True\<close>) or something else.\<close>

fun kind_at :: "tree \<Rightarrow> string list \<Rightarrow> bool option" where
  "kind_at t [] = Some True"
| "kind_at t (c # cs) = (case map_of t c of
     None \<Rightarrow> None
   | Some (ArtifactDir sub) \<Rightarrow> kind_at sub cs
   | Some _ \<Rightarrow> if cs = [] then Some False else None)"

lemma kind_at_empty [simp]: "kind_at [] q = (if q = [] then Some True else None)"
  by (cases q) simp_all

lemma mkdir_all_ok: "(\<And>q. prefix q cs \<Longrightarrow> kind_at t q \<noteq> Some False) \<Longrightarrow> \<exists>t'. mkdir_all cs t = Some t'"
proof (induction cs t rule: mkdir_all.induct)
  case (2 c cs t)
  show ?case
  proof (cases "map_of t c")
    case None
    have "kind_at [] q \<noteq> Some False" for q by simp
    then obtain t' where "mkdir_all cs [] = Some t'" using 2(1)[OF None] by blast
    with None show ?thesis by simp
  next
    case (Some x)
    have "kind_at t [c] \<noteq> Some False" using 2(3)[of "[c]"] by simp
    with Some obtain sub where x: "x = ArtifactDir sub" by (auto split: artifact_entry.splits)
    have "kind_at sub q \<noteq> Some False" if "prefix q cs" for q
      using 2(3)[of "c # q"] that Some x by simp
    with 2(2)[OF Some x] Some x show ?thesis by auto
  qed
qed simp

lemma mkdir_all_kind: "mkdir_all cs t = Some t' \<Longrightarrow> kind_at t' q = (if prefix q cs then Some True else kind_at t q)"
proof (induction cs t arbitrary: t' q rule: mkdir_all.induct)
  case (2 c cs t)
  show ?case
  proof (cases "map_of t c")
    case None
    with 2(3) obtain sub where s: "mkdir_all cs [] = Some sub" "t' = t @ [(c, ArtifactDir sub)]" by auto
    show ?thesis
    proof (cases q)
      case (Cons x xs)
      then show ?thesis using 2(1)[OF None s(1)] s(2) None
        by (cases "x = c"; cases "map_of t x") (auto simp: map_add_def)
    qed simp
  next
    case (Some x)
    with 2(3) obtain sub s where x: "x = ArtifactDir sub" "mkdir_all cs sub = Some s"
        "t' = AList.update c (ArtifactDir s) t"
      by (auto split: artifact_entry.splits)
    show ?thesis
    proof (cases q)
      case (Cons y ys)
      then show ?thesis using 2(2)[OF Some x(1,2)] x Some by (cases "y = c") (auto simp: update_conv')
    qed simp
  qed
qed auto

lemma create_file_ok: "kind_at t (butlast cs) = Some True \<Longrightarrow> kind_at t cs = None \<Longrightarrow> \<exists>t'. create_file cs mode content t = Some t'"
proof (induction cs mode content t rule: create_file.induct)
  case (2 c cs mode content t)
  show ?case
  proof (cases "map_of t c")
    case None
    with 2(2) show ?thesis by (auto split: if_splits)
  next
    case (Some x)
    with 2(2,3) obtain sub where x: "x = ArtifactDir sub" by (auto split: artifact_entry.splits if_splits)
    from 2(3) Some x have "cs \<noteq> []" by auto
    with 2(1)[OF Some x] 2(2,3) Some x show ?thesis by auto
  qed
qed simp

lemma create_file_kind: "create_file cs mode content t = Some t' \<Longrightarrow> kind_at t' q = (if q = cs then Some False else kind_at t q)"
proof (induction cs mode content t arbitrary: t' q rule: create_file.induct)
  case (2 c cs mode content t)
  show ?case
  proof (cases "map_of t c")
    case None
    with 2(2) have s: "cs = []" "t' = t @ [(c, ArtifactFile mode (Some content))]" by (auto split: if_splits)
    show ?thesis
    proof (cases q)
      case (Cons x xs)
      then show ?thesis using s None
        by (cases "x = c"; cases "map_of t x") (auto simp: map_add_def)
    qed (use s in simp)
  next
    case (Some x)
    with 2(2) obtain sub s where x: "x = ArtifactDir sub" "create_file cs mode content sub = Some s"
        "t' = AList.update c (ArtifactDir s) t"
      by (auto split: artifact_entry.splits)
    show ?thesis
    proof (cases q)
      case (Cons y ys)
      then show ?thesis using 2(1)[OF Some x(1,2)] x Some by (cases "y = c") (auto simp: update_conv')
    qed simp
  qed
qed simp

section \<open>Properties\<close>

text \<open>
  C12: Whatever bytes are uploaded, and wherever the extraction stops, the directory it fills holds
  only directories and regular files under plain relative names, with permissions the extraction
  grants; their contents together never exceed the limit on expanded bytes, their number never
  exceeds the limit on entries, and no two of their paths differ only in the case of letters. The
  sums of 64-bit sizes involved never wrap around.
\<close>

theorem extraction_within_limits:
  assumes "Extract lower umask decode l archive [] = (err, t)" and "0 \<le>s lm_expanded_bytes l"
  shows "only_files t \<and> list_all (extracted_file umask) (tree_files [] t)
    \<and> int (files_bytes t) \<le> sint (lm_expanded_bytes l) \<and> length (tree_files [] t) \<le> nat (lm_entries l)
    \<and> distinct (map (\<lambda>f. lower (fst f)) (tree_files [] t))"
proof -
  let ?s = "\<lparr>ex_seen = [], ex_expanded = 0, ex_entries = 0, ex_tree = []\<rparr>"
  have s: "extraction_ok lower umask l ?s" using assms(2) by (simp add: extraction_ok_def directory_within_def)
  have "t = [] \<or> (\<exists>es. t = ex_tree (snd (extract_entries lower umask l es ?s)))"
    using assms(1) by (auto simp: Extract_def split: option.splits prod.splits) (metis snd_conv)+
  then consider "t = []" | es where "t = ex_tree (snd (extract_entries lower umask l es ?s))" by blast
  then have "\<exists>s'. extraction_ok lower umask l s' \<and> t = ex_tree s'"
  proof cases
    case 1
    with s show ?thesis by (intro exI[of _ ?s]) simp
  next
    case 2
    with extract_entries_ok[OF assms(2) s] show ?thesis by blast
  qed
  then obtain s' where s': "extraction_ok lower umask l s'" "t = ex_tree s'" by blast
  then have "files_bytes t \<le> unat (ex_expanded s')" by (simp add: extraction_ok_def directory_within_def)
  then have "int (files_bytes t) \<le> int (unat (ex_expanded s'))" by (simp only: of_nat_le_iff)
  also have "\<dots> = sint (ex_expanded s')" using sint_nonneg[of "ex_expanded s'"] s'(1) by (simp add: extraction_ok_def)
  also have "\<dots> \<le> sint (lm_expanded_bytes l)" using s'(1) by (simp add: extraction_ok_def word_sle_eq)
  finally show ?thesis using s' by (simp add: extraction_ok_def directory_within_def)
qed

definition sample_bomb :: "tar_entry list" where
  "sample_bomb =
     [(\<lparr>th_name = ''./a/b'', th_typeflag = TypeReg, th_size = 3, th_mode = 511\<rparr>, ''abc''),
      (\<lparr>th_name = ''c'', th_typeflag = TypeReg, th_size = 9223372036854775807, th_mode = 420\<rparr>, ''zero'')]"

theorem extraction_within_limits_witness:
  "Extract ToLower (\<lambda>m. m) (\<lambda>_. Some (sample_bomb, True)) DefaultLimits ''tgz'' []
     = (Some ErrExpandedLimit, [(''a'', ArtifactDir [(''b'', ArtifactFile 488 (Some ''abc''))])])
   \<and> only_files [(''a'', ArtifactDir [(''b'', ArtifactFile 488 (Some ''abc''))])]"
proof -
  have e: "Extract ToLower (\<lambda>m. m) (\<lambda>_. Some (sample_bomb, True)) DefaultLimits ''tgz'' []
     = (Some ErrExpandedLimit, [(''a'', ArtifactDir [(''b'', ArtifactFile 488 (Some ''abc''))])])"
    by code_simp
  have "0 \<le>s lm_expanded_bytes DefaultLimits" by code_simp
  from extraction_within_limits[OF e this] e show ?thesis by simp
qed

end
