(* ===== verification/ArchiveRoundTrip.thy ===== *)
theory ArchiveRoundTrip
  imports ArchiveProofs
begin

text \<open>
  The archive written for a package extracts to the package. The entries of an archive are sorted by
  path, so a directory precedes what it holds; the extraction of entries in such an order is
  followed one entry at a time, through what is at each path and which files there are.
\<close>

section \<open>The paths of a package\<close>

fun component_paths :: "string list \<Rightarrow> tree \<Rightarrow> (string list \<times> artifact_entry) list" where
  "component_paths pre [] = []"
| "component_paths pre ((name, ArtifactDir entries) # rest) =
     (if ignoredDirectory name then component_paths pre rest
      else (pre @ [name], ArtifactDir entries) # component_paths (pre @ [name]) entries @ component_paths pre rest)"
| "component_paths pre ((name, ArtifactFile mode content) # rest) =
     (pre @ [name], ArtifactFile mode content) # component_paths pre rest"
| "component_paths pre ((name, node) # rest) = component_paths pre rest"

definition archive_name :: "string \<Rightarrow> bool" where
  "archive_name c = (plain c \<and> CHR 0x00 \<notin> set c \<and> CHR 0x5C \<notin> set c)"

fun archive_names :: "tree \<Rightarrow> bool" where
  "archive_names [] = True"
| "archive_names ((name, ArtifactDir entries) # rest) = (archive_name name \<and> archive_names entries \<and> archive_names rest)"
| "archive_names ((name, node) # rest) = (archive_name name \<and> archive_names rest)"

abbreviation slashed :: "string list \<Rightarrow> string" where "slashed ts \<equiv> Join ts ''/''"

abbreviation with_text :: "string list \<times> artifact_entry \<Rightarrow> string \<times> artifact_entry" where
  "with_text x \<equiv> (slashed (fst x), snd x)"

lemma Join_snoc: "Join (ts @ [c]) sep = (if ts = [] then c else Join ts sep @ sep @ c)"
  by (induction ts sep rule: Join.induct) auto

lemma relative_slashed: "list_all plain pre \<Longrightarrow> relative_to (slashed pre) name = slashed (pre @ [name])"
  using Join_contained(3)[of pre] by (auto simp: relative_to_def Join_snoc)

lemma archive_paths_components:
  "archive_paths (slashed pre) source = Inr ps \<Longrightarrow> list_all plain pre \<Longrightarrow> archive_names source
    \<Longrightarrow> ps = map with_text (component_paths pre source)"
proof (induction pre source arbitrary: ps rule: component_paths.induct)
  case (2 pre name entries rest)
  have "list_all plain (pre @ [name])" using 2(5,6) by (simp add: archive_name_def)
  then show ?case using 2 by (fastforce simp: result_simps relative_slashed)
qed (auto simp: result_simps relative_slashed archive_name_def)

lemma component_paths_names:
  "(ts, n) \<in> set (component_paths pre source) \<Longrightarrow> list_all archive_name pre \<Longrightarrow> archive_names source
    \<Longrightarrow> list_all archive_name ts"
  by (induction pre source rule: component_paths.induct) (auto split: if_splits)

lemma component_paths_prefix: "(ts, n) \<in> set (component_paths pre source) \<Longrightarrow> strict_prefix pre ts"
proof (induction pre source rule: component_paths.induct)
  case (2 pre name entries rest)
  have "strict_prefix pre (pre @ [name])" by (simp add: strict_prefix_def)
  with 2 show ?case by (auto split: if_splits intro: prefix_order.less_trans)
qed (auto simp: strict_prefix_def)

lemma component_paths_parents:
  "(ts, n) \<in> set (component_paths pre source) \<Longrightarrow> strict_prefix q ts \<Longrightarrow> strict_prefix pre q
    \<Longrightarrow> \<exists>es. (q, ArtifactDir es) \<in> set (component_paths pre source)"
proof (induction pre source rule: component_paths.induct)
  case (2 pre name entries rest)
  show ?case
  proof (cases "ignoredDirectory name \<or> (ts, n) \<in> set (component_paths pre rest)")
    case True
    then show ?thesis using 2 by (auto split: if_splits)
  next
    case False
    then consider "ts = pre @ [name]" | "(ts, n) \<in> set (component_paths (pre @ [name]) entries)"
      using 2(4) by (auto split: if_splits)
    then show ?thesis
    proof cases
      case 1
      then show ?thesis using 2(5,6) by (auto simp: strict_prefix_def prefix_snoc)
    next
      case inner: 2
      note long = component_paths_prefix[OF inner]
      consider "strict_prefix (pre @ [name]) q" | "prefix q (pre @ [name])"
        using 2(5) long prefix_same_cases[of q ts "pre @ [name]"] by (auto simp: strict_prefix_def)
      then show ?thesis
      proof cases
        case 1
        then show ?thesis using 2(2)[OF _ inner 2(5)] False by auto
      next
        case 2
        then have "q = pre @ [name]" using \<open>strict_prefix pre q\<close> by (auto simp: strict_prefix_def prefix_snoc)
        then show ?thesis using False by auto
      qed
    qed
  qed
qed (auto simp: strict_prefix_def prefix_snoc)

section \<open>Names that survive\<close>

lemma archive_name_plain: "list_all archive_name ts \<Longrightarrow> list_all plain ts"
  by (simp add: list_all_iff archive_name_def)

lemma Join_chars: "x \<in> set (slashed ts) \<Longrightarrow> x = slash \<or> (\<exists>c \<in> set ts. x \<in> set c)"
  by (induction ts "''/''" rule: Join.induct) auto

lemma Contains_char: "Contains s [c] \<longleftrightarrow> c \<in> set s"
  by (induction s) (auto simp: HasPrefix_def)

lemma slashed_chars: "list_all archive_name ts \<Longrightarrow> CHR 0x00 \<notin> set (slashed ts) \<and> CHR 0x5C \<notin> set (slashed ts)"
  using Join_chars by (fastforce simp: list_all_iff archive_name_def)

lemma components_slashed:
  assumes "list_all plain ts" "ts \<noteq> []"
  shows "components (slashed ts) = ts" "components (slashed ts @ ''/'') = ts"
proof -
  have na: "\<not> IsAbs (slashed ts)" "\<not> IsAbs (slashed ts @ ''/'')"
    using Join_contained(2,3)[OF assms] by (cases "slashed ts"; simp)+
  have sp: "Split (slashed ts) slash = ts" using assms by (simp add: Split_Join plain_no_slash)
  then have "Split (slashed ts @ ''/'') slash = ts @ [[]]" using Split_append_sep[of "slashed ts" slash "[]"] by simp
  with sp na show "components (slashed ts) = ts" "components (slashed ts @ ''/'') = ts"
    using assms by (simp_all add: components_def foldl_clean_push_plain)
qed

lemma Clean_slashed:
  assumes "list_all plain ts" "ts \<noteq> []"
  shows "Clean (slashed ts) = slashed ts" "Clean (slashed ts @ ''/'') = slashed ts"
  using components_slashed[OF assms] Join_contained(2,3)[OF assms] assms(2)
  by (cases "slashed ts"; simp add: Clean_def Let_def)+

lemma slashed_safe:
  assumes "list_all archive_name ts" "ts \<noteq> []" "length (slashed ts) < 4096"
  shows "safeArchivePath (slashed ts) = Some (slashed ts)" "safeArchivePath (slashed ts @ ''/'') = Some (slashed ts)"
proof -
  note p = archive_name_plain[OF assms(1)]
  have ne: "slashed ts \<noteq> []" and na: "\<not> IsAbs (slashed ts)" using Join_contained[OF p assms(2)] by auto
  have "isContainedRelativePath (slashed ts)" using Join_contained(1)[OF p assms(2)] .
  then have "IsLocal (slashed ts)" using ne na Clean_slashed(1)[OF p assms(2)]
    by (simp add: IsLocal_def isContainedRelativePath_def Let_def)
  with slashed_chars[OF assms(1)] ne na assms(3) Clean_slashed[OF p assms(2)]
  show "safeArchivePath (slashed ts) = Some (slashed ts)" "safeArchivePath (slashed ts @ ''/'') = Some (slashed ts)"
    by (simp_all add: safeArchivePath_def Let_def Contains_char)
qed

lemma slashed_dot: "list_all plain ts \<Longrightarrow> ts \<noteq> [] \<Longrightarrow> slashed ts \<noteq> ''.''"
  using Join_contained(1)[of ts] by (auto simp: isContainedRelativePath_def)

section \<open>The order of the entries\<close>

fun parents_first :: "(string list \<times> artifact_entry) list \<Rightarrow> (string list \<times> artifact_entry) list \<Rightarrow> bool" where
  "parents_first before [] = True"
| "parents_first before ((ts, n) # rest) =
     ((\<forall>q. strict_prefix q ts \<longrightarrow> q \<noteq> [] \<longrightarrow> (\<exists>es. map_of before q = Some (ArtifactDir es)))
      \<and> map_of before ts = None \<and> parents_first ((ts, n) # before) rest)"

lemma slashed_less:
  assumes "strict_prefix q ts" "q \<noteq> []" "list_all plain ts"
  shows "slashed q < slashed ts"
proof -
  from assms(1) obtain z zs where ts: "ts = q @ z # zs" by (rule strict_prefixE')
  have "slashed (q @ z # zs) = slashed q @ ''/'' @ slashed (z # zs)"
    using assms(2) by (induction q "''/''" rule: Join.induct) auto
  then have "strict_prefix (slashed q) (slashed ts)" using ts by (simp add: strict_prefix_def)
  then show ?thesis by (auto simp: strict_prefix_def prefix_def list_less_def lexord_append_rightI neq_Nil_conv)
qed

lemma sorted_parents_first:
  assumes "sorted (map (\<lambda>x. slashed (fst x)) (pre @ suf))" "distinct (map fst (pre @ suf))"
    and "\<And>ts n q. (ts, n) \<in> set suf \<Longrightarrow> strict_prefix q ts \<Longrightarrow> q \<noteq> [] \<Longrightarrow> \<exists>es. (q, ArtifactDir es) \<in> set (pre @ suf)"
    and "\<And>ts n. (ts, n) \<in> set suf \<Longrightarrow> list_all plain ts"
  shows "parents_first (rev pre) suf"
  using assms
proof (induction suf arbitrary: pre)
  case (Cons x suf)
  obtain ts n where x: "x = (ts, n)" by (cases x)
  have "\<exists>es. map_of (rev pre) q = Some (ArtifactDir es)" if q: "strict_prefix q ts" "q \<noteq> []" for q
  proof -
    obtain es where es: "(q, ArtifactDir es) \<in> set (pre @ x # suf)" using Cons.prems(3)[of ts n q] x q by auto
    have "slashed q < slashed ts" using slashed_less[OF q] Cons.prems(4)[of ts n] x by simp
    moreover have le: "slashed ts \<le> slashed (fst y)" if "y \<in> set (x # suf)" for y
      using that Cons.prems(1) x by (auto simp: sorted_append)
    ultimately have "(q, ArtifactDir es) \<notin> set (x # suf)" using le[of "(q, ArtifactDir es)"] by (metis fst_conv leD)
    with es have "(q, ArtifactDir es) \<in> set pre" by simp
    moreover have "distinct (map fst (rev pre))" using Cons.prems(2) by (simp add: rev_map[symmetric])
    ultimately show ?thesis by (metis map_of_is_SomeI set_rev)
  qed
  moreover have "map_of (rev pre) ts = None" using Cons.prems(2) x by (simp add: map_of_eq_None_iff)
  moreover have "parents_first (rev (pre @ [x])) suf"
  proof (rule Cons.IH)
    show "\<exists>es. (q, ArtifactDir es) \<in> set ((pre @ [x]) @ suf)" if "(ts, n) \<in> set suf" "strict_prefix q ts" "q \<noteq> []" for ts n q
      using Cons.prems(3)[of ts n q] that by simp
    show "list_all plain ts" if "(ts, n) \<in> set suf" for ts n using Cons.prems(4)[of ts n] that by simp
  qed (use Cons.prems(1,2) in simp_all)
  ultimately show ?case using x by simp
qed simp

section \<open>Extracting the entries of a package\<close>

definition node_bytes :: "artifact_entry \<Rightarrow> nat" where
  "node_bytes n = (case n of ArtifactFile _ (Some c) \<Rightarrow> length c | _ \<Rightarrow> 0)"

definition node_files :: "(nat \<Rightarrow> nat) \<Rightarrow> string list \<times> artifact_entry \<Rightarrow> artifact_files" where
  "node_files f x = (case snd x of ArtifactFile m c \<Rightarrow> [(slashed (fst x), f m, c)] | _ \<Rightarrow> [])"

abbreviation extracted_mode :: "(nat \<Rightarrow> nat) \<Rightarrow> nat \<Rightarrow> nat" where
  "extracted_mode umask m \<equiv> umask (entry_mode (of_nat m))"

definition is_dir :: "artifact_entry \<Rightarrow> bool" where
  "is_dir n = (case n of ArtifactDir _ \<Rightarrow> True | _ \<Rightarrow> False)"

definition kinds_of :: "(string list \<times> artifact_entry) list \<Rightarrow> string list \<Rightarrow> bool option" where
  "kinds_of before q = (if q = [] then Some True else map_option is_dir (map_of before q))"

lemma kinds_of_Cons: "ts \<noteq> [] \<Longrightarrow> kinds_of ((ts, n) # before) q = (if q = ts then Some (is_dir n) else kinds_of before q)"
  by (simp add: kinds_of_def)

lemma small_size:
  assumes "int n \<le> sint (x :: int64)"
  shows "0 \<le>s (of_nat n :: int64)" "unat (of_nat n :: int64) = n" "sint (of_nat n :: int64) = int n"
proof -
  have lt: "n < 2 ^ 63" using assms sint_lt[of x] by simp
  then show u: "unat (of_nat n :: int64) = n" by (simp add: unat_of_nat)
  then have "uint (of_nat n :: int64) = int n" by (metis uint_nat)
  then show "sint (of_nat n :: int64) = int n" using lt by (simp add: sint_uint signed_take_bit_int_eq_self)
  then show "0 \<le>s (of_nat n :: int64)" by (simp add: word_sle_eq)
qed

definition extracts_to :: "(string \<Rightarrow> string) \<Rightarrow> (nat \<Rightarrow> nat) \<Rightarrow> (string list \<times> artifact_entry) list \<Rightarrow> extraction \<Rightarrow> extraction \<Rightarrow> bool" where
  "extracts_to lower umask xs s s' =
     (ex_entries s' = ex_entries s + length xs \<and> set (ex_seen s') = set (ex_seen s) \<union> (\<lambda>x. lower (slashed (fst x))) ` set xs
      \<and> 0 \<le>s ex_expanded s' \<and> unat (ex_expanded s') = unat (ex_expanded s) + (\<Sum>x \<leftarrow> xs. node_bytes (snd x))
      \<and> mset (tree_files [] (ex_tree s')) = mset (tree_files [] (ex_tree s)) + mset (concat (map (node_files (extracted_mode umask)) xs))
      \<and> (only_files (ex_tree s) \<longrightarrow> only_files (ex_tree s')))"

lemma prefix_strict: "prefix q ts \<longleftrightarrow> q = ts \<or> strict_prefix q ts"
  by (auto simp: strict_prefix_def)

lemma extract_dir_step:
  assumes "list_all archive_name ts" "ts \<noteq> []" "length (slashed ts) < 4096" "lower (slashed ts) \<notin> set (ex_seen s)"
    and "int (ex_entries s) < lm_entries l" "0 \<le>s ex_expanded s"
    and "\<And>q. strict_prefix q ts \<Longrightarrow> kind_at (ex_tree s) q = Some True" "kind_at (ex_tree s) ts = None"
    and "th_name h = slashed ts @ ''/''" "th_typeflag h = TypeDir"
  obtains s' where "extract_entry lower umask l (h, data) s = (None, s')" "extracts_to lower umask [(ts, ArtifactDir es)] s s'"
    "\<And>q. kind_at (ex_tree s') q = (if q = ts then Some True else kind_at (ex_tree s) q)"
proof -
  note p = archive_name_plain[OF assms(1)]
  have sp: "Split (slashed ts) slash = ts" using p assms(2) by (simp add: Split_Join plain_no_slash)
  have "kind_at (ex_tree s) q \<noteq> Some False" if "prefix q ts" for q
    using that assms(7,8) by (auto simp: prefix_strict)
  then obtain t where t: "mkdir_all ts (ex_tree s) = Some t" using mkdir_all_ok by blast
  let ?s' = "s\<lparr>ex_entries := ex_entries s + 1, ex_seen := lower (slashed ts) # ex_seen s, ex_tree := t\<rparr>"
  have "extract_entry lower umask l (h, data) s = (None, ?s')"
    using assms(4,5,9,10) sp t slashed_safe(2)[OF assms(1-3)] slashed_dot[OF p assms(2)]
    by (simp add: extract_entry_def Let_def)
  moreover have "extracts_to lower umask [(ts, ArtifactDir es)] s ?s'"
    using assms(6) mkdir_all_files[OF t] mkdir_all_only_files[OF t]
    by (simp add: extracts_to_def node_bytes_def node_files_def)
  moreover have "kind_at (ex_tree ?s') q = (if q = ts then Some True else kind_at (ex_tree s) q)" for q
    using mkdir_all_kind[OF t, of q] assms(7) by (auto simp: prefix_strict)
  ultimately show thesis using that by blast
qed

lemma extract_file_step:
  assumes "list_all archive_name ts" "ts \<noteq> []" "length (slashed ts) < 4096" "lower (slashed ts) \<notin> set (ex_seen s)"
    and "int (ex_entries s) < lm_entries l" "0 \<le>s ex_expanded s"
    and "\<And>q. strict_prefix q ts \<Longrightarrow> kind_at (ex_tree s) q = Some True" "kind_at (ex_tree s) ts = None"
    and "int (unat (ex_expanded s) + length c) \<le> sint (lm_expanded_bytes l)"
    and "h = \<lparr>th_name = slashed ts, th_typeflag = TypeReg, th_size = of_nat (length c), th_mode = of_nat m\<rparr>"
  obtains s' where "extract_entry lower umask l (h, c) s = (None, s')" "extracts_to lower umask [(ts, ArtifactFile m (Some c))] s s'"
    "\<And>q. kind_at (ex_tree s') q = (if q = ts then Some False else kind_at (ex_tree s) q)"
proof -
  note p = archive_name_plain[OF assms(1)]
  have sp: "Split (slashed ts) slash = ts" using p assms(2) by (simp add: Split_Join plain_no_slash)
  have bl: "prefix q (butlast ts) \<Longrightarrow> strict_prefix q ts" for q
    using assms(2) strict_prefixI'[of ts "butlast ts" "last ts" "[]"] by (auto intro: prefix_order.le_less_trans)
  then obtain t where t: "mkdir_all (butlast ts) (ex_tree s) = Some t"
    using mkdir_all_ok[of "butlast ts" "ex_tree s"] assms(7) by fastforce
  have kt: "kind_at t q = kind_at (ex_tree s) q" for q using mkdir_all_kind[OF t, of q] bl assms(7) by auto
  have "kind_at t (butlast ts) = Some True" using kt bl[of "butlast ts"] assms(7) by simp
  then obtain t' where t': "create_file ts (extracted_mode umask m) c t = Some t'"
    using create_file_ok kt assms(8) by metis
  have sz: "0 \<le>s (of_nat (length c) :: int64)" "unat (of_nat (length c) :: int64) = length c"
    "sint (of_nat (length c) :: int64) = int (length c)"
    using small_size[of "length c" "lm_expanded_bytes l"] assms(9) by simp_all
  have e: "0 \<le> sint (ex_expanded s)" "sint (ex_expanded s) = int (unat (ex_expanded s))" using sint_nonneg[OF assms(6)] by auto
  have L: "0 \<le>s lm_expanded_bytes l" "ex_expanded s \<le>s lm_expanded_bytes l"
    unfolding word_sle_eq using assms(9) e by (simp_all only: sint_0)
  have "sint (lm_expanded_bytes l - of_nat (length c)) = sint (lm_expanded_bytes l) - int (length c)"
  proof -
    have "signed_take_bit 63 (sint (lm_expanded_bytes l) - int (length c)) = sint (lm_expanded_bytes l) - int (length c)"
      by (rule signed_take_bit_int_eq_self) (use assms(9) e sint_nonneg[OF L(1)] in linarith)+
    then show ?thesis using sz(3) by (simp add: sint_word_ariths)
  qed
  then have fits: "\<not> lm_expanded_bytes l - of_nat (length c) <s ex_expanded s"
    using assms(9) e by (simp add: word_sless_alt)
  note no = no_overflow[OF L(1) sz(1) assms(6) L(2) fits]
  let ?s' = "s\<lparr>ex_entries := ex_entries s + 1, ex_seen := lower (slashed ts) # ex_seen s,
      ex_expanded := ex_expanded s + of_nat (length c), ex_tree := t'\<rparr>"
  have ns: "\<not> (of_nat (length c) :: int64) <s 0" using sz(1) by (simp add: word_sless_alt word_sle_eq)
  have "extract_entry lower umask l (h, c) s = (None, ?s')"
    using assms(4,5,10) sp t t' slashed_safe(1)[OF assms(1-3)] slashed_dot[OF p assms(2)] fits ns sz(2)
    by (simp add: extract_entry_def extract_file_def Let_def)
  moreover have "foldl relative_to [] ts = slashed ts" using relative_to_path[OF p] assms(2) by (simp add: relative_to_def)
  then have "extracts_to lower umask [(ts, ArtifactFile m (Some c))] s ?s'"
    using no sz(2) create_file_files[OF t', of "[]"] mkdir_all_files[OF t, of "[]"] mkdir_all_only_files[OF t] create_file_only_files[OF t']
    by (simp add: extracts_to_def node_bytes_def node_files_def)
  moreover have "kind_at (ex_tree ?s') q = (if q = ts then Some False else kind_at (ex_tree s) q)" for q
    using create_file_kind[OF t', of q] kt by simp
  ultimately show thesis using that by blast
qed

lemma extracts_to_trans:
  "extracts_to lower umask xs s s1 \<Longrightarrow> extracts_to lower umask ys s1 s2 \<Longrightarrow> extracts_to lower umask (xs @ ys) s s2"
  by (auto simp: extracts_to_def)

lemma archive_entry_step:
  assumes "archive_entry dir_mode (slashed ts, n) = Inr e"
    and "list_all archive_name ts" "ts \<noteq> []" "length (slashed ts) < 4096" "lower (slashed ts) \<notin> set (ex_seen s)"
    and "int (ex_entries s) < lm_entries l" "0 \<le>s ex_expanded s"
    and "\<And>q. strict_prefix q ts \<Longrightarrow> kind_at (ex_tree s) q = Some True" "kind_at (ex_tree s) ts = None"
    and "int (unat (ex_expanded s) + node_bytes n) \<le> sint (lm_expanded_bytes l)"
  obtains s' where "extract_entry lower umask l e s = (None, s')" "extracts_to lower umask [(ts, n)] s s'"
    "\<And>q. kind_at (ex_tree s') q = (if q = ts then Some (is_dir n) else kind_at (ex_tree s) q)"
proof (cases n)
  case (ArtifactDir es)
  show thesis
    by (rule extract_dir_step[of ts lower s l "fst e" umask "snd e" es])
      (use assms ArtifactDir that in \<open>auto simp: archive_entry_def is_dir_def\<close>)
next
  case (ArtifactFile m content)
  then obtain c where c: "content = Some c" using assms(1) by (cases content) (auto simp: archive_entry_def)
  show thesis
    by (rule extract_file_step[of ts lower s l c "fst e" m umask])
      (use assms ArtifactFile c that in \<open>auto simp: archive_entry_def is_dir_def node_bytes_def\<close>)
qed (use assms(1) in \<open>simp_all add: archive_entry_def\<close>)

lemma extract_all:
  assumes "mapR (archive_entry dir_mode) (map with_text xs) = Inr es" "parents_first before xs"
    and "\<And>q. kind_at (ex_tree s) q = kinds_of before q"
    and "\<And>ts n. (ts, n) \<in> set xs \<Longrightarrow> list_all archive_name ts \<and> ts \<noteq> [] \<and> length (slashed ts) < 4096"
    and "distinct (map (\<lambda>x. lower (slashed (fst x))) xs)"
    and "(\<lambda>x. lower (slashed (fst x))) ` set xs \<inter> set (ex_seen s) = {}"
    and "int (ex_entries s + length xs) \<le> lm_entries l" "0 \<le>s ex_expanded s"
    and "int (unat (ex_expanded s) + (\<Sum>x \<leftarrow> xs. node_bytes (snd x))) \<le> sint (lm_expanded_bytes l)"
  shows "\<exists>s'. extract_entries lower umask l es s = (None, s') \<and> extracts_to lower umask xs s s'
    \<and> (\<forall>q. kind_at (ex_tree s') q = kinds_of (rev xs @ before) q)"
  using assms
proof (induction xs arbitrary: s before es)
  case Nil
  then show ?case by (auto simp: extracts_to_def)
next
  case (Cons x xs)
  obtain ts n where x: "x = (ts, n)" by (cases x)
  from Cons.prems(1) x obtain e es' where e: "archive_entry dir_mode (slashed ts, n) = Inr e"
      "mapR (archive_entry dir_mode) (map with_text xs) = Inr es'" "es = e # es'"
    by (auto simp: result_simps)
  have ts: "list_all archive_name ts" "ts \<noteq> []" "length (slashed ts) < 4096" using Cons.prems(4)[of ts n] x by auto
  have parents: "kind_at (ex_tree s) q = Some True" if "strict_prefix q ts" for q
    using that Cons.prems(2,3) x by (auto simp: kinds_of_def is_dir_def)
  have fresh: "kind_at (ex_tree s) ts = None" using Cons.prems(2,3) x ts(2) by (simp add: kinds_of_def)
  obtain s1 where s1: "extract_entry lower umask l e s = (None, s1)" "extracts_to lower umask [(ts, n)] s s1"
    "\<And>q. kind_at (ex_tree s1) q = (if q = ts then Some (is_dir n) else kind_at (ex_tree s) q)"
    by (rule archive_entry_step[OF e(1) ts _ _ Cons.prems(8) parents fresh, of lower l umask])
      (use Cons.prems(6,7,9) x in auto)
  have "\<exists>s'. extract_entries lower umask l es' s1 = (None, s') \<and> extracts_to lower umask xs s1 s'
    \<and> (\<forall>q. kind_at (ex_tree s') q = kinds_of (rev xs @ (ts, n) # before) q)"
  proof (rule Cons.IH[OF e(2)])
    show "parents_first ((ts, n) # before) xs" using Cons.prems(2) x by simp
    show "kind_at (ex_tree s1) q = kinds_of ((ts, n) # before) q" for q
      using s1(3) Cons.prems(3) ts(2) by (simp add: kinds_of_Cons)
    show "list_all archive_name ts \<and> ts \<noteq> [] \<and> length (slashed ts) < 4096" if "(ts, n) \<in> set xs" for ts n
      using Cons.prems(4)[of ts n] that by simp
  qed (use Cons.prems(5,6,7,9) s1(2) x in \<open>auto simp: extracts_to_def\<close>)
  then obtain s' where "extract_entries lower umask l es' s1 = (None, s')" "extracts_to lower umask xs s1 s'"
    "\<forall>q. kind_at (ex_tree s') q = kinds_of (rev xs @ (ts, n) # before) q" by blast
  with s1(1) extracts_to_trans[OF s1(2)] e(3) x show ?case by auto
qed

section \<open>The copied package again\<close>

lemma copy_names: "copy_entries f path source = Inr copied \<Longrightarrow> (c, n) \<in> set copied \<Longrightarrow>
    (\<exists>m. (c, m) \<in> set source) \<and> (path = [] \<longrightarrow> c \<noteq> MetadataDirectory)"
proof (induction source arbitrary: copied)
  case (Cons x source)
  then show ?case by (cases x) (auto simp: Let_def result_simps split: if_splits, blast+)
qed simp

lemma copy_no_metadata: "copy_entries f [] source = Inr copied \<Longrightarrow> (MetadataDirectory, n) \<notin> set source"
proof (induction source arbitrary: copied)
  case (Cons x source)
  then show ?case by (cases x) (auto simp: Let_def result_simps split: if_splits)
qed simp

lemma component_paths_top: "([c], n) \<in> set (component_paths [] source) \<Longrightarrow> (c, n) \<in> set source"
proof (induction "[] :: string list" source rule: component_paths.induct)
  case (2 name entries rest)
  then show ?case using component_paths_prefix[of "[c]" n "[name]" entries]
    by (auto simp: strict_prefix_def split: if_splits)
qed auto

lemma archive_names_top: "archive_names source \<Longrightarrow> (c, n) \<in> set source \<Longrightarrow> archive_name c"
  by (induction source rule: archive_names.induct) auto

lemma copy_files:
  "copy_entries f (slashed pre) source = Inr copied \<Longrightarrow> list_all plain pre \<Longrightarrow> archive_names source
   \<Longrightarrow> tree_files (slashed pre) copied = concat (map (node_files f) (component_paths pre source)) \<and> only_files copied"
proof (induction pre source arbitrary: copied rule: component_paths.induct)
  case (2 pre name entries rest)
  have plain: "list_all plain (pre @ [name])" using 2(5,6) by (simp add: archive_name_def)
  have rel: "(if slashed pre = [] then name else slashed pre @ ''/'' @ name) = slashed (pre @ [name])"
    using relative_slashed[OF 2(5), of name] by (simp add: relative_to_def)
  show ?case
  proof (cases "ignoredDirectory name")
    case True
    then show ?thesis using 2 by (auto simp: Let_def split: if_splits)
  next
    case False
    then obtain inner more where *: "copy_entries f (slashed (pre @ [name])) entries = Inr inner"
        "copy_entries f (slashed pre) rest = Inr more" "copied = (name, ArtifactDir inner) # more"
      using 2(4) unfolding copy_entries.simps rel by (auto simp: Let_def result_simps split: if_splits)
    have "archive_names entries" "archive_names rest" using 2(6) by simp_all
    with 2(2)[OF False *(1) plain] 2(3)[OF False *(2) 2(5)] *(3) False relative_slashed[OF 2(5), of name]
    show ?thesis by (auto simp: node_files_def)
  qed
next
  case (3 pre name mode content rest)
  then show ?case using relative_slashed[OF 3(3), of name]
    by (auto simp: Let_def result_simps node_files_def relative_to_def split: if_splits option.splits)
qed (auto simp: Let_def result_simps split: if_splits)

lemma digest_below: "path \<noteq> [] \<Longrightarrow> only_files t \<Longrightarrow> digest_entries path t = Inr (tree_files path t)"
proof (induction path t rule: tree_files.induct)
  case (2 path name entries rest)
  then show ?case by (simp add: relative_to_def MetadataDirectory_def append_eq_Cons_conv)
next
  case (3 path name mode content rest)
  then show ?case by (simp add: relative_to_def MetadataDirectory_def append_eq_Cons_conv)
qed simp_all

lemma digest_top:
  "only_files t \<Longrightarrow> [] \<notin> fst ` set t \<Longrightarrow> MetadataDirectory \<notin> fst ` set t \<Longrightarrow> digest_entries [] t = Inr (tree_files [] t)"
proof (induction t)
  case (Cons x t)
  obtain name n where x: "x = (name, n)" by (cases x)
  have "digest_entry name n = Inr (tree_files [] [x])"
    using Cons.prems x digest_below[of name] by (cases n) (auto simp: relative_to_def)
  then show ?case using Cons x by (cases n) (auto simp: relative_to_def)
qed simp

lemma contents_same:
  assumes "digest_entries [] s = Inr fs" "digest_entries [] t = Inr gs" "mset fs = mset gs" "distinct (map fst gs)"
  shows "artifact_contents s = artifact_contents t"
proof -
  have d: "distinct (map fst fs)" using assms(3,4) by (metis mset_map mset_eq_imp_distinct_iff)
  have "set fs = set gs" using assms(3) by (rule mset_eq_setD)
  moreover have "inj_on fst (set gs)" using assms(4) by (simp add: distinct_map)
  moreover have "distinct (map fst (sort_key fst fs))" "distinct (map fst (sort_key fst gs))"
    using d assms(4) by (simp_all add: distinct_map)
  ultimately have "sort_key fst fs = sort_key fst gs"
    by (intro map_sorted_distinct_set_unique[where f = fst]) simp_all
  then show ?thesis using assms(1,2) by (simp add: artifact_contents_def)
qed

section \<open>Round trip\<close>

text \<open>A package whose archive the limits admit.\<close>

definition uploadable :: "(string \<Rightarrow> string) \<Rightarrow> limits \<Rightarrow> tree \<Rightarrow> bool" where
  "uploadable lower l source = (let xs = component_paths [] source in
     archive_names source \<and> int (length xs) \<le> lm_entries l
     \<and> int (\<Sum>x \<leftarrow> xs. node_bytes (snd x)) \<le> sint (lm_expanded_bytes l)
     \<and> list_all (\<lambda>x. length (slashed (fst x)) < 4096) xs \<and> distinct (map (\<lambda>x. lower (slashed (fst x))) xs))"

lemma insort_key_map: "insort_key f (g x) (map g ys) = map g (insort_key (\<lambda>y. f (g y)) x ys)"
  by (induction ys) auto

lemma sort_key_map: "sort_key f (map g xs) = map g (sort_key (\<lambda>x. f (g x)) xs)"
  by (induction xs) (simp_all add: insort_key_map)

lemma sort_sum: "(\<Sum>x \<leftarrow> sort_key f xs. g x) = (\<Sum>x \<leftarrow> xs. (g x :: 'b :: comm_monoid_add))"
  by (metis mset_map mset_sort sum_mset_sum_list)

lemma package_parents_first:
  assumes "archive_names source" "distinct (map (\<lambda>x. lower (slashed (fst x))) (component_paths [] source))"
  shows "parents_first [] (sort_key (\<lambda>x. slashed (fst x)) (component_paths [] source))"
proof -
  let ?xs = "component_paths [] source"
  let ?ys = "sort_key (\<lambda>x. slashed (fst x)) ?xs"
  have "distinct (map fst ?xs)" using assms(2) by (auto simp: distinct_map inj_on_def)
  then have "distinct (map fst ?ys)" by (metis distinct_map distinct_sort set_sort)
  moreover have "\<exists>es. (q, ArtifactDir es) \<in> set ?ys" if "(ts, n) \<in> set ?ys" "strict_prefix q ts" "q \<noteq> []" for ts n q
    using component_paths_parents[of ts n "[]" source q] that by (auto simp: strict_prefix_def)
  moreover have "list_all plain ts" if "(ts, n) \<in> set ?ys" for ts n
    using component_paths_names[of ts n "[]" source] that assms(1) archive_name_plain by simp
  ultimately show ?thesis using sorted_parents_first[of "[]" ?ys] by simp
qed

lemma written_entries:
  assumes "WriteArchive sha256 encode dir_mode source = Inr (digest, bytes)" "archive_names source"
  obtains es where "encode es = Some bytes" "digest = hex_encode (sha256 bytes)"
    "mapR (archive_entry dir_mode) (map with_text (sort_key (\<lambda>x. slashed (fst x)) (component_paths [] source))) = Inr es"
proof -
  from assms(1) obtain ps es where p: "archive_paths [] source = Inr ps"
      "mapR (archive_entry dir_mode) (sort_key fst ps) = Inr es" "encode es = Some bytes" "digest = hex_encode (sha256 bytes)"
    by (auto simp: WriteArchive_def result_simps split: option.splits)
  have "ps = map with_text (component_paths [] source)"
    using archive_paths_components[of "[]" source ps] p(1) assms(2) by simp
  with p that show thesis by (simp add: sort_key_map)
qed

lemma files_paths: "map fst (concat (map (node_files f) xs)) = map (\<lambda>x. slashed (fst x)) (filter (\<lambda>x. \<exists>m c. snd x = ArtifactFile m c) xs)"
  by (induction xs) (auto simp: node_files_def split: artifact_entry.splits)

lemma package_extracts:
  assumes "WriteArchive sha256 encode dir_mode source = Inr (digest, bytes)"
    and "\<forall>es. encode es = Some bytes \<longrightarrow> decode bytes = Some (es, True)"
    and "uploadable lower l source"
    and "copyDirectory (\<lambda>m. umask (entry_mode (of_nat m))) source = Inr copied"
  shows "\<exists>t. Extract lower umask decode l bytes [] = (None, t) \<and> artifact_contents t = artifact_contents copied
    \<and> DigestDirectory sha256 t = DigestDirectory sha256 copied"
proof -
  let ?xs = "component_paths [] source" and ?f = "extracted_mode umask"
  let ?ys = "sort_key (\<lambda>x. slashed (fst x)) ?xs" and ?s = "\<lparr>ex_seen = [], ex_expanded = 0, ex_entries = 0, ex_tree = []\<rparr>"
  have u: "archive_names source" "int (length ?xs) \<le> lm_entries l"
      "int (\<Sum>x \<leftarrow> ?xs. node_bytes (snd x)) \<le> sint (lm_expanded_bytes l)"
      "list_all (\<lambda>x. length (slashed (fst x)) < 4096) ?xs" "distinct (map (\<lambda>x. lower (slashed (fst x))) ?xs)"
    using assms(3) by (simp_all add: uploadable_def Let_def)
  obtain es where es: "encode es = Some bytes" "mapR (archive_entry dir_mode) (map with_text ?ys) = Inr es"
    using written_entries[OF assms(1) u(1)] .
  have names: "list_all archive_name ts \<and> ts \<noteq> [] \<and> length (slashed ts) < 4096" if "(ts, n) \<in> set ?ys" for ts n
    using that component_paths_names[of ts n "[]" source] component_paths_prefix[of ts n "[]" source] u(1,4)
    by (auto simp: list_all_iff)
  have "\<exists>s'. extract_entries lower umask l es ?s = (None, s') \<and> extracts_to lower umask ?ys ?s s'
      \<and> (\<forall>q. kind_at (ex_tree s') q = kinds_of (rev ?ys @ []) q)"
  proof (rule extract_all[OF es(2) package_parents_first[OF u(1,5)] _ names])
    show "distinct (map (\<lambda>x. lower (slashed (fst x))) ?ys)" using u(5) by (metis distinct_map distinct_sort set_sort)
  qed (use u(2,3) in \<open>simp_all add: kinds_of_def sort_sum word_sle_eq\<close>)
  then obtain s' where s': "extract_entries lower umask l es ?s = (None, s')" "extracts_to lower umask ?ys ?s s'"
      "\<And>q. kind_at (ex_tree s') q = kinds_of (rev ?ys) q" by auto
  let ?t = "ex_tree s'"
  have ext: "Extract lower umask decode l bytes [] = (None, ?t)" using s'(1) es(1) assms(2) by (simp add: Extract_def)
  note c = copy_files[of ?f "[]" source copied] copy_names[of ?f "[]" source copied]
  have copied: "tree_files [] copied = concat (map (node_files ?f) ?xs)" "only_files copied"
    using c(1) assms(4) u(1) by (simp_all add: copyDirectory_def)
  have top: "\<exists>n. (c, n) \<in> set source" if "c \<in> fst ` set ?t" for c
  proof -
    have "kind_at ?t [c] \<noteq> None" using that by (auto simp: map_of_eq_None_iff split: option.splits artifact_entry.splits)
    then obtain z where "map_of (rev ?ys) [c] = Some z" unfolding s'(3) by (auto simp: kinds_of_def)
    from map_of_SomeD[OF this] have "\<exists>n. ([c], n) \<in> set ?xs" by auto
    then show ?thesis using component_paths_top by blast
  qed
  have meta: "(MetadataDirectory, n) \<notin> set source" for n using copy_no_metadata assms(4) by (simp add: copyDirectory_def)
  have nonempty: "([], n) \<notin> set source" for n using archive_names_top[OF u(1), of "[]" n] by (auto simp: archive_name_def plain_def)
  have "digest_entries [] ?t = Inr (tree_files [] ?t)"
    by (rule digest_top) (use s'(2) top meta nonempty in \<open>auto simp: extracts_to_def\<close>)
  moreover have "digest_entries [] copied = Inr (tree_files [] copied)"
  proof (rule digest_top)
    have "(x, n) \<in> set copied \<Longrightarrow> x \<noteq> [] \<and> x \<noteq> MetadataDirectory" for x n
      using c(2)[of x n] assms(4) nonempty unfolding copyDirectory_def by metis
    then show "[] \<notin> fst ` set copied" "MetadataDirectory \<notin> fst ` set copied" by fastforce+
  qed (rule copied(2))
  moreover have "mset (tree_files [] ?t) = mset (tree_files [] copied)"
    using s'(2) copied(1) by (simp add: extracts_to_def mset_concat sort_sum comp_def)
  moreover have "distinct (map fst (tree_files [] copied))"
    unfolding copied(1) files_paths using u(5) by (auto simp: distinct_map inj_on_def intro: distinct_filter)
  ultimately have "artifact_contents ?t = artifact_contents copied" using contents_same by blast
  then show ?thesis using ext by (simp add: DigestDirectory_def)
qed


definition sample_package :: tree where
  "sample_package = [(''main.py'', ArtifactFile 493 (Some ''run'')), (''lib'', ArtifactDir [(''a.py'', ArtifactFile 384 (Some ''x''))]),
     (''target'', ArtifactDir [(''big'', ArtifactFile 420 (Some ''junk''))])]"

definition sample_entries :: "tar_entry list" where
  "sample_entries =
     [(\<lparr>th_name = ''lib/'', th_typeflag = TypeDir, th_size = 0, th_mode = 488\<rparr>, []),
      (\<lparr>th_name = ''lib/a.py'', th_typeflag = TypeReg, th_size = 1, th_mode = 384\<rparr>, ''x''),
      (\<lparr>th_name = ''main.py'', th_typeflag = TypeReg, th_size = 3, th_mode = 493\<rparr>, ''run'')]"

definition sample_encode :: "tar_entry list \<Rightarrow> string option" where
  "sample_encode es = (if es = sample_entries then Some ''tgz'' else None)"

definition sample_limits :: limits where
  "sample_limits = \<lparr>lm_compressed_bytes = 16, lm_expanded_bytes = 64, lm_entries = 4\<rparr>"

lemma sample_written: "WriteArchive (\<lambda>s. s) sample_encode (\<lambda>_. 488) sample_package = Inr (''74677a'', ''tgz'')"
  by code_simp


end
