(* ===== verification/Intake.thy ===== *)
theory Intake
  imports ArchiveRoundTrip
begin

text \<open>
  The acceptance of an uploaded package (\<open>service/deployment_intake.go\<close>): the upload is received and
  compared with the digest the client announced, extracted, identified by the digest of its content
  and recorded as a deployment under the client's idempotency key. The directory of package sources
  is a function from paths to directories; the store reads the sources it has no digest for from it.
\<close>

datatype intake_error = ErrInvalidIdempotencyKey | ErrInvalidDeploymentDigest | ErrDeploymentDigestMismatch
  | IntakeArchive archive_error | IntakeContents provenance_error | IntakeRename | IntakeStore store_error

section \<open>Keys and digests\<close>

text \<open>\<open>unicode.IsControl\<close> on UTF-8: the ASCII controls, and U+0080 to U+009F.\<close>

fun has_control :: "string \<Rightarrow> bool" where
  "has_control [] = False"
| "has_control (c # s) =
     (code c < 32 \<or> code c = 127 \<or> code c = 194 \<and> (case s of [] \<Rightarrow> False | b # _ \<Rightarrow> 128 \<le> code b \<and> code b < 160)
      \<or> has_control s)"

definition validIdempotencyKey :: "string \<Rightarrow> bool" where
  "validIdempotencyKey value = (\<not> (value = [] \<or> length value > 255) \<and> \<not> has_control value)"

definition ValidateIdempotencyKey :: "string \<Rightarrow> intake_error + unit" where
  "ValidateIdempotencyKey value = guardR (\<not> validIdempotencyKey (TrimSpace value)) ErrInvalidIdempotencyKey (Inr ())"

definition NewDeploymentID :: "ambient \<Rightarrow> string" where
  "NewDeploymentID amb = newID amb 0 ''dep''"

section \<open>Acceptance\<close>

text \<open>What the deployment service is configured with, and the code it is built on.\<close>

record intake =
  in_limits :: limits
  in_sha256 :: "string \<Rightarrow> string"
  in_lower :: "string \<Rightarrow> string"
  in_umask :: "nat \<Rightarrow> nat"
  in_decode :: archive_decoder

definition of_archive :: "archive_error + 'a \<Rightarrow> intake_error + 'a" where
  "of_archive r = (case r of Inl e \<Rightarrow> Inl (IntakeArchive e) | Inr x \<Rightarrow> Inr x)"

text \<open>
  The upload: the digest of the received bytes, the extracted tree and the digest of its content.
\<close>

definition receive_package :: "intake \<Rightarrow> string \<times> bool \<Rightarrow> string \<Rightarrow> intake_error + string \<times> tree \<times> string" where
  "receive_package c reader expectedDigest =
     bindR (of_archive (Receive (in_sha256 c) reader (lm_compressed_bytes (in_limits c)))) (\<lambda>(packageDigest, bytes).
     guardR (packageDigest \<noteq> expectedDigest) ErrDeploymentDigestMismatch
     (case Extract (in_lower c) (in_umask c) (in_decode c) (in_limits c) bytes [] of
        (Some e, _) \<Rightarrow> Inl (IntakeArchive e)
      | (None, tree) \<Rightarrow> (case DigestDirectory (in_sha256 c) tree of
            Inl e \<Rightarrow> Inl (IntakeContents e) | Inr contentDigest \<Rightarrow> Inr (packageDigest, tree, contentDigest))))"

definition sources_digest :: "intake \<Rightarrow> storage \<Rightarrow> string \<Rightarrow> string option" where
  "sources_digest c sources path = (case sources path of None \<Rightarrow> None
     | Some tree \<Rightarrow> (case DigestDirectory (in_sha256 c) tree of Inl _ \<Rightarrow> None | Inr digest \<Rightarrow> Some digest))"

definition source_location :: "ambient \<Rightarrow> string \<Rightarrow> string" where
  "source_location amb deploymentID = JoinPath (JoinPath (data_dir amb) ''deployment-sources'') deploymentID"

text \<open>
  The extracted directory is renamed to the place of the deployment before the deployment is
  recorded, and removed again unless a deployment was created.
\<close>

definition Accept :: "intake \<Rightarrow> ambient \<Rightarrow> string \<times> bool \<Rightarrow> string \<Rightarrow> string \<Rightarrow> string \<Rightarrow> storage \<Rightarrow> db
    \<Rightarrow> (intake_error + deployment_row \<times> bool) \<times> storage \<times> db" where
  "Accept c amb reader expected idempotencyKey actor sources d =
     (let key = TrimSpace idempotencyKey; expectedDigest = ToLower (TrimSpace expected) in
      if \<not> validIdempotencyKey key then (Inl ErrInvalidIdempotencyKey, sources, d)
      else if (case hex_decode expectedDigest of None \<Rightarrow> True | Some decoded \<Rightarrow> length decoded \<noteq> 32)
      then (Inl ErrInvalidDeploymentDigest, sources, d)
      else (case receive_package c reader expectedDigest of
              Inl e \<Rightarrow> (Inl e, sources, d)
            | Inr (packageDigest, tree, contentDigest) \<Rightarrow>
                (let deploymentID = NewDeploymentID amb; path = source_location amb deploymentID;
                     placed = sources(path := Some tree); removed = sources(path := None) in
                 if sources path \<noteq> None \<and> sources path \<noteq> Some [] then (Inl IntakeRename, sources, d)
                 else (case CreateDeployment (sources_digest c placed) amb deploymentID key packageDigest contentDigest path actor d of
                         (Inl e, d1) \<Rightarrow> (Inl (IntakeStore e), removed, d1)
                       | (Inr (x, created), d1) \<Rightarrow> (Inr (x, created), if created then placed else removed, d1)))))"

end
