(* ===== verification/IntakeProofs.thy ===== *)
theory IntakeProofs
  imports Intake ManifestProofs
begin

text \<open>
  The properties of the intake: what a created deployment records about the upload, what a refused
  upload leaves behind, and that uploading a package again under its key, in whatever archive, finds
  the deployment of the first upload.
\<close>

lemma of_archive_Inr [simp]: "of_archive r = Inr x \<longleftrightarrow> r = Inr x"
  by (auto simp: of_archive_def split: sum.splits)

lemma Receive_all:
  assumes "0 <s most" "sint most < 2 ^ 63 - 1" "int (length bytes) \<le> sint most"
  shows "Receive sha256 (bytes, True) most = Inr (hex_encode (sha256 bytes), bytes)"
proof -
  have n: "sint (most + 1) = sint most + 1"
  proof -
    have "signed_take_bit 63 (sint most + 1) = sint most + 1"
      by (rule signed_take_bit_int_eq_self) (use assms(1,2) in \<open>auto simp: word_sless_alt\<close>)
    then show ?thesis by (simp add: sint_word_ariths)
  qed
  have "take (nat (sint most + 1)) bytes = bytes" using assms(3) by simp
  moreover have "\<not> most \<le>s 0" using assms(1) by (simp add: word_sless_alt word_sle_eq)
  ultimately show ?thesis using assms(3) n by (simp add: Receive_def Let_def)
qed

lemma Receive_whole:
  assumes "Receive sha256 (bytes, True) most = Inr (digest, received)" "0 <s most" "sint most < 2 ^ 63 - 1"
  shows "received = bytes"
proof (cases "int (length bytes) \<le> sint most")
  case True
  with Receive_all[OF assms(2,3)] assms(1) show ?thesis by simp
next
  case False
  have "signed_take_bit 63 (sint most + 1) = sint most + 1"
    by (rule signed_take_bit_int_eq_self) (use assms(2,3) in \<open>auto simp: word_sless_alt\<close>)
  then have "sint (most + 1) = sint most + 1" by (simp add: sint_word_ariths)
  with False assms show ?thesis by (auto simp: Receive_def Let_def guardR_eq_Inr word_sless_alt)
qed

text \<open>With the largest limit the bound of the reader wraps around: every upload reads as empty.\<close>

lemma largest_limit_receives_nothing:
  "Receive sha256 (bytes, True) 9223372036854775807 = Inr (hex_encode (sha256 []), [])"
proof -
  have "sint ((9223372036854775807 :: int64) + 1) = - (2 ^ 63)" by code_simp
  moreover have "\<not> (9223372036854775807 :: int64) \<le>s 0" by code_simp
  moreover have "sint (9223372036854775807 :: int64) = 9223372036854775807" by code_simp
  ultimately show ?thesis by (simp add: Receive_def Let_def)
qed

lemma Receive_Inr:
  assumes "Receive sha256 (body, ended) most = Inr (digest, bytes)"
  shows "digest = hex_encode (sha256 bytes) \<and> int (length bytes) \<le> sint most \<and> (\<exists>n. bytes = take n body)"
  using assms by (auto simp: Receive_def Let_def guardR_eq_Inr)

text \<open>The package an upload carries.\<close>

definition received :: "intake \<Rightarrow> string \<Rightarrow> string \<Rightarrow> tree \<Rightarrow> string \<Rightarrow> bool" where
  "received c body packageDigest tree contentDigest =
     (\<exists>n. let bytes = take n body in packageDigest = hex_encode (in_sha256 c bytes)
        \<and> int (length bytes) \<le> sint (lm_compressed_bytes (in_limits c))
        \<and> Extract (in_lower c) (in_umask c) (in_decode c) (in_limits c) bytes [] = (None, tree)
        \<and> DigestDirectory (in_sha256 c) tree = Inr contentDigest)"

lemma receive_package_Inr:
  "receive_package c (body, ended) expected = Inr (packageDigest, tree, contentDigest) \<Longrightarrow>
    packageDigest = expected \<and> received c body packageDigest tree contentDigest"
proof -
  assume a: "receive_package c (body, ended) expected = Inr (packageDigest, tree, contentDigest)"
  then obtain dg bytes where r: "Receive (in_sha256 c) (body, ended) (lm_compressed_bytes (in_limits c)) = Inr (dg, bytes)"
    by (auto simp: receive_package_def bindR_eq_Inr)
  with a obtain "dg = expected" "packageDigest = dg" "Extract (in_lower c) (in_umask c) (in_decode c) (in_limits c) bytes [] = (None, tree)"
      "DigestDirectory (in_sha256 c) tree = Inr contentDigest"
    by (cases "Extract (in_lower c) (in_umask c) (in_decode c) (in_limits c) bytes []"; cases "fst (Extract (in_lower c) (in_umask c) (in_decode c) (in_limits c) bytes [])")
      (auto simp: receive_package_def of_archive_def guardR_eq_Inr split: sum.split_asm)
  with Receive_Inr[OF r] show ?thesis by (auto simp: received_def Let_def)
qed

lemma created_deployment:
  assumes "CreateDeployment dg amb i k pd cd src actor d = (Inr (x, True), d1)"
  shows "\<exists>loc. recorded_location amb src = Inr loc \<and> x = new_deployment amb i k pd cd loc actor None False
    \<and> d1 = d\<lparr>deployments := deployments d @ [x]\<rparr>"
proof -
  from assms obtain loc where
    l: "recorded_location amb src = Inr loc" and
    ins: "insert_deployment (new_deployment amb i k pd cd loc actor None False) d = Inr (1, d1)" and
    x: "deployment_by_key d1 k = Some x"
    by (auto simp: CreateDeployment_def getDeploymentByIdempotencyKey_def
        split: sum.splits prod.splits if_splits option.splits)
  let ?n = "new_deployment amb i k pd cd loc actor None False"
  from ins have d1: "\<not> conflicts dp_idempotency_key ?n (deployments d)" "d1 = d\<lparr>deployments := deployments d @ [?n]\<rparr>"
    by (auto simp: insert_deployment_def guardR_eq_Inr split: if_splits)
  have k: "dp_idempotency_key ?n = k" by (simp add: new_deployment_def)
  have "x = ?n"
    using x d1 k by (auto simp: deployment_by_key_def find_append conflicts_def split: option.splits dest!: find_eq_SomeD)
  with l d1 show ?thesis by blast
qed

lemma Accept_Inr:
  assumes "Accept c amb reader expected key actor sources d = (Inr (x, created), sources', d')"
  obtains pd tree cd where "validIdempotencyKey (TrimSpace key)"
    "receive_package c reader (ToLower (TrimSpace expected)) = Inr (pd, tree, cd)"
    "CreateDeployment (sources_digest c (sources(source_location amb (NewDeploymentID amb) := Some tree))) amb (NewDeploymentID amb)
       (TrimSpace key) pd cd (source_location amb (NewDeploymentID amb)) actor d = (Inr (x, created), d')"
    "sources' = sources(source_location amb (NewDeploymentID amb) := (if created then Some tree else None))"
  using assms by (auto simp: Accept_def Let_def split: if_splits sum.splits prod.splits)

section \<open>Properties\<close>

lemma Accept_refused_early:
  assumes "Accept c amb reader expected key actor sources d = (Inl e, sources', d')" "\<nexists>se. e = IntakeStore se"
  shows "d' = d \<and> sources' = sources"
  using assms by (auto simp: Accept_def Let_def split: if_splits sum.splits prod.splits)

text \<open>
  C13: An upload is accepted as a whole or leaves nothing behind. When a deployment is created, the
  sources kept for it are what the received bytes extract to within the limits: it records the
  digest of those bytes, which is the one the client announced, and the digest of the extracted
  content, waits in the queue, and no other sources change. In every other case the directory of
  sources is as before, and unless the store itself failed the database is too when the upload was refused.
\<close>

theorem upload_all_or_nothing:
  assumes "Accept c amb (body, ended) expected key actor sources d = (res, sources', d')"
    and "sources (source_location amb (NewDeploymentID amb)) = None"
  shows "case res of
      Inr (x, True) \<Rightarrow> (\<exists>tree. sources' = sources(source_location amb (dp_id x) := Some tree)
          \<and> received c body (dp_package_digest x) tree (dp_content_digest x))
        \<and> dp_package_digest x = ToLower (TrimSpace expected) \<and> dp_idempotency_key x = TrimSpace key
        \<and> dp_status x = DeploymentQueued \<and> d' = d\<lparr>deployments := deployments d @ [x]\<rparr>
    | Inr (x, False) \<Rightarrow> sources' = sources
    | Inl (IntakeStore e) \<Rightarrow> sources' = sources
    | Inl _ \<Rightarrow> sources' = sources \<and> d' = d"
proof (cases res)
  case (Inl e)
  show ?thesis
  proof (cases "\<exists>se. e = IntakeStore se")
    case True
    with assms Inl show ?thesis
      by (auto simp: Accept_def Let_def fun_upd_idem split: if_splits sum.splits prod.splits)
  next
    case False
    with Accept_refused_early assms(1) Inl show ?thesis by (cases e) auto
  qed
next
  case (Inr r)
  obtain x created where r: "r = (x, created)" by (cases r)
  from assms(1) Inr r have "Accept c amb (body, ended) expected key actor sources d = (Inr (x, created), sources', d')" by simp
  then obtain pd tree cd where a: "receive_package c (body, ended) (ToLower (TrimSpace expected)) = Inr (pd, tree, cd)"
    "CreateDeployment (sources_digest c (sources(source_location amb (NewDeploymentID amb) := Some tree))) amb (NewDeploymentID amb)
       (TrimSpace key) pd cd (source_location amb (NewDeploymentID amb)) actor d = (Inr (x, created), d')"
    "sources' = sources(source_location amb (NewDeploymentID amb) := (if created then Some tree else None))"
    by (rule Accept_Inr)
  show ?thesis
  proof (cases created)
    case True
    from created_deployment[of _ _ _ _ _ _ _ _ _ x d'] a(2) True
    have x: "dp_id x = NewDeploymentID amb" "dp_package_digest x = pd" "dp_content_digest x = cd"
      "dp_idempotency_key x = TrimSpace key" "dp_status x = DeploymentQueued" "d' = d\<lparr>deployments := deployments d @ [x]\<rparr>"
      by (fastforce simp: new_deployment_def)+
    with receive_package_Inr[OF a(1)] a(3) True Inr r show ?thesis by auto
  next
    case False
    with a(3) assms(2) Inr r show ?thesis by (simp add: fun_upd_idem)
  qed
qed

text \<open>
  C10: Uploading a package again is not a second deployment. When an upload created a deployment, an
  upload of the same package under the same key, however its archive was produced and compressed
  this time, returns that deployment, creates nothing and leaves the database and the sources as
  they were: the key promises that the package has not changed, not that its encoder has not.
\<close>

theorem repeated_upload_same_deployment:
  assumes "Accept c amb (bytes, True) expected key actor sources d = (Inr (x, True), sources1, d1)"
    and "WriteArchive sha256 encode dir_mode source = Inr (digest, bytes)"
    and "\<forall>es. encode es = Some bytes \<longrightarrow> in_decode c bytes = Some (es, True)"
    and "WriteArchive sha256' encode' dir_mode' source = Inr (digest', bytes')"
    and "\<forall>es. encode' es = Some bytes' \<longrightarrow> in_decode c bytes' = Some (es, True)"
    and "uploadable (in_lower c) (in_limits c) source"
    and "copyDirectory (\<lambda>m. in_umask c (entry_mode (of_nat m))) source = Inr copied"
    and "ToLower (TrimSpace expected') = hex_encode (in_sha256 c bytes')" and "length (in_sha256 c bytes') = 32"
    and "int (length bytes') \<le> sint (lm_compressed_bytes (in_limits c))"
    and "0 <s lm_compressed_bytes (in_limits c)" "sint (lm_compressed_bytes (in_limits c)) < 2 ^ 63 - 1"
    and "recorded_location amb' (source_location amb' (NewDeploymentID amb')) = Inr loc'"
    and "sources1 (source_location amb' (NewDeploymentID amb')) = None"
    and "TrimSpace key' = TrimSpace key"
  shows "Accept c amb' (bytes', True) expected' key' actor' sources1 d1 = (Inr (x, False), sources1, d1)"
proof -
  let ?ex = "Extract (in_lower c) (in_umask c) (in_decode c) (in_limits c)"
  obtain pd tree cd where a: "validIdempotencyKey (TrimSpace key)"
    "receive_package c (bytes, True) (ToLower (TrimSpace expected)) = Inr (pd, tree, cd)"
    "CreateDeployment (sources_digest c (sources(source_location amb (NewDeploymentID amb) := Some tree))) amb (NewDeploymentID amb)
       (TrimSpace key) pd cd (source_location amb (NewDeploymentID amb)) actor d = (Inr (x, True), d1)"
    using Accept_Inr[OF assms(1)] by metis
  obtain t t' where t: "?ex bytes [] = (None, t)" "artifact_contents t = artifact_contents copied"
      "?ex bytes' [] = (None, t')" "artifact_contents t' = artifact_contents copied"
    using package_extracts[where umask = "in_umask c" and decode = "in_decode c", OF assms(2,3,6,7)] package_extracts[where umask = "in_umask c" and decode = "in_decode c", OF assms(4,5,6,7)]
    by blast
  note small = assms(11,12)
  obtain dg b where "Receive (in_sha256 c) (bytes, True) (lm_compressed_bytes (in_limits c)) = Inr (dg, b)"
    using a(2) by (auto simp: receive_package_def bindR_eq_Inr)
  from this Receive_whole[OF this small] a(2) t(1) have cd: "DigestDirectory (in_sha256 c) t = Inr cd"
    by (auto simp: receive_package_def of_archive_def guardR_eq_Inr split: sum.split_asm)
  then have "cd \<noteq> []" by (auto simp: DigestDirectory_def bindR_eq_Inr)
  from cd t(2,4) have "DigestDirectory (in_sha256 c) t' = Inr cd" by (simp add: DigestDirectory_def)
  then have r: "receive_package c (bytes', True) (hex_encode (in_sha256 c bytes')) = Inr (hex_encode (in_sha256 c bytes'), t', cd)"
    using Receive_all[OF small assms(10)] t(3) by (simp add: receive_package_def of_archive_def)
  show ?thesis
    using a(1) r assms(8,9,14,15) deployment_key_idempotent[OF a(3) \<open>cd \<noteq> []\<close> assms(13)]
    by (simp add: Accept_def Let_def fun_upd_idem)
qed

section \<open>A sample upload\<close>

definition sample_digest :: "string \<Rightarrow> string" where
  "sample_digest s = take 32 (s @ replicate 32 (CHR ''0''))"

definition sample_intake :: intake where
  "sample_intake = \<lparr>in_limits = sample_limits, in_sha256 = sample_digest, in_lower = ToLower, in_umask = (\<lambda>m. m),
     in_decode = (\<lambda>_. Some (sample_entries, True))\<rparr>"

definition sample_encoder :: "string \<Rightarrow> tar_entry list \<Rightarrow> string option" where
  "sample_encoder bytes es = (if es = sample_entries then Some bytes else None)"

lemma sample_archives:
  "WriteArchive (\<lambda>s. s) (sample_encoder ''1'') (\<lambda>_. 488) sample_package = Inr (''31'', ''1'')"
  "WriteArchive (\<lambda>s. s) (sample_encoder ''22'') (\<lambda>_. 488) sample_package = Inr (''3232'', ''22'')"
  by code_simp+

lemma sample_hashes:
  "hex_encode (sample_digest ''1'') = ''31'' @ concat (replicate 31 ''30'')"
  "hex_encode (sample_digest ''22'') = ''3232'' @ concat (replicate 30 ''30'')"
  by code_simp+

lemma sample_expected:
  "ToLower (TrimSpace (hex_encode (sample_digest ''1''))) = hex_encode (sample_digest ''1'')"
  "ToLower (TrimSpace (hex_encode (sample_digest ''22''))) = hex_encode (sample_digest ''22'')"
proof -
  have "TrimSpace (hex_encode (sample_digest ''1'')) = hex_encode (sample_digest ''1'')"
    "TrimSpace (hex_encode (sample_digest ''22'')) = hex_encode (sample_digest ''22'')"
    unfolding sample_hashes by (rule TrimSpace_digits; code_simp)+
  then show "ToLower (TrimSpace (hex_encode (sample_digest ''1''))) = hex_encode (sample_digest ''1'')"
    "ToLower (TrimSpace (hex_encode (sample_digest ''22''))) = hex_encode (sample_digest ''22'')"
    unfolding sample_hashes by (simp_all only:) code_simp+
qed

abbreviation sample_tree :: tree where
  "sample_tree \<equiv> [(''lib'', ArtifactDir [(''a.py'', ArtifactFile 416 (Some ''x''))]), (''main.py'', ArtifactFile 488 (Some ''run''))]"

definition sample_content :: string where
  "sample_content = ''sha256:'' @ hex_encode (sample_digest (digest_chunk (''lib/a.py'', 416, ''x'') @ digest_chunk (''main.py'', 488, ''run'')))"

abbreviation sample_state :: "string list \<Rightarrow> int64 \<Rightarrow> nat \<Rightarrow> tree \<Rightarrow> extraction" where
  "sample_state seen n k t \<equiv> \<lparr>ex_seen = seen, ex_expanded = n, ex_entries = k, ex_tree = t\<rparr>"

lemma sample_names:
  "safeArchivePath ''lib/'' = Some ''lib''" "safeArchivePath ''lib/a.py'' = Some ''lib/a.py''" "safeArchivePath ''main.py'' = Some ''main.py''"
  "ToLower ''lib'' = ''lib''" "ToLower ''lib/a.py'' = ''lib/a.py''" "ToLower ''main.py'' = ''main.py''"
  "Split ''lib'' slash = [''lib'']" "Split ''lib/a.py'' slash = [''lib'', ''a.py'']" "Split ''main.py'' slash = [''main.py'']"
  "entry_mode 384 = 416" "entry_mode 493 = 488"
  by code_simp+

lemma sample_steps:
  "extract_entry ToLower (\<lambda>m. m) sample_limits (hd sample_entries) (sample_state [] 0 0 [])
    = (None, sample_state [''lib''] 0 1 [(''lib'', ArtifactDir [])])"
  "extract_entry ToLower (\<lambda>m. m) sample_limits (sample_entries ! 1) (sample_state [''lib''] 0 1 [(''lib'', ArtifactDir [])])
    = (None, sample_state [''lib/a.py'', ''lib''] 1 2 [(''lib'', ArtifactDir [(''a.py'', ArtifactFile 416 (Some ''x''))])])"
  "extract_entry ToLower (\<lambda>m. m) sample_limits (sample_entries ! 2)
      (sample_state [''lib/a.py'', ''lib''] 1 2 [(''lib'', ArtifactDir [(''a.py'', ArtifactFile 416 (Some ''x''))])])
    = (None, sample_state [''main.py'', ''lib/a.py'', ''lib''] 4 3 sample_tree)"
  by (simp_all add: extract_entry_def extract_file_def sample_entries_def sample_limits_def sample_names word_sless_alt)

lemma sample_extracted: "Extract ToLower (\<lambda>m. m) (\<lambda>_. Some (sample_entries, True)) sample_limits b [] = (None, sample_tree)"
proof -
  obtain x y z where e: "sample_entries = [x, y, z]" by (simp add: sample_entries_def)
  show ?thesis unfolding Extract_def e using sample_steps[unfolded e] by simp
qed

lemma sample_digested: "DigestDirectory sample_digest sample_tree = Inr sample_content"
proof -
  have "artifact_contents sample_tree = Inr [(''lib/a.py'', 416, ''x''), (''main.py'', 488, ''run'')]" by code_simp
  then show ?thesis by (simp add: DigestDirectory_def sample_content_def)
qed

lemma sample_limit: "0 <s lm_compressed_bytes sample_limits" "sint (lm_compressed_bytes sample_limits) = 16" by code_simp+

lemma sample_received:
  "receive_package sample_intake (''1'', True) (hex_encode (sample_digest ''1'')) = Inr (hex_encode (sample_digest ''1''), sample_tree, sample_content)"
  using Receive_all[OF sample_limit(1), of "''1''" sample_digest] sample_limit(2)
  by (simp add: receive_package_def of_archive_def sample_intake_def sample_extracted sample_digested)

definition sample_upload :: "(intake_error + deployment_row \<times> bool) \<times> storage \<times> db" where
  "sample_upload = Accept sample_intake (sample_ambient 5 hour) (''1'', True) (hex_encode (sample_digest ''1'')) ''key-1'' ''alice''
     (\<lambda>_. None) sample_db"

definition uploaded :: deployment_row where
  "uploaded = new_deployment (sample_ambient 5 hour) (NewDeploymentID (sample_ambient 5 hour)) ''key-1''
     (hex_encode (sample_digest ''1'')) sample_content
     (projr (recorded_location (sample_ambient 5 hour) (source_location (sample_ambient 5 hour) (NewDeploymentID (sample_ambient 5 hour)))))
     ''alice'' None False"

lemma trim_key: "TrimSpace ''key-1'' = ''key-1''" by code_simp
lemma valid_key: "validIdempotencyKey ''key-1''" by code_simp
lemma sample_places:
  "is_ok (recorded_location (sample_ambient 5 hour) (source_location (sample_ambient 5 hour) (NewDeploymentID (sample_ambient 5 hour))))"
  "is_ok (recorded_location (sample_ambient 6 hour) (source_location (sample_ambient 6 hour) (NewDeploymentID (sample_ambient 6 hour))))"
  "source_location (sample_ambient 6 hour) (NewDeploymentID (sample_ambient 6 hour)) \<noteq> source_location (sample_ambient 5 hour) (NewDeploymentID (sample_ambient 5 hour))"
  by code_simp+

lemma sample_created_upload:
  "CreateDeployment dg (sample_ambient 5 hour) (NewDeploymentID (sample_ambient 5 hour)) ''key-1'' (hex_encode (sample_digest ''1'')) sample_content
     (source_location (sample_ambient 5 hour) (NewDeploymentID (sample_ambient 5 hour))) ''alice'' sample_db
   = (Inr (uploaded, True), sample_db\<lparr>deployments := [uploaded]\<rparr>)"
proof -
  have "deployments sample_db = []" by code_simp
  with sample_places(1) show ?thesis
    by (auto simp: CreateDeployment_def uploaded_def insert_deployment_def conflicts_def is_ok_iff
        getDeploymentByIdempotencyKey_def deployment_by_key_def new_deployment_def)
qed

lemma sample_uploaded:
  "sample_upload = (Inr (uploaded, True), (\<lambda>_. None)(source_location (sample_ambient 5 hour) (NewDeploymentID (sample_ambient 5 hour)) := Some sample_tree),
     sample_db\<lparr>deployments := [uploaded]\<rparr>)"
proof -
  let ?h = "hex_encode (sample_digest ''1'')"
  have "hex_decode ?h = Some (sample_digest ''1'')" by (rule hex_decode_encode)
  moreover have "length (sample_digest ''1'') = 32" by code_simp
  ultimately show ?thesis
    unfolding sample_upload_def Accept_def Let_def trim_key sample_expected(1) sample_received
    using valid_key by (simp del: hex_encode.simps add: sample_created_upload)
qed

lemma sample_copied: "copyDirectory (\<lambda>m. in_umask sample_intake (entry_mode (of_nat m))) sample_package
    = Inr [(''main.py'', ArtifactFile 488 (Some ''run'')), (''lib'', ArtifactDir [(''a.py'', ArtifactFile 416 (Some ''x''))])]"
  by code_simp

lemma sample_accepts:
  "Accept sample_intake (sample_ambient 5 hour) (''1'', True) (hex_encode (sample_digest ''1'')) ''key-1'' ''alice'' (\<lambda>_. None) sample_db
   = (Inr (uploaded, True), (\<lambda>_. None)(source_location (sample_ambient 5 hour) (NewDeploymentID (sample_ambient 5 hour)) := Some sample_tree),
     sample_db\<lparr>deployments := [uploaded]\<rparr>)"
  using sample_uploaded by (simp add: sample_upload_def)

theorem upload_all_or_nothing_witness:
  "\<exists>tree. received sample_intake ''1'' (dp_package_digest uploaded) tree (dp_content_digest uploaded)
    \<and> dp_status uploaded = DeploymentQueued"
  using upload_all_or_nothing[OF sample_accepts refl] by auto

lemma sample_fields: "in_sha256 sample_intake = sample_digest" "in_lower sample_intake = ToLower" "in_limits sample_intake = sample_limits"
  "in_decode sample_intake b = Some (sample_entries, True)"
  by (simp_all add: sample_intake_def)

theorem repeated_upload_same_deployment_witness:
  "Accept sample_intake (sample_ambient 6 hour) (''22'', True) (hex_encode (sample_digest ''22'')) ''key-1'' ''bob''
     (\<lambda>p. if p = source_location (sample_ambient 5 hour) (NewDeploymentID (sample_ambient 5 hour)) then Some sample_tree else None)
     (sample_db\<lparr>deployments := [uploaded]\<rparr>)
   = (Inr (uploaded, False), \<lambda>p. if p = source_location (sample_ambient 5 hour) (NewDeploymentID (sample_ambient 5 hour)) then Some sample_tree else None,
     sample_db\<lparr>deployments := [uploaded]\<rparr>)"
proof -
  obtain loc where loc: "recorded_location (sample_ambient 6 hour)
      (source_location (sample_ambient 6 hour) (NewDeploymentID (sample_ambient 6 hour))) = Inr loc"
    using sample_places(2) by (auto simp: is_ok_iff)
  have up: "uploadable (in_lower sample_intake) (in_limits sample_intake) sample_package"
    unfolding sample_fields by code_simp
  have len: "length (in_sha256 sample_intake ''22'') = 32" by code_simp
  have dec: "\<forall>es. sample_encoder b es = Some b \<longrightarrow> in_decode sample_intake b = Some (es, True)" for b
    by (simp add: sample_encoder_def sample_fields)
  show ?thesis
    using repeated_upload_same_deployment[OF sample_accepts sample_archives(1) dec sample_archives(2) dec up sample_copied _ len _ _ _ loc _ refl,
        of "hex_encode (sample_digest ''22'')" "''bob''"] sample_expected(2) sample_limit sample_places(3)
    unfolding sample_fields by (simp add: fun_upd_def)
qed

end
