(* ===== verification/Messages.thy ===== *)
theory Messages
  imports Notifications Investigation Manifest Encodings
begin

text \<open>
  What a notification says and where it goes: the configuration of destinations and routes with its
  validation (\<open>notification/config.go\<close>) and the message of an event (\<open>notification/message.go\<close>).
  \<open>url.Parse\<close>, the query of a URL (\<open>with_query\<close>) and the strict JSON decoder of the configuration are
  arguments.
\<close>

section \<open>Destinations\<close>

record destination =
  de_id :: string
  de_provider :: string
  de_server :: string
  de_topic :: string
  de_token_secret :: string
  de_basic_secret :: string
  de_bot_token_secret :: string
  de_chat_id :: string
  de_access_token_secret :: string
  de_device_id :: string
  de_channel_tag :: string
  de_app_token_secret :: string
  de_user_key_secret :: string
  de_device :: string
  de_sound :: string
  de_url :: string
  de_signing_secret :: string
  de_authorization_secret :: string

record route =
  ro_events :: "string list"
  ro_automations :: "string list"
  ro_destinations :: "string list"

record notification_config =
  nc_destinations :: "destination list"
  nc_routes :: "route list"

record parsed_url = url_parts +
  u_hostname :: string
  u_raw_query :: string
  u_fragment :: string

type_synonym url_parser = "string \<Rightarrow> parsed_url option"

text \<open>The verb \<open>%q\<close>; every rune outside ASCII is taken as printable.\<close>

definition quoted :: "string \<Rightarrow> string" where
  "quoted s = [CHR 0x22] @ quote_inner (\<lambda>_. True) s @ [CHR 0x22]"

text \<open>A configuration is refused with a text, or its validation panics.\<close>

datatype config_error = ConfigText string | ConfigPanic

definition supportedEvents :: "string list" where
  "supportedEvents = [''notification.test'', ''automation.notification'', ''approval.requested'', ''approval.expiring'',
     ''approval.resolved'', ''run.failed'']"

definition destinationIDPattern :: "string \<Rightarrow> bool" where
  "destinationIDPattern s = (case s of [] \<Rightarrow> False
     | c # cs \<Rightarrow> is_alnum c \<and> length cs \<le> 63 \<and> list_all (\<lambda>x. is_alnum x \<or> x \<in> set ''._-'') cs)"

definition destination_fields :: "destination \<Rightarrow> (string \<times> string) list" where
  "destination_fields d =
     [(''server'', de_server d), (''topic'', de_topic d), (''tokenSecret'', de_token_secret d),
      (''basicSecret'', de_basic_secret d), (''botTokenSecret'', de_bot_token_secret d),
      (''chatId'', de_chat_id d), (''accessTokenSecret'', de_access_token_secret d),
      (''deviceId'', de_device_id d), (''channelTag'', de_channel_tag d), (''url'', de_url d),
      (''appTokenSecret'', de_app_token_secret d), (''userKeySecret'', de_user_key_secret d),
      (''device'', de_device d), (''sound'', de_sound d),
      (''signingSecret'', de_signing_secret d), (''authorizationSecret'', de_authorization_secret d)]"

definition unexpectedField :: "destination \<Rightarrow> string list \<Rightarrow> string" where
  "unexpectedField d allowed =
     (case find (\<lambda>(name, v). v \<noteq> [] \<and> name \<notin> set allowed) (destination_fields d) of None \<Rightarrow> [] | Some (name, _) \<Rightarrow> name)"

section \<open>Endpoints\<close>

definition IsLoopback :: "nat list \<Rightarrow> bool" where
  "IsLoopback ip = (case To4 ip of Some v4 \<Rightarrow> hd v4 = 127 | None \<Rightarrow> ip = replicate 15 0 @ [1])"

definition IsPrivate :: "nat list \<Rightarrow> bool" where
  "IsPrivate ip = (case To4 ip of
     Some v4 \<Rightarrow> hd v4 = 10 \<or> hd v4 = 172 \<and> v4 ! 1 div 16 = 1 \<or> hd v4 = 192 \<and> v4 ! 1 = 168
   | None \<Rightarrow> length ip = 16 \<and> hd ip div 2 = 126)"

definition privateHTTPHost :: "string \<Rightarrow> bool" where
  "privateHTTPHost h =
     (let host = TrimSuffix (ToLower h) ''.'' in
      host = ''localhost'' \<or> CHR ''.'' \<notin> set host \<or> HasSuffix host ''.local'' \<or> HasSuffix host ''.lan''
      \<or> HasSuffix host ''.internal''
      \<or> (case ParseIP host of None \<Rightarrow> False | Some ip \<Rightarrow> IsLoopback ip \<or> IsPrivate ip))"

definition validateEndpointURL :: "url_parser \<Rightarrow> string \<Rightarrow> config_error + unit" where
  "validateEndpointURL parse raw = (case parse (TrimSpace raw) of
     None \<Rightarrow> Inl (ConfigText ''must be an absolute HTTP(S) URL'')
   | Some u \<Rightarrow>
       guardR (u_host u = [] \<or> u_scheme u \<noteq> ''https'' \<and> u_scheme u \<noteq> ''http'')
         (ConfigText ''must be an absolute HTTP(S) URL'')
       (guardR (u_has_user u) (ConfigText ''must not contain credentials'')
       (guardR (u_scheme u = ''http'' \<and> \<not> privateHTTPHost (u_hostname u))
         (ConfigText ''plain HTTP is allowed only for local or private-network destinations'') (Inr ()))))"

text \<open>
  The base URL is parsed a second time as it was written, without trimming it; where only the
  trimmed text is a URL the second result is nil and reading its query panics.
\<close>

definition validateBaseURL :: "url_parser \<Rightarrow> string \<Rightarrow> config_error + unit" where
  "validateBaseURL parse raw =
     bindR (validateEndpointURL parse raw) (\<lambda>_. case parse raw of
       None \<Rightarrow> Inl ConfigPanic
     | Some u \<Rightarrow> guardR (u_raw_query u \<noteq> [] \<or> u_fragment u \<noteq> [])
         (ConfigText ''must not include a query or fragment'') (Inr ()))"

section \<open>Validation\<close>

definition field_prefix :: "string \<Rightarrow> config_error + unit \<Rightarrow> config_error + unit" where
  "field_prefix p r = (case r of Inl (ConfigText e) \<Rightarrow> Inl (ConfigText (p @ e)) | _ \<Rightarrow> r)"

definition only_fields :: "destination \<Rightarrow> string \<Rightarrow> string list \<Rightarrow> config_error + unit \<Rightarrow> config_error + unit" where
  "only_fields d provider allowed k =
     (let field = unexpectedField d allowed in
      guardR (field \<noteq> []) (ConfigText (''field '' @ field @ '' is not valid for '' @ provider)) k)"

abbreviation blank :: "string \<Rightarrow> bool" where "blank s \<equiv> TrimSpace s = []"

definition destination_validate :: "url_parser \<Rightarrow> destination \<Rightarrow> config_error + unit" where
  "destination_validate parse d =
     (if de_provider d = ''ntfy'' then
        only_fields d ''ntfy'' [''server'', ''topic'', ''tokenSecret'', ''basicSecret'']
        (bindR (field_prefix ''server: '' (validateBaseURL parse (de_server d))) (\<lambda>_.
         guardR (blank (de_topic d) \<or> ContainsAny (de_topic d) ''/?#'') (ConfigText ''topic must be one non-empty path segment'')
         (guardR (de_token_secret d \<noteq> [] \<and> de_basic_secret d \<noteq> [])
           (ConfigText ''tokenSecret and basicSecret are mutually exclusive'') (Inr ()))))
      else if de_provider d = ''telegram'' then
        only_fields d ''telegram'' [''server'', ''botTokenSecret'', ''chatId'']
        (guardR (blank (de_bot_token_secret d) \<or> blank (de_chat_id d)) (ConfigText ''botTokenSecret and chatId are required'')
        (if de_server d \<noteq> [] then field_prefix ''server: '' (validateBaseURL parse (de_server d)) else Inr ()))
      else if de_provider d = ''pushbullet'' then
        only_fields d ''pushbullet'' [''accessTokenSecret'', ''deviceId'', ''channelTag'']
        (guardR (blank (de_access_token_secret d)) (ConfigText ''accessTokenSecret is required'')
        (guardR (de_device_id d \<noteq> [] \<and> de_channel_tag d \<noteq> [])
          (ConfigText ''deviceId and channelTag are mutually exclusive'') (Inr ())))
      else if de_provider d = ''pushover'' then
        only_fields d ''pushover'' [''server'', ''appTokenSecret'', ''userKeySecret'', ''device'', ''sound'']
        (guardR (blank (de_app_token_secret d) \<or> blank (de_user_key_secret d))
          (ConfigText ''appTokenSecret and userKeySecret are required'')
        (if de_server d \<noteq> [] then field_prefix ''server: '' (validateBaseURL parse (de_server d)) else Inr ()))
      else if de_provider d = ''webhook'' then
        only_fields d ''webhook'' [''url'', ''signingSecret'', ''authorizationSecret'']
        (field_prefix ''url: '' (validateEndpointURL parse (de_url d)))
      else Inl (ConfigText (''provider '' @ quoted (de_provider d) @ '' is not supported'')))"

definition validate_destination :: "url_parser \<Rightarrow> destination \<Rightarrow> string list \<Rightarrow> config_error + string list" where
  "validate_destination parse d seen =
     guardR (\<not> destinationIDPattern (de_id d)) (ConfigText (''notification destination id '' @ quoted (de_id d) @ '' is invalid''))
     (guardR (de_id d \<in> set seen) (ConfigText (''notification destination id '' @ quoted (de_id d) @ '' is duplicated''))
     (bindR (field_prefix (''notification destination '' @ quoted (de_id d) @ '': '') (destination_validate parse d)) (\<lambda>_.
      Inr (de_id d # seen))))"

definition validate_route :: "string list \<Rightarrow> nat \<times> route \<Rightarrow> config_error + unit" where
  "validate_route known item = (case item of (index, r) \<Rightarrow>
     (let name = ''notification route '' @ decimal (index + 1) in
      guardR (ro_events r = [] \<or> ro_destinations r = []) (ConfigText (name @ '' requires events and destinations''))
      (case find (\<lambda>e. e \<notin> set supportedEvents) (ro_events r) of
         Some e \<Rightarrow> Inl (ConfigText (name @ '' uses unsupported event '' @ quoted e))
       | None \<Rightarrow> (case find (\<lambda>i. i \<notin> set known) (ro_destinations r) of
           Some i \<Rightarrow> Inl (ConfigText (name @ '' references unknown destination '' @ quoted i))
         | None \<Rightarrow> Inr ()))))"

definition config_Validate :: "url_parser \<Rightarrow> notification_config \<Rightarrow> config_error + unit" where
  "config_Validate parse c =
     bindR (foldR (validate_destination parse) (nc_destinations c) []) (\<lambda>known.
     bindR (mapR (validate_route known) (enumerate 0 (nc_routes c))) (\<lambda>_. Inr ()))"

definition config_Load :: "url_parser \<Rightarrow> (string \<Rightarrow> string + string) \<Rightarrow> (string \<Rightarrow> string + notification_config) \<Rightarrow> string \<Rightarrow> string
    \<Rightarrow> config_error + notification_config" where
  "config_Load parse read_file decode path inline =
     guardR (\<not> blank path \<and> \<not> blank inline)
       (ConfigText ''configure only one of WERKT_NOTIFICATIONS_FILE and WERKT_NOTIFICATIONS_JSON'')
     (if blank path \<and> blank inline then Inr \<lparr>nc_destinations = [], nc_routes = []\<rparr>
      else case (if \<not> blank path then read_file path else Inr inline) of
        Inl e \<Rightarrow> Inl (ConfigText (''read notification configuration: '' @ e))
      | Inr contents \<Rightarrow> (case decode contents of
          Inl e \<Rightarrow> Inl (ConfigText (''decode notification configuration: '' @ e))
        | Inr value \<Rightarrow> bindR (config_Validate parse value) (\<lambda>_. Inr value)))"

section \<open>Routing\<close>

definition empty_destination :: destination where
  "empty_destination = \<lparr>de_id = [], de_provider = [], de_server = [], de_topic = [], de_token_secret = [], de_basic_secret = [],
     de_bot_token_secret = [], de_chat_id = [], de_access_token_secret = [], de_device_id = [], de_channel_tag = [],
     de_app_token_secret = [], de_user_key_secret = [], de_device = [], de_sound = [], de_url = [],
     de_signing_secret = [], de_authorization_secret = []\<rparr>"

definition matchesAutomation :: "string list \<Rightarrow> string \<Rightarrow> bool" where
  "matchesAutomation filters automationID = (filters = [] \<or> ''*'' \<in> set filters \<or> automationID \<in> set filters)"

text \<open>The map from identifiers keeps the last destination of an identifier.\<close>

definition destination_by_id :: "notification_config \<Rightarrow> string \<Rightarrow> destination" where
  "destination_by_id c i = (case find (\<lambda>d. de_id d = i) (rev (nc_destinations c)) of None \<Rightarrow> empty_destination | Some d \<Rightarrow> d)"

fun select_new :: "string list \<Rightarrow> string list \<Rightarrow> string list" where
  "select_new selected [] = selected"
| "select_new selected (i # ids) = select_new (if i \<in> set selected then selected else selected @ [i]) ids"

definition DestinationsFor :: "notification_config \<Rightarrow> string \<Rightarrow> string \<Rightarrow> destination list" where
  "DestinationsFor c eventType automationID =
     map (destination_by_id c) (foldl (\<lambda>selected r.
       if eventType \<in> set (ro_events r) \<and> matchesAutomation (ro_automations r) automationID
       then select_new selected (ro_destinations r) else selected) [] (nc_routes c))"

text \<open>The stored form of a destination, empty fields omitted, and its decoding.\<close>

definition stored_field :: "string \<Rightarrow> string \<Rightarrow> (string \<times> json) list" where
  "stored_field name v = (if v = [] then [] else [(name, JString v)])"

definition destination_json :: "destination \<Rightarrow> json" where
  "destination_json d = JObject ([(''id'', JString (de_id d)), (''provider'', JString (de_provider d))]
     @ concat (map (\<lambda>(name, v). stored_field name v) (destination_fields d)))"

definition text_field :: "json_map \<Rightarrow> string \<Rightarrow> string option" where
  "text_field m k = (case map_of m k of None \<Rightarrow> Some [] | Some JNull \<Rightarrow> Some [] | Some (JString s) \<Rightarrow> Some s | _ \<Rightarrow> None)"

definition destination_of_json :: "json \<Rightarrow> destination option" where
  "destination_of_json v = (case v of
     JObject m \<Rightarrow>
       (let f = (\<lambda>k. the (text_field m k)) in
        if \<exists>k \<in> set ([''id'', ''provider''] @ map fst (destination_fields empty_destination)). text_field m k = None then None
        else Some \<lparr>de_id = f ''id'', de_provider = f ''provider'', de_server = f ''server'', de_topic = f ''topic'',
          de_token_secret = f ''tokenSecret'', de_basic_secret = f ''basicSecret'',
          de_bot_token_secret = f ''botTokenSecret'', de_chat_id = f ''chatId'',
          de_access_token_secret = f ''accessTokenSecret'', de_device_id = f ''deviceId'', de_channel_tag = f ''channelTag'',
          de_app_token_secret = f ''appTokenSecret'', de_user_key_secret = f ''userKeySecret'', de_device = f ''device'',
          de_sound = f ''sound'', de_url = f ''url'', de_signing_secret = f ''signingSecret'',
          de_authorization_secret = f ''authorizationSecret''\<rparr>)
   | JNull \<Rightarrow> Some empty_destination
   | _ \<Rightarrow> None)"

section \<open>Messages\<close>

record message =
  ms_event_type :: string
  ms_automation_id :: string
  ms_subject_id :: string
  ms_title :: string
  ms_body :: string
  ms_url :: string
  ms_priority :: string
  ms_tags :: "string list"
  ms_occurred_at :: time
  ms_expires_at :: "time option"

text \<open>What \<open>Render\<close> decodes of a payload; a field of another type is an error.\<close>

type_synonym payload = "(string \<times> details) list"

definition payload_text :: "payload \<Rightarrow> string \<Rightarrow> string option" where
  "payload_text p k = (case map_of p k of
     None \<Rightarrow> Some [] | Some DNull \<Rightarrow> Some [] | Some (DString s) \<Rightarrow> Some s | Some (DTime t) \<Rightarrow> Some (format_rfc3339nano t)
   | Some _ \<Rightarrow> None)"

definition payload_time :: "payload \<Rightarrow> string \<Rightarrow> time option" where
  "payload_time p k = (case map_of p k of
     None \<Rightarrow> Some zero_time | Some DNull \<Rightarrow> Some zero_time | Some (DTime t) \<Rightarrow> Some t | Some _ \<Rightarrow> None)"

definition payload_int :: "payload \<Rightarrow> string \<Rightarrow> int option" where
  "payload_int p k = (case map_of p k of None \<Rightarrow> Some 0 | Some DNull \<Rightarrow> Some 0 | Some (DInt i) \<Rightarrow> Some i | Some _ \<Rightarrow> None)"

definition payload_decodes :: "payload \<Rightarrow> bool" where
  "payload_decodes p =
     (list_all (\<lambda>k. payload_text p k \<noteq> None)
        [''approvalId'', ''runId'', ''title'', ''body'', ''priority'', ''description'', ''status'', ''resolvedBy'']
      \<and> payload_time p ''expiresAt'' \<noteq> None \<and> payload_int p ''attempts'' \<noteq> None)"

definition fallback :: "string \<Rightarrow> string \<Rightarrow> string" where
  "fallback value other = (if blank value then other else TrimSpace value)"

text \<open>\<open>strings.Fields\<close>: the words between runs of white space.\<close>

function fields_from :: "string \<Rightarrow> string \<Rightarrow> string list" where
  "fields_from w [] = (if w = [] then [] else [rev w])"
| "fields_from w (c # s) = (case find (\<lambda>p. HasPrefix (c # s) p) space_encodings of
     None \<Rightarrow> fields_from (c # w) s
   | Some p \<Rightarrow> (if w = [] then [] else [rev w]) @ fields_from [] (drop (length p - 1) s))"
  by pat_completeness auto
termination
  by (relation "measure (\<lambda>(w, s). length s)") auto

definition Fields :: "string \<Rightarrow> string list" where "Fields s = fields_from [] s"

text \<open>The first \<open>n\<close> runes of valid UTF-8.\<close>

fun take_runes :: "nat \<Rightarrow> string \<Rightarrow> string" where
  "take_runes n [] = []"
| "take_runes n (c # s) =
     (if 128 \<le> code c \<and> code c < 192 then c # take_runes n s
      else case n of 0 \<Rightarrow> [] | Suc m \<Rightarrow> c # take_runes m s)"

definition compactBody :: "string \<Rightarrow> string \<Rightarrow> string" where
  "compactBody value other =
     (let v = Join (Fields value) '' '' in
      if v = [] then other
      else if rune_count v \<le> 500 then v
      else take_runes 499 v @ [CHR 0xE2, CHR 0x80, CHR 0xA6])"

definition TrimRightSlashes :: "string \<Rightarrow> string" where
  "TrimRightSlashes s = rev (dropWhile (\<lambda>c. c = CHR ''/'') (rev s))"

type_synonym query_setter = "string \<Rightarrow> (string \<times> string) list \<Rightarrow> string option"

definition appURL :: "query_setter \<Rightarrow> string \<Rightarrow> (string \<times> string) list \<Rightarrow> string" where
  "appURL with_query publicURL values =
     (case with_query (TrimRightSlashes publicURL @ ''/app/'') (filter (\<lambda>(k, v). v \<noteq> []) values) of None \<Rightarrow> [] | Some u \<Rightarrow> u)"

definition approvalURL :: "query_setter \<Rightarrow> string \<Rightarrow> string" where
  "approvalURL with_query publicURL = appURL with_query publicURL [(''view'', ''approvals''), (''approvalStatus'', ''pending'')]"

definition runURL :: "query_setter \<Rightarrow> string \<Rightarrow> string \<Rightarrow> string" where
  "runURL with_query publicURL runID = appURL with_query publicURL [(''view'', ''runs''), (''run'', runID)]"

definition format_rfc3339 :: "time \<Rightarrow> string" where
  "format_rfc3339 t = format_rfc3339nano (t - t mod second)"

definition expires_text :: "string \<Rightarrow> time \<Rightarrow> string" where
  "expires_text before t = (if t = zero_time then [] else before @ format_rfc3339 t @ ''.'')"

definition Render :: "query_setter \<Rightarrow> string \<Rightarrow> string \<Rightarrow> string \<Rightarrow> payload \<Rightarrow> string \<Rightarrow> time \<Rightarrow> string + message" where
  "Render with_query eventType automationID subjectID p publicURL occurredAt =
     guardR (\<not> payload_decodes p) ''decode notification payload''
     (let text = (\<lambda>k. the (payload_text p k)); expires = the (payload_time p ''expiresAt'');
          expiry = (if expires = zero_time then None else Some expires);
          m = \<lparr>ms_event_type = eventType, ms_automation_id = automationID, ms_subject_id = subjectID, ms_title = [], ms_body = [],
               ms_url = [], ms_priority = ''default'', ms_tags = [], ms_occurred_at = occurredAt, ms_expires_at = None\<rparr> in
      if eventType = ''notification.test'' then
        Inr (m\<lparr>ms_title := ''Werkt notification test'', ms_body := ''The durable notification delivery path is working.'',
          ms_url := TrimRightSlashes publicURL @ ''/app/'', ms_tags := [''white_check_mark'']\<rparr>)
      else if eventType = ''automation.notification'' then
        Inr (m\<lparr>ms_title := fallback (text ''title'') automationID,
          ms_body := compactBody (text ''body'') ''Open Werkt to inspect this automation run.'',
          ms_url := runURL with_query publicURL (fallback (text ''runId'') subjectID),
          ms_priority := fallback (text ''priority'') ''default'', ms_tags := [''automation'']\<rparr>)
      else if eventType = ''approval.requested'' then
        Inr (m\<lparr>ms_title := ''Approval needed: '' @ fallback (text ''title'') automationID,
          ms_body := compactBody (text ''description'') ''Open Werkt to review this request.'' @ expires_text '' Expires '' expires,
          ms_url := approvalURL with_query publicURL, ms_tags := [''approval'', ''inbox_tray''], ms_expires_at := expiry\<rparr>)
      else if eventType = ''approval.expiring'' then
        Inr (m\<lparr>ms_title := ''Approval expiring: '' @ fallback (text ''title'') automationID,
          ms_body := ''This request still needs a decision.'' @ expires_text '' It expires '' expires,
          ms_url := approvalURL with_query publicURL, ms_priority := ''high'',
          ms_tags := [''approval'', ''hourglass_flowing_sand''], ms_expires_at := expiry\<rparr>)
      else if eventType = ''approval.resolved'' then
        Inr (m\<lparr>ms_title := ''Approval '' @ fallback (text ''status'') ''resolved'' @ '': '' @ fallback (text ''title'') automationID,
          ms_body := ''The decision was recorded in Werkt.'', ms_url := approvalURL with_query publicURL,
          ms_tags := [''approval'', ''white_check_mark'']\<rparr>)
      else if eventType = ''run.failed'' then
        Inr (m\<lparr>ms_title := ''Automation failed: '' @ automationID,
          ms_body := ''Run '' @ fallback (text ''runId'') subjectID @ '' exhausted '' @ decimal_int (the (payload_int p ''attempts''))
            @ '' attempt(s). Open Werkt for redacted diagnostics.'',
          ms_url := runURL with_query publicURL (fallback (text ''runId'') subjectID), ms_priority := ''high'',
          ms_tags := [''warning'', ''automation'']\<rparr>)
      else Inl (''unsupported notification event '' @ quoted eventType))"

definition message_json :: "message \<Rightarrow> string" where
  "message_json m = json_object ([(''eventType'', json_string (ms_event_type m)), (''automationId'', json_string (ms_automation_id m)),
     (''subjectId'', json_string (ms_subject_id m)), (''title'', json_string (ms_title m)), (''body'', json_string (ms_body m)),
     (''url'', json_string (ms_url m)), (''priority'', json_string (ms_priority m)), (''tags'', json_array json_string (ms_tags m)),
     (''occurredAt'', json_string (format_rfc3339nano (ms_occurred_at m)))]
     @ (case ms_expires_at m of None \<Rightarrow> [] | Some t \<Rightarrow> [(''expiresAt'', json_string (format_rfc3339nano t))]))"

end
