(* ===== verification/Notifier.thy ===== *)
theory Notifier
  imports Messages SecretVault
begin

text \<open>
  Delivery of notifications: the requests of the five providers and the classification of their
  answers (\<open>notification/providers.go\<close>), and the worker that scans, expands and delivers
  (\<open>service/notification_worker.go\<close>). The HTTP client, the resolution of secrets, the check
  \<open>http.NewRequest\<close> makes of a URL, HMAC-SHA256 and the decoder of Pushover's answer are the fields
  of \<open>sender\<close>.
\<close>

section \<open>Requests\<close>

record http_request =
  hq_method :: string
  hq_url :: string
  hq_headers :: env_map
  hq_body :: string

record sender =
  sn_resolve :: "(string list \<Rightarrow> string + env_map) option"
  sn_url_ok :: "string \<Rightarrow> bool"
  sn_do :: "http_request \<Rightarrow> (int \<times> string) option"
  sn_hmac :: "string \<Rightarrow> string \<Rightarrow> string"
  sn_pushover_status :: "string \<Rightarrow> int option"

datatype delivery_error = DeliveryError string bool

definition secretNames :: "destination \<Rightarrow> string list" where
  "secretNames d = rev (remdups (rev (filter (\<lambda>s. s \<noteq> []) [de_token_secret d, de_basic_secret d, de_bot_token_secret d,
     de_access_token_secret d, de_app_token_secret d, de_user_key_secret d, de_signing_secret d, de_authorization_secret d])))"

definition requiredSecret :: "env_map \<Rightarrow> string \<Rightarrow> string + string" where
  "requiredSecret values name = (case map_of values name of
     Some (c # cs) \<Rightarrow> Inr (c # cs)
   | _ \<Rightarrow> Inl (''notification credential '' @ quoted name @ '' is empty''))"

definition path_char :: "char \<Rightarrow> string" where
  "path_char c =
     (if is_alnum c \<or> c \<in> set ''-_.~$&+:=@'' then [c]
      else [CHR ''%'', upper_hex (code c div 16), upper_hex (code c mod 16)])"

definition PathEscape :: "string \<Rightarrow> string" where
  "PathEscape s = concat (map path_char s)"

definition values_Encode :: "env_map \<Rightarrow> string" where
  "values_Encode values = Join (map (\<lambda>(k, v). QueryEscape k @ ''='' @ QueryEscape v) (sort_key fst values)) ''&''"

definition post :: "sender \<Rightarrow> string \<Rightarrow> string \<Rightarrow> env_map \<Rightarrow> string \<Rightarrow> string + http_request" where
  "post s failure address headers body =
     guardR (\<not> sn_url_ok s address) failure
       (Inr \<lparr>hq_method = ''POST'', hq_url = address, hq_headers = headers, hq_body = body\<rparr>)"

text \<open>\<open>Header.Set\<close> replaces an earlier value.\<close>

definition set_header :: "string \<Rightarrow> string \<Rightarrow> http_request \<Rightarrow> http_request" where
  "set_header k v r = r\<lparr>hq_headers := AList.update k v (hq_headers r)\<rparr>"

definition ntfyRequest :: "sender \<Rightarrow> destination \<Rightarrow> message \<Rightarrow> string \<Rightarrow> env_map \<Rightarrow> string + http_request" where
  "ntfyRequest s d m deliveryID creds =
     bindR (post s ''create ntfy request'' (TrimRightSlashes (de_server d) @ ''/'' @ PathEscape (de_topic d))
       ([(''Content-Type'', ''text/plain; charset=utf-8''), (''Title'', ms_title m), (''Priority'', ms_priority m),
         (''Tags'', Join (ms_tags m) '',''), (''X-Sequence-Id'', deliveryID)]
        @ (if ms_url m = [] then [] else [(''Click'', ms_url m)])) (ms_body m)) (\<lambda>r.
     if de_token_secret d \<noteq> [] then
       bindR (requiredSecret creds (de_token_secret d)) (\<lambda>v. Inr (set_header ''Authorization'' (''Bearer '' @ v) r))
     else if de_basic_secret d \<noteq> [] then
       bindR (requiredSecret creds (de_basic_secret d)) (\<lambda>v. Inr (set_header ''Authorization'' (''Basic '' @ b64_encode v) r))
     else Inr r)"

definition telegram_body :: "destination \<Rightarrow> message \<Rightarrow> string" where
  "telegram_body d m = json_object ([(''chat_id'', json_string (de_chat_id d)), (''link_preview_options'', ''{'' @ json_string ''is_disabled'' @ '':true}'')]
     @ (if ms_url m = [] then []
        else [(''reply_markup'', json_object [(''inline_keyboard'', ''[['' @ json_object [(''text'', json_string ''Open in Werkt''), (''url'', json_string (ms_url m))] @ '']]'')])])
     @ [(''text'', json_string (ms_title m @ [CHR 0x0A, CHR 0x0A] @ ms_body m))])"

definition telegramRequest :: "sender \<Rightarrow> destination \<Rightarrow> message \<Rightarrow> env_map \<Rightarrow> string + http_request" where
  "telegramRequest s d m creds =
     bindR (requiredSecret creds (de_bot_token_secret d)) (\<lambda>token.
     post s ''create telegram request''
       (TrimRightSlashes (if de_server d = [] then ''https://api.telegram.org'' else de_server d) @ ''/bot'' @ PathEscape token @ ''/sendMessage'')
       [(''Content-Type'', ''application/json'')] (telegram_body d m))"

definition pushbullet_body :: "destination \<Rightarrow> message \<Rightarrow> string" where
  "pushbullet_body d m = json_object ([(''body'', json_string (ms_body m))]
     @ (if de_channel_tag d = [] then [] else [(''channel_tag'', json_string (de_channel_tag d))])
     @ (if de_device_id d = [] then [] else [(''device_iden'', json_string (de_device_id d))])
     @ [(''title'', json_string (ms_title m)), (''type'', json_string ''link''), (''url'', json_string (ms_url m))])"

definition pushbulletRequest :: "sender \<Rightarrow> destination \<Rightarrow> message \<Rightarrow> env_map \<Rightarrow> string + http_request" where
  "pushbulletRequest s d m creds =
     bindR (requiredSecret creds (de_access_token_secret d)) (\<lambda>token.
     post s ''create pushbullet request'' ''https://api.pushbullet.com/v2/pushes''
       [(''Content-Type'', ''application/json''), (''Access-Token'', token)] (pushbullet_body d m))"

definition pushoverPriority :: "string \<Rightarrow> string" where
  "pushoverPriority p = (if p = ''high'' then ''1'' else if p = ''low'' then ''-1'' else ''0'')"

text \<open>The rest of the life of a message in whole seconds, cut towards zero.\<close>

definition ttl_seconds :: "time \<Rightarrow> time \<Rightarrow> int" where
  "ttl_seconds now t = (if now \<le> t then (t - now) div second else - ((now - t) div second))"

definition pushoverRequest :: "sender \<Rightarrow> time \<Rightarrow> destination \<Rightarrow> message \<Rightarrow> env_map \<Rightarrow> string + http_request" where
  "pushoverRequest s now d m creds =
     bindR (requiredSecret creds (de_app_token_secret d)) (\<lambda>appToken.
     bindR (requiredSecret creds (de_user_key_secret d)) (\<lambda>userKey.
     let optional = (\<lambda>k v. if v = [] then [] else [(k, v)]);
         values = [(''token'', appToken), (''user'', userKey), (''title'', ms_title m), (''message'', ms_body m),
           (''priority'', pushoverPriority (ms_priority m)), (''timestamp'', decimal_int (ms_occurred_at m div second))]
           @ (if ms_url m = [] then [] else [(''url'', ms_url m), (''url_title'', ''Open in Werkt'')])
           @ optional ''device'' (de_device d) @ optional ''sound'' (de_sound d) in
     bindR (case ms_expires_at m of None \<Rightarrow> Inr values
            | Some t \<Rightarrow> guardR (ttl_seconds now t \<le> 0) ''pushover notification has already expired''
                (Inr (values @ [(''ttl'', decimal_int (ttl_seconds now t))]))) (\<lambda>all.
     post s ''create pushover request''
       (TrimRightSlashes (if de_server d = [] then ''https://api.pushover.net'' else de_server d) @ ''/1/messages.json'')
       [(''Content-Type'', ''application/x-www-form-urlencoded'')] (values_Encode all))))"

definition webhookRequest :: "sender \<Rightarrow> time \<Rightarrow> destination \<Rightarrow> message \<Rightarrow> string \<Rightarrow> env_map \<Rightarrow> string + http_request" where
  "webhookRequest s now d m deliveryID creds =
     (let encoded = message_json m in
      bindR (post s ''create webhook request'' (de_url d)
        [(''Content-Type'', ''application/json''), (''Idempotency-Key'', deliveryID), (''X-Werkt-Delivery'', deliveryID)] encoded) (\<lambda>r0.
      bindR (if de_authorization_secret d = [] then Inr r0
             else bindR (requiredSecret creds (de_authorization_secret d)) (\<lambda>t. Inr (set_header ''Authorization'' (''Bearer '' @ t) r0))) (\<lambda>r1.
      if de_signing_secret d = [] then Inr r1
      else bindR (requiredSecret creds (de_signing_secret d)) (\<lambda>secret.
        let timestamp = decimal_int (now div second);
            mac = sn_hmac s secret (timestamp @ ''.'' @ deliveryID @ ''.'' @ encoded) in
        Inr (set_header ''X-Werkt-Signature'' (''sha256='' @ hex_encode mac) (set_header ''X-Werkt-Timestamp'' timestamp r1))))))"

definition provider_request :: "sender \<Rightarrow> time \<Rightarrow> destination \<Rightarrow> message \<Rightarrow> string \<Rightarrow> env_map \<Rightarrow> string + http_request" where
  "provider_request s now d m deliveryID creds =
     (if de_provider d = ''ntfy'' then ntfyRequest s d m deliveryID creds
      else if de_provider d = ''telegram'' then telegramRequest s d m creds
      else if de_provider d = ''pushbullet'' then pushbulletRequest s d m creds
      else if de_provider d = ''pushover'' then pushoverRequest s now d m creds
      else if de_provider d = ''webhook'' then webhookRequest s now d m deliveryID creds
      else Inl (''unsupported notification provider '' @ quoted (de_provider d)))"

section \<open>Sending\<close>

text \<open>The status code and, unless the message was accepted, the error.\<close>

definition classify :: "sender \<Rightarrow> string \<Rightarrow> (int \<times> string) option \<Rightarrow> int \<times> delivery_error option" where
  "classify s provider response = (case response of
     None \<Rightarrow> (0, Some (DeliveryError (provider @ '' notification request failed'') True))
   | Some (status, body) \<Rightarrow>
       if 200 \<le> status \<and> status < 300 then
         (if provider = ''pushover'' \<and> sn_pushover_status s (take 65536 body) \<noteq> Some 1
          then (status, Some (DeliveryError ''pushover notification was not accepted'' False)) else (status, None))
       else (status, Some (DeliveryError (provider @ '' notification returned HTTP '' @ decimal_int status)
         (status = 408 \<or> status = 429 \<or> 500 \<le> status))))"

definition Send :: "sender \<Rightarrow> time \<Rightarrow> destination \<Rightarrow> message \<Rightarrow> string \<Rightarrow> int \<times> delivery_error option" where
  "Send s now d m deliveryID = (case sn_resolve s of
     None \<Rightarrow> (0, Some (DeliveryError ''notification secret resolver is unavailable'' False))
   | Some resolve \<Rightarrow> (case resolve (secretNames d) of
       Inl e \<Rightarrow> (0, Some (DeliveryError ''resolve notification credential: unavailable'' False))
     | Inr creds \<Rightarrow> (case provider_request s now d m deliveryID creds of
         Inl e \<Rightarrow> (0, Some (DeliveryError e False))
       | Inr r \<Rightarrow> classify s (de_provider d) (sn_do s (set_header ''User-Agent'' ''Werkt-Notifier/1.0'' r)))))"

section \<open>The worker\<close>

record notification_worker =
  nw_id :: string
  nw_config :: notification_config
  nw_sender :: sender
  nw_public_url :: string
  nw_query :: query_setter
  nw_window :: duration
  nw_last_scan :: "time option"

definition targetsFor :: "notification_config \<Rightarrow> notification_event_row \<Rightarrow> notification_target list" where
  "targetsFor c n = map (\<lambda>d. \<lparr>nt_destination_id = de_id d, nt_provider = de_provider d, nt_config = destination_json d\<rparr>)
     (DestinationsFor c (n_event_type n) (n_automation_id n))"

text \<open>Every part gives the error it stops the iteration with, if any; \<open>amb\<close> is what the calls read.\<close>

definition notifier_scan :: "ambient \<Rightarrow> notification_worker \<Rightarrow> db \<Rightarrow> store_error option \<times> notification_worker \<times> db" where
  "notifier_scan amb w d =
     (if 0 < nw_window w \<and> (case nw_last_scan w of None \<Rightarrow> True | Some t \<Rightarrow> minute \<le> go_now amb - t)
      then (case EnqueueExpiringApprovalNotifications amb (go_now amb + nw_window w) 100 d of
              (Inl e, d1) \<Rightarrow> (Some e, w, d1) | (Inr _, d1) \<Rightarrow> (None, w\<lparr>nw_last_scan := Some (go_now amb)\<rparr>, d1))
      else (None, w, d))"

definition notifier_expand :: "ambient \<Rightarrow> notification_worker \<Rightarrow> db \<Rightarrow> store_error option \<times> db" where
  "notifier_expand amb w d = (case AcquireNotificationEvent amb d of
     None \<Rightarrow> (None, d)
   | Some n \<Rightarrow> (case ExpandNotificationEvent amb (n_id n) (targetsFor (nw_config w) n) d of
       (Inl e, d1) \<Rightarrow> (Some e, d1) | (Inr _, d1) \<Rightarrow> (None, d1)))"

definition stored :: "unit store_result \<Rightarrow> store_error option \<times> db" where
  "stored r = (case r of (Inl e, d) \<Rightarrow> (Some e, d) | (Inr _, d) \<Rightarrow> (None, d))"

definition deliver_claimed :: "ambient \<Rightarrow> notification_worker \<Rightarrow> notification_delivery \<Rightarrow> db \<Rightarrow> store_error option \<times> db" where
  "deliver_claimed amb w v d =
     (case Render (nw_query w) (nv_event_type v) (nv_automation_id v) (nv_subject_id v) (nv_payload v) (nw_public_url w) (nv_event_created_at v) of
        Inl e \<Rightarrow> stored (FailNotificationDelivery amb v (nw_id w) ''render notification message'' False d)
      | Inr m \<Rightarrow> (case destination_of_json (nv_config v) of
          None \<Rightarrow> stored (FailNotificationDelivery amb v (nw_id w) ''decode notification destination'' False d)
        | Some destination \<Rightarrow> (case Send (nw_sender w) (go_now amb) destination m (nv_id v) of
            (_, Some (DeliveryError text retryable)) \<Rightarrow> stored (FailNotificationDelivery amb v (nw_id w) text retryable d)
          | (status, None) \<Rightarrow> stored (CompleteNotificationDelivery amb v (nw_id w) status d))))"

definition notifier_deliver :: "ambient \<Rightarrow> ambient \<Rightarrow> notification_worker \<Rightarrow> db \<Rightarrow> store_error option \<times> db" where
  "notifier_deliver amb amb' w d = (case AcquireNotificationDelivery amb (nw_id w) d of
     (Inl e, d1) \<Rightarrow> (Some e, d1)
   | (Inr None, d1) \<Rightarrow> (None, d1)
   | (Inr (Some v), d1) \<Rightarrow> deliver_claimed amb' w v d1)"

text \<open>One iteration; \<open>ambs k\<close> is what the k-th call of the store reads from outside.\<close>

definition notifier_runOnce :: "(nat \<Rightarrow> ambient) \<Rightarrow> notification_worker \<Rightarrow> db \<Rightarrow> store_error option \<times> notification_worker \<times> db" where
  "notifier_runOnce ambs w d = (case notifier_scan (ambs 0) w d of
     (Some e, w1, d1) \<Rightarrow> (Some e, w1, d1)
   | (None, w1, d1) \<Rightarrow> (case notifier_expand (ambs 1) w1 d1 of
       (Some e, d2) \<Rightarrow> (Some e, w1, d2)
     | (None, d2) \<Rightarrow> (case notifier_deliver (ambs 2) (ambs 3) w1 d2 of (e, d3) \<Rightarrow> (e, w1, d3))))"

end
