(* ===== verification/NotifierProofs.thy ===== *)
theory NotifierProofs
  imports Notifier NotificationProofs ManifestProofs
begin

text \<open>
  The properties of notification delivery: routes select exactly the configured destinations they
  name, what is recorded of an attempt does not depend on the credentials it used, and every
  iteration of the worker settles the delivery it claimed.
\<close>

section \<open>Routing\<close>

lemma select_new_set: "set (select_new sel ids) = set sel \<union> set ids"
  by (induction ids arbitrary: sel) auto

lemma select_new_distinct: "distinct sel \<Longrightarrow> distinct (select_new sel ids)"
  by (induction ids arbitrary: sel) auto

abbreviation selected_ids :: "string \<Rightarrow> string \<Rightarrow> route list \<Rightarrow> string list \<Rightarrow> string list" where
  "selected_ids ev a rs sel \<equiv> foldl (\<lambda>selected r. if ev \<in> set (ro_events r) \<and> matchesAutomation (ro_automations r) a
     then select_new selected (ro_destinations r) else selected) sel rs"

lemma selected_ids_set: "set (selected_ids ev a rs sel) =
    set sel \<union> (\<Union>r \<in> {r \<in> set rs. ev \<in> set (ro_events r) \<and> matchesAutomation (ro_automations r) a}. set (ro_destinations r))"
  by (induction rs arbitrary: sel) (auto simp: select_new_set)

lemma selected_ids_distinct: "distinct sel \<Longrightarrow> distinct (selected_ids ev a rs sel)"
  by (induction rs arbitrary: sel) (auto simp: select_new_distinct)

lemma field_prefix_Inr [simp]: "field_prefix p r = Inr () \<longleftrightarrow> r = Inr ()"
  by (cases r) (auto simp: field_prefix_def split: config_error.splits)

lemma validate_destination_Inr: "validate_destination parse d seen = Inr k \<longleftrightarrow>
    destinationIDPattern (de_id d) \<and> de_id d \<notin> set seen \<and> destination_validate parse d = Inr () \<and> k = de_id d # seen"
  unfolding validate_destination_def guardR_eq_Inr bindR_eq_Inr by (metis field_prefix_Inr old.unit.exhaust sum.inject(2))

lemma validate_route_Inr: "validate_route known (n, r) = Inr u \<Longrightarrow> find (\<lambda>i. i \<notin> set known) (ro_destinations r) = None"
  by (cases "find (\<lambda>e. e \<notin> set supportedEvents) (ro_events r)"; cases "find (\<lambda>i. i \<notin> set known) (ro_destinations r)")
    (simp_all add: validate_route_def Let_def guardR_eq_Inr)

lemma validated_destinations:
  "foldR (validate_destination parse) ds seen = Inr known \<Longrightarrow> distinct seen \<Longrightarrow>
    distinct (map de_id ds) \<and> set known = set seen \<union> de_id ` set ds \<and> de_id ` set ds \<inter> set seen = {}
    \<and> (\<forall>d \<in> set ds. destination_validate parse d = Inr () \<and> destinationIDPattern (de_id d))"
proof (induction ds arbitrary: seen)
  case (Cons d ds)
  from Cons.prems(1) have d: "destinationIDPattern (de_id d)" "de_id d \<notin> set seen" "destination_validate parse d = Inr ()"
    "foldR (validate_destination parse) ds (de_id d # seen) = Inr known"
    unfolding foldR.simps bindR_eq_Inr validate_destination_Inr by blast+
  with Cons.IH[OF d(4)] Cons.prems(2) show ?case by auto
qed simp

lemma config_Validate_Inr:
  assumes "config_Validate parse c = Inr ()"
  shows "distinct (map de_id (nc_destinations c))"
    and "\<And>d. d \<in> set (nc_destinations c) \<Longrightarrow> destination_validate parse d = Inr ()"
    and "\<And>r i. r \<in> set (nc_routes c) \<Longrightarrow> i \<in> set (ro_destinations r) \<Longrightarrow> i \<in> de_id ` set (nc_destinations c)"
proof -
  obtain known where k: "foldR (validate_destination parse) (nc_destinations c) [] = Inr known"
    "\<exists>us. mapR (validate_route known) (enumerate 0 (nc_routes c)) = Inr us"
    using assms unfolding config_Validate_def bindR_eq_Inr by blast
  note v = validated_destinations[OF k(1)]
  show "distinct (map de_id (nc_destinations c))" using v by simp
  show "destination_validate parse d = Inr ()" if "d \<in> set (nc_destinations c)" for d using v that by simp
  show "i \<in> de_id ` set (nc_destinations c)" if "r \<in> set (nc_routes c)" "i \<in> set (ro_destinations r)" for r i
  proof -
    note there = egress_enumerated[OF that(1), of 0]
    then obtain n where "(n, r) \<in> set (enumerate 0 (nc_routes c))" by blast
    then have "\<exists>u. validate_route known (n, r) = Inr u" using k(2) mapR_out by fastforce
    then have "find (\<lambda>i. i \<notin> set known) (ro_destinations r) = None"
      using validate_route_Inr by blast
    with that(2) have "i \<in> set known" by (auto simp: find_None_iff)
    with v show ?thesis by simp
  qed
qed

lemma destination_by_id_unique:
  assumes "distinct (map de_id (nc_destinations c))" "d \<in> set (nc_destinations c)"
  shows "destination_by_id c (de_id d) = d"
proof -
  obtain x where x: "find (\<lambda>y. de_id y = de_id d) (rev (nc_destinations c)) = Some x"
    using assms(2) by (cases "find (\<lambda>y. de_id y = de_id d) (rev (nc_destinations c))") (auto simp: find_None_iff)
  then have "x \<in> set (nc_destinations c)" "de_id x = de_id d" by (auto dest!: find_eq_SomeD)
  with key_unique[OF assms(1) this(1) assms(2)] x show ?thesis by (simp add: destination_by_id_def)
qed

lemma stored_fields: "distinct (map fst fs) \<Longrightarrow> map_of (concat (map (\<lambda>(name, v). stored_field name v) fs)) k
    = (case map_of fs k of None \<Rightarrow> None | Some v \<Rightarrow> if v = [] then None else Some (JString v))"
proof (induction fs)
  case (Cons x fs)
  obtain n v where x: "x = (n, v)" by (cases x)
  have "n = k \<Longrightarrow> map_of fs k = None" using Cons.prems x by (auto simp: map_of_eq_None_iff)
  with Cons x show ?case by (auto simp: stored_field_def map_add_def split: option.splits)
qed simp

lemma stored_text:
  assumes "distinct (map fst fs)" "k \<noteq> a" "k \<noteq> b"
  shows "text_field ([(a, x), (b, y)] @ concat (map (\<lambda>(name, v). stored_field name v) fs)) k
    = Some (case map_of fs k of None \<Rightarrow> [] | Some v \<Rightarrow> v)"
  using assms(2,3) by (simp add: text_field_def stored_fields[OF assms(1)] map_add_def split: option.splits)

lemma destination_names: "distinct (map fst (destination_fields d))"
  by (simp add: destination_fields_def)

lemma destination_round_trip: "destination_of_json (destination_json d) = Some d"
proof -
  define m where "m = [(''id'', JString (de_id d)), (''provider'', JString (de_provider d))]
     @ concat (map (\<lambda>(name, v). stored_field name v) (destination_fields d))"
  have i: "text_field m ''id'' = Some (de_id d)" "text_field m ''provider'' = Some (de_provider d)"
    by (simp_all add: text_field_def m_def)
  have f: "text_field m k = Some (case map_of (destination_fields d) k of None \<Rightarrow> [] | Some v \<Rightarrow> v)"
    if "k \<noteq> ''id''" "k \<noteq> ''provider''" for k
    unfolding m_def by (rule stored_text[OF destination_names that])
  have "destination_of_json (JObject m) = Some d"
    by (simp add: destination_of_json_def i f destination_fields_def)
  then show ?thesis by (simp add: destination_json_def m_def)
qed

text \<open>
  C35: Notifications go where the routes say and nowhere else. With a configuration that was accepted,
  an event is sent to exactly those configured destinations that a route for its type and automation
  names, to each of them once; every such destination passed validation, and the copy stored with
  a delivery decodes to the destination that was configured.
\<close>

theorem routing_exact:
  assumes "config_Validate parse c = Inr ()"
  shows "distinct (map de_id (DestinationsFor c ev a))
    \<and> set (DestinationsFor c ev a) = {d \<in> set (nc_destinations c). \<exists>r \<in> set (nc_routes c).
        ev \<in> set (ro_events r) \<and> matchesAutomation (ro_automations r) a \<and> de_id d \<in> set (ro_destinations r)}
    \<and> (\<forall>d \<in> set (DestinationsFor c ev a). destination_validate parse d = Inr () \<and> destination_of_json (destination_json d) = Some d)"
proof -
  note c = config_Validate_Inr[OF assms]
  let ?ids = "selected_ids ev a (nc_routes c) []"
  have ids: "set ?ids = (\<Union>r \<in> {r \<in> set (nc_routes c). ev \<in> set (ro_events r) \<and> matchesAutomation (ro_automations r) a}. set (ro_destinations r))"
    using selected_ids_set[where sel = "[]"] by simp
  have known: "i \<in> de_id ` set (nc_destinations c)" if "i \<in> set ?ids" for i using that c(3) unfolding ids by blast
  have by_id: "destination_by_id c (de_id d) = d" if "d \<in> set (nc_destinations c)" for d
    using destination_by_id_unique[OF c(1) that] .
  have eq: "de_id (destination_by_id c i) = i" if "i \<in> set ?ids" for i using known[OF that] by_id by force
  have D: "DestinationsFor c ev a = map (destination_by_id c) ?ids" by (simp add: DestinationsFor_def)
  have "map de_id (map (destination_by_id c) ?ids) = ?ids" using eq by (simp add: map_idI)
  then have "distinct (map de_id (DestinationsFor c ev a))" using selected_ids_distinct[where sel = "[]"] D by simp
  moreover have "set (DestinationsFor c ev a) = {d \<in> set (nc_destinations c). de_id d \<in> set ?ids}"
    unfolding D using known by_id by force
  then have set: "set (DestinationsFor c ev a) = {d \<in> set (nc_destinations c). \<exists>r \<in> set (nc_routes c).
        ev \<in> set (ro_events r) \<and> matchesAutomation (ro_automations r) a \<and> de_id d \<in> set (ro_destinations r)}"
    unfolding ids by auto
  moreover have "destination_validate parse d = Inr ()" if "d \<in> set (DestinationsFor c ev a)" for d
    using that c(2) set by blast
  ultimately show ?thesis using destination_round_trip by blast
qed

section \<open>Credentials\<close>

text \<open>Two sets of credentials that are alike up to their values.\<close>

definition alike :: "env_map \<Rightarrow> env_map \<Rightarrow> bool" where
  "alike m m' = (\<forall>k. is_ok (requiredSecret m k) = is_ok (requiredSecret m' k))"

lemma requiredSecret_alike:
  "alike m m' \<Longrightarrow> (\<exists>v v'. requiredSecret m k = Inr v \<and> requiredSecret m' k = Inr v') \<or> (\<exists>e. requiredSecret m k = Inl e \<and> requiredSecret m' k = Inl e)"
proof -
  assume "alike m m'"
  then have "is_ok (requiredSecret m k) = is_ok (requiredSecret m' k)" by (simp add: alike_def)
  then show ?thesis by (auto simp: requiredSecret_def split: option.splits list.splits)
qed

text \<open>Results that are both requests, or the same error.\<close>

definition same_outcome :: "string + 'a \<Rightarrow> string + 'a \<Rightarrow> bool" where
  "same_outcome r r' = ((\<exists>x y. r = Inr x \<and> r' = Inr y) \<or> (\<exists>e. r = Inl e \<and> r' = Inl e))"

lemma same_outcome_refl [simp]: "same_outcome r r"
  by (cases r) (simp_all add: same_outcome_def)

lemma same_outcome_secret:
  assumes "alike m m'" "\<And>v v'. same_outcome (f v) (f' v')"
  shows "same_outcome (bindR (requiredSecret m k) f) (bindR (requiredSecret m' k) f')"
  using requiredSecret_alike[OF assms(1), of k]
proof (elim disjE exE conjE)
  fix v v' assume "requiredSecret m k = Inr v" "requiredSecret m' k = Inr v'"
  with assms(2)[of v v'] show ?thesis by simp
qed simp

lemma same_outcome_Inr [simp]: "same_outcome (Inr x) (Inr y)"
  by (simp add: same_outcome_def)

lemma same_outcome_bind: "same_outcome r r' \<Longrightarrow> (\<And>x y. same_outcome (f x) (f' y)) \<Longrightarrow> same_outcome (bindR r f) (bindR r' f')"
  unfolding same_outcome_def[of r r'] by (elim disjE exE conjE) simp_all

lemma post_outcome: "sn_url_ok s u = sn_url_ok s' u' \<Longrightarrow> same_outcome (post s e u h b) (post s' e u' h' b')"
  by (auto simp: post_def guardR_def)

text \<open>
  A law of \<open>net/url\<close>: whether the address of the Telegram Bot API below a server is a URL does not
  depend on the token in it. It is stated for the default server and for the servers that
  \<open>validateBaseURL\<close> accepts, which are absolute HTTP(S) URLs with a host; the escaped token is
  then a complete segment of the path (or a part of the query or fragment, where the server ends
  with an empty one) made of unreserved characters and valid percent escapes.
\<close>

definition bot_segment_irrelevant :: "url_parser \<Rightarrow> sender \<Rightarrow> bool" where
  "bot_segment_irrelevant parse s = (\<forall>server. server = ''https://api.telegram.org'' \<or> validateBaseURL parse server = Inr () \<longrightarrow>
     (\<forall>x y. sn_url_ok s (TrimRightSlashes server @ ''/bot'' @ PathEscape x @ ''/sendMessage'')
          = sn_url_ok s (TrimRightSlashes server @ ''/bot'' @ PathEscape y @ ''/sendMessage'')))"

lemma telegram_server_accepted:
  assumes "destination_validate parse d = Inr ()" "de_provider d = ''telegram''"
  shows "de_server d \<noteq> [] \<Longrightarrow> validateBaseURL parse (de_server d) = Inr ()"
  using assms by (simp add: destination_validate_def only_fields_def Let_def guardR_eq_Inr)

lemma telegram_url_alike:
  assumes "bot_segment_irrelevant parse s" "destination_validate parse d = Inr ()" "de_provider d = ''telegram''"
  defines "server \<equiv> if de_server d = [] then ''https://api.telegram.org'' else de_server d"
  shows "sn_url_ok s (TrimRightSlashes server @ ''/bot'' @ PathEscape x @ ''/sendMessage'')
    = sn_url_ok s (TrimRightSlashes server @ ''/bot'' @ PathEscape y @ ''/sendMessage'')"
proof -
  have "server = ''https://api.telegram.org'' \<or> validateBaseURL parse server = Inr ()"
    using telegram_server_accepted[OF assms(2,3)] by (simp add: server_def)
  with assms(1) show ?thesis unfolding bot_segment_irrelevant_def by blast
qed

lemma telegramRequest_alike:
  assumes "alike m m'" "bot_segment_irrelevant parse s" "destination_validate parse d = Inr ()" "de_provider d = ''telegram''"
  shows "same_outcome (telegramRequest s d msg m) (telegramRequest (s\<lparr>sn_resolve := r, sn_do := h\<rparr>) d msg m')"
  unfolding telegramRequest_def
proof (rule same_outcome_secret[OF assms(1)], rule post_outcome)
  fix v v'
  show "sn_url_ok s (TrimRightSlashes (if de_server d = [] then ''https://api.telegram.org'' else de_server d) @ ''/bot'' @ PathEscape v @ ''/sendMessage'')
    = sn_url_ok (s\<lparr>sn_resolve := r, sn_do := h\<rparr>)
        (TrimRightSlashes (if de_server d = [] then ''https://api.telegram.org'' else de_server d) @ ''/bot'' @ PathEscape v' @ ''/sendMessage'')"
    using telegram_url_alike[OF assms(2-4)] by simp
qed

lemma provider_request_alike:
  assumes "alike m m'" "bot_segment_irrelevant parse s" "destination_validate parse d = Inr ()"
  shows "same_outcome (provider_request s now d msg i m) (provider_request (s\<lparr>sn_resolve := r, sn_do := h\<rparr>) now d msg i m')"
proof -
  let ?s = "s\<lparr>sn_resolve := r, sn_do := h\<rparr>"
  note sec = same_outcome_secret[OF assms(1)]
  have ok: "sn_url_ok ?s = sn_url_ok s" by simp
  have "same_outcome (ntfyRequest s d msg i m) (ntfyRequest ?s d msg i m')"
    unfolding ntfyRequest_def
    by (rule same_outcome_bind) (auto intro!: post_outcome sec)
  moreover have "same_outcome (pushbulletRequest s d msg m) (pushbulletRequest ?s d msg m')"
    unfolding pushbulletRequest_def by (intro sec post_outcome) simp
  moreover have "same_outcome (pushoverRequest s now d msg m) (pushoverRequest ?s now d msg m')"
    unfolding pushoverRequest_def Let_def
    by (intro sec same_outcome_bind post_outcome) (auto simp: guardR_def same_outcome_def split: option.splits)
  moreover have "same_outcome (webhookRequest s now d msg i m) (webhookRequest ?s now d msg i m')"
    unfolding webhookRequest_def Let_def
    by (rule same_outcome_bind, rule post_outcome, simp, rule same_outcome_bind) (auto intro!: sec)
  ultimately show ?thesis using telegramRequest_alike[OF assms] by (auto simp: provider_request_def)
qed

text \<open>An iteration uses its sender only on the destination stored with the delivery.\<close>

lemma deliver_claimed_sender:
  assumes "\<And>ds now msg i. destination_of_json (nv_config v) = Some ds \<Longrightarrow> Send (nw_sender w) now ds msg i = Send (nw_sender w') now ds msg i"
    and "w = w'\<lparr>nw_sender := nw_sender w\<rparr>"
  shows "deliver_claimed amb w v d = deliver_claimed amb w' v d"
proof -
  have same: "nw_query w = nw_query w'" "nw_public_url w = nw_public_url w'" "nw_id w = nw_id w'"
    by (subst assms(2), simp)+
  show ?thesis
  proof (cases "destination_of_json (nv_config v)")
    case None
    then show ?thesis unfolding deliver_claimed_def same by (simp cong: sum.case_cong)
  next
    case (Some ds)
    then show ?thesis unfolding deliver_claimed_def same by (simp add: assms(1) cong: sum.case_cong)
  qed
qed

lemma Send_alike:
  assumes "alike m m'" "bot_segment_irrelevant parse s" "destination_validate parse ds = Inr ()"
  shows "Send (s\<lparr>sn_resolve := Some (\<lambda>names. Inr m), sn_do := (\<lambda>_. answer)\<rparr>) now ds msg i
       = Send (s\<lparr>sn_resolve := Some (\<lambda>names. Inr m'), sn_do := (\<lambda>_. answer)\<rparr>) now ds msg i"
proof -
  let ?s = "s\<lparr>sn_resolve := Some (\<lambda>names. Inr m), sn_do := (\<lambda>_. answer)\<rparr>"
  let ?t = "s\<lparr>sn_resolve := Some (\<lambda>names. Inr m'), sn_do := (\<lambda>_. answer)\<rparr>"
  have "bot_segment_irrelevant parse ?s" using assms(2) by (simp add: bot_segment_irrelevant_def)
  from provider_request_alike[OF assms(1) this assms(3), of now msg i "\<lambda>_. answer" "Some (\<lambda>names. Inr m')"]
  have "same_outcome (provider_request ?s now ds msg i m) (provider_request ?t now ds msg i m')" by simp
  moreover have "classify ?s p answer = classify ?t p answer" for p by (auto simp: classify_def split: option.split)
  ultimately show ?thesis unfolding Send_def same_outcome_def by (elim disjE exE conjE) simp_all
qed

text \<open>
  C34: Credentials do not leak into the database. What the worker stores about a claimed delivery (its
  state, the response code, the recorded error, the audit) is the same for any two sets of
  credentials under which the same ones are present, as long as the provider answers alike: the
  error texts are built from the provider and the status of its answer, never from the request.
  The destination stored with the delivery is one that validation accepted, as every destination
  of an accepted configuration is; and of \<open>net/url\<close> it is assumed that, below the default server or
  an accepted one, the value of the token in the address of the Telegram Bot API does not decide
  whether that address parses.
\<close>

theorem stored_outcome_hides_credentials:
  assumes "w = w0\<lparr>nw_sender := s\<lparr>sn_resolve := Some (\<lambda>names. Inr m), sn_do := (\<lambda>_. answer)\<rparr>\<rparr>"
    and "w' = w0\<lparr>nw_sender := s\<lparr>sn_resolve := Some (\<lambda>names. Inr m'), sn_do := (\<lambda>_. answer)\<rparr>\<rparr>"
    and "\<forall>k. is_ok (requiredSecret m k) = is_ok (requiredSecret m' k)"
    and "bot_segment_irrelevant parse s"
    and "\<forall>ds. destination_of_json (nv_config v) = Some ds \<longrightarrow> destination_validate parse ds = Inr ()"
  shows "deliver_claimed amb w v d = deliver_claimed amb w' v d"
proof (rule deliver_claimed_sender)
  have "alike m m'" using assms(3) by (simp add: alike_def)
  then show "Send (nw_sender w) now ds msg i = Send (nw_sender w') now ds msg i"
    if "destination_of_json (nv_config v) = Some ds" for ds now msg i
    using Send_alike[OF _ assms(4)] assms(5) that unfolding assms(1,2) by simp
  show "w = w'\<lparr>nw_sender := nw_sender w\<rparr>" by (simp add: assms(1,2))
qed

section \<open>Settling\<close>

lemma stored_None: "stored r = (None, d) \<longleftrightarrow> r = (Inr (), d)"
  by (cases r; cases "fst r") (auto simp: stored_def)

lemma Send_accepted: "Send s now ds m i = (status, None) \<Longrightarrow> 200 \<le> status \<and> status < 300"
  by (auto simp: Send_def classify_def split: option.split_asm sum.split_asm if_split_asm prod.split_asm)

lemma deliver_claimed_cases:
  assumes "deliver_claimed amb w v d = (None, d')"
  obtains (failed) reason retryable where "FailNotificationDelivery amb v (nw_id w) reason retryable d = (Inr (), d')"
  | (accepted) status where "200 \<le> status" "status < 300" "CompleteNotificationDelivery amb v (nw_id w) status d = (Inr (), d')"
proof (cases "Render (nw_query w) (nv_event_type v) (nv_automation_id v) (nv_subject_id v) (nv_payload v) (nw_public_url w) (nv_event_created_at v)")
  case (Inl e)
  with assms failed show thesis by (simp add: deliver_claimed_def stored_None)
next
  case (Inr m)
  show thesis
  proof (cases "destination_of_json (nv_config v)")
    case None
    with Inr assms failed show thesis by (simp add: deliver_claimed_def stored_None)
  next
    case (Some ds)
    obtain status err where s: "Send (nw_sender w) (go_now amb) ds m (nv_id v) = (status, err)" by fastforce
    show thesis
    proof (cases err)
      case None
      with Send_accepted s have "200 \<le> status" "status < 300" by blast+
      moreover have "CompleteNotificationDelivery amb v (nw_id w) status d = (Inr (), d')"
        using None s Inr Some assms by (simp add: deliver_claimed_def stored_None)
      ultimately show thesis by (rule accepted)
    next
      case (Some x)
      with s \<open>destination_of_json (nv_config v) = Some ds\<close> Inr assms failed show thesis
        by (cases x) (simp add: deliver_claimed_def stored_None)
    qed
  qed
qed

lemma completed_delivery:
  assumes "outbox_ok d" and "AcquireNotificationDelivery amb w d = (Inr (Some v), d1)"
    and "CompleteNotificationDelivery amb' v w c d1 = (Inr (), d2)"
  shows "\<exists>x y. delivery_by_id d (nv_id v) = Some x \<and> delivery_by_id d2 (nv_id v) = Some y \<and> nd_attempt y = nd_attempt x + 1
    \<and> nd_lease_owner y = None \<and> nd_status y = RunSucceeded \<and> nd_response_code y = Some c"
  using assms(2)
proof (cases rule: AcquireNotificationDelivery_cases)
  case (claimed x n)
  have look: "delivery_by_id d (nd_id x) = Some x"
    using claimed(1) assms(1) delivery_table.lookup_iff by (simp add: outbox_tables_ok_def)
  have v: "nv_id v = nd_id x" using claimed(4) by (simp add: claimed_delivery_def)
  have d1: "delivery_by_id d1 (nd_id x) = Some (claim_delivery amb w x)"
    using look unfolding claimed(5) delivery_by_id_def
    by (simp, subst find_update_where) (simp_all add: claim_delivery_def)
  from CompleteNotificationDelivery_Inr[OF assms(3)] have d2: "notification_deliveries d2 =
      update_where (owns_delivery (nv_id v) w) (delivered amb' c) (notification_deliveries d1)" by auto
  have "delivery_by_id d2 (nd_id x) = Some (delivered amb' c (claim_delivery amb w x))"
    using d1 unfolding delivery_by_id_def d2
    by (subst find_update_where) (simp_all add: delivered_def owns_delivery_def claim_delivery_def v)
  then show ?thesis using look v by (auto simp: delivered_def claim_delivery_def)
qed simp

text \<open>
  C33: Every delivery the worker claims is settled by the same iteration. Unless the store fails, the
  attempt is counted once, the lease is gone, and the delivery has succeeded with a response code
  of the provider between 200 and 299, is queued again between ten seconds and ten minutes later
  with fewer than five attempts used, or has failed for good.
\<close>

theorem claimed_delivery_settled:
  assumes "outbox_ok d" and "AcquireNotificationDelivery amb (nw_id w) d = (Inr (Some v), d1)"
    and "deliver_claimed amb' w v d1 = (None, d2)"
  shows "\<exists>x y. delivery_by_id d (nv_id v) = Some x \<and> delivery_by_id d2 (nv_id v) = Some y \<and> nd_attempt y = nd_attempt x + 1
    \<and> nd_lease_owner y = None
    \<and> (nd_status y = RunSucceeded \<and> (\<exists>c. nd_response_code y = Some c \<and> 200 \<le> c \<and> c < 300)
       \<or> nd_status y = RunQueued \<and> nd_attempt y < 5 \<and> go_now amb' + 10 * second \<le> nd_available_at y
           \<and> nd_available_at y \<le> go_now amb' + 10 * minute
       \<or> nd_status y = RunFailed)"
  using assms(3)
proof (cases rule: deliver_claimed_cases)
  case (failed reason retryable)
  from delivery_attempt_outcome[OF assms(1,2) failed] show ?thesis by (auto split: if_splits)
next
  case (accepted status)
  from completed_delivery[OF assms(1,2) accepted(3)] accepted(1,2) show ?thesis by auto
qed

section \<open>What the endpoint check lets through\<close>

text \<open>An IPv6 address has no dot, so a public one counts as a private host and plain HTTP is allowed.\<close>

lemma public_ipv6_counts_private: "privateHTTPHost ''2606:4700:4700::1111''"
  by code_simp

text \<open>A server with a leading space passes the first check, which trims it; reading the second parse panics.\<close>

lemma untrimmed_base_url_panics:
  assumes "validateEndpointURL parse raw = Inr ()" and "parse raw = None"
  shows "validateBaseURL parse raw = Inl ConfigPanic"
  using assms by (simp add: validateBaseURL_def)

section \<open>Examples\<close>

definition ops_destination :: destination where
  "ops_destination = empty_destination\<lparr>de_id := ''ops'', de_provider := ''ntfy'', de_server := ''https://ntfy.example'',
     de_topic := ''alerts'', de_token_secret := ''ntfy-token''\<rparr>"

definition sample_config :: notification_config where
  "sample_config = \<lparr>nc_destinations = [ops_destination],
     nc_routes = [\<lparr>ro_events = [''run.failed'', ''notification.test''], ro_automations = [], ro_destinations = [''ops'', ''ops'']\<rparr>]\<rparr>"

definition sample_parse :: url_parser where
  "sample_parse u = (if u = ''https://ntfy.example'' then Some \<lparr>u_scheme = ''https'', u_host = ''ntfy.example'', u_has_user = False,
     u_hostname = ''ntfy.example'', u_raw_query = [], u_fragment = []\<rparr> else None)"

theorem routing_exact_witness:
  "destination_of_json (destination_json ops_destination) = Some ops_destination"
proof -
  have "config_Validate sample_parse sample_config = Inr ()" by code_simp
  moreover have "DestinationsFor sample_config ''run.failed'' ''orders'' = [ops_destination]" by code_simp
  ultimately show ?thesis
    using routing_exact[of sample_parse sample_config "''run.failed''" "''orders''"]
    by (simp only: list.set(2) insert_iff simp_thms ball_simps)
qed

definition sample_sender :: sender where
  "sample_sender = \<lparr>sn_resolve = None, sn_url_ok = (\<lambda>_. True), sn_do = (\<lambda>_. None), sn_hmac = (\<lambda>k x. k @ x), sn_pushover_status = (\<lambda>_. None)\<rparr>"

definition sample_notifier :: notification_worker where
  "sample_notifier = \<lparr>nw_id = ''w1'', nw_config = sample_config, nw_sender = sample_sender, nw_public_url = ''https://werkt.example/'',
     nw_query = (\<lambda>u q. Some u), nw_window = 0, nw_last_scan = None\<rparr>"

definition telegram_destination :: destination where
  "telegram_destination = empty_destination\<lparr>de_id := ''chat'', de_provider := ''telegram'', de_server := ''https://ntfy.example'',
     de_bot_token_secret := ''bot-token'', de_chat_id := ''42''\<rparr>"

definition chat_delivery :: notification_delivery where
  "chat_delivery = (the (projr (fst sample_claimed)))\<lparr>nv_config := destination_json telegram_destination\<rparr>"

text \<open>A sender that takes only HTTPS addresses, and answers each request with the given status.\<close>

definition chat_sender :: "string \<Rightarrow> sender" where
  "chat_sender token = sample_sender\<lparr>sn_url_ok := (\<lambda>u. HasPrefix u ''https://''),
     sn_resolve := Some (\<lambda>names. Inr [(''bot-token'', token)]), sn_do := (\<lambda>_. Some (500, []))\<rparr>"

lemma chat_segment_irrelevant: "bot_segment_irrelevant sample_parse (sample_sender\<lparr>sn_url_ok := (\<lambda>u. HasPrefix u ''https://'')\<rparr>)"
proof -
  have trimmed: "TrimRightSlashes ''https://api.telegram.org'' = ''https://'' @ ''api.telegram.org''"
    "TrimRightSlashes ''https://ntfy.example'' = ''https://'' @ ''ntfy.example''" by code_simp+
  have pre: "HasPrefix ((p @ y) @ z) p" for p y z by (simp add: HasPrefix_def)
  have "HasPrefix (TrimRightSlashes ''https://api.telegram.org'' @ z) ''https://''"
    and "HasPrefix (TrimRightSlashes ''https://ntfy.example'' @ z) ''https://''" for z
    unfolding trimmed by (rule pre)+
  moreover have "server = ''https://ntfy.example''" if "validateBaseURL sample_parse server = Inr ()" for server
    using that by (simp add: validateBaseURL_def bindR_eq_Inr sample_parse_def split: if_split_asm)
  ultimately show ?thesis unfolding bot_segment_irrelevant_def by fastforce
qed

theorem stored_outcome_hides_credentials_witness:
  "deliver_claimed (sample_ambient 4 (minute + second)) (sample_notifier\<lparr>nw_sender := chat_sender ''hunter2''\<rparr>) chat_delivery (snd sample_claimed)
   = deliver_claimed (sample_ambient 4 (minute + second)) (sample_notifier\<lparr>nw_sender := chat_sender ''other''\<rparr>) chat_delivery (snd sample_claimed)"
proof -
  have "destination_validate sample_parse telegram_destination = Inr ()" by code_simp
  then have "\<forall>ds. destination_of_json (nv_config chat_delivery) = Some ds \<longrightarrow> destination_validate sample_parse ds = Inr ()"
    by (simp add: chat_delivery_def destination_round_trip)
  moreover have "\<forall>k. is_ok (requiredSecret [(''bot-token'', ''hunter2'')] k) = is_ok (requiredSecret [(''bot-token'', ''other'')] k)"
    by (auto simp: requiredSecret_def)
  ultimately show ?thesis
    by (intro stored_outcome_hides_credentials[OF _ _ _ chat_segment_irrelevant]) (simp_all add: chat_sender_def)
qed

definition sample_settled :: "store_error option \<times> db" where
  "sample_settled = deliver_claimed (sample_ambient 4 (minute + second)) sample_notifier (the (projr (fst sample_claimed))) (snd sample_claimed)"

theorem claimed_delivery_settled_witness:
  "\<exists>y. delivery_by_id (snd sample_settled) (nv_id (the (projr (fst sample_claimed)))) = Some y \<and> nd_status y \<noteq> RunRunning \<and> nd_lease_owner y = None"
proof -
  have *: "is_ok (fst sample_claimed)" "projr (fst sample_claimed) \<noteq> None" "fst sample_settled = None" by code_simp+
  then have a: "AcquireNotificationDelivery (sample_ambient 3 minute) (nw_id sample_notifier) (snd sample_expanded)
      = (Inr (Some (the (projr (fst sample_claimed)))), snd sample_claimed)"
    using ok_result[of sample_claimed] by (simp add: sample_claimed_def sample_notifier_def)
  have "deliver_claimed (sample_ambient 4 (minute + second)) sample_notifier (the (projr (fst sample_claimed))) (snd sample_claimed)
      = (None, snd sample_settled)"
    using *(3) by (metis sample_settled_def prod.collapse)
  from claimed_delivery_settled[OF sample_expanded_ok a this] show ?thesis by auto
qed

end
