(* ===== verification/Drafts.thy ===== *)
theory Drafts
  imports Messages "HOL-Library.AList"
begin

text \<open>
  The draft of an automation and its validation (\<open>authoring/types.go\<close>), and the catalogue of
  operations a draft may use (\<open>authoring/catalog.go\<close>). The regular expressions are those of the
  manifest. A Go map is an association list in the order in which its keys were first stored;
  the problems found are sorted before they are reported. SHA-256 is an argument, the time zone
  table comes from the ambient inputs, and a probability is the rational its \<open>float64\<close> denotes. A nil
  slice is the empty list. File paths and hosts are compared in lower case on the ASCII range, so two
  paths that differ only in the case of other letters count as different here.
\<close>

section \<open>The draft\<close>

record draft_trigger =
  dt_id :: string
  dt_type :: string
  dt_cron :: string
  dt_timezone :: string
  dt_secret :: string
  dt_provider :: string
  dt_signature_header :: string
  dt_server :: string
  dt_topic :: string
  dt_token_secret :: string

record workflow_step =
  ws_id :: string
  ws_title :: string
  ws_connector :: string
  ws_operation :: string
  ws_effect :: string
  ws_depends_on :: "string list"
  ws_inputs :: "string list"
  ws_outputs :: "string list"

record secret_binding =
  sb_environment :: string
  sb_secret :: string
  sb_description :: string

record draft_egress =
  dg_host :: string
  dg_port :: int

record draft_file =
  df_path :: string
  df_content :: string

record operation_decision =
  od_id :: string
  od_selected :: bool
  od_relevance :: rat
  od_primary :: rat

record decision_summary =
  dn_provider :: string
  dn_model :: string
  dn_confidence :: rat
  dn_trigger :: string
  dn_trigger_confidence :: rat
  dn_risk_score :: rat
  dn_approval_probability :: rat
  dn_operations :: "operation_decision list"
  dn_input_tokens :: int
  dn_output_tokens :: int

record draft =
  dr_name :: string
  dr_description :: string
  dr_trigger :: draft_trigger
  dr_steps :: "workflow_step list"
  dr_secrets :: "secret_binding list"
  dr_egress :: "draft_egress list"
  dr_files :: "draft_file list"
  dr_warnings :: "string list"
  dr_decision :: decision_summary

definition MaxIntentBytes :: nat where "MaxIntentBytes = 16384"
definition MaxFiles :: nat where "MaxFiles = 16"
definition MaxFileBytes :: nat where "MaxFileBytes = 131072"
definition MaxTotalBytes :: nat where "MaxTotalBytes = 524288"

section \<open>The catalogue of operations\<close>

record operation_spec =
  op_id :: string
  op_title :: string
  op_description :: string
  op_connector :: string
  op_operation :: string
  op_effect :: string
  op_stage :: nat
  op_secrets :: "secret_binding list"
  op_egress :: "draft_egress list"

definition https_host :: "string \<Rightarrow> draft_egress" where
  "https_host h = \<lparr>dg_host = h, dg_port = 443\<rparr>"

definition sheets_secrets :: "secret_binding list" where
  "sheets_secrets = [\<lparr>sb_environment = ''GOOGLE_SERVICE_ACCOUNT_JSON'', sb_secret = ''google/service-account'',
     sb_description = ''Google service-account JSON''\<rparr>]"

definition sheets_egress :: "draft_egress list" where
  "sheets_egress = [https_host ''oauth2.googleapis.com'', https_host ''sheets.googleapis.com'']"

definition openai_secrets :: "secret_binding list" where
  "openai_secrets = [\<lparr>sb_environment = ''OPENAI_API_KEY'', sb_secret = ''openai/api-key'', sb_description = ''OpenAI API key''\<rparr>]"

definition zoom_secrets :: "secret_binding list" where
  "zoom_secrets =
     [\<lparr>sb_environment = ''ZOOM_ACCOUNT_ID'', sb_secret = ''zoom/account-id'',
        sb_description = ''Zoom Server-to-Server OAuth account ID''\<rparr>,
      \<lparr>sb_environment = ''ZOOM_CLIENT_ID'', sb_secret = ''zoom/client-id'',
        sb_description = ''Zoom Server-to-Server OAuth client ID''\<rparr>,
      \<lparr>sb_environment = ''ZOOM_CLIENT_SECRET'', sb_secret = ''zoom/client-secret'',
        sb_description = ''Zoom Server-to-Server OAuth client secret''\<rparr>]"

definition operationCatalog :: "operation_spec list" where
  "operationCatalog =
     [\<lparr>op_id = ''zoom-recording'', op_title = ''Read a Zoom recording'',
        op_description = ''Fetch Zoom cloud-recording metadata for a supplied recording UUID'',
        op_connector = ''zoom'', op_operation = ''recording'', op_effect = ''read'', op_stage = 10,
        op_secrets = zoom_secrets, op_egress = [https_host ''zoom.us'', https_host ''api.zoom.us'']\<rparr>,
      \<lparr>op_id = ''sheets-read'', op_title = ''Read Google Sheets values'',
        op_description = ''Read values from a supplied Google spreadsheet ID and range'',
        op_connector = ''google-sheets'', op_operation = ''values'', op_effect = ''read'', op_stage = 10,
        op_secrets = sheets_secrets, op_egress = sheets_egress\<rparr>,
      \<lparr>op_id = ''openai-transcribe'', op_title = ''Transcribe audio'',
        op_description = ''Transcribe an audio file supplied to the run using OpenAI'',
        op_connector = ''openai'', op_operation = ''transcribe'', op_effect = ''compute'', op_stage = 20,
        op_secrets = openai_secrets, op_egress = [https_host ''api.openai.com'']\<rparr>,
      \<lparr>op_id = ''openai-vision'', op_title = ''Analyze an image'',
        op_description = ''Analyze an image supplied to the run using an OpenAI vision model'',
        op_connector = ''openai'', op_operation = ''vision'', op_effect = ''compute'', op_stage = 20,
        op_secrets = openai_secrets, op_egress = [https_host ''api.openai.com'']\<rparr>,
      \<lparr>op_id = ''openai-chat'', op_title = ''Transform or summarize content'',
        op_description = ''Transform, classify, summarize, or draft text using an OpenAI chat model'',
        op_connector = ''openai'', op_operation = ''chat'', op_effect = ''compute'', op_stage = 30,
        op_secrets = openai_secrets, op_egress = [https_host ''api.openai.com'']\<rparr>,
      \<lparr>op_id = ''operator-notify'', op_title = ''Notify the operator'',
        op_description = ''Queue an audited notification in the Werkt workspace for an operator'',
        op_connector = ''werkt'', op_operation = ''notify'', op_effect = ''write'', op_stage = 40,
        op_secrets = [], op_egress = []\<rparr>,
      \<lparr>op_id = ''sheets-update'', op_title = ''Update Google Sheets values'',
        op_description = ''Write computed values to a supplied Google spreadsheet ID and range'',
        op_connector = ''google-sheets'', op_operation = ''update'', op_effect = ''write'', op_stage = 40,
        op_secrets = sheets_secrets, op_egress = sheets_egress\<rparr>,
      \<lparr>op_id = ''sheets-clear'', op_title = ''Clear a Google Sheets range'',
        op_description = ''Destructively clear values from a supplied Google spreadsheet ID and range'',
        op_connector = ''google-sheets'', op_operation = ''clear'', op_effect = ''write'', op_stage = 40,
        op_secrets = sheets_secrets, op_egress = sheets_egress\<rparr>]"

definition operationByID :: "string \<Rightarrow> operation_spec option" where
  "operationByID i = find (\<lambda>p. op_id p = i) operationCatalog"

section \<open>The trigger\<close>

definition draft_trigger_problems :: "ambient \<Rightarrow> draft_trigger \<Rightarrow> string list" where
  "draft_trigger_problems amb t =
     only_if (\<not> identifier_pattern (dt_id t)) ''trigger.id is invalid'' @
     (if dt_type t = ''schedule'' then
        only_if (blank (dt_cron t)) ''schedule trigger requires cron'' @
        (if blank (dt_timezone t) then [''schedule trigger requires timezone'']
         else only_if (load_location amb (dt_timezone t) = None) ''schedule trigger requires a valid IANA timezone'')
      else if dt_type t = ''webhook'' then
        only_if (\<not> secretName (dt_secret t)) ''webhook trigger requires a valid secret reference'' @
        only_if (dt_provider t \<noteq> [] \<and> dt_provider t \<noteq> ''werkt'' \<and> dt_provider t \<noteq> ''github'' \<and> dt_provider t \<noteq> ''zoom'')
          ''webhook provider must be werkt, github, or zoom''
      else if dt_type t = ''email'' then
        only_if (\<not> secretName (dt_token_secret t)) ''email trigger requires a valid token_secret reference''
      else if dt_type t = ''ntfy'' then
        only_if (blank (dt_server t) \<or> blank (dt_topic t)) ''ntfy trigger requires server and topic'' @
        only_if (dt_token_secret t \<noteq> [] \<and> \<not> secretName (dt_token_secret t)) ''ntfy token_secret is invalid''
      else [''trigger.type must be schedule, webhook, email, or ntfy''])"

section \<open>The steps\<close>

definition indexed :: "string \<Rightarrow> nat \<Rightarrow> string" where
  "indexed name index = name @ ''['' @ decimal index @ '']''"

fun step_problems :: "nat \<Rightarrow> string list \<Rightarrow> workflow_step list \<Rightarrow> string list" where
  "step_problems index seen [] = []"
| "step_problems index seen (s # ss) =
     (let path = indexed ''steps'' index in
      only_if (\<not> identifier_pattern (ws_id s)) (path @ ''.id is invalid'') @
      only_if (ws_id s \<in> set seen) (path @ ''.id is duplicated'') @
      only_if (blank (ws_title s) \<or> blank (ws_connector s) \<or> blank (ws_operation s))
        (path @ '' requires title, connector, and operation'') @
      only_if (ws_effect s \<noteq> ''read'' \<and> ws_effect s \<noteq> ''write'' \<and> ws_effect s \<noteq> ''compute'' \<and> ws_effect s \<noteq> ''approval'')
        (path @ ''.effect must be read, write, compute, or approval'') @
      step_problems (Suc index) (ws_id s # seen) ss)"

text \<open>The last step of an identifier decides what it depends on and where it stands.\<close>

definition dependencies :: "workflow_step list \<Rightarrow> (string \<times> string list) list" where
  "dependencies ss = foldl (\<lambda>m s. AList.update (ws_id s) (ws_depends_on s) m) [] ss"

definition positions :: "workflow_step list \<Rightarrow> (string \<times> nat) list" where
  "positions ss = foldl (\<lambda>m (i, s). AList.update (ws_id s) i m) [] (enumerate 0 ss)"

definition position_at :: "(string \<times> nat) list \<Rightarrow> string \<Rightarrow> nat" where
  "position_at m i = (case map_of m i of None \<Rightarrow> 0 | Some p \<Rightarrow> p)"

definition dependency_problems :: "(string \<times> nat) list \<Rightarrow> string \<Rightarrow> string \<Rightarrow> string list" where
  "dependency_problems known i dependency =
     (case map_of known dependency of
        None \<Rightarrow> [''step '' @ i @ '' depends on unknown step '' @ dependency]
      | Some p \<Rightarrow> only_if (position_at known i \<le> p) (''step '' @ i @ '' must appear after dependency '' @ dependency))"

definition order_problems :: "workflow_step list \<Rightarrow> string list" where
  "order_problems ss =
     concat (map (\<lambda>(i, required). concat (map (dependency_problems (positions ss) i) required)) (dependencies ss))"

text \<open>
  The depth-first search for a cycle, with the identifiers on the current path and those that are
  finished. \<open>fuel\<close> bounds the depth of the recursion; the search is shown not to run out of it.
\<close>

definition required_by :: "(string \<times> string list) list \<Rightarrow> string \<Rightarrow> string list" where
  "required_by deps i = (case map_of deps i of None \<Rightarrow> [] | Some ds \<Rightarrow> ds)"

fun visit :: "nat \<Rightarrow> (string \<times> string list) list \<Rightarrow> string \<Rightarrow> string list \<times> string list
    \<Rightarrow> (bool \<times> string list \<times> string list) option"
and visit_all :: "nat \<Rightarrow> (string \<times> string list) list \<Rightarrow> string list \<Rightarrow> string list \<times> string list
    \<Rightarrow> (bool \<times> string list \<times> string list) option" where
  "visit 0 deps i st = None"
| "visit (Suc fuel) deps i (visiting, visited) =
     (if i \<in> set visiting then Some (True, visiting, visited)
      else if i \<in> set visited then Some (False, visiting, visited)
      else (case visit_all fuel deps (required_by deps i) (i # visiting, visited) of
          None \<Rightarrow> None
        | Some (True, st) \<Rightarrow> Some (True, st)
        | Some (False, visiting', visited') \<Rightarrow> Some (False, removeAll i visiting', i # visited')))"
| "visit_all fuel deps [] st = Some (False, st)"
| "visit_all fuel deps (i # is) st =
     (case visit fuel deps i st of
        None \<Rightarrow> None
      | Some (True, st') \<Rightarrow> Some (True, st')
      | Some (False, st') \<Rightarrow> visit_all fuel deps is st')"

definition finds_cycle :: "(string \<times> string list) list \<Rightarrow> bool option" where
  "finds_cycle deps = map_option fst (visit_all (Suc (length deps)) deps (map fst deps) ([], []))"

definition validateSteps :: "workflow_step list \<Rightarrow> string list" where
  "validateSteps ss =
     (if ss = [] \<or> 32 < length ss then [''steps must contain 1-32 entries'']
      else step_problems 0 [] ss @ order_problems ss @
        only_if (finds_cycle (dependencies ss) = Some True) ''steps contain a dependency cycle'')"

section \<open>Secrets, egress and files\<close>

fun validateSecrets :: "nat \<Rightarrow> string list \<Rightarrow> secret_binding list \<Rightarrow> string list" where
  "validateSecrets index seen [] = []"
| "validateSecrets index seen (v # vs) =
     (let path = indexed ''secrets'' index in
      only_if (\<not> environmentName (sb_environment v) \<or> HasPrefix (sb_environment v) ''WERKT_'')
        (path @ ''.environment is invalid or reserved'') @
      only_if (\<not> secretName (sb_secret v) \<or> 128 < length (sb_secret v)) (path @ ''.secret is invalid'') @
      only_if (sb_environment v \<in> set seen) (path @ ''.environment is duplicated'') @
      validateSecrets (Suc index) (sb_environment v # seen) vs)"

definition validHostname :: "string \<Rightarrow> bool" where
  "validHostname value = list_all hostname_label (Split value (CHR ''.''))"

definition egress_key :: "draft_egress \<Rightarrow> string" where
  "egress_key v = ToLower (TrimSuffix (dg_host v) ''.'') @ '':'' @ decimal_int (dg_port v)"

fun validateEgress :: "nat \<Rightarrow> string list \<Rightarrow> draft_egress list \<Rightarrow> string list" where
  "validateEgress index seen [] = []"
| "validateEgress index seen (v # vs) =
     (let path = indexed ''egress'' index; host = TrimSuffix (dg_host v) ''.'' in
      only_if (host = [] \<or> 253 < length host \<or> ContainsAny host ''/:@ '' \<or> ParseIP host = None \<and> \<not> validHostname host)
        (path @ ''.host must be an exact hostname or IP address'') @
      only_if (dg_port v < 1 \<or> 65535 < dg_port v) (path @ ''.port must be between 1 and 65535'') @
      only_if (egress_key v \<in> set seen) (path @ '' duplicates an egress destination'') @
      validateEgress (Suc index) (egress_key v # seen) vs)"

definition is_test_file :: "string \<Rightarrow> bool" where
  "is_test_file path = (HasPrefix path ''test_'' \<and> HasSuffix path ''.py'')"

fun file_problems :: "nat \<Rightarrow> string list \<Rightarrow> draft_file list \<Rightarrow> string list" where
  "file_problems index seen [] = []"
| "file_problems index seen (f # fs) =
     (let path = indexed ''files'' index; clean = Clean (df_path f) in
      only_if (clean \<noteq> df_path f \<or> clean = ''.'' \<or> HasPrefix clean ''../'' \<or> IsAbs (df_path f))
        (path @ ''.path is unsafe or not normalized'') @
      only_if (\<not> HasSuffix (df_path f) ''.py'' \<or> Contains (df_path f) ''/'' \<or> HasPrefix (df_path f) ''.'')
        (path @ ''.path must be a root-level Python file'') @
      only_if (ToLower clean \<in> set seen) (path @ ''.path is duplicated'') @
      only_if (df_content f = [] \<or> MaxFileBytes < length (df_content f))
        (path @ ''.content must contain 1-'' @ decimal MaxFileBytes @ '' bytes'') @
      file_problems (Suc index) (ToLower clean # seen) fs)"

definition validateFiles :: "draft_file list \<Rightarrow> string list" where
  "validateFiles fs =
     (if fs = [] \<or> MaxFiles < length fs then [''files must contain 1-'' @ decimal MaxFiles @ '' entries'']
      else file_problems 0 [] fs @
        only_if (\<not> list_ex (\<lambda>f. df_path f = ''main.py'') fs) ''files must include main.py'' @
        only_if (\<not> list_ex (\<lambda>f. is_test_file (df_path f)) fs) ''files must include at least one test_*.py file'' @
        only_if (MaxTotalBytes < sum_list (map (\<lambda>f. length (df_content f)) fs))
          (''files exceed the '' @ decimal MaxTotalBytes @ ''-byte total limit''))"

section \<open>Validation\<close>

definition in_unit :: "rat \<Rightarrow> bool" where
  "in_unit v = (0 \<le> v \<and> v \<le> 1)"

definition decision_problems :: "decision_summary \<Rightarrow> string list" where
  "decision_problems n =
     only_if (dn_provider n \<noteq> ''typesafe'' \<or> blank (dn_model n) \<or> \<not> in_unit (dn_confidence n)
       \<or> \<not> in_unit (dn_trigger_confidence n) \<or> \<not> in_unit (dn_approval_probability n)
       \<or> dn_risk_score n < 0 \<or> 3 < dn_risk_score n) ''decision metadata is invalid'' @
     concat (map (\<lambda>(index, p). only_if (operationByID (od_id p) = None \<or> \<not> in_unit (od_relevance p) \<or> \<not> in_unit (od_primary p))
       (indexed ''decision.operations'' index @ '' is invalid'')) (enumerate 0 (dn_operations n)))"

definition warning_problems :: "string list \<Rightarrow> string list" where
  "warning_problems ws = concat (map (\<lambda>(index, w). only_if (blank w \<or> 500 < length w)
     (indexed ''warnings'' index @ '' must contain 1-500 bytes'')) (enumerate 0 ws))"

definition draft_problems :: "ambient \<Rightarrow> draft \<Rightarrow> string \<Rightarrow> string list" where
  "draft_problems amb d expectedName =
     only_if (\<not> identifier_pattern (dr_name d))
       ''name must start with a letter and contain only lowercase letters, digits, or hyphens'' @
     only_if (expectedName \<noteq> [] \<and> dr_name d \<noteq> expectedName)
       (''name is '' @ quoted (dr_name d) @ '', expected '' @ quoted expectedName) @
     only_if (blank (dr_description d) \<or> 500 < length (dr_description d)) ''description must contain 1-500 bytes'' @
     draft_trigger_problems amb (dr_trigger d) @
     validateSteps (dr_steps d) @
     validateSecrets 0 [] (dr_secrets d) @
     validateEgress 0 [] (dr_egress d) @
     validateFiles (dr_files d) @
     decision_problems (dr_decision d) @
     warning_problems (dr_warnings d)"

definition draft_Validate :: "ambient \<Rightarrow> draft \<Rightarrow> string \<Rightarrow> string + unit" where
  "draft_Validate amb d expectedName =
     (let problems = draft_problems amb d expectedName in
      guardR (problems \<noteq> []) (Join (sort problems) ''; '') (Inr ()))"

definition IntentDigest :: "(string \<Rightarrow> string) \<Rightarrow> string \<Rightarrow> string" where
  "IntentDigest sha256 intent = hex_encode (sha256 intent)"

end
