(* ===== verification/Drafting.thy ===== *)
theory Drafting
  imports Drafts "HOL-Library.Log_Nat"
begin

text \<open>
  From an intent in plain language to a draft: the questions put to the decision model, the check of
  its answers (\<open>authoring/client.go\<close>) and the compilation of the answers (\<open>authoring/compile.go\<close>).
  The model only answers typed questions; which steps the draft has, in which order, with which
  secrets, destinations and approval, is decided by this code. The HTTP client, the encoder of the
  request, the decoders of the response, \<open>url.Parse\<close> and \<open>strings.ToLower\<close> on Unicode (\<open>lower\<close>) are
  arguments. A \<open>float64\<close> is the rational it denotes; JSON has no other values. A loop over a Go map
  goes through the list in its order, which decides which of several errors is reported and how
  the sum of a distribution is rounded.
\<close>

section \<open>Floating point\<close>

text \<open>
  The rational nearest to \<open>q\<close> that is a \<open>float64\<close>, ties to even; \<open>q\<close> is not negative and in range.
\<close>

definition binary_exponent :: "rat \<Rightarrow> int" where
  "binary_exponent q = (case quotient_of q of (a, b) \<Rightarrow>
     let e = int (floorlog 2 (nat a)) - int (floorlog 2 (nat b)) in if 2 powi e \<le> q then e else e - 1)"

definition round_even :: "rat \<Rightarrow> int" where
  "round_even q = (let k = \<lfloor>q\<rfloor>; r = q - of_int k in if r < 1 / 2 \<or> r = 1 / 2 \<and> even k then k else k + 1)"

definition float64 :: "rat \<Rightarrow> rat" where
  "float64 q = (if q \<le> 0 then 0 else let u = 2 powi (max (binary_exponent q - 52) (- 1074)) in of_int (round_even (q / u)) * u)"

text \<open>The verb \<open>%.2f\<close> for a value that is not negative.\<close>

definition fixed2 :: "rat \<Rightarrow> string" where
  "fixed2 q = (let k = nat (round_even (q * 100)) in decimal (k div 100) @ ''.'' @ two_digits (int (k mod 100)))"

definition operationSelectionThreshold :: rat where "operationSelectionThreshold = float64 (60 / 100)"
definition primaryCandidateThreshold :: rat where "primaryCandidateThreshold = float64 (18 / 100)"
definition dependencyThreshold :: rat where "dependencyThreshold = float64 (65 / 100)"
definition approvalThreshold :: rat where "approvalThreshold = float64 (60 / 100)"

section \<open>Questions and answers\<close>

record answer =
  an_type :: string
  an_choice :: string
  an_noul :: rat
  an_score :: rat
  an_confidence :: rat
  an_probabilities :: "(string \<times> rat) list"

definition zero_answer :: answer where
  "zero_answer = \<lparr>an_type = [], an_choice = [], an_noul = 0, an_score = 0, an_confidence = 0, an_probabilities = []\<rparr>"

type_synonym answers = "(string \<times> answer) list"

definition answer_at :: "answers \<Rightarrow> string \<Rightarrow> answer" where
  "answer_at as i = (case map_of as i of None \<Rightarrow> zero_answer | Some a \<Rightarrow> a)"

definition probability_at :: "answer \<Rightarrow> string \<Rightarrow> rat" where
  "probability_at a i = (case map_of (an_probabilities a) i of None \<Rightarrow> 0 | Some p \<Rightarrow> p)"

text \<open>A response; the answers are nothing where the field is missing or null.\<close>

record jev_response =
  jr_model :: string
  jr_answers :: "answers option"
  jr_input_tokens :: int
  jr_output_tokens :: int

definition answers_of :: "jev_response \<Rightarrow> answers" where
  "answers_of r = (case jr_answers r of None \<Rightarrow> [] | Some as \<Rightarrow> as)"

datatype criteria = NoCriteria | Choices "(string \<times> string) list" | Levels "string list"

record question =
  qn_type :: string
  qn_instructions :: json
  qn_criteria :: criteria

definition underscored :: "string \<Rightarrow> string" where
  "underscored i = map (\<lambda>c. if c = CHR ''-'' then CHR ''_'' else c) i"

definition relevanceQuestion :: "string \<Rightarrow> string" where
  "relevanceQuestion i = ''use_'' @ underscored i"

definition dependencyQuestion :: "string \<Rightarrow> string \<Rightarrow> string" where
  "dependencyQuestion later earlier = ''depends_'' @ underscored later @ ''__'' @ underscored earlier"

definition noul_question :: "json \<Rightarrow> question" where
  "noul_question text = \<lparr>qn_type = ''noul'', qn_instructions = text, qn_criteria = NoCriteria\<rparr>"

definition relevance_question :: "operation_spec \<Rightarrow> string \<times> question" where
  "relevance_question p = (relevanceQuestion (op_id p),
     noul_question (JString (''Does the requested automation need this operation: '' @ op_description p @ ''?'')))"

definition dependency_question :: "operation_spec \<Rightarrow> operation_spec \<Rightarrow> string \<times> question" where
  "dependency_question later earlier = (dependencyQuestion (op_id later) (op_id earlier), noul_question (JObject
     [(''question'', JString (''To fulfill the request, does '' @ [CHR 0x60] @ ''later_operation'' @ [CHR 0x60]
        @ '' need the output or completion of '' @ [CHR 0x60] @ ''earlier_operation'' @ [CHR 0x60] @ ''?'')),
      (''earlier_operation'', JString (op_description earlier)), (''later_operation'', JString (op_description later))]))"

definition fixed_questions :: "(string \<times> question) list" where
  "fixed_questions =
     [(''trigger'', \<lparr>qn_type = ''choice'', qn_instructions = JString (''Which trigger shape does the requested automation ''
         @ ''explicitly call for? Choose webhook when no timing or inbound channel is stated.''),
       qn_criteria = Choices [(''webhook'', ''An on-demand or generic signed HTTP event''),
         (''schedule'', ''A recurring or time-based run''), (''email'', ''An inbound email''),
         (''ntfy'', ''An inbound ntfy topic message'')]\<rparr>),
      (''primary_operation'', \<lparr>qn_type = ''choice'', qn_instructions = JString (''Which available operation is the main outcome ''
         @ ''or indispensable capability requested by the automation?''),
       qn_criteria = Choices (map (\<lambda>p. (op_id p, op_description p)) operationCatalog)\<rparr>),
      (''requires_approval'', noul_question (JString (''Should a human explicitly approve this automation before it performs ''
         @ ''an external write, deletion, publication, or other consequential action?''))),
      (''risk'', \<lparr>qn_type = ''score'', qn_instructions = JString ''How consequential would an incorrect execution of this automation be?'',
       qn_criteria = Levels [''Read-only or readily reversible'', ''Low impact external change'',
         ''Meaningful publication or data mutation'', ''Destructive, sensitive, or difficult to reverse'']\<rparr>)]"

definition planningQuestions :: "(string \<times> question) list" where
  "planningQuestions = fixed_questions @ map relevance_question operationCatalog @
     concat (map (\<lambda>later. map (dependency_question later) (filter (\<lambda>earlier. op_stage earlier < op_stage later) operationCatalog))
       operationCatalog)"

section \<open>The check of the answers\<close>

fun distribution_total :: "(string \<times> rat) list \<Rightarrow> (string \<times> string) list \<Rightarrow> rat \<Rightarrow> rat option" where
  "distribution_total values [] acc = Some acc"
| "distribution_total values ((choice, _) # cs) acc =
     (case map_of values choice of
        None \<Rightarrow> None
      | Some p \<Rightarrow> if in_unit p then distribution_total values cs (float64 (acc + p)) else None)"

definition validateDistribution :: "(string \<times> rat) list \<Rightarrow> (string \<times> string) list \<Rightarrow> string + unit" where
  "validateDistribution values cs =
     guardR (length values \<noteq> length cs) ''probability distribution does not match the choices''
     (case distribution_total values cs 0 of
        None \<Rightarrow> Inl ''probability distribution contains an invalid choice or value''
      | Some acc \<Rightarrow> guardR (float64 (2 / 100) < float64 \<bar>acc - 1\<bar>) ''probabilities do not sum to one'' (Inr ()))"

definition in_answer :: "string \<Rightarrow> string \<Rightarrow> string" where
  "in_answer i what = ''answer '' @ quoted i @ what"

definition validate_answer :: "answers \<Rightarrow> string \<times> question \<Rightarrow> string + unit" where
  "validate_answer as item = (case item of (i, expected) \<Rightarrow> (case map_of as i of
     None \<Rightarrow> Inl (in_answer i '' is missing'')
   | Some a \<Rightarrow>
       guardR (an_type a \<noteq> qn_type expected)
         (in_answer i ('' has type '' @ quoted (an_type a) @ '', expected '' @ quoted (qn_type expected)))
       (case qn_criteria expected of
          NoCriteria \<Rightarrow> guardR (\<not> in_unit (an_noul a)) (in_answer i '' has an invalid noul'') (Inr ())
        | Choices cs \<Rightarrow>
            guardR (an_choice a \<notin> fst ` set cs \<or> \<not> in_unit (an_confidence a))
              (in_answer i '' has an invalid choice or confidence'')
            (case validateDistribution (an_probabilities a) cs of
               Inl e \<Rightarrow> Inl (in_answer i ('': '' @ e)) | Inr _ \<Rightarrow> Inr ())
        | Levels ls \<Rightarrow>
            guardR (an_score a < 0 \<or> of_nat (length ls - 1) < an_score a \<or> \<not> in_unit (an_confidence a))
              (in_answer i '' has an invalid score or confidence'') (Inr ()))))"

fun validateAnswers :: "answers \<Rightarrow> (string \<times> question) list \<Rightarrow> string + unit" where
  "validateAnswers as [] = Inr ()"
| "validateAnswers as (q # qs) = bindR (validate_answer as q) (\<lambda>_. validateAnswers as qs)"

section \<open>The choice of operations\<close>

record selected_operation =
  so_spec :: operation_spec
  so_probability :: rat
  so_depends_on :: "string list"

abbreviation so_id :: "selected_operation \<Rightarrow> string" where "so_id s \<equiv> op_id (so_spec s)"
abbreviation so_stage :: "selected_operation \<Rightarrow> nat" where "so_stage s \<equiv> op_stage (so_spec s)"

text \<open>Sorted by stage, and by identifier within a stage.\<close>

definition selectOperations :: "answer \<Rightarrow> answers \<Rightarrow> selected_operation list" where
  "selectOperations primary as =
     take 6 (sort_key so_stage (sort_key so_id
       (map (\<lambda>p. \<lparr>so_spec = p, so_probability = an_noul (answer_at as (relevanceQuestion (op_id p))), so_depends_on = []\<rparr>)
       (filter (\<lambda>p. op_id p = an_choice primary
           \<or> operationSelectionThreshold \<le> an_noul (answer_at as (relevanceQuestion (op_id p)))
           \<or> primaryCandidateThreshold \<le> probability_at primary (op_id p)) operationCatalog))))"

fun last_index :: "('a \<Rightarrow> bool) \<Rightarrow> nat \<Rightarrow> 'a list \<Rightarrow> nat option" where
  "last_index P n [] = None"
| "last_index P n (x # xs) = (case last_index P (Suc n) xs of Some k \<Rightarrow> Some k | None \<Rightarrow> if P x then Some n else None)"

definition resolveOperationConflicts :: "selected_operation list \<Rightarrow> string \<Rightarrow> selected_operation list" where
  "resolveOperationConflicts selected primary =
     (case (last_index (\<lambda>s. so_id s = ''sheets-update'') 0 selected, last_index (\<lambda>s. so_id s = ''sheets-clear'') 0 selected) of
        (Some left, Some right) \<Rightarrow>
          let remove = (if primary = ''sheets-clear'' \<or> primary \<noteq> ''sheets-update''
              \<and> so_probability (selected ! left) < so_probability (selected ! right) then left else right) in
          take remove selected @ drop (Suc remove) selected
      | _ \<Rightarrow> selected)"

definition depends_on :: "answers \<Rightarrow> selected_operation list \<Rightarrow> selected_operation \<Rightarrow> string list" where
  "depends_on as selected s = map so_id (filter (\<lambda>earlier. so_stage earlier < so_stage s
     \<and> dependencyThreshold \<le> an_noul (answer_at as (dependencyQuestion (so_id s) (so_id earlier)))) selected)"

definition link_operations :: "answers \<Rightarrow> selected_operation list \<Rightarrow> selected_operation list" where
  "link_operations as selected = map (\<lambda>s. s\<lparr>so_depends_on := so_depends_on s @ depends_on as selected s\<rparr>) selected"

definition hasDestructiveOperation :: "selected_operation list \<Rightarrow> bool" where
  "hasDestructiveOperation selected = list_ex (\<lambda>s. so_id s = ''sheets-clear'') selected"

section \<open>The trigger\<close>

definition empty_trigger :: draft_trigger where
  "empty_trigger = \<lparr>dt_id = [], dt_type = [], dt_cron = [], dt_timezone = [], dt_secret = [], dt_provider = [],
     dt_signature_header = [], dt_server = [], dt_topic = [], dt_token_secret = []\<rparr>"

text \<open>
  \<open>clockPattern\<close> on text in lower case: at a word boundary, \<open>at\<close> with an hour and perhaps minutes, or an
  hour with minutes, up to a word boundary. The functions list the ways to match a part, in the
  order in which the regular expression prefers them, with what remains of the text.
\<close>

definition clock_word :: "char \<Rightarrow> bool" where
  "clock_word c = (is_alnum c \<or> c = CHR ''_'')"

definition clock_space :: "char \<Rightarrow> bool" where
  "clock_space c = (code c \<in> {9, 10, 12, 13, 32})"

definition hour_matches :: "string \<Rightarrow> (string \<times> string) list" where
  "hour_matches s = (case s of
     [] \<Rightarrow> []
   | a # t \<Rightarrow>
       (case t of b # u \<Rightarrow> (if a \<in> set ''01'' \<and> is_digit b then [([a, b], u)] else []) | [] \<Rightarrow> []) @
       (if is_digit a then [([a], t)] else []) @
       (case t of b # u \<Rightarrow> (if a = CHR ''2'' \<and> b \<in> set ''0123'' then [([a, b], u)] else []) | [] \<Rightarrow> []))"

definition minute_matches :: "string \<Rightarrow> (string \<times> string) list" where
  "minute_matches s = (case s of
     c # a # b # t \<Rightarrow> if c = CHR '':'' \<and> a \<in> set ''012345'' \<and> is_digit b then [([a, b], t)] else []
   | _ \<Rightarrow> [])"

definition boundary :: "char option \<Rightarrow> string \<Rightarrow> bool" where
  "boundary before rest = ((case before of None \<Rightarrow> False | Some c \<Rightarrow> clock_word c)
     \<noteq> (case rest of [] \<Rightarrow> False | c # _ \<Rightarrow> clock_word c))"

text \<open>What ends a match is a digit, so a word boundary follows where the rest does not go on with a word.\<close>

definition ends_word :: "string \<Rightarrow> bool" where
  "ends_word rest = (case rest of [] \<Rightarrow> True | c # _ \<Rightarrow> \<not> clock_word c)"

definition clock_at :: "string \<Rightarrow> (string \<times> string) list" where
  "clock_at s =
     map (\<lambda>(h, m, _). (h, m)) (filter (\<lambda>(_, _, rest). ends_word rest)
       ((if HasPrefix s ''at'' \<and> (case drop 2 s of [] \<Rightarrow> False | c # _ \<Rightarrow> clock_space c)
         then concat (map (\<lambda>(h, rest). map (\<lambda>(m, rest'). (h, m, rest')) (minute_matches rest) @ [(h, [], rest)])
           (hour_matches (dropWhile clock_space (drop 2 s)))) else []) @
        concat (map (\<lambda>(h, rest). map (\<lambda>(m, rest'). (h, m, rest')) (minute_matches rest)) (hour_matches s))))"

fun find_clock :: "char option \<Rightarrow> string \<Rightarrow> (string \<times> string) option" where
  "find_clock before [] = None"
| "find_clock before (c # s) =
     (if boundary before (c # s) then
        (case clock_at (c # s) of m # _ \<Rightarrow> Some m | [] \<Rightarrow> find_clock (Some c) s)
      else find_clock (Some c) s)"

definition without_zeros :: "string \<Rightarrow> string" where
  "without_zeros s = (let t = dropWhile (\<lambda>c. c = CHR ''0'') s in if t = [] then ''0'' else t)"

definition clock_of :: "string \<Rightarrow> string \<times> string" where
  "clock_of lowered = (case find_clock None lowered of
     None \<Rightarrow> (''9'', ''0'')
   | Some (h, m) \<Rightarrow> (without_zeros h, if m = [] then ''0'' else without_zeros m))"

definition weekdays :: "string list" where
  "weekdays = [''sunday'', ''monday'', ''tuesday'', ''wednesday'', ''thursday'', ''friday'', ''saturday'']"

definition inferCron :: "(string \<Rightarrow> string) \<Rightarrow> string \<Rightarrow> string option" where
  "inferCron lower intent = (let lowered = lower intent in
     if Contains lowered ''every hour'' \<or> Contains lowered ''hourly'' then Some ''0 * * * *''
     else case clock_of lowered of (h, m) \<Rightarrow>
       (case find (\<lambda>(day, label). Contains lowered label) (enumerate 0 weekdays) of
          Some (day, _) \<Rightarrow> Some (m @ '' '' @ h @ '' * * '' @ decimal day)
        | None \<Rightarrow> if Contains lowered ''every day'' \<or> Contains lowered ''daily'' then Some (m @ '' '' @ h @ '' * * *'') else None))"

definition on_demand :: draft_trigger where
  "on_demand = empty_trigger\<lparr>dt_id := ''on-demand'', dt_type := ''webhook'', dt_secret := ''trigger/webhook''\<rparr>"

definition compileTrigger :: "(string \<Rightarrow> string) \<Rightarrow> string \<Rightarrow> string \<Rightarrow> string \<Rightarrow> draft_trigger \<times> string list" where
  "compileTrigger lower choice intent timezone =
     (if choice = ''email'' then
        (empty_trigger\<lparr>dt_id := ''inbound-email'', dt_type := ''email'', dt_token_secret := ''trigger/email-token''\<rparr>, [])
      else if choice = ''ntfy'' then
        (empty_trigger\<lparr>dt_id := ''ntfy-message'', dt_type := ''ntfy'', dt_server := ''https://ntfy.sh'',
           dt_topic := ''replace-with-private-topic'', dt_token_secret := ''trigger/ntfy-token''\<rparr>,
         [''Replace the placeholder ntfy server/topic and corresponding egress host before deployment.''])
      else if choice = ''schedule'' then
        (case inferCron lower intent of
           Some cron \<Rightarrow> (empty_trigger\<lparr>dt_id := ''scheduled'', dt_type := ''schedule'', dt_cron := cron, dt_timezone := timezone\<rparr>, [])
         | None \<Rightarrow> (on_demand, [''Jev identified a schedule, but Werkt could not map the cadence safely; the draft uses ''
             @ ''a webhook until an explicit cron schedule is configured.'']))
      else (on_demand, []))"

section \<open>Steps, secrets and names\<close>

definition operationInputs :: "string \<Rightarrow> string list" where
  "operationInputs i =
     (if i = ''zoom-recording'' then [''recording_uuid'']
      else if i = ''sheets-read'' \<or> i = ''sheets-update'' \<or> i = ''sheets-clear'' then [''spreadsheet_id'', ''range'']
      else if i = ''openai-transcribe'' then [''audio_path'', ''model'']
      else if i = ''openai-vision'' then [''image_path'', ''prompt'', ''model'']
      else if i = ''openai-chat'' then [''prompt'', ''model'']
      else if i = ''operator-notify'' then [''notification_title'']
      else [])"

definition step_of :: "selected_operation \<Rightarrow> workflow_step" where
  "step_of s = \<lparr>ws_id = so_id s, ws_title = op_title (so_spec s), ws_connector = op_connector (so_spec s),
     ws_operation = op_operation (so_spec s), ws_effect = op_effect (so_spec s), ws_depends_on = so_depends_on s,
     ws_inputs = operationInputs (so_id s), ws_outputs = [so_id s @ ''-result'']\<rparr>"

definition appendUnique :: "string list \<Rightarrow> string \<Rightarrow> string list" where
  "appendUnique values v = (if v \<in> set values then values else values @ [v])"

definition review_step :: "string list \<Rightarrow> workflow_step" where
  "review_step deps = \<lparr>ws_id = ''review'', ws_title = ''Review consequential execution'', ws_connector = ''werkt'',
     ws_operation = ''request-approval'', ws_effect = ''approval'', ws_depends_on = deps, ws_inputs = [''run-input''],
     ws_outputs = [''approval'']\<rparr>"

definition insertApproval :: "workflow_step list \<Rightarrow> workflow_step list" where
  "insertApproval ss =
     (let before = takeWhile (\<lambda>s. ws_effect s \<noteq> ''write'') ss; after = dropWhile (\<lambda>s. ws_effect s \<noteq> ''write'') ss in
      before @ [review_step (map ws_id before)] @
      map (\<lambda>s. s\<lparr>ws_depends_on := appendUnique (ws_depends_on s) ''review''\<rparr>) after)"

text \<open>The last binding of a variable counts; the bindings are sorted by variable.\<close>

definition collectSecrets :: "selected_operation list \<Rightarrow> secret_binding list" where
  "collectSecrets selected = map snd (sort_key fst
     (foldl (\<lambda>m v. AList.update (sb_environment v) v m) [] (concat (map (\<lambda>s. op_secrets (so_spec s)) selected))))"

definition egress_name :: "draft_egress \<Rightarrow> string" where
  "egress_name v = dg_host v @ '':'' @ decimal_int (dg_port v)"

definition collectEgress :: "selected_operation list \<Rightarrow> draft_egress list" where
  "collectEgress selected = map snd (sort_key fst
     (foldl (\<lambda>m v. AList.update (egress_name v) v m) [] (concat (map (\<lambda>s. op_egress (so_spec s)) selected))))"

definition draftDescription :: "selected_operation list \<Rightarrow> string" where
  "draftDescription selected =
     ''Jev-planned workflow to '' @ Join (map (\<lambda>s. ToLower (op_title (so_spec s))) selected) '', then '' @ ''.''"

text \<open>The runs of letters and digits, and the name made of the first five of them.\<close>

fun name_words :: "string \<Rightarrow> string \<Rightarrow> string list" where
  "name_words w [] = (if w = [] then [] else [rev w])"
| "name_words w (c # s) =
     (if lower_alnum c then name_words (c # w) s else (if w = [] then [] else [rev w]) @ name_words [] s)"

definition trim_chars :: "string \<Rightarrow> string \<Rightarrow> string" where
  "trim_chars cutset s = rev (dropWhile (\<lambda>c. c \<in> set cutset) (rev (dropWhile (\<lambda>c. c \<in> set cutset) s)))"

definition draftName :: "(string \<Rightarrow> string) \<Rightarrow> string \<Rightarrow> string \<Rightarrow> string" where
  "draftName lower intent other =
     (let v = trim_chars ''-0123456789'' (Join (take 5 (name_words [] (lower intent))) ''-'');
          w = (if v = [] then other @ ''-workflow'' else v) in
      if 63 < length w then rev (dropWhile (\<lambda>c. c = CHR ''-'') (rev (take 63 w))) else w)"

end
