(* ===== verification/Rendering.thy ===== *)
theory Rendering
  imports Drafting
begin

text \<open>
  The files of a generated automation (\<open>authoring/render.go\<close>) and its README (\<open>authoring/package.go\<close>).
  The templates are the texts of the source, line by line. The JSON of the plan is what
  \<open>json.Marshal\<close> writes; \<open>number\<close> is its text of a \<open>float64\<close>.
\<close>

section \<open>Text\<close>

definition sq :: string where "sq = [CHR 0x27]"
definition bs :: string where "bs = [CHR 0x5C]"
definition nl :: string where "nl = [CHR 0x0A]"

definition unlines :: "string list \<Rightarrow> string" where
  "unlines ls = concat (map (\<lambda>l. l @ nl) ls)"

section \<open>The JSON of steps and decisions\<close>

definition json_bool :: "bool \<Rightarrow> string" where
  "json_bool b = (if b then ''true'' else ''false'')"

definition step_json :: "workflow_step \<Rightarrow> string" where
  "step_json s = json_object [(''id'', json_string (ws_id s)), (''title'', json_string (ws_title s)),
     (''connector'', json_string (ws_connector s)), (''operation'', json_string (ws_operation s)),
     (''effect'', json_string (ws_effect s)), (''depends_on'', json_array json_string (ws_depends_on s)),
     (''inputs'', json_array json_string (ws_inputs s)), (''outputs'', json_array json_string (ws_outputs s))]"

definition operation_json :: "(rat \<Rightarrow> string) \<Rightarrow> operation_decision \<Rightarrow> string" where
  "operation_json number p = json_object [(''id'', json_string (od_id p)), (''selected'', json_bool (od_selected p)),
     (''relevanceProbability'', number (od_relevance p)), (''primaryProbability'', number (od_primary p))]"

definition decision_json :: "(rat \<Rightarrow> string) \<Rightarrow> decision_summary \<Rightarrow> string" where
  "decision_json number n = json_object [(''provider'', json_string (dn_provider n)), (''model'', json_string (dn_model n)),
     (''confidence'', number (dn_confidence n)), (''trigger'', json_string (dn_trigger n)),
     (''triggerConfidence'', number (dn_trigger_confidence n)), (''riskScore'', number (dn_risk_score n)),
     (''approvalProbability'', number (dn_approval_probability n)),
     (''operations'', json_array (operation_json number) (dn_operations n)),
     (''inputTokens'', decimal_int (dn_input_tokens n)), (''outputTokens'', decimal_int (dn_output_tokens n))]"

section \<open>The tests\<close>

definition approval_test :: string where
  \<open>approval_test = unlines
    [[],
     ''    def test_approval_request_and_rejection_do_not_execute_operations(self):'',
     ''        with tempfile.TemporaryDirectory() as directory:'',
     ''            context = Context("automation", "revision", "run", Path(directory) / "control.json", state={})'',
     ''            original = {"spreadsheet_id": "sheet", "range": "A1:B2", "model": "model"}'',
     ''            event = Event("event", "", "", {"type": "schedule"}, original, {})'',
     ''            self.assertEqual(handle(event, context), {"outcome": "approval-requested"})'',
     ''            self.assertEqual(context.state["draftInput"], original)'',
     ''            self.assertEqual(context.control.approval["actions"][0]["id"], "approve")'',
     [],
     ''            rejection = Event("event-approval", "", "", {"type": "approval"}, {'',
     ''                "approval": {"approvalId": "approval", "action": "reject", "fields": {}},'',
     ''            }, {})'',
     ''            self.assertEqual(handle(rejection, context), {"outcome": "rejected"})'',
     ''            self.assertNotIn("draftInput", context.state)'']\<close>

definition main_test_head :: string where
  \<open>main_test_head = unlines
    [''import tempfile'',
     ''import unittest'',
     ''from pathlib import Path'',
     [],
     ''try:'',
     ''    from main import _required, _text, handle'',
     ''    from werkt import Context, Event'',
     ''except ModuleNotFoundError:'',
     ''    Context = Event = handle = None'',
     [],
     [],
     ''@unittest.skipIf(handle is None, "Werkt SDK is injected by Werkt deployment checks")'',
     ''class GeneratedMainTest(unittest.TestCase):'',
     ''    def test_input_helpers_are_strict_and_deterministic(self):'',
     ''        self.assertEqual(_required({"value": 7}, "value"), 7)'',
     ''        with self.assertRaises(ValueError):'',
     ''            _required({}, "value")'',
     ''        self.assertEqual(_text({"b": 2, "a": 1}), '{"a":1,"b":2}')'']\<close>

definition main_test_tail :: string where
  \<open>main_test_tail = unlines
    [[],
     [],
     ''if __name__ == "__main__":'',
     ''    unittest.main()'']\<close>

definition renderMainTest :: "bool \<Rightarrow> string" where
  "renderMainTest requiresApproval = main_test_head @ (if requiresApproval then approval_test else []) @ main_test_tail"

definition plan_module_head :: string where
  \<open>plan_module_head = unlines
    [''"""Deterministic workflow plan compiled from typed Jev decisions."""'',
     [],
     ''import json'',
     [],
     []]\<close>

definition plan_module_tail :: string where
  \<open>plan_module_tail = unlines
    [[],
     [],
     ''def validate_plan():'',
     ''    seen = set()'',
     ''    for step in STEPS:'',
     ''        missing = set(step["depends_on"]) - seen'',
     ''        if missing:'',
     ''            raise ValueError(f"{step['id']} has unordered dependencies: {sorted(missing)}")'',
     ''        if step["id"] in seen:'',
     ''            raise ValueError(f"duplicate step: {step['id']}")'',
     ''        seen.add(step["id"])'',
     ''    return True'']\<close>

text \<open>Both texts stand in raw string literals between three single quotes.\<close>

definition renderPlanModule :: "(rat \<Rightarrow> string) \<Rightarrow> draft \<Rightarrow> string" where
  \<open>renderPlanModule number d = plan_module_head @
     ''STEPS = json.loads(r'' @ sq @ sq @ sq @ json_array step_json (dr_steps d) @ sq @ sq @ sq @ '')'' @ nl @
     ''DECISION = json.loads(r'' @ sq @ sq @ sq @ decision_json number (dr_decision d) @ sq @ sq @ sq @ '')'' @ nl @ plan_module_tail\<close>

definition plan_test_head :: string where
  \<open>plan_test_head = unlines
    [''import unittest'',
     [],
     ''from workflow_plan import DECISION, STEPS, validate_plan'',
     [],
     [],
     ''class WorkflowPlanTest(unittest.TestCase):'',
     ''    def test_graph_is_topologically_ordered(self):'',
     ''        self.assertTrue(validate_plan())'',
     [],
     ''    def test_jev_decisions_are_auditable(self):'',
     ''        self.assertEqual(DECISION["provider"], "typesafe")'',
     ''        self.assertTrue(DECISION["model"].startswith("jev-"))'',
     ''        self.assertGreaterEqual(DECISION["confidence"], 0)'',
     ''        self.assertLessEqual(DECISION["confidence"], 1)'',
     [],
     ''    def test_approval_policy(self):'',
     ''        by_id = {step["id"]: step for step in STEPS}'']\<close>

definition plan_test_tail :: string where
  \<open>plan_test_tail = unlines
    [[],
     [],
     ''if __name__ == "__main__":'',
     ''    unittest.main()'']\<close>

definition approval_assertion :: "bool \<Rightarrow> string" where
  \<open>approval_assertion requiresApproval =
     (if requiresApproval then ''self.assertIn("review", by_id)'' @ nl @
          ''        for step in STEPS:'' @ nl @
          ''            if step["effect"] == "write":'' @ nl @
          ''                self.assertIn("review", step["depends_on"])''
      else ''self.assertNotIn('review', by_id)'')\<close>

definition renderPlanTest :: "bool \<Rightarrow> string" where
  "renderPlanTest requiresApproval =
     plan_test_head @ ''        '' @ approval_assertion requiresApproval @ nl @ plan_test_tail"

section \<open>The automation\<close>

definition main_helpers :: string where
  \<open>main_helpers = unlines
    [[],
     [],
     ''def _required(data: dict, key: str):'',
     ''    value = data.get(key)'',
     ''    if value is None or value == "":'',
     ''        raise ValueError(f"event.data.{key} is required")'',
     ''    return value'',
     [],
     [],
     ''def _text(value) -> str:'',
     ''    return value if isinstance(value, str) else json.dumps(value, separators=(",", ":"), sort_keys=True)'',
     [],
     [],
     ''@automation'',
     ''def handle(event: Event, context: Context) -> dict:'',
     ''    if not isinstance(event.data, dict):'',
     ''        raise ValueError("event.data must be an object")'',
     ''    data = event.data'']\<close>

definition approval_guard :: string where
  \<open>approval_guard = unlines
    [''    approval = data.get("approval")'',
     ''    if not isinstance(approval, dict) or "approvalId" not in approval:'',
     ''        context.state["draftInput"] = data'',
     ''        context.request_approval('',
     ''            key=f"{event.id}.review",'',
     ''            title="Review generated workflow execution",'',
     ''            description="Confirm the input and side effects before this draft performs its work.",'',
     ''            expires_at=datetime.now(UTC) + timedelta(days=7),'',
     ''            fields=[],'',
     ''            actions=['',
     ''                {"id": "approve", "label": "Run workflow", "style": "primary"},'',
     ''                {"id": "reject", "label": "Cancel", "style": "neutral"},'',
     ''            ],'',
     ''        )'',
     ''        return {"outcome": "approval-requested"}'',
     ''    if approval.get("action") != "approve":'',
     ''        context.state.pop("draftInput", None)'',
     ''        return {"outcome": "rejected"}'',
     ''    data = context.state.pop("draftInput", None)'',
     ''    if not isinstance(data, dict):'',
     ''        raise ValueError("approved execution is missing its original input")'']\<close>

definition zoom_recording_text :: string where
  \<open>zoom_recording_text = unlines
    [''    zoom = Zoom(os.environ["ZOOM_ACCOUNT_ID"], os.environ["ZOOM_CLIENT_ID"], os.environ["ZOOM_CLIENT_SECRET"], allowed_download_hosts=set())'',
     ''    current = zoom.recording(str(_required(data, "recording_uuid")))'']\<close>

definition sheets_read_text :: string where
  \<open>sheets_read_text = unlines
    [''    sheets = GoogleSheets(GoogleServiceAccount.from_json(os.environ["GOOGLE_SERVICE_ACCOUNT_JSON"]))'',
     ''    current = sheets.values(str(_required(data, "spreadsheet_id")), str(_required(data, "range")))'']\<close>

definition openai_transcribe_text :: string where
  \<open>openai_transcribe_text = unlines
    [''    ai = OpenAI(os.environ["OPENAI_API_KEY"])'',
     ''    current = ai.transcribe(Path(str(_required(data, "audio_path"))), model=str(data.get("model", "whisper-1")))'']\<close>

definition openai_vision_text :: string where
  \<open>openai_vision_text = unlines
    [''    ai = OpenAI(os.environ["OPENAI_API_KEY"])'',
     ''    current = ai.vision(model=str(_required(data, "model")), prompt=str(_required(data, "prompt")), image=Path(str(_required(data, "image_path"))))'']\<close>

definition openai_chat_text :: string where
  \<open>openai_chat_text = unlines
    [''    ai = OpenAI(os.environ["OPENAI_API_KEY"])'',
     ''    prompt = str(data.get("prompt", "Process the supplied content accurately and concisely."))'',
     ''    current = ai.chat(model=str(_required(data, "model")), messages=[{"role": "user", "content": prompt + "'' @ bs @ ''n'' @ bs @ ''n" + _text(current)}], temperature=0)'']\<close>

definition operator_notify_text :: string where
  \<open>operator_notify_text = unlines
    [''    context.notify(key=f"{event.id}.result", title=str(data.get("notification_title", "Automation completed")), body=_text(current)[:4000])'']\<close>

definition sheets_update_text :: string where
  \<open>sheets_update_text = unlines
    [''    sheets = GoogleSheets(GoogleServiceAccount.from_json(os.environ["GOOGLE_SERVICE_ACCOUNT_JSON"]))'',
     ''    rows = current if isinstance(current, list) and all(isinstance(row, list) for row in current) else [[_text(current)]]'',
     ''    sheets.update(str(_required(data, "spreadsheet_id")), str(_required(data, "range")), rows)'']\<close>

definition sheets_clear_text :: string where
  \<open>sheets_clear_text = unlines
    [''    sheets = GoogleSheets(GoogleServiceAccount.from_json(os.environ["GOOGLE_SERVICE_ACCOUNT_JSON"]))'',
     ''    sheets.clear(str(_required(data, "spreadsheet_id")), str(_required(data, "range")))'',
     ''    current = {"cleared": True}'']\<close>

definition operation_text :: "string \<Rightarrow> string" where
  "operation_text i =
     (if i = ''zoom-recording'' then zoom_recording_text
      else if i = ''sheets-read'' then sheets_read_text
      else if i = ''openai-transcribe'' then openai_transcribe_text
      else if i = ''openai-vision'' then openai_vision_text
      else if i = ''openai-chat'' then openai_chat_text
      else if i = ''operator-notify'' then operator_notify_text
      else if i = ''sheets-update'' then sheets_update_text
      else if i = ''sheets-clear'' then sheets_clear_text
      else [])"

definition renderOperation :: "string \<Rightarrow> string" where
  "renderOperation i = operation_text i @ ''    results['' @ quoted i @ ''] = current'' @ nl"

definition connector_names :: "selected_operation list \<Rightarrow> string list" where
  "connector_names selected = map snd (filter (\<lambda>(connector, _). list_ex (\<lambda>s. op_connector (so_spec s) = connector) selected)
     [(''google-sheets'', ''GoogleServiceAccount''), (''google-sheets'', ''GoogleSheets''), (''openai'', ''OpenAI''), (''zoom'', ''Zoom'')])"

definition main_imports :: "selected_operation list \<Rightarrow> bool \<Rightarrow> string" where
  "main_imports selected requiresApproval =
     unlines [''from __future__ import annotations'', [], ''import json'', ''import os''] @
     (if requiresApproval then ''from datetime import UTC, datetime, timedelta'' @ nl else []) @
     unlines [''from pathlib import Path'', [], ''from werkt import Context, Event, automation, execute''] @
     (if connector_names selected \<noteq> [] then ''from werkt.connectors import '' @ Join (connector_names selected) '', '' @ nl else [])"

definition main_start :: string where
  \<open>main_start = unlines
    [''    current = data.get("input", data)'',
     ''    results = {}'']\<close>

definition main_end :: string where
  \<open>main_end = unlines
    [''    return {"outcome": "completed", "result": current, "steps": results}'',
     [],
     [],
     ''if __name__ == "__main__":'',
     ''    execute(handle)'']\<close>

definition main_prefix :: "selected_operation list \<Rightarrow> bool \<Rightarrow> string" where
  "main_prefix selected requiresApproval = main_imports selected requiresApproval @ main_helpers"

definition renderMain :: "selected_operation list \<Rightarrow> bool \<Rightarrow> string" where
  "renderMain selected requiresApproval =
     main_prefix selected requiresApproval @ (if requiresApproval then approval_guard else []) @ main_start @
     concat (map (\<lambda>s. renderOperation (so_id s)) selected) @ main_end"

definition renderFiles :: "(rat \<Rightarrow> string) \<Rightarrow> draft \<Rightarrow> selected_operation list \<Rightarrow> bool \<Rightarrow> draft_file list" where
  "renderFiles number d selected requiresApproval =
     [\<lparr>df_path = ''main.py'', df_content = renderMain selected requiresApproval\<rparr>,
      \<lparr>df_path = ''workflow_plan.py'', df_content = renderPlanModule number d\<rparr>,
      \<lparr>df_path = ''test_main.py'', df_content = renderMainTest requiresApproval\<rparr>,
      \<lparr>df_path = ''test_workflow_plan.py'', df_content = renderPlanTest requiresApproval\<rparr>]"

section \<open>The README\<close>

definition code_span :: "string \<Rightarrow> string" where
  "code_span s = [CHR 0x60] @ s @ [CHR 0x60]"

definition readme_step :: "workflow_step \<Rightarrow> string" where
  "readme_step s = ''- '' @ code_span (ws_id s) @ '' '' @ [CHR 0xE2, CHR 0x80, CHR 0x94] @ '' '' @ ws_title s @ '' (''
     @ code_span (ws_connector s @ ''.'' @ ws_operation s) @ '', '' @ ws_effect s @ ''; ''
     @ (if ws_depends_on s = [] then ''starts the workflow'' else ''after '' @ Join (ws_depends_on s) '', '') @ '')''"

definition readme_secret :: "secret_binding \<Rightarrow> string" where
  "readme_secret v = ''- '' @ code_span (sb_environment v) @ '' '' @ [CHR 0xE2, CHR 0x86, CHR 0x92] @ '' ''
     @ code_span (sb_secret v) @ '': '' @ sb_description v"

definition packageReadme :: "draft \<Rightarrow> string" where
  "packageReadme d =
     unlines [''# '' @ dr_name d, [], dr_description d, [],
       ''This package was compiled from typed Jev decisions as a review-required draft (model '' @ code_span (dn_model (dr_decision d))
         @ '', routing confidence '' @ fixed2 (dn_confidence (dr_decision d)) @ ''). Inspect the source, plan, permissions, ''
         @ ''secret bindings, and external side effects before deployment.'', [],
       ''## Plan'', []] @
     unlines (map readme_step (dr_steps d)) @
     (if dr_secrets d \<noteq> [] then unlines [[], ''## Required secrets'', []] @ unlines (map readme_secret (dr_secrets d)) else []) @
     (if dr_warnings d \<noteq> [] then unlines [[], ''## Review warnings'', []] @ unlines (map (\<lambda>w. ''- '' @ w) (dr_warnings d)) else []) @
     unlines [[], ''## Verify'', [], replicate 3 (CHR 0x60) @ ''sh'', ''werkt validate .'',
       ''python3 -m unittest discover -s . -p '' @ sq @ ''test_*.py'' @ sq, replicate 3 (CHR 0x60)]"

end
