(* ===== verification/Authoring.thy ===== *)
theory Authoring
  imports Rendering
begin

text \<open>
  The compilation of the answers into a draft (\<open>authoring/compile.go\<close>), the client that asks for them
  (\<open>authoring/client.go\<close>) and the package written from a validated draft (\<open>authoring/package.go\<close>).
\<close>

section \<open>Compilation\<close>

record compiler =
  cp_lower :: "string \<Rightarrow> string"
  cp_number :: "rat \<Rightarrow> string"

definition decision_operations :: "answer \<Rightarrow> answers \<Rightarrow> selected_operation list \<Rightarrow> operation_decision list" where
  "decision_operations primary as selected = map (\<lambda>p. \<lparr>od_id = op_id p, od_selected = op_id p \<in> so_id ` set selected,
     od_relevance = an_noul (answer_at as (relevanceQuestion (op_id p))), od_primary = probability_at primary (op_id p)\<rparr>) operationCatalog"

definition draft_warnings :: "rat \<Rightarrow> bool \<Rightarrow> string list \<Rightarrow> string list" where
  "draft_warnings confidence requiresApproval triggerWarnings = triggerWarnings @
     only_if (confidence < float64 (65 / 100)) (''Jev's lowest decision confidence is '' @ fixed2 confidence
       @ ''; review the selected trigger, operations, and risk assessment carefully.'') @
     [''Runtime values such as spreadsheet IDs, ranges, prompts, models, and file paths must be supplied in the triggering ''
       @ ''event and reviewed before deployment.''] @
     only_if requiresApproval (''Werkt inserted a durable approval gate before execution because Jev or policy classified ''
       @ ''the workflow as consequential.'')"

definition choose_operations :: "jev_response \<Rightarrow> selected_operation list" where
  "choose_operations r = (let primary = answer_at (answers_of r) ''primary_operation'' in
     resolveOperationConflicts (selectOperations primary (answers_of r)) (an_choice primary))"

definition consequential :: "jev_response \<Rightarrow> selected_operation list \<Rightarrow> bool" where
  "consequential r selected =
     (approvalThreshold \<le> an_noul (answer_at (answers_of r) ''requires_approval'')
      \<or> 2 \<le> an_score (answer_at (answers_of r) ''risk'') \<or> hasDestructiveOperation selected)"

definition compiled_steps :: "bool \<Rightarrow> selected_operation list \<Rightarrow> workflow_step list" where
  "compiled_steps requiresApproval selected =
     (if requiresApproval then insertApproval (map step_of selected) else map step_of selected)"

definition decision_of :: "jev_response \<Rightarrow> selected_operation list \<Rightarrow> decision_summary" where
  "decision_of r selected =
     (let as = answers_of r; primary = answer_at as ''primary_operation''; trig = answer_at as ''trigger'' in
      \<lparr>dn_provider = ''typesafe'', dn_model = jr_model r,
       dn_confidence = min (min (an_confidence primary) (an_confidence trig)) (an_confidence (answer_at as ''risk'')),
       dn_trigger = an_choice trig, dn_trigger_confidence = an_confidence trig, dn_risk_score = an_score (answer_at as ''risk''),
       dn_approval_probability = an_noul (answer_at as ''requires_approval''),
       dn_operations = decision_operations primary as selected, dn_input_tokens = jr_input_tokens r,
       dn_output_tokens = jr_output_tokens r\<rparr>)"

definition compileDraft :: "compiler \<Rightarrow> string \<Rightarrow> string \<Rightarrow> string \<Rightarrow> jev_response \<Rightarrow> string + draft" where
  "compileDraft c intent requestedName timezone r =
     (let as = answers_of r; primary = answer_at as ''primary_operation'' in
      guardR (operationByID (an_choice primary) = None) ''Jev selected an unavailable primary operation''
      (guardR (choose_operations r = []) ''Jev did not select an operation''
      (let selected = link_operations as (choose_operations r); requiresApproval = consequential r selected;
           decision = decision_of r selected; trig = compileTrigger (cp_lower c) (dn_trigger decision) intent timezone;
           d = \<lparr>dr_name = (if requestedName = [] then draftName (cp_lower c) intent (an_choice primary) else requestedName),
             dr_description = draftDescription selected, dr_trigger = fst trig, dr_steps = compiled_steps requiresApproval selected,
             dr_secrets = collectSecrets selected, dr_egress = collectEgress selected, dr_files = [],
             dr_warnings = draft_warnings (dn_confidence decision) requiresApproval (snd trig), dr_decision = decision\<rparr> in
       Inr (d\<lparr>dr_files := renderFiles (cp_number c) d selected requiresApproval\<rparr>))))"

section \<open>The client\<close>

text \<open>
  One exchange gives the error of the transport or of reading the body, or the status, the
  \<open>Retry-After\<close> header and the body cut at two megabytes; \<open>ac_post k\<close> is the k-th. \<open>ac_wait\<close> waits
  and gives the error of a context that ends first.
\<close>

record http_answer =
  ha_status :: int
  ha_retry_after :: string
  ha_body :: string

record api_error =
  ae_error :: "string option"
  ae_detail :: string
  ae_message :: string

record author_client =
  ac_api_base :: string
  ac_api_key :: string
  ac_model :: string
  ac_url_parse :: url_parser
  ac_marshal :: "json \<Rightarrow> string"
  ac_post :: "nat \<Rightarrow> string \<Rightarrow> (string \<times> string) list \<Rightarrow> string \<Rightarrow> string + http_answer"
  ac_wait :: "duration \<Rightarrow> string option"
  ac_decode :: "string \<Rightarrow> jev_response option"
  ac_decode_error :: "string \<Rightarrow> api_error option"
  ac_status_text :: "int \<Rightarrow> string"

definition Enabled :: "string \<Rightarrow> bool" where
  "Enabled apiKey = (\<not> blank apiKey)"

definition DefaultAPIBase :: string where "DefaultAPIBase = ''https://api.typesafe.ai/v1''"
definition DefaultModel :: string where "DefaultModel = ''jev-latest''"

definition validatedAPIBase :: "url_parser \<Rightarrow> string \<Rightarrow> string + string" where
  "validatedAPIBase parse value =
     (let trimmed = TrimRightSlashes (TrimSpace value); base = (if trimmed = [] then DefaultAPIBase else trimmed) in
      case parse base of
        None \<Rightarrow> Inl ''TypeSafe API base must be an absolute URL without credentials, query, or fragment''
      | Some u \<Rightarrow>
          guardR (u_hostname u = [] \<or> u_has_user u \<or> u_raw_query u \<noteq> [] \<or> u_fragment u \<noteq> [])
            ''TypeSafe API base must be an absolute URL without credentials, query, or fragment''
          (guardR (u_scheme u \<noteq> ''https'' \<and> \<not> (u_scheme u = ''http'' \<and>
              (u_hostname u = ''localhost'' \<or> u_hostname u = ''127.0.0.1'' \<or> u_hostname u = ''::1'')))
            ''TypeSafe API base must use HTTPS (HTTP is allowed only for loopback development)''
          (Inr base)))"

text \<open>\<open>strconv.Atoi\<close>: an optional sign and decimal digits, in the range of a 64-bit integer.\<close>

definition Atoi :: "string \<Rightarrow> int option" where
  "Atoi s = (let digits = (case s of c # t \<Rightarrow> if c = CHR ''-'' \<or> c = CHR ''+'' then t else s | [] \<Rightarrow> []);
       v = (if HasPrefix s ''-'' then - int (parse_decimal digits) else int (parse_decimal digits)) in
     if digits \<noteq> [] \<and> list_all is_digit digits \<and> - (2 ^ 63) \<le> v \<and> v < 2 ^ 63 then Some v else None)"

definition retry_wait :: "string \<Rightarrow> nat \<Rightarrow> duration" where
  "retry_wait header attempt = (case Atoi (TrimSpace header) of
     Some seconds \<Rightarrow> if 0 \<le> seconds \<and> seconds \<le> 30 then seconds * second else 100 * 2 ^ attempt * 1000000
   | None \<Rightarrow> 100 * 2 ^ attempt * 1000000)"

definition apiErrorMessage :: "author_client \<Rightarrow> string \<Rightarrow> int \<Rightarrow> string" where
  "apiErrorMessage c body status = (case ac_decode_error c body of
     None \<Rightarrow> ac_status_text c status
   | Some e \<Rightarrow> (case find (\<lambda>t. TrimSpace t \<noteq> [] \<and> length (TrimSpace t) \<le> 500) [ae_detail e, ae_message e] of
       Some t \<Rightarrow> TrimSpace t
     | None \<Rightarrow> (case ae_error e of
         Some t \<Rightarrow> if \<not> blank t \<and> length t \<le> 500 then TrimSpace t else ac_status_text c status
       | None \<Rightarrow> ac_status_text c status)))"

definition request_headers :: "author_client \<Rightarrow> (string \<times> string) list" where
  "request_headers c = [(''Authorization'', ''Bearer '' @ ac_api_key c), (''Content-Type'', ''application/json''),
     (''User-Agent'', ''Werkt-Authoring/1.0'')]"

definition accept_answer :: "author_client \<Rightarrow> http_answer \<Rightarrow> string + jev_response" where
  "accept_answer c a =
     guardR (ha_status a < 200 \<or> 300 \<le> ha_status a)
       (''TypeSafe API returned HTTP '' @ decimal_int (ha_status a) @ '': '' @ apiErrorMessage c (ha_body a) (ha_status a))
     (case ac_decode c (ha_body a) of
        None \<Rightarrow> Inl ''TypeSafe API returned invalid JSON''
      | Some r \<Rightarrow> guardR (blank (jr_model r) \<or> jr_answers r = None) ''TypeSafe API response omitted model or answers'' (Inr r))"

text \<open>The attempts that remain, and the number of the next one.\<close>

fun evaluate :: "author_client \<Rightarrow> string \<Rightarrow> string \<Rightarrow> nat \<Rightarrow> nat \<Rightarrow> string + jev_response" where
  "evaluate c endpoint body attempt 0 = Inl ''TypeSafe API remained overloaded after 3 attempts''"
| "evaluate c endpoint body attempt (Suc left) =
     (case ac_post c attempt endpoint (request_headers c) body of
        Inl e \<Rightarrow> Inl e
      | Inr a \<Rightarrow>
          if (ha_status a = 429 \<or> ha_status a = 529) \<and> attempt < 2 then
            (case ac_wait c (retry_wait (ha_retry_after a) attempt) of
               Some e \<Rightarrow> Inl e
             | None \<Rightarrow> evaluate c endpoint body (Suc attempt) left)
          else accept_answer c a)"

definition criteria_json :: "criteria \<Rightarrow> (string \<times> json) list" where
  "criteria_json k = (case k of
     NoCriteria \<Rightarrow> []
   | Choices cs \<Rightarrow> [(''criteria'', JObject (map (\<lambda>(i, t). (i, JString t)) cs))]
   | Levels ls \<Rightarrow> [(''criteria'', JArray (map JString ls))])"

definition question_json :: "question \<Rightarrow> json" where
  "question_json q = JObject ([(''type'', JString (qn_type q)), (''instructions'', qn_instructions q)] @ criteria_json (qn_criteria q))"

definition request_json :: "string \<Rightarrow> string \<Rightarrow> json" where
  "request_json intent model = JObject
     [(''state'', JObject [(''automation_intent'', JString intent),
        (''instruction'', JString (''Select only capabilities needed to implement this bounded automation. ''
          @ ''Prefer the smallest sufficient workflow.''))]),
      (''model'', JString model), (''questions'', JObject (map (\<lambda>(i, q). (i, question_json q)) planningQuestions))]"

definition Generate :: "ambient \<Rightarrow> compiler \<Rightarrow> author_client \<Rightarrow> string \<Rightarrow> string \<Rightarrow> string \<Rightarrow> string + draft" where
  "Generate amb cp c text requestedName timezone =
     (let intent = TrimSpace text; model = (if blank (ac_model c) then DefaultModel else TrimSpace (ac_model c)) in
      guardR (length intent < 10) ''automation intent must contain at least 10 bytes''
      (guardR (MaxIntentBytes < length intent) (''automation intent exceeds '' @ decimal MaxIntentBytes @ '' bytes'')
      (guardR (\<not> Enabled (ac_api_key c)) ''drafting is disabled: set TYPESAFE_API_KEY to enable BYOK authoring''
      (bindR (validatedAPIBase (ac_url_parse c) (ac_api_base c)) (\<lambda>base.
       bindR (evaluate c (base @ ''/systemone'') (ac_marshal c (request_json intent model)) 0 3) (\<lambda>r.
       bindR (case validateAnswers (answers_of r) planningQuestions of
           Inl e \<Rightarrow> Inl (''validate Jev decisions: '' @ e) | Inr _ \<Rightarrow> Inr ()) (\<lambda>_.
       bindR (compileDraft cp intent requestedName timezone r) (\<lambda>d.
       case draft_Validate amb d requestedName of
         Inl e \<Rightarrow> Inl (''validate compiled draft: '' @ e) | Inr _ \<Rightarrow> Inr d))))))))"

end
