(* ===== verification/DraftPackage.thy ===== *)
theory DraftPackage
  imports Authoring
begin

text \<open>
  The package written from a validated draft (\<open>authoring/package.go\<close>): its manifest, its files, the
  plan and the README, written to a staging directory and renamed into place. The files of the
  package are an association list from their names; the file system answers through \<open>disk\<close>, and
  the YAML encoder and decoder are arguments.
\<close>

section \<open>The manifest\<close>

definition trigger_config :: "draft_trigger \<Rightarrow> json_map" where
  "trigger_config t =
     (if dt_type t = ''schedule'' then [(''cron'', JString (dt_cron t)), (''timezone'', JString (dt_timezone t))]
      else if dt_type t = ''webhook'' then
        [(''secret'', JString (dt_secret t))] @
        (if dt_provider t \<noteq> [] then [(''provider'', JString (dt_provider t))] else []) @
        (if dt_signature_header t \<noteq> [] \<and> (dt_provider t = [] \<or> dt_provider t = ''werkt'')
         then [(''signatureHeader'', JString (dt_signature_header t))] else [])
      else if dt_type t = ''email'' then [(''tokenSecret'', JString (dt_token_secret t))]
      else if dt_type t = ''ntfy'' then
        [(''server'', JString (dt_server t)), (''topic'', JString (dt_topic t))] @
        (if dt_token_secret t \<noteq> [] then [(''tokenSecret'', JString (dt_token_secret t))] else [])
      else [])"

definition hasApprovalStep :: "workflow_step list \<Rightarrow> bool" where
  "hasApprovalStep ss = list_ex (\<lambda>s. ws_effect s = ''approval'') ss"

definition manifest_egress :: "draft_egress list \<Rightarrow> egress_rule list" where
  "manifest_egress rules = sort_key er_host (sort_key (\<lambda>r. uint (er_port r))
     (map (\<lambda>r. \<lparr>er_host = dg_host r, er_port = word_of_int (dg_port r), er_protocol = []\<rparr>) rules))"

definition manifest_secrets :: "secret_binding list \<Rightarrow> (string \<times> string) list" where
  "manifest_secrets bindings = foldl (\<lambda>m v. AList.update (sb_environment v) (sb_secret v) m) [] bindings"

definition draft_checks :: "deployment_check list" where
  "draft_checks =
     [\<lparr>dc_id = ''syntax'', dc_command = [''python3'', ''-m'', ''py_compile'', ''main.py''], dc_timeout = ''30s''\<rparr>,
      \<lparr>dc_id = ''tests'', dc_command = [''python3'', ''-m'', ''unittest'', ''discover'', ''-s'', ''.'', ''-p'', ''test_*.py''],
       dc_timeout = ''2m''\<rparr>]"

definition buildManifest :: "draft \<Rightarrow> string \<Rightarrow> string \<Rightarrow> manifest" where
  "buildManifest d project folder =
     \<lparr>mf_api_version = ''werkt.dev/v1'', mf_kind = ''Automation'',
      mf_metadata = \<lparr>md_name = dr_name d, md_project = project, md_folder = folder, md_description = dr_description d,
        md_labels = [''generated'', ''review-required'']\<rparr>,
      mf_triggers = [\<lparr>tg_id = dt_id (dr_trigger d), tg_type = dt_type (dr_trigger d), tg_enabled = None,
        tg_config = trigger_config (dr_trigger d)\<rparr>],
      mf_runtime = \<lparr>rn_language = ''python'', rn_image = [], rn_build_image = [], rn_tools = [(''python'', ''3.13.7'')],
        rn_build = [], rn_command = [''python3'', ''main.py''], rn_environment = [], rn_secrets = manifest_secrets (dr_secrets d),
        rn_egress = manifest_egress (dr_egress d), rn_resolved_tools = None\<rparr>,
      mf_checks = draft_checks,
      mf_execution = \<lparr>ex_timeout = ''5m'', ex_retries = 2, ex_concurrency = ''forbid'',
        ex_state_enabled = hasApprovalStep (dr_steps d)\<rparr>\<rparr>"

section \<open>The plan\<close>

text \<open>
  \<open>json.Indent\<close> with two spaces, on compact JSON: the depth, whether a bracket has just been opened,
  whether the text is inside a string and whether the character before was a backslash there.
\<close>

definition new_line :: "nat \<Rightarrow> string" where
  "new_line depth = nl @ replicate (2 * depth) (CHR '' '')"

fun json_indent :: "nat \<Rightarrow> bool \<Rightarrow> bool \<Rightarrow> bool \<Rightarrow> string \<Rightarrow> string" where
  "json_indent depth opened quoting escaped [] = []"
| "json_indent depth opened True escaped (c # s) =
     c # json_indent depth False (escaped \<or> c \<noteq> CHR 0x22) (\<not> escaped \<and> c = CHR 0x5C) s"
| "json_indent depth opened False escaped (c # s) =
     (let depth' = (if opened \<and> c \<noteq> CHR ''}'' \<and> c \<noteq> CHR '']'' then depth + 1 else depth);
          lead = (if opened \<and> c \<noteq> CHR ''}'' \<and> c \<noteq> CHR '']'' then new_line depth' else []) in
      lead @
      (if c = CHR ''{'' \<or> c = CHR ''['' then c # json_indent depth' True False False s
       else if c = CHR '','' then c # new_line depth' @ json_indent depth' False False False s
       else if c = CHR '':'' then c # CHR '' '' # json_indent depth' False False False s
       else if c = CHR ''}'' \<or> c = CHR '']'' then
         (if opened then c # json_indent depth' False False False s
          else new_line (depth' - 1) @ c # json_indent (depth' - 1) False False False s)
       else c # json_indent depth' False (c = CHR 0x22) False s))"

definition trigger_json :: "draft_trigger \<Rightarrow> string" where
  "trigger_json t = json_object [(''id'', json_string (dt_id t)), (''type'', json_string (dt_type t)),
     (''cron'', json_string (dt_cron t)), (''timezone'', json_string (dt_timezone t)), (''secret'', json_string (dt_secret t)),
     (''provider'', json_string (dt_provider t)), (''signature_header'', json_string (dt_signature_header t)),
     (''server'', json_string (dt_server t)), (''topic'', json_string (dt_topic t)),
     (''token_secret'', json_string (dt_token_secret t))]"

definition draft_json :: "(rat \<Rightarrow> string) \<Rightarrow> draft \<Rightarrow> string" where
  "draft_json number d = json_object [(''name'', json_string (dr_name d)), (''description'', json_string (dr_description d)),
     (''trigger'', trigger_json (dr_trigger d)), (''steps'', json_array step_json (dr_steps d)),
     (''secrets'', json_array (\<lambda>v. json_object [(''environment'', json_string (sb_environment v)),
        (''secret'', json_string (sb_secret v)), (''description'', json_string (sb_description v))]) (dr_secrets d)),
     (''egress'', json_array (\<lambda>v. json_object [(''host'', json_string (dg_host v)), (''port'', decimal_int (dg_port v))]) (dr_egress d)),
     (''files'', json_array (\<lambda>f. json_object [(''path'', json_string (df_path f)), (''content'', json_string (df_content f))]) (dr_files d)),
     (''warnings'', json_array json_string (dr_warnings d)), (''decision'', decision_json number (dr_decision d))]"

definition plan_body :: "(rat \<Rightarrow> string) \<Rightarrow> string \<Rightarrow> string \<Rightarrow> draft \<Rightarrow> string" where
  "plan_body number model digest d = json_indent 0 False False False
     (json_object [(''version'', ''1''), (''generator'', json_string ''werkt draft (TypeSafe Jev)''), (''model'', json_string model),
        (''intentSha256'', json_string digest), (''draft'', draft_json number d)]) @ nl"

section \<open>Writing\<close>

record package_options =
  po_output_directory :: string
  po_project :: string
  po_folder :: string
  po_model :: string
  po_intent_digest :: string

record package_result =
  pr_automation :: string
  pr_output :: string
  pr_content_hash :: string
  pr_plan_file :: string
  pr_warnings :: "string list"
  pr_next_commands :: "string list"

text \<open>
  What the file system answers: whether a path exists, the error of creating the parent of a path,
  of making the staging directory beside it, of writing a file there, of the rename.
\<close>

record disk =
  dk_cwd :: string
  dk_lstat :: "string \<Rightarrow> string + bool"
  dk_mkdir_parent :: "string \<Rightarrow> string option"
  dk_mkdtemp :: "string \<Rightarrow> string + string"
  dk_write :: "string \<Rightarrow> string option"
  dk_rename :: "string \<Rightarrow> string \<Rightarrow> string option"

definition shellQuote :: "string \<Rightarrow> string" where
  "shellQuote v = sq @ concat (map (\<lambda>c. if c = CHR 0x27 then sq @ bs @ sq @ sq else [c]) v) @ sq"

definition file_body :: "draft_file \<Rightarrow> string" where
  "file_body f = df_content f @ (if HasSuffix (df_content f) nl then [] else nl)"

definition writeNewFile :: "disk \<Rightarrow> string \<times> string \<Rightarrow> (string \<times> string) list \<Rightarrow> string + (string \<times> string) list" where
  "writeNewFile dk entry files = (case entry of (name, body) \<Rightarrow>
     (case dk_write dk name of Some e \<Rightarrow> Inl e | None \<Rightarrow> Inr (AList.update name body files)))"

definition package_tree :: "(string \<times> string) list \<Rightarrow> file_tree" where
  "package_tree files = DirNode (map (\<lambda>(name, body). (name, FileNode (Some body))) files)"

definition next_commands :: "string \<Rightarrow> string list" where
  "next_commands output = [''werkt validate '' @ shellQuote output,
     ''python3 -m unittest discover -s '' @ shellQuote output @ '' -p '' @ sq @ ''test_*.py'' @ sq,
     ''werkt deploy '' @ shellQuote output]"

record packager =
  pk_compiler :: compiler
  pk_marshal_yaml :: "manifest \<Rightarrow> string + string"
  pk_decode_yaml :: "string \<Rightarrow> string + manifest"
  pk_cron_text :: "string \<Rightarrow> string"
  pk_sha256 :: "string \<Rightarrow> string"

definition package_files :: "packager \<Rightarrow> draft \<Rightarrow> package_options \<Rightarrow> string \<Rightarrow> (string \<times> string) list" where
  "package_files pk d options yaml =
     [(''automation.yaml'', yaml)] @ map (\<lambda>f. (df_path f, file_body f)) (dr_files d) @
     [(''werkt.plan.json'', plan_body (cp_number (pk_compiler pk)) (po_model options) (po_intent_digest options) d),
      (''README.md'', packageReadme d)]"

definition read_back :: "packager \<Rightarrow> ambient \<Rightarrow> string \<Rightarrow> (string \<times> string) list \<Rightarrow> string + manifest" where
  "read_back pk amb staging files = Load (\<lambda>_. case map_of files ''automation.yaml'' of
     None \<Rightarrow> Inl ''no such file'' | Some body \<Rightarrow> pk_decode_yaml pk body) amb (pk_cron_text pk) staging"

text \<open>The result, and the package that stands at the output afterwards; an error leaves nothing there.\<close>

definition WritePackage :: "ambient \<Rightarrow> disk \<Rightarrow> packager \<Rightarrow> draft \<Rightarrow> package_options
    \<Rightarrow> string + package_result \<times> (string \<times> string) list" where
  "WritePackage amb dk pk d options =
     bindR (draft_Validate amb d (dr_name d)) (\<lambda>_.
     guardR (blank (po_project options)) ''project is required''
     (guardR (blank (po_output_directory options)) ''output directory is required''
     (let output = Abs (dk_cwd dk) (po_output_directory options) in
      bindR (dk_lstat dk output) (\<lambda>there.
      guardR there (''output path already exists: '' @ output)
      (case dk_mkdir_parent dk output of
         Some e \<Rightarrow> Inl (''create output parent: '' @ e)
       | None \<Rightarrow>
           bindR (dk_mkdtemp dk output) (\<lambda>staging.
           let value = buildManifest d (po_project options) (po_folder options) in
           bindR (case Validate amb (pk_cron_text pk) value of
               Inl e \<Rightarrow> Inl (''validate generated manifest: '' @ e) | Inr _ \<Rightarrow> Inr ()) (\<lambda>_.
           bindR (pk_marshal_yaml pk value) (\<lambda>yaml.
           bindR (foldR (writeNewFile dk) (package_files pk d options yaml) []) (\<lambda>files.
           bindR (case read_back pk amb staging files of
               Inl e \<Rightarrow> Inl (''reload generated package: '' @ e) | Inr m \<Rightarrow> Inr m) (\<lambda>_.
           case HashDirectory (pk_sha256 pk) (package_tree files) of
             None \<Rightarrow> Inl ''hash generated package''
           | Some contentHash \<Rightarrow>
               (case dk_rename dk staging output of
                  Some e \<Rightarrow> Inl (''publish generated package: '' @ e)
                | None \<Rightarrow> Inr (\<lparr>pr_automation = dr_name d, pr_output = output, pr_content_hash = contentHash,
                    pr_plan_file = JoinPath output ''werkt.plan.json'', pr_warnings = dr_warnings d,
                    pr_next_commands = next_commands output\<rparr>, files))))))))))))"

end
