(* ===== verification/DraftProofs.thy ===== *)
theory DraftProofs
  imports Drafts
begin

text \<open>
  What the validation of a draft decides about its steps. The depth-first search needs no more fuel
  than it is given and finds a cycle exactly where there is one; steps without problems are a
  topological order of the workflow, in which the search can find nothing.
\<close>

section \<open>The search for a cycle\<close>

definition edges :: "(string \<times> string list) list \<Rightarrow> (string \<times> string) set" where
  "edges deps = {(i, j). j \<in> set (required_by deps i)}"

text \<open>A finished set: closed under dependencies and without a cycle through it.\<close>

definition explored :: "(string \<times> string) set \<Rightarrow> string set \<Rightarrow> bool" where
  "explored E V = (E `` V \<subseteq> V \<and> (\<forall>v \<in> V. (v, v) \<notin> E\<^sup>+))"

lemma explored_closed: "explored E V \<Longrightarrow> (v, w) \<in> E\<^sup>* \<Longrightarrow> v \<in> V \<Longrightarrow> w \<in> V"
  by (rotate_tac 1, induction rule: rtrancl_induct) (auto simp: explored_def)

lemma explored_insert:
  assumes "explored E V" "E `` {i} \<subseteq> V" "i \<notin> V"
  shows "explored E (insert i V)"
proof -
  have "(i, i) \<notin> E\<^sup>+"
  proof
    assume "(i, i) \<in> E\<^sup>+"
    then obtain j where "(i, j) \<in> E" "(j, i) \<in> E\<^sup>*" by (meson tranclD)
    with assms explored_closed show False by blast
  qed
  with assms show ?thesis by (auto simp: explored_def)
qed

text \<open>What a call leaves behind that found no cycle, and that the path it is on has room.\<close>

definition leaves :: "(string \<times> string list) list \<Rightarrow> string set \<Rightarrow> string list \<Rightarrow> string list
    \<Rightarrow> (bool \<times> string list \<times> string list) option \<Rightarrow> bool" where
  "leaves deps new vg vd r = (case r of
     None \<Rightarrow> False
   | Some (True, _) \<Rightarrow> \<not> acyclic (edges deps)
   | Some (False, vg', vd') \<Rightarrow> vg' = vg \<and> explored (edges deps) (set vd') \<and> set vd \<union> new \<subseteq> set vd' \<and> set vd' \<inter> set vg = {})"

definition ready :: "nat \<Rightarrow> (string \<times> string list) list \<Rightarrow> string list \<Rightarrow> string list \<Rightarrow> bool" where
  "ready fuel deps vg vd = (distinct vg \<and> set vg \<subseteq> fst ` set deps \<and> card (fst ` set deps) < fuel + length vg
     \<and> explored (edges deps) (set vd) \<and> set vd \<inter> set vg = {})"

lemma ready_fuel: "ready fuel deps vg vd \<Longrightarrow> 0 < fuel"
proof -
  assume r: "ready fuel deps vg vd"
  then have "length vg \<le> card (fst ` set deps)"
    by (metis card_mono distinct_card finite_imageI finite_set ready_def)
  with r show "0 < fuel" by (simp add: ready_def)
qed

lemma required_by_nil: "i \<notin> fst ` set deps \<Longrightarrow> required_by deps i = []"
  by (simp add: required_by_def map_of_eq_None_iff[THEN iffD2])

lemma search_correct:
  shows "ready fuel deps (fst st) (snd st) \<Longrightarrow> \<forall>v \<in> set (fst st). (v, i) \<in> (edges deps)\<^sup>+
      \<Longrightarrow> leaves deps {i} (fst st) (snd st) (visit fuel deps i st)"
    and "ready fuel deps (fst st) (snd st) \<or> is = [] \<and> explored (edges deps) (set (snd st)) \<and> set (snd st) \<inter> set (fst st) = {}
      \<Longrightarrow> \<forall>v \<in> set (fst st). \<forall>j \<in> set is. (v, j) \<in> (edges deps)\<^sup>+
      \<Longrightarrow> leaves deps (set is) (fst st) (snd st) (visit_all fuel deps is st)"
proof (induction fuel deps i st and fuel deps "is" st rule: visit_visit_all.induct)
  case (1 deps i st)
  then show ?case using ready_fuel by blast
next
  case (2 fuel deps i vg vd)
  let ?E = "edges deps"
  show ?case
  proof (cases "i \<in> set vg \<or> i \<in> set vd")
    case True
    with 2(2,3) show ?thesis by (auto simp: leaves_def ready_def acyclic_def)
  next
    case False
    have next_ready: "ready fuel deps (i # vg) vd \<or> required_by deps i = [] \<and> explored ?E (set vd) \<and> set vd \<inter> set (i # vg) = {}"
      using 2(2) False required_by_nil[of i deps] by (auto simp: ready_def)
    moreover have "\<forall>v \<in> set (i # vg). \<forall>j \<in> set (required_by deps i). (v, j) \<in> ?E\<^sup>+"
      using 2(3) by (auto simp: edges_def intro: trancl_into_trancl)
    ultimately have l: "leaves deps (set (required_by deps i)) (i # vg) vd (visit_all fuel deps (required_by deps i) (i # vg, vd))"
      using 2(1) False by simp
    have im: "?E `` {i} = set (required_by deps i)" by (auto simp: edges_def)
    show ?thesis
    proof (cases "visit_all fuel deps (required_by deps i) (i # vg, vd)")
      case None
      with l show ?thesis by (simp add: leaves_def)
    next
      case (Some r)
      obtain b vg' vd' where r: "r = (b, vg', vd')" by (cases r)
      show ?thesis
      proof (cases b)
        case True
        with l Some r False show ?thesis by (simp add: leaves_def)
      next
        case nf: False
        with l Some r have "vg' = i # vg" "explored ?E (set vd')" "set vd \<union> set (required_by deps i) \<subseteq> set vd'"
          "set vd' \<inter> set (i # vg) = {}" by (simp_all add: leaves_def)
        moreover from this have "explored ?E (insert i (set vd'))" by (intro explored_insert) (auto simp: im)
        ultimately show ?thesis using Some r nf False by (auto simp: leaves_def)
      qed
    qed
  qed
next
  case (3 fuel deps st)
  then show ?case by (cases st) (auto simp: leaves_def ready_def)
next
  case (4 fuel deps i "is" st)
  obtain vg vd where st: "st = (vg, vd)" by (cases st)
  from 4(3) have rd: "ready fuel deps vg vd" by (simp add: st)
  have l: "leaves deps {i} vg vd (visit fuel deps i st)" using 4(1) 4(4) rd by (simp add: st)
  show ?case
  proof (cases "visit fuel deps i st")
    case None
    with l show ?thesis by (simp add: leaves_def)
  next
    case (Some r)
    obtain b vg' vd' where r: "r = (b, vg', vd')" by (cases r)
    show ?thesis
    proof (cases b)
      case True
      with l Some r show ?thesis by (simp add: leaves_def st)
    next
      case nf: False
      with l Some r have p: "vg' = vg" "explored (edges deps) (set vd')" "insert i (set vd) \<subseteq> set vd'" "set vd' \<inter> set vg = {}"
        by (simp_all add: leaves_def)
      then have "ready fuel deps vg' vd'" using rd by (simp add: ready_def)
      with 4(2)[of r b "(vg', vd')"] 4(4) Some r nf p st
      have "leaves deps (set is) vg' vd' (visit_all fuel deps is (vg', vd'))" by simp
      with Some r nf p st show ?thesis by (auto simp: leaves_def split: option.splits prod.splits bool.splits)
    qed
  qed
qed

lemma finds_cycle_correct: "finds_cycle deps = Some (\<not> acyclic (edges deps))"
proof -
  let ?r = "visit_all (Suc (length deps)) deps (map fst deps) ([], [])"
  have "card (fst ` set deps) \<le> length deps" by (metis card_length length_map set_map)
  then have l: "leaves deps (fst ` set deps) [] [] ?r"
    using search_correct(2)[of "Suc (length deps)" deps "([], [])" "map fst deps"] by (simp add: ready_def explored_def)
  then obtain b vg vd where r: "?r = Some (b, vg, vd)" by (auto simp: leaves_def split: option.splits)
  show ?thesis
  proof (cases b)
    case True
    with l r show ?thesis by (simp add: leaves_def finds_cycle_def)
  next
    case False
    with l r have e: "explored (edges deps) (set vd)" "fst ` set deps \<subseteq> set vd" by (simp_all add: leaves_def)
    have "acyclic (edges deps)"
    proof (unfold acyclic_def, intro allI notI)
      fix x assume c: "(x, x) \<in> (edges deps)\<^sup>+"
      then obtain y where "(x, y) \<in> edges deps" by (meson tranclD)
      then have "x \<in> fst ` set deps" using required_by_nil by (fastforce simp: edges_def)
      with e c show False by (auto simp: explored_def)
    qed
    with r False show ?thesis by (simp add: finds_cycle_def)
  qed
qed

text \<open>
  The search for dependency cycles always ends with an answer, and the answer is right. The depth
  given as fuel is enough for every list of steps, duplicate identifiers and unknown dependencies
  included, and a cycle is reported exactly when the relation of the dependencies has one.
\<close>

lemma cycle_search_decides:
  "finds_cycle (dependencies ss) =
     Some (\<not> acyclic {(i, j). \<exists>ds. map_of (dependencies ss) i = Some ds \<and> j \<in> set ds})"
proof -
  have "edges (dependencies ss) = {(i, j). \<exists>ds. map_of (dependencies ss) i = Some ds \<and> j \<in> set ds}"
    by (force simp: edges_def required_by_def split: option.splits)
  then show ?thesis by (simp add: finds_cycle_correct)
qed

section \<open>Maps that are filled in a loop\<close>

lemma map_of_filled:
  "map_of (foldl (\<lambda>m x. AList.update (k x) (v x) m) m0 xs) = map_of m0 ++ map_of (rev (map (\<lambda>x. (k x, v x)) xs))"
  by (induction xs arbitrary: m0) (simp_all add: AList.update_conv' map_add_upd_left)

lemma distinct_filled: "distinct (map fst m0) \<Longrightarrow> distinct (map fst (foldl (\<lambda>m x. AList.update (k x) (v x) m) m0 xs))"
  by (induction xs arbitrary: m0) (simp_all add: AList.distinct_update)

lemma map_of_rev_distinct: "distinct (map fst xs) \<Longrightarrow> map_of (rev xs) = map_of xs"
  by (subst map_of_inject_set) (simp_all add: rev_map[symmetric])

lemma filled_set:
  "set (foldl (\<lambda>m x. AList.update (k x) (v x) m) [] xs) = {(i, y). map_of (rev (map (\<lambda>x. (k x, v x)) xs)) i = Some y}"
  using distinct_filled[of "[]" k v xs] map_of_filled[of k v "[]" xs] by (auto simp: map_of_eq_Some_iff[symmetric])

lemma filled_distinct_set:
  assumes "distinct (map k xs)"
  shows "set (foldl (\<lambda>m x. AList.update (k x) (v x) m) [] xs) = (\<lambda>x. (k x, v x)) ` set xs"
proof -
  have d: "distinct (map fst (map (\<lambda>x. (k x, v x)) xs))" using assms by (simp add: comp_def)
  then show ?thesis unfolding filled_set map_of_rev_distinct[OF d] by (auto simp: map_of_eq_Some_iff)
qed

section \<open>Text that is not blank\<close>

definition printable_ascii :: "char \<Rightarrow> bool" where
  "printable_ascii c = (33 \<le> code c \<and> code c < 127)"

lemma space_encodings_not_printable: "p \<in> set space_encodings \<Longrightarrow> c \<in> set p \<Longrightarrow> \<not> printable_ascii c"
proof -
  have "list_all (list_all (\<lambda>c. \<not> printable_ascii c)) space_encodings" by code_simp
  then show "p \<in> set space_encodings \<Longrightarrow> c \<in> set p \<Longrightarrow> \<not> printable_ascii c" by (simp add: list_all_iff)
qed

lemma TrimLeftSpace_keeps: "c \<in> set s \<Longrightarrow> printable_ascii c \<Longrightarrow> c \<in> set (TrimLeftSpace s)"
proof (induction s rule: TrimLeftSpace.induct)
  case (1 s)
  show ?case
  proof (cases "find (\<lambda>p. HasPrefix s p) space_encodings")
    case None
    with 1(2) show ?thesis by (subst TrimLeftSpace.simps) simp
  next
    case (Some p)
    then have p: "p \<in> set space_encodings" "take (length p) s = p" by (auto simp: find_Some_iff HasPrefix_def)
    have "c \<in> set (take (length p) s @ drop (length p) s)" using 1(2) by simp
    then have "c \<in> set (drop (length p) s)" using p space_encodings_not_printable 1(3) by (metis Un_iff set_append)
    with 1 Some show ?thesis by (subst TrimLeftSpace.simps) auto
  qed
qed

lemma TrimRightSpace_keeps: "c \<in> set s \<Longrightarrow> printable_ascii c \<Longrightarrow> c \<in> set (TrimRightSpace s)"
proof (induction s rule: TrimRightSpace.induct)
  case (1 s)
  show ?case
  proof (cases "find (\<lambda>p. HasSuffix s p) space_encodings")
    case None
    with 1(2) show ?thesis by (subst TrimRightSpace.simps) simp
  next
    case (Some p)
    then have p: "p \<in> set space_encodings" "drop (length s - length p) s = p" by (auto simp: find_Some_iff HasSuffix_def)
    have "c \<in> set (take (length s - length p) s @ drop (length s - length p) s)" using 1(2) by simp
    then have "c \<in> set (take (length s - length p) s)" using p space_encodings_not_printable 1(3) by (metis Un_iff set_append)
    with 1 Some show ?thesis by (subst TrimRightSpace.simps) auto
  qed
qed

lemma not_blank: "c \<in> set s \<Longrightarrow> printable_ascii c \<Longrightarrow> \<not> blank s"
  by (metis TrimLeftSpace_keeps TrimRightSpace_keeps TrimSpace_def list.set(1) empty_iff)

lemma list_ex_not_blank: "list_ex printable_ascii s \<Longrightarrow> \<not> blank s"
  by (auto simp: list_ex_iff dest: not_blank)

section \<open>Steps without problems\<close>

lemma only_if_nil [simp]: "only_if b p = [] \<longleftrightarrow> \<not> b"
  by simp

definition step_ok :: "workflow_step \<Rightarrow> bool" where
  "step_ok s = (identifier_pattern (ws_id s) \<and> \<not> blank (ws_title s) \<and> \<not> blank (ws_connector s) \<and> \<not> blank (ws_operation s)
     \<and> (ws_effect s = ''read'' \<or> ws_effect s = ''write'' \<or> ws_effect s = ''compute'' \<or> ws_effect s = ''approval''))"

definition earlier_dependencies :: "workflow_step list \<Rightarrow> bool" where
  "earlier_dependencies ss = (\<forall>k < length ss. \<forall>j \<in> set (ws_depends_on (ss ! k)). \<exists>p < k. ws_id (ss ! p) = j)"

lemma step_problems_iff: "step_problems index seen ss = [] \<longleftrightarrow>
    list_all step_ok ss \<and> distinct (map ws_id ss) \<and> ws_id ` set ss \<inter> set seen = {}"
proof (induction ss arbitrary: index seen)
  case (Cons s ss)
  define untitled where "untitled = (blank (ws_title s) \<or> blank (ws_connector s) \<or> blank (ws_operation s))"
  define other where "other = (ws_effect s \<noteq> ''read'' \<and> ws_effect s \<noteq> ''write'' \<and> ws_effect s \<noteq> ''compute''
    \<and> ws_effect s \<noteq> ''approval'')"
  have ok: "step_ok s \<longleftrightarrow> identifier_pattern (ws_id s) \<and> \<not> untitled \<and> \<not> other"
    by (simp only: step_ok_def untitled_def other_def de_Morgan_disj de_Morgan_conj not_not conj_assoc)
  show ?case unfolding step_problems.simps Let_def append_is_Nil_conv only_if_nil Cons.IH list.pred_inject(2) ok
      untitled_def[symmetric] other_def[symmetric] list.map distinct.simps list.set image_insert
    by (simp only: Int_insert_left Int_insert_right split: if_split) auto
qed simp

lemma map_snd_of_enumerate: "map (\<lambda>x. f (snd x)) (enumerate n xs) = map f xs"
  by (induction xs arbitrary: n) simp_all

lemma map_of_positions:
  assumes "distinct (map ws_id ss)"
  shows "map_of (positions ss) i = Some p \<longleftrightarrow> p < length ss \<and> ws_id (ss ! p) = i"
proof -
  let ?l = "map (\<lambda>x. (ws_id (snd x), fst x)) (enumerate 0 ss)"
  have "map fst ?l = map ws_id ss" by (simp add: comp_def map_snd_of_enumerate)
  then have d: "distinct (map fst ?l)" using assms by simp
  have "positions ss = foldl (\<lambda>m x. AList.update (ws_id (snd x)) (fst x) m) [] (enumerate 0 ss)"
    by (simp add: positions_def case_prod_beta')
  then have "map_of (positions ss) = map_of ?l"
    using map_of_filled[of "\<lambda>x. ws_id (snd x)" fst "[]" "enumerate 0 ss"] map_of_rev_distinct[OF d] by simp
  then have "map_of (positions ss) i = Some p \<longleftrightarrow> (i, p) \<in> set ?l" using d by simp
  also have "\<dots> \<longleftrightarrow> (\<exists>s. (p, s) \<in> set (enumerate 0 ss) \<and> ws_id s = i)" by force
  also have "\<dots> \<longleftrightarrow> p < length ss \<and> ws_id (ss ! p) = i" by (auto simp: in_set_enumerate_eq)
  finally show ?thesis .
qed

lemma dependency_problems_iff: "dependency_problems known i j = [] \<longleftrightarrow> (\<exists>p. map_of known j = Some p \<and> p < position_at known i)"
  by (auto simp: dependency_problems_def not_le split: option.splits)

lemma order_problems_iff:
  assumes "distinct (map ws_id ss)"
  shows "order_problems ss = [] \<longleftrightarrow> earlier_dependencies ss"
proof -
  have deps: "set (dependencies ss) = (\<lambda>s. (ws_id s, ws_depends_on s)) ` set ss"
    unfolding dependencies_def by (rule filled_distinct_set[OF assms])
  have pos: "position_at (positions ss) (ws_id (ss ! k)) = k" if "k < length ss" for k
    using map_of_positions[OF assms, of "ws_id (ss ! k)" k] that by (simp add: position_at_def)
  have "order_problems ss = [] \<longleftrightarrow> (\<forall>s \<in> set ss. \<forall>j \<in> set (ws_depends_on s). dependency_problems (positions ss) (ws_id s) j = [])"
    by (simp add: order_problems_def deps)
  also have "\<dots> \<longleftrightarrow> (\<forall>k < length ss. \<forall>j \<in> set (ws_depends_on (ss ! k)). \<exists>p < k. ws_id (ss ! p) = j)"
    unfolding dependency_problems_iff map_of_positions[OF assms] all_set_conv_all_nth[of ss]
    by (intro all_cong imp_cong ball_cong refl) (auto simp: pos intro: less_trans)
  finally show ?thesis by (simp add: earlier_dependencies_def)
qed

lemma earlier_acyclic:
  assumes "distinct (map ws_id ss)" "earlier_dependencies ss"
  shows "acyclic (edges (dependencies ss))"
proof (rule acyclicI_order[where f = "position_at (positions ss)"])
  fix i j assume "(i, j) \<in> edges (dependencies ss)"
  then obtain ds where "map_of (dependencies ss) i = Some ds" "j \<in> set ds"
    by (cases "map_of (dependencies ss) i") (auto simp: edges_def required_by_def)
  with order_problems_iff[OF assms(1)] assms(2) have "dependency_problems (positions ss) i j = []"
    by (fastforce simp: order_problems_def dest: map_of_SomeD)
  then show "position_at (positions ss) j < position_at (positions ss) i"
    by (auto simp: dependency_problems_iff position_at_def)
qed

lemma validateSteps_iff: "validateSteps ss = [] \<longleftrightarrow>
    ss \<noteq> [] \<and> length ss \<le> 32 \<and> list_all step_ok ss \<and> distinct (map ws_id ss) \<and> earlier_dependencies ss"
proof (cases "ss = [] \<or> 32 < length ss")
  case True
  then show ?thesis unfolding validateSteps_def by (simp only: if_True) auto
next
  case False
  have "order_problems ss = [] \<and> \<not> finds_cycle (dependencies ss) = Some True \<longleftrightarrow> earlier_dependencies ss" if "distinct (map ws_id ss)"
    using earlier_acyclic[OF that] order_problems_iff[OF that] by (auto simp: finds_cycle_correct)
  with False show ?thesis
    unfolding validateSteps_def by (simp only: if_False append_is_Nil_conv only_if_nil step_problems_iff) auto
qed

text \<open>
  Validated steps are a workflow in topological order. The identifiers are distinct, every step
  depends on steps that stand before it, and so the dependencies have no cycle; the search for
  cycles adds nothing to the check of the order.
\<close>

lemma validated_steps_ordered:
  assumes "validateSteps ss = []"
  shows "distinct (map ws_id ss)
    \<and> (\<forall>k < length ss. \<forall>j \<in> set (ws_depends_on (ss ! k)). \<exists>p < k. ws_id (ss ! p) = j)
    \<and> finds_cycle (dependencies ss) = Some False"
proof -
  from assms have v: "distinct (map ws_id ss)" "earlier_dependencies ss" by (simp_all add: validateSteps_iff)
  with earlier_acyclic show ?thesis by (simp add: finds_cycle_correct earlier_dependencies_def)
qed

definition sample_steps :: "workflow_step list" where
  "sample_steps =
     [\<lparr>ws_id = ''fetch'', ws_title = ''Fetch'', ws_connector = ''zoom'', ws_operation = ''recording'', ws_effect = ''read'',
       ws_depends_on = [], ws_inputs = [], ws_outputs = []\<rparr>,
      \<lparr>ws_id = ''tell'', ws_title = ''Tell'', ws_connector = ''werkt'', ws_operation = ''notify'', ws_effect = ''write'',
       ws_depends_on = [''fetch''], ws_inputs = [], ws_outputs = []\<rparr>]"

lemma sample_steps_ordered: "finds_cycle (dependencies sample_steps) = Some False"
proof -
  have "list_all step_ok sample_steps"
    unfolding sample_steps_def by (simp add: step_ok_def list_ex_not_blank printable_ascii_def code_def) code_simp
  moreover have "distinct (map ws_id sample_steps)" "earlier_dependencies sample_steps"
    by (simp_all add: sample_steps_def earlier_dependencies_def less_Suc_eq all_conj_distrib)
  ultimately have "validateSteps sample_steps = []" by (simp add: validateSteps_iff) (simp add: sample_steps_def)
  from validated_steps_ordered[OF this] show ?thesis by blast
qed

end
