(* ===== verification/CompileProofs.thy ===== *)
theory CompileProofs
  imports DraftPackage DraftProofs
begin

text \<open>
  The properties of the compilation of answers into a draft: what the selection of operations keeps,
  that consequential drafts cannot act before an operator has approved them, and what reaches the
  generated source text.
\<close>

section \<open>The selection\<close>

definition catalogued :: "operation_spec \<Rightarrow> bool" where
  "catalogued p = (p \<in> set operationCatalog)"

lemma catalog_ids: "distinct (map op_id operationCatalog)"
  by code_simp

lemma catalog_all: "list_all P operationCatalog \<Longrightarrow> catalogued p \<Longrightarrow> P p"
  by (simp add: catalogued_def list_all_iff)

lemma catalog_id_inj: "catalogued p \<Longrightarrow> catalogued q \<Longrightarrow> op_id p = op_id q \<Longrightarrow> p = q"
  using catalog_ids by (auto simp: catalogued_def distinct_map inj_on_def)

lemma operationByID_catalogued: "catalogued p \<Longrightarrow> operationByID (op_id p) = Some p"
proof -
  assume p: "catalogued p"
  then have "find (\<lambda>q. op_id q = op_id p) operationCatalog \<noteq> None" by (auto simp: find_None_iff catalogued_def)
  then obtain q where q: "find (\<lambda>q. op_id q = op_id p) operationCatalog = Some q" by auto
  then have "catalogued q" "op_id q = op_id p" by (auto simp: find_Some_iff catalogued_def)
  with p q show ?thesis by (simp add: operationByID_def catalog_id_inj)
qed

definition well_selected :: "selected_operation list \<Rightarrow> bool" where
  "well_selected xs = ((\<forall>s \<in> set xs. catalogued (so_spec s)) \<and> distinct (map so_id xs) \<and> sorted (map so_stage xs) \<and> length xs \<le> 6)"

lemma sorted_twice: "sorted (map f (sort_key f xs))" "set (sort_key f xs) = set xs"
  by simp_all

lemma selectOperations_well: "well_selected (selectOperations primary as)"
proof -
  let ?mk = "\<lambda>p. \<lparr>so_spec = p, so_probability = an_noul (answer_at as (relevanceQuestion (op_id p))), so_depends_on = []\<rparr>"
  let ?P = "\<lambda>p. op_id p = an_choice primary \<or> operationSelectionThreshold \<le> an_noul (answer_at as (relevanceQuestion (op_id p)))
     \<or> primaryCandidateThreshold \<le> probability_at primary (op_id p)"
  let ?ys = "sort_key so_stage (sort_key so_id (map ?mk (filter ?P operationCatalog)))"
  have "distinct (map so_id (map ?mk (filter ?P operationCatalog)))"
    using catalog_ids by (simp add: comp_def distinct_map_filter)
  then have "distinct (map so_id ?ys)" by (simp only: distinct_map[of so_id] distinct_sort set_sort)
  then have "distinct (map so_id (take 6 ?ys))" by (simp add: take_map[symmetric])
  moreover have "sorted (map so_stage (take 6 ?ys))" by (simp only: take_map[symmetric] sorted_twice sorted_wrt_take)
  moreover have "\<forall>s \<in> set ?ys. catalogued (so_spec s)" by (auto simp: catalogued_def)
  then have "\<forall>s \<in> set (take 6 ?ys). catalogued (so_spec s)" by (blast dest: in_set_takeD)
  moreover have "length (take 6 ?ys) \<le> 6" by simp
  ultimately show ?thesis by (simp only: well_selected_def selectOperations_def simp_thms)
qed

lemma last_index_bounds: "last_index P n xs = Some k \<Longrightarrow> n \<le> k \<and> k < n + length xs \<and> P (xs ! (k - n))"
proof (induction P n xs rule: last_index.induct)
  case (2 P n x xs)
  show ?case
  proof (cases "last_index P (Suc n) xs")
    case None
    with 2(2) show ?thesis by (simp split: if_splits)
  next
    case (Some j)
    with 2 have "Suc n \<le> j" "j < Suc n + length xs" "P (xs ! (j - Suc n))" "k = j" by simp_all
    then show ?thesis by (simp add: nth_Cons' )
  qed
qed simp

lemma last_index_None: "last_index P n xs = None \<longleftrightarrow> (\<forall>x \<in> set xs. \<not> P x)"
  by (induction P n xs rule: last_index.induct) (auto split: option.splits)

lemma last_index_absent: "last_index (\<lambda>s. f s = v) n xs = None \<longleftrightarrow> v \<notin> f ` set xs"
  unfolding last_index_None by auto

lemma resolve_cases:
  obtains (same) "resolveOperationConflicts xs primary = xs"
      "\<not> (''sheets-update'' \<in> so_id ` set xs \<and> ''sheets-clear'' \<in> so_id ` set xs)"
  | (removed) ys x zs where "xs = ys @ x # zs" "resolveOperationConflicts xs primary = ys @ zs"
      "so_id x = ''sheets-update'' \<or> so_id x = ''sheets-clear''"
      "so_id x \<noteq> primary" "''sheets-update'' \<in> so_id ` set xs" "''sheets-clear'' \<in> so_id ` set xs"
proof (cases "last_index (\<lambda>s. so_id s = ''sheets-update'') 0 xs")
  case None
  then have "''sheets-update'' \<notin> so_id ` set xs" unfolding last_index_absent .
  moreover have "resolveOperationConflicts xs primary = xs" using None by (simp add: resolveOperationConflicts_def)
  ultimately show thesis using same by blast
next
  case (Some left)
  show thesis
  proof (cases "last_index (\<lambda>s. so_id s = ''sheets-clear'') 0 xs")
    case None
    then have "''sheets-clear'' \<notin> so_id ` set xs" unfolding last_index_absent .
    moreover have "resolveOperationConflicts xs primary = xs" using Some None by (simp add: resolveOperationConflicts_def)
    ultimately show thesis using same by blast
  next
    case right: (Some right)
    define k where "k = (if primary = ''sheets-clear'' \<or> primary \<noteq> ''sheets-update''
      \<and> so_probability (xs ! left) < so_probability (xs ! right) then left else right)"
    have res: "resolveOperationConflicts xs primary = take k xs @ drop (Suc k) xs"
      using Some right by (simp add: resolveOperationConflicts_def k_def)
    from last_index_bounds[OF Some] last_index_bounds[OF right]
    have b: "left < length xs" "right < length xs" "so_id (xs ! left) = ''sheets-update''" "so_id (xs ! right) = ''sheets-clear''"
      by simp_all
    have "k = left \<and> primary \<noteq> ''sheets-update'' \<or> k = right \<and> primary \<noteq> ''sheets-clear''"
      unfolding k_def by (cases "primary = ''sheets-clear''") (simp_all split: if_split)
    with b have "k < length xs" "so_id (xs ! k) = ''sheets-update'' \<or> so_id (xs ! k) = ''sheets-clear''" "so_id (xs ! k) \<noteq> primary"
      by metis+
    moreover have "''sheets-update'' \<in> so_id ` set xs" "''sheets-clear'' \<in> so_id ` set xs" using b by (metis image_eqI nth_mem)+
    ultimately show thesis using removed[OF id_take_nth_drop res] by blast
  qed
qed

lemma well_selected_remove: "well_selected (ys @ x # zs) \<Longrightarrow> well_selected (ys @ zs)"
  by (auto simp: well_selected_def sorted_append)

lemma choose_operations_well: "well_selected (choose_operations r)"
  unfolding choose_operations_def Let_def
  using selectOperations_well[of "answer_at (answers_of r) ''primary_operation''" "answers_of r"]
  by (cases rule: resolve_cases[of "selectOperations (answer_at (answers_of r) ''primary_operation'') (answers_of r)"
      "an_choice (answer_at (answers_of r) ''primary_operation'')"]) (auto dest: well_selected_remove)

lemma link_operations_simps [simp]:
  "map so_spec (link_operations as xs) = map so_spec xs"
  "length (link_operations as xs) = length xs" "link_operations as xs = [] \<longleftrightarrow> xs = []"
  by (simp_all add: link_operations_def)

lemma link_operations_well: "well_selected xs \<Longrightarrow> well_selected (link_operations as xs)"
  by (simp add: well_selected_def link_operations_def comp_def)

section \<open>The compiled draft\<close>

definition selection :: "jev_response \<Rightarrow> selected_operation list" where
  "selection r = link_operations (answers_of r) (choose_operations r)"

lemma selection_well: "well_selected (selection r)"
  by (simp add: selection_def link_operations_well choose_operations_well)

lemma compileDraft_Inr:
  assumes "compileDraft c intent name timezone r = Inr d"
  shows "dr_steps d = compiled_steps (consequential r (selection r)) (selection r)" "dr_decision d = decision_of r (selection r)"
    "dr_secrets d = collectSecrets (selection r)" "dr_egress d = collectEgress (selection r)" "selection r \<noteq> []"
    "hd (dr_files d) = \<lparr>df_path = ''main.py'', df_content = renderMain (selection r) (consequential r (selection r))\<rparr>"
  using assms unfolding compileDraft_def Let_def selection_def[symmetric]
  by (auto simp: guardR_def renderFiles_def selection_def split: if_splits)

section \<open>Approval\<close>

abbreviation operations_of :: "workflow_step list \<Rightarrow> workflow_step list" where
  "operations_of ss \<equiv> filter (\<lambda>s. ws_effect s \<noteq> ''approval'') ss"

lemma catalog_effects: "list_all (\<lambda>p. op_effect p \<noteq> ''approval'' \<and> op_id p \<noteq> ''review'') operationCatalog"
  by code_simp

lemma step_of_effect: "catalogued (so_spec s) \<Longrightarrow> ws_effect (step_of s) \<noteq> ''approval''"
  using catalog_all[OF catalog_effects] by (simp only: step_of_def workflow_step.simps) blast

lemma insertApproval_operations:
  assumes "\<forall>s \<in> set ss. ws_effect s \<noteq> ''approval''"
  shows "map ws_id (operations_of (insertApproval ss)) = map ws_id ss"
proof -
  let ?P = "\<lambda>s. ws_effect s \<noteq> ''write''"
  have a: "operations_of (takeWhile ?P ss) = takeWhile ?P ss" "operations_of (dropWhile ?P ss) = dropWhile ?P ss"
    using assms by (auto simp: filter_id_conv dest: set_takeWhileD set_dropWhileD)
  have b: "map ws_id (operations_of (map (\<lambda>s. s\<lparr>ws_depends_on := f s\<rparr>) xs)) = map ws_id (operations_of xs)" for f xs
    by (induction xs) (simp_all split: if_split)
  have "operations_of [review_step ds] = []" for ds by (simp add: review_step_def)
  then show ?thesis unfolding insertApproval_def Let_def filter_append map_append b a
    by (simp only: list.map append_Nil map_append[symmetric] takeWhile_dropWhile_id)
qed

lemma compiled_operations:
  assumes "\<forall>s \<in> set xs. catalogued (so_spec s)"
  shows "map ws_id (operations_of (compiled_steps b xs)) = map so_id xs"
proof -
  have "\<forall>s \<in> set (map step_of xs). ws_effect s \<noteq> ''approval''" using assms step_of_effect by simp
  then have "map ws_id (operations_of (insertApproval (map step_of xs))) = map ws_id (map step_of xs)"
    "operations_of (map step_of xs) = map step_of xs"
    using insertApproval_operations by (blast, simp only: filter_id_conv)
  then show ?thesis by (simp add: compiled_steps_def step_of_def comp_def)
qed

text \<open>The source text of the operations of a workflow, in its order.\<close>

definition operations_source :: "workflow_step list \<Rightarrow> string" where
  "operations_source ss = concat (map renderOperation (map ws_id (operations_of ss)))"

lemma insertApproval_ids: "set (map ws_id (insertApproval ss)) = insert ''review'' (set (map ws_id ss))"
proof -
  let ?P = "\<lambda>s. ws_effect s \<noteq> ''write''"
  have "map ws_id (map (\<lambda>s. s\<lparr>ws_depends_on := f s\<rparr>) xs) = map ws_id xs" for f and xs :: "workflow_step list" by simp
  then have "map ws_id (insertApproval ss) = map ws_id (takeWhile ?P ss) @ [''review''] @ map ws_id (dropWhile ?P ss)"
    by (simp only: insertApproval_def Let_def map_append list.map review_step_def workflow_step.simps)
  then have "set (map ws_id (insertApproval ss)) = insert ''review'' (set (map ws_id (takeWhile ?P ss @ dropWhile ?P ss)))"
    by (simp only: set_append map_append list.set) blast
  then show ?thesis by (simp only: takeWhile_dropWhile_id)
qed

lemma compiled_ids: "set (map ws_id (compiled_steps b xs)) \<subseteq> insert ''review'' (so_id ` set xs)"
proof -
  have "set (map ws_id (map step_of xs)) = so_id ` set xs" by (simp only: set_map image_image step_of_def workflow_step.simps)
  then show ?thesis using insertApproval_ids[of "map step_of xs"] by (simp only: compiled_steps_def split: if_split) blast
qed

lemma destructive_consequential:
  assumes "s \<in> set (compiled_steps b (selection r))" "ws_id s = ''sheets-clear''"
  shows "consequential r (selection r)"
proof -
  have "''sheets-clear'' \<in> set (map ws_id (compiled_steps b (selection r)))" using assms by (metis image_eqI set_map)
  moreover have "''sheets-clear'' \<noteq> ''review''" by simp
  ultimately have "''sheets-clear'' \<in> so_id ` set (selection r)" using compiled_ids by blast
  then have "hasDestructiveOperation (selection r)" unfolding hasDestructiveOperation_def list_ex_iff by force
  then show ?thesis by (simp add: consequential_def)
qed


section \<open>The primary operation\<close>

definition primary_choice :: "jev_response \<Rightarrow> string" where
  "primary_choice r = an_choice (answer_at (answers_of r) ''primary_operation'')"

definition candidate :: "jev_response \<Rightarrow> string \<Rightarrow> bool" where
  "candidate r i = (i = primary_choice r \<or> operationSelectionThreshold \<le> an_noul (answer_at (answers_of r) (relevanceQuestion i))
     \<or> primaryCandidateThreshold \<le> probability_at (answer_at (answers_of r) ''primary_operation'') i)"

definition candidates :: "jev_response \<Rightarrow> string set" where
  "candidates r = {i \<in> op_id ` set operationCatalog. candidate r i}"

definition first_selection :: "jev_response \<Rightarrow> selected_operation list" where
  "first_selection r = selectOperations (answer_at (answers_of r) ''primary_operation'') (answers_of r)"

definition as_selected :: "jev_response \<Rightarrow> operation_spec \<Rightarrow> selected_operation" where
  "as_selected r p = \<lparr>so_spec = p, so_probability = an_noul (answer_at (answers_of r) (relevanceQuestion (op_id p))), so_depends_on = []\<rparr>"

lemma first_selection_alt: "first_selection r = take 6 (sort_key so_stage (sort_key so_id
    (map (as_selected r) (filter (\<lambda>p. candidate r (op_id p)) operationCatalog))))"
  by (simp only: first_selection_def selectOperations_def candidate_def primary_choice_def as_selected_def[abs_def])

lemma choose_operations_alt: "choose_operations r = resolveOperationConflicts (first_selection r) (primary_choice r)"
  by (simp only: choose_operations_def first_selection_def primary_choice_def Let_def)

lemma candidates_alt: "candidates r = op_id ` set (filter (\<lambda>p. candidate r (op_id p)) operationCatalog)"
  by (auto simp: candidates_def)

lemma so_id_as_selected: "so_id ` as_selected r ` X = op_id ` X"
  by (simp add: image_image as_selected_def)

lemma selected_candidates: "so_id ` set (first_selection r) \<subseteq> candidates r"
proof -
  have "set (first_selection r) \<subseteq> as_selected r ` set (filter (\<lambda>p. candidate r (op_id p)) operationCatalog)"
    unfolding first_selection_alt by (rule order_trans[OF set_take_subset]) simp
  then show ?thesis unfolding candidates_alt so_id_as_selected[of r, symmetric] by (rule image_mono)
qed

lemma selected_all:
  assumes "card (candidates r) \<le> 6"
  shows "so_id ` set (first_selection r) = candidates r"
proof -
  let ?fs = "filter (\<lambda>p. candidate r (op_id p)) operationCatalog"
  have "distinct (map op_id ?fs)" using catalog_ids by (simp add: distinct_map_filter)
  then have "length ?fs = card (candidates r)" unfolding candidates_alt by (metis distinct_card length_map set_map)
  with assms have "set (first_selection r) = as_selected r ` set ?fs" unfolding first_selection_alt by simp
  then show ?thesis unfolding candidates_alt by (simp only: so_id_as_selected)
qed

lemma chosen_candidates: "so_id ` set (choose_operations r) \<subseteq> candidates r"
  unfolding choose_operations_alt using selected_candidates[of r]
  by (cases rule: resolve_cases[of "first_selection r" "primary_choice r"]) auto

lemma resolved_not_both:
  assumes "distinct (map so_id xs)"
  shows "\<not> (''sheets-update'' \<in> so_id ` set (resolveOperationConflicts xs primary)
    \<and> ''sheets-clear'' \<in> so_id ` set (resolveOperationConflicts xs primary))"
proof (cases rule: resolve_cases[of xs primary])
  case same
  show ?thesis unfolding same(1) by (rule same(2))
next
  case (removed ys x zs)
  have "so_id x \<notin> so_id ` set (ys @ zs)" using assms unfolding removed(1) by auto
  with removed(3) show ?thesis unfolding removed(2) by metis
qed

lemma chosen_not_both:
  "\<not> (''sheets-update'' \<in> so_id ` set (choose_operations r) \<and> ''sheets-clear'' \<in> so_id ` set (choose_operations r))"
  unfolding choose_operations_def Let_def
  by (rule resolved_not_both) (use selectOperations_well in \<open>simp only: well_selected_def\<close>)

lemma chosen_primary:
  assumes "card (candidates r) \<le> 6" "operationByID (primary_choice r) \<noteq> None"
  shows "primary_choice r \<in> so_id ` set (choose_operations r)"
proof -
  have "primary_choice r \<in> op_id ` set operationCatalog" using assms(2) by (auto simp: operationByID_def find_None_iff) (metis imageI)
  then have "primary_choice r \<in> so_id ` set (first_selection r)"
    unfolding selected_all[OF assms(1)] by (simp add: candidates_def candidate_def)
  then show ?thesis unfolding choose_operations_alt
    by (cases rule: resolve_cases[of "first_selection r" "primary_choice r"]) auto
qed

text \<open>
  The plan does what was asked. The operations of a compiled draft are distinct candidates from the
  catalogue, at most six, and never both the update and the clearing of a sheet; and if no more
  than six operations are candidates, the one the model named as the main outcome is planned.
\<close>

lemma primary_operation_planned:
  assumes "compileDraft c intent name timezone r = Inr d"
  shows "distinct (map ws_id (operations_of (dr_steps d))) \<and> length (operations_of (dr_steps d)) \<le> 6
    \<and> ws_id ` set (operations_of (dr_steps d)) \<subseteq> candidates r
    \<and> \<not> (''sheets-update'' \<in> ws_id ` set (operations_of (dr_steps d)) \<and> ''sheets-clear'' \<in> ws_id ` set (operations_of (dr_steps d)))
    \<and> (card (candidates r) \<le> 6 \<longrightarrow> primary_choice r \<in> ws_id ` set (operations_of (dr_steps d)))"
proof -
  note d = compileDraft_Inr[OF assms]
  note w = selection_well[of r, unfolded well_selected_def]
  have ids: "map ws_id (operations_of (dr_steps d)) = map so_id (selection r)" using w by (simp add: d(1) compiled_operations)
  have "map so_id (selection r) = map so_id (choose_operations r)" by (simp add: selection_def link_operations_def comp_def)
  with ids have ids': "map ws_id (operations_of (dr_steps d)) = map so_id (choose_operations r)" by (rule trans)
  then have set: "ws_id ` set (operations_of (dr_steps d)) = so_id ` set (choose_operations r)" by (metis set_map)
  have "operationByID (primary_choice r) \<noteq> None"
    using assms unfolding primary_choice_def by (auto simp: compileDraft_def Let_def guardR_def split: if_splits)
  then have "card (candidates r) \<le> 6 \<longrightarrow> primary_choice r \<in> so_id ` set (choose_operations r)"
    using chosen_primary by blast
  moreover have "distinct (map ws_id (operations_of (dr_steps d)))" unfolding ids using w by blast
  moreover have "length (operations_of (dr_steps d)) \<le> 6" using arg_cong[OF ids, of length] w by simp
  ultimately show ?thesis unfolding set using chosen_candidates chosen_not_both by blast
qed

lemma sort_key_nil: "sort_key f xs = [] \<longleftrightarrow> xs = []"
  by (metis length_0_conv length_sort)

lemma choose_operations_nonempty:
  assumes "operationByID (primary_choice r) \<noteq> None"
  shows "choose_operations r \<noteq> []"
proof -
  have "primary_choice r \<in> op_id ` set operationCatalog"
    using assms by (auto simp: operationByID_def find_None_iff) (metis imageI)
  then have "filter (\<lambda>p. candidate r (op_id p)) operationCatalog \<noteq> []" by (auto simp: filter_empty_conv candidate_def)
  then have ne: "first_selection r \<noteq> []" unfolding first_selection_alt by (simp add: sort_key_nil)
  show ?thesis unfolding choose_operations_alt
  proof (cases rule: resolve_cases[of "first_selection r" "primary_choice r"])
    case same
    then show "resolveOperationConflicts (first_selection r) (primary_choice r) \<noteq> []" using ne by simp
  next
    case (removed ys x zs)
    have "ys @ zs \<noteq> []"
    proof
      assume "ys @ zs = []"
      then have "ys = []" "zs = []" by simp_all
      then have one: "so_id ` set (first_selection r) = {so_id x}" unfolding removed(1) by (simp only: append_Nil list.set image_insert image_empty)
      have "''sheets-update'' = so_id x" using removed(5) unfolding one by (rule singletonD)
      moreover have "''sheets-clear'' = so_id x" using removed(6) unfolding one by (rule singletonD)
      ultimately have "''sheets-update'' = ''sheets-clear''" by (rule trans[OF _ sym])
      then show False by simp
    qed
    with removed(2) show "resolveOperationConflicts (first_selection r) (primary_choice r) \<noteq> []" by simp
  qed
qed

lemma compileDraft_total:
  assumes "operationByID (primary_choice r) \<noteq> None"
  shows "\<exists>d. compileDraft c intent name timezone r = Inr d"
  using assms choose_operations_nonempty[OF assms] by (simp add: compileDraft_def Let_def guardR_def primary_choice_def)

section \<open>Examples\<close>

definition sample_compiler :: compiler where
  "sample_compiler = \<lparr>cp_lower = ToLower, cp_number = (\<lambda>q. ''0'')\<rparr>"

definition risky_response :: jev_response where
  "risky_response = \<lparr>jr_model = ''jev-1'', jr_answers = Some [(''primary_operation'', zero_answer\<lparr>an_choice := ''sheets-clear''\<rparr>),
     (''risk'', zero_answer\<lparr>an_score := 3\<rparr>)], jr_input_tokens = 10, jr_output_tokens = 20\<rparr>"

definition risky_draft :: draft where
  "risky_draft = projr (compileDraft sample_compiler ''clear the weekly sheet'' [] ''UTC'' risky_response)"

lemma risky_compiles: "compileDraft sample_compiler ''clear the weekly sheet'' [] ''UTC'' risky_response = Inr risky_draft"
proof -
  have "primary_choice risky_response = ''sheets-clear''"
    by (simp add: primary_choice_def risky_response_def answers_of_def answer_at_def)
  moreover have "operationByID ''sheets-clear'' \<noteq> None" by code_simp
  ultimately obtain d where "compileDraft sample_compiler ''clear the weekly sheet'' [] ''UTC'' risky_response = Inr d"
    using compileDraft_total by metis
  then show ?thesis by (simp add: risky_draft_def)
qed


end
