(* ===== verification/AuthoringProofs.thy ===== *)
theory AuthoringProofs
  imports CompileProofs ManifestProofs
begin

text \<open>
  Answers that pass the check always give a draft that passes its validation, and a manifest that
  passes the validation of manifests: after the model has answered, generating an automation can
  only fail for reasons that lie in the request, the time zone or the size of the answer.
\<close>

section \<open>Checked answers\<close>

lemma validateAnswers_Inr: "validateAnswers as qs = Inr () \<longleftrightarrow> (\<forall>q \<in> set qs. validate_answer as q = Inr ())"
  by (induction as qs rule: validateAnswers.induct) (auto simp: bindR_def split: sum.splits)

definition checked :: "jev_response \<Rightarrow> bool" where
  "checked r = (validateAnswers (answers_of r) planningQuestions = Inr ())"

lemma checked_answer:
  assumes "checked r" "(i, q) \<in> set planningQuestions"
  obtains a where "map_of (answers_of r) i = Some a" "answer_at (answers_of r) i = a"
    "case qn_criteria q of NoCriteria \<Rightarrow> in_unit (an_noul a)
     | Choices cs \<Rightarrow> an_choice a \<in> fst ` set cs \<and> in_unit (an_confidence a) \<and> validateDistribution (an_probabilities a) cs = Inr ()
     | Levels ls \<Rightarrow> 0 \<le> an_score a \<and> an_score a \<le> of_nat (length ls - 1) \<and> in_unit (an_confidence a)"
proof -
  have v: "validate_answer (answers_of r) (i, q) = Inr ()"
    using assms by (simp add: checked_def validateAnswers_Inr)
  then obtain a where a: "map_of (answers_of r) i = Some a" by (cases "map_of (answers_of r) i") (simp_all add: validate_answer_def)
  have "case qn_criteria q of NoCriteria \<Rightarrow> in_unit (an_noul a)
     | Choices cs \<Rightarrow> an_choice a \<in> fst ` set cs \<and> in_unit (an_confidence a) \<and> validateDistribution (an_probabilities a) cs = Inr ()
     | Levels ls \<Rightarrow> 0 \<le> an_score a \<and> an_score a \<le> of_nat (length ls - 1) \<and> in_unit (an_confidence a)"
    using v a by (cases "qn_criteria q") (auto simp: validate_answer_def guardR_def not_less split: if_splits sum.splits)
  with that a show thesis by (simp add: answer_at_def)
qed

lemma distribution_total_units:
  "distribution_total vs cs acc = Some t \<Longrightarrow> (k, w) \<in> set cs \<Longrightarrow> \<exists>p. map_of vs k = Some p \<and> in_unit p"
  by (induction vs cs acc rule: distribution_total.induct) (auto split: option.splits if_splits)

definition fixed_question :: "nat \<Rightarrow> question" where
  "fixed_question k = snd (fixed_questions ! k)"

lemma fixed_question_members:
  "(''trigger'', fixed_question 0) \<in> set planningQuestions" "(''primary_operation'', fixed_question 1) \<in> set planningQuestions"
  "(''requires_approval'', fixed_question 2) \<in> set planningQuestions" "(''risk'', fixed_question 3) \<in> set planningQuestions"
  by (simp_all add: planningQuestions_def fixed_questions_def fixed_question_def)

lemma fixed_question_criteria:
  "\<exists>cs. qn_criteria (fixed_question 0) = Choices cs"
  "qn_criteria (fixed_question 1) = Choices (map (\<lambda>p. (op_id p, op_description p)) operationCatalog)"
  "qn_criteria (fixed_question 2) = NoCriteria" "\<exists>ls. length ls = 4 \<and> qn_criteria (fixed_question 3) = Levels ls"
  by (simp_all add: fixed_questions_def fixed_question_def noul_question_def)

lemma checked_facts:
  assumes "checked r"
  shows "in_unit (an_noul (answer_at (answers_of r) ''requires_approval''))"
    and "in_unit (an_confidence (answer_at (answers_of r) ''trigger''))"
    and "in_unit (an_confidence (answer_at (answers_of r) ''primary_operation''))"
    and "in_unit (an_confidence (answer_at (answers_of r) ''risk''))"
    and "0 \<le> an_score (answer_at (answers_of r) ''risk'')" "an_score (answer_at (answers_of r) ''risk'') \<le> 3"
    and "primary_choice r \<in> op_id ` set operationCatalog"
    and "catalogued p \<Longrightarrow> in_unit (an_noul (answer_at (answers_of r) (relevanceQuestion (op_id p))))"
    and "catalogued p \<Longrightarrow> in_unit (probability_at (answer_at (answers_of r) ''primary_operation'') (op_id p))"
proof -
  show "in_unit (an_noul (answer_at (answers_of r) ''requires_approval''))"
    by (rule checked_answer[OF assms fixed_question_members(3)]) (simp add: fixed_question_criteria(3))
  show "in_unit (an_confidence (answer_at (answers_of r) ''trigger''))"
    using fixed_question_criteria(1) by (rule exE) (rule checked_answer[OF assms fixed_question_members(1)], simp)
  obtain ls where ls: "length ls = 4" "qn_criteria (fixed_question 3) = Levels ls" using fixed_question_criteria(4) by (elim exE conjE)
  show "in_unit (an_confidence (answer_at (answers_of r) ''risk''))" "0 \<le> an_score (answer_at (answers_of r) ''risk'')"
    "an_score (answer_at (answers_of r) ''risk'') \<le> 3"
    by (rule checked_answer[OF assms fixed_question_members(4)], simp add: ls)+
  obtain a where a: "answer_at (answers_of r) ''primary_operation'' = a"
    "an_choice a \<in> fst ` set (map (\<lambda>p. (op_id p, op_description p)) operationCatalog)" "in_unit (an_confidence a)"
    "validateDistribution (an_probabilities a) (map (\<lambda>p. (op_id p, op_description p)) operationCatalog) = Inr ()"
    by (rule checked_answer[OF assms fixed_question_members(2)]) (simp only: fixed_question_criteria(2) criteria.case)
  from a(1,3) show "in_unit (an_confidence (answer_at (answers_of r) ''primary_operation''))" by simp
  have "fst ` set (map (\<lambda>p. (op_id p, op_description p)) operationCatalog) = op_id ` set operationCatalog"
    by (simp only: set_map image_image fst_conv)
  with a(1,2) show "primary_choice r \<in> op_id ` set operationCatalog" by (simp add: primary_choice_def)
  show "in_unit (an_noul (answer_at (answers_of r) (relevanceQuestion (op_id p))))" if "catalogued p"
  proof -
    have "relevance_question p \<in> set planningQuestions" using that by (simp add: planningQuestions_def catalogued_def)
    then show ?thesis unfolding relevance_question_def by (rule checked_answer[OF assms]) (simp add: noul_question_def)
  qed
  show "in_unit (probability_at (answer_at (answers_of r) ''primary_operation'') (op_id p))" if "catalogued p"
  proof -
    obtain t where t: "distribution_total (an_probabilities a) (map (\<lambda>p. (op_id p, op_description p)) operationCatalog) 0 = Some t"
      using a(4) by (auto simp: validateDistribution_def guardR_def split: if_splits option.splits)
    have "(op_id p, op_description p) \<in> set (map (\<lambda>p. (op_id p, op_description p)) operationCatalog)"
      using that by (simp add: catalogued_def)
    from distribution_total_units[OF t this] show ?thesis unfolding a(1) probability_at_def by auto
  qed
qed

section \<open>Decision, warnings and description\<close>

lemma indexed_checks: "concat (map (\<lambda>(index, x). only_if (P x) (f index)) (enumerate n xs)) = [] \<longleftrightarrow> (\<forall>x \<in> set xs. \<not> P x)"
  by (induction xs arbitrary: n) auto

lemma decision_problems_none:
  assumes "checked r" "\<not> blank (jr_model r)"
  shows "decision_problems (decision_of r xs) = []"
proof -
  note f = checked_facts[OF assms(1)]
  have "\<forall>x \<in> set (dn_operations (decision_of r xs)).
      \<not> (operationByID (od_id x) = None \<or> \<not> in_unit (od_relevance x) \<or> \<not> in_unit (od_primary x))"
    using f(8,9) by (auto simp: decision_of_def Let_def decision_operations_def operationByID_catalogued catalogued_def)
  moreover have "\<not> (dn_provider (decision_of r xs) \<noteq> ''typesafe'' \<or> blank (dn_model (decision_of r xs))
      \<or> \<not> in_unit (dn_confidence (decision_of r xs)) \<or> \<not> in_unit (dn_trigger_confidence (decision_of r xs))
      \<or> \<not> in_unit (dn_approval_probability (decision_of r xs)) \<or> dn_risk_score (decision_of r xs) < 0 \<or> 3 < dn_risk_score (decision_of r xs))"
    using f(1-6) assms(2) by (simp add: decision_of_def Let_def in_unit_def min_le_iff_disj)
  ultimately show ?thesis unfolding decision_problems_def indexed_checks append_is_Nil_conv only_if_nil by (rule conjI[rotated])
qed

lemma round_even_le: "q \<le> of_int n \<Longrightarrow> round_even q \<le> n"
proof -
  assume q: "q \<le> of_int n"
  show "round_even q \<le> n"
  proof (cases "q = of_int n")
    case True
    then show ?thesis by (simp add: round_even_def Let_def)
  next
    case False
    with q have "\<lfloor>q\<rfloor> < n" by (simp add: floor_less_iff)
    then show ?thesis by (simp add: round_even_def Let_def)
  qed
qed

lemma fixed2_length:
  assumes "in_unit q" shows "length (fixed2 q) \<le> 4"
proof -
  define k where "k = nat (round_even (q * 100))"
  have "round_even (q * 100) \<le> 100" using round_even_le[of "q * 100" 100] assms by (simp add: in_unit_def)
  then have k: "k \<le> 100" by (simp add: k_def)
  then have "k div 100 = 0 \<or> k div 100 = 1" by auto
  then have "length (decimal (k div 100)) = 1" by (elim disjE) (simp_all add: decimal.simps)
  moreover have "length (decimal m) \<le> 2" if "m < 100" for m
    using that by (subst decimal.simps) (simp add: decimal.simps[of "m div 10"])
  then have "length (decimal (k mod 100)) \<le> 2" by simp
  then have "length (two_digits (int (k mod 100))) \<le> 2" by (simp add: two_digits_def zero_pad_def)
  ultimately show ?thesis by (simp add: fixed2_def Let_def k_def[symmetric])
qed

lemma Join_length: "length (Join ws sep) \<le> sum_list (map length ws) + length sep * length ws"
  by (induction ws sep rule: Join.induct) auto

lemma sum_list_le: "(\<And>x. x \<in> set xs \<Longrightarrow> f x \<le> (b::nat)) \<Longrightarrow> sum_list (map f xs) \<le> b * length xs"
proof (induction xs)
  case (Cons a xs)
  then have "f a \<le> b" "sum_list (map f xs) \<le> b * length xs" by simp_all
  then show ?case by simp
qed simp

lemma catalog_titles: "list_all (\<lambda>p. length (op_title p) \<le> 31) operationCatalog"
  by code_simp

lemma description_ok:
  assumes "well_selected xs"
  shows "\<not> blank (draftDescription xs)" "length (draftDescription xs) \<le> 500"
proof -
  show "\<not> blank (draftDescription xs)"
    by (rule not_blank[of "CHR ''J''"]) (simp_all add: draftDescription_def printable_ascii_def code_def)
  let ?ws = "map (\<lambda>s. ToLower (op_title (so_spec s))) xs"
  have "sum_list (map length ?ws) \<le> 31 * length ?ws"
    using assms catalog_all[OF catalog_titles] by (intro sum_list_le) (auto simp: well_selected_def ToLower_def)
  moreover have "length ?ws \<le> 6" using assms by (simp add: well_selected_def)
  ultimately have "length (Join ?ws '', then '') \<le> 31 * 6 + 7 * 6" using Join_length[of ?ws "'', then ''"] by simp
  then show "length (draftDescription xs) \<le> 500" by (simp add: draftDescription_def)
qed

section \<open>Names and triggers\<close>

definition name_char :: "char \<Rightarrow> bool" where
  "name_char c = (lower_alnum c \<or> c = CHR ''-'')"

lemma name_words_chars: "list_all lower_alnum w \<Longrightarrow> v \<in> set (name_words w s) \<Longrightarrow> list_all lower_alnum v"
  by (induction w s rule: name_words.induct) (auto split: if_splits)

lemma joined_chars: "c \<in> set (Join ws sep) \<Longrightarrow> (\<exists>w \<in> set ws. c \<in> set w) \<or> c \<in> set sep"
  by (induction ws sep rule: Join.induct) auto

lemma dropWhile_head: "dropWhile P xs = y # ys \<Longrightarrow> \<not> P y"
  by (metis hd_dropWhile list.distinct(1) list.sel(1))

lemma identifier_from_chars:
  assumes "list_all name_char w" "w \<noteq> []" "is_lower (hd w)" "length w \<le> 63"
  shows "identifier_pattern w"
  using assms by (cases w) (auto simp: identifier_pattern_def name_char_def list_all_iff)

lemma identifier_length: "identifier_pattern w \<Longrightarrow> length w \<le> 63"
  by (cases w) (simp_all add: identifier_pattern_def)

lemma trim_keeps_head:
  "rev (dropWhile P (rev xs)) \<noteq> [] \<Longrightarrow> hd (rev (dropWhile P (rev xs))) = hd xs"
  by (metis dropWhile_append3 hd_append2 rev_append rev_rev_ident takeWhile_dropWhile_id)

lemma catalog_names: "list_all (\<lambda>p. identifier_pattern (op_id p @ ''-workflow'')) operationCatalog"
  by code_simp

definition head_cutset :: string where
  "head_cutset = ''-0123456789''"

lemma cutset_class: "name_char c \<Longrightarrow> c \<notin> set head_cutset \<Longrightarrow> is_lower c"
proof -
  assume c: "name_char c" "c \<notin> set head_cutset"
  have "c \<in> set head_cutset" if "is_digit c"
  proof -
    have "code c \<in> {48, 49, 50, 51, 52, 53, 54, 55, 56, 57}" using that by (simp add: is_digit_def) arith
    then have "char_of (code c) \<in> set head_cutset"
      by (elim insertE emptyE; simp only: head_cutset_def; simp add: char_of_def bit_iff_odd)
    then show ?thesis by simp
  qed
  with c show "is_lower c" by (auto simp: name_char_def lower_alnum_def head_cutset_def)
qed

lemma draftName_identifier:
  assumes "identifier_pattern (other @ ''-workflow'')"
  shows "identifier_pattern (draftName lower intent other)"
proof -
  let ?j = "Join (take 5 (name_words [] (lower intent))) ''-''"
  let ?t = "dropWhile (\<lambda>c. c \<in> set head_cutset) ?j"
  let ?v = "trim_chars ''-0123456789'' ?j"
  have v: "?v = rev (dropWhile (\<lambda>c. c \<in> set head_cutset) (rev ?t))" by (simp only: trim_chars_def head_cutset_def)
  show ?thesis
  proof (cases "?v = []")
    case True
    moreover have "length (other @ ''-workflow'') \<le> 63" using identifier_length[OF assms] .
    ultimately show ?thesis using assms by (simp add: draftName_def)
  next
    case False
    have "list_all name_char ?j"
      using joined_chars[of _ _ "''-''"] name_words_chars[of "[]"]
      by (fastforce simp: list_all_iff name_char_def dest: in_set_takeD)
    then have t: "list_all name_char ?t" by (auto simp: list_all_iff dest: set_dropWhileD)
    then have chars: "list_all name_char ?v" unfolding v by (auto simp: list_all_iff dest: set_dropWhileD)
    have "?t \<noteq> []" using False unfolding v by force
    then obtain y ys where y: "?t = y # ys" by (cases ?t) auto
    then have "y \<notin> set head_cutset" using dropWhile_head by metis
    moreover have "name_char y" using t unfolding y by simp
    ultimately have "is_lower y" by (rule cutset_class[rotated])
    moreover have "hd ?v = y" using False unfolding v using trim_keeps_head[of _ ?t] y by simp
    ultimately have head: "is_lower (hd ?v)" by simp
    show ?thesis
    proof (cases "63 < length ?v")
      case short: False
      then show ?thesis using False chars head by (simp add: draftName_def Let_def identifier_from_chars)
    next
      case True
      let ?w = "rev (dropWhile (\<lambda>c. c = CHR ''-'') (rev (take 63 ?v)))"
      have hd: "hd (take 63 ?v) = hd ?v" by (simp add: hd_conv_nth False)
      have "hd ?v \<noteq> CHR ''-''" using head by (auto simp: is_lower_def code_def)
      then have "\<exists>c \<in> set (take 63 ?v). c \<noteq> CHR ''-''" using hd False by (metis hd_in_set take_eq_Nil zero_neq_numeral)
      then have "?w \<noteq> []" by (auto simp: dropWhile_eq_Nil_conv)
      moreover have "hd ?w = hd ?v" using trim_keeps_head[OF \<open>?w \<noteq> []\<close>] hd by simp
      moreover have "set ?w \<subseteq> set ?v" by (auto dest!: set_dropWhileD in_set_takeD)
      then have "list_all name_char ?w" using chars unfolding list_all_iff by blast
      moreover have "length ?w \<le> 63" 
        by (simp only: length_rev) (rule order_trans[OF length_dropWhile_le], simp)
      ultimately have "identifier_pattern ?w" using head by (intro identifier_from_chars) simp_all
      then show ?thesis using True False by (simp add: draftName_def Let_def)
    qed
  qed
qed

definition trigger_ok :: "ambient \<Rightarrow> draft_trigger \<times> string list \<Rightarrow> bool" where
  "trigger_ok amb t = (draft_trigger_problems amb (fst t) = [] \<and> (\<forall>w \<in> set (snd t). \<not> blank w \<and> length w \<le> 500))"

lemma inferCron_star: "inferCron lower intent = Some cron \<Longrightarrow> CHR ''*'' \<in> set cron"
  by (auto simp: inferCron_def Let_def split: if_splits option.splits prod.splits)

lemma trigger_constants:
  "identifier_pattern ''inbound-email''" "identifier_pattern ''ntfy-message''" "identifier_pattern ''scheduled''" "identifier_pattern ''on-demand''"
  "secretName ''trigger/email-token''" "secretName ''trigger/ntfy-token''" "secretName ''trigger/webhook''"
  by code_simp+

lemma schedule_ok:
  assumes "\<not> blank timezone" "load_location amb timezone \<noteq> None" "inferCron lower intent = Some cron"
  shows "trigger_ok amb (empty_trigger\<lparr>dt_id := ''scheduled'', dt_type := ''schedule'', dt_cron := cron, dt_timezone := timezone\<rparr>, [])"
proof -
  have "\<not> blank cron" by (rule not_blank[OF inferCron_star[OF assms(3)]]) (simp add: printable_ascii_def code_def)
  with assms(1,2) show ?thesis by (simp add: trigger_ok_def draft_trigger_problems_def trigger_constants)
qed

lemma on_demand_ok: "\<forall>w \<in> set ws. \<not> blank w \<and> length w \<le> 500 \<Longrightarrow> trigger_ok amb (on_demand, ws)"
  by (simp add: trigger_ok_def draft_trigger_problems_def on_demand_def empty_trigger_def trigger_constants)

lemma email_ok: "trigger_ok amb (empty_trigger\<lparr>dt_id := ''inbound-email'', dt_type := ''email'', dt_token_secret := ''trigger/email-token''\<rparr>, [])"
  by (simp add: trigger_ok_def draft_trigger_problems_def trigger_constants)

lemma ntfy_ok:
  assumes "\<forall>w \<in> set ws. \<not> blank w \<and> length w \<le> 500"
  shows "trigger_ok amb (empty_trigger\<lparr>dt_id := ''ntfy-message'', dt_type := ''ntfy'', dt_server := ''https://ntfy.sh'',
     dt_topic := ''replace-with-private-topic'', dt_token_secret := ''trigger/ntfy-token''\<rparr>, ws)"
proof -
  have "\<not> blank ''https://ntfy.sh''" "\<not> blank ''replace-with-private-topic''"
    by (rule list_ex_not_blank; simp add: printable_ascii_def code_def)+
  with assms show ?thesis by (simp add: trigger_ok_def draft_trigger_problems_def trigger_constants)
qed

lemma text_starting: "printable_ascii c \<Longrightarrow> \<not> blank (c # s)"
  by (rule not_blank) simp_all

lemma printable_letters: "printable_ascii (CHR ''R'')" "printable_ascii (CHR ''J'')" "printable_ascii (CHR ''W'')"
  by (simp_all add: printable_ascii_def code_def)

lemma compileTrigger_cases:
  assumes "P (empty_trigger\<lparr>dt_id := ''inbound-email'', dt_type := ''email'', dt_token_secret := ''trigger/email-token''\<rparr>, [])"
    and "\<And>ws. \<forall>w \<in> set ws. \<not> blank w \<and> length w \<le> 500 \<Longrightarrow> P (empty_trigger\<lparr>dt_id := ''ntfy-message'', dt_type := ''ntfy'',
      dt_server := ''https://ntfy.sh'', dt_topic := ''replace-with-private-topic'', dt_token_secret := ''trigger/ntfy-token''\<rparr>, ws)"
    and "\<And>cron. inferCron lower intent = Some cron \<Longrightarrow>
      P (empty_trigger\<lparr>dt_id := ''scheduled'', dt_type := ''schedule'', dt_cron := cron, dt_timezone := timezone\<rparr>, [])"
    and "\<And>ws. \<forall>w \<in> set ws. \<not> blank w \<and> length w \<le> 500 \<Longrightarrow> P (on_demand, ws)"
  shows "P (compileTrigger lower choice intent timezone)"
proof (cases "choice = ''email''")
  case True
  show ?thesis unfolding compileTrigger_def if_P[OF True] by (rule assms(1))
next
  case not_email: False
  show ?thesis
  proof (cases "choice = ''ntfy''")
    case True
    show ?thesis unfolding compileTrigger_def if_not_P[OF not_email] if_P[OF True]
      by (rule assms(2)) (simp add: text_starting printable_letters)
  next
    case not_ntfy: False
    show ?thesis
    proof (cases "choice = ''schedule''")
      case True
      show ?thesis
      proof (cases "inferCron lower intent")
        case None
        show ?thesis unfolding compileTrigger_def if_not_P[OF not_email] if_not_P[OF not_ntfy] if_P[OF True] None option.case
          by (rule assms(4)) (simp add: text_starting printable_letters)
      next
        case (Some cron)
        show ?thesis unfolding compileTrigger_def if_not_P[OF not_email] if_not_P[OF not_ntfy] if_P[OF True] Some option.case
          by (rule assms(3)[OF Some])
      qed
    next
      case False
      show ?thesis unfolding compileTrigger_def if_not_P[OF not_email] if_not_P[OF not_ntfy] if_not_P[OF False]
        by (rule assms(4)) simp
    qed
  qed
qed

lemma compiled_trigger_ok:
  assumes "\<not> blank timezone" "load_location amb timezone \<noteq> None"
  shows "trigger_ok amb (compileTrigger lower choice intent timezone)"
  by (rule compileTrigger_cases) (rule email_ok ntfy_ok schedule_ok[OF assms] on_demand_ok; assumption)+

section \<open>Steps\<close>

fun ordered_after :: "string set \<Rightarrow> workflow_step list \<Rightarrow> bool" where
  "ordered_after seen [] = True"
| "ordered_after seen (s # ss) = (set (ws_depends_on s) \<subseteq> seen \<and> ordered_after (insert (ws_id s) seen) ss)"

lemma ordered_after_iff:
  "ordered_after seen ss \<longleftrightarrow> (\<forall>k < length ss. \<forall>j \<in> set (ws_depends_on (ss ! k)). j \<in> seen \<or> (\<exists>p < k. ws_id (ss ! p) = j))"
proof (induction ss arbitrary: seen)
  case (Cons s ss)
  show ?case unfolding ordered_after.simps Cons.IH by (auto simp: All_less_Suc2 Ex_less_Suc2)
qed simp

lemma earlier_dependencies_alt: "earlier_dependencies ss \<longleftrightarrow> ordered_after {} ss"
  by (simp add: ordered_after_iff earlier_dependencies_def)

lemma ordered_after_append: "ordered_after seen (xs @ ys) \<longleftrightarrow> ordered_after seen xs \<and> ordered_after (seen \<union> ws_id ` set xs) ys"
  by (induction xs arbitrary: seen) auto

lemma ordered_after_gated:
  "ordered_after seen ss \<Longrightarrow> seen \<subseteq> seen' \<Longrightarrow> ''review'' \<in> seen'
    \<Longrightarrow> ordered_after seen' (map (\<lambda>s. s\<lparr>ws_depends_on := appendUnique (ws_depends_on s) ''review''\<rparr>) ss)"
proof (induction ss arbitrary: seen seen')
  case (Cons s ss)
  have "set (appendUnique (ws_depends_on s) ''review'') \<subseteq> insert ''review'' (set (ws_depends_on s))"
    by (simp only: appendUnique_def set_append list.set split: if_split) blast
  then have "set (appendUnique (ws_depends_on s) ''review'') \<subseteq> seen'" using Cons.prems by (simp only: ordered_after.simps) blast
  moreover have "ordered_after (insert (ws_id s) seen') (map (\<lambda>s. s\<lparr>ws_depends_on := appendUnique (ws_depends_on s) ''review''\<rparr>) ss)"
    using Cons.prems by (intro Cons.IH[of "insert (ws_id s) seen"]) (simp_all only: ordered_after.simps insert_mono insertI2)
  ultimately show ?case by simp
qed simp

lemma insertApproval_ordered: "ordered_after {} ss \<Longrightarrow> ordered_after {} (insertApproval ss)"
proof -
  let ?P = "\<lambda>s. ws_effect s \<noteq> ''write''"
  assume "ordered_after {} ss"
  then have "ordered_after {} (takeWhile ?P ss @ dropWhile ?P ss)" by (simp only: takeWhile_dropWhile_id)
  then have o: "ordered_after {} (takeWhile ?P ss)" "ordered_after (ws_id ` set (takeWhile ?P ss)) (dropWhile ?P ss)"
    by (simp_all only: ordered_after_append Un_empty_left)
  have "ordered_after (insert ''review'' (ws_id ` set (takeWhile ?P ss)))
      (map (\<lambda>s. s\<lparr>ws_depends_on := appendUnique (ws_depends_on s) ''review''\<rparr>) (dropWhile ?P ss))"
    by (rule ordered_after_gated[OF o(2)]) blast+
  then show ?thesis
    using o(1) by (simp only: insertApproval_def Let_def ordered_after_append append_Cons append_Nil ordered_after.simps
        review_step_def workflow_step.simps set_map Un_empty_left order_refl simp_thms)
qed

lemma insertApproval_map_ids:
  "\<exists>us vs. map ws_id ss = us @ vs \<and> map ws_id (insertApproval ss) = us @ ''review'' # vs"
proof -
  let ?P = "\<lambda>s. ws_effect s \<noteq> ''write''"
  have "map ws_id (map (\<lambda>s. s\<lparr>ws_depends_on := f s\<rparr>) xs) = map ws_id xs" for f and xs :: "workflow_step list" by simp
  then have "map ws_id (insertApproval ss) = map ws_id (takeWhile ?P ss) @ ''review'' # map ws_id (dropWhile ?P ss)"
    by (simp only: insertApproval_def Let_def map_append list.map review_step_def workflow_step.simps append_Cons append_Nil)
  moreover have "map ws_id ss = map ws_id (takeWhile ?P ss) @ map ws_id (dropWhile ?P ss)"
    by (simp only: map_append[symmetric] takeWhile_dropWhile_id)
  ultimately show ?thesis by blast
qed

lemma catalog_steps: "list_all (\<lambda>p. identifier_pattern (op_id p) \<and> op_id p \<noteq> ''review''
    \<and> list_ex printable_ascii (op_title p) \<and> list_ex printable_ascii (op_connector p) \<and> list_ex printable_ascii (op_operation p)
    \<and> (op_effect p = ''read'' \<or> op_effect p = ''write'' \<or> op_effect p = ''compute'' \<or> op_effect p = ''approval'')) operationCatalog"
  by code_simp

lemma step_of_ok: "catalogued (so_spec s) \<Longrightarrow> step_ok (step_of s)"
  using catalog_all[OF catalog_steps] list_ex_not_blank by (simp only: step_ok_def step_of_def workflow_step.simps) blast

lemma review_ok: "step_ok (review_step ds)"
proof -
  have "identifier_pattern ''review''" by code_simp
  moreover have "\<not> blank ''Review consequential execution''" "\<not> blank ''werkt''" "\<not> blank ''request-approval''"
    by (rule list_ex_not_blank; simp add: printable_ascii_def code_def)+
  ultimately show ?thesis by (simp add: step_ok_def review_step_def)
qed

lemma step_ok_depends [simp]: "step_ok (s\<lparr>ws_depends_on := ds\<rparr>) = step_ok s"
  by (simp add: step_ok_def)

lemma insertApproval_step_ok: "list_all step_ok ss \<Longrightarrow> list_all step_ok (insertApproval ss)"
  by (auto simp: insertApproval_def Let_def review_ok list_all_iff dest!: set_takeWhileD set_dropWhileD)

lemma chosen_unlinked: "s \<in> set (choose_operations r) \<Longrightarrow> so_depends_on s = []"
proof -
  have "\<forall>s \<in> set (first_selection r). so_depends_on s = []"
    unfolding first_selection_alt by (auto simp: as_selected_def dest!: in_set_takeD)
  then have "\<forall>s \<in> set (choose_operations r). so_depends_on s = []" unfolding choose_operations_alt
    by (cases rule: resolve_cases[of "first_selection r" "primary_choice r"]) auto
  then show "s \<in> set (choose_operations r) \<Longrightarrow> so_depends_on s = []" by blast
qed

lemma selection_ordered: "earlier_dependencies (map step_of (selection r))"
  unfolding earlier_dependencies_def
proof (intro allI impI ballI)
  fix k j assume k: "k < length (map step_of (selection r))" and j: "j \<in> set (ws_depends_on (map step_of (selection r) ! k))"
  let ?xs = "choose_operations r"
  have len: "length (selection r) = length ?xs" by (simp add: selection_def)
  have "selection r ! k = (?xs ! k)\<lparr>so_depends_on := so_depends_on (?xs ! k) @ depends_on (answers_of r) ?xs (?xs ! k)\<rparr>"
    using k len by (simp add: selection_def link_operations_def)
  then have "j \<in> set (depends_on (answers_of r) ?xs (?xs ! k))"
    using j k len chosen_unlinked[of "?xs ! k" r] by (simp add: step_of_def)
  then obtain p where p: "p < length ?xs" "so_id (?xs ! p) = j" "so_stage (?xs ! p) < so_stage (?xs ! k)"
    by (auto simp: depends_on_def in_set_conv_nth)
  have "sorted (map so_stage ?xs)" using choose_operations_well by (simp add: well_selected_def)
  have "p < k"
  proof (rule ccontr)
    assume "\<not> p < k"
    then have "so_stage (?xs ! k) \<le> so_stage (?xs ! p)"
      using sorted_nth_mono[OF \<open>sorted (map so_stage ?xs)\<close>, of k p] p(1) k len by simp
    with p(3) show False by simp
  qed
  moreover have "ws_id (map step_of (selection r) ! p) = j"
    using p(1,2) len by (simp add: selection_def link_operations_def step_of_def)
  ultimately show "\<exists>p < k. ws_id (map step_of (selection r) ! p) = j" by blast
qed

lemma compiled_steps_valid:
  assumes "selection r \<noteq> []"
  shows "validateSteps (compiled_steps b (selection r)) = []"
proof -
  let ?ss = "map step_of (selection r)"
  note w = selection_well[of r, unfolded well_selected_def]
  have ids: "map ws_id ?ss = map so_id (selection r)" by (simp add: step_of_def comp_def)
  have ok: "list_all step_ok ?ss" using w by (auto simp: list_all_iff intro: step_of_ok)
  have o: "ordered_after {} ?ss" using selection_ordered by (simp only: earlier_dependencies_alt)
  have review: "''review'' \<notin> set (map ws_id ?ss)"
  proof
    assume "''review'' \<in> set (map ws_id ?ss)"
    then have "''review'' \<in> so_id ` set (selection r)" unfolding ids set_map .
    then obtain s where s: "''review'' = so_id s" "s \<in> set (selection r)" by (rule imageE)
    then have "catalogued (so_spec s)" using w by blast
    from catalog_all[OF catalog_steps this] s(1) show False by simp
  qed
  show ?thesis
  proof (cases b)
    case False
    moreover have "distinct (map ws_id ?ss)" using w unfolding ids by blast
    ultimately show ?thesis using assms w ok o
      by (simp only: compiled_steps_def if_False validateSteps_iff earlier_dependencies_alt length_map map_is_Nil_conv) simp
  next
    case True
    obtain us vs where uv: "map ws_id ?ss = us @ vs" "map ws_id (insertApproval ?ss) = us @ ''review'' # vs"
      using insertApproval_map_ids by blast
    have "distinct (us @ vs)" using w unfolding uv(1)[symmetric] ids by blast
    moreover have "''review'' \<notin> set (us @ vs)" using review unfolding uv(1) .
    ultimately have "distinct (map ws_id (insertApproval ?ss))" unfolding uv(2) by simp
    moreover have "length (insertApproval ?ss) = length (selection r) + 1"
      using arg_cong[OF uv(1), of length] arg_cong[OF uv(2), of length] by simp
    moreover from this have "insertApproval ?ss \<noteq> []" by force
    ultimately show ?thesis using True w insertApproval_step_ok[OF ok] insertApproval_ordered[OF o]
      by (simp add: compiled_steps_def validateSteps_iff earlier_dependencies_alt)
  qed
qed

section \<open>Secrets and egress\<close>

lemma collected:
  fixes k :: "'a \<Rightarrow> string" and xs :: "'a list"
  defines "ys \<equiv> map snd (sort_key fst (foldl (\<lambda>m v. AList.update (k v) v m) [] xs))"
  shows "set ys \<subseteq> set xs" "distinct (map k ys)"
proof -
  let ?m = "foldl (\<lambda>m v. AList.update (k v) v m) [] xs"
  have m: "v \<in> set xs \<and> i = k v" if "(i, v) \<in> set ?m" for i v
  proof -
    have "map_of (rev (map (\<lambda>x. (k x, x)) xs)) i = Some v" using that filled_set[of k "\<lambda>x. x" xs] by simp
    then have "(i, v) \<in> set (rev (map (\<lambda>x. (k x, x)) xs))" by (rule map_of_SomeD)
    then show ?thesis by auto
  qed
  then show "set ys \<subseteq> set xs" by (auto simp: ys_def)
  have "map k ys = map fst (sort_key fst ?m)" using m by (auto simp: ys_def)
  moreover have "distinct (map fst (sort_key fst ?m))"
    using distinct_filled[of "[]" k "\<lambda>x. x" xs] by (simp only: distinct_map distinct_sort set_sort list.map distinct.simps simp_thms)
  ultimately show "distinct (map k ys)" by (rule ssubst[where P = distinct])
qed

definition secret_ok :: "secret_binding \<Rightarrow> bool" where
  "secret_ok v = (environmentName (sb_environment v) \<and> \<not> HasPrefix (sb_environment v) ''WERKT_''
     \<and> secretName (sb_secret v) \<and> length (sb_secret v) \<le> 128)"

lemma validateSecrets_none:
  "list_all secret_ok vs \<Longrightarrow> distinct (map sb_environment vs) \<Longrightarrow> set (map sb_environment vs) \<inter> set seen = {}
    \<Longrightarrow> validateSecrets index seen vs = []"
  by (induction index seen vs rule: validateSecrets.induct) (auto simp: secret_ok_def Let_def)

lemma catalog_secrets: "list_all (\<lambda>p. list_all secret_ok (op_secrets p)) operationCatalog"
  by code_simp

lemma collected_secrets:
  assumes "well_selected xs"
  shows "list_all secret_ok (collectSecrets xs)" "distinct (map sb_environment (collectSecrets xs))"
proof -
  have "set (collectSecrets xs) \<subseteq> set (concat (map (\<lambda>s. op_secrets (so_spec s)) xs))"
    unfolding collectSecrets_def by (rule collected(1))
  moreover have "list_all secret_ok (concat (map (\<lambda>s. op_secrets (so_spec s)) xs))"
    using assms catalog_all[OF catalog_secrets] by (auto simp: well_selected_def list_all_iff)
  ultimately show "list_all secret_ok (collectSecrets xs)" by (auto simp: list_all_iff)
  show "distinct (map sb_environment (collectSecrets xs))" unfolding collectSecrets_def by (rule collected(2))
qed

definition egress_ok :: "draft_egress \<Rightarrow> bool" where
  "egress_ok v = (dg_host v \<noteq> [] \<and> TrimSuffix (dg_host v) ''.'' = dg_host v \<and> length (dg_host v) \<le> 253
     \<and> \<not> ContainsAny (dg_host v) ''/:@ '' \<and> validHostname (dg_host v) \<and> egress_key v = egress_name v \<and> 1 \<le> dg_port v \<and> dg_port v \<le> 65535)"

lemma validateEgress_none:
  "list_all egress_ok vs \<Longrightarrow> distinct (map egress_name vs) \<Longrightarrow> set (map egress_name vs) \<inter> set seen = {}
    \<Longrightarrow> validateEgress index seen vs = []"
  by (induction index seen vs rule: validateEgress.induct) (auto simp: egress_ok_def Let_def)

lemma catalog_egress: "list_all (\<lambda>p. list_all egress_ok (op_egress p)) operationCatalog"
  by code_simp

lemma collected_egress:
  assumes "well_selected xs"
  shows "list_all egress_ok (collectEgress xs)" "distinct (map egress_name (collectEgress xs))"
    "set (collectEgress xs) \<subseteq> (\<Union>p \<in> set operationCatalog. set (op_egress p))"
proof -
  have sub: "set (collectEgress xs) \<subseteq> set (concat (map (\<lambda>s. op_egress (so_spec s)) xs))"
    unfolding collectEgress_def by (rule collected(1))
  moreover have "list_all egress_ok (concat (map (\<lambda>s. op_egress (so_spec s)) xs))"
    using assms catalog_all[OF catalog_egress] by (auto simp: well_selected_def list_all_iff)
  ultimately show "list_all egress_ok (collectEgress xs)" by (auto simp: list_all_iff)
  show "distinct (map egress_name (collectEgress xs))" unfolding collectEgress_def by (rule collected(2))
  show "set (collectEgress xs) \<subseteq> (\<Union>p \<in> set operationCatalog. set (op_egress p))"
    using sub assms by (auto simp: well_selected_def catalogued_def)
qed

section \<open>Files\<close>

lemma source_lengths:
  "length main_helpers \<le> 1000" "length approval_guard \<le> 2000" "length main_start \<le> 100" "length main_end \<le> 200"
  "length main_test_head \<le> 2000" "length main_test_tail \<le> 100" "length approval_test \<le> 3000"
  "length plan_test_head \<le> 2000" "length plan_test_tail \<le> 100"
  "length (approval_assertion True) \<le> 500" "length (approval_assertion False) \<le> 500"
  "main_helpers \<noteq> []" "main_test_head \<noteq> []" "plan_test_head \<noteq> []" "plan_module_head \<noteq> []"
  by code_simp+

lemma catalog_sources: "list_all (\<lambda>p. length (renderOperation (op_id p)) \<le> 500) operationCatalog"
  by code_simp

lemma unlines_length: "length (unlines ls) = sum_list (map length ls) + length ls"
  by (induction ls) (simp_all add: unlines_def nl_def)

lemma connector_names_length: "sum_list (map length (connector_names xs)) \<le> 50" "length (connector_names xs) \<le> 4"
  by (simp_all add: connector_names_def)

lemma main_imports_length: "length (main_imports xs b) \<le> 500"
proof -
  have "length (Join (connector_names xs) '', '') \<le> 60"
    using Join_length[of "connector_names xs" "'', ''"] connector_names_length[of xs] by simp
  then show ?thesis by (simp add: main_imports_def unlines_length nl_def)
qed

lemma operations_length:
  assumes "well_selected xs"
  shows "length (concat (map (\<lambda>s. renderOperation (so_id s)) xs)) \<le> 3000"
proof -
  have "sum_list (map (\<lambda>s. length (renderOperation (so_id s))) xs) \<le> 500 * length xs"
    using assms catalog_all[OF catalog_sources] by (intro sum_list_le) (auto simp: well_selected_def)
  moreover have "length xs \<le> 6" using assms by (simp add: well_selected_def)
  ultimately show ?thesis by (simp add: length_concat comp_def)
qed

definition file_ok :: "draft_file \<Rightarrow> bool" where
  "file_ok f = (Clean (df_path f) = df_path f \<and> df_path f \<noteq> ''.'' \<and> \<not> HasPrefix (df_path f) ''../'' \<and> \<not> IsAbs (df_path f)
     \<and> HasSuffix (df_path f) ''.py'' \<and> \<not> Contains (df_path f) ''/'' \<and> \<not> HasPrefix (df_path f) ''.''
     \<and> df_content f \<noteq> [] \<and> length (df_content f) \<le> MaxFileBytes)"

lemma file_problems_none:
  "list_all file_ok fs \<Longrightarrow> distinct (map (\<lambda>f. ToLower (df_path f)) fs) \<Longrightarrow> set (map (\<lambda>f. ToLower (df_path f)) fs) \<inter> set seen = {}
    \<Longrightarrow> file_problems index seen fs = []"
proof (induction fs arbitrary: index seen)
  case (Cons f fs)
  have ok: "Clean (df_path f) = df_path f" "df_path f \<noteq> ''.''" "\<not> HasPrefix (df_path f) ''../''" "\<not> IsAbs (df_path f)"
     "HasSuffix (df_path f) ''.py''" "\<not> Contains (df_path f) ''/''" "\<not> HasPrefix (df_path f) ''.''"
     "df_content f \<noteq> []" "\<not> MaxFileBytes < length (df_content f)"
    using Cons.prems(1) by (simp_all add: file_ok_def not_less)
  have seen: "ToLower (df_path f) \<notin> set seen" using Cons.prems(3) by auto
  have "file_problems (Suc index) (ToLower (df_path f) # seen) fs = []" using Cons by auto
  then show ?case unfolding file_problems.simps Let_def ok(1) by (simp only: ok seen) simp
qed simp

definition rendered_paths :: "string list" where
  "rendered_paths = [''main.py'', ''workflow_plan.py'', ''test_main.py'', ''test_workflow_plan.py'']"

lemma rendered_path_facts:
  "list_all (\<lambda>p. Clean p = p \<and> p \<noteq> ''.'' \<and> \<not> HasPrefix p ''../'' \<and> \<not> IsAbs p \<and> HasSuffix p ''.py'' \<and> \<not> Contains p ''/''
     \<and> \<not> HasPrefix p ''.'') rendered_paths"
  "distinct (map ToLower rendered_paths)" "is_test_file ''test_main.py''"
  by code_simp+

lemma rendered_paths: "map df_path (renderFiles number d xs b) = rendered_paths"
  by (simp add: renderFiles_def rendered_paths_def)

lemma rendered_contents:
  assumes "well_selected xs" "f \<in> set (renderFiles number d xs b)" "length (renderPlanModule number d) \<le> MaxFileBytes"
  shows "df_content f \<noteq> []" "length (df_content f) \<le> MaxFileBytes"
proof -
  note l = source_lengths operations_length[OF assms(1)] main_imports_length[of xs b]
  have "length (renderMain xs b) \<le> MaxFileBytes" using l by (cases b) (simp_all add: renderMain_def main_prefix_def MaxFileBytes_def)
  moreover have "length (renderMainTest b) \<le> MaxFileBytes" using l by (cases b) (simp_all add: renderMainTest_def MaxFileBytes_def)
  moreover have "length (approval_assertion b) \<le> 500" using l by (cases b) simp_all
  then have "length (renderPlanTest b) \<le> MaxFileBytes" using l by (simp add: renderPlanTest_def MaxFileBytes_def nl_def)
  moreover have "renderMain xs b \<noteq> []" "renderMainTest b \<noteq> []" "renderPlanTest b \<noteq> []" "renderPlanModule number d \<noteq> []"
    using l by (simp_all add: renderMain_def main_prefix_def renderMainTest_def renderPlanTest_def renderPlanModule_def)
  ultimately show "df_content f \<noteq> []" "length (df_content f) \<le> MaxFileBytes"
    using assms(2,3) by (auto simp: renderFiles_def)
qed

lemma rendered_files_valid:
  assumes "well_selected xs" "length (renderPlanModule number d) \<le> MaxFileBytes"
  shows "validateFiles (renderFiles number d xs b) = []"
proof -
  let ?fs = "renderFiles number d xs b"
  have "file_ok f" if "f \<in> set ?fs" for f
  proof -
    have "df_path f \<in> set rendered_paths" using that unfolding rendered_paths[of number d xs b, symmetric] by simp
    then show ?thesis using rendered_path_facts(1) rendered_contents[OF assms(1) that assms(2)]
      by (simp only: file_ok_def list_all_iff) blast
  qed
  then have "list_all file_ok ?fs" by (simp add: list_all_iff)
  moreover have "distinct (map (\<lambda>f. ToLower (df_path f)) ?fs)"
    using rendered_path_facts(2) unfolding rendered_paths[of number d xs b, symmetric] by (simp add: comp_def)
  ultimately have "file_problems 0 [] ?fs = []" by (intro file_problems_none) simp_all
  moreover have "sum_list (map (\<lambda>f. length (df_content f)) ?fs) \<le> MaxFileBytes * length ?fs"
    using rendered_contents[OF assms(1) _ assms(2)] by (intro sum_list_le)
  moreover have "length ?fs = 4" by (simp add: renderFiles_def)
  moreover have "list_ex (\<lambda>f. df_path f = ''main.py'') ?fs" "list_ex (\<lambda>f. is_test_file (df_path f)) ?fs"
    using rendered_path_facts(3) by (simp_all add: renderFiles_def)
  ultimately show ?thesis by (auto simp: validateFiles_def MaxFiles_def MaxFileBytes_def MaxTotalBytes_def)
qed

section \<open>The draft\<close>

lemma compileDraft_fields:
  assumes "compileDraft c intent name timezone r = Inr d"
  shows "dr_name d = (if name = [] then draftName (cp_lower c) intent (primary_choice r) else name)"
    "dr_description d = draftDescription (selection r)"
    "\<exists>t. t = compileTrigger (cp_lower c) (an_choice (answer_at (answers_of r) ''trigger'')) intent timezone \<and> dr_trigger d = fst t
      \<and> dr_warnings d = draft_warnings (dn_confidence (decision_of r (selection r))) (consequential r (selection r)) (snd t)"
    "\<exists>e. dr_files d = renderFiles (cp_number c) e (selection r) (consequential r (selection r)) \<and> dr_steps e = dr_steps d
      \<and> dr_decision e = dr_decision d"
  using assms unfolding compileDraft_def Let_def selection_def[symmetric] primary_choice_def
  by (auto simp: guardR_def selection_def decision_of_def Let_def split: if_splits)

lemma draft_warnings_ok:
  assumes "in_unit q" "\<forall>w \<in> set ws. \<not> blank w \<and> length w \<le> 500"
  shows "warning_problems (draft_warnings q b ws) = []"
proof -
  have "\<forall>w \<in> set (draft_warnings q b ws). \<not> (blank w \<or> 500 < length w)"
    using assms fixed2_length[OF assms(1)]
    by (auto simp: draft_warnings_def text_starting printable_letters)
  then show ?thesis unfolding warning_problems_def indexed_checks .
qed

lemma compiled_draft_problems:
  assumes c: "compileDraft c intent name timezone r = Inr d" and "checked r" "\<not> blank (jr_model r)"
    and "name = [] \<or> identifier_pattern name" and "\<not> blank timezone" "load_location amb timezone \<noteq> None"
    and "length (renderPlanModule (cp_number c) d) \<le> MaxFileBytes"
  shows "draft_problems amb d name = []"
proof -
  note i = compileDraft_Inr[OF c] and f = compileDraft_fields[OF c] and w = selection_well[of r]
  obtain p where p: "catalogued p" "op_id p = primary_choice r" using checked_facts(7)[OF assms(2)] by (auto simp: catalogued_def)
  have "identifier_pattern (primary_choice r @ ''-workflow'')" using catalog_all[OF catalog_names p(1)] p(2) by simp
  then have "identifier_pattern (draftName (cp_lower c) intent (primary_choice r))" by (rule draftName_identifier)
  then have name: "identifier_pattern (dr_name d)" "\<not> (name \<noteq> [] \<and> dr_name d \<noteq> name)" using assms(4) f(1) by auto
  obtain t where t: "t = compileTrigger (cp_lower c) (an_choice (answer_at (answers_of r) ''trigger'')) intent timezone" "dr_trigger d = fst t"
    "dr_warnings d = draft_warnings (dn_confidence (decision_of r (selection r))) (consequential r (selection r)) (snd t)"
    using f(3) by (elim exE conjE)
  have tok: "trigger_ok amb t" unfolding t(1) by (rule compiled_trigger_ok[OF assms(5,6)])
  have unit: "in_unit (dn_confidence (decision_of r (selection r)))"
    using checked_facts(2-4)[OF assms(2)] by (simp add: decision_of_def Let_def in_unit_def min_le_iff_disj)
  obtain e where e: "dr_files d = renderFiles (cp_number c) e (selection r) (consequential r (selection r))" "dr_steps e = dr_steps d"
    "dr_decision e = dr_decision d" using f(4) by blast
  have plan: "renderPlanModule (cp_number c) e = renderPlanModule (cp_number c) d" using e(2,3) by (simp add: renderPlanModule_def)
  have "draft_trigger_problems amb (dr_trigger d) = []" using tok t(2) by (simp add: trigger_ok_def)
  moreover have "validateSteps (dr_steps d) = []" unfolding i(1) by (rule compiled_steps_valid[OF i(5)])
  moreover have "validateSecrets 0 [] (dr_secrets d) = []"
    unfolding i(3) by (rule validateSecrets_none[OF collected_secrets[OF w]]) simp
  moreover have "validateEgress 0 [] (dr_egress d) = []"
    unfolding i(4) by (rule validateEgress_none[OF collected_egress(1,2)[OF w]]) simp
  moreover have "validateFiles (dr_files d) = []"
    unfolding e(1) using assms(7) by (intro rendered_files_valid[OF w]) (simp add: plan)
  moreover have "decision_problems (dr_decision d) = []" unfolding i(2) by (rule decision_problems_none[OF assms(2,3)])
  moreover have "warning_problems (dr_warnings d) = []"
    unfolding t(3) by (rule draft_warnings_ok[OF unit]) (use tok in \<open>simp add: trigger_ok_def\<close>)
  moreover have "\<not> (blank (dr_description d) \<or> 500 < length (dr_description d))" using description_ok[OF w] by (simp add: f(2))
  ultimately show ?thesis using name unfolding draft_problems_def append_is_Nil_conv only_if_nil by blast
qed

section \<open>The manifest\<close>

definition manifest_trigger :: "draft_trigger \<Rightarrow> trigger" where
  "manifest_trigger t = \<lparr>tg_id = dt_id t, tg_type = dt_type t, tg_enabled = None, tg_config = trigger_config t\<rparr>"

definition manifest_trigger_ok :: "ambient \<Rightarrow> (string \<Rightarrow> string) \<Rightarrow> draft_trigger \<times> string list \<Rightarrow> bool" where
  "manifest_trigger_ok amb cron_text t = (identifier_pattern (dt_id (fst t)) \<and>
     (\<forall>path. trigger_type_problems amb cron_text path (manifest_trigger (fst t)) = []))"

lemma secret_references:
  "validSecretReference ''trigger/email-token''" "validSecretReference ''trigger/ntfy-token''" "validSecretReference ''trigger/webhook''"
  by code_simp+

lemma compiled_manifest_trigger:
  assumes "load_location amb timezone \<noteq> None" "\<And>cron. inferCron lower intent = Some cron \<Longrightarrow> cron_parse amb cron \<noteq> None"
  shows "manifest_trigger_ok amb cron_text (compileTrigger lower choice intent timezone)"
proof (rule compileTrigger_cases)
  show "manifest_trigger_ok amb cron_text (empty_trigger\<lparr>dt_id := ''inbound-email'', dt_type := ''email'',
      dt_token_secret := ''trigger/email-token''\<rparr>, [])"
    by (simp add: manifest_trigger_ok_def trigger_constants manifest_trigger_def trigger_type_problems_def email_problems_def
        unexpectedTriggerConfig_def trigger_config_def string_at_def secret_references)
  show "manifest_trigger_ok amb cron_text (empty_trigger\<lparr>dt_id := ''ntfy-message'', dt_type := ''ntfy'', dt_server := ''https://ntfy.sh'',
      dt_topic := ''replace-with-private-topic'', dt_token_secret := ''trigger/ntfy-token''\<rparr>, ws)" for ws
    by (simp add: manifest_trigger_ok_def trigger_constants manifest_trigger_def trigger_type_problems_def ntfy_problems_def
        unexpectedTriggerConfig_def trigger_config_def string_at_def secret_references)
  show "manifest_trigger_ok amb cron_text (on_demand, ws)" for ws
    by (simp add: manifest_trigger_ok_def trigger_constants manifest_trigger_def trigger_type_problems_def webhook_problems_def
        unexpectedTriggerConfig_def trigger_config_def string_at_def secret_references on_demand_def empty_trigger_def)
  show "manifest_trigger_ok amb cron_text (empty_trigger\<lparr>dt_id := ''scheduled'', dt_type := ''schedule'', dt_cron := cron,
      dt_timezone := timezone\<rparr>, [])" if "inferCron lower intent = Some cron" for cron
  proof -
    have "cron \<noteq> []" using inferCron_star[OF that] by auto
    then show ?thesis using assms(1) assms(2)[OF that]
      by (simp add: manifest_trigger_ok_def trigger_constants manifest_trigger_def trigger_type_problems_def schedule_problems_def
          unexpectedTriggerConfig_def trigger_config_def string_at_def)
  qed
qed

lemma catalog_hosts: "list_all (\<lambda>p. list_all (\<lambda>v. validateEgressHost (dg_host v) = [] \<and> dg_port v = 443) (op_egress p)
    \<and> length (op_egress p) \<le> 2) operationCatalog"
  by code_simp

lemma manifest_egress_valid:
  assumes "well_selected xs"
  shows "length (manifest_egress (collectEgress xs)) \<le> 32" "concat (map egress_problems (enumerate n (manifest_egress (collectEgress xs)))) = []"
proof -
  let ?all = "concat (map (\<lambda>s. op_egress (so_spec s)) xs)"
  have sub: "set (collectEgress xs) \<subseteq> set ?all" unfolding collectEgress_def by (rule collected(1))
  have "distinct (collectEgress xs)" using collected_egress(2)[OF assms] by (simp add: distinct_map)
  then have "length (collectEgress xs) \<le> card (set ?all)" using sub by (metis List.finite_set card_mono distinct_card)
  also have "\<dots> \<le> length ?all" by (rule card_length)
  also have "\<dots> \<le> 2 * length xs"
    unfolding length_concat map_map comp_def using assms catalog_all[OF catalog_hosts]
    by (intro sum_list_le) (auto simp: well_selected_def)
  finally show "length (manifest_egress (collectEgress xs)) \<le> 32" using assms by (simp add: manifest_egress_def well_selected_def)
  have "validateEgressHost (dg_host v) = [] \<and> dg_port v = 443" if "v \<in> set (collectEgress xs)" for v
    using subsetD[OF collected_egress(3)[OF assms] that] catalog_hosts by (auto simp: list_all_iff)
  then have "\<forall>r \<in> set (manifest_egress (collectEgress xs)). validateEgressHost (er_host r) = [] \<and> er_port r = 443 \<and> er_protocol r = []"
    by (auto simp: manifest_egress_def)
  then show "concat (map egress_problems (enumerate n (manifest_egress (collectEgress xs)))) = []"
    by (auto simp: egress_problems_def in_set_enumerate_eq Let_def)
qed

lemma manifest_secrets_valid:
  assumes "well_selected xs"
  shows "concat (map (secret_problems []) (manifest_secrets (collectSecrets xs))) = []"
proof -
  have "set (manifest_secrets (collectSecrets xs)) = (\<lambda>v. (sb_environment v, sb_secret v)) ` set (collectSecrets xs)"
    unfolding manifest_secrets_def by (rule filled_distinct_set[OF collected_secrets(2)[OF assms]])
  then show ?thesis using collected_secrets(1)[OF assms]
    by (auto simp: secret_problems_def secret_ok_def list_all_iff validSecretReference_def)
qed

lemma duration_item_constants:
  "duration_item ''5m'' = Some (300000000000, [])" "duration_item ''30s'' = Some (30000000000, [])"
  "duration_item ''2m'' = Some (120000000000, [])"
  by (simp_all add: duration_item_def duration_unit_def not_number_char_def is_digit_def digit_value_def code_def Let_def)

lemma manifest_durations:
  "ParseDuration ''5m'' = Some (5 * minute)" "ParseDuration ''30s'' = Some (30 * second)" "ParseDuration ''2m'' = Some (2 * minute)"
  by (simp_all add: ParseDuration_def duration_item_constants duration_items.simps minute_def second_def)

lemma manifest_names: "tool_problems (''python'', ''3.13.7'') = []" "identifier_pattern ''syntax''" "identifier_pattern ''tests''"
  by code_simp+

lemma python3_not_blank: "\<not> blank ''python3''"
  by (rule list_ex_not_blank) (simp add: printable_ascii_def code_def)

lemma manifest_checks: "indexed_problems dc_id check_problems ''deployment.checks'' 0 [] draft_checks = []"
  using python3_not_blank manifest_durations
  by (simp add: draft_checks_def manifest_names check_problems_def minute_def second_def Let_def)

lemmas manifest_constants = manifest_names(1) manifest_checks python3_not_blank manifest_durations(1)

lemma generated_manifest_valid:
  assumes c: "compileDraft c intent name timezone r = Inr d" and "identifier_pattern (dr_name d)" "load_location amb timezone \<noteq> None"
    and "\<And>cron. inferCron (cp_lower c) intent = Some cron \<Longrightarrow> cron_parse amb cron \<noteq> None" and "project \<noteq> []"
  shows "Validate amb cron_text (buildManifest d project folder) = Inr ()"
proof -
  let ?m = "buildManifest d project folder"
  note i = compileDraft_Inr[OF c] and w = selection_well[of r]
  obtain t where t: "t = compileTrigger (cp_lower c) (an_choice (answer_at (answers_of r) ''trigger'')) intent timezone" "dr_trigger d = fst t"
    using compileDraft_fields(3)[OF c] by (elim exE conjE)
  have tr: "manifest_trigger_ok amb cron_text t" unfolding t(1) by (rule compiled_manifest_trigger[OF assms(3,4)])
  then have trigger: "indexed_problems tg_id (trigger_type_problems amb cron_text) ''triggers'' 0 [] (mf_triggers ?m) = []"
    by (simp add: buildManifest_def manifest_trigger_ok_def manifest_trigger_def t(2))
  have runtime: "runtime_problems (mf_runtime ?m) = []"
    using manifest_egress_valid[OF w] manifest_constants by (simp add: runtime_problems_def buildManifest_def i(4) maxEgressRules_def)
  have secret: "concat (map (secret_problems (rn_environment (mf_runtime ?m))) (rn_secrets (mf_runtime ?m))) = []"
    using manifest_secrets_valid[OF w] by (simp add: buildManifest_def i(3))
  have execution: "execution_problems (mf_execution ?m) = []"
    using manifest_constants(4) by (simp add: execution_problems_def buildManifest_def minute_def second_def)
  have "manifest_problems amb cron_text ?m = []"
    unfolding manifest_problems_def trigger runtime secret execution
    using assms(2,5) manifest_constants(2) by (simp add: buildManifest_def)
  then show ?thesis by (simp add: Validate_def guardR_def)
qed

text \<open>
  C39: Checked answers always give a valid automation. Whatever the model answers, if its answers pass
  the check and the response names its model, then with no requested name or one of the identifier
  pattern, and with a time zone that is not blank and can be loaded, they compile to a draft. If
  the source text of its plan stays within the limit of a file, the draft passes its own
  validation; and then the manifest generated from it for a project passes the validation of
  manifests, when the schedule inferred from the intent, if any, is one the cron parser reads.
\<close>

theorem checked_answers_give_valid_automation:
  assumes "validateAnswers (answers_of r) planningQuestions = Inr ()" and "\<not> blank (jr_model r)"
    and "name = [] \<or> identifier_pattern name" and "\<not> blank timezone" and "load_location amb timezone \<noteq> None"
  shows "\<exists>d. compileDraft c intent name timezone r = Inr d
    \<and> (length (renderPlanModule (cp_number c) d) \<le> MaxFileBytes \<longrightarrow>
        draft_Validate amb d name = Inr ()
        \<and> (project \<noteq> [] \<and> (\<forall>cron. inferCron (cp_lower c) intent = Some cron \<longrightarrow> cron_parse amb cron \<noteq> None)
           \<longrightarrow> Validate amb cron_text (buildManifest d project folder) = Inr ()))"
proof -
  have ch: "checked r" using assms(1) by (simp add: checked_def)
  obtain p where "catalogued p" "op_id p = primary_choice r" using checked_facts(7)[OF ch] by (auto simp: catalogued_def)
  then have "operationByID (primary_choice r) \<noteq> None" using operationByID_catalogued by force
  then obtain d where d: "compileDraft c intent name timezone r = Inr d" using compileDraft_total by blast
  note problems = compiled_draft_problems[OF d ch assms(2-5)]
  moreover have "identifier_pattern (dr_name d)" if "draft_problems amb d name = []"
    using that unfolding draft_problems_def append_is_Nil_conv only_if_nil by blast
  ultimately show ?thesis using d generated_manifest_valid[OF d _ assms(5)] by (auto simp: draft_Validate_def Let_def guardR_def)
qed

section \<open>Examples\<close>

definition sample_answer :: "(string \<Rightarrow> rat) \<Rightarrow> string \<Rightarrow> string \<times> question \<Rightarrow> answer" where
  "sample_answer noul choice item = (case item of (i, q) \<Rightarrow> (case qn_criteria q of
        NoCriteria \<Rightarrow> zero_answer\<lparr>an_type := ''noul'', an_noul := noul i\<rparr>
      | Choices cs \<Rightarrow>
          (let chosen = (if i = ''trigger'' then ''webhook'' else choice) in
           zero_answer\<lparr>an_type := ''choice'', an_choice := chosen, an_confidence := 1,
             an_probabilities := map (\<lambda>(k, _). (k, if k = chosen then 1 else 0)) cs\<rparr>)
      | Levels _ \<Rightarrow> zero_answer\<lparr>an_type := ''score'', an_confidence := 1\<rparr>))"

definition sample_jev :: "(string \<Rightarrow> rat) \<Rightarrow> string \<Rightarrow> jev_response" where
  "sample_jev noul choice = \<lparr>jr_model = ''jev-1'', jr_answers = Some (map (\<lambda>item. (fst item, sample_answer noul choice item)) planningQuestions),
     jr_input_tokens = 10, jr_output_tokens = 20\<rparr>"

lemma questions_distinct: "distinct (map fst planningQuestions)"
  by code_simp

lemma sample_answers:
  assumes "(i, q) \<in> set planningQuestions"
  shows "map_of (answers_of (sample_jev noul choice)) i = Some (sample_answer noul choice (i, q))"
  by (rule map_of_is_SomeI) (use assms questions_distinct in \<open>simp_all add: answers_of_def sample_jev_def comp_def image_iff\<close>, force)

text \<open>The questions with criteria are the trigger, the primary operation and the risk.\<close>

definition choice_fine :: "string \<Rightarrow> string \<times> question \<Rightarrow> bool" where
  "choice_fine choice item = (case item of (i, q) \<Rightarrow> (case qn_criteria q of
      NoCriteria \<Rightarrow> qn_type q = ''noul''
    | Choices cs \<Rightarrow> qn_type q = ''choice'' \<and>
        (let chosen = (if i = ''trigger'' then ''webhook'' else choice) in
         list_ex (\<lambda>c. fst c = chosen) cs \<and>
         validateDistribution (map (\<lambda>(k, _). (k, if k = chosen then 1 else 0)) cs) cs = Inr ())
    | Levels ls \<Rightarrow> qn_type q = ''score''))"

lemma sample_answers_checked:
  assumes "list_all (choice_fine choice) planningQuestions" "\<And>i. in_unit (noul i)"
  shows "validateAnswers (answers_of (sample_jev noul choice)) planningQuestions = Inr ()"
  unfolding validateAnswers_Inr
proof
  fix item assume item: "item \<in> set planningQuestions"
  obtain i q where iq: "item = (i, q)" by (cases item)
  have fine: "choice_fine choice (i, q)" using assms(1) item iq by (auto simp: list_all_iff)
  note a = sample_answers[OF item[unfolded iq], of noul choice]
  show "validate_answer (answers_of (sample_jev noul choice)) item = Inr ()"
  proof (cases "qn_criteria q")
    case NoCriteria
    with fine a assms(2) show ?thesis unfolding iq
      by (simp add: validate_answer_def choice_fine_def sample_answer_def guardR_def)
  next
    case (Choices cs)
    define chosen where "chosen = (if i = ''trigger'' then ''webhook'' else choice)"
    have f: "qn_type q = ''choice''" "list_ex (\<lambda>c. fst c = chosen) cs"
      "validateDistribution (map (\<lambda>(k, _). (k, if k = chosen then 1 else 0)) cs) cs = Inr ()"
      using fine Choices unfolding chosen_def by (simp_all add: choice_fine_def Let_def)
    have "chosen \<in> fst ` set cs" using f(2) by (auto simp: list_ex_iff)
    moreover have "sample_answer noul choice (i, q) = zero_answer\<lparr>an_type := ''choice'', an_choice := chosen, an_confidence := 1,
        an_probabilities := map (\<lambda>(k, _). (k, if k = chosen then 1 else 0)) cs\<rparr>"
      by (simp add: sample_answer_def Choices Let_def chosen_def)
    ultimately show ?thesis using a f(1,3) Choices unfolding iq
      by (simp add: validate_answer_def guardR_def in_unit_def)
  next
    case (Levels ls)
    with fine a show ?thesis unfolding iq
      by (simp add: validate_answer_def choice_fine_def sample_answer_def guardR_def zero_answer_def in_unit_def)
  qed
qed

lemma update_fine: "list_all (choice_fine ''sheets-update'') planningQuestions"
  by code_simp

text \<open>
  With seven candidates the list is cut before the conflict between updating and clearing a sheet is
  resolved. Answers that pass the check and name the update as the main outcome give a plan that
  clears the sheet and does not update it.
\<close>

lemma relevance_distinct: "list_all (\<lambda>p. (relevanceQuestion (op_id p) = relevanceQuestion ''operator-notify'')
    = (op_id p = ''operator-notify'')) operationCatalog"
  by code_simp

definition cut_noul :: "string \<Rightarrow> rat" where
  "cut_noul i = (if i = relevanceQuestion ''operator-notify'' then 0 else 1)"

definition cut_response :: jev_response where
  "cut_response = sample_jev cut_noul ''sheets-update''"

lemma cut_checked: "validateAnswers (answers_of cut_response) planningQuestions = Inr ()"
  unfolding cut_response_def by (rule sample_answers_checked[OF update_fine]) (simp add: cut_noul_def in_unit_def)

lemma threshold_facts: "operationSelectionThreshold \<le> 1" "0 < operationSelectionThreshold" "0 < primaryCandidateThreshold"
  by code_simp+

lemma sort_key_of_map: "sort_key f (map g xs) = map g (sort_key (\<lambda>x. f (g x)) xs)"
proof -
  have "insort_key f (g x) (map g ys) = map g (insort_key (\<lambda>x. f (g x)) x ys)" for x ys by (induction ys) auto
  then show ?thesis by (induction xs) simp_all
qed

lemma first_selection_ids: "map so_id (first_selection r) =
    take 6 (map op_id (sort_key op_stage (sort_key op_id (filter (\<lambda>p. candidate r (op_id p)) operationCatalog))))"
  by (simp add: first_selection_alt sort_key_of_map as_selected_def take_map[symmetric] comp_def)

lemma primary_criteria: "qn_criteria (fixed_question (Suc 0)) = Choices (map (\<lambda>p. (op_id p, op_description p)) operationCatalog)"
  using fixed_question_criteria(2) by simp

lemma cut_candidate:
  assumes "catalogued p"
  shows "candidate cut_response (op_id p) \<longleftrightarrow> op_id p \<noteq> ''operator-notify''"
proof -
  have "relevance_question p \<in> set planningQuestions" using assms by (simp add: planningQuestions_def catalogued_def)
  then have "map_of (answers_of cut_response) (relevanceQuestion (op_id p)) =
      Some (sample_answer cut_noul ''sheets-update'' (relevance_question p))"
    unfolding cut_response_def relevance_question_def by (rule sample_answers)
  then have n: "an_noul (answer_at (answers_of cut_response) (relevanceQuestion (op_id p))) = cut_noul (relevanceQuestion (op_id p))"
    by (simp add: answer_at_def sample_answer_def relevance_question_def noul_question_def)
  define a where "a = sample_answer cut_noul ''sheets-update'' (''primary_operation'', fixed_question 1)"
  have pa: "answer_at (answers_of cut_response) ''primary_operation'' = a"
    using sample_answers[OF fixed_question_members(2), of cut_noul "''sheets-update''"] by (simp add: cut_response_def answer_at_def a_def)
  have choice: "an_choice a = ''sheets-update''"
    by (simp add: a_def sample_answer_def primary_criteria Let_def)
  have prob: "probability_at a ''operator-notify'' = 0"
    by (simp add: a_def sample_answer_def primary_criteria Let_def probability_at_def operationCatalog_def)
  have "relevanceQuestion (op_id p) = relevanceQuestion ''operator-notify'' \<longleftrightarrow> op_id p = ''operator-notify''"
    using catalog_all[OF relevance_distinct assms] by simp
  then have "cut_noul (relevanceQuestion (op_id p)) = (if op_id p = ''operator-notify'' then 0 else 1)" by (simp add: cut_noul_def)
  with n pa choice prob threshold_facts show ?thesis
    by (simp add: candidate_def primary_choice_def)
qed

lemma cut_plan:
  "primary_choice cut_response = ''sheets-update''"
  "map so_id (choose_operations cut_response) =
     [''sheets-read'', ''zoom-recording'', ''openai-transcribe'', ''openai-vision'', ''openai-chat'', ''sheets-clear'']"
proof -
  show p: "primary_choice cut_response = ''sheets-update''"
    using sample_answers[OF fixed_question_members(2), of cut_noul "''sheets-update''"]
    by (simp add: primary_choice_def cut_response_def answer_at_def sample_answer_def primary_criteria Let_def)
  have "filter (\<lambda>p. candidate cut_response (op_id p)) operationCatalog = filter (\<lambda>p. op_id p \<noteq> ''operator-notify'') operationCatalog"
    by (rule filter_cong[OF refl]) (simp add: cut_candidate catalogued_def)
  then have "map so_id (first_selection cut_response) =
      take 6 (map op_id (sort_key op_stage (sort_key op_id (filter (\<lambda>p. op_id p \<noteq> ''operator-notify'') operationCatalog))))"
    by (simp add: first_selection_ids)
  also have "\<dots> = [''sheets-read'', ''zoom-recording'', ''openai-transcribe'', ''openai-vision'', ''openai-chat'', ''sheets-clear'']"
    by code_simp
  finally have f: "map so_id (first_selection cut_response) =
      [''sheets-read'', ''zoom-recording'', ''openai-transcribe'', ''openai-vision'', ''openai-chat'', ''sheets-clear'']" .
  have "''sheets-update'' \<notin> so_id ` set (first_selection cut_response)" using arg_cong[OF f, of set] by simp
  then have "resolveOperationConflicts (first_selection cut_response) (primary_choice cut_response) = first_selection cut_response"
    by (simp add: resolveOperationConflicts_def last_index_absent[THEN iffD2])
  with f show "map so_id (choose_operations cut_response) =
     [''sheets-read'', ''zoom-recording'', ''openai-transcribe'', ''openai-vision'', ''openai-chat'', ''sheets-clear'']"
    by (simp add: choose_operations_alt)
qed

theorem checked_answers_give_valid_automation_witness:
  "\<exists>d. compileDraft sample_compiler ''update the weekly sheet'' [] ''Europe/Amsterdam'' cut_response = Inr d"
proof -
  have "\<not> blank (jr_model cut_response)" "\<not> blank ''Europe/Amsterdam''"
    by (rule list_ex_not_blank; simp add: cut_response_def sample_jev_def printable_ascii_def code_def)+
  moreover have "load_location (sample_ambient 1 0) ''Europe/Amsterdam'' \<noteq> None" by (simp add: sample_ambient_def)
  ultimately show ?thesis using checked_answers_give_valid_automation[OF cut_checked] by blast
qed

end
