(* ===== verification/Spec2Isabelle.thy ===== *)
theory Spec2Isabelle
  imports Paths Investigation RunProperties DeploymentProperties ApprovalProofs NotificationProofs
    SecretProofs RetentionProofs InvestigationProofs ManifestProofs ExecutionProofs
    ProvenanceProofs SecretVault SystemProofs StoreHistory RunWorker DeployerProofs IntakeProofs NotifierProofs
    AuthoringProofs
begin

text \<open>
  \<^bold>\<open>Werkt: the store and the services around it.\<close>

  Werkt runs small automations. A package with a manifest is uploaded, built and checked by a
  deployment worker and published as a revision of an automation. Triggers (webhooks, schedules,
  manual requests, deferrals and approvals) become events and queued runs; run workers claim
  runs under a lease, execute them and complete them together with the automation's state, a
  deferred run, an approval request and notifications. Everything the parts share is in one
  PostgreSQL database, and the correctness of the program is the correctness of the store
  operations under \<open>src/internal/database\<close>, which is the core of this development.

  \<^bold>\<open>How the program is modelled.\<close> A value of the record \<open>db\<close> (\<open>Schema\<close>) holds one list of rows
  for every table of \<open>migrations/\<close>. A store method is a function from its arguments and a \<open>db\<close> to
  a result and a \<open>db\<close>; \<open>transact\<close> wraps the methods that run in one transaction, so an error
  rolls back. Errors are the values of \<open>store_error\<close>, one for every error variable the code
  returns and \<open>ErrDatabase\<close> for a violated constraint. What a method reads from outside its
  arguments (the clock of the database and of the process, random bytes, the locks other sessions
  hold, the collation, the time zone table and the cron parser) is the record \<open>ambient\<close>; every
  theorem holds for all of it. Code that is not in the repository is an argument of the
  definition that calls it: the cron parser and location loader, \<open>url.Parse\<close>, directory sizes and
  removal, the HTTP client, the decoders of YAML, JSON and JPEG, the hash, signature and cipher primitives (\<open>crypto\<close>,
  \<open>aead\<close>), and the process a run starts (\<open>runner_host\<close>). Theorems that need more of such code than
  its type name the law they use as a hypothesis, and their witnesses satisfy it.

  \<^bold>\<open>Theories.\<close>
  \<^item> \<open>Prelude\<close>, \<open>GoStrings\<close>, \<open>GoTime\<close>, \<open>Sql\<close>: results and guards, Go's string functions, durations
    and instants in nanoseconds, the table operations (select, update, delete, order, limit) and
    the locale \<open>keyed_table\<close>, which every table with a key interprets.
  \<^item> \<open>Paths\<close>: \<open>database/paths.go\<close> and \<open>packageio.safeArchivePath\<close> over a model of \<open>path/filepath\<close>.
  \<^item> \<open>Domain\<close>, \<open>Investigation\<close>: \<open>internal/domain\<close>.
  \<^item> \<open>Schema\<close>: the tables, the ambient inputs, identifiers, audit and notification inserts.
  \<^item> \<open>RunQueue\<close>, \<open>Leases\<close>, \<open>RunQueueProofs\<close>, \<open>RunProperties\<close>: events, schedules, runs. \<open>Leases\<close> is the
    contract of a leased queue (\<open>locale lease_queue\<close>); runs, deployments and notification
    deliveries interpret it.
  \<^item> \<open>Deployments\<close>, \<open>DeploymentQueue\<close>, \<open>DeploymentProofs\<close>, \<open>DeploymentProperties\<close>: publication,
    rollback and the deployment jobs.
  \<^item> \<open>Approvals\<close>, \<open>ApprovalProofs\<close>: approvals and their decisions.
  \<^item> \<open>Notifications\<close>, \<open>NotificationProofs\<close>: the outbox and its deliveries.
  \<^item> \<open>SecretStore\<close>, \<open>SecretProofs\<close>: encrypted secrets and their references.
  \<^item> \<open>InvestigationStore\<close>, \<open>InvestigationProofs\<close>: investigations and their versions.
  \<^item> \<open>RetentionStore\<close>, \<open>RetentionManager\<close>, \<open>RetentionProofs\<close>: planning and applying retention.
  \<^item> \<open>Manifest\<close>, \<open>ManifestProofs\<close>: \<open>manifest.Validate\<close>, the egress rules and the content hash.
  \<^item> \<open>RunControl\<close>, \<open>Execution\<close>, \<open>ExecutionProofs\<close>: \<open>internal/runner\<close> up to the process executor: the
    check of what a run asks for, its environment and secrets, and the redaction of its logs.
  \<^item> \<open>Encodings\<close>, \<open>Provenance\<close>, \<open>ProvenanceProofs\<close>: base64, quoting and JSON text; digests, attestations
    and verification of artifacts (\<open>internal/provenance\<close>).
  \<^item> \<open>SecretVault\<close>: \<open>internal/secretvault\<close> on top of the secret store, up to the environment and the
    logs of a run that uses a secret.
  \<^item> \<open>StoreOps\<close>, \<open>SystemProofs\<close>: all operations of the store, with whatever arguments, as one transition
    system (\<open>reachable\<close>): every operation keeps the invariant of all tables (\<open>store_ok\<close>) and leads to
    a state that follows the one before it (\<open>follows\<close>: decided approvals, finished runs, expanded
    events, cancelled deployments and state versions never go back). Two further clauses
    (\<open>publications_ok\<close>: an active revision has its artifact, and a revision with an artifact has
    exactly the secret references of its manifest) hold along \<open>properly_reachable\<close>, where what is
    published has an artifact path and packages with the same content hash name the same secrets;
    the hash alone does not guarantee that. \<open>SystemProofs\<close> adds what repeated deliveries of an
    event see after any history, and what a failed operation may leave behind.
  \<^item> \<open>StoreHistory\<close>: what stays true from an operation on, over all later histories: a decision of an
    approval, the version of a state, a cancelled deployment, an open investigation, an expanded
    notification event.
  \<^item> \<open>RunWorker\<close>: \<open>service/worker.go\<close>. Workers, crashes and all other callers of the store interleave
    (\<open>plane_step\<close>); the system refines the automaton \<open>lifecycle\<close> of a run, whose phases carry the time
    at which a waiting run is due and the time at which a lease ends: a run moves to another
    worker only after that time. The automaton bounds the failures that can be recorded for a run
    and makes finished runs final.
  \<^item> \<open>Deployer\<close>, \<open>DeployerProofs\<close>: \<open>service/deployer.go\<close>, \<open>deployment_worker.go\<close>, \<open>provenance.go\<close> and
    \<open>sdk/python/embed.go\<close>: a package becomes an attested artifact, the artifact a revision; the
    custodian verifies all of them.
  \<^item> \<open>Archive\<close>, \<open>ArchiveProofs\<close>, \<open>ArchiveRoundTrip\<close>: \<open>internal/packageio\<close>: the reception, extraction and
    writing of packages; what an extraction can leave behind, and that a written archive extracts
    to the package it was written for.
  \<^item> \<open>Intake\<close>, \<open>IntakeProofs\<close>: \<open>service/deployment_intake.go\<close> on top of the archive and the deployment queue.
  \<^item> \<open>Messages\<close>, \<open>Notifier\<close>, \<open>NotifierProofs\<close>: \<open>internal/notification\<close> and \<open>service/notification_worker.go\<close>: the
    configuration of destinations and routes, messages, the requests to the five providers, and the
    iteration of the worker that claims a delivery, sends it and records the outcome.
  \<^item> \<open>Drafts\<close>, \<open>Drafting\<close>, \<open>Rendering\<close>, \<open>Authoring\<close>, \<open>DraftPackage\<close>, \<open>DraftProofs\<close>, \<open>CompileProofs\<close>,
    \<open>AuthoringProofs\<close>: \<open>internal/authoring\<close>: a draft and its validation, the questions to the decision
    model and the check of its answers, the compilation of the answers into steps, source files
    and a manifest; consequential drafts are gated by an approval, and checked answers always
    give a valid automation.
  \<^item> \<open>Samples\<close>: a small concrete system on which the theorems are exercised.

  \<^bold>\<open>Bounds.\<close> The recursive query for the retries of a deployment is searched with the number of
  deployments as fuel, and \<open>retries_of_is_transitive_closure\<close> shows that this is enough; the search
  for a cycle in the steps of a draft has one more than the number of steps, and
  \<open>cycle_search_decides\<close> shows that it always answers, and rightly. No other definition has fuel; the
  three attempts of the authoring client are the code's own bound. Instants are integers of
  nanoseconds and are not rounded to the database's microseconds; counters that PostgreSQL stores
  as \<open>integer\<close> are checked against its range where a client can choose them.

  \<^bold>\<open>Not modelled.\<close> Concurrent sessions inside one transaction (an operation is atomic; the rows
  other sessions have locked are an input of the operations that skip locked rows), the HTTP API
  and its clients, the virtual machine executor, the loops of the scheduler and the supervisor,
  configuration and the command line.
\<close>

end
